(* ===== verification/Prelude.thy ===== *)
theory Prelude
  imports Main "HOL-Library.Word"
begin

unbundle bit_operations_syntax

text \<open>
  Shared vocabulary of the development: the machine integers and addresses of the
  simulator, the outcome type of an operation that may stop the simulation, the bit-flag
  container of \<^verbatim>\<open>base/flags.hh\<close> and generic list and word lemmas.

  A handler of the simulator either completes, or stops the simulation in one of the
  ways the sources use: \<open>panic\<close>, \<open>fatal\<close>, a failing \<open>assert\<close>, or a read whose
  value the language leaves undefined (a null or mistyped pointer, an uninitialised
  local, a missing return). Each is a value of \<open>sim_error\<close>, so that every such branch
  of the source is a branch of the model.
\<close>

section \<open>Machine integers\<close>

type_synonym u8 = "8 word"
type_synonym u16 = "16 word"
type_synonym u32 = "32 word"
type_synonym u64 = "64 word"

text \<open>\<open>Addr\<close> and \<open>Tick\<close> are both 64-bit unsigned integers in \<^verbatim>\<open>base/types.hh\<close>.\<close>

type_synonym addr = "64 word"

section \<open>Outcomes\<close>

datatype sim_error =
    Panic string
  | Fatal string
  | AssertFail string
  | Undefined string

type_synonym 'a outcome = "sim_error + 'a"

fun rbind :: "'a outcome \<Rightarrow> ('a \<Rightarrow> 'b outcome) \<Rightarrow> 'b outcome" where
  "rbind (Inl e) f = Inl e"
| "rbind (Inr x) f = f x"

definition assert_that :: "bool \<Rightarrow> string \<Rightarrow> unit outcome" where
  "assert_that b msg = (if b then Inr () else Inl (AssertFail msg))"

text \<open>A pointer that is dereferenced: a null pointer has no object behind it.\<close>

fun deref :: "'a option \<Rightarrow> 'a outcome" where
  "deref None = Inl (Undefined ''null pointer'')"
| "deref (Some x) = Inr x"

text \<open>A C array read: out of range there is no value.\<close>

definition array_at :: "'a list \<Rightarrow> nat \<Rightarrow> 'a outcome" where
  "array_at xs i = (if i < length xs then Inr (xs ! i) else Inl (Undefined ''array index''))"

lemma rbind_Inr_iff [simp]:
  "rbind r f = Inr y \<longleftrightarrow> (\<exists>x. r = Inr x \<and> f x = Inr y)"
  by (cases r) auto

lemma rbind_Inl_iff:
  "rbind r f = Inl e \<longleftrightarrow> r = Inl e \<or> (\<exists>x. r = Inr x \<and> f x = Inl e)"
  by (cases r) auto

lemma rbind_cong [fundef_cong]:
  "r = s \<Longrightarrow> (\<And>x. s = Inr x \<Longrightarrow> f x = g x) \<Longrightarrow> rbind r f = rbind s g"
  by (cases s) auto

lemma rbind_assoc: "rbind (rbind r f) g = rbind r (\<lambda>x. rbind (f x) g)"
  by (cases r) auto

lemma rbind_right_Inr [simp]: "rbind r Inr = r"
  by (cases r) auto

lemma assert_that_True [simp]: "assert_that True msg = Inr ()"
  by (simp add: assert_that_def)

lemma assert_that_False [simp]: "assert_that False msg = Inl (AssertFail msg)"
  by (simp add: assert_that_def)

lemma assert_that_Inr_iff [simp]: "assert_that b msg = Inr u \<longleftrightarrow> b"
  by (simp add: assert_that_def)

lemma rbind_assert [simp]:
  "rbind (assert_that b msg) f = (if b then f () else Inl (AssertFail msg))"
  by (simp add: assert_that_def)

lemma deref_Inr_iff [simp]: "deref p = Inr x \<longleftrightarrow> p = Some x"
  by (cases p) auto

lemma array_at_Inr_iff [simp]: "array_at xs i = Inr x \<longleftrightarrow> i < length xs \<and> xs ! i = x"
  by (auto simp: array_at_def)

definition ok :: "'a outcome \<Rightarrow> bool" where
  "ok r \<longleftrightarrow> (\<exists>x. r = Inr x)"

lemma ok_simps [simp]: "ok (Inr x)" "\<not> ok (Inl e)"
  by (simp_all add: ok_def)

lemma ok_rbind: "ok (rbind r f) \<longleftrightarrow> (\<exists>x. r = Inr x \<and> ok (f x))"
  by (cases r) auto

section \<open>Bit flags\<close>

text \<open>The operations of \<^verbatim>\<open>Flags<T>\<close> (\<^verbatim>\<open>base/flags.hh\<close>) on the underlying word.\<close>

definition flag_isSet :: "'a::len word \<Rightarrow> 'a word \<Rightarrow> bool" where
  "flag_isSet fl m = ((fl AND m) \<noteq> 0)"

definition flag_set :: "'a::len word \<Rightarrow> 'a word \<Rightarrow> 'a word" where
  "flag_set fl m = fl OR m"

definition flag_clear :: "'a::len word \<Rightarrow> 'a word \<Rightarrow> 'a word" where
  "flag_clear fl m = fl AND NOT m"

lemma flag_set_same [simp]: "m \<noteq> 0 \<Longrightarrow> flag_isSet (flag_set fl m) m"
  by (simp add: flag_isSet_def flag_set_def and.commute[of _ m])

lemma flag_clear_same [simp]: "\<not> flag_isSet (flag_clear fl m) m"
  by (simp add: flag_isSet_def flag_clear_def and.assoc)

lemma flag_set_other:
  "m AND m' = 0 \<Longrightarrow> flag_isSet (flag_set fl m) m' = flag_isSet fl m'"
  by (simp add: flag_isSet_def flag_set_def bit.conj_disj_distrib2)

lemma flag_clear_other:
  assumes "m AND m' = 0"
  shows "flag_isSet (flag_clear fl m) m' = flag_isSet fl m'"
proof -
  have "bit m' i \<Longrightarrow> \<not> bit m i" for i
    using arg_cong[OF assms, of "\<lambda>w. bit w i"] by (simp add: bit_simps)
  then have "(fl AND NOT m) AND m' = fl AND m'"
    by (intro bit_word_eqI) (auto simp: bit_simps)
  then show ?thesis
    by (simp add: flag_isSet_def flag_clear_def)
qed

text \<open>Machine numbers that stand for small counters are equal only when the counters are.\<close>

lemma of_nat_u64_inj:
  assumes "a < 2 ^ 64" "b < 2 ^ 64" "(of_nat a :: u64) = of_nat b"
  shows "a = b"
  using assms by (simp add: word_unat_eq_iff unat_of_nat take_bit_nat_eq_self)

end
