(* ===== verification/MemCmds.thy ===== *)
theory MemCmds
  imports Prelude
begin

text \<open>
  The memory commands of \<^verbatim>\<open>mem/packet.hh\<close> and \<^verbatim>\<open>mem/packet.cc\<close>: the enumeration
  \<open>MemCmd::Command\<close>, the command attributes, the table \<open>commandInfo\<close> that gives every
  command its attributes, its response and its name, and the queries on it. The table is
  an array indexed by the enumerator's value; two slots belong to deprecated commands that
  have no enumerator any more, which is why the values of the later enumerators are shifted.
\<close>

section \<open>Commands and attributes\<close>

datatype Command =
    InvalidCmd | ReadReq | ReadResp | ReadRespWithInvalidate | WriteReq | WriteResp
    | WriteCompleteResp | WritebackDirty | WritebackClean | WriteClean | CleanEvict
    | SoftPFReq | SoftPFExReq | HardPFReq | SoftPFResp | HardPFResp | WriteLineReq
    | UpgradeReq | SCUpgradeReq | UpgradeResp | SCUpgradeFailReq | UpgradeFailResp
    | ReadExReq | ReadExResp | ReadCleanReq | ReadSharedReq | LoadLockedReq | StoreCondReq
    | StoreCondFailReq | StoreCondResp | LockedRMWReadReq | LockedRMWReadResp
    | LockedRMWWriteReq | LockedRMWWriteResp | SwapReq | SwapResp | MemFenceReq
    | MemSyncReq | MemSyncResp | MemFenceResp | CleanSharedReq | CleanSharedResp
    | CleanInvalidReq | CleanInvalidResp | InvalidDestError | BadAddressError | ReadError
    | WriteError | FunctionalReadError | FunctionalWriteError | PrintReq | FlushReq
    | InvalidateReq | InvalidateResp | HTMReq | HTMReqResp | HTMAbort | TlbiExtSync

fun Command_val :: "Command \<Rightarrow> nat" where
  "Command_val InvalidCmd = 0"
| "Command_val ReadReq = 1"
| "Command_val ReadResp = 2"
| "Command_val ReadRespWithInvalidate = 3"
| "Command_val WriteReq = 4"
| "Command_val WriteResp = 5"
| "Command_val WriteCompleteResp = 6"
| "Command_val WritebackDirty = 7"
| "Command_val WritebackClean = 8"
| "Command_val WriteClean = 9"
| "Command_val CleanEvict = 10"
| "Command_val SoftPFReq = 11"
| "Command_val SoftPFExReq = 12"
| "Command_val HardPFReq = 13"
| "Command_val SoftPFResp = 14"
| "Command_val HardPFResp = 15"
| "Command_val WriteLineReq = 16"
| "Command_val UpgradeReq = 17"
| "Command_val SCUpgradeReq = 18"
| "Command_val UpgradeResp = 19"
| "Command_val SCUpgradeFailReq = 20"
| "Command_val UpgradeFailResp = 21"
| "Command_val ReadExReq = 22"
| "Command_val ReadExResp = 23"
| "Command_val ReadCleanReq = 24"
| "Command_val ReadSharedReq = 25"
| "Command_val LoadLockedReq = 26"
| "Command_val StoreCondReq = 27"
| "Command_val StoreCondFailReq = 28"
| "Command_val StoreCondResp = 29"
| "Command_val LockedRMWReadReq = 30"
| "Command_val LockedRMWReadResp = 31"
| "Command_val LockedRMWWriteReq = 32"
| "Command_val LockedRMWWriteResp = 33"
| "Command_val SwapReq = 34"
| "Command_val SwapResp = 35"
| "Command_val MemFenceReq = 38"
| "Command_val MemSyncReq = 39"
| "Command_val MemSyncResp = 40"
| "Command_val MemFenceResp = 41"
| "Command_val CleanSharedReq = 42"
| "Command_val CleanSharedResp = 43"
| "Command_val CleanInvalidReq = 44"
| "Command_val CleanInvalidResp = 45"
| "Command_val InvalidDestError = 46"
| "Command_val BadAddressError = 47"
| "Command_val ReadError = 48"
| "Command_val WriteError = 49"
| "Command_val FunctionalReadError = 50"
| "Command_val FunctionalWriteError = 51"
| "Command_val PrintReq = 52"
| "Command_val FlushReq = 53"
| "Command_val InvalidateReq = 54"
| "Command_val InvalidateResp = 55"
| "Command_val HTMReq = 56"
| "Command_val HTMReqResp = 57"
| "Command_val HTMAbort = 58"
| "Command_val TlbiExtSync = 59"

datatype Attribute =
    IsRead | IsWrite | IsUpgrade | IsInvalidate | IsClean | NeedsWritable | IsRequest
    | IsResponse | NeedsResponse | IsEviction | IsSWPrefetch | IsHWPrefetch | IsLlsc
    | IsLockedRMW | HasData | IsError | IsPrint | IsFlush | FromCache

fun Attribute_val :: "Attribute \<Rightarrow> nat" where
  "Attribute_val IsRead = 0"
| "Attribute_val IsWrite = 1"
| "Attribute_val IsUpgrade = 2"
| "Attribute_val IsInvalidate = 3"
| "Attribute_val IsClean = 4"
| "Attribute_val NeedsWritable = 5"
| "Attribute_val IsRequest = 6"
| "Attribute_val IsResponse = 7"
| "Attribute_val NeedsResponse = 8"
| "Attribute_val IsEviction = 9"
| "Attribute_val IsSWPrefetch = 10"
| "Attribute_val IsHWPrefetch = 11"
| "Attribute_val IsLlsc = 12"
| "Attribute_val IsLockedRMW = 13"
| "Attribute_val HasData = 14"
| "Attribute_val IsError = 15"
| "Attribute_val IsPrint = 16"
| "Attribute_val IsFlush = 17"
| "Attribute_val FromCache = 18"

text \<open>Every enumerator, in the order of the source.\<close>

definition all_Commands :: "Command list" where
  "all_Commands =
    [InvalidCmd, ReadReq, ReadResp, ReadRespWithInvalidate, WriteReq, WriteResp,
     WriteCompleteResp, WritebackDirty, WritebackClean, WriteClean, CleanEvict, SoftPFReq,
     SoftPFExReq, HardPFReq, SoftPFResp, HardPFResp, WriteLineReq, UpgradeReq,
     SCUpgradeReq, UpgradeResp, SCUpgradeFailReq, UpgradeFailResp, ReadExReq, ReadExResp,
     ReadCleanReq, ReadSharedReq, LoadLockedReq, StoreCondReq, StoreCondFailReq,
     StoreCondResp, LockedRMWReadReq, LockedRMWReadResp, LockedRMWWriteReq,
     LockedRMWWriteResp, SwapReq, SwapResp, MemFenceReq, MemSyncReq, MemSyncResp,
     MemFenceResp, CleanSharedReq, CleanSharedResp, CleanInvalidReq, CleanInvalidResp,
     InvalidDestError, BadAddressError, ReadError, WriteError, FunctionalReadError,
     FunctionalWriteError, PrintReq, FlushReq, InvalidateReq, InvalidateResp, HTMReq,
     HTMReqResp, HTMAbort, TlbiExtSync]"

lemma all_Commands_complete: "c \<in> set all_Commands"
  by (cases c) (simp_all add: all_Commands_def)

section \<open>The command table\<close>

fun buildAttributes :: "Attribute list \<Rightarrow> u64" where
  "buildAttributes [] = 0"
| "buildAttributes (a # attrs) = push_bit (Attribute_val a) 1 OR buildAttributes attrs"

record CommandInfo =
  attributes :: u64
  response :: Command
  str :: string

definition mkInfo :: "Attribute list \<Rightarrow> Command \<Rightarrow> string \<Rightarrow> CommandInfo" where
  "mkInfo attrs r s = \<lparr> attributes = buildAttributes attrs, response = r, str = s \<rparr>"

definition commandInfo :: "CommandInfo list" where
  "commandInfo = [
     mkInfo [] InvalidCmd ''InvalidCmd'',
     mkInfo [IsRead, IsRequest, NeedsResponse] ReadResp ''ReadReq'',
     mkInfo [IsRead, IsResponse, HasData] InvalidCmd ''ReadResp'',
     mkInfo [IsRead, IsResponse, HasData, IsInvalidate] InvalidCmd ''ReadRespWithInvalidate'',
     mkInfo [IsWrite, NeedsWritable, IsRequest, NeedsResponse, HasData] WriteResp ''WriteReq'',
     mkInfo [IsWrite, IsResponse] InvalidCmd ''WriteResp'',
     mkInfo [IsWrite, IsResponse] InvalidCmd ''WriteCompleteResp'',
     mkInfo [IsWrite, IsRequest, IsEviction, HasData, FromCache] InvalidCmd ''WritebackDirty'',
     mkInfo [IsWrite, IsRequest, IsEviction, HasData, FromCache] InvalidCmd ''WritebackClean'',
     mkInfo [IsWrite, IsRequest, HasData, FromCache] InvalidCmd ''WriteClean'',
     mkInfo [IsRequest, IsEviction, FromCache] InvalidCmd ''CleanEvict'',
     mkInfo [IsRead, IsRequest, IsSWPrefetch, NeedsResponse] SoftPFResp ''SoftPFReq'',
     mkInfo [IsRead, NeedsWritable, IsInvalidate, IsRequest, IsSWPrefetch, NeedsResponse] SoftPFResp ''SoftPFExReq'',
     mkInfo [IsRead, IsRequest, IsHWPrefetch, NeedsResponse, FromCache] HardPFResp ''HardPFReq'',
     mkInfo [IsRead, IsResponse, IsSWPrefetch, HasData] InvalidCmd ''SoftPFResp'',
     mkInfo [IsRead, IsResponse, IsHWPrefetch, HasData] InvalidCmd ''HardPFResp'',
     mkInfo [IsWrite, NeedsWritable, IsRequest, NeedsResponse, HasData] WriteResp ''WriteLineReq'',
     mkInfo [IsInvalidate, NeedsWritable, IsUpgrade, IsRequest, NeedsResponse, FromCache] UpgradeResp ''UpgradeReq'',
     mkInfo [IsInvalidate, NeedsWritable, IsUpgrade, IsLlsc, IsRequest, NeedsResponse, FromCache] UpgradeResp ''SCUpgradeReq'',
     mkInfo [IsUpgrade, IsResponse] InvalidCmd ''UpgradeResp'',
     mkInfo [IsRead, NeedsWritable, IsInvalidate, IsLlsc, IsRequest, NeedsResponse, FromCache] UpgradeFailResp ''SCUpgradeFailReq'',
     mkInfo [IsRead, IsResponse, HasData] InvalidCmd ''UpgradeFailResp'',
     mkInfo [IsRead, NeedsWritable, IsInvalidate, IsRequest, NeedsResponse, FromCache] ReadExResp ''ReadExReq'',
     mkInfo [IsRead, IsResponse, HasData] InvalidCmd ''ReadExResp'',
     mkInfo [IsRead, IsRequest, NeedsResponse, FromCache] ReadResp ''ReadCleanReq'',
     mkInfo [IsRead, IsRequest, NeedsResponse, FromCache] ReadResp ''ReadSharedReq'',
     mkInfo [IsRead, IsLlsc, IsRequest, NeedsResponse] ReadResp ''LoadLockedReq'',
     mkInfo [IsWrite, NeedsWritable, IsLlsc, IsRequest, NeedsResponse, HasData] StoreCondResp ''StoreCondReq'',
     mkInfo [IsWrite, NeedsWritable, IsLlsc, IsRequest, NeedsResponse, HasData] StoreCondResp ''StoreCondFailReq'',
     mkInfo [IsWrite, IsLlsc, IsResponse] InvalidCmd ''StoreCondResp'',
     mkInfo [IsRead, IsLockedRMW, NeedsWritable, IsRequest, NeedsResponse] LockedRMWReadResp ''LockedRMWReadReq'',
     mkInfo [IsRead, IsLockedRMW, NeedsWritable, IsResponse, HasData] InvalidCmd ''LockedRMWReadResp'',
     mkInfo [IsWrite, IsLockedRMW, NeedsWritable, IsRequest, NeedsResponse, HasData] LockedRMWWriteResp ''LockedRMWWriteReq'',
     mkInfo [IsWrite, IsLockedRMW, NeedsWritable, IsResponse] InvalidCmd ''LockedRMWWriteResp'',
     mkInfo [IsRead, IsWrite, NeedsWritable, IsRequest, HasData, NeedsResponse] SwapResp ''SwapReq'',
     mkInfo [IsRead, IsWrite, IsResponse, HasData] InvalidCmd ''SwapResp'',
     mkInfo [] InvalidCmd ''Deprecated_MessageReq'',
     mkInfo [] InvalidCmd ''Deprecated_MessageResp'',
     mkInfo [IsRequest, NeedsResponse] MemFenceResp ''MemFenceReq'',
     mkInfo [IsRequest, NeedsResponse] MemSyncResp ''MemSyncReq'',
     mkInfo [IsResponse] InvalidCmd ''MemSyncResp'',
     mkInfo [IsResponse] InvalidCmd ''MemFenceResp'',
     mkInfo [IsRequest, IsClean, NeedsResponse, FromCache] CleanSharedResp ''CleanSharedReq'',
     mkInfo [IsResponse, IsClean] InvalidCmd ''CleanSharedResp'',
     mkInfo [IsRequest, IsInvalidate, IsClean, NeedsResponse, FromCache] CleanInvalidResp ''CleanInvalidReq'',
     mkInfo [IsResponse, IsInvalidate, IsClean] InvalidCmd ''CleanInvalidResp'',
     mkInfo [IsResponse, IsError] InvalidCmd ''InvalidDestError'',
     mkInfo [IsResponse, IsError] InvalidCmd ''BadAddressError'',
     mkInfo [IsRead, IsResponse, IsError] InvalidCmd ''ReadError'',
     mkInfo [IsWrite, IsResponse, IsError] InvalidCmd ''WriteError'',
     mkInfo [IsRead, IsResponse, IsError] InvalidCmd ''FunctionalReadError'',
     mkInfo [IsWrite, IsResponse, IsError] InvalidCmd ''FunctionalWriteError'',
     mkInfo [IsRequest, IsPrint] InvalidCmd ''PrintReq'',
     mkInfo [IsRequest, IsFlush, NeedsWritable] InvalidCmd ''FlushReq'',
     mkInfo [IsInvalidate, IsRequest, NeedsWritable, NeedsResponse, FromCache] InvalidateResp ''InvalidateReq'',
     mkInfo [IsInvalidate, IsResponse] InvalidCmd ''InvalidateResp'',
     mkInfo [IsRead, IsRequest, NeedsResponse] HTMReqResp ''HTMReq'',
     mkInfo [IsRead, IsResponse] InvalidCmd ''HTMReqResp'',
     mkInfo [IsRead, IsRequest] InvalidCmd ''HTMAbort'',
     mkInfo [IsRequest] InvalidCmd ''TlbiExtSync'']"

definition commandInfo_at :: "Command \<Rightarrow> CommandInfo" where
  "commandInfo_at c = commandInfo ! Command_val c"

definition testCmdAttrib :: "Command \<Rightarrow> Attribute \<Rightarrow> bool" where
  "testCmdAttrib c a = bit (attributes (commandInfo_at c)) (Attribute_val a)"

definition isRead :: "Command \<Rightarrow> bool" where
  "isRead c = testCmdAttrib c IsRead"

definition isWrite :: "Command \<Rightarrow> bool" where
  "isWrite c = testCmdAttrib c IsWrite"

definition isUpgrade :: "Command \<Rightarrow> bool" where
  "isUpgrade c = testCmdAttrib c IsUpgrade"

definition isRequest :: "Command \<Rightarrow> bool" where
  "isRequest c = testCmdAttrib c IsRequest"

definition isResponse :: "Command \<Rightarrow> bool" where
  "isResponse c = testCmdAttrib c IsResponse"

definition needsWritable :: "Command \<Rightarrow> bool" where
  "needsWritable c = testCmdAttrib c NeedsWritable"

definition needsResponse :: "Command \<Rightarrow> bool" where
  "needsResponse c = testCmdAttrib c NeedsResponse"

definition isInvalidate :: "Command \<Rightarrow> bool" where
  "isInvalidate c = testCmdAttrib c IsInvalidate"

definition isEviction :: "Command \<Rightarrow> bool" where
  "isEviction c = testCmdAttrib c IsEviction"

definition isClean :: "Command \<Rightarrow> bool" where
  "isClean c = testCmdAttrib c IsClean"

definition fromCache :: "Command \<Rightarrow> bool" where
  "fromCache c = testCmdAttrib c FromCache"

definition hasData :: "Command \<Rightarrow> bool" where
  "hasData c = testCmdAttrib c HasData"

definition isLLSC :: "Command \<Rightarrow> bool" where
  "isLLSC c = testCmdAttrib c IsLlsc"

definition isLockedRMW :: "Command \<Rightarrow> bool" where
  "isLockedRMW c = testCmdAttrib c IsLockedRMW"

definition isSWPrefetch :: "Command \<Rightarrow> bool" where
  "isSWPrefetch c = testCmdAttrib c IsSWPrefetch"

definition isHWPrefetch :: "Command \<Rightarrow> bool" where
  "isHWPrefetch c = testCmdAttrib c IsHWPrefetch"

definition isError :: "Command \<Rightarrow> bool" where
  "isError c = testCmdAttrib c IsError"

definition isPrint :: "Command \<Rightarrow> bool" where
  "isPrint c = testCmdAttrib c IsPrint"

definition isFlush :: "Command \<Rightarrow> bool" where
  "isFlush c = testCmdAttrib c IsFlush"

definition isWriteback :: "Command \<Rightarrow> bool" where
  "isWriteback c = (testCmdAttrib c IsEviction \<and> testCmdAttrib c HasData)"

definition isPrefetch :: "Command \<Rightarrow> bool" where
  "isPrefetch c = (testCmdAttrib c IsSWPrefetch \<or> testCmdAttrib c IsHWPrefetch)"

definition isDemand :: "Command \<Rightarrow> bool" where
  "isDemand c = (c = ReadReq \<or> c = WriteReq \<or> c = WriteLineReq \<or> c = ReadExReq
    \<or> c = ReadCleanReq \<or> c = ReadSharedReq)"

definition responseCommand :: "Command \<Rightarrow> Command" where
  "responseCommand c = response (commandInfo_at c)"

definition toString :: "Command \<Rightarrow> string" where
  "toString c = str (commandInfo_at c)"

section \<open>Evaluating the queries\<close>

text \<open>The bit set built by \<open>buildAttributes\<close> refines the set of the listed attributes.\<close>

lemma Attribute_val_less: "Attribute_val a < 64"
  by (cases a) simp_all

lemma Attribute_val_inj: "Attribute_val a = Attribute_val b \<longleftrightarrow> a = b"
  by (cases a; cases b) simp_all

lemma bit_buildAttributes [simp]:
  "bit (buildAttributes attrs) (Attribute_val a) \<longleftrightarrow> a \<in> set attrs"
  by (induction attrs)
    (auto simp: bit_simps Attribute_val_less Attribute_val_inj)

lemma mkInfo_sels [simp]:
  "attributes (mkInfo attrs r s) = buildAttributes attrs"
  "response (mkInfo attrs r s) = r"
  "str (mkInfo attrs r s) = s"
  by (simp_all add: mkInfo_def)

lemma commandInfo_row [simp]:
  "commandInfo_at InvalidCmd = mkInfo [] InvalidCmd ''InvalidCmd''"
  "commandInfo_at ReadReq = mkInfo [IsRead, IsRequest, NeedsResponse] ReadResp ''ReadReq''"
  "commandInfo_at ReadResp = mkInfo [IsRead, IsResponse, HasData] InvalidCmd ''ReadResp''"
  "commandInfo_at ReadRespWithInvalidate = mkInfo [IsRead, IsResponse, HasData, IsInvalidate] InvalidCmd ''ReadRespWithInvalidate''"
  "commandInfo_at WriteReq = mkInfo [IsWrite, NeedsWritable, IsRequest, NeedsResponse, HasData] WriteResp ''WriteReq''"
  "commandInfo_at WriteResp = mkInfo [IsWrite, IsResponse] InvalidCmd ''WriteResp''"
  "commandInfo_at WriteCompleteResp = mkInfo [IsWrite, IsResponse] InvalidCmd ''WriteCompleteResp''"
  "commandInfo_at WritebackDirty = mkInfo [IsWrite, IsRequest, IsEviction, HasData, FromCache] InvalidCmd ''WritebackDirty''"
  "commandInfo_at WritebackClean = mkInfo [IsWrite, IsRequest, IsEviction, HasData, FromCache] InvalidCmd ''WritebackClean''"
  "commandInfo_at WriteClean = mkInfo [IsWrite, IsRequest, HasData, FromCache] InvalidCmd ''WriteClean''"
  "commandInfo_at CleanEvict = mkInfo [IsRequest, IsEviction, FromCache] InvalidCmd ''CleanEvict''"
  "commandInfo_at SoftPFReq = mkInfo [IsRead, IsRequest, IsSWPrefetch, NeedsResponse] SoftPFResp ''SoftPFReq''"
  "commandInfo_at SoftPFExReq = mkInfo [IsRead, NeedsWritable, IsInvalidate, IsRequest, IsSWPrefetch, NeedsResponse] SoftPFResp ''SoftPFExReq''"
  "commandInfo_at HardPFReq = mkInfo [IsRead, IsRequest, IsHWPrefetch, NeedsResponse, FromCache] HardPFResp ''HardPFReq''"
  "commandInfo_at SoftPFResp = mkInfo [IsRead, IsResponse, IsSWPrefetch, HasData] InvalidCmd ''SoftPFResp''"
  "commandInfo_at HardPFResp = mkInfo [IsRead, IsResponse, IsHWPrefetch, HasData] InvalidCmd ''HardPFResp''"
  "commandInfo_at WriteLineReq = mkInfo [IsWrite, NeedsWritable, IsRequest, NeedsResponse, HasData] WriteResp ''WriteLineReq''"
  "commandInfo_at UpgradeReq = mkInfo [IsInvalidate, NeedsWritable, IsUpgrade, IsRequest, NeedsResponse, FromCache] UpgradeResp ''UpgradeReq''"
  "commandInfo_at SCUpgradeReq = mkInfo [IsInvalidate, NeedsWritable, IsUpgrade, IsLlsc, IsRequest, NeedsResponse, FromCache] UpgradeResp ''SCUpgradeReq''"
  "commandInfo_at UpgradeResp = mkInfo [IsUpgrade, IsResponse] InvalidCmd ''UpgradeResp''"
  "commandInfo_at SCUpgradeFailReq = mkInfo [IsRead, NeedsWritable, IsInvalidate, IsLlsc, IsRequest, NeedsResponse, FromCache] UpgradeFailResp ''SCUpgradeFailReq''"
  "commandInfo_at UpgradeFailResp = mkInfo [IsRead, IsResponse, HasData] InvalidCmd ''UpgradeFailResp''"
  "commandInfo_at ReadExReq = mkInfo [IsRead, NeedsWritable, IsInvalidate, IsRequest, NeedsResponse, FromCache] ReadExResp ''ReadExReq''"
  "commandInfo_at ReadExResp = mkInfo [IsRead, IsResponse, HasData] InvalidCmd ''ReadExResp''"
  "commandInfo_at ReadCleanReq = mkInfo [IsRead, IsRequest, NeedsResponse, FromCache] ReadResp ''ReadCleanReq''"
  "commandInfo_at ReadSharedReq = mkInfo [IsRead, IsRequest, NeedsResponse, FromCache] ReadResp ''ReadSharedReq''"
  "commandInfo_at LoadLockedReq = mkInfo [IsRead, IsLlsc, IsRequest, NeedsResponse] ReadResp ''LoadLockedReq''"
  "commandInfo_at StoreCondReq = mkInfo [IsWrite, NeedsWritable, IsLlsc, IsRequest, NeedsResponse, HasData] StoreCondResp ''StoreCondReq''"
  "commandInfo_at StoreCondFailReq = mkInfo [IsWrite, NeedsWritable, IsLlsc, IsRequest, NeedsResponse, HasData] StoreCondResp ''StoreCondFailReq''"
  "commandInfo_at StoreCondResp = mkInfo [IsWrite, IsLlsc, IsResponse] InvalidCmd ''StoreCondResp''"
  "commandInfo_at LockedRMWReadReq = mkInfo [IsRead, IsLockedRMW, NeedsWritable, IsRequest, NeedsResponse] LockedRMWReadResp ''LockedRMWReadReq''"
  "commandInfo_at LockedRMWReadResp = mkInfo [IsRead, IsLockedRMW, NeedsWritable, IsResponse, HasData] InvalidCmd ''LockedRMWReadResp''"
  "commandInfo_at LockedRMWWriteReq = mkInfo [IsWrite, IsLockedRMW, NeedsWritable, IsRequest, NeedsResponse, HasData] LockedRMWWriteResp ''LockedRMWWriteReq''"
  "commandInfo_at LockedRMWWriteResp = mkInfo [IsWrite, IsLockedRMW, NeedsWritable, IsResponse] InvalidCmd ''LockedRMWWriteResp''"
  "commandInfo_at SwapReq = mkInfo [IsRead, IsWrite, NeedsWritable, IsRequest, HasData, NeedsResponse] SwapResp ''SwapReq''"
  "commandInfo_at SwapResp = mkInfo [IsRead, IsWrite, IsResponse, HasData] InvalidCmd ''SwapResp''"
  "commandInfo_at MemFenceReq = mkInfo [IsRequest, NeedsResponse] MemFenceResp ''MemFenceReq''"
  "commandInfo_at MemSyncReq = mkInfo [IsRequest, NeedsResponse] MemSyncResp ''MemSyncReq''"
  "commandInfo_at MemSyncResp = mkInfo [IsResponse] InvalidCmd ''MemSyncResp''"
  "commandInfo_at MemFenceResp = mkInfo [IsResponse] InvalidCmd ''MemFenceResp''"
  "commandInfo_at CleanSharedReq = mkInfo [IsRequest, IsClean, NeedsResponse, FromCache] CleanSharedResp ''CleanSharedReq''"
  "commandInfo_at CleanSharedResp = mkInfo [IsResponse, IsClean] InvalidCmd ''CleanSharedResp''"
  "commandInfo_at CleanInvalidReq = mkInfo [IsRequest, IsInvalidate, IsClean, NeedsResponse, FromCache] CleanInvalidResp ''CleanInvalidReq''"
  "commandInfo_at CleanInvalidResp = mkInfo [IsResponse, IsInvalidate, IsClean] InvalidCmd ''CleanInvalidResp''"
  "commandInfo_at InvalidDestError = mkInfo [IsResponse, IsError] InvalidCmd ''InvalidDestError''"
  "commandInfo_at BadAddressError = mkInfo [IsResponse, IsError] InvalidCmd ''BadAddressError''"
  "commandInfo_at ReadError = mkInfo [IsRead, IsResponse, IsError] InvalidCmd ''ReadError''"
  "commandInfo_at WriteError = mkInfo [IsWrite, IsResponse, IsError] InvalidCmd ''WriteError''"
  "commandInfo_at FunctionalReadError = mkInfo [IsRead, IsResponse, IsError] InvalidCmd ''FunctionalReadError''"
  "commandInfo_at FunctionalWriteError = mkInfo [IsWrite, IsResponse, IsError] InvalidCmd ''FunctionalWriteError''"
  "commandInfo_at PrintReq = mkInfo [IsRequest, IsPrint] InvalidCmd ''PrintReq''"
  "commandInfo_at FlushReq = mkInfo [IsRequest, IsFlush, NeedsWritable] InvalidCmd ''FlushReq''"
  "commandInfo_at InvalidateReq = mkInfo [IsInvalidate, IsRequest, NeedsWritable, NeedsResponse, FromCache] InvalidateResp ''InvalidateReq''"
  "commandInfo_at InvalidateResp = mkInfo [IsInvalidate, IsResponse] InvalidCmd ''InvalidateResp''"
  "commandInfo_at HTMReq = mkInfo [IsRead, IsRequest, NeedsResponse] HTMReqResp ''HTMReq''"
  "commandInfo_at HTMReqResp = mkInfo [IsRead, IsResponse] InvalidCmd ''HTMReqResp''"
  "commandInfo_at HTMAbort = mkInfo [IsRead, IsRequest] InvalidCmd ''HTMAbort''"
  "commandInfo_at TlbiExtSync = mkInfo [IsRequest] InvalidCmd ''TlbiExtSync''"
  by (simp_all add: commandInfo_at_def commandInfo_def)

declare commandInfo_row [code]

lemmas cmd_query_defs =
  testCmdAttrib_def isRead_def isWrite_def isUpgrade_def isRequest_def isResponse_def
  needsWritable_def needsResponse_def isInvalidate_def isEviction_def isClean_def
  fromCache_def hasData_def isLLSC_def isLockedRMW_def isSWPrefetch_def isHWPrefetch_def
  isError_def isPrint_def isFlush_def isWriteback_def isPrefetch_def

section \<open>Properties\<close>

lemma toString_inj: "toString c = toString c' \<Longrightarrow> c = c'"
proof -
  have "distinct (map toString all_Commands)" by (simp add: all_Commands_def toString_def)
  then show "toString c = toString c' \<Longrightarrow> c = c'"
    using all_Commands_complete by (auto simp: distinct_map inj_on_def)
qed

text \<open>The command table is consistent: every command but the invalid one is either a request
  or a response; a command has a response command exactly when it needs a response, and then
  it is a request, the response command is a response that needs none itself, reads are
  answered by reads and writes by writes, and every read but a transactional one is answered
  with data; errors are responses; and different commands have different names.\<close>

theorem command_table_consistent:
  "(c \<noteq> InvalidCmd \<longrightarrow> isRequest c \<noteq> isResponse c)
    \<and> (needsResponse c \<longleftrightarrow> responseCommand c \<noteq> InvalidCmd)
    \<and> (needsResponse c \<longrightarrow> isRequest c \<and> isResponse (responseCommand c)
        \<and> \<not> needsResponse (responseCommand c)
        \<and> isRead (responseCommand c) = isRead c \<and> isWrite (responseCommand c) = isWrite c
        \<and> hasData (responseCommand c) = (isRead c \<and> c \<noteq> HTMReq))
    \<and> (isError c \<longrightarrow> isResponse c) \<and> (toString c = toString c' \<longrightarrow> c = c')"
proof -
  have "toString c = toString c' \<longrightarrow> c = c'" using toString_inj by blast
  then show ?thesis by (cases c) (simp_all add: cmd_query_defs responseCommand_def)
qed

theorem command_table_consistent_witness:
  "needsResponse ReadExReq \<and> responseCommand ReadExReq = ReadExResp
    \<and> isResponse (responseCommand ReadExReq) \<and> hasData (responseCommand ReadExReq)"
  using command_table_consistent[of ReadExReq]
  by (simp add: cmd_query_defs responseCommand_def)

end
