(* ===== verification/CxlMemMsgs.thy ===== *)
theory CxlMemMsgs
  imports Prelude
begin

text \<open>
  The CXL.mem messages of \<^verbatim>\<open>mem/cxl/cxl_packet.hh\<close> and \<^verbatim>\<open>cxl_packet.cc\<close>:
  the enumerations with their encodings, the message structs (each extends the base
  struct \<open>CXL_Req\<close>), their constructors, and the member functions \<open>getSize_Bits\<close>,
  \<open>getAddr\<close>, \<open>getValidBlk\<close> and \<open>print\<close>.

  An enumerator whose name occurs in several namespaces of the source carries a prefix
  here (\<open>MF_\<close> for \<open>MetaFiled\<close>, \<open>MV_\<close> for \<open>MetaValue\<close>, \<open>ST_\<close> for \<open>M2S_SnpTypes\<close>,
  \<open>TC_\<close> for \<open>M2S_TC\<close>, \<open>T_\<close> for the type tags). A member without an initialiser that no
  constructor sets is an option whose value \<open>None\<close> is the indeterminate value.

  The text formatter \<^verbatim>\<open>fmt\<close> is not part of the repository's own sources, so \<open>print\<close> takes
  it as a parameter: a function from a format string and its arguments to the text, or to
  an error.
\<close>

section \<open>Enumerations\<close>

datatype CXL_Req_Types =
  T_M2S_Req | T_M2S_RwD | T_M2S_BIRsp | T_S2M_NDR | T_S2M_DRS | T_S2M_BISnp

datatype linkType = B68 | B256 | PBR

datatype MetaFiled = MF_Meta0_State | MF_No_Op

datatype MetaValue = MV_Invalied | MV_Any | MV_Shared

datatype M2S_Req_OpCodes =
  MemInv | MemRd | MemRdData | MemRdFwd | MemWrFwd | RESERVED1 | RESERVED2 | RESERVED3
  | MemSpecRd | MemInvNT | MemClnEvct

datatype M2S_RwD_OpCodes = MemWr | MemWrPtl | BIConflict

datatype M2S_BIRsp_OpCodes = BIRspI | BIRspS | BIRspE | BIRspIBlk | BIRspSBlk | BIRspEBlk

datatype M2S_SnpTypes = ST_No_Op | ST_SnpData | ST_SnpCur | ST_SnpInv

datatype M2S_TC = TC_Reserved

datatype S2M_BISnp_Opcodes =
  BISnpCur | BISnpData | BISnpInv | BISnpCurBlk | BISnpDataBlk | BISnpInvBlk

datatype S2M_NDR_Opcodes = Cmp | Cmp_S | Cmp_E | BI_ConflictAck

datatype S2M_DRS_Opcodes = MemData | MemData_NXM

datatype S2M_BLK_Encoding = BLK_Reserved | Valid_Lower_128B | Valid_Upper_128B | Valid_256B

datatype DevLoad = LightLoad | OptimalLoad | ModerateOverload | SevereOverload

text \<open>The numeric values of the enumerators, with which they index the string tables.\<close>

fun MetaFiled_val :: "MetaFiled \<Rightarrow> nat" where
  "MetaFiled_val MF_Meta0_State = 0"
| "MetaFiled_val MF_No_Op = 3"

fun MetaValue_val :: "MetaValue \<Rightarrow> nat" where
  "MetaValue_val MV_Invalied = 0"
| "MetaValue_val MV_Any = 2"
| "MetaValue_val MV_Shared = 3"

fun M2S_Req_OpCodes_val :: "M2S_Req_OpCodes \<Rightarrow> nat" where
  "M2S_Req_OpCodes_val MemInv = 0"
| "M2S_Req_OpCodes_val MemRd = 1"
| "M2S_Req_OpCodes_val MemRdData = 2"
| "M2S_Req_OpCodes_val MemRdFwd = 3"
| "M2S_Req_OpCodes_val MemWrFwd = 4"
| "M2S_Req_OpCodes_val RESERVED1 = 5"
| "M2S_Req_OpCodes_val RESERVED2 = 6"
| "M2S_Req_OpCodes_val RESERVED3 = 7"
| "M2S_Req_OpCodes_val MemSpecRd = 8"
| "M2S_Req_OpCodes_val MemInvNT = 9"
| "M2S_Req_OpCodes_val MemClnEvct = 10"

fun M2S_RwD_OpCodes_val :: "M2S_RwD_OpCodes \<Rightarrow> nat" where
  "M2S_RwD_OpCodes_val MemWr = 1"
| "M2S_RwD_OpCodes_val MemWrPtl = 2"
| "M2S_RwD_OpCodes_val BIConflict = 4"

fun M2S_BIRsp_OpCodes_val :: "M2S_BIRsp_OpCodes \<Rightarrow> nat" where
  "M2S_BIRsp_OpCodes_val BIRspI = 0"
| "M2S_BIRsp_OpCodes_val BIRspS = 1"
| "M2S_BIRsp_OpCodes_val BIRspE = 2"
| "M2S_BIRsp_OpCodes_val BIRspIBlk = 4"
| "M2S_BIRsp_OpCodes_val BIRspSBlk = 5"
| "M2S_BIRsp_OpCodes_val BIRspEBlk = 6"

fun M2S_SnpTypes_val :: "M2S_SnpTypes \<Rightarrow> nat" where
  "M2S_SnpTypes_val ST_No_Op = 0"
| "M2S_SnpTypes_val ST_SnpData = 1"
| "M2S_SnpTypes_val ST_SnpCur = 2"
| "M2S_SnpTypes_val ST_SnpInv = 3"

fun M2S_TC_val :: "M2S_TC \<Rightarrow> nat" where
  "M2S_TC_val TC_Reserved = 0"

fun S2M_BISnp_Opcodes_val :: "S2M_BISnp_Opcodes \<Rightarrow> nat" where
  "S2M_BISnp_Opcodes_val BISnpCur = 0"
| "S2M_BISnp_Opcodes_val BISnpData = 1"
| "S2M_BISnp_Opcodes_val BISnpInv = 2"
| "S2M_BISnp_Opcodes_val BISnpCurBlk = 4"
| "S2M_BISnp_Opcodes_val BISnpDataBlk = 5"
| "S2M_BISnp_Opcodes_val BISnpInvBlk = 6"

fun S2M_NDR_Opcodes_val :: "S2M_NDR_Opcodes \<Rightarrow> nat" where
  "S2M_NDR_Opcodes_val Cmp = 0"
| "S2M_NDR_Opcodes_val Cmp_S = 1"
| "S2M_NDR_Opcodes_val Cmp_E = 2"
| "S2M_NDR_Opcodes_val BI_ConflictAck = 4"

fun S2M_DRS_Opcodes_val :: "S2M_DRS_Opcodes \<Rightarrow> nat" where
  "S2M_DRS_Opcodes_val MemData = 0"
| "S2M_DRS_Opcodes_val MemData_NXM = 1"

fun S2M_BLK_Encoding_val :: "S2M_BLK_Encoding \<Rightarrow> nat" where
  "S2M_BLK_Encoding_val BLK_Reserved = 0"
| "S2M_BLK_Encoding_val Valid_Lower_128B = 1"
| "S2M_BLK_Encoding_val Valid_Upper_128B = 2"
| "S2M_BLK_Encoding_val Valid_256B = 3"

fun DevLoad_val :: "DevLoad \<Rightarrow> nat" where
  "DevLoad_val LightLoad = 0"
| "DevLoad_val OptimalLoad = 1"
| "DevLoad_val ModerateOverload = 2"
| "DevLoad_val SevereOverload = 3"

fun linkType_val :: "linkType \<Rightarrow> nat" where
  "linkType_val B68 = 0"
| "linkType_val B256 = 1"
| "linkType_val PBR = 2"

section \<open>Message structs\<close>

record CXL_Req =
  cxl_req_type :: CXL_Req_Types
  link_type :: linkType
  last_resp :: int

record M2S_Req = CXL_Req +
  req_valid :: bool
  req_memOpcode :: M2S_Req_OpCodes
  req_snp_type :: M2S_SnpTypes
  req_meta_filed :: MetaFiled
  req_meta_value :: MetaValue
  req_tag :: u16
  req_address_51_6_5 :: addr
  req_ld_id :: u8
  req_spid :: u16
  req_dpid :: u16
  req_rsvd :: u32
  req_tc :: M2S_TC

record M2S_RwD = CXL_Req +
  rwd_valid :: bool
  rwd_memOpcode :: M2S_RwD_OpCodes
  rwd_snp_type :: M2S_SnpTypes
  rwd_meta_filed :: MetaFiled
  rwd_meta_value :: MetaValue
  rwd_tag :: u16
  rwd_address_51_6 :: addr
  rwd_poison :: bool
  rwd_bep :: bool
  rwd_ld_id :: u8
  rwd_spid :: u16
  rwd_dpid :: u16
  rwd_rsvd :: u32
  rwd_tc :: M2S_TC

record M2S_BIRsp = CXL_Req +
  birsp_valid :: bool
  birsp_opcode :: M2S_BIRsp_OpCodes
  birsp_bi_id :: u16
  birsp_biTag :: u16
  birsp_lowAddr :: u8
  birsp_dpid :: u16
  birsp_rsvd :: u16

record S2M_BISnp = CXL_Req +
  bisnp_valid :: bool
  bisnp_opcode :: S2M_BISnp_Opcodes
  bisnp_bi_id :: u16
  bisnp_biTag :: u16
  bisnp_address_51_6 :: addr
  bisnp_spid :: u16
  bisnp_dpid :: u16
  bisnp_rsvd :: u32

record S2M_NDR = CXL_Req +
  ndr_valid :: "bool option"
  ndr_opcode :: S2M_NDR_Opcodes
  ndr_metafiled :: MetaFiled
  ndr_metavalue :: MetaValue
  ndr_tag :: u16
  ndr_ld_id :: u8
  ndr_dev_load :: DevLoad
  ndr_dpid :: u16
  ndr_rsvd :: u16

record S2M_DRS = CXL_Req +
  drs_valid :: "bool option"
  drs_opcode :: S2M_DRS_Opcodes
  drs_metafiled :: MetaFiled
  drs_metavalue :: MetaValue
  drs_tag :: u16
  drs_poison :: bool
  drs_ld_id :: u8
  drs_dev_load :: DevLoad
  drs_dpid :: u16
  drs_rsvd :: u16

text \<open>The constructors. \<open>CXL_Req\<close> gives every message the link type \<open>B256\<close> and marks it
  as the last response; a 16-bit \<open>rsvd\<close> argument widens to the 32-bit member.\<close>

definition new_M2S_Req ::
  "M2S_Req_OpCodes \<Rightarrow> M2S_SnpTypes \<Rightarrow> MetaFiled \<Rightarrow> MetaValue \<Rightarrow> u16 \<Rightarrow> addr \<Rightarrow> u8 \<Rightarrow> u16
    \<Rightarrow> u16 \<Rightarrow> u16 \<Rightarrow> M2S_TC \<Rightarrow> M2S_Req" where
  "new_M2S_Req memOpcode snp_type meta_filed meta_value tag address_51_6_5 ld_id spid dpid
      rsvd tc =
    \<lparr> cxl_req_type = T_M2S_Req, link_type = B256, last_resp = 1,
      req_valid = True, req_memOpcode = memOpcode, req_snp_type = snp_type,
      req_meta_filed = meta_filed, req_meta_value = meta_value, req_tag = tag,
      req_address_51_6_5 = address_51_6_5, req_ld_id = ld_id, req_spid = spid,
      req_dpid = dpid, req_rsvd = ucast rsvd, req_tc = tc \<rparr>"

definition new_M2S_RwD ::
  "M2S_RwD_OpCodes \<Rightarrow> M2S_SnpTypes \<Rightarrow> MetaFiled \<Rightarrow> MetaValue \<Rightarrow> u16 \<Rightarrow> addr \<Rightarrow> bool \<Rightarrow> bool
    \<Rightarrow> u8 \<Rightarrow> u16 \<Rightarrow> u16 \<Rightarrow> u16 \<Rightarrow> M2S_TC \<Rightarrow> M2S_RwD" where
  "new_M2S_RwD memOpcode snp_type meta_filed meta_value tag address_51_6 poison bep ld_id
      spid dpid rsvd tc =
    \<lparr> cxl_req_type = T_M2S_RwD, link_type = B256, last_resp = 1,
      rwd_valid = True, rwd_memOpcode = memOpcode, rwd_snp_type = snp_type,
      rwd_meta_filed = meta_filed, rwd_meta_value = meta_value, rwd_tag = tag,
      rwd_address_51_6 = address_51_6, rwd_poison = poison, rwd_bep = bep,
      rwd_ld_id = ld_id, rwd_spid = spid, rwd_dpid = dpid, rwd_rsvd = ucast rsvd,
      rwd_tc = tc \<rparr>"

definition new_M2S_BIRsp ::
  "M2S_BIRsp_OpCodes \<Rightarrow> u16 \<Rightarrow> u16 \<Rightarrow> u8 \<Rightarrow> u16 \<Rightarrow> u16 \<Rightarrow> M2S_BIRsp" where
  "new_M2S_BIRsp opcode bi_id biTag lowAddr dpid rsvd =
    \<lparr> cxl_req_type = T_M2S_BIRsp, link_type = B256, last_resp = 1,
      birsp_valid = True, birsp_opcode = opcode, birsp_bi_id = bi_id,
      birsp_biTag = biTag, birsp_lowAddr = lowAddr, birsp_dpid = dpid,
      birsp_rsvd = rsvd \<rparr>"

definition new_S2M_BISnp ::
  "S2M_BISnp_Opcodes \<Rightarrow> u16 \<Rightarrow> u16 \<Rightarrow> addr \<Rightarrow> u16 \<Rightarrow> u16 \<Rightarrow> u16 \<Rightarrow> S2M_BISnp" where
  "new_S2M_BISnp opcode bi_id biTag address_51_6 spid dpid rsvd =
    \<lparr> cxl_req_type = T_S2M_BISnp, link_type = B256, last_resp = 1,
      bisnp_valid = True, bisnp_opcode = opcode, bisnp_bi_id = bi_id,
      bisnp_biTag = biTag, bisnp_address_51_6 = address_51_6, bisnp_spid = spid,
      bisnp_dpid = dpid, bisnp_rsvd = ucast rsvd \<rparr>"

definition new_S2M_NDR ::
  "S2M_NDR_Opcodes \<Rightarrow> MetaFiled \<Rightarrow> MetaValue \<Rightarrow> u16 \<Rightarrow> u8 \<Rightarrow> DevLoad \<Rightarrow> u16 \<Rightarrow> u16
    \<Rightarrow> S2M_NDR" where
  "new_S2M_NDR opcode metafiled metavalue tag ld_id dev_load dpid rsvd =
    \<lparr> cxl_req_type = T_S2M_NDR, link_type = B256, last_resp = 1,
      ndr_valid = None, ndr_opcode = opcode, ndr_metafiled = metafiled,
      ndr_metavalue = metavalue, ndr_tag = tag, ndr_ld_id = ld_id,
      ndr_dev_load = dev_load, ndr_dpid = dpid, ndr_rsvd = rsvd \<rparr>"

definition new_S2M_DRS ::
  "S2M_DRS_Opcodes \<Rightarrow> MetaFiled \<Rightarrow> MetaValue \<Rightarrow> u16 \<Rightarrow> bool \<Rightarrow> u8 \<Rightarrow> DevLoad \<Rightarrow> u16 \<Rightarrow> u16
    \<Rightarrow> S2M_DRS" where
  "new_S2M_DRS opcode metafiled metavalue tag poison ld_id dev_load dpid rsvd =
    \<lparr> cxl_req_type = T_S2M_DRS, link_type = B256, last_resp = 1,
      drs_valid = None, drs_opcode = opcode, drs_metafiled = metafiled,
      drs_metavalue = metavalue, drs_tag = tag, drs_poison = poison,
      drs_ld_id = ld_id, drs_dev_load = dev_load, drs_dpid = dpid, drs_rsvd = rsvd \<rparr>"

lemma new_M2S_Req_sels [simp]:
  "cxl_req_type (new_M2S_Req op snp mf mv t a l s dp rs tc) = T_M2S_Req"
  "req_memOpcode (new_M2S_Req op snp mf mv t a l s dp rs tc) = op"
  "req_snp_type (new_M2S_Req op snp mf mv t a l s dp rs tc) = snp"
  "req_meta_filed (new_M2S_Req op snp mf mv t a l s dp rs tc) = mf"
  "req_meta_value (new_M2S_Req op snp mf mv t a l s dp rs tc) = mv"
  "req_address_51_6_5 (new_M2S_Req op snp mf mv t a l s dp rs tc) = a"
  "last_resp (new_M2S_Req op snp mf mv t a l s dp rs tc) = 1"
  by (simp_all add: new_M2S_Req_def)

lemma new_M2S_RwD_sels [simp]:
  "cxl_req_type (new_M2S_RwD op snp mf mv t a p b l s dp rs tc) = T_M2S_RwD"
  "rwd_memOpcode (new_M2S_RwD op snp mf mv t a p b l s dp rs tc) = op"
  "rwd_snp_type (new_M2S_RwD op snp mf mv t a p b l s dp rs tc) = snp"
  "rwd_meta_filed (new_M2S_RwD op snp mf mv t a p b l s dp rs tc) = mf"
  "rwd_meta_value (new_M2S_RwD op snp mf mv t a p b l s dp rs tc) = mv"
  "last_resp (new_M2S_RwD op snp mf mv t a p b l s dp rs tc) = 1"
  by (simp_all add: new_M2S_RwD_def)

text \<open>A \<open>CXL_Req*\<close> points at an object of one of the derived structs.\<close>

datatype CXL_Req_obj =
    Is_M2S_Req M2S_Req
  | Is_M2S_RwD M2S_RwD
  | Is_M2S_BIRsp M2S_BIRsp
  | Is_S2M_BISnp S2M_BISnp
  | Is_S2M_NDR S2M_NDR
  | Is_S2M_DRS S2M_DRS

fun obj_cxl_req_type :: "CXL_Req_obj \<Rightarrow> CXL_Req_Types" where
  "obj_cxl_req_type (Is_M2S_Req r) = cxl_req_type r"
| "obj_cxl_req_type (Is_M2S_RwD r) = cxl_req_type r"
| "obj_cxl_req_type (Is_M2S_BIRsp r) = cxl_req_type r"
| "obj_cxl_req_type (Is_S2M_BISnp r) = cxl_req_type r"
| "obj_cxl_req_type (Is_S2M_NDR r) = cxl_req_type r"
| "obj_cxl_req_type (Is_S2M_DRS r) = cxl_req_type r"

fun set_cxl_req_type :: "CXL_Req_Types \<Rightarrow> CXL_Req_obj \<Rightarrow> CXL_Req_obj" where
  "set_cxl_req_type t (Is_M2S_Req r) = Is_M2S_Req (r\<lparr>cxl_req_type := t\<rparr>)"
| "set_cxl_req_type t (Is_M2S_RwD r) = Is_M2S_RwD (r\<lparr>cxl_req_type := t\<rparr>)"
| "set_cxl_req_type t (Is_M2S_BIRsp r) = Is_M2S_BIRsp (r\<lparr>cxl_req_type := t\<rparr>)"
| "set_cxl_req_type t (Is_S2M_BISnp r) = Is_S2M_BISnp (r\<lparr>cxl_req_type := t\<rparr>)"
| "set_cxl_req_type t (Is_S2M_NDR r) = Is_S2M_NDR (r\<lparr>cxl_req_type := t\<rparr>)"
| "set_cxl_req_type t (Is_S2M_DRS r) = Is_S2M_DRS (r\<lparr>cxl_req_type := t\<rparr>)"

fun obj_last_resp :: "CXL_Req_obj \<Rightarrow> int" where
  "obj_last_resp (Is_M2S_Req r) = last_resp r"
| "obj_last_resp (Is_M2S_RwD r) = last_resp r"
| "obj_last_resp (Is_M2S_BIRsp r) = last_resp r"
| "obj_last_resp (Is_S2M_BISnp r) = last_resp r"
| "obj_last_resp (Is_S2M_NDR r) = last_resp r"
| "obj_last_resp (Is_S2M_DRS r) = last_resp r"

fun set_last_resp :: "int \<Rightarrow> CXL_Req_obj \<Rightarrow> CXL_Req_obj" where
  "set_last_resp n (Is_M2S_Req r) = Is_M2S_Req (r\<lparr>last_resp := n\<rparr>)"
| "set_last_resp n (Is_M2S_RwD r) = Is_M2S_RwD (r\<lparr>last_resp := n\<rparr>)"
| "set_last_resp n (Is_M2S_BIRsp r) = Is_M2S_BIRsp (r\<lparr>last_resp := n\<rparr>)"
| "set_last_resp n (Is_S2M_BISnp r) = Is_S2M_BISnp (r\<lparr>last_resp := n\<rparr>)"
| "set_last_resp n (Is_S2M_NDR r) = Is_S2M_NDR (r\<lparr>last_resp := n\<rparr>)"
| "set_last_resp n (Is_S2M_DRS r) = Is_S2M_DRS (r\<lparr>last_resp := n\<rparr>)"

text \<open>The C-style casts the handlers apply to a \<open>CXL_Req*\<close>: reading a member through a
  pointer of the wrong derived type has no defined value.\<close>

fun as_M2S_Req :: "CXL_Req_obj \<Rightarrow> M2S_Req outcome" where
  "as_M2S_Req (Is_M2S_Req r) = Inr r"
| "as_M2S_Req _ = Inl (Undefined ''object is not an M2S_Req'')"

fun as_M2S_RwD :: "CXL_Req_obj \<Rightarrow> M2S_RwD outcome" where
  "as_M2S_RwD (Is_M2S_RwD r) = Inr r"
| "as_M2S_RwD _ = Inl (Undefined ''object is not an M2S_RwD'')"

fun as_S2M_NDR :: "CXL_Req_obj \<Rightarrow> S2M_NDR outcome" where
  "as_S2M_NDR (Is_S2M_NDR r) = Inr r"
| "as_S2M_NDR _ = Inl (Undefined ''object is not an S2M_NDR'')"

text \<open>The virtual \<open>getAddr\<close>: the base class's version returns 0.\<close>

fun CXL_Req_getAddr :: "CXL_Req_obj \<Rightarrow> addr" where
  "CXL_Req_getAddr (Is_M2S_Req r) = req_address_51_6_5 r"
| "CXL_Req_getAddr (Is_M2S_RwD r) = rwd_address_51_6 r"
| "CXL_Req_getAddr (Is_S2M_BISnp r) = bisnp_address_51_6 r"
| "CXL_Req_getAddr _ = 0"

section \<open>Message sizes\<close>

fun M2S_Req_getSize_Bits :: "linkType \<Rightarrow> int" where
  "M2S_Req_getSize_Bits B68 = 87"
| "M2S_Req_getSize_Bits B256 = 100"
| "M2S_Req_getSize_Bits PBR = 120"

fun M2S_RwD_getSize_Bits :: "linkType \<Rightarrow> int" where
  "M2S_RwD_getSize_Bits B68 = 87"
| "M2S_RwD_getSize_Bits B256 = 104"
| "M2S_RwD_getSize_Bits PBR = 124"

fun M2S_BIRsp_getSize_Bits :: "linkType \<Rightarrow> int" where
  "M2S_BIRsp_getSize_Bits B68 = -1"
| "M2S_BIRsp_getSize_Bits B256 = 40"
| "M2S_BIRsp_getSize_Bits PBR = 40"

fun S2M_BISnp_getSize_Bits :: "linkType \<Rightarrow> int" where
  "S2M_BISnp_getSize_Bits B68 = -1"
| "S2M_BISnp_getSize_Bits B256 = 84"
| "S2M_BISnp_getSize_Bits PBR = 96"

fun S2M_NDR_getSize_Bits :: "linkType \<Rightarrow> int" where
  "S2M_NDR_getSize_Bits B68 = 30"
| "S2M_NDR_getSize_Bits B256 = 40"
| "S2M_NDR_getSize_Bits PBR = 48"

fun S2M_DRS_getSize_Bits :: "linkType \<Rightarrow> int" where
  "S2M_DRS_getSize_Bits B68 = 40"
| "S2M_DRS_getSize_Bits B256 = 40"
| "S2M_DRS_getSize_Bits PBR = 48"

text \<open>\<open>S2M_BISnp::getValidBlk\<close>: the masked address bits, truncated to eight bits, are
  compared with the enumerators; falling out of the \<open>switch\<close> leaves the function without
  a return value.\<close>

definition getValidBlk :: "S2M_BISnp \<Rightarrow> S2M_BLK_Encoding outcome" where
  "getValidBlk r =
    (let valid_bits = (ucast (bisnp_address_51_6 r AND push_bit 6 3) :: u8) in
     if valid_bits = of_nat (S2M_BLK_Encoding_val Valid_Lower_128B) then Inr Valid_Lower_128B
     else if valid_bits = of_nat (S2M_BLK_Encoding_val Valid_Upper_128B)
       then Inr Valid_Upper_128B
     else if valid_bits = of_nat (S2M_BLK_Encoding_val Valid_256B) then Inr Valid_256B
     else Inl (Undefined ''getValidBlk: no return''))"

end
