(* ===== verification/CxlCacheMsgs.thy ===== *)
theory CxlCacheMsgs
  imports CxlMemMsgs
begin

text \<open>
  The CXL.cache messages of \<^verbatim>\<open>mem/cxl/cxl_cache_packet.hh\<close>: device-to-host requests,
  responses and data, host-to-device snoop requests, responses and data. The layout
  follows the theory of the CXL.mem messages; the prefixes are \<open>H2D_\<close> for the snoop
  opcodes (which repeat names of \<open>M2S_SnpTypes\<close>), \<open>RD_\<close> for \<open>RSP_Data_Encoding\<close> and
  \<open>RP_\<close> for \<open>RSP_PRE_Encoding\<close>. The enumeration \<open>linkType\<close> of this namespace has the
  same members as the one of CXL.mem, whose type is used for both.
\<close>

section \<open>Enumerations\<close>

datatype CXL_Cache_Types =
  T_D2H_Req | T_D2H_Resp | T_D2H_Data | T_H2D_Req | T_H2D_Resp | T_H2D_Data

datatype D2H_Req_OpCodes =
  RdCurr | RdOwn | RdShared | RdAny | RdOwnNoData | ItoMWr | WrCur | CLFlush | CleanEvict
  | DirtyEvict | CleanEvictNoData | WOWrInv | WOWrInvF | WrInv | CacheFlushed

datatype D2H_Resp_OpCodes =
  RspIHitI | RspVHitV | RspIHitSE | RspSHitSE | RspSFwdM | RspIFwdM | RspVFwdV

datatype H2D_Req_Opcodes = H2D_SnpData | H2D_SnpInv | H2D_SnpCur

datatype H2D_Resp_Opcodes =
  WritePull | GO | GO_WritePull | ExtCmp | GO_WritePull_Drop | H2D_Reserved
  | Fast_GO_writePull | GO_ERR_WritePull

datatype RSP_PRE_Encoding =
  RP_Host_CacheMiss_LocalCPU | RP_Host_CacheHit | RP_Host_CacheMiss_RemoteCPU | RP_Reser

datatype RSP_Data_Encoding = RD_Invalid | RD_Shared | RD_Exclusive | RD_Modified | RD_Error

fun D2H_Req_OpCodes_val :: "D2H_Req_OpCodes \<Rightarrow> nat" where
  "D2H_Req_OpCodes_val RdCurr = 1"
| "D2H_Req_OpCodes_val RdOwn = 2"
| "D2H_Req_OpCodes_val RdShared = 3"
| "D2H_Req_OpCodes_val RdAny = 4"
| "D2H_Req_OpCodes_val RdOwnNoData = 5"
| "D2H_Req_OpCodes_val ItoMWr = 6"
| "D2H_Req_OpCodes_val WrCur = 7"
| "D2H_Req_OpCodes_val CLFlush = 8"
| "D2H_Req_OpCodes_val CleanEvict = 9"
| "D2H_Req_OpCodes_val DirtyEvict = 10"
| "D2H_Req_OpCodes_val CleanEvictNoData = 11"
| "D2H_Req_OpCodes_val WOWrInv = 12"
| "D2H_Req_OpCodes_val WOWrInvF = 13"
| "D2H_Req_OpCodes_val WrInv = 14"
| "D2H_Req_OpCodes_val CacheFlushed = 16"

fun D2H_Resp_OpCodes_val :: "D2H_Resp_OpCodes \<Rightarrow> nat" where
  "D2H_Resp_OpCodes_val RspIHitI = 4"
| "D2H_Resp_OpCodes_val RspVHitV = 6"
| "D2H_Resp_OpCodes_val RspIHitSE = 5"
| "D2H_Resp_OpCodes_val RspSHitSE = 1"
| "D2H_Resp_OpCodes_val RspSFwdM = 7"
| "D2H_Resp_OpCodes_val RspIFwdM = 15"
| "D2H_Resp_OpCodes_val RspVFwdV = 22"

fun H2D_Req_Opcodes_val :: "H2D_Req_Opcodes \<Rightarrow> nat" where
  "H2D_Req_Opcodes_val H2D_SnpData = 1"
| "H2D_Req_Opcodes_val H2D_SnpInv = 2"
| "H2D_Req_Opcodes_val H2D_SnpCur = 3"

fun H2D_Resp_Opcodes_val :: "H2D_Resp_Opcodes \<Rightarrow> nat" where
  "H2D_Resp_Opcodes_val WritePull = 1"
| "H2D_Resp_Opcodes_val GO = 4"
| "H2D_Resp_Opcodes_val GO_WritePull = 5"
| "H2D_Resp_Opcodes_val ExtCmp = 6"
| "H2D_Resp_Opcodes_val GO_WritePull_Drop = 8"
| "H2D_Resp_Opcodes_val H2D_Reserved = 12"
| "H2D_Resp_Opcodes_val Fast_GO_writePull = 13"
| "H2D_Resp_Opcodes_val GO_ERR_WritePull = 15"

fun RSP_PRE_Encoding_val :: "RSP_PRE_Encoding \<Rightarrow> nat" where
  "RSP_PRE_Encoding_val RP_Host_CacheMiss_LocalCPU = 0"
| "RSP_PRE_Encoding_val RP_Host_CacheHit = 1"
| "RSP_PRE_Encoding_val RP_Host_CacheMiss_RemoteCPU = 2"
| "RSP_PRE_Encoding_val RP_Reser = 3"

fun RSP_Data_Encoding_val :: "RSP_Data_Encoding \<Rightarrow> nat" where
  "RSP_Data_Encoding_val RD_Invalid = 3"
| "RSP_Data_Encoding_val RD_Shared = 1"
| "RSP_Data_Encoding_val RD_Exclusive = 2"
| "RSP_Data_Encoding_val RD_Modified = 5"
| "RSP_Data_Encoding_val RD_Error = 4"

section \<open>Message structs\<close>

record CXL_Cache =
  cxl_cache_type :: CXL_Cache_Types
  cache_link_type :: linkType
  cache_last_resp :: int
  last_data :: bool

record D2H_Req = CXL_Cache +
  d2hreq_valid :: bool
  d2hreq_Opcode :: D2H_Req_OpCodes
  d2hreq_cqid :: u16
  d2hreq_NT :: bool
  d2hreq_CacheID :: u8
  d2hreq_Address :: addr
  d2hreq_spid :: u16
  d2hreq_dpid :: u16
  d2hreq_rsvd :: u32

record D2H_Resp = CXL_Cache +
  d2hresp_valid :: bool
  d2hresp_Opcode :: D2H_Resp_OpCodes
  d2hresp_uqid :: u16
  d2hresp_dpid :: u16
  d2hresp_rsvd :: u32

record D2H_Data = CXL_Cache +
  d2hdata_valid :: bool
  d2hdata_uqid :: u16
  d2hdata_ChunkValid :: bool
  d2hdata_Bogus :: bool
  d2hdata_Poison :: bool
  d2hdata_bep :: bool
  d2hdata_dpid :: u16
  d2hdata_rsvd :: u16

record H2D_Req = CXL_Cache +
  h2dreq_valid :: bool
  h2dreq_opcode :: H2D_Req_Opcodes
  h2dreq_Address :: addr
  h2dreq_uqid :: u16
  h2dreq_CacheID :: u8
  h2dreq_spid :: u16
  h2dreq_dpid :: u16
  h2dreq_rsvd :: u32

record H2D_Resp = CXL_Cache +
  h2dresp_valid :: "bool option"
  h2dresp_opcode :: H2D_Resp_Opcodes
  h2dresp_RspData :: RSP_Data_Encoding
  h2dresp_RSP_PRE :: RSP_PRE_Encoding
  h2dresp_cqid :: u16
  h2dresp_CacheID :: u8
  h2dresp_dpid :: u16
  h2dresp_rsvd :: u16

record H2D_Data = CXL_Cache +
  h2ddata_valid :: "bool option"
  h2ddata_cqid :: u16
  h2ddata_ChunkValid :: bool
  h2ddata_Poison :: bool
  h2ddata_GO_Err :: bool
  h2ddata_CacheID :: u8
  h2ddata_dpid :: u16
  h2ddata_rsvd :: u16

definition new_D2H_Req ::
  "D2H_Req_OpCodes \<Rightarrow> u16 \<Rightarrow> bool \<Rightarrow> u8 \<Rightarrow> addr \<Rightarrow> u16 \<Rightarrow> u16 \<Rightarrow> u16 \<Rightarrow> D2H_Req" where
  "new_D2H_Req Opcode cqid NT CacheID Address spid dpid rsvd =
    \<lparr> cxl_cache_type = T_D2H_Req, cache_link_type = B256, cache_last_resp = 1,
      last_data = True,
      d2hreq_valid = True, d2hreq_Opcode = Opcode, d2hreq_cqid = cqid, d2hreq_NT = NT,
      d2hreq_CacheID = CacheID, d2hreq_Address = Address, d2hreq_spid = spid,
      d2hreq_dpid = dpid, d2hreq_rsvd = ucast rsvd \<rparr>"

definition new_D2H_Resp :: "D2H_Resp_OpCodes \<Rightarrow> u16 \<Rightarrow> u16 \<Rightarrow> u16 \<Rightarrow> D2H_Resp" where
  "new_D2H_Resp Opcode uqid dpid rsvd =
    \<lparr> cxl_cache_type = T_D2H_Resp, cache_link_type = B256, cache_last_resp = 1,
      last_data = True,
      d2hresp_valid = True, d2hresp_Opcode = Opcode, d2hresp_uqid = uqid,
      d2hresp_dpid = dpid, d2hresp_rsvd = ucast rsvd \<rparr>"

definition new_D2H_Data ::
  "u16 \<Rightarrow> bool \<Rightarrow> bool \<Rightarrow> bool \<Rightarrow> bool \<Rightarrow> u16 \<Rightarrow> u16 \<Rightarrow> D2H_Data" where
  "new_D2H_Data uqid ChunkValid Bogus Poison bep dpid rsvd =
    \<lparr> cxl_cache_type = T_D2H_Data, cache_link_type = B256, cache_last_resp = 1,
      last_data = True,
      d2hdata_valid = True, d2hdata_uqid = uqid, d2hdata_ChunkValid = ChunkValid,
      d2hdata_Bogus = Bogus, d2hdata_Poison = Poison, d2hdata_bep = bep,
      d2hdata_dpid = dpid, d2hdata_rsvd = rsvd \<rparr>"

definition new_H2D_Req ::
  "H2D_Req_Opcodes \<Rightarrow> addr \<Rightarrow> u16 \<Rightarrow> u8 \<Rightarrow> u16 \<Rightarrow> u16 \<Rightarrow> u16 \<Rightarrow> H2D_Req" where
  "new_H2D_Req opcode Address uqid CacheID spid dpid rsvd =
    \<lparr> cxl_cache_type = T_H2D_Req, cache_link_type = B256, cache_last_resp = 1,
      last_data = True,
      h2dreq_valid = True, h2dreq_opcode = opcode, h2dreq_Address = Address,
      h2dreq_uqid = uqid, h2dreq_CacheID = CacheID, h2dreq_spid = spid,
      h2dreq_dpid = dpid, h2dreq_rsvd = ucast rsvd \<rparr>"

definition new_H2D_Resp ::
  "H2D_Resp_Opcodes \<Rightarrow> RSP_Data_Encoding \<Rightarrow> RSP_PRE_Encoding \<Rightarrow> u16 \<Rightarrow> u8 \<Rightarrow> u16 \<Rightarrow> u16
    \<Rightarrow> H2D_Resp" where
  "new_H2D_Resp opcode RspData RSP_PRE cqid CacheID dpid rsvd =
    \<lparr> cxl_cache_type = T_H2D_Resp, cache_link_type = B256, cache_last_resp = 1,
      last_data = True,
      h2dresp_valid = None, h2dresp_opcode = opcode, h2dresp_RspData = RspData,
      h2dresp_RSP_PRE = RSP_PRE, h2dresp_cqid = cqid, h2dresp_CacheID = CacheID,
      h2dresp_dpid = dpid, h2dresp_rsvd = rsvd \<rparr>"

definition new_H2D_Data ::
  "u16 \<Rightarrow> bool \<Rightarrow> bool \<Rightarrow> bool \<Rightarrow> u8 \<Rightarrow> u16 \<Rightarrow> u16 \<Rightarrow> H2D_Data" where
  "new_H2D_Data cqid ChunkValid Poison GO_Err CacheID dpid rsvd =
    \<lparr> cxl_cache_type = T_H2D_Data, cache_link_type = B256, cache_last_resp = 1,
      last_data = True,
      h2ddata_valid = None, h2ddata_cqid = cqid, h2ddata_ChunkValid = ChunkValid,
      h2ddata_Poison = Poison, h2ddata_GO_Err = GO_Err, h2ddata_CacheID = CacheID,
      h2ddata_dpid = dpid, h2ddata_rsvd = rsvd \<rparr>"

datatype CXL_Cache_obj =
    Is_D2H_Req D2H_Req
  | Is_D2H_Resp D2H_Resp
  | Is_D2H_Data D2H_Data
  | Is_H2D_Req H2D_Req
  | Is_H2D_Resp H2D_Resp
  | Is_H2D_Data H2D_Data

fun obj_cxl_cache_type :: "CXL_Cache_obj \<Rightarrow> CXL_Cache_Types" where
  "obj_cxl_cache_type (Is_D2H_Req r) = cxl_cache_type r"
| "obj_cxl_cache_type (Is_D2H_Resp r) = cxl_cache_type r"
| "obj_cxl_cache_type (Is_D2H_Data r) = cxl_cache_type r"
| "obj_cxl_cache_type (Is_H2D_Req r) = cxl_cache_type r"
| "obj_cxl_cache_type (Is_H2D_Resp r) = cxl_cache_type r"
| "obj_cxl_cache_type (Is_H2D_Data r) = cxl_cache_type r"

fun obj_last_data :: "CXL_Cache_obj \<Rightarrow> bool" where
  "obj_last_data (Is_D2H_Req r) = last_data r"
| "obj_last_data (Is_D2H_Resp r) = last_data r"
| "obj_last_data (Is_D2H_Data r) = last_data r"
| "obj_last_data (Is_H2D_Req r) = last_data r"
| "obj_last_data (Is_H2D_Resp r) = last_data r"
| "obj_last_data (Is_H2D_Data r) = last_data r"

fun obj_cache_last_resp :: "CXL_Cache_obj \<Rightarrow> int" where
  "obj_cache_last_resp (Is_D2H_Req r) = cache_last_resp r"
| "obj_cache_last_resp (Is_D2H_Resp r) = cache_last_resp r"
| "obj_cache_last_resp (Is_D2H_Data r) = cache_last_resp r"
| "obj_cache_last_resp (Is_H2D_Req r) = cache_last_resp r"
| "obj_cache_last_resp (Is_H2D_Resp r) = cache_last_resp r"
| "obj_cache_last_resp (Is_H2D_Data r) = cache_last_resp r"

fun as_D2H_Req :: "CXL_Cache_obj \<Rightarrow> D2H_Req outcome" where
  "as_D2H_Req (Is_D2H_Req r) = Inr r"
| "as_D2H_Req _ = Inl (Undefined ''object is not a D2H_Req'')"

fun as_H2D_Req :: "CXL_Cache_obj \<Rightarrow> H2D_Req outcome" where
  "as_H2D_Req (Is_H2D_Req r) = Inr r"
| "as_H2D_Req _ = Inl (Undefined ''object is not an H2D_Req'')"

fun as_H2D_Resp :: "CXL_Cache_obj \<Rightarrow> H2D_Resp outcome" where
  "as_H2D_Resp (Is_H2D_Resp r) = Inr r"
| "as_H2D_Resp _ = Inl (Undefined ''object is not an H2D_Resp'')"

fun CXL_Cache_getAddr :: "CXL_Cache_obj \<Rightarrow> addr" where
  "CXL_Cache_getAddr (Is_D2H_Req r) = d2hreq_Address r"
| "CXL_Cache_getAddr (Is_H2D_Req r) = h2dreq_Address r"
| "CXL_Cache_getAddr _ = 0"

section \<open>Message sizes\<close>

fun D2H_Req_getSize_Bits :: "linkType \<Rightarrow> int" where
  "D2H_Req_getSize_Bits B68 = 79"
| "D2H_Req_getSize_Bits B256 = 76"
| "D2H_Req_getSize_Bits PBR = 96"

fun D2H_Resp_getSize_Bits :: "linkType \<Rightarrow> int" where
  "D2H_Resp_getSize_Bits B68 = 20"
| "D2H_Resp_getSize_Bits B256 = 24"
| "D2H_Resp_getSize_Bits PBR = 36"

fun D2H_Data_getSize_Bits :: "linkType \<Rightarrow> int" where
  "D2H_Data_getSize_Bits B68 = 17"
| "D2H_Data_getSize_Bits B256 = 24"
| "D2H_Data_getSize_Bits PBR = 36"

fun H2D_Req_getSize_Bits :: "linkType \<Rightarrow> int" where
  "H2D_Req_getSize_Bits B68 = 64"
| "H2D_Req_getSize_Bits B256 = 72"
| "H2D_Req_getSize_Bits PBR = 92"

fun H2D_Resp_getSize_Bits :: "linkType \<Rightarrow> int" where
  "H2D_Resp_getSize_Bits B68 = 32"
| "H2D_Resp_getSize_Bits B256 = 40"
| "H2D_Resp_getSize_Bits PBR = 40"

fun H2D_Data_getSize_Bits :: "linkType \<Rightarrow> int" where
  "H2D_Data_getSize_Bits B68 = 24"
| "H2D_Data_getSize_Bits B256 = 28"
| "H2D_Data_getSize_Bits PBR = 36"

end
