(* ===== verification/Packets.thy ===== *)
theory Packets
  imports MemCmds CxlMemMsgs CxlCacheMsgs
begin

text \<open>
  Requests and packets of \<^verbatim>\<open>mem/request.hh\<close> and \<^verbatim>\<open>mem/packet.hh\<close>, with the fields this
  repository adds for CXL.

  A packet holds a shared pointer to its request. Every handler of the development owns one
  packet at a time and is the only one to write its request while it runs, so the request
  travels inside the packet by value; the field \<open>req_ptr\<close> keeps the identity of the pointer,
  which the crossbars use as a map key. Payload bytes are not touched by the modelled
  handlers and are left out.
\<close>

section \<open>Requests\<close>

datatype CXLPacketType =
  DefaultPacket | CXLmemPacket | CXLmemDataPacket | CXLcachePacket | CXLcacheDataPacket
  | HostBiasCheck | CXLProcReq | CXLcacheH2DReq | CXLcacheH2DResp

record Request =
  req_ptr :: nat
  r_paddr :: "addr option"
  r_size :: "u32 option"
  r_flags :: u64
  r_requestorId :: u16
  pciBridgeSlaveID :: int
  cxl_packet_type :: CXLPacketType
  cxl_req :: "CXL_Req_obj option"
  cxl_data_atomic :: "CXL_Req_obj option"
  cxl_data_atomic2 :: "CXL_Cache_obj option"
  cxl_cache :: "CXL_Cache_obj option"
  coherent_check_dest :: addr
  from_cxl_proc :: bool
  old_state :: u8
  new_state :: u8
  hit_miss :: bool

definition UNCACHEABLE :: u64 where "UNCACHEABLE = 0x400"
definition CLEAN :: u64 where "CLEAN = 0x200000000"
definition INVALIDATE :: u64 where "INVALIDATE = 0x100000000"
definition DST_POC :: u64 where "DST_POC = 0x2000000000"
definition DST_POU :: u64 where "DST_POU = 0x1000000000"
definition ATOMIC_RETURN_OP :: u64 where "ATOMIC_RETURN_OP = 0x40000000"
definition ATOMIC_NO_RETURN_OP :: u64 where "ATOMIC_NO_RETURN_OP = 0x80000000"

definition isUncacheable :: "Request \<Rightarrow> bool" where
  "isUncacheable r = flag_isSet (r_flags r) UNCACHEABLE"

definition isCacheMaintenance :: "Request \<Rightarrow> bool" where
  "isCacheMaintenance r = flag_isSet (r_flags r) (CLEAN OR INVALIDATE)"

definition isToPOC :: "Request \<Rightarrow> bool" where
  "isToPOC r = flag_isSet (r_flags r) DST_POC"

definition isToPOU :: "Request \<Rightarrow> bool" where
  "isToPOU r = flag_isSet (r_flags r) DST_POU"

section \<open>Packets\<close>

record Packet =
  p_flags :: u32
  cmd :: Command
  p_id :: nat
  req :: Request
  p_addr :: addr
  p_isSecure :: bool
  p_size :: u32
  headerDelay :: u32
  snoopDelay :: u32
  payloadDelay :: u32

definition COPY_FLAGS :: u32 where "COPY_FLAGS = 0xFF"
definition RESPONDER_FLAGS :: u32 where "RESPONDER_FLAGS = 0x9"
definition HAS_SHARERS :: u32 where "HAS_SHARERS = 0x1"
definition EXPRESS_SNOOP :: u32 where "EXPRESS_SNOOP = 0x2"
definition RESPONDER_HAD_WRITABLE :: u32 where "RESPONDER_HAD_WRITABLE = 0x4"
definition CACHE_RESPONDING :: u32 where "CACHE_RESPONDING = 0x8"
definition WRITE_THROUGH :: u32 where "WRITE_THROUGH = 0x10"
definition SATISFIED :: u32 where "SATISFIED = 0x20"
definition FAILS_TRANSACTION :: u32 where "FAILS_TRANSACTION = 0x40"
definition FROM_TRANSACTION :: u32 where "FROM_TRANSACTION = 0x80"
definition VALID_ADDR :: u32 where "VALID_ADDR = 0x100"
definition VALID_SIZE :: u32 where "VALID_SIZE = 0x200"
definition STATIC_DATA :: u32 where "STATIC_DATA = 0x1000"
definition DYNAMIC_DATA :: u32 where "DYNAMIC_DATA = 0x2000"
definition SUPPRESS_FUNC_ERROR :: u32 where "SUPPRESS_FUNC_ERROR = 0x8000"
definition BLOCK_CACHED :: u32 where "BLOCK_CACHED = 0x10000"

lemmas packet_flag_defs =
  COPY_FLAGS_def RESPONDER_FLAGS_def HAS_SHARERS_def EXPRESS_SNOOP_def
  RESPONDER_HAD_WRITABLE_def CACHE_RESPONDING_def WRITE_THROUGH_def SATISFIED_def
  FAILS_TRANSACTION_def FROM_TRANSACTION_def VALID_ADDR_def VALID_SIZE_def
  STATIC_DATA_def DYNAMIC_DATA_def SUPPRESS_FUNC_ERROR_def BLOCK_CACHED_def

text \<open>The constructors: from a request, for a whole block of the request, and the copy of a
  packet (whose payload allocation is not modelled). \<open>isHTMCmd\<close> requests are outside the
  model, so the address is valid exactly when the request has a physical address.\<close>

definition Packet_new :: "Request \<Rightarrow> Command \<Rightarrow> Packet" where
  "Packet_new r c =
    \<lparr> p_flags = (case r_paddr r of Some _ \<Rightarrow> VALID_ADDR | None \<Rightarrow> 0)
        OR (case r_size r of Some _ \<Rightarrow> VALID_SIZE | None \<Rightarrow> 0),
      cmd = c, p_id = req_ptr r, req = r,
      p_addr = (case r_paddr r of Some a \<Rightarrow> a | None \<Rightarrow> 0),
      p_isSecure = (case r_paddr r of Some _ \<Rightarrow> flag_isSet (r_flags r) 0x10000000
        | None \<Rightarrow> False),
      p_size = (case r_size r of Some s \<Rightarrow> s | None \<Rightarrow> 0),
      headerDelay = 0, snoopDelay = 0, payloadDelay = 0 \<rparr>"

definition Packet_new_blk :: "Request \<Rightarrow> Command \<Rightarrow> u32 \<Rightarrow> nat \<Rightarrow> Packet" where
  "Packet_new_blk r c blkSize i =
    \<lparr> p_flags = (case r_paddr r of Some _ \<Rightarrow> VALID_ADDR | None \<Rightarrow> 0) OR VALID_SIZE,
      cmd = c, p_id = (if i \<noteq> 0 then i else req_ptr r), req = r,
      p_addr = (case r_paddr r of Some a \<Rightarrow> a AND NOT (ucast (blkSize - 1)) | None \<Rightarrow> 0),
      p_isSecure = (case r_paddr r of Some _ \<Rightarrow> flag_isSet (r_flags r) 0x10000000
        | None \<Rightarrow> False),
      p_size = blkSize,
      headerDelay = 0, snoopDelay = 0, payloadDelay = 0 \<rparr>"

definition Packet_copy :: "Packet \<Rightarrow> bool \<Rightarrow> Packet" where
  "Packet_copy pkt clear_flags =
    (let f0 = (if clear_flags then 0 else flag_set 0 (p_flags pkt AND COPY_FLAGS));
         f1 = flag_set f0 (p_flags pkt AND (VALID_ADDR OR VALID_SIZE));
         f2 = (if flag_isSet (p_flags pkt) FROM_TRANSACTION then flag_set f1 FROM_TRANSACTION
               else f1);
         f3 = (if flag_isSet (p_flags pkt) FAILS_TRANSACTION then flag_set f2 FAILS_TRANSACTION
               else f2)
     in pkt\<lparr> p_flags := f3, snoopDelay := 0 \<rparr>)"

text \<open>Snoop and response flags.\<close>

definition cacheResponding :: "Packet \<Rightarrow> bool" where
  "cacheResponding p = flag_isSet (p_flags p) CACHE_RESPONDING"

definition setCacheResponding :: "Packet \<Rightarrow> Packet outcome" where
  "setCacheResponding p =
    rbind (assert_that (isRequest (cmd p)) ''isRequest()'') (\<lambda>_.
    rbind (assert_that (\<not> flag_isSet (p_flags p) CACHE_RESPONDING) ''!CACHE_RESPONDING'')
      (\<lambda>_. Inr (p\<lparr> p_flags := flag_set (p_flags p) CACHE_RESPONDING \<rparr>)))"

definition clearCacheResponding :: "Packet \<Rightarrow> Packet" where
  "clearCacheResponding p = p\<lparr> p_flags := flag_clear (p_flags p) CACHE_RESPONDING \<rparr>"

definition hasSharers :: "Packet \<Rightarrow> bool" where
  "hasSharers p = flag_isSet (p_flags p) HAS_SHARERS"

definition setHasSharers :: "Packet \<Rightarrow> Packet" where
  "setHasSharers p = p\<lparr> p_flags := flag_set (p_flags p) HAS_SHARERS \<rparr>"

definition isExpressSnoop :: "Packet \<Rightarrow> bool" where
  "isExpressSnoop p = flag_isSet (p_flags p) EXPRESS_SNOOP"

definition setExpressSnoop :: "Packet \<Rightarrow> Packet" where
  "setExpressSnoop p = p\<lparr> p_flags := flag_set (p_flags p) EXPRESS_SNOOP \<rparr>"

definition clearExpressSnoop :: "Packet \<Rightarrow> Packet" where
  "clearExpressSnoop p = p\<lparr> p_flags := flag_clear (p_flags p) EXPRESS_SNOOP \<rparr>"

definition responderHadWritable :: "Packet \<Rightarrow> bool" where
  "responderHadWritable p = flag_isSet (p_flags p) RESPONDER_HAD_WRITABLE"

definition setResponderHadWritable :: "Packet \<Rightarrow> Packet outcome" where
  "setResponderHadWritable p =
    rbind (assert_that (cacheResponding p) ''cacheResponding()'') (\<lambda>_.
    rbind (assert_that (\<not> responderHadWritable p) ''!responderHadWritable()'')
      (\<lambda>_. Inr (p\<lparr> p_flags := flag_set (p_flags p) RESPONDER_HAD_WRITABLE \<rparr>)))"

definition clearResponderHadWritable :: "Packet \<Rightarrow> Packet" where
  "clearResponderHadWritable p =
    p\<lparr> p_flags := flag_clear (p_flags p) RESPONDER_HAD_WRITABLE \<rparr>"

definition copyResponderFlags :: "Packet \<Rightarrow> Packet \<Rightarrow> Packet outcome" where
  "copyResponderFlags p other =
    rbind (assert_that (isRequest (cmd p)) ''isRequest()'') (\<lambda>_.
    rbind (assert_that (\<not> cacheResponding other \<or> \<not> cacheResponding p)
        ''!pkt->cacheResponding() || !cacheResponding()'')
      (\<lambda>_. Inr (p\<lparr> p_flags := flag_set (p_flags p) (p_flags other AND RESPONDER_FLAGS) \<rparr>)))"

definition setWriteThrough :: "Packet \<Rightarrow> Packet outcome" where
  "setWriteThrough p =
    rbind (assert_that (isWrite (cmd p) \<and> (isEviction (cmd p) \<or> cmd p = WriteClean))
        ''cmd.isWrite()'')
      (\<lambda>_. Inr (p\<lparr> p_flags := flag_set (p_flags p) WRITE_THROUGH \<rparr>))"

definition clearWriteThrough :: "Packet \<Rightarrow> Packet" where
  "clearWriteThrough p = p\<lparr> p_flags := flag_clear (p_flags p) WRITE_THROUGH \<rparr>"

definition writeThrough :: "Packet \<Rightarrow> bool" where
  "writeThrough p = flag_isSet (p_flags p) WRITE_THROUGH"

definition setSatisfied :: "Packet \<Rightarrow> Packet outcome" where
  "setSatisfied p =
    rbind (assert_that (isClean (cmd p)) ''cmd.isClean()'') (\<lambda>_.
    rbind (assert_that (\<not> flag_isSet (p_flags p) SATISFIED) ''!SATISFIED'')
      (\<lambda>_. Inr (p\<lparr> p_flags := flag_set (p_flags p) SATISFIED \<rparr>)))"

definition satisfied :: "Packet \<Rightarrow> bool" where
  "satisfied p = flag_isSet (p_flags p) SATISFIED"

definition setBlockCached :: "Packet \<Rightarrow> Packet" where
  "setBlockCached p = p\<lparr> p_flags := flag_set (p_flags p) BLOCK_CACHED \<rparr>"

definition isBlockCached :: "Packet \<Rightarrow> bool" where
  "isBlockCached p = flag_isSet (p_flags p) BLOCK_CACHED"

definition clearBlockCached :: "Packet \<Rightarrow> Packet" where
  "clearBlockCached p = p\<lparr> p_flags := flag_clear (p_flags p) BLOCK_CACHED \<rparr>"

text \<open>Queries that need more than the command.\<close>

definition pkt_needsWritable :: "Packet \<Rightarrow> bool outcome" where
  "pkt_needsWritable p =
    rbind (assert_that (isRequest (cmd p)) ''isRequest()'') (\<lambda>_. Inr (needsWritable (cmd p)))"

definition hasRespData :: "Packet \<Rightarrow> bool" where
  "hasRespData p = hasData (responseCommand (cmd p))"

definition isCleanEviction :: "Packet \<Rightarrow> bool" where
  "isCleanEviction p = (cmd p = Command.CleanEvict \<or> cmd p = WritebackClean)"

definition mustCheckAbove :: "Packet \<Rightarrow> bool" where
  "mustCheckAbove p = (cmd p = HardPFReq \<or> isEviction (cmd p))"

definition setBadAddress :: "Packet \<Rightarrow> Packet outcome" where
  "setBadAddress p =
    rbind (assert_that (isResponse (cmd p)) ''isResponse()'')
      (\<lambda>_. Inr (p\<lparr> cmd := BadAddressError \<rparr>))"

definition setBadCommand :: "Packet \<Rightarrow> Packet outcome" where
  "setBadCommand p =
    rbind (assert_that (isResponse (cmd p)) ''isResponse()'')
      (\<lambda>_. Inr (if isWrite (cmd p) then p\<lparr> cmd := WriteError \<rparr> else p\<lparr> cmd := ReadError \<rparr>))"

definition copyError :: "Packet \<Rightarrow> Packet \<Rightarrow> Packet outcome" where
  "copyError p other =
    rbind (assert_that (isError (cmd other)) ''pkt->isError()'')
      (\<lambda>_. Inr (p\<lparr> cmd := cmd other \<rparr>))"

definition valid_addr :: "Packet \<Rightarrow> bool" where
  "valid_addr p = flag_isSet (p_flags p) VALID_ADDR"

definition getAddr :: "Packet \<Rightarrow> addr outcome" where
  "getAddr p = rbind (assert_that (valid_addr p) ''VALID_ADDR'') (\<lambda>_. Inr (p_addr p))"

definition setAddr :: "addr \<Rightarrow> Packet \<Rightarrow> Packet outcome" where
  "setAddr a p =
    rbind (assert_that (valid_addr p) ''VALID_ADDR'') (\<lambda>_. Inr (p\<lparr> p_addr := a \<rparr>))"

definition getSize :: "Packet \<Rightarrow> u32 outcome" where
  "getSize p =
    rbind (assert_that (flag_isSet (p_flags p) VALID_SIZE) ''VALID_SIZE'')
      (\<lambda>_. Inr (p_size p))"

definition getOffset :: "u32 \<Rightarrow> Packet \<Rightarrow> addr outcome" where
  "getOffset blk_size p = rbind (getAddr p) (\<lambda>a. Inr (a AND ucast (blk_size - 1)))"

definition getBlockAddr :: "u32 \<Rightarrow> Packet \<Rightarrow> addr outcome" where
  "getBlockAddr blk_size p = rbind (getAddr p) (\<lambda>a. Inr (a AND NOT (ucast (blk_size - 1))))"

definition makeResponse :: "Packet \<Rightarrow> Packet outcome" where
  "makeResponse p =
    rbind (assert_that (needsResponse (cmd p)) ''needsResponse()'') (\<lambda>_.
    rbind (assert_that (isRequest (cmd p)) ''isRequest()'') (\<lambda>_.
      Inr (p\<lparr> cmd := responseCommand (cmd p),
             p_flags := flag_clear (p_flags p) EXPRESS_SNOOP \<rparr>)))"

definition setFunctionalResponseStatus :: "bool \<Rightarrow> Packet \<Rightarrow> Packet" where
  "setFunctionalResponseStatus success p =
    (if \<not> success
     then (if isWrite (cmd p) then p\<lparr> cmd := FunctionalWriteError \<rparr>
           else p\<lparr> cmd := FunctionalReadError \<rparr>)
     else p)"

text \<open>A port's peer in atomic mode: it is handed the packet, may rewrite it and the state of
  the world around it, and returns the latency of the access.\<close>

type_synonym 'e atomic_peer = "Packet \<Rightarrow> 'e \<Rightarrow> (u64 \<times> Packet \<times> 'e) outcome"

text \<open>In timing mode the peer accepts or refuses the packet; a refused packet stays with the
  sender, as the handler left it.\<close>

type_synonym 'e timing_peer = "Packet \<Rightarrow> 'e \<Rightarrow> (bool \<times> Packet \<times> 'e) outcome"

text \<open>Updating the request behind the packet.\<close>

definition upd_req :: "(Request \<Rightarrow> Request) \<Rightarrow> Packet \<Rightarrow> Packet" where
  "upd_req f p = p\<lparr> req := f (req p) \<rparr>"

lemma upd_req_simps [simp]:
  "req (upd_req f p) = f (req p)"
  "cmd (upd_req f p) = cmd p"
  "p_flags (upd_req f p) = p_flags p"
  "p_addr (upd_req f p) = p_addr p"
  "p_size (upd_req f p) = p_size p"
  by (simp_all add: upd_req_def)

lemma upd_req_upd_req [simp]: "upd_req f (upd_req g p) = upd_req (\<lambda>r. f (g r)) p"
  by (simp add: upd_req_def)

lemma valid_addr_upd_req [simp]: "valid_addr (upd_req f p) = valid_addr p"
  by (simp add: valid_addr_def)

lemma getAddr_eq: "valid_addr p \<Longrightarrow> getAddr p = Inr (p_addr p)"
  by (simp add: getAddr_def)

lemma getAddr_upd_req [simp]: "getAddr (upd_req f p) = getAddr p"
  by (simp add: getAddr_def)

lemma hasSharers_upd_req [simp]: "hasSharers (upd_req f p) = hasSharers p"
  by (simp add: hasSharers_def)

lemma flags_disjoint [simp]:
  "valid_addr (setHasSharers p) = valid_addr p"
  "valid_addr (setExpressSnoop p) = valid_addr p"
  "valid_addr (clearExpressSnoop p) = valid_addr p"
  "valid_addr (clearCacheResponding p) = valid_addr p"
  "cacheResponding (setHasSharers p) = cacheResponding p"
  "hasSharers (setExpressSnoop p) = hasSharers p"
  by (simp_all add: valid_addr_def setHasSharers_def setExpressSnoop_def clearExpressSnoop_def
      clearCacheResponding_def cacheResponding_def hasSharers_def packet_flag_defs
      flag_set_other flag_clear_other)

text \<open>Turning a request that needs a response into that response always succeeds, and the
  result is a response that keeps the address.\<close>

lemma makeResponse_ok_iff:
  "makeResponse p = Inr q \<longleftrightarrow> needsResponse (cmd p) \<and> isRequest (cmd p)
     \<and> q = p\<lparr> cmd := responseCommand (cmd p), p_flags := flag_clear (p_flags p) EXPRESS_SNOOP \<rparr>"
  by (auto simp: makeResponse_def)

text \<open>A concrete request, for the witnesses of the theorems.\<close>

definition sample_request :: Request where
  "sample_request =
    \<lparr> req_ptr = 1, r_paddr = Some 0x90000040, r_size = Some 64, r_flags = 0, r_requestorId = 3,
      pciBridgeSlaveID = -1, cxl_packet_type = DefaultPacket, cxl_req = None,
      cxl_data_atomic = None, cxl_data_atomic2 = None, cxl_cache = None,
      coherent_check_dest = 0, from_cxl_proc = False, old_state = 63, new_state = 63,
      hit_miss = False \<rparr>"

lemma sample_packet [simp]:
  "valid_addr (Packet_new sample_request c)"
  "p_addr (Packet_new sample_request c) = 0x90000040"
  "cmd (Packet_new sample_request c) = c"
  "req (Packet_new sample_request c) = sample_request"
  by (simp_all add: Packet_new_def sample_request_def valid_addr_def packet_flag_defs
      flag_isSet_def)

end
