(* ===== verification/HomeAgent.thy ===== *)
theory HomeAgent
  imports Packets
begin

text \<open>
  The home agent of the root complex (\<open>PciBridge::HomeAgent\<close> in \<^verbatim>\<open>mem/PciBridge.cc\<close>): it
  turns the host's memory requests into CXL.mem messages, answers the device's CXL.cache
  requests, and checks the coherence of device requests to host-biased memory.

  The test-case switches that the source declares as local constants are a parameter of the
  model; \<open>home_agent_cases\<close> gives them the values of the source. Trace output (\<open>DPRINTF\<close>)
  is not modelled. The port behind which the host caches sit is an \<open>atomic_peer\<close>.
\<close>

section \<open>CXL.mem requests of the host\<close>

record HA_cases =
  ExclusiveRead :: bool
  SharedRead :: bool
  NonCacheAbleReadFlushed :: bool
  NonCacheAbleRead :: bool
  PassCacheReadFlushed :: bool
  PassCacheRead :: bool
  PassCacheReadNoSnoop :: bool
  ExclusiveWrite :: bool
  SharedWrite :: bool
  NoOwner_wantWB :: bool
  wantUpdataMem :: bool

definition home_agent_cases :: HA_cases where
  "home_agent_cases =
    \<lparr> ExclusiveRead = True, SharedRead = True, NonCacheAbleReadFlushed = False,
      NonCacheAbleRead = False, PassCacheReadFlushed = False, PassCacheRead = False,
      PassCacheReadNoSnoop = False, ExclusiveWrite = True, SharedWrite = False,
      NoOwner_wantWB = False, wantUpdataMem = False \<rparr>"

text \<open>A read becomes a \<open>MemRd\<close> and a write a \<open>MemWr\<close> for the packet's address.\<close>

definition attach_M2S_Req ::
  "M2S_SnpTypes \<Rightarrow> MetaFiled \<Rightarrow> MetaValue \<Rightarrow> Packet \<Rightarrow> (bool \<times> Packet) outcome" where
  "attach_M2S_Req snp_type meta_filed meta_value pkt =
    rbind (getAddr pkt) (\<lambda>a.
      let m2s_req = new_M2S_Req MemRd snp_type meta_filed meta_value 0 a 0 0 0 0 TC_Reserved
      in Inr (True, upd_req (\<lambda>r. r\<lparr> cxl_packet_type := CXLmemPacket,
           cxl_req := Some (set_cxl_req_type T_M2S_Req (Is_M2S_Req m2s_req)) \<rparr>) pkt))"

definition attach_M2S_RwD ::
  "M2S_SnpTypes \<Rightarrow> MetaFiled \<Rightarrow> MetaValue \<Rightarrow> Packet \<Rightarrow> (bool \<times> Packet) outcome" where
  "attach_M2S_RwD snp_type meta_filed meta_value pkt =
    rbind (getAddr pkt) (\<lambda>a.
      let m2s_rwd = new_M2S_RwD MemWr snp_type meta_filed meta_value 0 a False False 0 0 0 0
            TC_Reserved
      in Inr (True, upd_req (\<lambda>r. r\<lparr> cxl_packet_type := CXLmemPacket,
           cxl_req := Some (set_cxl_req_type T_M2S_RwD (Is_M2S_RwD m2s_rwd)) \<rparr>) pkt))"

text \<open>\<open>HomeAgent::makeCXLPacket\<close>. Before the branches the snoop type is \<open>No_Op\<close>, the meta
  value \<open>Any\<close> and the meta field \<open>No_Op\<close>; the result tells whether a message was attached.\<close>

definition makeCXLPacket :: "HA_cases \<Rightarrow> Packet \<Rightarrow> (bool \<times> Packet) outcome" where
  "makeCXLPacket tc pkt =
    (if cmd pkt = InvalidateReq then Inr (False, pkt)
     else if cmd pkt = ReadExReq then
       (if ExclusiveRead tc then attach_M2S_Req ST_SnpInv MF_Meta0_State MV_Any pkt
        else attach_M2S_Req ST_No_Op MF_No_Op MV_Any pkt)
     else if cmd pkt = ReadSharedReq then
       (if SharedRead tc then attach_M2S_Req ST_SnpData MF_Meta0_State MV_Shared pkt
        else attach_M2S_Req ST_No_Op MF_No_Op MV_Any pkt)
     else if cmd pkt = ReadReq then
       (if NonCacheAbleReadFlushed tc then attach_M2S_Req ST_SnpInv MF_Meta0_State MV_Invalied pkt
        else if NonCacheAbleRead tc then attach_M2S_Req ST_SnpCur MF_Meta0_State MV_Invalied pkt
        else if PassCacheReadFlushed tc then attach_M2S_Req ST_SnpInv MF_No_Op MV_Any pkt
        else if PassCacheRead tc then attach_M2S_Req ST_SnpCur MF_No_Op MV_Any pkt
        else if PassCacheReadNoSnoop tc then attach_M2S_Req ST_No_Op MF_No_Op MV_Any pkt
        else attach_M2S_Req ST_No_Op MF_No_Op MV_Any pkt)
     else if cmd pkt = WriteReq then
       (if ExclusiveWrite tc then attach_M2S_RwD ST_No_Op MF_Meta0_State MV_Any pkt
        else if SharedWrite tc then attach_M2S_RwD ST_No_Op MF_Meta0_State MV_Shared pkt
        else if NoOwner_wantWB tc then attach_M2S_RwD ST_SnpInv MF_Meta0_State MV_Invalied pkt
        else if wantUpdataMem tc then attach_M2S_RwD ST_No_Op MF_Meta0_State MV_Invalied pkt
        else attach_M2S_RwD ST_No_Op MF_Meta0_State MV_Any pkt)
     else Inr (False, pkt))"

section \<open>CXL.cache responses to the device\<close>

definition h2d_resp_msg :: "H2D_Resp_Opcodes \<Rightarrow> RSP_Data_Encoding \<Rightarrow> CXL_Cache_obj" where
  "h2d_resp_msg opcode rsp =
    Is_H2D_Resp ((new_H2D_Resp opcode rsp RP_Host_CacheHit 0 0 0 0)\<lparr> cache_last_resp := 1 \<rparr>)"

definition h2d_data_msg :: CXL_Cache_obj where
  "h2d_data_msg =
    Is_H2D_Data ((new_H2D_Data 0 False False False 0 0 0)\<lparr> cache_last_resp := 1 \<rparr>)"

definition attach_H2D_Resp ::
  "H2D_Resp_Opcodes \<Rightarrow> RSP_Data_Encoding \<Rightarrow> Packet \<Rightarrow> Packet" where
  "attach_H2D_Resp opcode rsp =
    upd_req (\<lambda>r. r\<lparr> cxl_packet_type := CXLcachePacket,
      cxl_cache := Some (h2d_resp_msg opcode rsp) \<rparr>)"

definition attach_H2D_Resp_Data ::
  "H2D_Resp_Opcodes \<Rightarrow> RSP_Data_Encoding \<Rightarrow> Packet \<Rightarrow> Packet" where
  "attach_H2D_Resp_Data opcode rsp =
    upd_req (\<lambda>r. r\<lparr> cxl_cache := Some (h2d_resp_msg opcode rsp),
      cxl_packet_type := CXLcacheDataPacket, cxl_data_atomic2 := Some h2d_data_msg \<rparr>)"

text \<open>The branches of \<open>HomeAgent::makeCXLResp\<close>, in the order of the source: the reads that
  return data, the requests answered without data, the evictions and the writes.\<close>

fun makeCXLResp_read ::
  "D2H_Req_OpCodes \<Rightarrow> RSP_Data_Encoding \<Rightarrow> Packet \<Rightarrow> Packet option" where
  "makeCXLResp_read RdCurr rsp_data pkt =
     Some (upd_req (\<lambda>r. r\<lparr> cxl_packet_type := CXLcacheDataPacket,
       cxl_data_atomic2 := Some h2d_data_msg, cxl_cache := None \<rparr>) pkt)"
| "makeCXLResp_read RdOwn rsp_data pkt = Some (attach_H2D_Resp_Data GO RD_Exclusive pkt)"
| "makeCXLResp_read RdShared rsp_data pkt = Some (attach_H2D_Resp_Data GO rsp_data pkt)"
| "makeCXLResp_read RdAny rsp_data pkt = Some (attach_H2D_Resp_Data GO rsp_data pkt)"
| "makeCXLResp_read _ rsp_data pkt = None"

fun makeCXLResp_nodata :: "D2H_Req_OpCodes \<Rightarrow> Packet \<Rightarrow> Packet option" where
  "makeCXLResp_nodata RdOwnNoData pkt = Some (attach_H2D_Resp GO RD_Exclusive pkt)"
| "makeCXLResp_nodata ItoMWr pkt = Some (attach_H2D_Resp GO_WritePull RD_Modified pkt)"
| "makeCXLResp_nodata WrCur pkt = Some (attach_H2D_Resp GO_WritePull RD_Modified pkt)"
| "makeCXLResp_nodata CLFlush pkt = Some (attach_H2D_Resp GO RD_Invalid pkt)"
| "makeCXLResp_nodata _ pkt = None"

fun makeCXLResp_evict :: "D2H_Req_OpCodes \<Rightarrow> Packet \<Rightarrow> Packet option" where
  "makeCXLResp_evict D2H_Req_OpCodes.CleanEvict pkt =
     Some (attach_H2D_Resp GO_WritePull RD_Invalid pkt)"
| "makeCXLResp_evict DirtyEvict pkt = Some (attach_H2D_Resp GO_WritePull RD_Invalid pkt)"
| "makeCXLResp_evict CleanEvictNoData pkt = Some pkt"
| "makeCXLResp_evict _ pkt = None"

fun makeCXLResp_write :: "D2H_Req_OpCodes \<Rightarrow> Packet \<Rightarrow> Packet option" where
  "makeCXLResp_write WOWrInv pkt = Some (attach_H2D_Resp Fast_GO_writePull RD_Invalid pkt)"
| "makeCXLResp_write WOWrInvF pkt = Some (attach_H2D_Resp Fast_GO_writePull RD_Invalid pkt)"
| "makeCXLResp_write WrInv pkt = Some (attach_H2D_Resp WritePull RD_Invalid pkt)"
| "makeCXLResp_write CacheFlushed pkt = Some (attach_H2D_Resp GO RD_Invalid pkt)"
| "makeCXLResp_write _ pkt = None"

text \<open>The \<open>if\<close>/\<open>else if\<close> chain takes the first branch that applies.\<close>

fun first_some :: "'a option list \<Rightarrow> 'a \<Rightarrow> 'a" where
  "first_some [] d = d"
| "first_some (None # xs) d = first_some xs d"
| "first_some (Some x # xs) d = x"

definition makeCXLResp :: "Packet \<Rightarrow> (bool \<times> Packet) outcome" where
  "makeCXLResp pkt =
    rbind (deref (cxl_cache (req pkt))) (\<lambda>c.
    let rsp_data = (if hasSharers pkt then RD_Shared else RD_Exclusive) in
    if obj_cxl_cache_type c = T_D2H_Req then
      rbind (as_D2H_Req c) (\<lambda>d.
        let op = d2hreq_Opcode d in
        Inr (True, first_some
          [makeCXLResp_read op rsp_data pkt, makeCXLResp_nodata op pkt,
           makeCXLResp_evict op pkt, makeCXLResp_write op pkt] pkt))
    else Inl (Panic ''incorrect CXL.cache Req in PciBridge::makeCXLResp''))"

section \<open>Coherence check of a device request\<close>

text \<open>\<open>PciBridge::forwardAtomic\<close>: the packet is snooped in the host caches; a response is
  recorded and the packet's own command restored.\<close>

definition forwardAtomic ::
  "'e atomic_peer \<Rightarrow> Packet \<Rightarrow> 'e \<Rightarrow> (Command \<times> u64 \<times> Packet \<times> 'e) outcome" where
  "forwardAtomic sendAtomicSnoop pkt e =
    rbind (getAddr pkt) (\<lambda>dest_addr.
    rbind (sendAtomicSnoop pkt e) (\<lambda>(latency, pkt', e').
      if isResponse (cmd pkt') then
        rbind (assert_that (cmd pkt' \<noteq> cmd pkt) ''pkt->cmd != orig_cmd'') (\<lambda>_.
        rbind (assert_that (cacheResponding pkt') ''pkt->cacheResponding()'') (\<lambda>_.
          Inr (cmd pkt', latency, pkt'\<lparr> cmd := cmd pkt \<rparr>, e')))
      else Inr (InvalidCmd, 0, pkt', e')))"

definition fwd_req :: "M2S_Req_OpCodes \<Rightarrow> MetaValue \<Rightarrow> Packet \<Rightarrow> M2S_Req outcome" where
  "fwd_req opcode meta_value pkt =
    rbind (getAddr pkt) (\<lambda>a.
      Inr (new_M2S_Req opcode ST_No_Op MF_Meta0_State meta_value 0 a 0 0 0 0 TC_Reserved))"

text \<open>The message built from the device's opcode; other opcodes panic.\<close>

definition checkCoherence_req :: "D2H_Req_OpCodes \<Rightarrow> Packet \<Rightarrow> M2S_Req outcome" where
  "checkCoherence_req op pkt =
    (if op = RdCurr then fwd_req MemRdFwd MV_Any pkt
     else if op = RdShared then fwd_req MemRdFwd MV_Shared pkt
     else if op = RdAny then fwd_req MemRdFwd MV_Shared pkt
     else if op = RdOwn \<or> op = RdOwnNoData then fwd_req MemRdFwd MV_Invalied pkt
     else if op = WOWrInv \<or> op = WOWrInvF then fwd_req MemWrFwd MV_Invalied pkt
     else Inl (Panic ''incorrect CXL.cache Req in PciBridge::checkCoherence''))"

definition checkCoherence_attach :: "M2S_Req \<Rightarrow> Packet \<Rightarrow> Packet" where
  "checkCoherence_attach m2s_req pkt =
    (let m = (if hasSharers pkt then m2s_req\<lparr> req_meta_value := MV_Shared \<rparr>
              else m2s_req\<lparr> req_meta_value := MV_Invalied \<rparr>)
     in upd_req (\<lambda>r. r\<lparr> cxl_cache := None, cxl_packet_type := HostBiasCheck,
          cxl_req := Some (Is_M2S_Req m) \<rparr>) pkt)"

text \<open>\<open>HomeAgent::checkCoherenceTiming\<close>, and \<open>HomeAgent::checkCoherence\<close>, which first snoops
  the host caches and keeps the command of a snoop response.\<close>

definition checkCoherenceTiming :: "Packet \<Rightarrow> Packet outcome" where
  "checkCoherenceTiming pkt =
    rbind (deref (cxl_cache (req pkt))) (\<lambda>c.
    if obj_cxl_cache_type c = T_D2H_Req then
      rbind (as_D2H_Req c) (\<lambda>d.
      rbind (checkCoherence_req (d2hreq_Opcode d) pkt) (\<lambda>m2s_req.
        Inr (checkCoherence_attach m2s_req pkt)))
    else Inl (Panic ''incorrect CXL.cache Req in PciBridge::checkCoherence''))"

definition checkCoherence ::
  "'e atomic_peer \<Rightarrow> Packet \<Rightarrow> 'e \<Rightarrow> (u64 \<times> Packet \<times> 'e) outcome" where
  "checkCoherence sendAtomicSnoop pkt e =
    rbind (deref (cxl_cache (req pkt))) (\<lambda>c.
    if obj_cxl_cache_type c = T_D2H_Req then
      rbind (forwardAtomic sendAtomicSnoop pkt e)
        (\<lambda>(snoop_response_cmd, snoop_response_latency, pkt1, e').
      let pkt2 = (if snoop_response_cmd \<noteq> InvalidCmd then pkt1\<lparr> cmd := snoop_response_cmd \<rparr>
                  else pkt1) in
      rbind (deref (cxl_cache (req pkt2))) (\<lambda>c2.
      rbind (as_D2H_Req c2) (\<lambda>d.
      rbind (checkCoherence_req (d2hreq_Opcode d) pkt2) (\<lambda>m2s_req.
        Inr (snoop_response_latency, checkCoherence_attach m2s_req pkt2, e')))))
    else Inl (Panic ''incorrect CXL.cache Req in PciBridge::checkCoherence''))"

section \<open>Data, snoops and the receive path\<close>

definition HA_makeCXLData :: "Packet \<Rightarrow> (bool \<times> Packet) outcome" where
  "HA_makeCXLData pkt =
    rbind (deref (cxl_data_atomic2 (req pkt))) (\<lambda>d.
      if \<not> obj_last_data d then
        Inr (True, upd_req (\<lambda>r. r\<lparr> cxl_data_atomic2 := None, cxl_cache := None \<rparr>) pkt)
      else
        Inr (True, upd_req (\<lambda>r. r\<lparr> cxl_packet_type := CXLcachePacket,
          cxl_cache := Some (h2d_resp_msg ExtCmp RD_Invalid),
          cxl_data_atomic2 := None \<rparr>) pkt))"

text \<open>For a command other than the two it tests, the local \<open>opcode\<close> is never assigned.\<close>

definition makeCXLSnpReq :: "Packet \<Rightarrow> (bool \<times> Packet) outcome" where
  "makeCXLSnpReq snoop_pkt =
    rbind (if cmd snoop_pkt = ReadSharedReq then Inr H2D_SnpData
           else if cmd snoop_pkt = ReadExReq then Inr H2D_SnpInv
           else Inl (Undefined ''makeCXLSnpReq: opcode'')) (\<lambda>opcode.
    rbind (getAddr snoop_pkt) (\<lambda>a.
      Inr (True, upd_req (\<lambda>r. r\<lparr> cxl_packet_type := CXLcacheH2DReq,
        cxl_cache := Some (Is_H2D_Req (new_H2D_Req opcode a 0 0 0 0 0)) \<rparr>) snoop_pkt)))"

definition reciveCXL :: "Packet \<Rightarrow> Packet outcome" where
  "reciveCXL pkt =
    (case cxl_cache (req pkt) of
       Some c \<Rightarrow>
         (if CXL_Cache_getAddr c \<ge> 0xA0000000 then
            rbind (makeCXLResp pkt) (\<lambda>(checkCXLPkt, pkt').
              if \<not> checkCXLPkt then Inl (Panic ''failed make CXL.cache Response'')
              else Inr pkt')
          else Inr pkt)
     | None \<Rightarrow>
         (case cxl_data_atomic2 (req pkt) of
            Some d \<Rightarrow>
              rbind (HA_makeCXLData pkt) (\<lambda>(checkCXLPkt, pkt').
                if \<not> checkCXLPkt then Inl (Panic ''failed make CXL.cache Response'')
                else Inr pkt')
          | None \<Rightarrow> Inr pkt))"

text \<open>\<open>HomeAgent::sinkPacket\<close>. The last disjunct calls \<open>needsWritable\<close>, which asserts that the
  packet is a request, but only for a packet whose first disjunct already holds.\<close>

definition HA_sinkPacket :: "Packet \<Rightarrow> bool" where
  "HA_sinkPacket pkt =
    (cacheResponding pkt
     \<or> (\<not> (isRead (cmd pkt) \<or> isWrite (cmd pkt)) \<and> \<not> needsResponse (cmd pkt))
     \<or> (isCleanEviction pkt \<and> isBlockCached pkt)
     \<or> (cacheResponding pkt \<and> (\<not> needsWritable (cmd pkt) \<or> responderHadWritable pkt)))"

end
