(* ===== verification/AddrRanges.thy ===== *)
theory AddrRanges
  imports Prelude
begin

text \<open>
  Address ranges (\<^verbatim>\<open>base/addr_range.hh\<close>): a half-open interval of addresses, possibly
  interleaved. For an interleaved range every mask selects the address bits whose exclusive
  or gives one bit of the interleaving selector, and the range holds the addresses whose
  selector equals \<open>intlvMatch\<close>. Modelled are the queries that the crossbars, the bridge
  and the device ports use, and the subtraction of ranges.
\<close>

section \<open>Ranges\<close>

record AddrRange =
  rstart :: addr
  rend :: addr
  masks :: "addr list"
  intlvMatch :: u8

definition AddrRange2 :: "addr \<Rightarrow> addr \<Rightarrow> AddrRange" where
  "AddrRange2 s e = \<lparr> rstart = s, rend = e, masks = [], intlvMatch = 0 \<rparr>"

definition AddrRange_masks :: "addr \<Rightarrow> addr \<Rightarrow> addr list \<Rightarrow> u8 \<Rightarrow> AddrRange outcome" where
  "AddrRange_masks s e ms m =
    (if ms \<noteq> [] \<and> unat m \<ge> 2 ^ length ms
     then Inl (Fatal ''Match value does not fit in interleaving bits'')
     else Inr \<lparr> rstart = s, rend = e, masks = ms, intlvMatch = m \<rparr>)"

definition RangeEx :: "addr \<Rightarrow> addr \<Rightarrow> AddrRange" where
  "RangeEx s e = AddrRange2 s e"

definition RangeIn :: "addr \<Rightarrow> addr \<Rightarrow> AddrRange" where
  "RangeIn s e = AddrRange2 s (e + 1)"

definition RangeSize :: "addr \<Rightarrow> addr \<Rightarrow> AddrRange" where
  "RangeSize s sz = AddrRange2 s (s + sz)"

definition interleaved :: "AddrRange \<Rightarrow> bool" where
  "interleaved r = (length (masks r) > 0)"

definition stripes :: "AddrRange \<Rightarrow> u32" where
  "stripes r = ucast (push_bit (length (masks r)) 1 :: u64)"

definition range_size :: "AddrRange \<Rightarrow> addr" where
  "range_size r = drop_bit (length (masks r)) (rend r - rstart r)"

definition range_valid :: "AddrRange \<Rightarrow> bool" where
  "range_valid r = (rstart r \<le> rend r)"

definition mergesWith :: "AddrRange \<Rightarrow> AddrRange \<Rightarrow> bool" where
  "mergesWith t r = (rstart r = rstart t \<and> rend r = rend t \<and> masks r = masks t)"

definition popCount :: "addr \<Rightarrow> nat" where
  "popCount w = length (filter (bit w) [0..<64])"

text \<open>The loop of \<open>contains\<close> that collects the selector, from mask \<open>i\<close> on.\<close>

fun intlv_sel :: "addr \<Rightarrow> nat \<Rightarrow> addr list \<Rightarrow> u32" where
  "intlv_sel a i [] = 0"
| "intlv_sel a i (m # ms) =
     push_bit i (of_nat (popCount (a AND m) mod 2)) OR intlv_sel a (Suc i) ms"

definition contains :: "AddrRange \<Rightarrow> addr \<Rightarrow> bool" where
  "contains r a =
    (if rstart r \<le> a \<and> a < rend r
     then intlv_sel a 0 (masks r) = ucast (intlvMatch r)
     else False)"

text \<open>\<open>granularity\<close> accumulates the masks in a variable whose type is deduced from the
  literal 0, a 32-bit \<open>int\<close>, which is sign-extended again for \<open>ctz64\<close>.\<close>

definition ctz64 :: "u64 \<Rightarrow> nat" where
  "ctz64 w = (case filter (bit w) [0..<64] of [] \<Rightarrow> 64 | (n # _) \<Rightarrow> n)"

definition granularity :: "AddrRange \<Rightarrow> u64" where
  "granularity r =
    (if interleaved r
     then push_bit (ctz64 (scast (foldl (\<lambda>c m. ucast ((scast c :: u64) OR m)) (0 :: u32)
            (masks r)))) 1
     else range_size r)"

definition intersects :: "AddrRange \<Rightarrow> AddrRange \<Rightarrow> bool outcome" where
  "intersects t r =
    (if rstart t \<ge> rend r \<or> rend t \<le> rstart r then Inr False
     else if \<not> interleaved t \<and> \<not> interleaved r then Inr True
     else if range_size r = 1 then Inr (contains t (rstart r))
     else if mergesWith t r then Inr (intlvMatch t = intlvMatch r)
     else Inl (Panic ''Cannot test intersection''))"

definition isSubset :: "AddrRange \<Rightarrow> AddrRange \<Rightarrow> bool outcome" where
  "isSubset t r =
    (if interleaved t then Inl (Panic ''Cannot test subset of interleaved range'')
     else if interleaved r then
       Inr (contains r (rstart t) \<and> contains r (rend t - 1) \<and> range_size t \<le> granularity r)
     else Inr (rstart t \<ge> rstart r \<and> rend t \<le> rend r))"

definition range_inter :: "AddrRange \<Rightarrow> AddrRange \<Rightarrow> AddrRange outcome" where
  "range_inter t r =
    (if interleaved t \<or> interleaved r
     then Inl (Panic ''Cannot calculate intersection of interleaved ranges.'')
     else let s = max (rstart t) (rstart r); e = min (rend t) (rend r) in
          Inr (if e \<le> s then AddrRange2 0 0 else AddrRange2 s e))"

text \<open>\<open>operator<\<close> and the stable sort of a list of ranges by it.\<close>

definition range_less :: "AddrRange \<Rightarrow> AddrRange \<Rightarrow> bool" where
  "range_less t r =
    (if rstart t \<noteq> rstart r then rstart t < rstart r
     else if interleaved t \<and> interleaved r then intlvMatch t < intlvMatch r
     else interleaved t)"

fun insort_range :: "AddrRange \<Rightarrow> AddrRange list \<Rightarrow> AddrRange list" where
  "insort_range x [] = [x]"
| "insort_range x (y # ys) = (if range_less y x then y # insort_range x ys else x # y # ys)"

definition sort_ranges :: "AddrRange list \<Rightarrow> AddrRange list" where
  "sort_ranges xs = foldr insort_range xs []"

text \<open>\<open>exclude\<close>: the parts of a range that a list of ranges leaves over.\<close>

fun exclude_loop ::
  "AddrRange \<Rightarrow> addr \<Rightarrow> AddrRange list \<Rightarrow> AddrRange list \<Rightarrow> AddrRange list outcome" where
  "exclude_loop r next_start acc [] =
     Inr (if next_start < rend r then acc @ [AddrRange2 next_start (rend r)] else acc)"
| "exclude_loop r next_start acc (e # es) =
     rbind (assert_that (\<not> interleaved e) ''!e.interleaved()'') (\<lambda>_.
     rbind (intersects r e) (\<lambda>isect.
       if \<not> isect then exclude_loop r next_start acc es
       else if rstart e \<le> next_start then
         (if rend e < rend r
          then exclude_loop r (if next_start < rend e then rend e else next_start) acc es
          else Inr acc)
       else
         (let acc' = acc @ [AddrRange2 next_start (rstart e)] in
          if rend e < rend r then exclude_loop r (rend e) acc' es else Inr acc')))"

definition exclude :: "AddrRange \<Rightarrow> AddrRange list \<Rightarrow> AddrRange list outcome" where
  "exclude r exclude_ranges =
    rbind (assert_that (\<not> interleaved r) ''!interleaved()'') (\<lambda>_.
      exclude_loop r (rstart r) [] (sort_ranges exclude_ranges))"

section \<open>Properties of plain ranges\<close>

lemma interleaved_AddrRange2 [simp]: "\<not> interleaved (AddrRange2 s e)"
  by (simp add: interleaved_def AddrRange2_def)

lemma not_interleaved_masks: "\<not> interleaved r \<longleftrightarrow> masks r = []"
  by (simp add: interleaved_def)

definition plain :: "AddrRange \<Rightarrow> bool" where
  "plain r = (masks r = [] \<and> intlvMatch r = 0)"

lemma plain_AddrRange2 [simp]: "plain (AddrRange2 s e)"
  by (simp add: plain_def AddrRange2_def)

lemma plain_RangeSize [simp]: "plain (RangeSize s e)"
  by (simp add: RangeSize_def)

lemma plain_not_interleaved [simp]: "plain r \<Longrightarrow> \<not> interleaved r"
  by (simp add: plain_def interleaved_def)

lemma contains_plain: "plain r \<Longrightarrow> contains r a \<longleftrightarrow> rstart r \<le> a \<and> a < rend r"
  by (simp add: plain_def contains_def)

lemma AddrRange2_sels [simp]:
  "rstart (AddrRange2 s e) = s" "rend (AddrRange2 s e) = e"
  by (simp_all add: AddrRange2_def)

lemma contains_AddrRange2 [simp]: "contains (AddrRange2 s e) a \<longleftrightarrow> s \<le> a \<and> a < e"
  by (simp add: contains_plain)

lemma intersects_plain:
  "plain t \<Longrightarrow> plain r \<Longrightarrow> intersects t r = Inr (rstart t < rend r \<and> rstart r < rend t)"
  by (auto simp: intersects_def not_le)

lemma set_insort_range [simp]: "set (insort_range x ys) = insert x (set ys)"
  by (induction ys) auto

lemma set_sort_ranges [simp]: "set (sort_ranges xs) = set xs"
  by (induction xs) (simp_all add: sort_ranges_def)

lemma range_less_plain: "plain t \<Longrightarrow> plain r \<Longrightarrow> range_less t r \<longleftrightarrow> rstart t < rstart r"
  by (auto simp: range_less_def)

lemma sorted_insort_range:
  assumes "plain x" "\<forall>y \<in> set ys. plain y" "sorted (map rstart ys)"
  shows "sorted (map rstart (insort_range x ys))"
  using assms by (induction ys) (auto simp: range_less_plain)

lemma sorted_sort_ranges:
  "\<forall>x \<in> set xs. plain x \<Longrightarrow> sorted (map rstart (sort_ranges xs))"
proof (induction xs)
  case (Cons x xs)
  have "sort_ranges (x # xs) = insort_range x (sort_ranges xs)"
    by (simp add: sort_ranges_def)
  then show ?case
    using Cons sorted_insort_range[of x "sort_ranges xs"] by simp
qed (simp add: sort_ranges_def)

definition covers :: "AddrRange list \<Rightarrow> addr \<Rightarrow> bool" where
  "covers rs a = (\<exists>r \<in> set rs. contains r a)"

lemma covers_simps [simp]:
  "\<not> covers [] a"
  "covers (r # rs) a \<longleftrightarrow> contains r a \<or> covers rs a"
  "covers (rs @ qs) a \<longleftrightarrow> covers rs a \<or> covers qs a"
  by (auto simp: covers_def)

text \<open>The loop's invariant: what has been collected is right below \<open>next_start\<close>, and the
  ranges still to come start where the previous ones did, or later.\<close>

lemma covers_sorted_ge:
  assumes "plain e" "\<forall>x \<in> set es. plain x" "sorted (map rstart (e # es))" "a < rstart e"
  shows "\<not> covers (e # es) a"
proof
  assume "covers (e # es) a"
  then obtain x where x: "x \<in> set (e # es)" and c: "contains x a"
    by (auto simp: covers_def)
  from x assms(1,2) c have "rstart x \<le> a"
    by (auto simp: contains_plain)
  moreover from x assms(3) have "rstart e \<le> rstart x"
    by auto
  ultimately show False
    using assms(4) by (meson leD order.trans)
qed

lemma exclude_loop_correct:
  assumes "plain r" "\<forall>e \<in> set es. plain e \<and> range_valid e" "sorted (map rstart es)"
    and "rstart r \<le> next_start"
  shows "\<exists>rs. exclude_loop r next_start acc es = Inr (acc @ rs)
    \<and> (\<forall>a. covers rs a \<longleftrightarrow> next_start \<le> a \<and> a < rend r \<and> \<not> covers es a)"
  using assms
proof (induction es arbitrary: next_start acc)
  case Nil
  then show ?case by (auto simp: not_less dest: order.strict_trans1)
next
  case (Cons e es)
  have pe: "plain e" and ve: "rstart e \<le> rend e"
    and tl: "\<forall>e \<in> set es. plain e \<and> range_valid e" "sorted (map rstart es)"
    using Cons.prems by (auto simp: range_valid_def)
  have ge: "\<And>a. a < rstart e \<Longrightarrow> \<not> covers es a"
    using covers_sorted_ge[of e es] Cons.prems tl pe by auto
  note ih = Cons.IH[OF \<open>plain r\<close> tl]
  show ?case
  proof (cases "rstart r < rend e \<and> rstart e < rend r")
    case False
    then have out: "next_start \<le> a \<Longrightarrow> a < rend r \<Longrightarrow> \<not> contains e a" for a
      using Cons.prems(4) pe by (auto simp: contains_plain not_less)
    from False have "exclude_loop r next_start acc (e # es) = exclude_loop r next_start acc es"
      using pe Cons.prems(1) by (simp add: intersects_plain)
    then show ?thesis
      using ih[of next_start acc] Cons.prems(4) out by auto
  next
    case True
    then have isect: "intersects r e = Inr True"
      using pe Cons.prems(1) by (simp add: intersects_plain)
    have ni: "\<not> interleaved e" using pe by simp
    consider (low) "rstart e \<le> next_start" "rend e < rend r"
      | (low_end) "rstart e \<le> next_start" "\<not> rend e < rend r"
      | (high) "\<not> rstart e \<le> next_start" "rend e < rend r"
      | (high_end) "\<not> rstart e \<le> next_start" "\<not> rend e < rend r"
      by blast
    then show ?thesis
    proof cases
      case low
      let ?n = "if next_start < rend e then rend e else next_start"
      have "rstart r \<le> ?n" using Cons.prems(4) by auto
      from ih[OF this, of acc] obtain rs where
        rs: "exclude_loop r ?n acc es = Inr (acc @ rs)"
        and c: "\<And>a. covers rs a \<longleftrightarrow> ?n \<le> a \<and> a < rend r \<and> \<not> covers es a" by blast
      have "covers rs a \<longleftrightarrow> next_start \<le> a \<and> a < rend r \<and> \<not> covers (e # es) a" for a
        using c[of a] low pe by (auto simp: contains_plain not_le not_less split: if_splits)
      then show ?thesis
        using rs low isect ni by auto
    next
      case low_end
      have "\<not> (next_start \<le> a \<and> a < rend r \<and> \<not> covers (e # es) a)" for a
        using low_end pe by (auto simp: contains_plain not_less dest: order.strict_trans2)
      then show ?thesis
        using low_end isect ni by (intro exI[of _ "[]"]) auto
    next
      case high
      have "rstart r \<le> rend e" using True by (simp add: less_imp_le)
      from ih[OF this, of "acc @ [AddrRange2 next_start (rstart e)]"] obtain rs where
        rs: "exclude_loop r (rend e) (acc @ [AddrRange2 next_start (rstart e)]) es
          = Inr ((acc @ [AddrRange2 next_start (rstart e)]) @ rs)"
        and c: "\<And>a. covers rs a \<longleftrightarrow> rend e \<le> a \<and> a < rend r \<and> \<not> covers es a" by blast
      let ?rs = "AddrRange2 next_start (rstart e) # rs"
      have "covers ?rs a \<longleftrightarrow> next_start \<le> a \<and> a < rend r \<and> \<not> covers (e # es) a" for a
        using c[of a] high pe ve ge[of a] True by (auto simp: contains_plain not_le not_less)
      then show ?thesis
        using rs high isect ni by (intro exI[of _ ?rs]) (auto simp: Let_def)
    next
      case high_end
      let ?rs = "[AddrRange2 next_start (rstart e)]"
      have "covers ?rs a \<longleftrightarrow> next_start \<le> a \<and> a < rend r \<and> \<not> covers (e # es) a" for a
        using high_end pe ve ge[of a] True by (auto simp: contains_plain not_le not_less)
      then show ?thesis
        using high_end isect ni by (intro exI[of _ ?rs]) (auto simp: Let_def)
    qed
  qed
qed

text \<open>subtracting plain ranges from a plain range never fails, and the result covers exactly the
  addresses of the range that no subtracted range holds.\<close>

theorem exclude_correct:
  assumes "plain r" "\<forall>e \<in> set es. plain e \<and> range_valid e"
  shows "\<exists>rs. exclude r es = Inr rs
    \<and> (\<forall>a. covers rs a \<longleftrightarrow> contains r a \<and> \<not> covers es a)"
proof -
  have "\<forall>e \<in> set (sort_ranges es). plain e \<and> range_valid e"
    using assms(2) by simp
  then obtain rs where "exclude_loop r (rstart r) [] (sort_ranges es) = Inr rs"
    and c: "\<And>a. covers rs a \<longleftrightarrow> rstart r \<le> a \<and> a < rend r \<and> \<not> covers (sort_ranges es) a"
    using exclude_loop_correct[OF assms(1), of "sort_ranges es" "rstart r" "[]"]
      sorted_sort_ranges[of es] assms(2) by auto
  moreover have "covers (sort_ranges es) a = covers es a" for a
    by (simp add: covers_def)
  ultimately show ?thesis
    using assms(1) by (auto simp: exclude_def contains_plain)
qed

theorem exclude_correct_witness:
  "\<exists>rs. exclude (RangeSize 0x80000000 0x20000000) [RangeSize 0x90000000 0x1000] = Inr rs
    \<and> (\<forall>a. covers rs a \<longleftrightarrow> contains (RangeSize 0x80000000 0x20000000) a
        \<and> \<not> covers [RangeSize 0x90000000 0x1000] a)"
  by (rule exclude_correct) (simp_all add: range_valid_def RangeSize_def)

section \<open>Interleaved ranges\<close>

lemma bit_of_bool_word [simp]: "bit (of_nat (n mod 2) :: u32) j \<longleftrightarrow> j = 0 \<and> odd n"
  by (cases "even n") (auto simp: bit_simps even_iff_mod_2_eq_zero odd_iff_mod_2_eq_one)

lemma bit_intlv_sel:
  "bit (intlv_sel a i ms) j \<longleftrightarrow>
    i \<le> j \<and> j < i + length ms \<and> j < 32 \<and> odd (popCount (a AND ms ! (j - i)))"
proof (induction ms arbitrary: i)
  case (Cons m ms)
  have "(m # ms) ! (j - i) = ms ! (j - Suc i)" if "Suc i \<le> j"
    using that by (simp add: nth_Cons')
  moreover have "bit (intlv_sel a i (m # ms)) j \<longleftrightarrow>
      (i \<le> j \<and> j < 32 \<and> j - i = 0 \<and> odd (popCount (a AND m))) \<or> bit (intlv_sel a (Suc i) ms) j"
    by (simp add: bit_or_iff bit_push_bit_iff)
  ultimately show ?case
    unfolding Cons.IH by (cases "j = i"; cases "i \<le> j") (auto simp: Suc_le_eq)
qed simp

lemma intlv_sel_bound:
  assumes "length ms < 32"
  shows "unat (intlv_sel a 0 ms) < 2 ^ length ms"
proof -
  have "take_bit (length ms) (intlv_sel a 0 ms) = intlv_sel a 0 ms"
    by (rule bit_eqI) (auto simp: bit_simps bit_intlv_sel)
  then have "take_bit (length ms) (unat (intlv_sel a 0 ms)) = unat (intlv_sel a 0 ms)"
    by (metis unsigned_take_bit_eq)
  then show ?thesis by (simp add: take_bit_nat_eq_self_iff)
qed

text \<open>Interleaving splits an interval: for at most eight masks, every address of the interval
  lies in exactly one of the ranges that differ only in their match value, and that value
  fits the masks.\<close>

theorem interleaving_partitions:
  assumes "length ms \<le> 8" "s \<le> a" "a < e"
  shows "(\<exists>!m. contains \<lparr> rstart = s, rend = e, masks = ms, intlvMatch = m \<rparr> a)
    \<and> (\<forall>m. contains \<lparr> rstart = s, rend = e, masks = ms, intlvMatch = m \<rparr> a
        \<longrightarrow> unat m < 2 ^ length ms)"
proof -
  let ?sel = "intlv_sel a 0 ms"
  have b: "unat ?sel < 2 ^ length ms" using intlv_sel_bound assms(1) by simp
  also have "(2::nat) ^ length ms \<le> 2 ^ 8" using assms(1) by (intro power_increasing) auto
  finally have small: "unat ?sel < 256" by simp
  have iff: "?sel = ucast m \<longleftrightarrow> m = ucast ?sel" for m :: u8
  proof
    assume "m = ucast ?sel"
    then show "?sel = ucast m"
      using small by (simp add: word_unat_eq_iff unsigned_ucast_eq take_bit_nat_eq_self)
  next
    assume "?sel = ucast m"
    moreover have "unat m < 2 ^ 8" using unsigned_less[of m] by simp
    ultimately show "m = ucast ?sel"
      by (simp add: word_unat_eq_iff unsigned_ucast_eq take_bit_nat_eq_self)
  qed
  have "unat m < 2 ^ length ms" if "?sel = ucast m" for m :: u8
  proof -
    have "unat m < 2 ^ 8" using unsigned_less[of m] by simp
    then have "unat ?sel = unat m"
      using that by (simp add: unsigned_ucast_eq take_bit_nat_eq_self)
    with b show ?thesis by simp
  qed
  with iff assms(2,3) show ?thesis by (auto simp: contains_def)
qed

theorem interleaving_partitions_witness:
  "(0::addr) \<le> 0x40 \<and> (0x40::addr) < 0x1000
    \<and> (\<exists>!m. contains \<lparr> rstart = 0, rend = 0x1000, masks = [0x40, 0x80], intlvMatch = m \<rparr> 0x40)"
  using interleaving_partitions[where ms = "[0x40, 0x80]" and s = 0 and a = "0x40" and e = "0x1000"]
  by simp

end
