(* ===== verification/BiasStore.thy ===== *)
theory BiasStore
  imports Prelude
begin

text \<open>
  The contract of a bias store: a state that remembers, for every page of the device memory,
  whether the page is in host bias (\<open>True\<close>) or in device bias (\<open>False\<close>). The crossbar of the
  device and the coherency engine rely on it and not on how the table is kept. The lemmas
  for a sequence of updates are proved once from the contract.
\<close>

locale bias_store =
  fixes managed :: "addr \<Rightarrow> bool"
    and page :: "addr \<Rightarrow> 'p"
    and set_bias :: "addr \<Rightarrow> bool \<Rightarrow> 's \<Rightarrow> 's outcome"
    and get_bias :: "addr \<Rightarrow> 's \<Rightarrow> (bool \<times> 's) outcome"
  assumes set_total: "managed a \<Longrightarrow> \<exists>s'. set_bias a b s = Inr s'"
    and set_managed: "set_bias a b s = Inr s' \<Longrightarrow> managed a"
    and get_total: "managed a \<Longrightarrow> \<exists>b s'. get_bias a s = Inr (b, s')"
    and get_set_same:
      "set_bias a b s = Inr s' \<Longrightarrow> managed a' \<Longrightarrow> page a' = page a \<Longrightarrow> get_bias a' s' = Inr (b, s')"
    and get_set_other:
      "set_bias a b s = Inr s' \<Longrightarrow> page a' \<noteq> page a \<Longrightarrow> get_bias a' s = Inr (c, t)
        \<Longrightarrow> \<exists>t'. get_bias a' s' = Inr (c, t')"
    and get_stable: "get_bias a s = Inr (b, s') \<Longrightarrow> get_bias a s' = Inr (b, s')"
begin

text \<open>A sequence of updates, and the bias the last update of a page leaves.\<close>

fun set_all :: "(addr \<times> bool) list \<Rightarrow> 's \<Rightarrow> 's outcome" where
  "set_all [] s = Inr s"
| "set_all ((a, b) # us) s = rbind (set_bias a b s) (set_all us)"

fun last_update :: "'p \<Rightarrow> bool \<Rightarrow> (addr \<times> bool) list \<Rightarrow> bool" where
  "last_update p c [] = c"
| "last_update p c ((a, b) # us) = last_update p (if page a = p then b else c) us"

lemma set_all_total: "\<forall>(a, b) \<in> set us. managed a \<Longrightarrow> \<exists>s'. set_all us s = Inr s'"
proof (induction us arbitrary: s)
  case (Cons u us)
  obtain a b where u: "u = (a, b)" by (cases u)
  with Cons.prems obtain s1 where "set_bias a b s = Inr s1"
    using set_total by fastforce
  with Cons u show ?case by auto
qed simp

lemma get_after_set_all:
  assumes "set_all us s = Inr s'" "get_bias a s = Inr (c, t)" "managed a"
  shows "\<exists>t'. get_bias a s' = Inr (last_update (page a) c us, t')"
  using assms
proof (induction us arbitrary: s c t)
  case (Cons u us)
  obtain x b where u: "u = (x, b)" by (cases u)
  with Cons.prems obtain s1 where s1: "set_bias x b s = Inr s1" "set_all us s1 = Inr s'"
    by auto
  have "\<exists>t1. get_bias a s1 = Inr (if page x = page a then b else c, t1)"
    using get_set_same[OF s1(1) Cons.prems(3)] get_set_other[OF s1(1) _ Cons.prems(2)] by auto
  then show ?case
    using Cons.IH[OF s1(2) _ Cons.prems(3)] u by auto
qed auto

text \<open>Asking twice gives the same answer, and the answer survives updates of other pages.\<close>

lemma get_twice:
  assumes "get_bias a s = Inr (b, s1)" "get_bias a s1 = Inr (c, s2)"
  shows "c = b \<and> s2 = s1"
  using assms get_stable by fastforce

lemma last_update_other: "\<forall>(x, b) \<in> set us. page x \<noteq> p \<Longrightarrow> last_update p c us = c"
  by (induction us arbitrary: c) auto

end

end
