(* ===== verification/DcohDevice.thy ===== *)
theory DcohDevice
  imports Packets AddrRanges BiasStore
begin

text \<open>
  The CXL device (\<^verbatim>\<open>dev/cxl/TestDev/CXLDevice.cc\<close>, \<^verbatim>\<open>CXLDevice.hh\<close>): its device coherency
  engine \<open>DCOH\<close> with the bias table, the CXL.mem responses, the CXL.cache requests, the
  snoop responses, the data paths to the device memory and the receive handlers of both
  memory modes.

  The state holds the fields of \<open>CXLDevice\<close> and \<open>DCOH\<close> that the handlers read or write,
  the memory mode of the system, the current tick, and the responses handed to the queued
  ports (\<open>pioPort\<close> towards the host, \<open>ex_port\<close> towards the device's crossbar) in the order
  of the calls. The ports the device sends through are parameters: a peer may call back
  into the device, so it takes and returns the device's state.
\<close>

section \<open>State\<close>

datatype MemoryMode = Mode_invalid | Mode_atomic | Mode_timing | Mode_atomic_noncaching

record CXLDevice =
  need_data :: bool
  data_dest_addr :: addr
  Bias_Table :: "addr \<rightharpoonup> bool"
  memoryMode :: MemoryMode
  curTick :: u64
  pio_sched :: "(Packet \<times> u64) list"
  ex_sched :: "(Packet \<times> u64) list"

definition isAtomicMode :: "CXLDevice \<Rightarrow> bool" where
  "isAtomicMode d = (memoryMode d = Mode_atomic \<or> memoryMode d = Mode_atomic_noncaching)"

definition isTimingMode :: "CXLDevice \<Rightarrow> bool" where
  "isTimingMode d = (memoryMode d = Mode_timing)"

definition is_device_mem :: "addr \<Rightarrow> bool" where
  "is_device_mem a = (a \<ge> 0x80000000 \<and> a < 0xA0000000)"

section \<open>The bias table\<close>

definition page_num :: "addr \<Rightarrow> addr" where
  "page_num a = drop_bit 12 a"

definition set_bias_mode :: "addr \<Rightarrow> bool \<Rightarrow> CXLDevice \<Rightarrow> CXLDevice outcome" where
  "set_bias_mode a bias_bit d =
    rbind (assert_that (a \<ge> 0x80000000 \<and> a < 0xa0000000) ''device memory address'') (\<lambda>_.
      if Bias_Table d (page_num a) \<noteq> None \<and> Bias_Table d (page_num a) = Some bias_bit
      then Inr d
      else Inr (d\<lparr> Bias_Table := (Bias_Table d)(page_num a \<mapsto> bias_bit) \<rparr>))"

definition is_host_bias_mode :: "addr \<Rightarrow> CXLDevice \<Rightarrow> (bool \<times> CXLDevice) outcome" where
  "is_host_bias_mode a d =
    rbind (assert_that (a \<ge> 0x80000000 \<and> a < 0xa0000000) ''device memory address'') (\<lambda>_.
      case Bias_Table d (page_num a) of
        Some bias_state \<Rightarrow> Inr (bias_state, d)
      | None \<Rightarrow> rbind (set_bias_mode a True d) (\<lambda>d'. Inr (True, d')))"

text \<open>\<open>ExternalPort_cxl::recvBiasAtomic\<close>: bias mode 1 is host bias, 2 is device bias; the
  result is the latency and the value left in \<open>*bias_mode\<close>.\<close>

definition recvBiasAtomic ::
  "addr \<Rightarrow> addr \<Rightarrow> int \<Rightarrow> bool \<Rightarrow> CXLDevice \<Rightarrow> (u64 \<times> int \<times> CXLDevice) outcome" where
  "recvBiasAtomic a originAddr bias_mode get_set d =
    (if \<not> get_set then
       rbind (is_host_bias_mode originAddr d) (\<lambda>(host, d').
         Inr (1000, if host then 1 else 2, d'))
     else if bias_mode = 1 then
       rbind (set_bias_mode originAddr True d) (\<lambda>d'. Inr (1000, bias_mode, d'))
     else if bias_mode = 2 then
       rbind (set_bias_mode originAddr False d) (\<lambda>d'. Inr (1000, bias_mode, d'))
     else Inl (Panic ''undefined bias_mode!!''))"

lemma set_bias_mode_eq:
  "set_bias_mode a b d =
    (if is_device_mem a then Inr (d\<lparr> Bias_Table := (Bias_Table d)(page_num a \<mapsto> b) \<rparr>)
     else Inl (AssertFail ''device memory address''))"
proof -
  have "d = d\<lparr> Bias_Table := (Bias_Table d)(page_num a \<mapsto> b) \<rparr>"
    if "Bias_Table d (page_num a) = Some b"
    using that by (simp add: map_upd_triv)
  then show ?thesis
    by (simp add: set_bias_mode_def is_device_mem_def)
qed

lemma is_host_bias_mode_eq:
  "is_host_bias_mode a d =
    (if is_device_mem a then
       (case Bias_Table d (page_num a) of
          Some b \<Rightarrow> Inr (b, d)
        | None \<Rightarrow> Inr (True, d\<lparr> Bias_Table := (Bias_Table d)(page_num a \<mapsto> True) \<rparr>))
     else Inl (AssertFail ''device memory address''))"
  by (simp add: is_host_bias_mode_def is_device_mem_def set_bias_mode_eq split: option.split)

interpretation dcoh_bias: bias_store is_device_mem page_num set_bias_mode is_host_bias_mode
  by unfold_locales
    (auto simp: set_bias_mode_eq is_host_bias_mode_eq split: if_splits option.splits)

section \<open>CXL.cache requests of the device\<close>

record DC_cases =
  ReadCur :: bool
  ReadShared :: bool
  ReadAny :: bool
  ReadOwn :: bool
  CLFlush_on :: bool
  ReadOwnNoData :: bool

definition dcoh_cases :: DC_cases where
  "dcoh_cases = \<lparr> ReadCur = False, ReadShared = True, ReadAny = True, ReadOwn = True,
    CLFlush_on = True, ReadOwnNoData = False \<rparr>"

text \<open>The opcode chosen by \<open>DCOH::makeCXLrequest\<close>; with a switch off, the opcode of a
  read-exclusive, read-shared or flush command stays unassigned.\<close>

definition makeCXLrequest_opcode :: "DC_cases \<Rightarrow> Command \<Rightarrow> D2H_Req_OpCodes outcome" where
  "makeCXLrequest_opcode tc c =
    (if c = ReadExReq then
       (if ReadOwn tc then Inr RdOwn else Inl (Undefined ''req_opcode''))
     else if c = ReadSharedReq then
       (if ReadShared tc then Inr RdShared else Inl (Undefined ''req_opcode''))
     else if c = FlushReq then
       (if CLFlush_on tc then Inr CLFlush else Inl (Undefined ''req_opcode''))
     else if ReadCur tc then Inr RdCurr
     else if ReadAny tc then Inr RdAny
     else if ReadOwnNoData tc then Inr RdOwnNoData
     else Inl (Fatal ''DCOH::makeCXLrequest unknown cmd!!''))"

definition makeCXLrequest :: "DC_cases \<Rightarrow> Packet \<Rightarrow> Packet outcome" where
  "makeCXLrequest tc pkt =
    rbind (makeCXLrequest_opcode tc (cmd pkt)) (\<lambda>req_opcode.
    rbind (getAddr pkt) (\<lambda>a.
      let d2h_req = new_D2H_Req req_opcode 1 False 0 a 0 0 0 in
      Inr (upd_req (\<lambda>r. r\<lparr>
        cxl_packet_type := (if cxl_packet_type r \<noteq> HostBiasCheck then CXLcachePacket
                            else cxl_packet_type r),
        cxl_cache := Some (Is_D2H_Req d2h_req) \<rparr>) pkt)))"

definition DCOH_makeCXLData :: "bool \<Rightarrow> Packet \<Rightarrow> Packet" where
  "DCOH_makeCXLData lastpkt =
    upd_req (\<lambda>r. r\<lparr> cxl_packet_type := CXLcacheDataPacket,
      cxl_data_atomic2 := Some (Is_D2H_Data
        ((new_D2H_Data 0 False False False False 0 0)\<lparr> last_data := lastpkt \<rparr>)) \<rparr>)"

section \<open>CXL.mem responses of the device\<close>

definition ndr :: "S2M_NDR_Opcodes \<Rightarrow> MetaFiled \<Rightarrow> MetaValue \<Rightarrow> S2M_NDR" where
  "ndr opcode mf mv = new_S2M_NDR opcode mf mv 0 0 LightLoad 0 0"

text \<open>The branches of \<open>DCOH::makeCXLresponse\<close>, each giving the completion and the new state.\<close>

definition resp_plain :: "S2M_NDR \<Rightarrow> Packet \<Rightarrow> CXLDevice \<Rightarrow> (S2M_NDR \<times> CXLDevice) outcome" where
  "resp_plain n pkt d = Inr (n, d)"

definition resp_host_bias ::
  "S2M_NDR \<Rightarrow> Packet \<Rightarrow> CXLDevice \<Rightarrow> (S2M_NDR \<times> CXLDevice) outcome" where
  "resp_host_bias n pkt d =
    rbind (getAddr pkt) (\<lambda>a. rbind (set_bias_mode a True d) (\<lambda>d'. Inr (n, d')))"

definition makeCXLresponse_MemInv ::
  "M2S_SnpTypes \<Rightarrow> MetaFiled \<Rightarrow> MetaValue \<Rightarrow> Packet \<Rightarrow> CXLDevice
    \<Rightarrow> (S2M_NDR \<times> CXLDevice) outcome" where
  "makeCXLresponse_MemInv snp mf mv pkt d =
    (if mf = MF_No_Op then
       (if snp = ST_SnpInv then resp_plain (ndr Cmp MF_No_Op MV_Invalied) pkt d
        else Inl (Panic ''invaild request recive device (MemInv/NT, MF:no)''))
     else if mf = MF_Meta0_State then
       (if snp = ST_SnpInv then
          (if mv = MV_Invalied then resp_plain (ndr Cmp MF_No_Op MV_Invalied) pkt d
           else if mv = MV_Any then resp_host_bias (ndr Cmp_E MF_No_Op MV_Any) pkt d
           else Inl (Panic ''invaild request recive device (MemInv/NT, MF:M0S, SnpInv)''))
        else if snp = ST_SnpData then
          (if mv = MV_Shared then resp_host_bias (ndr Cmp_S MF_No_Op MV_Any) pkt d
           else Inl (Panic ''invaild request recive device (MemInv/NT, MF:M0S, SnpData)''))
        else Inl (Panic ''invaild request recive device (MemInv/NT, MF:M0S)''))
     else Inl (Panic ''invaild request recive device (MemInv/NT)''))"

definition makeCXLresponse_MemRd ::
  "M2S_SnpTypes \<Rightarrow> MetaFiled \<Rightarrow> MetaValue \<Rightarrow> Packet \<Rightarrow> CXLDevice
    \<Rightarrow> (S2M_NDR \<times> CXLDevice) outcome" where
  "makeCXLresponse_MemRd snp mf mv pkt d =
    (if mf = MF_Meta0_State then
       (if mv = MV_Any then
          (if snp = ST_SnpInv then resp_host_bias (ndr Cmp_E MF_No_Op MV_Any) pkt d
           else Inl (Panic ''invaild request recive device (MemRd, MF:M2S Any)''))
        else if mv = MV_Shared then
          (if snp = ST_SnpData then resp_host_bias (ndr Cmp_S MF_No_Op MV_Any) pkt d
           else Inl (Panic ''invaild request recive device (MemRd, MF:M2S Shared)''))
        else if mv = MV_Invalied then
          (if snp = ST_SnpInv then resp_plain (ndr Cmp MF_No_Op MV_Any) pkt d
           else if snp = ST_SnpCur then resp_plain (ndr Cmp MF_No_Op MV_Any) pkt d
           else Inl (Panic ''invaild request recive device (MemRd, MF:M2S Invalid)''))
        else Inl (Panic ''invaild request recive device (MemRd, MF:M2S)''))
     else
       (if snp = ST_SnpInv then resp_plain (ndr Cmp MF_No_Op MV_Any) pkt d
        else if snp = ST_SnpCur then resp_plain (ndr Cmp MF_No_Op MV_Any) pkt d
        else if snp = ST_No_Op then resp_plain (ndr Cmp MF_No_Op MV_Any) pkt d
        else Inl (Panic ''invaild request recive device (MemRd, MF:M2S Invalid)'')))"

definition makeCXLresponse_MemClnEvct ::
  "M2S_SnpTypes \<Rightarrow> MetaFiled \<Rightarrow> MetaValue \<Rightarrow> Packet \<Rightarrow> CXLDevice
    \<Rightarrow> (S2M_NDR \<times> CXLDevice) outcome" where
  "makeCXLresponse_MemClnEvct snp mf mv pkt d =
    (if mf = MF_No_Op then
       Inl (Panic ''invaild request recive device (MemClnEvct req but MataField worng)'')
     else if snp = ST_No_Op then
       (if mv = MV_Any then resp_plain (ndr Cmp MF_No_Op MV_Invalied) pkt d
        else Inl (Panic ''invaild request recive device (MemClnEvct req but MetaValue worng)''))
     else Inl (Panic ''invaild request recive device (MemClnEvct req but SnpType worng)''))"

definition makeCXLresponse_MemRdData ::
  "M2S_SnpTypes \<Rightarrow> Packet \<Rightarrow> CXLDevice \<Rightarrow> (S2M_NDR \<times> CXLDevice) outcome" where
  "makeCXLresponse_MemRdData snp pkt d =
    (if snp = ST_SnpData then resp_host_bias (ndr Cmp_E MF_Meta0_State MV_Invalied) pkt d
     else Inl (Panic ''invaild request recive device (MemRdData)''))"

text \<open>The write branch compares the snoop type with the enumerator \<open>Meta0_State\<close> of another
  enumeration, whose value is 0.\<close>

definition makeCXLresponse_MemWr ::
  "M2S_SnpTypes \<Rightarrow> MetaValue \<Rightarrow> Packet \<Rightarrow> CXLDevice \<Rightarrow> (S2M_NDR \<times> CXLDevice) outcome" where
  "makeCXLresponse_MemWr snp mv pkt d =
    (if M2S_SnpTypes_val snp = MetaFiled_val MF_Meta0_State then
       (if mv = MV_Any then
          (if snp = ST_No_Op then resp_host_bias (ndr Cmp MF_No_Op MV_Invalied) pkt d
           else Inl (Panic ''invaild request recive device (MemWr, MF:M0S Any)''))
        else if mv = MV_Shared then
          (if snp = ST_No_Op then resp_host_bias (ndr Cmp MF_No_Op MV_Invalied) pkt d
           else Inl (Panic ''invaild request recive device (MemWr, MF:M0S Shared)''))
        else if mv = MV_Invalied then
          (if snp = ST_SnpInv then resp_plain (ndr Cmp MF_No_Op MV_Invalied) pkt d
           else if snp = ST_No_Op then resp_plain (ndr Cmp MF_No_Op MV_Invalied) pkt d
           else Inl (Panic ''invaild request recive device (MemWr, MF:M0S Invalid)''))
        else Inl (Panic ''invaild request recive device (MemWr, MF:M0S)''))
     else Inl (Panic ''invaild request recive device (MemWr)''))"

text \<open>The completion replaces the request message; \<open>last_resp\<close> is 0 when data follows.\<close>

definition attach_ndr :: "int \<Rightarrow> S2M_NDR \<Rightarrow> Packet \<Rightarrow> Packet" where
  "attach_ndr lst n =
    upd_req (\<lambda>r. r\<lparr> cxl_packet_type := CXLmemPacket,
      cxl_req := Some (Is_S2M_NDR (n\<lparr> last_resp := lst \<rparr>)) \<rparr>)"

definition mark_req_type :: "CXL_Req_Types \<Rightarrow> Packet \<Rightarrow> Packet" where
  "mark_req_type t = upd_req (\<lambda>r. r\<lparr> cxl_req := map_option (set_cxl_req_type t) (cxl_req r) \<rparr>)"

definition makeCXLresponse :: "Packet \<Rightarrow> CXLDevice \<Rightarrow> (Packet \<times> CXLDevice) outcome" where
  "makeCXLresponse pkt d =
    rbind (deref (cxl_req (req pkt))) (\<lambda>m.
    if obj_cxl_req_type m = T_M2S_Req then
      rbind (as_M2S_Req m) (\<lambda>q.
        let op = req_memOpcode q; snp = req_snp_type q; mv = req_meta_value q;
            mf = req_meta_filed q in
        if op = MemRdFwd \<or> op = MemWrFwd then Inr (pkt, d)
        else if op = MemInv \<or> op = MemInvNT then
          rbind (makeCXLresponse_MemInv snp mf mv pkt d) (\<lambda>(n, d').
            Inr (mark_req_type T_S2M_NDR (attach_ndr 1 n pkt), d'))
        else if op = MemRd then
          rbind (makeCXLresponse_MemRd snp mf mv pkt d) (\<lambda>(n, d').
            Inr (mark_req_type T_S2M_NDR (attach_ndr 0 n pkt), d'))
        else if op = MemClnEvct then
          rbind (makeCXLresponse_MemClnEvct snp mf mv pkt d) (\<lambda>(n, d').
            Inr (mark_req_type T_S2M_NDR (attach_ndr 1 n pkt), d'))
        else if op = MemRdData then
          rbind (makeCXLresponse_MemRdData snp pkt d) (\<lambda>(n, d').
            Inr (mark_req_type T_S2M_NDR (attach_ndr 0 n pkt), d'))
        else Inr (mark_req_type T_S2M_NDR pkt, d))
    else if obj_cxl_req_type m = T_M2S_RwD then
      rbind (as_M2S_RwD m) (\<lambda>q.
        let op2 = rwd_memOpcode q; snp = rwd_snp_type q; mv = rwd_meta_value q in
        if op2 = MemWr \<or> op2 = MemWrPtl then
          rbind (makeCXLresponse_MemWr snp mv pkt d) (\<lambda>(n, d').
            Inr (mark_req_type T_S2M_NDR (attach_ndr 1 n pkt), d'))
        else Inr (pkt, d))
    else Inr (pkt, d))"

definition makeMemDataAtomic :: "Packet \<Rightarrow> Packet outcome" where
  "makeMemDataAtomic pkt =
    rbind (deref (cxl_req (req pkt))) (\<lambda>m.
    rbind (as_S2M_NDR m) (\<lambda>n.
      let s2m_drs = new_S2M_DRS MemData (ndr_metafiled n) (ndr_metavalue n) 0 False 0
            LightLoad 0 0 in
      Inr (upd_req (\<lambda>r. r\<lparr> cxl_packet_type := CXLmemDataPacket,
        cxl_data_atomic := Some (set_last_resp 1 (Is_S2M_DRS s2m_drs)),
        cxl_req := Some (set_last_resp 1 (set_cxl_req_type T_S2M_DRS m)) \<rparr>) pkt)))"

section \<open>Snoop responses\<close>

definition DCOH_sinkPacket :: "Packet \<Rightarrow> bool" where
  "DCOH_sinkPacket pkt =
    (cacheResponding pkt
     \<or> (\<not> (isRead (cmd pkt) \<or> isWrite (cmd pkt)) \<and> \<not> needsResponse (cmd pkt))
     \<or> (isCleanEviction pkt \<and> isBlockCached pkt)
     \<or> (cacheResponding pkt \<and> (\<not> needsWritable (cmd pkt) \<or> responderHadWritable pkt)))"

text \<open>The opcode chosen by \<open>DCOH::makeSnoopResp\<close> from the line's state before and after the
  snoop, as \<open>CacheBlk::print_state\<close> encodes it: writable, dirty and valid from the high bit
  down.\<close>

definition CacheBlk_print_state :: "bool \<Rightarrow> bool \<Rightarrow> bool \<Rightarrow> u8" where
  "CacheBlk_print_state writable dirty isValid =
    push_bit 2 (of_bool writable) OR push_bit 1 (of_bool dirty) OR of_bool isValid"

definition makeSnoopResp_opcode :: "u8 \<Rightarrow> u8 \<Rightarrow> bool \<Rightarrow> D2H_Resp_OpCodes outcome" where
  "makeSnoopResp_opcode olds news sink =
    (if olds = 0 then Inr RspIHitI
     else if (news = 1 \<or> news = 3) \<and> olds = 7 then Inr RspSFwdM
     else if news = 0 \<and> olds = 7 then Inr RspIFwdM
     else if news = 0 \<and> (olds = 1 \<or> olds = 3 \<or> olds = 5) then Inr RspIHitSE
     else if news = 1 \<and> (olds = 1 \<or> olds = 3 \<or> olds = 5) then Inr RspSHitSE
     else if olds = news \<and> \<not> sink then Inr RspVHitV
     else if olds = news \<and> sink then Inr RspVFwdV
     else Inl (Panic ''no resp snoop''))"

definition makeSnoopResp :: "Packet \<Rightarrow> Packet outcome" where
  "makeSnoopResp pkt =
    rbind (makeSnoopResp_opcode (old_state (req pkt)) (new_state (req pkt))
        (DCOH_sinkPacket pkt)) (\<lambda>opcode.
      Inr (upd_req (\<lambda>r. r\<lparr> cxl_cache := Some (Is_D2H_Resp
        ((new_D2H_Resp opcode 0 0 0)\<lparr> cxl_cache_type := T_D2H_Resp \<rparr>)) \<rparr>) pkt))"

section \<open>Access to the device memory\<close>

definition memAction ::
  "CXLDevice atomic_peer \<Rightarrow> Packet \<Rightarrow> CXLDevice \<Rightarrow> (u64 \<times> Packet \<times> CXLDevice) outcome" where
  "memAction in_port pkt d =
    (if isAtomicMode d then in_port pkt d
     else Inl (Panic ''Is AtomicMode but call memAction''))"

definition memActionTiming ::
  "CXLDevice timing_peer \<Rightarrow> Packet \<Rightarrow> CXLDevice \<Rightarrow> (bool \<times> Packet \<times> CXLDevice) outcome" where
  "memActionTiming in_port pkt d =
    (if isTimingMode d then
       in_port (if cxl_packet_type (req pkt) \<noteq> HostBiasCheck
                then upd_req (\<lambda>r. r\<lparr> cxl_packet_type := CXLcacheH2DResp \<rparr>) pkt else pkt) d
     else Inl (Panic ''Is TimingMode but call memActionTiming''))"

definition ReadData ::
  "CXLDevice atomic_peer \<Rightarrow> Packet \<Rightarrow> CXLDevice \<Rightarrow> (u64 \<times> Packet \<times> CXLDevice) outcome" where
  "ReadData in_port pkt d =
    rbind (getAddr pkt) (\<lambda>a.
      if a \<ge> 0x80000000 \<and> a < 0xA0000000 then memAction in_port pkt d
      else if cxl_packet_type (req pkt) = CXLcacheH2DReq then memAction in_port pkt d
      else rbind (makeResponse pkt) (\<lambda>pkt'. Inr (5780, pkt', d)))"

definition WriteData ::
  "CXLDevice atomic_peer \<Rightarrow> Packet \<Rightarrow> CXLDevice \<Rightarrow> (u64 \<times> Packet \<times> CXLDevice) outcome" where
  "WriteData in_port pkt d =
    rbind (getAddr pkt) (\<lambda>a.
      if a \<ge> 0x80000000 \<and> a < 0xA0000000 then memAction in_port pkt d
      else Inl (Panic ''ReadData: incorrect pkt''))"

definition ReadDataTiming ::
  "CXLDevice timing_peer \<Rightarrow> Packet \<Rightarrow> CXLDevice \<Rightarrow> (bool \<times> Packet \<times> CXLDevice) outcome" where
  "ReadDataTiming in_port pkt d =
    rbind (getAddr pkt) (\<lambda>a.
      if a \<ge> 0x80000000 \<and> a < 0xA0000000 then memActionTiming in_port pkt d
      else if cxl_packet_type (req pkt) = CXLcacheH2DReq then memActionTiming in_port pkt d
      else Inl (Panic ''ReadDataTiming: incorrect pkt''))"

definition WriteDataTiming ::
  "CXLDevice timing_peer \<Rightarrow> Packet \<Rightarrow> CXLDevice \<Rightarrow> (bool \<times> Packet \<times> CXLDevice) outcome" where
  "WriteDataTiming in_port pkt d =
    rbind (getAddr pkt) (\<lambda>a.
      if a \<ge> 0x80000000 \<and> a < 0xA0000000 then memActionTiming in_port pkt d
      else if cxl_packet_type (req pkt) = CXLcacheH2DReq then memActionTiming in_port pkt d
      else Inl (Panic ''ReadDataTiming: incorrect pkt''))"

definition LoadData :: "Packet \<Rightarrow> (u64 \<times> Packet) outcome" where
  "LoadData pkt = rbind (makeResponse pkt) (\<lambda>pkt'. Inr (0, pkt'))"

section \<open>Receive handlers\<close>

text \<open>\<open>DCOH::recvReq\<close>, the atomic path.\<close>

definition recvReq ::
  "CXLDevice atomic_peer \<Rightarrow> Packet \<Rightarrow> CXLDevice \<Rightarrow> (u64 \<times> Packet \<times> CXLDevice) outcome" where
  "recvReq in_port pkt d =
    (if cxl_packet_type (req pkt) = CXLcacheH2DReq then
       rbind (if isRead (cmd pkt) then ReadData in_port pkt d else WriteData in_port pkt d)
         (\<lambda>(delay, pkt1, d1).
       rbind (makeSnoopResp pkt1) (\<lambda>pkt2. Inr (delay, pkt2, d1)))
     else
       rbind (assert_that (cxl_req (req pkt) \<noteq> None) ''cxl_req != nullptr'') (\<lambda>_.
       rbind (makeCXLresponse pkt d) (\<lambda>(pkt1, d1).
       rbind (if isRead (cmd pkt1) then ReadData in_port pkt1 d1
              else WriteData in_port pkt1 d1) (\<lambda>(delay, pkt2, d2).
       rbind (deref (cxl_req (req pkt2))) (\<lambda>m.
         if obj_last_resp m = 0 then
           rbind (makeMemDataAtomic pkt2) (\<lambda>pkt3. Inr (delay, pkt3, d2))
         else Inr (delay, pkt2, d2))))))"

text \<open>\<open>DCOH::recvTimingReq\<close>: an address below the device memory falls out of the function.\<close>

definition DCOH_recvTimingReq ::
  "DC_cases \<Rightarrow> CXLDevice timing_peer \<Rightarrow> CXLDevice timing_peer \<Rightarrow> Packet \<Rightarrow> CXLDevice
    \<Rightarrow> (bool \<times> Packet \<times> CXLDevice) outcome" where
  "DCOH_recvTimingReq tc in_port dmaPort pkt d =
    rbind (getAddr pkt) (\<lambda>pkt_addr.
      if cxl_packet_type (req pkt) = CXLcacheH2DReq then
        (if isRead (cmd pkt) then ReadDataTiming in_port pkt d
         else WriteDataTiming in_port pkt d)
      else if pkt_addr \<ge> 0xa0000000 \<or> cxl_packet_type (req pkt) = HostBiasCheck then
        rbind (makeCXLrequest tc pkt) (\<lambda>pkt'. dmaPort pkt' d)
      else if pkt_addr \<ge> 0x80000000 \<and> pkt_addr < 0xa0000000 then
        rbind (assert_that (cxl_req (req pkt) \<noteq> None) ''cxl_req != nullptr'') (\<lambda>_.
          if isRead (cmd pkt) then ReadDataTiming in_port pkt d
          else WriteDataTiming in_port pkt d)
      else Inl (Undefined ''recvTimingReq: no return''))"

definition recvCoherentCheckReq ::
  "CXLDevice timing_peer \<Rightarrow> Packet \<Rightarrow> CXLDevice \<Rightarrow> (bool \<times> Packet \<times> CXLDevice) outcome" where
  "recvCoherentCheckReq in_port pkt d =
    (if isRead (cmd pkt) then ReadDataTiming in_port pkt d else WriteDataTiming in_port pkt d)"

text \<open>\<open>CXLDevice::callDCOH\<close>, behind \<open>read\<close> and \<open>write\<close>: in timing mode the acceptance is
  converted to a latency of 0 or 1.\<close>

definition callDCOH ::
  "DC_cases \<Rightarrow> CXLDevice atomic_peer \<Rightarrow> CXLDevice timing_peer \<Rightarrow> CXLDevice timing_peer
    \<Rightarrow> Packet \<Rightarrow> CXLDevice \<Rightarrow> (u64 \<times> Packet \<times> CXLDevice) outcome" where
  "callDCOH tc in_atomic in_timing dmaPort pkt d =
    (if isTimingMode d then
       rbind (if cxl_packet_type (req pkt) = HostBiasCheck
              then recvCoherentCheckReq in_timing pkt d
              else DCOH_recvTimingReq tc in_timing dmaPort pkt d)
         (\<lambda>(success, pkt', d'). Inr (if success then 1 else 0, pkt', d'))
     else if isAtomicMode d then recvReq in_atomic pkt d
     else Inl (Undefined ''callDCOH: no return''))"

text \<open>The bias update of a forwarded request (\<open>MemRdFwd\<close>, \<open>MemWrFwd\<close>) coming back from the
  host, which \<open>hostSend\<close> and \<open>recvTimingResp\<close> share.\<close>

definition fwd_bias_update :: "Packet \<Rightarrow> CXLDevice \<Rightarrow> CXLDevice outcome" where
  "fwd_bias_update pkt d =
    rbind (deref (cxl_req (req pkt))) (\<lambda>m.
    rbind (as_M2S_Req m) (\<lambda>q.
      if req_memOpcode q = MemRdFwd \<or> req_memOpcode q = MemWrFwd then
        (if req_meta_filed q = MF_Meta0_State then
           (case req_meta_value q of
              MV_Any \<Rightarrow> rbind (getAddr pkt) (\<lambda>a. set_bias_mode a True d)
            | MV_Shared \<Rightarrow> rbind (getAddr pkt) (\<lambda>a. set_bias_mode a True d)
            | MV_Invalied \<Rightarrow> rbind (getAddr pkt) (\<lambda>a. set_bias_mode a False d))
         else Inr d)
      else Inr d))"

definition hostSend ::
  "DC_cases \<Rightarrow> CXLDevice atomic_peer \<Rightarrow> Packet \<Rightarrow> CXLDevice \<Rightarrow> (Packet \<times> CXLDevice) outcome" where
  "hostSend tc dmaPort pkt d =
    rbind (if cxl_packet_type (req pkt) \<noteq> CXLcacheH2DReq then makeCXLrequest tc pkt
           else Inr pkt) (\<lambda>pkt1.
    rbind (dmaPort pkt1 d) (\<lambda>(latency, pkt2, d2).
      if cxl_packet_type (req pkt2) = HostBiasCheck then
        rbind (fwd_bias_update pkt2 d2) (\<lambda>d3. Inr (pkt2, d3))
      else Inr (pkt2, d2)))"

definition ex_recvAtomic ::
  "DC_cases \<Rightarrow> CXLDevice atomic_peer \<Rightarrow> Packet \<Rightarrow> CXLDevice
    \<Rightarrow> (u64 \<times> Packet \<times> CXLDevice) outcome" where
  "ex_recvAtomic tc dmaPort pkt d =
    rbind (hostSend tc dmaPort pkt d) (\<lambda>(pkt', d'). Inr (0, pkt', d'))"

definition hostSendTiming ::
  "DC_cases \<Rightarrow> CXLDevice timing_peer \<Rightarrow> Packet \<Rightarrow> CXLDevice
    \<Rightarrow> (bool \<times> Packet \<times> CXLDevice) outcome" where
  "hostSendTiming tc dmaPort pkt d =
    rbind (if cxl_packet_type (req pkt) = CXLcacheH2DResp then makeSnoopResp pkt
           else makeCXLrequest tc pkt) (\<lambda>pkt1. dmaPort pkt1 d)"

text \<open>\<open>CXLDevice::recvTimingResp\<close>: the first part completes the response message, the second
  hands the packet to the port its packet type selects.\<close>

definition recvTimingResp_complete ::
  "Packet \<Rightarrow> CXLDevice \<Rightarrow> (Packet \<times> CXLDevice) outcome" where
  "recvTimingResp_complete pkt d =
    rbind (getAddr pkt) (\<lambda>pkt_addr.
      if cxl_packet_type (req pkt) \<noteq> HostBiasCheck then
        (if pkt_addr \<ge> 0x80000000 \<and> pkt_addr < 0xa0000000 then
           rbind (makeCXLresponse pkt d) (\<lambda>(pkt1, d1).
           rbind (deref (cxl_req (req pkt1))) (\<lambda>m.
             if obj_last_resp m = 0 then
               rbind (makeMemDataAtomic pkt1) (\<lambda>pkt2. Inr (pkt2, d1))
             else Inr (pkt1, d1)))
         else Inr (pkt, d))
      else Inr (pkt, d))"

definition recvTimingResp_dispatch ::
  "Packet \<Rightarrow> CXLDevice \<Rightarrow> (bool \<times> CXLDevice) outcome" where
  "recvTimingResp_dispatch pkt d =
    (let t = cxl_packet_type (req pkt); due = curTick d + 100 in
     if t = CXLmemPacket \<or> t = CXLmemDataPacket then
       Inr (True, d\<lparr> pio_sched := pio_sched d @ [(pkt, due)] \<rparr>)
     else if t = CXLcachePacket \<or> t = CXLcacheDataPacket then
       Inr (True, d\<lparr> ex_sched := ex_sched d @ [(pkt, due)] \<rparr>)
     else if t = HostBiasCheck then
       Inr (True, d\<lparr> ex_sched := ex_sched d @ [(pkt, due)] \<rparr>)
     else if t = CXLcacheH2DResp then
       rbind (makeSnoopResp pkt) (\<lambda>pkt'.
         Inr (True, d\<lparr> pio_sched := pio_sched d @ [(pkt', due)] \<rparr>))
     else Inl (Panic ''incorrect resp''))"

definition recvTimingResp :: "Packet \<Rightarrow> CXLDevice \<Rightarrow> (bool \<times> CXLDevice) outcome" where
  "recvTimingResp pkt d =
    rbind (recvTimingResp_complete pkt d) (\<lambda>(pkt1, d1).
    rbind (if cxl_packet_type (req pkt1) = HostBiasCheck then fwd_bias_update pkt1 d1
           else Inr d1) (\<lambda>d2.
      recvTimingResp_dispatch pkt1 d2))"

text \<open>\<open>CXLDevice::ReservedData\<close>: a response that pulls the write data arms the data send.\<close>

definition ReservedData :: "Packet \<Rightarrow> CXLDevice \<Rightarrow> CXLDevice outcome" where
  "ReservedData pkt d =
    rbind (deref (cxl_cache (req pkt))) (\<lambda>c.
    rbind (as_H2D_Resp c) (\<lambda>h.
      let op = h2dresp_opcode h in
      if op = Fast_GO_writePull \<or> op = GO_WritePull \<or> op = GO_WritePull_Drop \<or> op = WritePull
      then rbind (getAddr pkt) (\<lambda>a. Inr (d\<lparr> need_data := True, data_dest_addr := a \<rparr>))
      else Inr d))"

section \<open>Address ranges of the device\<close>

definition CXLDevice_getAddrRanges :: "addr \<Rightarrow> AddrRange list outcome" where
  "CXLDevice_getAddrRanges pioSize =
    rbind (assert_that (pioSize \<noteq> 0) ''pioSize != 0'') (\<lambda>_.
      Inr [RangeSize 0x15000000 0x40000, RangeSize 0x80000000 0x20000000])"

definition ExternalPort_getAddrRanges :: "addr \<Rightarrow> AddrRange list outcome" where
  "ExternalPort_getAddrRanges pioSize =
    rbind (CXLDevice_getAddrRanges pioSize) (\<lambda>ranges.
      Inr (butlast ranges @ [RangeSize 0xA0000000 0x20000000]))"

section \<open>Properties\<close>

definition empty_device :: CXLDevice where
  "empty_device =
    \<lparr> need_data = False, data_dest_addr = 0, Bias_Table = (\<lambda>_. None),
      memoryMode = Mode_atomic, curTick = 0, pio_sched = [], ex_sched = [] \<rparr>"

lemma sample_device_mem [simp]: "is_device_mem 0x90000040"
  by (simp add: is_device_mem_def)

text \<open>any sequence of bias updates to device memory succeeds, and afterwards every page
  reads back the bias of the last update that hit it; a page that no update hit reads what
  it read before, which is host bias for a page never touched.\<close>

theorem bias_last_update_wins:
  assumes "\<forall>(a, b) \<in> set us. is_device_mem a" "is_device_mem a"
  shows "\<exists>d' d2. dcoh_bias.set_all us d = Inr d'
    \<and> is_host_bias_mode a d' = Inr (dcoh_bias.last_update (page_num a)
        (case Bias_Table d (page_num a) of Some b \<Rightarrow> b | None \<Rightarrow> True) us, d2)"
proof -
  obtain d' where d': "dcoh_bias.set_all us d = Inr d'"
    using dcoh_bias.set_all_total[OF assms(1)] by blast
  moreover obtain t where "is_host_bias_mode a d =
      Inr (case Bias_Table d (page_num a) of Some b \<Rightarrow> b | None \<Rightarrow> True, t)"
    using assms(2) by (cases "Bias_Table d (page_num a)") (auto simp: is_host_bias_mode_eq)
  ultimately show ?thesis
    using dcoh_bias.get_after_set_all[OF d' _ assms(2)] by blast
qed

theorem bias_last_update_wins_witness:
  "\<exists>d' d2. dcoh_bias.set_all
      [(0x80000000, True), (0x80001000, True), (0x80000FFF, False)] empty_device = Inr d'
    \<and> is_host_bias_mode 0x80000008 d' = Inr (False, d2)"
proof -
  let ?us = "[(0x80000000, True), (0x80001000, True), (0x80000FFF, False)] :: (addr \<times> bool) list"
  have "\<forall>(a, b) \<in> set ?us. is_device_mem a" "is_device_mem 0x80000008"
    by (simp_all add: is_device_mem_def)
  from bias_last_update_wins[OF this, of empty_device] show ?thesis
    by (simp add: empty_device_def page_num_def drop_bit_eq_div)
qed

text \<open>the crossbar's bias query and update agree: after setting bias mode 1 or 2 for an
  address, querying any address of the same page returns that mode, with a latency of 1000
  ticks each, and any other mode panics.\<close>

theorem recvBiasAtomic_roundtrip:
  assumes "is_device_mem a" "is_device_mem a'" "page_num a' = page_num a"
  shows "if m \<in> {1, 2}
    then \<exists>d'. recvBiasAtomic x a m True d = Inr (1000, m, d')
      \<and> recvBiasAtomic y a' k False d' = Inr (1000, m, d')
    else recvBiasAtomic x a m True d = Inl (Panic ''undefined bias_mode!!'')"
  using assms
  by (auto simp: recvBiasAtomic_def set_bias_mode_eq is_host_bias_mode_eq)

theorem recvBiasAtomic_roundtrip_witness:
  "\<exists>d'. recvBiasAtomic 0 0x90000000 2 True empty_device = Inr (1000, 2, d')
    \<and> recvBiasAtomic 0 0x90000040 0 False d' = Inr (1000, 2, d')"
  using recvBiasAtomic_roundtrip[where a = "0x90000000" and a' = "0x90000040" and m = 2 and x = 0
      and y = 0 and k = 0 and d = empty_device]
  by (simp add: is_device_mem_def page_num_def drop_bit_eq_div)

text \<open>The valid states of a cache line (invalid, shared, owned, exclusive, modified) and the
  answer the protocol expects: the first letter after \<open>Rsp\<close> names the state the line is left
  in, forwarding answers are given for modified data.\<close>

definition line_states :: "u8 list" where
  "line_states =
    [CacheBlk_print_state False False False, CacheBlk_print_state False False True,
     CacheBlk_print_state False True True, CacheBlk_print_state True False True,
     CacheBlk_print_state True True True]"

lemma line_states_eq: "line_states = [0, 1, 3, 5, 7]"
  by (simp add: line_states_def CacheBlk_print_state_def)

definition snoop_downgrades :: "u8 \<Rightarrow> u8 \<Rightarrow> bool" where
  "snoop_downgrades olds news =
    (olds = 0 \<or> news = 0 \<or> news = 1 \<or> news = olds \<or> (olds = 7 \<and> news = 3))"

fun resp_final_invalid :: "D2H_Resp_OpCodes \<Rightarrow> bool" where
  "resp_final_invalid RspIHitI = True"
| "resp_final_invalid RspIHitSE = True"
| "resp_final_invalid RspIFwdM = True"
| "resp_final_invalid _ = False"

definition resp_describes :: "u8 \<Rightarrow> u8 \<Rightarrow> D2H_Resp_OpCodes \<Rightarrow> bool" where
  "resp_describes olds news opc =
    ((resp_final_invalid opc \<longleftrightarrow> olds = 0 \<or> news = 0)
     \<and> (opc = RspSFwdM \<or> opc = RspIFwdM \<longleftrightarrow> olds = 7 \<and> news \<noteq> 7))"

text \<open>for the valid line states, the device finds a snoop response exactly when the snoop
  lowers the line's state or keeps it, and panics otherwise; the response reports an invalid
  final state exactly when the line was or became invalid, and forwards modified data exactly
  when a modified line was lowered.\<close>

theorem makeSnoopResp_total:
  assumes "olds \<in> set line_states" "news \<in> set line_states"
  shows "case makeSnoopResp_opcode olds news sink of
      Inr opc \<Rightarrow> snoop_downgrades olds news \<and> resp_describes olds news opc
    | Inl e \<Rightarrow> \<not> snoop_downgrades olds news \<and> e = Panic ''no resp snoop''"
  using assms
  by (cases sink)
    (auto simp: line_states_eq makeSnoopResp_opcode_def snoop_downgrades_def resp_describes_def)

theorem makeSnoopResp_total_witness:
  "case makeSnoopResp_opcode 7 1 False of
      Inr opc \<Rightarrow> snoop_downgrades 7 1 \<and> resp_describes 7 1 opc | Inl e \<Rightarrow> False"
  using makeSnoopResp_total[of 7 1 False]
  by (simp add: line_states_eq makeSnoopResp_opcode_def)

section \<open>What a completion leaves unchanged\<close>

lemma ndr_sels [simp]:
  "cxl_req_type (ndr opc mf mv) = T_S2M_NDR"
  "ndr_opcode (ndr opc mf mv) = opc"
  "ndr_metafiled (ndr opc mf mv) = mf"
  "ndr_metavalue (ndr opc mf mv) = mv"
  by (simp_all add: ndr_def new_S2M_NDR_def)

lemma resp_host_bias_eq:
  "valid_addr p \<Longrightarrow> is_device_mem (p_addr p) \<Longrightarrow> resp_host_bias n p d =
    Inr (n, d\<lparr> Bias_Table := (Bias_Table d)(page_num (p_addr p) \<mapsto> True) \<rparr>)"
  by (simp add: resp_host_bias_def getAddr_eq set_bias_mode_eq)

lemmas resp_branch_defs =
  makeCXLresponse_MemInv_def makeCXLresponse_MemRd_def makeCXLresponse_MemClnEvct_def
  makeCXLresponse_MemRdData_def makeCXLresponse_MemWr_def resp_plain_def

definition bias_after :: "bool \<Rightarrow> addr \<Rightarrow> CXLDevice \<Rightarrow> CXLDevice" where
  "bias_after host a d =
    (if host then d\<lparr> Bias_Table := (Bias_Table d)(page_num a \<mapsto> True) \<rparr> else d)"

text \<open>Each branch leaves the bias table alone or moves the packet's page to host bias.\<close>

definition bias_kept_or_host :: "Packet \<Rightarrow> CXLDevice \<Rightarrow> CXLDevice \<Rightarrow> bool" where
  "bias_kept_or_host pkt d d' = (\<exists>host. d' = bias_after host (p_addr pkt) d)"

lemma bias_kept_refl [simp]: "bias_kept_or_host pkt d d"
  by (auto simp: bias_kept_or_host_def bias_after_def intro: exI[of _ False])

lemma resp_host_bias_frame:
  "resp_host_bias n pkt d = Inr (n', d') \<Longrightarrow> bias_kept_or_host pkt d d'"
  by (auto simp: resp_host_bias_def getAddr_def set_bias_mode_eq bias_after_def
      bias_kept_or_host_def intro: exI[of _ True] split: if_splits)

lemma resp_branch_frame:
  "makeCXLresponse_MemInv snp mf mv pkt d = Inr (n, d') \<Longrightarrow> bias_kept_or_host pkt d d'"
  "makeCXLresponse_MemRd snp mf mv pkt d = Inr (n, d') \<Longrightarrow> bias_kept_or_host pkt d d'"
  "makeCXLresponse_MemClnEvct snp mf mv pkt d = Inr (n, d') \<Longrightarrow> bias_kept_or_host pkt d d'"
  "makeCXLresponse_MemRdData snp pkt d = Inr (n, d') \<Longrightarrow> bias_kept_or_host pkt d d'"
  "makeCXLresponse_MemWr snp mv pkt d = Inr (n, d') \<Longrightarrow> bias_kept_or_host pkt d d'"
  unfolding resp_branch_defs
  by (auto dest: resp_host_bias_frame split: if_splits)

lemma response_packet_frame [simp]:
  "cmd (attach_ndr l n pkt) = cmd pkt" "p_addr (attach_ndr l n pkt) = p_addr pkt"
  "p_flags (attach_ndr l n pkt) = p_flags pkt"
  "cmd (mark_req_type t pkt) = cmd pkt" "p_addr (mark_req_type t pkt) = p_addr pkt"
  "p_flags (mark_req_type t pkt) = p_flags pkt"
  by (simp_all add: attach_ndr_def mark_req_type_def)

lemma makeCXLresponse_bias:
  assumes "makeCXLresponse pkt d = Inr (pkt', d')"
  shows "cmd pkt' = cmd pkt \<and> p_addr pkt' = p_addr pkt \<and> p_flags pkt' = p_flags pkt
    \<and> bias_kept_or_host pkt d d'"
proof -
  obtain m where m: "cxl_req (req pkt) = Some m"
    using assms by (auto simp: makeCXLresponse_def)
  consider (rq) q where "m = Is_M2S_Req q" "cxl_req_type q = T_M2S_Req"
    | (rw) q where "m = Is_M2S_RwD q" "cxl_req_type q = T_M2S_RwD"
    | (no) "pkt' = pkt" "d' = d"
    using assms m by (cases m) (auto simp: makeCXLresponse_def split: if_splits)
  then show ?thesis
  proof cases
    case (rq q)
    then show ?thesis
      using assms m
      by (cases "req_memOpcode q")
        (auto simp: makeCXLresponse_def dest: resp_branch_frame)
  next
    case (rw q)
    then show ?thesis
      using assms m
      by (cases "rwd_memOpcode q")
        (auto simp: makeCXLresponse_def dest: resp_branch_frame)
  next
    case no
    then show ?thesis by simp
  qed
qed

text \<open>whatever message a packet carries, completing it never touches the packet's command,
  address or flags, and changes at most one entry of the bias table: the packet's own page,
  to host bias.\<close>

theorem makeCXLresponse_frame:
  assumes "makeCXLresponse pkt d = Inr (pkt', d')"
  shows "cmd pkt' = cmd pkt \<and> p_addr pkt' = p_addr pkt \<and> p_flags pkt' = p_flags pkt
    \<and> (\<forall>pg. Bias_Table d' pg \<noteq> Bias_Table d pg
          \<longrightarrow> pg = page_num (p_addr pkt) \<and> Bias_Table d' pg = Some True)"
  using makeCXLresponse_bias[OF assms]
  by (auto simp: bias_kept_or_host_def bias_after_def split: if_splits)

lemma sample_read_completed:
  "\<exists>pkt' d'. makeCXLresponse (upd_req (\<lambda>r. r\<lparr> cxl_req := Some (Is_M2S_Req
      (new_M2S_Req MemRd ST_SnpInv MF_Meta0_State MV_Any 0 0x90000040 0 0 0 0 TC_Reserved)) \<rparr>)
      (Packet_new sample_request ReadExReq)) empty_device = Inr (pkt', d')"
  by (simp add: makeCXLresponse_def resp_branch_defs resp_host_bias_eq)

theorem makeCXLresponse_frame_witness:
  "\<exists>pkt pkt' d'. makeCXLresponse pkt empty_device = Inr (pkt', d')
    \<and> cmd pkt' = cmd pkt \<and> p_addr pkt' = p_addr pkt \<and> p_flags pkt' = p_flags pkt
    \<and> (\<forall>pg. Bias_Table d' pg \<noteq> Bias_Table empty_device pg
          \<longrightarrow> pg = page_num (p_addr pkt) \<and> Bias_Table d' pg = Some True)"
  using sample_read_completed makeCXLresponse_frame by blast

definition passed_on_once :: "CXLDevice \<Rightarrow> CXLDevice \<Rightarrow> bool" where
  "passed_on_once d d' = (\<exists>q.
     (pio_sched d' = pio_sched d @ [(q, curTick d + 100)] \<and> ex_sched d' = ex_sched d)
     \<or> (ex_sched d' = ex_sched d @ [(q, curTick d + 100)] \<and> pio_sched d' = pio_sched d))"

lemma makeCXLresponse_sched:
  assumes "bias_kept_or_host pkt d d'"
  shows "pio_sched d' = pio_sched d \<and> ex_sched d' = ex_sched d \<and> curTick d' = curTick d"
  using assms by (auto simp: bias_kept_or_host_def bias_after_def)

lemma complete_sched:
  assumes "recvTimingResp_complete pkt d = Inr (pkt1, d1)"
  shows "pio_sched d1 = pio_sched d \<and> ex_sched d1 = ex_sched d \<and> curTick d1 = curTick d"
  using assms unfolding recvTimingResp_complete_def
  by (auto dest!: makeCXLresponse_bias makeCXLresponse_sched split: if_splits)

lemma fwd_bias_sched:
  "fwd_bias_update pkt d = Inr d1 \<Longrightarrow>
    pio_sched d1 = pio_sched d \<and> ex_sched d1 = ex_sched d \<and> curTick d1 = curTick d"
  by (auto simp: fwd_bias_update_def set_bias_mode_eq split: if_splits MetaValue.splits)

lemma dispatch_once:
  "recvTimingResp_dispatch pkt d = Inr (b, d') \<Longrightarrow> b \<and> passed_on_once d d'"
  by (auto simp: recvTimingResp_dispatch_def passed_on_once_def Let_def split: if_splits)

text \<open>a response that reaches the device in timing mode and is processed is passed on
  exactly once, due 100 ticks later, either towards the host or towards the device's
  crossbar, and nothing already scheduled is lost.\<close>

theorem recvTimingResp_once:
  assumes "recvTimingResp pkt d = Inr (b, d')"
  shows "b \<and> passed_on_once d d'"
proof -
  obtain pkt1 d1 d2 where c: "recvTimingResp_complete pkt d = Inr (pkt1, d1)"
    and f: "(if cxl_packet_type (req pkt1) = HostBiasCheck then fwd_bias_update pkt1 d1
             else Inr d1) = Inr d2"
    and s: "recvTimingResp_dispatch pkt1 d2 = Inr (b, d')"
    using assms by (auto simp: recvTimingResp_def)
  have "pio_sched d2 = pio_sched d \<and> ex_sched d2 = ex_sched d \<and> curTick d2 = curTick d"
    using complete_sched[OF c] f fwd_bias_sched[of pkt1 d1 d2] by (auto split: if_splits)
  then show ?thesis
    using dispatch_once[OF s] by (simp add: passed_on_once_def)
qed

lemma sample_snoop_response:
  "\<exists>d'. recvTimingResp (Packet_new (sample_request\<lparr> r_paddr := Some 0xA0000000,
      cxl_packet_type := CXLcacheH2DResp, old_state := 7, new_state := 0 \<rparr>) ReadExResp)
    empty_device = Inr (True, d')"
  by (simp add: recvTimingResp_def recvTimingResp_complete_def recvTimingResp_dispatch_def
      makeSnoopResp_def makeSnoopResp_opcode_def Packet_new_def sample_request_def getAddr_def
      valid_addr_def packet_flag_defs flag_isSet_def Let_def)

theorem recvTimingResp_once_witness:
  "\<exists>pkt d'. recvTimingResp pkt empty_device = Inr (True, d') \<and> passed_on_once empty_device d'"
  using sample_snoop_response recvTimingResp_once by blast

end
