(* ===== verification/CxlProtocol.thy ===== *)
theory CxlProtocol
  imports HomeAgent DcohDevice
begin

text \<open>
  The CXL.mem and CXL.cache transactions across the home agent of the host and the coherency
  engine of the device: what the device answers to each message the home agent makes, what
  the home agent answers to each request of the device, and what both leave in the bias
  table.
\<close>

section \<open>Facts about the two sides\<close>

lemma attach_M2S_Req_eq:
  "valid_addr p \<Longrightarrow> attach_M2S_Req snp mf mv p =
    Inr (True, upd_req (\<lambda>r. r\<lparr> cxl_packet_type := CXLmemPacket,
      cxl_req := Some (Is_M2S_Req
        (new_M2S_Req MemRd snp mf mv 0 (p_addr p) 0 0 0 0 TC_Reserved)) \<rparr>) p)"
  by (simp add: attach_M2S_Req_def getAddr_eq new_M2S_Req_def)

lemma attach_M2S_RwD_eq:
  "valid_addr p \<Longrightarrow> attach_M2S_RwD snp mf mv p =
    Inr (True, upd_req (\<lambda>r. r\<lparr> cxl_packet_type := CXLmemPacket,
      cxl_req := Some (Is_M2S_RwD
        (new_M2S_RwD MemWr snp mf mv 0 (p_addr p) False False 0 0 0 0 TC_Reserved)) \<rparr>) p)"
  by (simp add: attach_M2S_RwD_def getAddr_eq new_M2S_RwD_def)

section \<open>Host requests to device memory\<close>

text \<open>What the CXL.mem transaction of each host command amounts to: the type of the message
  that asks for it, the opcode and the meta value of the completion, whether read data
  follows, and whether the page becomes host-biased. A command that is not listed makes no
  transaction.\<close>

record mem_txn =
  txn_msg :: CXL_Req_Types
  txn_cmp :: S2M_NDR_Opcodes
  txn_meta :: MetaValue
  txn_data :: bool
  txn_host_bias :: bool

fun host_txn :: "Command \<Rightarrow> mem_txn option" where
  "host_txn ReadExReq = Some \<lparr> txn_msg = T_M2S_Req, txn_cmp = Cmp_E, txn_meta = MV_Any,
     txn_data = True, txn_host_bias = True \<rparr>"
| "host_txn ReadSharedReq = Some \<lparr> txn_msg = T_M2S_Req, txn_cmp = Cmp_S, txn_meta = MV_Any,
     txn_data = True, txn_host_bias = True \<rparr>"
| "host_txn ReadReq = Some \<lparr> txn_msg = T_M2S_Req, txn_cmp = Cmp, txn_meta = MV_Any,
     txn_data = True, txn_host_bias = False \<rparr>"
| "host_txn WriteReq = Some \<lparr> txn_msg = T_M2S_RwD, txn_cmp = Cmp, txn_meta = MV_Invalied,
     txn_data = False, txn_host_bias = True \<rparr>"
| "host_txn _ = None"

text \<open>A completion as the specification wants it: opcode, meta field and meta value.\<close>

definition completes_txn :: "mem_txn \<Rightarrow> S2M_NDR \<Rightarrow> bool" where
  "completes_txn t n = (ndr_opcode n = txn_cmp t \<and> ndr_metafiled n = MF_No_Op
    \<and> ndr_metavalue n = txn_meta t)"

lemma attach_ndr_again [simp]:
  "attach_ndr l n (upd_req (\<lambda>r. r\<lparr> cxl_packet_type := CXLmemPacket, cxl_req := Some m \<rparr>) p)
    = attach_ndr l n p"
  by (simp add: attach_ndr_def upd_req_def)

lemma mark_attach_ndr [simp]:
  "mark_req_type T_S2M_NDR (attach_ndr l (ndr a b c) p) = attach_ndr l (ndr a b c) p"
  by (simp add: attach_ndr_def mark_req_type_def ndr_def new_S2M_NDR_def)

lemma untranslated_commands:
  "host_txn (cmd pkt) = None \<Longrightarrow> makeCXLPacket home_agent_cases pkt = Inr (False, pkt)"
  by (cases "cmd pkt") (simp_all add: makeCXLPacket_def)

lemma host_txn_cmds:
  "host_txn c = Some t \<Longrightarrow> c \<in> {ReadExReq, ReadSharedReq, ReadReq, WriteReq}"
  by (cases c) simp_all

definition host_msg :: "Packet \<Rightarrow> CXL_Req_obj" where
  "host_msg pkt =
    (if cmd pkt = WriteReq then Is_M2S_RwD (new_M2S_RwD MemWr ST_No_Op MF_Meta0_State MV_Any 0
       (p_addr pkt) False False 0 0 0 0 TC_Reserved)
     else if cmd pkt = ReadExReq then Is_M2S_Req (new_M2S_Req MemRd ST_SnpInv MF_Meta0_State
       MV_Any 0 (p_addr pkt) 0 0 0 0 TC_Reserved)
     else if cmd pkt = ReadSharedReq then Is_M2S_Req (new_M2S_Req MemRd ST_SnpData
       MF_Meta0_State MV_Shared 0 (p_addr pkt) 0 0 0 0 TC_Reserved)
     else Is_M2S_Req (new_M2S_Req MemRd ST_No_Op MF_No_Op MV_Any 0
       (p_addr pkt) 0 0 0 0 TC_Reserved))"

lemma translated_command:
  assumes "valid_addr pkt" "is_device_mem (p_addr pkt)" "host_txn (cmd pkt) = Some t"
  shows "makeCXLPacket home_agent_cases pkt = Inr (True,
        upd_req (\<lambda>r. r\<lparr> cxl_packet_type := CXLmemPacket, cxl_req := Some (host_msg pkt) \<rparr>) pkt)
    \<and> obj_cxl_req_type (host_msg pkt) = txn_msg t
    \<and> makeCXLresponse (upd_req (\<lambda>r. r\<lparr> cxl_packet_type := CXLmemPacket,
        cxl_req := Some (host_msg pkt) \<rparr>) pkt) d =
      Inr (attach_ndr (if txn_data t then 0 else 1) (ndr (txn_cmp t) MF_No_Op (txn_meta t)) pkt,
        bias_after (txn_host_bias t) (p_addr pkt) d)"
proof -
  note sent = makeCXLPacket_def home_agent_cases_def attach_M2S_Req_eq attach_M2S_RwD_eq
    host_msg_def
  note answered = makeCXLresponse_def makeCXLresponse_MemRd_def makeCXLresponse_MemWr_def
    resp_plain_def resp_host_bias_eq bias_after_def
  from host_txn_cmds[OF assms(3)]
  consider "cmd pkt = ReadExReq" | "cmd pkt = ReadSharedReq" | "cmd pkt = ReadReq"
    | "cmd pkt = WriteReq" by auto
  then show ?thesis
    using assms by cases (auto simp: sent answered Let_def)
qed

text \<open>C1: the home agent translates exactly the four host commands of the specification
  \<open>host_txn\<close> and refuses every other command unchanged. A translated command is completed by
  the device as the specification says: a read for ownership is answered with Cmp-E and a
  shared read with Cmp-S, both with meta value Any, both to be followed by data and both
  moving the page to host bias; a plain read is answered with Cmp, meta value Any, to be
  followed by data, and leaves the bias table alone; a write is answered with Cmp and meta
  value Invalid, as the last response, and moves the page to host bias. The meta field is
  No-Op in all four. Nothing of the packet changes but its CXL message and packet type, and
  nothing of the device but the page's bias.\<close>

theorem host_request_completed:
  assumes "valid_addr pkt" "is_device_mem (p_addr pkt)"
  shows "case host_txn (cmd pkt) of
      None \<Rightarrow> makeCXLPacket home_agent_cases pkt = Inr (False, pkt)
    | Some t \<Rightarrow> (\<exists>pkt1 m n. makeCXLPacket home_agent_cases pkt = Inr (True, pkt1)
        \<and> pkt1 = upd_req (\<lambda>r. r\<lparr> cxl_packet_type := CXLmemPacket, cxl_req := Some m \<rparr>) pkt
        \<and> obj_cxl_req_type m = txn_msg t
        \<and> makeCXLresponse pkt1 d =
            Inr (upd_req (\<lambda>r. r\<lparr> cxl_packet_type := CXLmemPacket,
                   cxl_req := Some (Is_S2M_NDR n) \<rparr>) pkt,
                 bias_after (txn_host_bias t) (p_addr pkt) d)
        \<and> completes_txn t n \<and> cxl_req_type n = T_S2M_NDR
        \<and> last_resp n = (if txn_data t then 0 else 1))"
proof (cases "host_txn (cmd pkt)")
  case None
  then show ?thesis by (auto simp: untranslated_commands)
next
  case (Some t)
  from translated_command[OF assms Some, of d] show ?thesis
    unfolding Some option.case attach_ndr_def
    by (intro exI[of _ "upd_req (\<lambda>r. r\<lparr> cxl_packet_type := CXLmemPacket,
          cxl_req := Some (host_msg pkt) \<rparr>) pkt"] exI[of _ "host_msg pkt"] exI[of _ "(ndr (txn_cmp t) MF_No_Op (txn_meta t))\<lparr> last_resp :=
          (if txn_data t then 0 else 1) \<rparr>"] conjI)
      (simp_all add: completes_txn_def)
qed

theorem host_request_completed_witness:
  "(\<exists>pkt1 n. makeCXLPacket home_agent_cases (Packet_new sample_request ReadExReq)
      = Inr (True, pkt1)
    \<and> makeCXLresponse pkt1 empty_device =
        Inr (upd_req (\<lambda>r. r\<lparr> cxl_packet_type := CXLmemPacket,
               cxl_req := Some (Is_S2M_NDR n) \<rparr>) (Packet_new sample_request ReadExReq),
             bias_after True 0x90000040 empty_device)
    \<and> ndr_opcode n = Cmp_E \<and> ndr_metavalue n = MV_Any)
   \<and> makeCXLPacket home_agent_cases (Packet_new sample_request InvalidateReq)
      = Inr (False, Packet_new sample_request InvalidateReq)"
  using host_request_completed[of "Packet_new sample_request ReadExReq" empty_device]
    host_request_completed[of "Packet_new sample_request InvalidateReq" empty_device]
  by (auto simp: completes_txn_def)

text \<open>C25: over all settings of the home agent's test-case switches, the device accepts every
  read the home agent can make, and it rejects exactly the write that asks for an
  invalidating snoop (\<open>NoOwner_wantWB\<close> with the two earlier write switches off), although the
  device has a branch meant for that message.\<close>

theorem device_rejects_iff:
  assumes "valid_addr pkt" "is_device_mem (p_addr pkt)"
    and "cmd pkt \<in> {ReadExReq, ReadSharedReq, ReadReq, WriteReq}"
    and "makeCXLPacket tc pkt = Inr (b, pkt1)"
  shows "ok (makeCXLresponse pkt1 d) \<longleftrightarrow>
    \<not> (cmd pkt = WriteReq \<and> \<not> ExclusiveWrite tc \<and> \<not> SharedWrite tc \<and> NoOwner_wantWB tc)"
proof -
  note rd = makeCXLresponse_MemRd_def resp_plain_def resp_host_bias_eq
  from assms(3) consider "cmd pkt = ReadExReq" | "cmd pkt = ReadSharedReq"
    | "cmd pkt = ReadReq" | "cmd pkt = WriteReq" by auto
  then show ?thesis
    using assms(1,2,4)
    by cases (auto simp: makeCXLPacket_def attach_M2S_Req_eq attach_M2S_RwD_eq
        makeCXLresponse_def rd makeCXLresponse_MemWr_def ok_rbind split: if_splits)
qed

theorem device_rejects_iff_witness:
  "\<not> ok (makeCXLresponse
      (snd (projr (makeCXLPacket (home_agent_cases\<lparr> ExclusiveWrite := False,
        NoOwner_wantWB := True \<rparr>) (Packet_new sample_request WriteReq)))) empty_device)"
proof -
  let ?tc = "home_agent_cases\<lparr> ExclusiveWrite := False, NoOwner_wantWB := True \<rparr>"
  let ?p = "Packet_new sample_request WriteReq"
  obtain b q where q: "makeCXLPacket ?tc ?p = Inr (b, q)"
    by (simp add: makeCXLPacket_def home_agent_cases_def attach_M2S_RwD_eq)
  then show ?thesis
    using device_rejects_iff[of ?p ?tc b q empty_device]
    by (simp add: home_agent_cases_def)
qed

section \<open>Device requests to host memory\<close>

lemma makeCXLrequest_eq:
  "valid_addr p \<Longrightarrow> makeCXLrequest tc p =
    rbind (makeCXLrequest_opcode tc (cmd p)) (\<lambda>opc. Inr (upd_req (\<lambda>r. r\<lparr>
      cxl_packet_type := (if cxl_packet_type r \<noteq> HostBiasCheck then CXLcachePacket
                          else cxl_packet_type r),
      cxl_cache := Some (Is_D2H_Req (new_D2H_Req opc 1 False 0 (p_addr p) 0 0 0)) \<rparr>) p))"
  by (simp add: makeCXLrequest_def getAddr_eq Let_def)

lemma new_D2H_Req_sels [simp]:
  "cxl_cache_type (new_D2H_Req opc c nt ci a s dp rs) = T_D2H_Req"
  "d2hreq_Opcode (new_D2H_Req opc c nt ci a s dp rs) = opc"
  "d2hreq_Address (new_D2H_Req opc c nt ci a s dp rs) = a"
  by (simp_all add: new_D2H_Req_def)

lemma dcoh_cases_opcode:
  "makeCXLrequest_opcode dcoh_cases c =
    Inr (if c = ReadExReq then RdOwn else if c = ReadSharedReq then RdShared
         else if c = FlushReq then CLFlush else RdAny)"
  by (simp add: makeCXLrequest_opcode_def dcoh_cases_def)

text \<open>The opcode a device command is sent with, and the line state it is granted.\<close>

definition requested_opcode :: "Command \<Rightarrow> D2H_Req_OpCodes" where
  "requested_opcode c =
    (if c = ReadExReq then RdOwn else if c = ReadSharedReq then RdShared
     else if c = FlushReq then CLFlush else RdAny)"

definition granted_state :: "Packet \<Rightarrow> RSP_Data_Encoding" where
  "granted_state pkt =
    (if cmd pkt = ReadExReq then RD_Exclusive else if cmd pkt = FlushReq then RD_Invalid
     else if hasSharers pkt then RD_Shared else RD_Exclusive)"

lemma attach_H2D_again [simp]:
  "attach_H2D_Resp opc rsp (upd_req (\<lambda>r. r\<lparr> cxl_packet_type := t r, cxl_cache := c \<rparr>) p)
    = attach_H2D_Resp opc rsp p"
  "attach_H2D_Resp_Data opc rsp (upd_req (\<lambda>r. r\<lparr> cxl_packet_type := t r, cxl_cache := c \<rparr>) p)
    = attach_H2D_Resp_Data opc rsp p"
  by (simp_all add: attach_H2D_Resp_def attach_H2D_Resp_Data_def upd_req_def)

text \<open>C23: a device request to host memory, whatever its command, is answered GO: the
  device's coherency engine turns it into a CXL.cache request with the opcode of the command
  and the home agent answers it. A read for ownership is granted the line exclusively, a
  flush leaves it invalid, and every other command, a shared read included, gets it shared
  when the host caches share it and exclusive when they do not: the grant is decided by the
  sharers and not by the shared read's own wish. Data accompanies the answer except for the
  flush. Nothing else of the packet changes.\<close>

theorem device_request_granted:
  assumes "valid_addr pkt" "p_addr pkt \<ge> 0xA0000000"
  shows "\<exists>pkt1 pkt2 d h. makeCXLrequest dcoh_cases pkt = Inr pkt1
    \<and> cxl_cache (req pkt1) = Some (Is_D2H_Req d)
    \<and> d2hreq_Opcode d = requested_opcode (cmd pkt) \<and> d2hreq_Address d = p_addr pkt
    \<and> reciveCXL pkt1 = Inr pkt2
    \<and> h2dresp_opcode h = GO \<and> h2dresp_RspData h = granted_state pkt
    \<and> pkt2 = (if cmd pkt = FlushReq
        then upd_req (\<lambda>r. r\<lparr> cxl_packet_type := CXLcachePacket,
               cxl_cache := Some (Is_H2D_Resp h) \<rparr>) pkt
        else upd_req (\<lambda>r. r\<lparr> cxl_cache := Some (Is_H2D_Resp h),
               cxl_packet_type := CXLcacheDataPacket,
               cxl_data_atomic2 := Some h2d_data_msg \<rparr>) pkt)"
proof -
  let ?pkt1 = "upd_req (\<lambda>r. r\<lparr>
      cxl_packet_type := (if cxl_packet_type r \<noteq> HostBiasCheck then CXLcachePacket
                          else cxl_packet_type r),
      cxl_cache := Some (Is_D2H_Req
        (new_D2H_Req (requested_opcode (cmd pkt)) 1 False 0 (p_addr pkt) 0 0 0)) \<rparr>) pkt"
  have sent: "makeCXLrequest dcoh_cases pkt = Inr ?pkt1"
    using assms(1) by (simp add: makeCXLrequest_eq dcoh_cases_opcode requested_opcode_def)
  have answered: "reciveCXL ?pkt1 = Inr (if cmd pkt = FlushReq
      then attach_H2D_Resp GO (granted_state pkt) pkt
      else attach_H2D_Resp_Data GO (granted_state pkt) pkt)"
    using assms(2)
    by (simp add: reciveCXL_def makeCXLResp_def Let_def requested_opcode_def granted_state_def)
  show ?thesis
    unfolding sent
    by (rule exI[of _ ?pkt1], rule exI[of _ "projr (reciveCXL ?pkt1)"],
        rule exI[of _ "new_D2H_Req (requested_opcode (cmd pkt)) 1 False 0 (p_addr pkt) 0 0 0"],
        rule exI[of _ "(new_H2D_Resp GO (granted_state pkt) RP_Host_CacheHit 0 0 0 0)
          \<lparr> cache_last_resp := 1 \<rparr>"])
      (simp add: answered attach_H2D_Resp_def attach_H2D_Resp_Data_def h2d_resp_msg_def
        new_H2D_Resp_def)
qed

theorem device_request_granted_witness:
  "\<exists>pkt1 pkt2 h. makeCXLrequest dcoh_cases
      (Packet_new (sample_request\<lparr> r_paddr := Some 0xA0001000 \<rparr>) ReadSharedReq) = Inr pkt1
    \<and> reciveCXL pkt1 = Inr pkt2 \<and> cxl_cache (req pkt2) = Some (Is_H2D_Resp h)
    \<and> h2dresp_RspData h = RD_Exclusive"
proof -
  let ?p = "Packet_new (sample_request\<lparr> r_paddr := Some 0xA0001000 \<rparr>) ReadSharedReq"
  have "valid_addr ?p" "p_addr ?p \<ge> 0xA0000000" "granted_state ?p = RD_Exclusive"
    by (simp_all add: Packet_new_def sample_request_def valid_addr_def packet_flag_defs
        flag_isSet_def granted_state_def hasSharers_def)
  from device_request_granted[OF this(1,2)] this(3) show ?thesis by auto
qed

section \<open>The coherence check for host-biased pages\<close>

text \<open>What the check needs of the host's snoop: it keeps the CXL.cache request and the address
  of the packet, and a response carries another command and the responding flag.\<close>

definition good_snoop :: "'e atomic_peer \<Rightarrow> Packet \<Rightarrow> 'e \<Rightarrow> Packet \<Rightarrow> 'e \<Rightarrow> bool" where
  "good_snoop snoop p e p' e' =
    (\<exists>lat. snoop p e = Inr (lat, p', e') \<and> cxl_cache (req p') = cxl_cache (req p)
      \<and> p_addr p' = p_addr p \<and> valid_addr p'
      \<and> (isResponse (cmd p') \<longrightarrow> cmd p' \<noteq> cmd p \<and> cacheResponding p'))"

lemma checkCoherence_req_ok:
  assumes "valid_addr p" "op \<in> {RdCurr, RdShared, RdAny, RdOwn, RdOwnNoData, WOWrInv, WOWrInvF}"
  obtains opc mv where "checkCoherence_req op p =
      Inr (new_M2S_Req opc ST_No_Op MF_Meta0_State mv 0 (p_addr p) 0 0 0 0 TC_Reserved)"
    and "opc = MemRdFwd \<or> opc = MemWrFwd"
  using assms by (auto simp: checkCoherence_req_def fwd_req_def getAddr_eq)

lemma valid_addr_cmd_upd [simp]: "valid_addr (p\<lparr> cmd := c \<rparr>) = valid_addr p"
  by (simp add: valid_addr_def)

lemma hasSharers_cmd_upd [simp]: "hasSharers (p\<lparr> cmd := c \<rparr>) = hasSharers p"
  by (simp add: hasSharers_def)

lemma forwardAtomic_good:
  assumes "good_snoop snoop p e p' e'" "valid_addr p"
  shows "\<exists>c lat q. forwardAtomic snoop p e = Inr (c, lat, q, e') \<and> valid_addr q
    \<and> p_addr q = p_addr p \<and> cxl_cache (req q) = cxl_cache (req p)
    \<and> hasSharers q = hasSharers p'"
proof -
  from assms(1) obtain lat where sn: "snoop p e = Inr (lat, p', e')"
    "cxl_cache (req p') = cxl_cache (req p)" "p_addr p' = p_addr p" "valid_addr p'"
    "isResponse (cmd p') \<longrightarrow> cmd p' \<noteq> cmd p \<and> cacheResponding p'"
    by (auto simp: good_snoop_def)
  have "forwardAtomic snoop p e = Inr (if isResponse (cmd p')
      then (cmd p', lat, p'\<lparr> cmd := cmd p \<rparr>, e') else (InvalidCmd, 0, p', e'))"
    using sn assms(2) by (simp add: forwardAtomic_def getAddr_eq)
  then show ?thesis
    using sn by (cases "isResponse (cmd p')") auto
qed

text \<open>C24: a device request checked against the host caches (the request is not a flush) comes
  back as a forward message, and the device then keeps the page in host bias exactly when the
  snoop found sharers in the host; without sharers the page moves to device bias. No other
  page changes.\<close>

theorem coherence_check_sets_bias:
  assumes "valid_addr pkt" "is_device_mem (p_addr pkt)" "cmd pkt \<noteq> FlushReq"
    and "cxl_packet_type (req pkt) = HostBiasCheck"
    and "makeCXLrequest dcoh_cases pkt = Inr pkt1"
    and "good_snoop snoop pkt1 d pkts ds"
  shows "\<exists>pkt2. hostSend dcoh_cases (checkCoherence snoop) pkt d
      = Inr (pkt2, ds\<lparr> Bias_Table := (Bias_Table ds)(page_num (p_addr pkt) \<mapsto> hasSharers pkts) \<rparr>)"
proof -
  define opc where
    "opc = (if cmd pkt = ReadExReq then RdOwn else if cmd pkt = ReadSharedReq then RdShared
            else RdAny)"
  have opc: "opc \<in> {RdOwn, RdShared, RdAny}" by (simp add: opc_def)
  have p1: "cxl_cache (req pkt1) =
        Some (Is_D2H_Req (new_D2H_Req opc 1 False 0 (p_addr pkt) 0 0 0))"
      "valid_addr pkt1" "p_addr pkt1 = p_addr pkt"
    using assms(1,3,5)
    by (auto simp: makeCXLrequest_eq dcoh_cases_opcode opc_def split: if_splits)
  from forwardAtomic_good[OF assms(6) p1(2)] obtain c lat' pktc where
    fw: "forwardAtomic snoop pkt1 d = Inr (c, lat', pktc, ds)"
      "valid_addr pktc" "p_addr pktc = p_addr pkt"
      "cxl_cache (req pktc) = cxl_cache (req pkt1)" "hasSharers pktc = hasSharers pkts"
    using p1(3) by auto
  let ?q = "if c \<noteq> InvalidCmd then pktc\<lparr> cmd := c \<rparr> else pktc"
  have q: "valid_addr ?q" "p_addr ?q = p_addr pkt" "hasSharers ?q = hasSharers pkts"
    using fw by simp_all
  from checkCoherence_req_ok[OF q(1), of opc] opc obtain fo mv where
    m: "checkCoherence_req opc ?q =
        Inr (new_M2S_Req fo ST_No_Op MF_Meta0_State mv 0 (p_addr ?q) 0 0 0 0 TC_Reserved)"
    and fo: "fo = MemRdFwd \<or> fo = MemWrFwd" by auto
  let ?m = "new_M2S_Req fo ST_No_Op MF_Meta0_State mv 0 (p_addr ?q) 0 0 0 0 TC_Reserved"
  have cc: "checkCoherence snoop pkt1 d = Inr (lat', checkCoherence_attach ?m ?q, ds)"
    using p1 fw m by (auto simp: checkCoherence_def Let_def)
  have "cxl_packet_type (req (checkCoherence_attach ?m ?q)) = HostBiasCheck"
    by (simp add: checkCoherence_attach_def Let_def)
  moreover have "fwd_bias_update (checkCoherence_attach ?m ?q) ds = set_bias_mode (p_addr pkt)
      (hasSharers pkts) ds"
    using q fo by (auto simp: fwd_bias_update_def checkCoherence_attach_def Let_def getAddr_eq)
  ultimately show ?thesis
    using assms(2,4,5) cc by (simp add: hostSend_def set_bias_mode_eq)
qed

definition biased_request :: Request where
  "biased_request = sample_request\<lparr> cxl_packet_type := HostBiasCheck \<rparr>"

lemma biased_packet [simp]:
  "valid_addr (Packet_new biased_request c)"
  "p_addr (Packet_new biased_request c) = 0x90000040"
  "cmd (Packet_new biased_request c) = c"
  "cxl_packet_type (req (Packet_new biased_request c)) = HostBiasCheck"
  by (simp_all add: Packet_new_def biased_request_def sample_request_def valid_addr_def
      packet_flag_defs flag_isSet_def)

lemma hasSharers_setHasSharers [simp]: "hasSharers (setHasSharers p)"
  by (simp add: hasSharers_def setHasSharers_def HAS_SHARERS_def)

lemma setHasSharers_sels [simp]:
  "cmd (setHasSharers p) = cmd p" "req (setHasSharers p) = req p"
  "p_addr (setHasSharers p) = p_addr p"
  by (simp_all add: setHasSharers_def)

theorem coherence_check_sets_bias_witness:
  "\<exists>pkt2. hostSend dcoh_cases (checkCoherence (\<lambda>p e. Inr (7, setHasSharers p, e)))
      (Packet_new biased_request ReadSharedReq) empty_device
      = Inr (pkt2, empty_device\<lparr> Bias_Table := [page_num 0x90000040 \<mapsto> True] \<rparr>)"
proof -
  let ?p = "Packet_new biased_request ReadSharedReq"
  let ?sn = "\<lambda>p e. Inr (7, setHasSharers p, e)"
  obtain p1 where p1: "makeCXLrequest dcoh_cases ?p = Inr p1" "valid_addr p1"
    "cmd p1 = ReadSharedReq"
    by (simp add: makeCXLrequest_eq dcoh_cases_opcode)
  have "good_snoop ?sn p1 empty_device (setHasSharers p1) empty_device"
    using p1 by (simp add: good_snoop_def cmd_query_defs)
  from coherence_check_sets_bias[OF _ _ _ _ p1(1) this] show ?thesis
    by (simp add: empty_device_def)
qed

section \<open>Reads of device memory, end to end\<close>

text \<open>The memory behind the device serves every packet and keeps its request and the device's
  bias table.\<close>

definition serves :: "CXLDevice atomic_peer \<Rightarrow> bool" where
  "serves mem = (\<forall>p d. \<exists>lat p' d'. mem p d = Inr (lat, p', d')
    \<and> req p' = req p \<and> Bias_Table d' = Bias_Table d)"

lemma servesE:
  assumes "serves mem"
  obtains lat p' d' where "mem p d = Inr (lat, p', d')" "req p' = req p"
    "Bias_Table d' = Bias_Table d"
  using assms unfolding serves_def by blast

lemma makeMemDataAtomic_eq:
  "cxl_req (req p) = Some (Is_S2M_NDR n) \<Longrightarrow> makeMemDataAtomic p =
    Inr (upd_req (\<lambda>r. r\<lparr> cxl_packet_type := CXLmemDataPacket,
      cxl_data_atomic := Some (Is_S2M_DRS ((new_S2M_DRS MemData (ndr_metafiled n)
        (ndr_metavalue n) 0 False 0 LightLoad 0 0)\<lparr> last_resp := 1 \<rparr>)),
      cxl_req := Some (Is_S2M_NDR (n\<lparr> cxl_req_type := T_S2M_DRS, last_resp := 1 \<rparr>)) \<rparr>) p)"
  by (simp add: makeMemDataAtomic_def Let_def)

text \<open>The message the home agent attaches to a read, and its completion.\<close>

fun read_msg :: "Command \<Rightarrow> (M2S_SnpTypes \<times> MetaFiled \<times> MetaValue \<times> S2M_NDR_Opcodes) option" where
  "read_msg ReadExReq = Some (ST_SnpInv, MF_Meta0_State, MV_Any, Cmp_E)"
| "read_msg ReadSharedReq = Some (ST_SnpData, MF_Meta0_State, MV_Shared, Cmp_S)"
| "read_msg ReadReq = Some (ST_No_Op, MF_No_Op, MV_Any, Cmp)"
| "read_msg _ = None"

definition is_host_read :: "Packet \<Rightarrow> CXL_Req_obj \<Rightarrow> bool" where
  "is_host_read pkt m = (\<exists>snp mf mv opc. read_msg (cmd pkt) = Some (snp, mf, mv, opc)
    \<and> m = Is_M2S_Req (new_M2S_Req MemRd snp mf mv 0 (p_addr pkt) 0 0 0 0 TC_Reserved))"

lemma makeCXLPacket_read:
  assumes "valid_addr pkt" "cmd pkt \<in> {ReadExReq, ReadSharedReq, ReadReq}"
  shows "\<exists>m. is_host_read pkt m \<and> makeCXLPacket home_agent_cases pkt =
    Inr (True, upd_req (\<lambda>r. r\<lparr> cxl_packet_type := CXLmemPacket, cxl_req := Some m \<rparr>) pkt)"
  using assms
  by (auto simp: is_host_read_def makeCXLPacket_def home_agent_cases_def attach_M2S_Req_eq)

lemma makeCXLresponse_read:
  assumes "is_host_read pkt m" "cxl_req (req p) = Some m" "valid_addr p"
    "p_addr p = p_addr pkt" "is_device_mem (p_addr pkt)"
  shows "\<exists>opc. makeCXLresponse p d = Inr (attach_ndr 0 (ndr opc MF_No_Op MV_Any) p,
      bias_after (cmd pkt \<noteq> ReadReq) (p_addr pkt) d)
    \<and> map_option txn_cmp (host_txn (cmd pkt)) = Some opc"
  using assms
  by (cases "cmd pkt")
    (auto simp: is_host_read_def makeCXLresponse_def makeCXLresponse_MemRd_def resp_plain_def
      resp_host_bias_eq bias_after_def Let_def)

text \<open>in atomic mode a host read of device memory comes back with data: the packet carries
  a \<open>MemData\<close> message, is marked as a CXL.mem data packet and as the last response, and the
  bias table changes only as the completion requires.\<close>

theorem atomic_read_returns_data:
  assumes "valid_addr pkt" "is_device_mem (p_addr pkt)" "isAtomicMode d" "serves mem"
    and "cmd pkt \<in> {ReadExReq, ReadSharedReq, ReadReq}"
  shows "\<exists>pkt1 lat pkt2 d2 drs m. makeCXLPacket home_agent_cases pkt = Inr (True, pkt1)
    \<and> recvReq mem pkt1 d = Inr (lat, pkt2, d2)
    \<and> cxl_packet_type (req pkt2) = CXLmemDataPacket
    \<and> cxl_data_atomic (req pkt2) = Some (Is_S2M_DRS drs) \<and> drs_opcode drs = MemData
    \<and> cxl_req (req pkt2) = Some m \<and> obj_cxl_req_type m = T_S2M_DRS \<and> obj_last_resp m = 1
    \<and> Bias_Table d2 = Bias_Table (bias_after (cmd pkt \<noteq> ReadReq) (p_addr pkt) d)"
proof -
  from makeCXLPacket_read[OF assms(1,5)] obtain m where m: "is_host_read pkt m"
    and p1: "makeCXLPacket home_agent_cases pkt =
      Inr (True, upd_req (\<lambda>r. r\<lparr> cxl_packet_type := CXLmemPacket, cxl_req := Some m \<rparr>) pkt)"
    by blast
  let ?p = "upd_req (\<lambda>r. r\<lparr> cxl_packet_type := CXLmemPacket, cxl_req := Some m \<rparr>) pkt"
  let ?d = "bias_after (cmd pkt \<noteq> ReadReq) (p_addr pkt) d"
  from makeCXLresponse_read[OF m, of ?p d] assms(1,2) obtain n where
    n: "makeCXLresponse ?p d = Inr (attach_ndr 0 n ?p, ?d)" by auto
  from assms(4) obtain lat p3 d3 where s: "mem (attach_ndr 0 n ?p) ?d = Inr (lat, p3, d3)"
    "req p3 = req (attach_ndr 0 n ?p)" "Bias_Table d3 = Bias_Table ?d" by (rule servesE)
  have rd: "isRead (cmd pkt)" using assms(5) by (auto simp: cmd_query_defs)
  have c: "cxl_req (req p3) = Some (Is_S2M_NDR (n\<lparr> last_resp := 0 \<rparr>))"
    by (simp add: s(2) attach_ndr_def)
  have "ReadData mem (attach_ndr 0 n ?p) ?d = Inr (lat, p3, d3)"
    using s(1) assms(1-3)
    by (simp add: ReadData_def getAddr_def memAction_def is_device_mem_def isAtomicMode_def
        bias_after_def valid_addr_def attach_ndr_def split: if_splits)
  then have "recvReq mem ?p d = rbind (makeMemDataAtomic p3) (\<lambda>p4. Inr (lat, p4, d3))"
    using n rd c by (simp add: recvReq_def)
  then show ?thesis
    using p1 s(3) by (simp add: makeMemDataAtomic_eq[OF c] new_S2M_DRS_def)
qed

theorem atomic_read_returns_data_witness:
  "\<exists>pkt1 lat pkt2 d2 drs. makeCXLPacket home_agent_cases (Packet_new sample_request ReadReq)
      = Inr (True, pkt1)
    \<and> recvReq (\<lambda>p d. Inr (30, p\<lparr> cmd := ReadResp \<rparr>, d)) pkt1 empty_device = Inr (lat, pkt2, d2)
    \<and> cxl_data_atomic (req pkt2) = Some (Is_S2M_DRS drs) \<and> Bias_Table d2 = (\<lambda>_. None)"
proof -
  have "serves (\<lambda>p d. Inr (30, p\<lparr> cmd := ReadResp \<rparr>, d))" by (simp add: serves_def)
  from atomic_read_returns_data[OF _ _ _ this, of "Packet_new sample_request ReadReq" empty_device]
  show ?thesis
    by (fastforce simp: empty_device_def isAtomicMode_def bias_after_def)
qed

text \<open>What the device does with the memory's response to a host read: it schedules one packet
  towards the host, the response with the completion \<open>host_txn\<close> asks for and the data message,
  both marked as last, and changes nothing else but the page's bias.\<close>

definition read_completion :: "Packet \<Rightarrow> Packet \<Rightarrow> CXLDevice \<Rightarrow> bool" where
  "read_completion pkt resp e = (\<exists>t n drs. host_txn (cmd pkt) = Some t
    \<and> recvTimingResp resp e = Inr (True,
        (bias_after (txn_host_bias t) (p_addr pkt) e)\<lparr> pio_sched := pio_sched e @
          [(upd_req (\<lambda>r. r\<lparr> cxl_packet_type := CXLmemDataPacket,
              cxl_req := Some (Is_S2M_NDR n),
              cxl_data_atomic := Some (Is_S2M_DRS drs) \<rparr>) resp, curTick e + 100)] \<rparr>)
    \<and> completes_txn t n \<and> cxl_req_type n = T_S2M_DRS \<and> last_resp n = 1
    \<and> drs_opcode drs = MemData \<and> drs_metafiled drs = MF_No_Op
    \<and> drs_metavalue drs = txn_meta t \<and> last_resp drs = 1)"

lemma host_read_txn:
  assumes "is_host_read pkt m"
  obtains t where "host_txn (cmd pkt) = Some t" "txn_meta t = MV_Any"
    "txn_host_bias t = (cmd pkt \<noteq> ReadReq)"
  using assms by (cases "cmd pkt") (auto simp: is_host_read_def)

lemma read_completion_ok:
  assumes m: "is_host_read pkt m" and dm: "is_device_mem (p_addr pkt)"
    and r: "cxl_req (req resp) = Some m" "cxl_packet_type (req resp) = CXLcacheH2DResp"
      "valid_addr resp" "p_addr resp = p_addr pkt"
  shows "read_completion pkt resp e"
proof -
  from m obtain t where t: "host_txn (cmd pkt) = Some t" "txn_meta t = MV_Any"
    "txn_host_bias t = (cmd pkt \<noteq> ReadReq)" by (rule host_read_txn)
  let ?n = "ndr (txn_cmp t) MF_No_Op MV_Any"
  let ?a = "attach_ndr 0 ?n resp"
  let ?e = "bias_after (txn_host_bias t) (p_addr pkt) e"
  from makeCXLresponse_read[OF m r(1,3,4) dm, of e] t
  have n: "makeCXLresponse resp e = Inr (?a, ?e)" by auto
  have c: "cxl_req (req ?a) = Some (Is_S2M_NDR (?n\<lparr> last_resp := 0 \<rparr>))"
    by (simp add: attach_ndr_def)
  note q = makeMemDataAtomic_eq[OF c]
  have "recvTimingResp_complete resp e = rbind (makeMemDataAtomic ?a) (\<lambda>q. Inr (q, ?e))"
    using r dm n c by (simp add: recvTimingResp_complete_def getAddr_eq is_device_mem_def)
  moreover have "pio_sched ?e = pio_sched e" "curTick ?e = curTick e"
    by (simp_all add: bias_after_def)
  ultimately show ?thesis
    using t unfolding q
    by (auto simp: read_completion_def recvTimingResp_def recvTimingResp_dispatch_def Let_def
        completes_txn_def attach_ndr_def upd_req_def new_S2M_DRS_def
        intro!: exI[of _ "?n\<lparr> cxl_req_type := T_S2M_DRS, last_resp := 1 \<rparr>"]
          exI[of _ "(new_S2M_DRS MemData MF_No_Op MV_Any 0 False 0 LightLoad 0 0)\<lparr> last_resp := 1 \<rparr>"])
qed

text \<open>C4: in timing mode a host read of device memory is handed to the device's memory as it
  is, with its command, address, size and flags, the home agent's \<open>MemRd\<close> message attached and
  the packet type set so that the response can be told. When the memory's response for that
  request comes back, at whatever later time and in whatever device state, it is scheduled
  towards the host, once and 100 ticks later, carrying the completion (Cmp-E, Cmp-S or Cmp, as
  \<open>host_txn\<close> says) and the \<open>MemData\<close> message, both marked as last; the page moves to host bias
  for the two coherent reads, and nothing else of the response or of the device changes.\<close>

theorem timing_read_returns_data:
  assumes "valid_addr pkt" "is_device_mem (p_addr pkt)" "isTimingMode d"
    and "cmd pkt \<in> {ReadExReq, ReadSharedReq, ReadReq}"
  shows "\<exists>m pkt1 pktm. is_host_read pkt m
    \<and> pkt1 = upd_req (\<lambda>r. r\<lparr> cxl_packet_type := CXLmemPacket, cxl_req := Some m \<rparr>) pkt
    \<and> makeCXLPacket home_agent_cases pkt = Inr (True, pkt1)
    \<and> pktm = upd_req (\<lambda>r. r\<lparr> cxl_packet_type := CXLcacheH2DResp \<rparr>) pkt1
    \<and> DCOH_recvTimingReq tc mem dma pkt1 d = mem pktm d
    \<and> (\<forall>resp e. req resp = req pktm \<and> valid_addr resp \<and> p_addr resp = p_addr pkt
        \<longrightarrow> read_completion pkt resp e)"
proof -
  from makeCXLPacket_read[OF assms(1,4)] obtain m where m: "is_host_read pkt m"
    and p1: "makeCXLPacket home_agent_cases pkt =
      Inr (True, upd_req (\<lambda>r. r\<lparr> cxl_packet_type := CXLmemPacket, cxl_req := Some m \<rparr>) pkt)"
    by blast
  let ?p = "upd_req (\<lambda>r. r\<lparr> cxl_packet_type := CXLmemPacket, cxl_req := Some m \<rparr>) pkt"
  let ?m = "upd_req (\<lambda>r. r\<lparr> cxl_packet_type := CXLcacheH2DResp \<rparr>) ?p"
  have rd: "isRead (cmd pkt)" using assms(4) by (auto simp: cmd_query_defs)
  have below: "\<not> 0xA0000000 \<le> p_addr pkt"
    using assms(2) by (simp add: is_device_mem_def not_le)
  have sent: "DCOH_recvTimingReq tc mem dma ?p d = mem ?m d"
    using assms(1-3) rd below
    by (simp add: DCOH_recvTimingReq_def getAddr_eq is_device_mem_def ReadDataTiming_def
        memActionTiming_def)
  have "read_completion pkt resp e"
    if "req resp = req ?m" "valid_addr resp" "p_addr resp = p_addr pkt" for resp e
    using read_completion_ok[OF m assms(2) _ _ that(2,3)] that(1) by simp
  with m p1 sent show ?thesis by blast
qed

text \<open>The witness sends a read for ownership to a memory that answers by turning the packet
  into its response, and gives that response back to the device at tick 5000.\<close>

theorem timing_read_returns_data_witness:
  "\<exists>pkt1 pktm n drs. makeCXLPacket home_agent_cases (Packet_new sample_request ReadExReq)
      = Inr (True, pkt1)
    \<and> DCOH_recvTimingReq dcoh_cases (\<lambda>p d. Inr (True, p, d)) (\<lambda>p d. Inr (False, p, d)) pkt1
        (empty_device\<lparr> memoryMode := Mode_timing \<rparr>)
      = Inr (True, pktm, empty_device\<lparr> memoryMode := Mode_timing \<rparr>)
    \<and> recvTimingResp (pktm\<lparr> cmd := ReadExResp \<rparr>) (empty_device\<lparr> curTick := 5000 \<rparr>)
      = Inr (True, (bias_after True 0x90000040 (empty_device\<lparr> curTick := 5000 \<rparr>))\<lparr> pio_sched :=
          [(upd_req (\<lambda>r. r\<lparr> cxl_packet_type := CXLmemDataPacket,
              cxl_req := Some (Is_S2M_NDR n),
              cxl_data_atomic := Some (Is_S2M_DRS drs) \<rparr>) (pktm\<lparr> cmd := ReadExResp \<rparr>), 5100)] \<rparr>)
    \<and> ndr_opcode n = Cmp_E \<and> drs_opcode drs = MemData"
proof -
  let ?p = "Packet_new sample_request ReadExReq"
  let ?d = "empty_device\<lparr> memoryMode := Mode_timing \<rparr>"
  from timing_read_returns_data[of ?p ?d dcoh_cases "\<lambda>p d. Inr (True, p, d)"
      "\<lambda>p d. Inr (False, p, d)"]
  obtain m pkt1 pktm where *: "makeCXLPacket home_agent_cases ?p = Inr (True, pkt1)"
    "pkt1 = upd_req (\<lambda>r. r\<lparr> cxl_packet_type := CXLmemPacket, cxl_req := Some m \<rparr>) ?p"
    "pktm = upd_req (\<lambda>r. r\<lparr> cxl_packet_type := CXLcacheH2DResp \<rparr>) pkt1"
    "DCOH_recvTimingReq dcoh_cases (\<lambda>p d. Inr (True, p, d)) (\<lambda>p d. Inr (False, p, d)) pkt1 ?d
      = Inr (True, pktm, ?d)"
    "\<forall>resp e. req resp = req pktm \<and> valid_addr resp \<and> p_addr resp = p_addr ?p
        \<longrightarrow> read_completion ?p resp e"
    by (auto simp: isTimingMode_def)
  have "read_completion ?p (pktm\<lparr> cmd := ReadExResp \<rparr>) (empty_device\<lparr> curTick := 5000 \<rparr>)"
    using *(2,3) by (intro *(5)[rule_format]) simp
  with *(1,4) show ?thesis
    by (auto simp: read_completion_def completes_txn_def empty_device_def)
qed

end
