(* ===== verification/BoundedFifo.thy ===== *)
theory BoundedFifo
  imports Prelude
begin

text \<open>
  The contract of a bounded first-in first-out buffer, as the clients of a hardware buffer
  use it: a push into a full buffer is lost, a peek shows the oldest element, a pop removes
  it. The lemmas about a run of pops are proved once from the contract.
\<close>

locale bounded_fifo =
  fixes inv :: "'b \<Rightarrow> bool"
    and cap :: "'b \<Rightarrow> nat"
    and elems :: "'b \<Rightarrow> 'a list"
    and push :: "'a \<Rightarrow> 'b \<Rightarrow> 'b"
    and pop :: "'b \<Rightarrow> 'b"
    and peek :: "'b \<Rightarrow> 'a option"
  assumes inv_push: "inv b \<Longrightarrow> inv (push x b)"
    and inv_pop: "inv b \<Longrightarrow> inv (pop b)"
    and cap_push: "inv b \<Longrightarrow> cap (push x b) = cap b"
    and cap_pop: "inv b \<Longrightarrow> cap (pop b) = cap b"
    and elems_push:
      "inv b \<Longrightarrow> elems (push x b) = (if length (elems b) < cap b then elems b @ [x] else elems b)"
    and elems_pop: "inv b \<Longrightarrow> elems (pop b) = tl (elems b)"
    and peek_elems: "inv b \<Longrightarrow> peek b = (case elems b of [] \<Rightarrow> None | x # _ \<Rightarrow> Some x)"
    and elems_bounded: "inv b \<Longrightarrow> length (elems b) \<le> cap b"
begin

text \<open>Any run of operations keeps the invariant and the capacity; the contents only shrink by
  pops, from the front.\<close>

lemma inv_pops: "inv b \<Longrightarrow> inv ((pop ^^ n) b)"
  by (induction n) (simp_all add: inv_pop)

lemma cap_pops: "inv b \<Longrightarrow> cap ((pop ^^ n) b) = cap b"
  by (induction n) (simp_all add: cap_pop inv_pops)

lemma elems_pops: "inv b \<Longrightarrow> elems ((pop ^^ n) b) = drop n (elems b)"
  by (induction n) (simp_all add: elems_pop inv_pops tl_drop drop_Suc)

text \<open>Popping while the oldest element satisfies a predicate drops the longest such prefix.\<close>

lemma pops_dropWhile:
  assumes "inv b"
  shows "elems ((pop ^^ length (takeWhile P (elems b))) b) = dropWhile P (elems b)"
  using assms by (simp add: elems_pops dropWhile_eq_drop)

lemma set_elems_pops: "inv b \<Longrightarrow> set (elems ((pop ^^ n) b)) \<subseteq> set (elems b)"
  by (simp add: elems_pops set_drop_subset)

lemma set_elems_push: "inv b \<Longrightarrow> set (elems (push x b)) \<subseteq> insert x (set (elems b))"
  by (auto simp: elems_push)

end

end
