(* ===== verification/PcieLink.thy ===== *)
theory PcieLink
  imports Packets BoundedFifo
begin

text \<open>
  The PCI Express link (\<^verbatim>\<open>mem/pcie_link.cc\<close>, \<^verbatim>\<open>mem/pcie_link.hh\<close>): two link interfaces, each
  with a wire to the other, a replay buffer, sequence numbers, an acknowledgement timer and a
  replay timer.

  Link packets are heap objects that are immutable once built, so they are values with an
  object identity; the world records which objects have been deleted, and using a deleted
  object is undefined. An event is the tick it is scheduled for, or \<open>None\<close>. Two things the
  code takes from outside are parameters: the transmission delay of a packet (computed in
  floating point with an optional random part) and what the attached device does when it is
  told to retry (nothing, or one packet at once). Whether the attached device accepts a
  packet is an input of the step. The fields \<open>gh_accepted\<close> and \<open>gh_delivered\<close> are history
  variables: the packets an interface took from its device and the ones it handed to it.
\<close>

section \<open>Link packets\<close>

record PCIELinkPacket =
  lp_obj :: nat
  lp_pkt :: "Packet option"
  lp_dllp :: "u64 option"
  isTLP :: bool
  isDLLP :: bool
  lp_seqNum :: u64

text \<open>\<open>DataLinkPacket(int)\<close> takes its sequence number through a 32-bit signed parameter.\<close>

definition DataLinkPacket_seqNum :: "u64 \<Rightarrow> u64" where
  "DataLinkPacket_seqNum s = scast (ucast s :: u32)"

definition new_TLP :: "nat \<Rightarrow> Packet \<Rightarrow> u64 \<Rightarrow> PCIELinkPacket" where
  "new_TLP obj pkt s =
    \<lparr> lp_obj = obj, lp_pkt = Some pkt, lp_dllp = None, isTLP = True, isDLLP = False,
      lp_seqNum = s \<rparr>"

definition new_Ack :: "nat \<Rightarrow> u64 \<Rightarrow> PCIELinkPacket" where
  "new_Ack obj s =
    \<lparr> lp_obj = obj, lp_pkt = None, lp_dllp = Some (DataLinkPacket_seqNum s), isTLP = False,
      isDLLP = True, lp_seqNum = 0 \<rparr>"

text \<open>\<open>PCIELinkPacket::getSize\<close>: the encoding factor of 1.25 is exact, and the conversion to
  \<open>int\<close> truncates.\<close>

definition link_getSize :: "PCIELinkPacket \<Rightarrow> nat outcome" where
  "link_getSize p =
    (case lp_pkt p of
       Some q \<Rightarrow>
         (if isRequest (cmd q) \<and> hasData (cmd q) then
            rbind (getSize q) (\<lambda>s. Inr (unat (12 + s + 6 + 2) * 5 div 4))
          else if isRequest (cmd q) then Inr ((12 + 6 + 2) * 5 div 4)
          else if isResponse (cmd q) \<and> hasData (cmd q) then
            rbind (getSize q) (\<lambda>s. Inr (unat (12 + s + 6 + 2) * 5 div 4))
          else Inr ((12 + 6 + 2) * 5 div 4))
     | None \<Rightarrow> Inr (if lp_dllp p \<noteq> None then (6 + 2) * 5 div 4 else 0))"

section \<open>The replay buffer\<close>

record ReplayBuffer =
  maximumSize :: int
  rqueue :: "PCIELinkPacket option list"

definition new_ReplayBuffer :: "int \<Rightarrow> ReplayBuffer" where
  "new_ReplayBuffer max_size =
    \<lparr> maximumSize = max_size, rqueue = replicate (nat max_size) None \<rparr>"

definition rb_size :: "ReplayBuffer \<Rightarrow> int" where
  "rb_size b = int (length (filter (\<lambda>x. x \<noteq> None) (rqueue b)))"

fun replace_first_null :: "'a \<Rightarrow> 'a option list \<Rightarrow> 'a option list" where
  "replace_first_null p [] = []"
| "replace_first_null p (None # xs) = Some p # xs"
| "replace_first_null p (Some x # xs) = Some x # replace_first_null p xs"

definition pushBack :: "PCIELinkPacket \<Rightarrow> ReplayBuffer \<Rightarrow> ReplayBuffer" where
  "pushBack p b =
    (if rb_size b \<ge> maximumSize b then b
     else b\<lparr> rqueue := replace_first_null p (rqueue b) \<rparr>)"

text \<open>The front of an empty deque does not exist.\<close>

fun rb_front :: "ReplayBuffer \<Rightarrow> PCIELinkPacket option outcome" where
  "rb_front b = (case rqueue b of [] \<Rightarrow> Inl (Undefined ''front of an empty deque'')
    | x # _ \<Rightarrow> Inr x)"

definition popFront :: "ReplayBuffer \<Rightarrow> ReplayBuffer" where
  "popFront b =
    (case rqueue b of
       Some p # xs \<Rightarrow> b\<lparr> rqueue := xs @ [None] \<rparr>
     | _ \<Rightarrow> b)"

definition rb_get :: "int \<Rightarrow> ReplayBuffer \<Rightarrow> PCIELinkPacket option outcome" where
  "rb_get idx b =
    (if idx > maximumSize b then Inr None
     else if 0 \<le> idx \<and> nat idx < length (rqueue b) then Inr (rqueue b ! nat idx)
     else Inl (Undefined ''replay buffer index''))"

definition rb_empty :: "ReplayBuffer \<Rightarrow> bool" where
  "rb_empty b = (\<forall>x \<in> set (rqueue b). x = None)"

text \<open>The buffer is well formed when its used entries come first; then it is a bounded queue.\<close>

definition rb_elems :: "ReplayBuffer \<Rightarrow> PCIELinkPacket list" where
  "rb_elems b = map the (filter (\<lambda>x. x \<noteq> None) (rqueue b))"

definition rb_cap :: "ReplayBuffer \<Rightarrow> nat" where
  "rb_cap b = nat (maximumSize b)"

definition rb_inv :: "ReplayBuffer \<Rightarrow> bool" where
  "rb_inv b = (maximumSize b > 0 \<and> length (rqueue b) = nat (maximumSize b)
    \<and> rqueue b = map Some (rb_elems b) @ replicate (rb_cap b - length (rb_elems b)) None)"

definition rb_peek :: "ReplayBuffer \<Rightarrow> PCIELinkPacket option" where
  "rb_peek b = (case rqueue b of x # _ \<Rightarrow> x | [] \<Rightarrow> None)"

lemma filter_somes [simp]:
  "filter (\<lambda>x. x \<noteq> None) (map Some xs @ replicate n None) = map Some xs"
  "filter (\<lambda>x. \<exists>y. x = Some y) (map Some xs @ replicate n None) = map Some xs"
  by (induction xs) auto

lemma rb_inv_iff:
  "rb_inv b \<longleftrightarrow> maximumSize b > 0
    \<and> (\<exists>xs n. rqueue b = map Some xs @ replicate n None \<and> length xs + n = nat (maximumSize b))"
proof
  assume "rb_inv b"
  then show "maximumSize b > 0
    \<and> (\<exists>xs n. rqueue b = map Some xs @ replicate n None \<and> length xs + n = nat (maximumSize b))"
    unfolding rb_inv_def by (metis length_append length_map length_replicate)
next
  assume a: "maximumSize b > 0
    \<and> (\<exists>xs n. rqueue b = map Some xs @ replicate n None \<and> length xs + n = nat (maximumSize b))"
  then obtain xs n where x: "rqueue b = map Some xs @ replicate n None"
    "length xs + n = nat (maximumSize b)" by blast
  then have "rb_elems b = xs" by (simp add: rb_elems_def comp_def)
  with a x show "rb_inv b" by (simp add: rb_inv_def rb_cap_def)
qed

lemma rb_invI:
  "rqueue b = map Some xs @ replicate n None \<Longrightarrow> length xs + n = nat (maximumSize b)
    \<Longrightarrow> maximumSize b > 0 \<Longrightarrow> rb_inv b"
  by (auto simp: rb_inv_iff)

lemma rb_elems_shape: "rqueue b = map Some xs @ replicate n None \<Longrightarrow> rb_elems b = xs"
  by (simp add: rb_elems_def comp_def)

lemma replace_first_null_shape:
  "replace_first_null p (map Some xs @ replicate (Suc n) None)
    = map Some (xs @ [p]) @ replicate n None"
  by (induction xs) simp_all

lemma pushBack_shape:
  assumes "rqueue b = map Some xs @ replicate n None" "length xs + n = nat (maximumSize b)"
  shows "rqueue (pushBack p b) =
    (if n = 0 then rqueue b else map Some (xs @ [p]) @ replicate (n - 1) None)"
  using assms replace_first_null_shape[of p xs "n - 1"]
  by (cases n) (auto simp: pushBack_def rb_size_def)

lemma popFront_shape:
  assumes "rqueue b = map Some xs @ replicate n None"
  shows "rqueue (popFront b) =
    (case xs of [] \<Rightarrow> rqueue b | _ # ys \<Rightarrow> map Some ys @ replicate (Suc n) None)"
  using assms
  by (cases xs; cases n)
    (auto simp: popFront_def replicate_append_same)

lemma pushBack_max [simp]: "maximumSize (pushBack p b) = maximumSize b"
  by (simp add: pushBack_def)

lemma popFront_max [simp]: "maximumSize (popFront b) = maximumSize b"
  by (simp add: popFront_def split: list.splits option.splits)

lemma rb_peek_shape:
  "rqueue b = map Some xs @ replicate n None \<Longrightarrow>
    rb_peek b = (case xs of [] \<Rightarrow> None | x # _ \<Rightarrow> Some x)"
  by (cases xs; cases n) (auto simp: rb_peek_def)

interpretation replay: bounded_fifo rb_inv rb_cap rb_elems pushBack popFront rb_peek
proof
  fix b :: ReplayBuffer and x
  assume "rb_inv b"
  then obtain xs n where q: "rqueue b = map Some xs @ replicate n None"
    "length xs + n = nat (maximumSize b)" "maximumSize b > 0" by (auto simp: rb_inv_iff)
  note e = rb_elems_shape[OF q(1)]
  have pb: "rqueue (pushBack x b) = (if n = 0 then rqueue b
      else map Some (xs @ [x]) @ replicate (n - 1) None)"
    using pushBack_shape q by blast
  have pf: "rqueue (popFront b) =
      (case xs of [] \<Rightarrow> rqueue b | _ # ys \<Rightarrow> map Some ys @ replicate (Suc n) None)"
    using popFront_shape q by blast
  show "rb_inv (pushBack x b)"
    using pb q rb_invI[of "pushBack x b" "xs @ [x]" "n - 1"] rb_invI[of "pushBack x b" xs n]
    by (cases n) auto
  show "rb_inv (popFront b)"
  proof (cases xs)
    case Nil
    then show ?thesis using pf q rb_invI[of "popFront b" xs n] by simp
  next
    case (Cons y ys)
    then show ?thesis
      using pf q rb_invI[of "popFront b" ys "Suc n"] by (simp del: replicate_Suc)
  qed
  show "rb_cap (pushBack x b) = rb_cap b" "rb_cap (popFront b) = rb_cap b"
    by (simp_all add: rb_cap_def)
  show "rb_elems (pushBack x b)
      = (if length (rb_elems b) < rb_cap b then rb_elems b @ [x] else rb_elems b)"
    using pb q e rb_elems_shape[of "pushBack x b" "xs @ [x]" "n - 1"]
      rb_elems_shape[of "pushBack x b" xs n]
    by (cases n) (auto simp: rb_cap_def)
  show "rb_elems (popFront b) = tl (rb_elems b)"
  proof (cases xs)
    case Nil
    then show ?thesis using pf e q(1) rb_elems_shape[of "popFront b" "[]" n] by simp
  next
    case (Cons y ys)
    then show ?thesis using pf e rb_elems_shape[of "popFront b" ys "Suc n"] by simp
  qed
  show "rb_peek b = (case rb_elems b of [] \<Rightarrow> None | x # _ \<Rightarrow> Some x)"
    using rb_peek_shape[OF q(1)] e by simp
  show "length (rb_elems b) \<le> rb_cap b"
    using e q(2) by (simp add: rb_cap_def)
qed

section \<open>A link interface\<close>

record Link =
  packet :: "PCIELinkPacket option"
  txQueue :: "(u64 \<times> PCIELinkPacket) list"
  buffer :: ReplayBuffer
  sendSeqNum :: u64
  recvSeqNum :: u64
  lastAcked :: u64
  maxQueueSize :: int
  retryTime :: u32
  linkDelay :: u64
  retryResp :: bool
  retryReq :: bool
  replayPacket :: "PCIELinkPacket option"
  replayDLLP :: "PCIELinkPacket option"
  retransmit :: bool
  retransmitIdx :: int
  doneAt :: "u64 option"
  txQueueAt :: "u64 option"
  timeoutAt :: "u64 option"
  ackAt :: "u64 option"
  gh_accepted :: "Packet list"
  gh_delivered :: "Packet list"

text \<open>The heap as far as link packets are concerned: the next object and the deleted ones.\<close>

record World =
  next_obj :: nat
  freed :: "nat list"

definition live :: "PCIELinkPacket \<Rightarrow> World \<Rightarrow> bool" where
  "live p w = (lp_obj p \<notin> set (freed w))"

definition deref_link :: "PCIELinkPacket \<Rightarrow> World \<Rightarrow> PCIELinkPacket outcome" where
  "deref_link p w =
    (if live p w then Inr p else Inl (Undefined ''use of a deleted link packet''))"

definition delete_link :: "PCIELinkPacket \<Rightarrow> World \<Rightarrow> World" where
  "delete_link p w = w\<lparr> freed := lp_obj p # freed w \<rparr>"

definition schedule :: "u64 option \<Rightarrow> u64 \<Rightarrow> u64 option outcome" where
  "schedule ev t =
    rbind (assert_that (ev = None) ''!event->scheduled()'') (\<lambda>_. Inr (Some t))"

definition new_Link :: "int \<Rightarrow> u32 \<Rightarrow> u64 \<Rightarrow> Link" where
  "new_Link max_queue_size retry_time delay =
    \<lparr> packet = None, txQueue = [], buffer = new_ReplayBuffer max_queue_size, sendSeqNum = 0,
      recvSeqNum = 0, lastAcked = 0, maxQueueSize = max_queue_size, retryTime = retry_time,
      linkDelay = delay, retryResp = False, retryReq = False, replayPacket = None,
      replayDLLP = None, retransmit = False, retransmitIdx = 0, doneAt = None,
      txQueueAt = None, timeoutAt = None, ackAt = None, gh_accepted = [],
      gh_delivered = [] \<rparr>"

definition busy :: "Link \<Rightarrow> bool" where
  "busy l = (packet l \<noteq> None)"

text \<open>What a device does at once when told to retry: for a request port (\<open>False\<close>) or a response
  port (\<open>True\<close>), at most one packet. The delay of a transmission is the other parameter.\<close>

type_synonym reaction = "bool \<Rightarrow> Link \<Rightarrow> Packet option"
type_synonym delay_fn = "PCIELinkPacket \<Rightarrow> u64"

definition transmit ::
  "delay_fn \<Rightarrow> u64 \<Rightarrow> PCIELinkPacket \<Rightarrow> World \<Rightarrow> Link \<Rightarrow> (bool \<times> Link) outcome" where
  "transmit delay now p w l =
    (if busy l then Inr (False, l)
     else rbind (deref_link p w) (\<lambda>p.
          rbind (schedule (doneAt l) (now + delay p)) (\<lambda>t.
            Inr (True, l\<lparr> packet := Some p, doneAt := t \<rparr>))))"

definition linkTransmitInterface ::
  "delay_fn \<Rightarrow> u64 \<Rightarrow> Packet \<Rightarrow> bool \<Rightarrow> World \<Rightarrow> Link \<Rightarrow> (bool \<times> World \<times> Link) outcome" where
  "linkTransmitInterface delay now pkt master w l =
    (if replayPacket l \<noteq> None \<or> rb_size (buffer l) \<ge> maxQueueSize l \<or> retransmit l then
       Inr (False, w, if \<not> master then l\<lparr> retryReq := True \<rparr> else l\<lparr> retryResp := True \<rparr>)
     else
       let p = new_TLP (next_obj w) pkt (sendSeqNum l); w' = w\<lparr> next_obj := next_obj w + 1 \<rparr> in
       rbind (transmit delay now p w' (l\<lparr> replayPacket := Some p \<rparr>)) (\<lambda>(_, l1).
         Inr (True, w', l1\<lparr> sendSeqNum := sendSeqNum l1 + 1,
           gh_accepted := gh_accepted l1 @ [pkt] \<rparr>)))"

text \<open>\<open>sendRetryReq\<close> and \<open>sendRetryResp\<close>: the flag is cleared and the device reacts.\<close>

definition react ::
  "reaction \<Rightarrow> delay_fn \<Rightarrow> u64 \<Rightarrow> bool \<Rightarrow> World \<Rightarrow> Link \<Rightarrow> (World \<times> Link) outcome" where
  "react rx delay now master w l =
    (case rx master l of
       None \<Rightarrow> Inr (w, l)
     | Some pkt \<Rightarrow> rbind (linkTransmitInterface delay now pkt master w l)
         (\<lambda>(_, w', l'). Inr (w', l')))"

definition send_retries ::
  "reaction \<Rightarrow> delay_fn \<Rightarrow> u64 \<Rightarrow> World \<Rightarrow> Link \<Rightarrow> (World \<times> Link) outcome" where
  "send_retries rx delay now w l =
    rbind (if retryReq l then react rx delay now False w (l\<lparr> retryReq := False \<rparr>)
           else Inr (w, l)) (\<lambda>(w1, l1).
      if retryResp l1 then react rx delay now True w1 (l1\<lparr> retryResp := False \<rparr>)
      else Inr (w1, l1))"

text \<open>The loop of \<open>linkReceiveInterface\<close> that removes acknowledged packets; the flag tells that
  it stopped at a packet still to be acknowledged.\<close>

function ack_loop ::
  "u64 \<Rightarrow> ReplayBuffer \<Rightarrow> World \<Rightarrow> (bool \<times> ReplayBuffer \<times> World) outcome" where
  "ack_loop s b w =
    (case rqueue b of
       [] \<Rightarrow> Inl (Undefined ''front of an empty deque'')
     | None # _ \<Rightarrow> Inr (False, b, w)
     | Some p # _ \<Rightarrow>
         (if lp_seqNum p \<le> s then ack_loop s (popFront b) (delete_link p w)
          else Inr (True, b, w)))"
  by pat_completeness auto

lemma rb_size_popFront:
  "rqueue b = Some p # xs \<Longrightarrow> rb_size (popFront b) = rb_size b - 1"
  by (simp add: rb_size_def popFront_def)

termination ack_loop
  by (relation "measure (\<lambda>(s, b, w). nat (rb_size b))")
    (auto simp: rb_size_popFront, simp add: rb_size_def)

declare ack_loop.simps [simp del]

text \<open>A received packet with the expected number is offered to the device; if the device
  refuses it nothing else happens. In all other cases an acknowledgement of the last number
  received in order is sent, or left for later when the wire is busy.\<close>

definition ack_received ::
  "delay_fn \<Rightarrow> u64 \<Rightarrow> World \<Rightarrow> Link \<Rightarrow> (World \<times> Link) outcome" where
  "ack_received delay now w l =
    (if ackAt l \<noteq> None then Inr (w, l)
     else
       let a = new_Ack (next_obj w) (recvSeqNum l - 1); w' = w\<lparr> next_obj := next_obj w + 1 \<rparr> in
       rbind (transmit delay now a w' l) (\<lambda>(sent, l1).
         if sent then Inr (w', l1)
         else rbind (schedule (ackAt l1) (now + ucast (retryTime l1 div 3))) (\<lambda>t.
           Inr (w', l1\<lparr> replayDLLP := Some a, lastAcked := recvSeqNum l1 - 1, ackAt := t \<rparr>))))"

definition recv_TLP ::
  "bool \<Rightarrow> delay_fn \<Rightarrow> u64 \<Rightarrow> PCIELinkPacket \<Rightarrow> World \<Rightarrow> Link \<Rightarrow> (World \<times> Link) outcome" where
  "recv_TLP accept delay now p w l =
    (if lp_seqNum p = recvSeqNum l then
       rbind (deref (lp_pkt p)) (\<lambda>pkt.
         if \<not> accept then Inr (w, l)
         else ack_received delay now w (l\<lparr> recvSeqNum := recvSeqNum l + 1,
                gh_delivered := gh_delivered l @ [pkt] \<rparr>))
     else ack_received delay now w l)"

definition recv_Ack ::
  "reaction \<Rightarrow> delay_fn \<Rightarrow> u64 \<Rightarrow> PCIELinkPacket \<Rightarrow> World \<Rightarrow> Link \<Rightarrow> (World \<times> Link) outcome" where
  "recv_Ack rx delay now p w l =
    rbind (deref (lp_dllp p)) (\<lambda>seq_num.
    rbind (ack_loop seq_num (buffer l) w) (\<lambda>(pending, b, w1).
      send_retries rx delay now (delete_link p w1)
        (l\<lparr> buffer := b,
           timeoutAt := (if pending then Some (now + ucast (retryTime l)) else None) \<rparr>)))"

text \<open>\<open>Link::linkReceiveInterface\<close>; \<open>accept\<close> is the answer of the attached device.\<close>

definition linkReceiveInterface ::
  "bool \<Rightarrow> reaction \<Rightarrow> delay_fn \<Rightarrow> u64 \<Rightarrow> PCIELinkPacket \<Rightarrow> World \<Rightarrow> Link
    \<Rightarrow> (World \<times> Link) outcome" where
  "linkReceiveInterface accept rx delay now p w l =
    rbind (deref_link p w) (\<lambda>p.
      if isTLP p then recv_TLP accept delay now p w l
      else if isDLLP p then recv_Ack rx delay now p w l
      else Inr (w, l))"

text \<open>\<open>Link::timeoutFunc\<close> and \<open>Link::sendAck\<close>; the event that calls them is no longer
  scheduled when they run.\<close>

definition timeoutFunc :: "delay_fn \<Rightarrow> u64 \<Rightarrow> World \<Rightarrow> Link \<Rightarrow> (World \<times> Link) outcome" where
  "timeoutFunc delay now w l =
    (if rb_size (buffer l) = 0 then Inr (w, l)
     else rbind (rb_front (buffer l)) (\<lambda>f.
       if f = None \<or> retransmit l then Inr (w, l)
       else rbind (deref f) (\<lambda>p.
            rbind (transmit delay now p w l) (\<lambda>(success, l1).
              Inr (w, l1\<lparr> retransmit := True, retransmitIdx := (if success then 1 else 0) \<rparr>)))))"

definition sendAck :: "delay_fn \<Rightarrow> u64 \<Rightarrow> World \<Rightarrow> Link \<Rightarrow> (World \<times> Link) outcome" where
  "sendAck delay now w l =
    (if lastAcked l = recvSeqNum l - 1 then Inr (w, l)
     else
       let a = new_Ack (next_obj w) (recvSeqNum l - 1); w' = w\<lparr> next_obj := next_obj w + 1 \<rparr> in
       rbind (schedule (ackAt l) (now + ucast (retryTime l div 3))) (\<lambda>t.
       rbind (transmit delay now a w' (l\<lparr> lastAcked := recvSeqNum l - 1, ackAt := t \<rparr>))
         (\<lambda>(success, l1). Inr (w', if success then l1 else l1\<lparr> replayDLLP := Some a \<rparr>))))"

text \<open>The parts of \<open>Link::txDone\<close> after the packet has left: a waiting acknowledgement goes
  first; a packet transmitted for the first time enters the replay buffer; a running
  retransmission continues; a waiting packet is transmitted. The first flag of each result
  tells that the function returns early.\<close>

definition tx_pending_ack ::
  "delay_fn \<Rightarrow> u64 \<Rightarrow> World \<Rightarrow> Link \<Rightarrow> (bool \<times> Link) outcome" where
  "tx_pending_ack delay now w l =
    (case replayDLLP l of
       None \<Rightarrow> Inr (False, l)
     | Some a \<Rightarrow> rbind (transmit delay now a w l) (\<lambda>(flag, l1).
         if flag then Inr (False, l1\<lparr> replayDLLP := None \<rparr>) else Inr (True, l1)))"

definition tx_first_done ::
  "reaction \<Rightarrow> delay_fn \<Rightarrow> u64 \<Rightarrow> PCIELinkPacket \<Rightarrow> World \<Rightarrow> Link \<Rightarrow> (World \<times> Link) outcome" where
  "tx_first_done rx delay now p w l =
    (if replayPacket l = Some p then
       send_retries rx delay now w
         (l\<lparr> buffer := pushBack p (buffer l), replayPacket := None,
            timeoutAt := (if timeoutAt l = None then Some (now + ucast (retryTime l))
                          else timeoutAt l) \<rparr>)
     else Inr (w, l))"

definition tx_retransmit ::
  "reaction \<Rightarrow> delay_fn \<Rightarrow> u64 \<Rightarrow> World \<Rightarrow> Link \<Rightarrow> (bool \<times> World \<times> Link) outcome" where
  "tx_retransmit rx delay now w l =
    (if \<not> retransmit l then Inr (False, w, l)
     else
       let l1 = (if timeoutAt l = None then l\<lparr> timeoutAt := Some (now + ucast (retryTime l)) \<rparr>
                 else l) in
       if retransmitIdx l1 \<ge> rb_size (buffer l1) then
         rbind (send_retries rx delay now w (l1\<lparr> retransmitIdx := 0, retransmit := False \<rparr>))
           (\<lambda>(w', l2). Inr (False, w', l2))
       else
         rbind (rb_get (retransmitIdx l1) (buffer l1)) (\<lambda>po.
         rbind (if busy l1 then Inr (False, l1)
                else rbind (deref po) (\<lambda>p. transmit delay now p w l1)) (\<lambda>(_, l2).
           Inr (True, w, l2\<lparr> retransmitIdx := retransmitIdx l2 + 1 \<rparr>))))"

definition tx_pending_tlp ::
  "delay_fn \<Rightarrow> u64 \<Rightarrow> World \<Rightarrow> Link \<Rightarrow> (World \<times> Link) outcome" where
  "tx_pending_tlp delay now w l =
    (case replayPacket l of
       None \<Rightarrow> Inr (w, l)
     | Some p \<Rightarrow> rbind (transmit delay now p w l) (\<lambda>(_, l1). Inr (w, l1)))"

definition txDone_rest ::
  "reaction \<Rightarrow> delay_fn \<Rightarrow> u64 \<Rightarrow> PCIELinkPacket \<Rightarrow> World \<Rightarrow> Link \<Rightarrow> (World \<times> Link) outcome" where
  "txDone_rest rx delay now p w l =
    rbind (tx_pending_ack delay now w (l\<lparr> packet := None \<rparr>)) (\<lambda>(ret, l1).
      if ret then Inr (w, l1)
      else rbind (tx_first_done rx delay now p w l1) (\<lambda>(w2, l2).
           rbind (tx_retransmit rx delay now w2 l2) (\<lambda>(ret3, w3, l3).
             if ret3 then Inr (w3, l3) else tx_pending_tlp delay now w3 l3)))"

section \<open>The link\<close>

text \<open>Both interfaces of a \<open>PCIELink\<close>, numbered \<open>False\<close> and \<open>True\<close>; each is the other's
  \<open>otherLink\<close>.\<close>

record PCIELink =
  links :: "bool \<Rightarrow> Link"
  world :: World

definition new_PCIELink :: "int \<Rightarrow> u32 \<Rightarrow> u64 \<Rightarrow> PCIELink" where
  "new_PCIELink max_queue_size retry_time delay =
    \<lparr> links = (\<lambda>_. new_Link max_queue_size retry_time delay),
      world = \<lparr> next_obj = 0, freed = [] \<rparr> \<rparr>"

definition set_link :: "bool \<Rightarrow> Link \<Rightarrow> World \<Rightarrow> PCIELink \<Rightarrow> PCIELink" where
  "set_link i l w s = s\<lparr> links := (links s)(i := l), world := w \<rparr>"

definition txComplete ::
  "bool \<Rightarrow> reaction \<Rightarrow> delay_fn \<Rightarrow> u64 \<Rightarrow> bool \<Rightarrow> PCIELinkPacket \<Rightarrow> PCIELink \<Rightarrow> PCIELink outcome" where
  "txComplete accept rx delay now i p s =
    rbind (linkReceiveInterface accept rx delay now p (world s) (links s (\<not> i)))
      (\<lambda>(w, l). Inr (set_link (\<not> i) l w s))"

definition txDone ::
  "bool \<Rightarrow> reaction \<Rightarrow> delay_fn \<Rightarrow> u64 \<Rightarrow> bool \<Rightarrow> PCIELink \<Rightarrow> PCIELink outcome" where
  "txDone accept rx delay now i s =
    (let l = links s i in
     rbind (deref (packet l)) (\<lambda>p.
     rbind (if linkDelay l > 0 then
              let q = txQueue l @ [(now + linkDelay l, p)] in
              Inr (set_link i (l\<lparr> txQueue := q,
                txQueueAt := (if txQueueAt l = None then Some (fst (hd q)) else txQueueAt l) \<rparr>)
                (world s) s)
            else rbind (assert_that (txQueue l = []) ''txQueue.empty()'') (\<lambda>_.
              txComplete accept rx delay now i p s)) (\<lambda>s1.
     rbind (txDone_rest rx delay now p (world s1) (links s1 i)) (\<lambda>(w, l').
       Inr (set_link i l' w s1)))))"

definition processTxQueue ::
  "bool \<Rightarrow> reaction \<Rightarrow> delay_fn \<Rightarrow> u64 \<Rightarrow> bool \<Rightarrow> PCIELink \<Rightarrow> PCIELink outcome" where
  "processTxQueue accept rx delay now i s =
    (let l = links s i in
     case txQueue l of
       [] \<Rightarrow> Inl (Undefined ''front of an empty deque'')
     | (t, p) # rest \<Rightarrow>
         rbind (case rest of
                  [] \<Rightarrow> Inr (txQueueAt l)
                | (t', _) # _ \<Rightarrow>
                    rbind (assert_that (t' > now) ''next.first > curTick()'') (\<lambda>_.
                      schedule (txQueueAt l) t')) (\<lambda>at.
         rbind (assert_that (t = now) ''cur.first == curTick()'') (\<lambda>_.
           txComplete accept rx delay now i p
             (set_link i (l\<lparr> txQueue := rest, txQueueAt := at \<rparr>) (world s) s))))"

text \<open>The ports: a request or a response of the attached device.\<close>

definition port_recv ::
  "delay_fn \<Rightarrow> u64 \<Rightarrow> bool \<Rightarrow> bool \<Rightarrow> Packet \<Rightarrow> PCIELink \<Rightarrow> (bool \<times> PCIELink) outcome" where
  "port_recv delay now i master pkt s =
    rbind (linkTransmitInterface delay now pkt master (world s) (links s i))
      (\<lambda>(b, w, l). Inr (b, set_link i l w s))"

text \<open>What can happen: a device offers a packet, or a scheduled event runs. An event is taken
  off the schedule before its function runs; \<open>now\<close> is the tick it was scheduled for. Events
  may run in any order, which includes every order of the simulator's event queue. With the
  parameter \<open>willing\<close> the attached devices accept every packet they are given.\<close>

inductive link_step :: "bool \<Rightarrow> PCIELink \<Rightarrow> PCIELink \<Rightarrow> bool" for willing where
  offer: "port_recv delay now i master pkt s = Inr (b, s') \<Longrightarrow> link_step willing s s'"
| tx_done: "doneAt (links s i) = Some now \<Longrightarrow> (willing \<longrightarrow> accept)
    \<Longrightarrow> txDone accept rx delay now i
          (set_link i ((links s i)\<lparr> doneAt := None \<rparr>) (world s) s) = Inr s'
    \<Longrightarrow> link_step willing s s'"
| arrive: "txQueueAt (links s i) = Some now \<Longrightarrow> (willing \<longrightarrow> accept)
    \<Longrightarrow> processTxQueue accept rx delay now i
          (set_link i ((links s i)\<lparr> txQueueAt := None \<rparr>) (world s) s) = Inr s'
    \<Longrightarrow> link_step willing s s'"
| timeout: "timeoutAt (links s i) = Some now
    \<Longrightarrow> timeoutFunc delay now (world s) ((links s i)\<lparr> timeoutAt := None \<rparr>) = Inr (w, l)
    \<Longrightarrow> link_step willing s (set_link i l w s)"
| ack_timer: "ackAt (links s i) = Some now
    \<Longrightarrow> sendAck delay now (world s) ((links s i)\<lparr> ackAt := None \<rparr>) = Inr (w, l)
    \<Longrightarrow> link_step willing s (set_link i l w s)"

inductive_simps link_step_iff: "link_step willing s s'"

inductive link_reachable :: "bool \<Rightarrow> int \<Rightarrow> u32 \<Rightarrow> u64 \<Rightarrow> PCIELink \<Rightarrow> bool"
  for willing n rt d where
  start: "link_reachable willing n rt d (new_PCIELink n rt d)"
| step: "link_reachable willing n rt d s \<Longrightarrow> link_step willing s s'
    \<Longrightarrow> link_reachable willing n rt d s'"

text \<open>An explicit sequence of such events, with idle devices and one transmission delay; an
  event that is not scheduled cannot run.\<close>

datatype link_event =
    Offer bool bool u64 Packet
  | Tx_done bool bool
  | Arrive bool bool
  | Timeout bool
  | Ack_timer bool

definition idle_device :: reaction where
  "idle_device = (\<lambda>_ _. None)"

definition scheduled :: "u64 option \<Rightarrow> u64 outcome" where
  "scheduled ev = (case ev of Some t \<Rightarrow> Inr t | None \<Rightarrow> Inl (AssertFail ''event not scheduled''))"

fun run_event :: "u64 \<Rightarrow> link_event \<Rightarrow> PCIELink \<Rightarrow> PCIELink outcome" where
  "run_event dl (Offer i master now pkt) s =
    rbind (port_recv (\<lambda>_. dl) now i master pkt s) (\<lambda>(_, s'). Inr s')"
| "run_event dl (Tx_done i accept) s =
    rbind (scheduled (doneAt (links s i))) (\<lambda>now.
      txDone accept idle_device (\<lambda>_. dl) now i
        (set_link i ((links s i)\<lparr> doneAt := None \<rparr>) (world s) s))"
| "run_event dl (Arrive i accept) s =
    rbind (scheduled (txQueueAt (links s i))) (\<lambda>now.
      processTxQueue accept idle_device (\<lambda>_. dl) now i
        (set_link i ((links s i)\<lparr> txQueueAt := None \<rparr>) (world s) s))"
| "run_event dl (Timeout i) s =
    rbind (scheduled (timeoutAt (links s i))) (\<lambda>now.
    rbind (timeoutFunc (\<lambda>_. dl) now (world s) ((links s i)\<lparr> timeoutAt := None \<rparr>)) (\<lambda>(w, l).
      Inr (set_link i l w s)))"
| "run_event dl (Ack_timer i) s =
    rbind (scheduled (ackAt (links s i))) (\<lambda>now.
    rbind (sendAck (\<lambda>_. dl) now (world s) ((links s i)\<lparr> ackAt := None \<rparr>)) (\<lambda>(w, l).
      Inr (set_link i l w s)))"

fun run_events :: "u64 \<Rightarrow> link_event list \<Rightarrow> PCIELink \<Rightarrow> PCIELink outcome" where
  "run_events dl [] s = Inr s"
| "run_events dl (ev # evs) s = rbind (run_event dl ev s) (run_events dl evs)"

fun event_willing :: "link_event \<Rightarrow> bool" where
  "event_willing (Tx_done i accept) = accept"
| "event_willing (Arrive i accept) = accept"
| "event_willing _ = True"

lemma scheduled_iff [simp]: "scheduled ev = Inr t \<longleftrightarrow> ev = Some t"
  by (simp add: scheduled_def split: option.splits)

lemma run_event_step:
  assumes "run_event dl ev s = Inr s'" "willing \<longrightarrow> event_willing ev"
  shows "link_step willing s s'"
  using assms
  by (cases ev) (auto intro: link_step.offer link_step.tx_done link_step.arrive link_step.timeout
      link_step.ack_timer)

lemma run_events_reachable_from:
  assumes "run_events dl evs s = Inr s'" "willing \<longrightarrow> (\<forall>ev \<in> set evs. event_willing ev)"
    and "link_reachable willing n rt d s"
  shows "link_reachable willing n rt d s'"
  using assms
proof (induction evs arbitrary: s)
  case (Cons ev evs)
  then obtain s1 where "run_event dl ev s = Inr s1" "run_events dl evs s1 = Inr s'" by auto
  with Cons show ?case by (auto intro: link_reachable.step dest: run_event_step)
qed simp

lemmas run_events_reachable = run_events_reachable_from[OF _ _ link_reachable.start]

end
