(* ===== verification/PcieLinkProps.thy ===== *)
theory PcieLinkProps
  imports PcieLink "HOL-Library.Sublist"
begin

text \<open>
  Safety of the PCI Express link: whatever the devices offer, accept and refuse, whenever the
  events run and however long transmissions take, each side hands its device a prefix of what
  the other side took from its own device, in order and without repetition. The replay buffer
  enters only through the laws of a bounded queue.
\<close>

section \<open>What an interface holds\<close>

definition held :: "Link \<Rightarrow> PCIELinkPacket set" where
  "held l = set_option (packet l) \<union> snd ` set (txQueue l) \<union> set (rb_elems (buffer l))
    \<union> set_option (replayPacket l) \<union> set_option (replayDLLP l)"

text \<open>A transaction packet carries the accepted packet its sequence number stands for.\<close>

definition tlp_ok :: "Packet list \<Rightarrow> PCIELinkPacket \<Rightarrow> bool" where
  "tlp_ok acc p = (isTLP p \<longrightarrow>
    (\<exists>k < length acc. lp_seqNum p = of_nat k \<and> lp_pkt p = Some (acc ! k)))"

definition link_ok :: "Link \<Rightarrow> bool" where
  "link_ok l = (rb_inv (buffer l) \<and> sendSeqNum l = of_nat (length (gh_accepted l))
    \<and> (\<forall>p \<in> held l. tlp_ok (gh_accepted l) p))"

lemma tlp_ok_mono: "tlp_ok acc p \<Longrightarrow> tlp_ok (acc @ ys) p"
  by (auto simp: tlp_ok_def nth_append)

lemma tlp_ok_ack [simp]: "tlp_ok acc (new_Ack n s)"
  by (simp add: tlp_ok_def new_Ack_def)

lemma tlp_ok_new: "tlp_ok (acc @ [pkt]) (new_TLP n pkt (of_nat (length acc)))"
  by (auto simp: tlp_ok_def new_TLP_def)

lemma link_okD:
  assumes "link_ok l"
  shows "rb_inv (buffer l)"
    and "packet l = Some p \<Longrightarrow> tlp_ok (gh_accepted l) p"
    and "replayPacket l = Some p \<Longrightarrow> tlp_ok (gh_accepted l) p"
    and "replayDLLP l = Some p \<Longrightarrow> tlp_ok (gh_accepted l) p"
    and "p \<in> set (rb_elems (buffer l)) \<Longrightarrow> tlp_ok (gh_accepted l) p"
    and "(t, p) \<in> set (txQueue l) \<Longrightarrow> tlp_ok (gh_accepted l) p"
  using assms by (force simp: link_ok_def held_def)+

text \<open>An interface that sends and stores keeps its invariant and what it has received; the
  packets it has accepted only grow.\<close>

definition evolves :: "Link \<Rightarrow> Link \<Rightarrow> bool" where
  "evolves l l' = (link_ok l \<and> link_ok l' \<and> recvSeqNum l' = recvSeqNum l
    \<and> gh_delivered l' = gh_delivered l \<and> (\<exists>ys. gh_accepted l' = gh_accepted l @ ys))"

lemma evolves_refl: "link_ok l \<Longrightarrow> evolves l l"
  by (auto simp: evolves_def)

lemma evolves_trans [trans]: "evolves a b \<Longrightarrow> evolves b c \<Longrightarrow> evolves a c"
  by (auto simp: evolves_def)

lemma evolves_ok: "evolves l l' \<Longrightarrow> link_ok l'"
  by (simp add: evolves_def)

lemma evolvesI:
  assumes "link_ok l" "rb_inv (buffer l')"
    and "held l' \<subseteq> held l \<union> Collect (tlp_ok (gh_accepted l))"
    and "sendSeqNum l' = sendSeqNum l" "recvSeqNum l' = recvSeqNum l"
    and "gh_delivered l' = gh_delivered l" "gh_accepted l' = gh_accepted l"
  shows "evolves l l'"
  using assms unfolding evolves_def link_ok_def by auto

section \<open>Sending\<close>

lemma transmitE:
  assumes "transmit delay now p w l = Inr (b, l')"
  obtains "\<not> b" "l' = l"
  | t where "b" "packet l = None" "l' = l\<lparr> packet := Some p, doneAt := t \<rparr>"
  using assms by (auto simp: transmit_def schedule_def deref_link_def busy_def split: if_splits)

lemma transmit_evolves:
  assumes "link_ok l" "transmit delay now p w l = Inr (b, l')" "tlp_ok (gh_accepted l) p"
  shows "evolves l l'"
  using assms(2)
proof (cases rule: transmitE)
  case 1
  then show ?thesis using assms(1) by (simp add: evolves_refl)
next
  case (2 t)
  then show ?thesis
    using assms(1,3) by (intro evolvesI) (auto simp: held_def dest: link_okD)
qed

lemma linkTransmitInterface_evolves:
  assumes "link_ok l" "linkTransmitInterface delay now pkt master w l = Inr (b, w', l')"
  shows "evolves l l'"
proof (cases "replayPacket l \<noteq> None \<or> rb_size (buffer l) \<ge> maxQueueSize l \<or> retransmit l")
  case True
  then have "l' = (if \<not> master then l\<lparr> retryReq := True \<rparr> else l\<lparr> retryResp := True \<rparr>)"
    using assms(2) by (auto simp: linkTransmitInterface_def)
  then show ?thesis
    using assms(1) by (intro evolvesI) (auto simp: held_def dest: link_okD)
next
  case False
  let ?p = "new_TLP (next_obj w) pkt (sendSeqNum l)"
  from False assms(2) obtain c l1 where
    t: "transmit delay now ?p (w\<lparr> next_obj := next_obj w + 1 \<rparr>) (l\<lparr> replayPacket := Some ?p \<rparr>)
      = Inr (c, l1)"
    and l': "l' = l1\<lparr> sendSeqNum := sendSeqNum l1 + 1, gh_accepted := gh_accepted l1 @ [pkt] \<rparr>"
    by (auto simp: linkTransmitInterface_def Let_def)
  have "tlp_ok (gh_accepted l @ [pkt]) q" if "q \<in> insert ?p (held l)" for q
    using that assms(1) by (auto simp: link_ok_def tlp_ok_new intro: tlp_ok_mono)
  moreover have l1: "held l1 \<subseteq> insert ?p (held l)" "buffer l1 = buffer l"
    "sendSeqNum l1 = sendSeqNum l" "recvSeqNum l1 = recvSeqNum l"
    "gh_delivered l1 = gh_delivered l" "gh_accepted l1 = gh_accepted l"
    using t by (cases rule: transmitE; auto simp: held_def)+
  moreover have "held l' = held l1" "buffer l' = buffer l1" by (simp_all add: l' held_def)
  ultimately have "link_ok l'"
    using assms(1) unfolding link_ok_def by (auto simp: l')
  then show ?thesis
    using l1 assms(1) by (simp add: evolves_def l')
qed

lemma react_evolves:
  "link_ok l \<Longrightarrow> react rx delay now master w l = Inr (w', l') \<Longrightarrow> evolves l l'"
  by (auto simp: react_def evolves_refl dest: linkTransmitInterface_evolves
      split: option.splits)

lemma evolves_flags:
  assumes "link_ok l"
  shows "evolves l (l\<lparr> retryReq := b \<rparr>)" "evolves l (l\<lparr> retryResp := b \<rparr>)"
    "evolves l (l\<lparr> retransmitIdx := i \<rparr>)" "evolves l (l\<lparr> retransmitIdx := i, retransmit := b \<rparr>)"
    "evolves l (l\<lparr> retransmit := b, retransmitIdx := i \<rparr>)"
    "evolves l (l\<lparr> timeoutAt := t \<rparr>)" "evolves l (l\<lparr> doneAt := t \<rparr>)"
    "evolves l (l\<lparr> txQueueAt := t \<rparr>)" "evolves l (l\<lparr> ackAt := t \<rparr>)"
    "evolves l (l\<lparr> lastAcked := x, ackAt := t \<rparr>)"
    "evolves l (l\<lparr> packet := None \<rparr>)" "evolves l (l\<lparr> replayDLLP := None \<rparr>)"
  using assms by (intro evolvesI; force simp: held_def dest: link_okD)+

lemma send_retries_evolves:
  assumes "link_ok l" "send_retries rx delay now w l = Inr (w', l')"
  shows "evolves l l'"
proof -
  obtain w1 l1 where
    1: "(if retryReq l then react rx delay now False w (l\<lparr> retryReq := False \<rparr>) else Inr (w, l))
      = Inr (w1, l1)"
    and 2: "(if retryResp l1 then react rx delay now True w1 (l1\<lparr> retryResp := False \<rparr>)
      else Inr (w1, l1)) = Inr (w', l')"
    using assms(2) by (auto simp: send_retries_def)
  have e1: "evolves l l1"
    using 1 assms(1) evolves_trans[OF evolves_flags(1) react_evolves[OF evolves_ok[OF evolves_flags(1)]]]
    by (cases "retryReq l") (auto simp: evolves_refl)
  then have "link_ok l1" by (rule evolves_ok)
  then have "evolves l1 l'"
    using 2 evolves_trans[OF evolves_flags(2) react_evolves[OF evolves_ok[OF evolves_flags(2)]]]
    by (cases "retryResp l1") (auto simp: evolves_refl)
  with e1 show ?thesis by (rule evolves_trans)
qed

section \<open>Acknowledgements\<close>

lemma rb_elems_pop_subset: "rb_inv b \<Longrightarrow> set (rb_elems (popFront b)) \<subseteq> set (rb_elems b)"
  using replay.set_elems_pops[of b 1] by simp

lemma rb_inv_front:
  assumes "rb_inv b"
  shows "\<exists>xs. rqueue b = (case rb_elems b of [] \<Rightarrow> None | p # _ \<Rightarrow> Some p) # xs"
proof -
  from assms obtain ys n where q: "rqueue b = map Some ys @ replicate n None"
    "length ys + n = nat (maximumSize b)" "maximumSize b > 0"
    by (auto simp: rb_inv_iff)
  then obtain m where "ys = [] \<Longrightarrow> n = Suc m" by (cases n) (auto, force)
  with q(1) rb_elems_shape[OF q(1)] show ?thesis by (cases ys) simp_all
qed

lemma ack_loop_shrinks:
  assumes "ack_loop s b w = Inr (pending, b', w')" "rb_inv b"
  shows "rb_inv b' \<and> set (rb_elems b') \<subseteq> set (rb_elems b)"
  using assms
proof (induction s b w rule: ack_loop.induct)
  case (1 s b w)
  show ?case
  proof (cases "rqueue b")
    case (Cons x xs)
    show ?thesis
    proof (cases x)
      case (Some p)
      show ?thesis
      proof (cases "lp_seqNum p \<le> s")
        case True
        then have "ack_loop s (popFront b) (delete_link p w) = Inr (pending, b', w')"
          using 1(2) Cons Some by (subst (asm) ack_loop.simps) simp
        with 1(1)[OF Cons Some True] 1(3) show ?thesis
          using rb_elems_pop_subset replay.inv_pop by blast
      qed (use 1(2,3) Cons Some in \<open>auto simp: ack_loop.simps[of s b w]\<close>)
    qed (use 1(2,3) Cons in \<open>auto simp: ack_loop.simps[of s b w]\<close>)
  qed (use 1(2,3) in \<open>auto simp: ack_loop.simps[of s b w]\<close>)
qed

lemma ack_loop_result:
  assumes "rb_inv b"
  shows "\<exists>b'. ack_loop s b w = Inr (rb_elems b' \<noteq> [], b',
      w\<lparr> freed := rev (map lp_obj (takeWhile (\<lambda>p. lp_seqNum p \<le> s) (rb_elems b))) @ freed w \<rparr>)
    \<and> rb_inv b' \<and> rb_elems b' = dropWhile (\<lambda>p. lp_seqNum p \<le> s) (rb_elems b)"
  using assms
proof (induction s b w rule: ack_loop.induct)
  case (1 s b w)
  show ?case
  proof (cases "rb_elems b")
    case Nil
    with rb_inv_front[OF 1(2)] obtain xs where q: "rqueue b = None # xs" by auto
    then show ?thesis
      using 1(2) Nil by (simp add: ack_loop.simps[of s b w])
  next
    case (Cons p ps)
    with rb_inv_front[OF 1(2)] obtain xs where q: "rqueue b = Some p # xs" by auto
    have e: "rb_elems (popFront b) = ps" using replay.elems_pop[OF 1(2)] Cons by simp
    show ?thesis
    proof (cases "lp_seqNum p \<le> s")
      case True
      then have "ack_loop s b w = ack_loop s (popFront b) (delete_link p w)"
        using q by (simp add: ack_loop.simps[of s b w])
      with 1(1)[OF q refl True replay.inv_pop[OF 1(2)]] True show ?thesis
        unfolding e Cons by (auto simp: delete_link_def)
    qed (use q Cons 1(2) in \<open>simp add: ack_loop.simps[of s b w]\<close>)
  qed
qed

lemma recv_Ack_evolves:
  assumes "link_ok l" "recv_Ack rx delay now p w l = Inr (w', l')"
  shows "evolves l l'"
proof -
  obtain s pending b w1 t where a: "ack_loop s (buffer l) w = Inr (pending, b, w1)"
    and r: "send_retries rx delay now (delete_link p w1) (l\<lparr> buffer := b, timeoutAt := t \<rparr>)
      = Inr (w', l')"
    using assms(2) by (auto simp: recv_Ack_def)
  have e: "evolves l (l\<lparr> buffer := b, timeoutAt := t \<rparr>)"
    using ack_loop_shrinks[OF a] assms(1)
    by (intro evolvesI) (auto simp: held_def dest: link_okD)
  from this send_retries_evolves[OF evolves_ok[OF e] r] show ?thesis by (rule evolves_trans)
qed

lemma store_ack_evolves:
  assumes "link_ok l" "tlp_ok (gh_accepted l) a"
  shows "evolves l (l\<lparr> replayDLLP := Some a \<rparr>)"
    "evolves l (l\<lparr> replayDLLP := Some a, lastAcked := x, ackAt := y \<rparr>)"
  using assms by (intro evolvesI; auto simp: held_def dest: link_okD)+

lemma ack_received_evolves:
  assumes "link_ok l" "ack_received delay now w l = Inr (w', l')"
  shows "evolves l l'"
proof (cases "ackAt l = None")
  case True
  let ?a = "new_Ack (next_obj w) (recvSeqNum l - 1)"
  obtain sent l1 where t: "transmit delay now ?a (w\<lparr> next_obj := next_obj w + 1 \<rparr>) l = Inr (sent, l1)"
    and l': "l' = l1 \<or> (\<exists>x y. l' = l1\<lparr> replayDLLP := Some ?a, lastAcked := x, ackAt := y \<rparr>)"
    using assms(2) True by (auto simp: ack_received_def Let_def split: if_splits)
  have 1: "evolves l l1" using transmit_evolves[OF assms(1) t] by simp
  have "evolves l1 l'"
    using l' store_ack_evolves(2)[OF evolves_ok[OF 1], of ?a] evolves_refl[OF evolves_ok[OF 1]]
    by auto
  with 1 show ?thesis by (rule evolves_trans)
qed (use assms in \<open>auto simp: ack_received_def evolves_refl\<close>)

section \<open>Timers and completion of a transmission\<close>

lemma rb_front_held: "rb_front b = Inr (Some p) \<Longrightarrow> p \<in> set (rb_elems b)"
  by (force simp: rb_elems_def split: list.splits)

lemma rb_get_held: "rb_get i b = Inr (Some p) \<Longrightarrow> p \<in> set (rb_elems b)"
  by (force simp: rb_get_def rb_elems_def image_iff split: if_splits dest: nth_mem)

lemma timeoutFunc_evolves:
  assumes "link_ok l" "timeoutFunc delay now w l = Inr (w', l')"
  shows "evolves l l'"
proof (cases "l' = l")
  case False
  then obtain p b l1 where f: "rb_front (buffer l) = Inr (Some p)"
    and t: "transmit delay now p w l = Inr (b, l1)"
    and l': "l' = l1\<lparr> retransmit := True, retransmitIdx := (if b then 1 else 0) \<rparr>"
    using assms(2) by (auto simp: timeoutFunc_def split: if_splits)
  have "evolves l l1"
    using transmit_evolves[OF assms(1) t] rb_front_held[OF f] assms(1) by (auto dest: link_okD)
  then show ?thesis
    unfolding l' using evolves_trans evolves_flags(5) evolves_ok by blast
qed (use assms(1) in \<open>simp add: evolves_refl\<close>)

lemma sendAck_evolves:
  assumes "link_ok l" "sendAck delay now w l = Inr (w', l')"
  shows "evolves l l'"
proof (cases "lastAcked l = recvSeqNum l - 1")
  case False
  let ?a = "new_Ack (next_obj w) (recvSeqNum l - 1)"
  obtain x y b l1 where
    t: "transmit delay now ?a (w\<lparr> next_obj := next_obj w + 1 \<rparr>)
        (l\<lparr> lastAcked := x, ackAt := y \<rparr>) = Inr (b, l1)"
    and l': "l' = l1 \<or> l' = l1\<lparr> replayDLLP := Some ?a \<rparr>"
    using assms(2) False by (auto simp: sendAck_def Let_def)
  have e0: "evolves l (l\<lparr> lastAcked := x, ackAt := y \<rparr>)" using assms(1) by (rule evolves_flags)
  have e1: "evolves l l1"
    using transmit_evolves[OF evolves_ok[OF e0] t] e0 by (auto intro: evolves_trans)
  then show ?thesis
    using l' store_ack_evolves(1)[OF evolves_ok[OF e1], of ?a] by (auto intro: evolves_trans)
qed (use assms in \<open>simp add: sendAck_def evolves_refl\<close>)

lemma tx_pending_ack_evolves:
  assumes "link_ok l" "tx_pending_ack delay now w l = Inr (r, l')"
  shows "evolves l l'"
proof (cases "replayDLLP l")
  case (Some a)
  then obtain b l1 where t: "transmit delay now a w l = Inr (b, l1)"
    and l': "l' = l1 \<or> l' = l1\<lparr> replayDLLP := None \<rparr>"
    using assms(2) by (auto simp: tx_pending_ack_def split: if_splits)
  have e: "evolves l l1"
    using transmit_evolves[OF assms(1) t] link_okD(4)[OF assms(1) Some] by blast
  then show ?thesis
    using l' evolves_trans[OF e evolves_flags(12)[OF evolves_ok[OF e]]] by auto
qed (use assms in \<open>simp add: tx_pending_ack_def evolves_refl\<close>)

lemma tx_first_done_evolves:
  assumes "link_ok l" "tx_first_done rx delay now p w l = Inr (w', l')"
    and "tlp_ok (gh_accepted l) p"
  shows "evolves l l'"
proof (cases "replayPacket l = Some p")
  case True
  then obtain t where
    r: "send_retries rx delay now w (l\<lparr> buffer := pushBack p (buffer l), replayPacket := None,
      timeoutAt := t \<rparr>) = Inr (w', l')"
    using assms(2) by (auto simp: tx_first_done_def)
  have e: "evolves l (l\<lparr> buffer := pushBack p (buffer l), replayPacket := None, timeoutAt := t \<rparr>)"
    using replay.inv_push[OF link_okD(1)[OF assms(1)], of p]
      replay.set_elems_push[OF link_okD(1)[OF assms(1)], of p] assms(1,3)
    by (intro evolvesI) (auto simp: held_def)
  from this send_retries_evolves[OF evolves_ok[OF e] r] show ?thesis by (rule evolves_trans)
next
  case False
  then have "l' = l" using assms(2) unfolding tx_first_done_def if_not_P[OF False] by simp
  then show ?thesis using assms(1) by (simp add: evolves_refl)
qed

lemma tx_retransmit_evolves:
  assumes "link_ok l" "tx_retransmit rx delay now w l = Inr (r, w', l')"
  shows "evolves l l'"
proof (cases "retransmit l")
  case True
  define l1 where "l1 = (if timeoutAt l = None
    then l\<lparr> timeoutAt := Some (now + ucast (retryTime l)) \<rparr> else l)"
  have e1: "evolves l l1"
    using assms(1) evolves_flags(6) evolves_refl by (simp add: l1_def)
  note ok1 = evolves_ok[OF e1]
  show ?thesis
  proof (cases "retransmitIdx l1 \<ge> rb_size (buffer l1)")
    case True
    then have s: "send_retries rx delay now w (l1\<lparr> retransmitIdx := 0, retransmit := False \<rparr>)
        = Inr (w', l')"
      using assms(2) \<open>retransmit l\<close> by (auto simp: tx_retransmit_def l1_def Let_def)
    have e2: "evolves l1 (l1\<lparr> retransmitIdx := 0, retransmit := False \<rparr>)"
      using ok1 by (rule evolves_flags)
    from e1 e2 send_retries_evolves[OF evolves_ok[OF e2] s] show ?thesis
      using evolves_trans by blast
  next
    case False
    then obtain po b l2 where g: "rb_get (retransmitIdx l1) (buffer l1) = Inr po"
      and t: "(if busy l1 then Inr (False, l1)
               else rbind (deref po) (\<lambda>p. transmit delay now p w l1)) = Inr (b, l2)"
      and l': "l' = l2\<lparr> retransmitIdx := retransmitIdx l2 + 1 \<rparr>"
      using assms(2) \<open>retransmit l\<close> unfolding tx_retransmit_def Let_def l1_def[symmetric]
      by auto
    have e2: "evolves l1 l2"
    proof (cases "busy l1")
      case False
      with t obtain p where p: "po = Some p" "transmit delay now p w l1 = Inr (b, l2)" by auto
      then show ?thesis
        using transmit_evolves[OF ok1 p(2)] rb_get_held g link_okD(5)[OF ok1] by auto
    qed (use t ok1 in \<open>simp add: evolves_refl\<close>)
    from e1 e2 evolves_flags(3)[OF evolves_ok[OF e2]] show ?thesis
      unfolding l' using evolves_trans by blast
  qed
qed (use assms in \<open>simp add: tx_retransmit_def evolves_refl\<close>)

lemma tx_pending_tlp_evolves:
  assumes "link_ok l" "tx_pending_tlp delay now w l = Inr (w', l')"
  shows "evolves l l'"
proof (cases "replayPacket l")
  case (Some p)
  then obtain b where "transmit delay now p w l = Inr (b, l')"
    using assms(2) by (auto simp: tx_pending_tlp_def)
  from transmit_evolves[OF assms(1) this] link_okD(3)[OF assms(1) Some] show ?thesis by blast
qed (use assms in \<open>simp add: tx_pending_tlp_def evolves_refl\<close>)

lemma txDone_rest_evolves:
  assumes "link_ok l" "txDone_rest rx delay now p w l = Inr (w', l')"
    and "tlp_ok (gh_accepted l) p"
  shows "evolves l l'"
proof -
  obtain r l1 where 1: "tx_pending_ack delay now w (l\<lparr> packet := None \<rparr>) = Inr (r, l1)"
    using assms(2) by (auto simp: txDone_rest_def)
  note e0 = evolves_flags(11)[OF assms(1)]
  have e1: "evolves l l1"
    using evolves_trans[OF e0 tx_pending_ack_evolves[OF evolves_ok[OF e0] 1]] .
  have p1: "tlp_ok (gh_accepted l1) p"
    using assms(3) e1 by (auto simp: evolves_def intro: tlp_ok_mono)
  show ?thesis
  proof (cases r)
    case False
    then obtain w2 l2 r3 w3 l3 where 2: "tx_first_done rx delay now p w l1 = Inr (w2, l2)"
      and 3: "tx_retransmit rx delay now w2 l2 = Inr (r3, w3, l3)"
      and 4: "(if r3 then Inr (w3, l3) else tx_pending_tlp delay now w3 l3) = Inr (w', l')"
      using assms(2) 1 by (auto simp: txDone_rest_def)
    note e2 = evolves_trans[OF e1 tx_first_done_evolves[OF evolves_ok[OF e1] 2 p1]]
    note e3 = evolves_trans[OF e2 tx_retransmit_evolves[OF evolves_ok[OF e2] 3]]
    show ?thesis
      using 4 e3 tx_pending_tlp_evolves[OF evolves_ok[OF e3]] evolves_trans
      by (cases r3) auto
  qed (use assms 1 e1 in \<open>simp add: txDone_rest_def\<close>)
qed

section \<open>Receiving\<close>

text \<open>What an interface handed to its device, against what the other side accepted.\<close>

definition recv_ok :: "Packet list \<Rightarrow> Link \<Rightarrow> bool" where
  "recv_ok acc l = (recvSeqNum l = of_nat (length (gh_delivered l))
    \<and> prefix (gh_delivered l) acc)"

lemma recv_ok_mono: "recv_ok acc l \<Longrightarrow> recv_ok (acc @ ys) l"
  by (simp add: recv_ok_def prefix_prefix)

lemma recv_ok_evolves: "recv_ok acc l \<Longrightarrow> evolves l l' \<Longrightarrow> recv_ok acc l'"
  by (simp add: recv_ok_def evolves_def)

text \<open>A number stands for one position as long as fewer than 2 to the 64 packets were accepted.\<close>

lemma next_delivered:
  assumes "recv_ok acc l" "length acc < 2 ^ 64" "tlp_ok acc p" "isTLP p"
    and "lp_seqNum p = recvSeqNum l"
  shows "length (gh_delivered l) < length acc"
    and "lp_pkt p = Some (acc ! length (gh_delivered l))"
proof -
  obtain k where k: "k < length acc" "lp_seqNum p = of_nat k" "lp_pkt p = Some (acc ! k)"
    using assms(3,4) by (auto simp: tlp_ok_def)
  have "length (gh_delivered l) \<le> length acc"
    using assms(1) by (auto simp: recv_ok_def dest: prefix_length_le)
  moreover have "(of_nat k :: u64) = of_nat (length (gh_delivered l))"
    using assms(1,5) k(2) by (simp add: recv_ok_def)
  ultimately have "k = length (gh_delivered l)"
    using k(1) assms(2) by (intro of_nat_u64_inj) simp_all
  with k show "length (gh_delivered l) < length acc"
    "lp_pkt p = Some (acc ! length (gh_delivered l))" by auto
qed

lemma prefix_snoc_nth:
  "prefix xs ys \<Longrightarrow> length xs < length ys \<Longrightarrow> prefix (xs @ [ys ! length xs]) ys"
  by (auto simp: prefix_def nth_append neq_Nil_conv)

lemma deliver_ok:
  assumes "link_ok l" "recv_ok acc l" "length acc < 2 ^ 64" "tlp_ok acc p" "isTLP p"
    and "lp_seqNum p = recvSeqNum l" "lp_pkt p = Some pkt"
  shows "recv_ok acc (l\<lparr> recvSeqNum := recvSeqNum l + 1,
    gh_delivered := gh_delivered l @ [pkt] \<rparr>)"
  using next_delivered[OF assms(2-6)] assms(2,7) prefix_snoc_nth[of "gh_delivered l" acc]
  by (auto simp: recv_ok_def)

lemma link_ok_deliver:
  "link_ok l \<Longrightarrow> link_ok (l\<lparr> recvSeqNum := n, gh_delivered := d \<rparr>)"
  by (simp add: link_ok_def held_def)

text \<open>The interface after a reception: its own invariant, its accepted packets, and what it
  delivered against any list that explains the received packet.\<close>

definition received :: "Packet list \<Rightarrow> Link \<Rightarrow> Link \<Rightarrow> bool" where
  "received acc l l' = (link_ok l' \<and> (\<exists>ys. gh_accepted l' = gh_accepted l @ ys)
    \<and> (length acc < 2 ^ 64 \<longrightarrow> recv_ok acc l \<longrightarrow> recv_ok acc l'))"

lemma received_evolves: "evolves l l' \<Longrightarrow> received acc l l'"
  using recv_ok_evolves by (auto simp: received_def evolves_def)

lemma recv_TLP_received:
  assumes "link_ok l" "recv_TLP accept delay now p w l = Inr (w', l')" "tlp_ok acc p" "isTLP p"
  shows "received acc l l'"
proof (cases "lp_seqNum p = recvSeqNum l \<and> accept")
  case True
  then obtain pkt where pkt: "lp_pkt p = Some pkt"
    and a: "ack_received delay now w (l\<lparr> recvSeqNum := recvSeqNum l + 1,
      gh_delivered := gh_delivered l @ [pkt] \<rparr>) = Inr (w', l')"
    using assms(2) by (auto simp: recv_TLP_def)
  note e = ack_received_evolves[OF link_ok_deliver[OF assms(1)] a]
  have "recv_ok acc l'" if "length acc < 2 ^ 64" "recv_ok acc l"
    using recv_ok_evolves[OF deliver_ok[OF assms(1) that(2,1) assms(3,4) _ pkt] e] True by simp
  then show ?thesis using e by (simp add: received_def evolves_def)
next
  case False
  then have "l' = l \<or> ack_received delay now w l = Inr (w', l')"
    using assms(2) by (auto simp: recv_TLP_def split: if_splits)
  then show ?thesis
    using ack_received_evolves[OF assms(1)] evolves_refl[OF assms(1)] received_evolves by blast
qed

lemma linkReceiveInterface_received:
  assumes "link_ok l" "linkReceiveInterface accept rx delay now p w l = Inr (w', l')" "tlp_ok acc p"
  shows "received acc l l'"
proof -
  consider "isTLP p" "recv_TLP accept delay now p w l = Inr (w', l')"
    | "recv_Ack rx delay now p w l = Inr (w', l')" | "l' = l"
    using assms(2) by (auto simp: linkReceiveInterface_def deref_link_def split: if_splits)
  then show ?thesis
  proof cases
    case 1
    with assms show ?thesis by (intro recv_TLP_received)
  next
    case 2
    with assms(1) show ?thesis by (intro received_evolves recv_Ack_evolves)
  next
    case 3
    with assms(1) show ?thesis by (auto intro: received_evolves evolves_refl)
  qed
qed

section \<open>The whole link\<close>

definition sys_inv :: "PCIELink \<Rightarrow> bool" where
  "sys_inv s = (\<forall>i. link_ok (links s i) \<and> (length (gh_accepted (links s i)) < 2 ^ 64
    \<longrightarrow> recv_ok (gh_accepted (links s i)) (links s (\<not> i))))"

lemma set_link_sel [simp]:
  "links (set_link i l w s) = (links s)(i := l)" "world (set_link i l w s) = w"
  by (simp_all add: set_link_def)

text \<open>The invariant after a change, with the accepted packets growing.\<close>

definition sys_next :: "PCIELink \<Rightarrow> PCIELink \<Rightarrow> bool" where
  "sys_next s s' = (sys_inv s'
    \<and> (\<forall>i. prefix (gh_accepted (links s i)) (gh_accepted (links s' i))))"

lemma sys_next_trans [trans]: "sys_next a b \<Longrightarrow> sys_next b c \<Longrightarrow> sys_next a c"
  unfolding sys_next_def using prefix_order.order_trans by blast

lemma sys_next_inv: "sys_next s s' \<Longrightarrow> sys_inv s'"
  by (simp add: sys_next_def)

lemma sys_inv_set_link:
  assumes "sys_inv s" "received (gh_accepted (links s (\<not> i))) (links s i) l"
  shows "sys_next s (set_link i l w s)"
proof -
  obtain ys where "gh_accepted l = gh_accepted (links s i) @ ys" "link_ok l"
    using assms(2) by (auto simp: received_def)
  moreover have "recv_ok (gh_accepted (links s (\<not> i))) l"
    if "length (gh_accepted (links s (\<not> i))) < 2 ^ 64"
    using assms that unfolding sys_inv_def received_def by (cases i) auto
  moreover have "recv_ok (gh_accepted (links s i) @ ys) (links s (\<not> i))"
    if "length (gh_accepted (links s i) @ ys) < 2 ^ 64"
    using assms(1) that unfolding sys_inv_def by (auto intro!: recv_ok_mono)
  ultimately show ?thesis
    using assms(1) unfolding sys_inv_def sys_next_def by (cases i) auto
qed

lemmas sys_inv_evolves = sys_inv_set_link[OF _ received_evolves]

lemma sys_invD: "sys_inv s \<Longrightarrow> link_ok (links s i)"
  by (simp add: sys_inv_def)

lemma txComplete_inv:
  assumes "sys_inv s" "tlp_ok (gh_accepted (links s i)) p"
    and "txComplete accept rx delay now i p s = Inr s'"
  shows "sys_next s s'" "links s' i = links s i"
proof -
  obtain w l where r: "linkReceiveInterface accept rx delay now p (world s) (links s (\<not> i)) = Inr (w, l)"
    and s': "s' = set_link (\<not> i) l w s"
    using assms(3) by (auto simp: txComplete_def)
  show "sys_next s s'"
    unfolding s' using assms(1,2) linkReceiveInterface_received[OF sys_invD[OF assms(1)] r]
    by (intro sys_inv_set_link) auto
  show "links s' i = links s i" by (simp add: s')
qed

text \<open>The end of a transmission: the packet enters the wire's queue, or reaches the other side
  at once; then the interface goes on.\<close>

lemma txDoneE:
  assumes "txDone accept rx delay now i s = Inr s'"
  obtains (queued) p t w l l1 where "packet (links s i) = Some p"
      "l1 = (links s i)\<lparr> txQueue := txQueue (links s i) @ [(now + linkDelay (links s i), p)],
        txQueueAt := t \<rparr>"
      "txDone_rest rx delay now p (world s) l1 = Inr (w, l)"
      "s' = set_link i l w (set_link i l1 (world s) s)"
  | (direct) p s1 w l where "packet (links s i) = Some p" "txQueue (links s i) = []"
      "txComplete accept rx delay now i p s = Inr s1"
      "txDone_rest rx delay now p (world s1) (links s1 i) = Inr (w, l)" "s' = set_link i l w s1"
proof (cases "linkDelay (links s i) > 0")
  case True
  then show ?thesis
    using assms queued unfolding txDone_def Let_def by auto
next
  case False
  then show ?thesis
    using assms direct unfolding txDone_def Let_def by (auto split: if_splits)
qed

lemma processTxQueueE:
  assumes "processTxQueue accept rx delay now i s = Inr s'"
  obtains t p rest at where "txQueue (links s i) = (t, p) # rest"
    and "txComplete accept rx delay now i p
      (set_link i ((links s i)\<lparr> txQueue := rest, txQueueAt := at \<rparr>) (world s) s) = Inr s'"
  using assms unfolding processTxQueue_def Let_def
  by (cases "txQueue (links s i)") (auto split: if_splits)

lemma enqueue_evolves:
  assumes "link_ok l" "packet l = Some p"
  shows "evolves l (l\<lparr> txQueue := txQueue l @ [(t, p)], txQueueAt := at \<rparr>)"
  using assms by (intro evolvesI) (auto simp: held_def dest: link_okD)

lemma dequeue_evolves:
  assumes "link_ok l" "txQueue l = (t, p) # rest"
  shows "evolves l (l\<lparr> txQueue := rest, txQueueAt := at \<rparr>)"
  using assms by (intro evolvesI) (auto simp: held_def dest: link_okD)

lemma txDone_inv:
  assumes "sys_inv s" "txDone accept rx delay now i s = Inr s'"
  shows "sys_next s s'"
  using assms(2)
proof (cases rule: txDoneE)
  case (queued p t w l l1)
  note ok = sys_invD[OF assms(1), of i]
  have e: "evolves (links s i) l1" unfolding queued(2) using enqueue_evolves[OF ok queued(1)] .
  have "tlp_ok (gh_accepted l1) p" using link_okD(2)[OF ok queued(1)] by (simp add: queued(2))
  note e2 = txDone_rest_evolves[OF evolves_ok[OF e] queued(3) this]
  have 1: "sys_next s (set_link i l1 (world s) s)" using sys_inv_evolves[OF assms(1) e] .
  also have "sys_next \<dots> s'"
    unfolding queued(4) using sys_inv_evolves[OF sys_next_inv[OF 1]] e2 by simp
  finally show ?thesis .
next
  case (direct p s1 w l)
  note tp = link_okD(2)[OF sys_invD[OF assms(1)] direct(1)]
  note c = txComplete_inv[OF assms(1) tp direct(3)]
  have "sys_next s1 s'"
    unfolding direct(5) using sys_inv_evolves[OF sys_next_inv[OF c(1)]]
      txDone_rest_evolves[OF sys_invD[OF sys_next_inv[OF c(1)]] direct(4)] tp c(2) by simp
  with c(1) show ?thesis by (rule sys_next_trans)
qed

lemma processTxQueue_inv:
  assumes "sys_inv s" "processTxQueue accept rx delay now i s = Inr s'"
  shows "sys_next s s'"
  using assms(2)
proof (cases rule: processTxQueueE)
  case (1 t p rest at)
  note ok = sys_invD[OF assms(1), of i]
  note n = sys_inv_evolves[OF assms(1) dequeue_evolves[OF ok 1(1), of at], of "world s"]
  from txComplete_inv(1)[OF sys_next_inv[OF n] _ 1(2)] n show ?thesis
    using link_okD(6)[OF ok, of t p] 1(1) sys_next_trans by fastforce
qed

lemma rb_new_elems [simp]: "rb_elems (new_ReplayBuffer n) = []"
  by (simp add: rb_elems_def new_ReplayBuffer_def)

lemma rb_new_cap [simp]: "rb_cap (new_ReplayBuffer n) = nat n"
  by (simp add: rb_cap_def new_ReplayBuffer_def)

lemma rb_new_inv: "n > 0 \<Longrightarrow> rb_inv (new_ReplayBuffer n)"
  using rb_new_elems[of n] rb_new_cap[of n] by (simp add: rb_inv_def new_ReplayBuffer_def)

lemma sys_inv_start: "n > 0 \<Longrightarrow> sys_inv (new_PCIELink n rt d)"
  by (simp add: sys_inv_def new_PCIELink_def new_Link_def link_ok_def held_def recv_ok_def
      rb_new_inv)

lemma link_step_inv:
  assumes "link_step willing s s'" "sys_inv s"
  shows "sys_next s s'"
  using assms
proof (induction rule: link_step.induct)
  case (offer delay now i master pkt s b s')
  then show ?case
    using linkTransmitInterface_evolves sys_invD
    by (fastforce simp: port_recv_def intro: sys_inv_evolves)
next
  case (tx_done s i now accept rx delay s')
  then show ?case
    using txDone_inv sys_inv_evolves[OF _ evolves_flags(7)[OF sys_invD]]
    by (meson sys_next_inv sys_next_trans)
next
  case (arrive s i now accept rx delay s')
  then show ?case
    using processTxQueue_inv sys_inv_evolves[OF _ evolves_flags(8)[OF sys_invD]]
    by (meson sys_next_inv sys_next_trans)
next
  case (timeout s i now delay w l)
  note e = evolves_flags(6)[OF sys_invD[OF timeout(3), of i], of None]
  from timeout show ?case
    using evolves_trans[OF e timeoutFunc_evolves[OF evolves_ok[OF e]]] sys_inv_evolves by blast
next
  case (ack_timer s i now delay w l)
  note e = evolves_flags(9)[OF sys_invD[OF ack_timer(3), of i], of None]
  from ack_timer show ?case
    using evolves_trans[OF e sendAck_evolves[OF evolves_ok[OF e]]] sys_inv_evolves by blast
qed

lemma link_reachable_inv:
  "link_reachable willing n rt d s \<Longrightarrow> n > 0 \<Longrightarrow> sys_inv s"
  by (induction rule: link_reachable.induct) (auto simp: sys_inv_start dest: link_step_inv sys_next_inv)

section \<open>Properties\<close>

text \<open>C2: Safety of the link in every reachable state, whatever the attached devices offer and
  refuse, whatever the transmission delays and whatever is lost by a refusal and sent again:
  as long as fewer than 2 to the 64 packets were taken from a device, the packets handed to
  the device on the other side are a prefix of them, so they arrive in order and at most
  once.\<close>

theorem link_delivers_in_order:
  assumes "link_reachable willing n rt d s" "n > 0" "length (gh_accepted (links s i)) < 2 ^ 64"
  shows "prefix (gh_delivered (links s (\<not> i))) (gh_accepted (links s i))
    \<and> recvSeqNum (links s (\<not> i)) = of_nat (length (gh_delivered (links s (\<not> i))))"
  using link_reachable_inv[OF assms(1,2)] assms(3) unfolding sys_inv_def recv_ok_def by blast

text \<open>A run of the link: one packet is offered at tick 0, and its transmission is done at tick 5.\<close>

definition run_packet :: Packet where
  "run_packet = Packet_new sample_request ReadReq"

definition run_one :: "PCIELink outcome" where
  "run_one = run_events 5 [Offer False False 0 run_packet, Tx_done False True]
    (new_PCIELink 2 30 0)"

lemma run_one_reachable: "link_reachable willing 2 30 0 (projr run_one)"
proof -
  have "\<not> isl run_one" by code_simp
  then have "run_one = Inr (projr run_one)" by simp
  then show ?thesis unfolding run_one_def by (rule run_events_reachable) simp
qed

lemma run_one_result:
  "gh_accepted (links (projr run_one) False) = [run_packet]"
  "gh_delivered (links (projr run_one) True) = [run_packet]"
  by code_simp+

theorem link_delivers_in_order_witness:
  "link_reachable False 2 30 0 (projr run_one)
    \<and> gh_delivered (links (projr run_one) True) = [run_packet]
    \<and> prefix (gh_delivered (links (projr run_one) True)) (gh_accepted (links (projr run_one) False))"
  using link_delivers_in_order[OF run_one_reachable[of False], of False] run_one_reachable[of False]
    run_one_result by simp

text \<open>An acknowledgement is cumulative: the loop over a well formed replay buffer always
  ends and removes exactly the longest run of oldest packets whose numbers are at most the
  acknowledged one; each removed packet is deleted, and the loop reports whether a packet is
  left, which decides whether the replay timer is started again.\<close>

theorem ack_loop_cumulative:
  assumes "rb_inv b"
  shows "\<exists>b'. ack_loop s b w = Inr (rb_elems b' \<noteq> [], b',
      w\<lparr> freed := rev (map lp_obj (takeWhile (\<lambda>p. lp_seqNum p \<le> s) (rb_elems b))) @ freed w \<rparr>)
    \<and> rb_inv b' \<and> rb_elems b' = dropWhile (\<lambda>p. lp_seqNum p \<le> s) (rb_elems b)"
  using assms by (rule ack_loop_result)

theorem ack_loop_cumulative_witness:
  "rb_inv (pushBack (new_TLP 1 run_packet 1) (pushBack (new_TLP 0 run_packet 0) (new_ReplayBuffer 2)))
    \<and> (\<exists>b' w'. ack_loop 0 (pushBack (new_TLP 1 run_packet 1)
        (pushBack (new_TLP 0 run_packet 0) (new_ReplayBuffer 2)))
        \<lparr> next_obj = 2, freed = [] \<rparr> = Inr (True, b', w')
      \<and> rb_elems b' = [new_TLP 1 run_packet 1] \<and> freed w' = [0])"
proof -
  let ?b = "pushBack (new_TLP 1 run_packet 1) (pushBack (new_TLP 0 run_packet 0) (new_ReplayBuffer 2))"
  have i: "rb_inv ?b" using rb_new_inv[of 2] by (simp add: replay.inv_push)
  have e: "rb_elems ?b = [new_TLP 0 run_packet 0, new_TLP 1 run_packet 1]"
    using rb_new_inv[of 2] by (simp add: replay.elems_push replay.inv_push rb_new_elems
      replay.cap_push)
  show ?thesis
    using ack_loop_cumulative[OF i, of 0 "\<lparr> next_obj = 2, freed = [] \<rparr>"] i
    unfolding e by (auto simp: new_TLP_def)
qed

end
