(* ===== verification/PcieLinkReplay.thy ===== *)
theory PcieLinkReplay
  imports PcieLinkProps
begin

text \<open>
  No packet is lost on the PCI Express link as long as the attached devices accept what they
  are given: the sender keeps every accepted packet that the other side has not delivered, in
  the replay buffer or waiting to be sent. The argument needs that acknowledgements never run
  ahead of what was delivered, which in turn needs that the very first packet on the wire is
  number 0. When a device refuses the first packet this breaks: the receiver acknowledges a
  number below 0, and the sender forgets everything.
\<close>

section \<open>The sender's window and the packets on the wire\<close>

definition window :: "Link \<Rightarrow> PCIELinkPacket list" where
  "window l = rb_elems (buffer l) @ (case replayPacket l of None \<Rightarrow> [] | Some p \<Rightarrow> [p])"

definition wire :: "Link \<Rightarrow> PCIELinkPacket list" where
  "wire l = filter isTLP (map snd (txQueue l) @ (case packet l of None \<Rightarrow> [] | Some p \<Rightarrow> [p]))"

text \<open>Relative to the number \<open>m\<close> of packets the other side has delivered: the window holds the
  accepted packets from some \<open>k \<le> m\<close> on, and there is room for the one not yet stored.\<close>

definition win_ok :: "nat \<Rightarrow> Link \<Rightarrow> bool" where
  "win_ok m l = (maxQueueSize l = maximumSize (buffer l) \<and> rb_inv (buffer l)
    \<and> (replayPacket l \<noteq> None \<longrightarrow> length (rb_elems (buffer l)) < rb_cap (buffer l))
    \<and> (\<forall>p \<in> set (window l). isTLP p)
    \<and> (\<exists>k \<le> m. k \<le> length (gh_accepted l)
        \<and> map lp_seqNum (window l) = map of_nat [k..<length (gh_accepted l)]))"

text \<open>Before anything is delivered, the first packet on the wire is number 0.\<close>

definition first_ok :: "nat \<Rightarrow> Link \<Rightarrow> bool" where
  "first_ok m l = (m = 0 \<longrightarrow>
    (case wire l of [] \<Rightarrow> rb_elems (buffer l) = [] | p # _ \<Rightarrow> lp_seqNum p = 0))"

text \<open>Acknowledgements stay below what this side delivered.\<close>

definition ack_ok :: "nat \<Rightarrow> PCIELinkPacket \<Rightarrow> bool" where
  "ack_ok n p = (isDLLP p \<longrightarrow> n < 2 ^ 31 \<longrightarrow> (\<exists>a < n. lp_dllp p = Some (of_nat a)))"

definition acks_ok :: "Link \<Rightarrow> bool" where
  "acks_ok l = (recvSeqNum l = of_nat (length (gh_delivered l))
    \<and> (ackAt l \<noteq> None \<longrightarrow> gh_delivered l \<noteq> [])
    \<and> (\<forall>a. replayDLLP l = Some a \<longrightarrow> \<not> isTLP a)
    \<and> (\<forall>p \<in> held l. ack_ok (length (gh_delivered l)) p))"

definition good :: "nat \<Rightarrow> Link \<Rightarrow> bool" where
  "good m l = (win_ok m l \<and> first_ok m l \<and> acks_ok l)"

lemma first_ok_cong:
  "wire l' = wire l \<Longrightarrow> buffer l' = buffer l \<Longrightarrow> first_ok m l' = first_ok m l"
  by (auto simp: first_ok_def split: list.splits)

lemma win_ok_mono: "win_ok m l \<Longrightarrow> m \<le> m' \<Longrightarrow> win_ok m' l"
  unfolding win_ok_def by (meson order_trans)

lemma good_mono: "good m l \<Longrightarrow> m \<le> m' \<Longrightarrow> good m' l"
  by (auto simp: good_def first_ok_def intro: win_ok_mono)

lemma goodI:
  assumes "good m l" "buffer l' = buffer l" "replayPacket l' = replayPacket l"
    and "maxQueueSize l' = maxQueueSize l" "wire l' = wire l"
    and "gh_accepted l' = gh_accepted l" "gh_delivered l' = gh_delivered l"
    and "recvSeqNum l' = recvSeqNum l" "ackAt l' \<noteq> None \<longrightarrow> gh_delivered l \<noteq> []"
    and "\<forall>a. replayDLLP l' = Some a \<longrightarrow> \<not> isTLP a"
    and "\<forall>p \<in> held l'. p \<in> held l \<or> ack_ok (length (gh_delivered l)) p"
  shows "good m l'"
  using assms unfolding good_def win_ok_def first_ok_def acks_ok_def window_def by simp metis

lemma goodD:
  assumes "good m l"
  shows "rb_inv (buffer l)" "maxQueueSize l = maximumSize (buffer l)"
    and "recvSeqNum l = of_nat (length (gh_delivered l))"
    and "ackAt l \<noteq> None \<Longrightarrow> gh_delivered l \<noteq> []"
    and "replayDLLP l = Some a \<Longrightarrow> \<not> isTLP a"
    and "p \<in> held l \<Longrightarrow> ack_ok (length (gh_delivered l)) p"
    and "p \<in> set (rb_elems (buffer l)) \<Longrightarrow> isTLP p"
    and "replayPacket l = Some p \<Longrightarrow> isTLP p"
  using assms by (auto simp: good_def win_ok_def acks_ok_def window_def)

lemma good_flags:
  assumes "good m l"
  shows "good m (l\<lparr> retryReq := b \<rparr>)" "good m (l\<lparr> retryResp := b \<rparr>)"
    "good m (l\<lparr> retransmitIdx := x \<rparr>)" "good m (l\<lparr> retransmitIdx := x, retransmit := b \<rparr>)"
    "good m (l\<lparr> retransmit := b, retransmitIdx := x \<rparr>)"
    "good m (l\<lparr> timeoutAt := t \<rparr>)" "good m (l\<lparr> doneAt := t \<rparr>)" "good m (l\<lparr> txQueueAt := t \<rparr>)"
    "good m (l\<lparr> ackAt := None \<rparr>)" "good m (l\<lparr> replayDLLP := None \<rparr>)"
  using assms by (intro goodI[OF assms]; auto simp: wire_def held_def dest: goodD)+

text \<open>The only packet that can be sent onto an empty wire before anything is delivered is number
  0.\<close>

lemma replay_first:
  assumes "good 0 l" "wire l = []" "replayPacket l = Some p"
  shows "lp_seqNum p = 0"
proof -
  have "rb_elems (buffer l) = []" using assms by (simp add: good_def first_ok_def)
  then have "map of_nat [0..<length (gh_accepted l)] = [lp_seqNum p]"
    using assms by (auto simp: good_def win_ok_def window_def)
  moreover from this have "length (gh_accepted l) = 1"
    by (metis length_map length_upt diff_zero length_Cons list.size(3) One_nat_def)
  ultimately show ?thesis by simp
qed

section \<open>Sending\<close>

lemma transmit_good:
  assumes "good m l" "transmit delay now p w l = Inr (b, l')"
    and "isTLP p \<Longrightarrow> m = 0 \<Longrightarrow> wire l = [] \<Longrightarrow> lp_seqNum p = 0 \<and> rb_elems (buffer l) = []"
    and "ack_ok (length (gh_delivered l)) p"
  shows "good m l'"
  using assms(2)
proof (cases rule: transmitE)
  case 1
  then show ?thesis using assms(1) by simp
next
  case (2 t)
  have w: "wire l' = wire l @ (if isTLP p then [p] else [])"
    by (simp add: wire_def 2)
  have "first_ok m l'"
    using assms(1,3) unfolding good_def first_ok_def w
    by (cases "wire l") (auto simp: 2)
  moreover have "win_ok m l'" using assms(1) by (simp add: good_def win_ok_def window_def 2)
  moreover have "acks_ok l'"
    using assms(1,4) by (auto simp: good_def acks_ok_def held_def 2)
  ultimately show ?thesis by (simp add: good_def)
qed

lemma transmit_accepted:
  assumes "transmit delay now p w l = Inr (b, l')"
  shows "transmit delay now p w (l\<lparr> gh_accepted := a \<rparr>) = Inr (b, l'\<lparr> gh_accepted := a \<rparr>)"
    "gh_accepted l' = gh_accepted l"
proof -
  show "transmit delay now p w (l\<lparr> gh_accepted := a \<rparr>) = Inr (b, l'\<lparr> gh_accepted := a \<rparr>)"
    using assms by (cases "busy l"; cases "live p w"; cases "doneAt l")
      (auto simp: transmit_def busy_def schedule_def deref_link_def)
  show "gh_accepted l' = gh_accepted l" using assms by (cases rule: transmitE) simp_all
qed

lemma ack_ok_TLP [simp]: "ack_ok n (new_TLP obj pkt s)"
  by (simp add: ack_ok_def new_TLP_def)

lemma win_ok_accept:
  assumes "win_ok m l" "replayPacket l = None" "rb_size (buffer l) < maxQueueSize l"
  shows "win_ok m (l\<lparr> replayPacket := Some (new_TLP obj pkt (of_nat (length (gh_accepted l)))),
    gh_accepted := gh_accepted l @ [pkt] \<rparr>)"
proof -
  obtain k where "k \<le> m" "k \<le> length (gh_accepted l)"
    "map lp_seqNum (window l) = map of_nat [k..<length (gh_accepted l)]"
    using assms(1) by (auto simp: win_ok_def)
  moreover have "length (rb_elems (buffer l)) < rb_cap (buffer l)"
    using assms by (auto simp: win_ok_def rb_size_def rb_elems_def rb_cap_def)
  ultimately show ?thesis
    using assms unfolding win_ok_def by (auto simp: window_def new_TLP_def intro!: exI[of _ k])
qed

lemma linkTransmitInterface_good:
  assumes "good m l" "link_ok l" "linkTransmitInterface delay now pkt master w l = Inr (b, w', l')"
  shows "good m l'"
proof (cases "replayPacket l \<noteq> None \<or> rb_size (buffer l) \<ge> maxQueueSize l \<or> retransmit l")
  case True
  then have "l' = (if \<not> master then l\<lparr> retryReq := True \<rparr> else l\<lparr> retryResp := True \<rparr>)"
    using assms(3) by (auto simp: linkTransmitInterface_def)
  then show ?thesis using good_flags(1,2)[OF assms(1)] by simp
next
  case False
  let ?p = "new_TLP (next_obj w) pkt (of_nat (length (gh_accepted l)))"
  let ?l = "l\<lparr> replayPacket := Some ?p, gh_accepted := gh_accepted l @ [pkt] \<rparr>"
  have s: "sendSeqNum l = of_nat (length (gh_accepted l))" using assms(2) by (simp add: link_ok_def)
  from False assms(3) obtain c l1 where
    t: "transmit delay now ?p (w\<lparr> next_obj := next_obj w + 1 \<rparr>) (l\<lparr> replayPacket := Some ?p \<rparr>)
      = Inr (c, l1)"
    and l': "l' = l1\<lparr> sendSeqNum := sendSeqNum l1 + 1, gh_accepted := gh_accepted l1 @ [pkt] \<rparr>"
    by (auto simp: linkTransmitInterface_def Let_def s)
  have g: "good m ?l"
    using assms(1) False win_ok_accept[of m l] first_ok_cong[of ?l l m] unfolding good_def
    by (auto simp: acks_ok_def wire_def held_def)
  have t': "transmit delay now ?p (w\<lparr> next_obj := next_obj w + 1 \<rparr>) ?l
      = Inr (c, l1\<lparr> gh_accepted := gh_accepted l1 @ [pkt] \<rparr>)"
    using transmit_accepted(1)[OF t, of "gh_accepted l @ [pkt]"] transmit_accepted(2)[OF t]
    by simp
  have g1: "good m (l1\<lparr> gh_accepted := gh_accepted l1 @ [pkt] \<rparr>)"
  proof (rule transmit_good[OF g t'])
    assume a: "m = 0" "wire ?l = []"
    then have "rb_elems (buffer l) = []" using g by (simp add: good_def first_ok_def)
    with replay_first[of ?l] g a show "lp_seqNum ?p = 0 \<and> rb_elems (buffer ?l) = []" by simp
  qed simp
  then show ?thesis
    unfolding l' by (rule goodI) (use goodD[OF g1] in \<open>auto simp: wire_def held_def\<close>)
qed

text \<open>Both invariants of an interface together; the operations keep them.\<close>

definition sound :: "nat \<Rightarrow> Link \<Rightarrow> bool" where
  "sound m l = (link_ok l \<and> good m l)"

lemma sound_flags:
  assumes "sound m l"
  shows "sound m (l\<lparr> retryReq := b \<rparr>)" "sound m (l\<lparr> retryResp := b \<rparr>)"
    "sound m (l\<lparr> retransmitIdx := x \<rparr>)" "sound m (l\<lparr> retransmitIdx := x, retransmit := b \<rparr>)"
    "sound m (l\<lparr> retransmit := b, retransmitIdx := x \<rparr>)"
    "sound m (l\<lparr> timeoutAt := t \<rparr>)" "sound m (l\<lparr> doneAt := t \<rparr>)" "sound m (l\<lparr> txQueueAt := t \<rparr>)"
    "sound m (l\<lparr> ackAt := None \<rparr>)" "sound m (l\<lparr> replayDLLP := None \<rparr>)"
  using assms evolves_ok[OF evolves_flags(1)] evolves_ok[OF evolves_flags(2)]
    evolves_ok[OF evolves_flags(3)] evolves_ok[OF evolves_flags(4)] evolves_ok[OF evolves_flags(5)]
    evolves_ok[OF evolves_flags(6)] evolves_ok[OF evolves_flags(7)] evolves_ok[OF evolves_flags(8)]
    evolves_ok[OF evolves_flags(9)] evolves_ok[OF evolves_flags(12)] good_flags
  by (simp_all add: sound_def)

lemma react_sound:
  assumes "sound m l" "react rx delay now master w l = Inr (w', l')"
  shows "sound m l'"
  using assms react_evolves[of l rx delay now master w w' l'] linkTransmitInterface_good
  by (auto simp: sound_def react_def evolves_def split: option.splits)

lemma send_retries_sound:
  assumes "sound m l" "send_retries rx delay now w l = Inr (w', l')"
  shows "sound m l'"
proof -
  obtain w1 l1 where
    1: "(if retryReq l then react rx delay now False w (l\<lparr> retryReq := False \<rparr>) else Inr (w, l))
      = Inr (w1, l1)"
    and 2: "(if retryResp l1 then react rx delay now True w1 (l1\<lparr> retryResp := False \<rparr>)
      else Inr (w1, l1)) = Inr (w', l')"
    using assms(2) by (auto simp: send_retries_def)
  have "sound m l1"
    using 1 assms(1) react_sound[OF sound_flags(1)] by (cases "retryReq l") auto
  then show ?thesis
    using 2 react_sound[OF sound_flags(2)] by (cases "retryResp l1") auto
qed

lemma transmit_sound:
  assumes "sound m l" "transmit delay now p w l = Inr (b, l')" "tlp_ok (gh_accepted l) p"
    and "isTLP p \<Longrightarrow> m = 0 \<Longrightarrow> wire l = [] \<Longrightarrow> lp_seqNum p = 0 \<and> rb_elems (buffer l) = []"
    and "ack_ok (length (gh_delivered l)) p"
  shows "sound m l'"
  using assms transmit_good transmit_evolves evolves_ok unfolding sound_def by blast

text \<open>A packet of the replay buffer may always be sent again, and the waiting packet sent.\<close>

lemma transmit_held_sound:
  assumes "sound m l" "transmit delay now p w l = Inr (b, l')"
    and "p \<in> set (rb_elems (buffer l)) \<or> replayPacket l = Some p"
  shows "sound m l'"
proof (rule transmit_sound[OF assms(1,2)])
  have ok: "link_ok l" and g: "good m l" using assms(1) by (simp_all add: sound_def)
  show "tlp_ok (gh_accepted l) p" using assms(3) link_okD(3,5)[OF ok] by blast
  show "ack_ok (length (gh_delivered l)) p"
    using assms(3) goodD(6)[OF g] by (auto simp: held_def)
  assume "m = 0" "wire l = []"
  with g have "rb_elems (buffer l) = []" by (simp add: good_def first_ok_def)
  with assms(3) replay_first[of l p] g \<open>m = 0\<close> \<open>wire l = []\<close>
  show "lp_seqNum p = 0 \<and> rb_elems (buffer l) = []" by auto
qed

section \<open>Acknowledgements\<close>

text \<open>An acknowledgement of the last packet delivered, as long as numbers fit 31 bits.\<close>

lemma DataLinkPacket_seqNum_small:
  assumes "a < 2 ^ 31"
  shows "DataLinkPacket_seqNum (of_nat a) = of_nat a"
  using assms unfolding DataLinkPacket_seqNum_def unsigned_of_nat signed_of_nat
  by (simp add: take_bit_nat_eq_self signed_take_bit_int_eq_self)

lemma ack_ok_new:
  assumes "acks_ok l" "gh_delivered l \<noteq> []"
  shows "ack_ok (length (gh_delivered l)) (new_Ack n (recvSeqNum l - 1))"
proof -
  obtain a where a: "length (gh_delivered l) = Suc a"
    using assms(2) by (cases "gh_delivered l") auto
  then have "recvSeqNum l - 1 = of_nat a" using assms(1) by (simp add: acks_ok_def)
  then show ?thesis
    unfolding ack_ok_def using a DataLinkPacket_seqNum_small[of a] by (auto simp: new_Ack_def)
qed

lemma not_TLP_ack [simp]: "\<not> isTLP (new_Ack n s)"
  by (simp add: new_Ack_def)

lemma transmit_ack_sound:
  assumes "sound m l" "gh_delivered l \<noteq> []"
    and "transmit delay now (new_Ack n (recvSeqNum l - 1)) w l = Inr (b, l')"
  shows "sound m l' \<and> gh_delivered l' = gh_delivered l \<and> recvSeqNum l' = recvSeqNum l"
proof -
  have "ack_ok (length (gh_delivered l)) (new_Ack n (recvSeqNum l - 1))"
    using ack_ok_new assms(1,2) by (simp add: sound_def good_def)
  then have "sound m l'" by (intro transmit_sound[OF assms(1,3)]) simp_all
  moreover have "gh_delivered l' = gh_delivered l \<and> recvSeqNum l' = recvSeqNum l"
    using assms(3) by (cases rule: transmitE) simp_all
  ultimately show ?thesis by blast
qed

lemma store_ack_sound:
  assumes "sound m l" "gh_delivered l \<noteq> []"
  shows "sound m (l\<lparr> replayDLLP := Some (new_Ack n (recvSeqNum l - 1)) \<rparr>)"
    "sound m (l\<lparr> replayDLLP := Some (new_Ack n (recvSeqNum l - 1)), lastAcked := x, ackAt := y \<rparr>)"
    "sound m (l\<lparr> lastAcked := x, ackAt := y \<rparr>)"
proof -
  have ok: "link_ok l" and g: "good m l" using assms(1) by (simp_all add: sound_def)
  have a: "ack_ok (length (gh_delivered l)) (new_Ack n (recvSeqNum l - 1))"
    using ack_ok_new assms(2) g by (simp add: good_def)
  show "sound m (l\<lparr> replayDLLP := Some (new_Ack n (recvSeqNum l - 1)) \<rparr>)"
    "sound m (l\<lparr> replayDLLP := Some (new_Ack n (recvSeqNum l - 1)), lastAcked := x, ackAt := y \<rparr>)"
    "sound m (l\<lparr> lastAcked := x, ackAt := y \<rparr>)"
    unfolding sound_def
    using ok evolves_ok[OF store_ack_evolves(1)] evolves_ok[OF store_ack_evolves(2)]
      evolves_ok[OF evolves_flags(10)] a assms(2) goodD(5)[OF g]
    by (auto intro!: goodI[OF g] simp: wire_def held_def)
qed

lemma ack_received_sound:
  assumes "sound m l" "gh_delivered l \<noteq> []" "ack_received delay now w l = Inr (w', l')"
  shows "sound m l'"
proof (cases "ackAt l = None")
  case True
  let ?a = "new_Ack (next_obj w) (recvSeqNum l - 1)"
  obtain sent l1 where t: "transmit delay now ?a (w\<lparr> next_obj := next_obj w + 1 \<rparr>) l = Inr (sent, l1)"
    and l': "l' = l1 \<or> (\<exists>x y. l' = l1\<lparr> replayDLLP := Some ?a, lastAcked := x, ackAt := y \<rparr>)"
    using assms(3) True by (auto simp: ack_received_def Let_def split: if_splits)
  note s1 = transmit_ack_sound[OF assms(1,2) t]
  then show ?thesis
    using l' store_ack_sound(2)[where l = l1 and n = "next_obj w" and m = m] assms(2) by auto
qed (use assms in \<open>simp add: ack_received_def\<close>)

lemma sendAck_sound:
  assumes "sound m l" "gh_delivered l \<noteq> []" "sendAck delay now w l = Inr (w', l')"
  shows "sound m l'"
proof (cases "lastAcked l = recvSeqNum l - 1")
  case False
  let ?a = "new_Ack (next_obj w) (recvSeqNum l - 1)"
  obtain x y b l1 where
    t: "transmit delay now ?a (w\<lparr> next_obj := next_obj w + 1 \<rparr>)
        (l\<lparr> lastAcked := x, ackAt := y \<rparr>) = Inr (b, l1)"
    and l': "l' = l1 \<or> l' = l1\<lparr> replayDLLP := Some ?a \<rparr>"
    using assms(3) False by (auto simp: sendAck_def Let_def)
  have "sound m (l\<lparr> lastAcked := x, ackAt := y \<rparr>)" by (rule store_ack_sound(3)[OF assms(1,2)])
  from transmit_ack_sound[OF this, of delay now "next_obj w"] t assms(2)
  have s1: "sound m l1" "gh_delivered l1 \<noteq> []" "recvSeqNum l1 = recvSeqNum l" by auto
  then show ?thesis
    using l' store_ack_sound(1)[OF s1(1,2), of "next_obj w"] by auto
qed (use assms in \<open>simp add: sendAck_def\<close>)

lemma dropWhile_numbers:
  assumes "n < 2 ^ 64" "a < 2 ^ 64"
  shows "dropWhile (\<lambda>x. x \<le> (of_nat a :: u64)) (map of_nat [k..<n]) = map of_nat [max k (Suc a)..<n]"
  using assms
proof (induction n)
  case (Suc n)
  have le: "(of_nat n :: u64) \<le> of_nat a \<longleftrightarrow> n \<le> a"
    using Suc.prems by (simp add: word_le_nat_alt unat_of_nat take_bit_nat_eq_self)
  have all: "\<forall>x \<in> set (map of_nat [k..<n]). x \<le> (of_nat a :: u64)" if "n \<le> Suc a"
    using that Suc.prems by (auto simp: word_le_nat_alt unat_of_nat take_bit_nat_eq_self)
  show ?case
  proof (cases "n \<le> a")
    case True
    then have "\<forall>x \<in> set (map of_nat [k..<Suc n]). x \<le> (of_nat a :: u64)"
      using all le by auto
    then have "dropWhile (\<lambda>x. x \<le> (of_nat a :: u64)) (map of_nat [k..<Suc n]) = []"
      by (simp only: dropWhile_eq_Nil_conv)
    then show ?thesis using True by simp
  next
    case False
    then show ?thesis
      using Suc le by (cases "k \<le> n") (auto simp: dropWhile_append3 max_def split: if_splits)
  qed
qed simp

lemma ack_loop_max:
  assumes "ack_loop s b w = Inr (pending, b', w')"
  shows "maximumSize b' = maximumSize b"
  using assms
proof (induction s b w rule: ack_loop.induct)
  case (1 s b w)
  then show ?case
    by (cases "rqueue b") (auto simp: ack_loop.simps[of s b w] split: option.splits if_splits)
qed

lemma win_ok_ack:
  assumes "win_ok m l" "length (gh_accepted l) < 2 ^ 64" "a < m" "m \<le> 2 ^ 64"
    and "rb_inv b'" "maximumSize b' = maximumSize (buffer l)"
    and "rb_elems b' = dropWhile (\<lambda>p. lp_seqNum p \<le> of_nat a) (rb_elems (buffer l))"
  shows "win_ok m (l\<lparr> buffer := b', timeoutAt := t \<rparr>)"
proof -
  let ?E = "rb_elems (buffer l)"
  let ?R = "case replayPacket l of None \<Rightarrow> [] | Some p \<Rightarrow> [p]"
  let ?N = "length (gh_accepted l)"
  obtain k where k: "k \<le> m" "k \<le> ?N" "map lp_seqNum (?E @ ?R) = map of_nat [k..<?N]"
    using assms(1) by (auto simp: win_ok_def window_def)
  define j where "j = k + length ?E"
  have len: "length ?E + length ?R = ?N - k" using arg_cong[OF k(3), of length] by simp
  then have j: "k \<le> j" "j \<le> ?N" using k(2) by (simp_all add: j_def)
  then have split: "map of_nat [k..<?N] = map of_nat [k..<j] @ map (of_nat :: nat \<Rightarrow> u64) [j..<?N]"
    using upt_add_eq_append[of k j "?N - j"] by (simp flip: map_append)
  then have E: "map lp_seqNum ?E = map of_nat [k..<j]" and R: "map lp_seqNum ?R = map of_nat [j..<?N]"
    using k(3) by (auto simp: j_def append_eq_append_conv)
  have "map lp_seqNum (rb_elems b') = dropWhile (\<lambda>x. x \<le> of_nat a) (map lp_seqNum ?E)"
    by (simp add: assms(7) dropWhile_map comp_def)
  also have "\<dots> = map of_nat [min (max k (Suc a)) j..<j]"
    unfolding E using dropWhile_numbers[of j a k] assms(2,3,4) j by (simp add: min_def)
  finally have "map lp_seqNum (rb_elems b' @ ?R) = map of_nat [min (max k (Suc a)) j..<?N]"
    using R upt_add_eq_append[of "min (max k (Suc a)) j" j "?N - j"] j by simp
  moreover have "min (max k (Suc a)) j \<le> m" using k(1) assms(3) by simp
  moreover have "set (rb_elems b') \<subseteq> set ?E" by (auto simp: assms(7) dest: set_dropWhileD)
  moreover have "length (rb_elems b') \<le> length ?E" by (simp add: assms(7) length_dropWhile_le)
  ultimately show ?thesis
    using assms(1,5,6) j unfolding win_ok_def window_def
    by (auto simp: rb_cap_def intro!: exI[of _ "min (max k (Suc a)) j"])
qed

lemma recv_Ack_sound:
  assumes "sound m l" "recv_Ack rx delay now p w l = Inr (w', l')"
    and "lp_dllp p = Some (of_nat a)" "a < m" "m < 2 ^ 31" "length (gh_accepted l) < 2 ^ 31"
  shows "sound m l'"
proof -
  have ok: "link_ok l" and g: "good m l" using assms(1) by (simp_all add: sound_def)
  obtain pending b w1 t where al: "ack_loop (of_nat a) (buffer l) w = Inr (pending, b, w1)"
    and r: "send_retries rx delay now (delete_link p w1) (l\<lparr> buffer := b, timeoutAt := t \<rparr>)
      = Inr (w', l')"
    using assms(2,3) by (auto simp: recv_Ack_def)
  have b: "rb_inv b" "rb_elems b = dropWhile (\<lambda>p. lp_seqNum p \<le> of_nat a) (rb_elems (buffer l))"
    using ack_loop_result[OF goodD(1)[OF g], of "of_nat a" w] al by auto
  have sub: "set (rb_elems b) \<subseteq> set (rb_elems (buffer l))" using b(2) set_dropWhileD by fastforce
  have "evolves l (l\<lparr> buffer := b, timeoutAt := t \<rparr>)"
    using ok b(1) sub by (intro evolvesI) (auto simp: held_def)
  moreover have "win_ok m (l\<lparr> buffer := b, timeoutAt := t \<rparr>)"
    using win_ok_ack[of m l a b t] g b assms(4,5,6) ack_loop_max[OF al] by (simp add: good_def)
  moreover have "acks_ok (l\<lparr> buffer := b, timeoutAt := t \<rparr>)"
    using g sub by (auto simp: good_def acks_ok_def held_def)
  ultimately have "sound m (l\<lparr> buffer := b, timeoutAt := t \<rparr>)"
    using assms(4) by (simp add: sound_def good_def first_ok_def evolves_def)
  from send_retries_sound[OF this r] show ?thesis .
qed

section \<open>Timers and completion of a transmission\<close>

lemma timeoutFunc_sound:
  assumes "sound m l" "timeoutFunc delay now w l = Inr (w', l')"
  shows "sound m l'"
proof (cases "l' = l")
  case False
  then obtain p b l1 where f: "rb_front (buffer l) = Inr (Some p)"
    and t: "transmit delay now p w l = Inr (b, l1)"
    and l': "l' = l1\<lparr> retransmit := True, retransmitIdx := (if b then 1 else 0) \<rparr>"
    using assms(2) by (auto simp: timeoutFunc_def split: if_splits)
  show ?thesis
    unfolding l' using transmit_held_sound[OF assms(1) t] rb_front_held[OF f] sound_flags(5) by blast
qed (use assms(1) in simp)

lemma tx_pending_ack_sound:
  assumes "sound m l" "tx_pending_ack delay now w l = Inr (r, l')"
  shows "sound m l' \<and> wire l' = wire l"
proof (cases "replayDLLP l")
  case (Some a)
  then obtain b l1 where t: "transmit delay now a w l = Inr (b, l1)"
    and l': "l' = l1 \<or> l' = l1\<lparr> replayDLLP := None \<rparr>"
    using assms(2) by (auto simp: tx_pending_ack_def split: if_splits)
  have ok: "link_ok l" and g: "good m l" using assms(1) by (simp_all add: sound_def)
  note na = goodD(5)[OF g Some]
  have s1: "sound m l1"
    using na link_okD(4)[OF ok Some] goodD(6)[OF g, of a] Some
    by (intro transmit_sound[OF assms(1) t]) (auto simp: held_def)
  have w1: "wire l1 = wire l" using t na by (cases rule: transmitE) (auto simp: wire_def)
  show ?thesis
    using l' s1 w1 sound_flags(10)[OF s1] by (auto simp: wire_def)
qed (use assms in \<open>simp add: tx_pending_ack_def\<close>)

text \<open>The packet sent for the first time moves from waiting to the buffer: the window is the
  same.\<close>

lemma store_sound:
  assumes "sound m l" "replayPacket l = Some p" "m = 0 \<Longrightarrow> wire l \<noteq> []"
  shows "sound m (l\<lparr> buffer := pushBack p (buffer l), replayPacket := None, timeoutAt := t \<rparr>)"
    (is "sound m ?l")
proof -
  have ok: "link_ok l" and g: "good m l" using assms(1) by (simp_all add: sound_def)
  have e: "rb_elems (pushBack p (buffer l)) = rb_elems (buffer l) @ [p]"
    using g assms(2) replay.elems_push by (auto simp: good_def win_ok_def)
  have "evolves l ?l"
    using ok replay.inv_push[OF goodD(1)[OF g]] e assms(2)
    by (intro evolvesI) (auto simp: held_def)
  moreover have "win_ok m ?l"
    using g e assms(2) replay.inv_push[of "buffer l"] unfolding good_def win_ok_def
    by (simp add: window_def)
  moreover have "first_ok m ?l"
    using g assms(3) unfolding good_def first_ok_def
    by (cases "wire l") (auto simp: wire_def split: list.splits)
  moreover have "acks_ok ?l"
    using g e assms(2) by (auto simp: good_def acks_ok_def held_def)
  ultimately show ?thesis by (simp add: sound_def good_def evolves_def)
qed

lemma tx_first_done_sound:
  assumes "sound m l" "tx_first_done rx delay now p w l = Inr (w', l')"
    and "isTLP p \<Longrightarrow> m = 0 \<Longrightarrow> wire l \<noteq> []"
  shows "sound m l'"
proof (cases "replayPacket l = Some p")
  case True
  then obtain t where
    r: "send_retries rx delay now w (l\<lparr> buffer := pushBack p (buffer l), replayPacket := None,
      timeoutAt := t \<rparr>) = Inr (w', l')"
    using assms(2) by (auto simp: tx_first_done_def)
  have "isTLP p" using goodD(8) assms(1) True by (auto simp: sound_def)
  with assms(3) have "sound m (l\<lparr> buffer := pushBack p (buffer l), replayPacket := None,
      timeoutAt := t \<rparr>)" by (intro store_sound[OF assms(1) True])
  from send_retries_sound[OF this r] show ?thesis .
qed (use assms(1,2) in \<open>simp add: tx_first_done_def\<close>)

lemma tx_retransmit_sound:
  assumes "sound m l" "tx_retransmit rx delay now w l = Inr (r, w', l')"
  shows "sound m l'"
proof (cases "retransmit l")
  case True
  define l1 where "l1 = (if timeoutAt l = None
    then l\<lparr> timeoutAt := Some (now + ucast (retryTime l)) \<rparr> else l)"
  have s1: "sound m l1" using assms(1) sound_flags(6) by (simp add: l1_def)
  show ?thesis
  proof (cases "retransmitIdx l1 \<ge> rb_size (buffer l1)")
    case True
    then have s: "send_retries rx delay now w (l1\<lparr> retransmitIdx := 0, retransmit := False \<rparr>)
        = Inr (w', l')"
      using assms(2) \<open>retransmit l\<close> by (auto simp: tx_retransmit_def l1_def Let_def)
    from send_retries_sound[OF sound_flags(4)[OF s1] s] show ?thesis .
  next
    case False
    then obtain po b l2 where gt: "rb_get (retransmitIdx l1) (buffer l1) = Inr po"
      and t: "(if busy l1 then Inr (False, l1)
               else rbind (deref po) (\<lambda>p. transmit delay now p w l1)) = Inr (b, l2)"
      and l': "l' = l2\<lparr> retransmitIdx := retransmitIdx l2 + 1 \<rparr>"
      using assms(2) \<open>retransmit l\<close> unfolding tx_retransmit_def Let_def l1_def[symmetric]
      by auto
    have "sound m l2"
    proof (cases "busy l1")
      case False
      with t obtain p where p: "po = Some p" "transmit delay now p w l1 = Inr (b, l2)" by auto
      with transmit_held_sound[OF s1 p(2)] rb_get_held gt show ?thesis by auto
    qed (use t s1 in simp)
    then show ?thesis unfolding l' by (rule sound_flags)
  qed
qed (use assms in \<open>simp add: tx_retransmit_def\<close>)

lemma tx_pending_tlp_sound:
  assumes "sound m l" "tx_pending_tlp delay now w l = Inr (w', l')"
  shows "sound m l'"
proof (cases "replayPacket l")
  case (Some p)
  then obtain b where "transmit delay now p w l = Inr (b, l')"
    using assms(2) by (auto simp: tx_pending_tlp_def)
  from transmit_held_sound[OF assms(1) this] Some show ?thesis by blast
qed (use assms in \<open>simp add: tx_pending_tlp_def\<close>)

lemma txDone_rest_sound:
  assumes "sound m (l\<lparr> packet := None \<rparr>)" "txDone_rest rx delay now p w l = Inr (w', l')"
    and "isTLP p \<Longrightarrow> m = 0 \<Longrightarrow> wire (l\<lparr> packet := None \<rparr>) \<noteq> []"
  shows "sound m l'"
proof -
  obtain r l1 where 1: "tx_pending_ack delay now w (l\<lparr> packet := None \<rparr>) = Inr (r, l1)"
    using assms(2) by (auto simp: txDone_rest_def)
  note s1 = tx_pending_ack_sound[OF assms(1) 1]
  show ?thesis
  proof (cases r)
    case False
    then obtain w2 l2 r3 w3 l3 where 2: "tx_first_done rx delay now p w l1 = Inr (w2, l2)"
      and 3: "tx_retransmit rx delay now w2 l2 = Inr (r3, w3, l3)"
      and 4: "(if r3 then Inr (w3, l3) else tx_pending_tlp delay now w3 l3) = Inr (w', l')"
      using assms(2) 1 by (auto simp: txDone_rest_def)
    have "sound m l2" using tx_first_done_sound[OF _ 2] s1 assms(3) by simp
    then have "sound m l3" using 3 by (rule tx_retransmit_sound)
    then show ?thesis using 4 tx_pending_tlp_sound by (cases r3) auto
  qed (use assms 1 s1 in \<open>simp add: txDone_rest_def\<close>)
qed

section \<open>Receiving\<close>

lemma sound_deliver:
  assumes "sound m l"
  shows "sound m (l\<lparr> recvSeqNum := recvSeqNum l + 1, gh_delivered := gh_delivered l @ [pkt] \<rparr>)"
    (is "sound m ?l")
proof -
  have g: "good m l" using assms by (simp add: sound_def)
  have "ack_ok (Suc n) p" if "ack_ok n p" for n p
    using that by (auto simp: ack_ok_def less_Suc_eq)
  then have "acks_ok ?l" using g by (auto simp: good_def acks_ok_def held_def)
  moreover have "win_ok m ?l" "first_ok m ?l"
    using g first_ok_cong[of ?l l m] by (auto simp: good_def win_ok_def window_def wire_def)
  ultimately show ?thesis
    using assms link_ok_deliver by (auto simp: sound_def good_def)
qed

text \<open>A device that accepts makes the first packet count.\<close>

lemma recv_TLP_sound:
  assumes "sound m l" "recv_TLP True delay now p w l = Inr (w', l')"
    and "gh_delivered l = [] \<Longrightarrow> lp_seqNum p = 0"
  shows "sound m l' \<and> gh_delivered l' \<noteq> [] \<and> length (gh_delivered l) \<le> length (gh_delivered l')"
proof (cases "lp_seqNum p = recvSeqNum l")
  case True
  then obtain pkt where a: "ack_received delay now w (l\<lparr> recvSeqNum := recvSeqNum l + 1,
      gh_delivered := gh_delivered l @ [pkt] \<rparr>) = Inr (w', l')"
    using assms(2) by (auto simp: recv_TLP_def)
  note s = sound_deliver[OF assms(1), of pkt]
  have "gh_delivered l' = gh_delivered l @ [pkt]"
    using ack_received_evolves[OF _ a] s by (simp add: sound_def evolves_def)
  with ack_received_sound[OF s _ a] show ?thesis by simp
next
  case False
  then have a: "ack_received delay now w l = Inr (w', l')"
    using assms(2) by (simp add: recv_TLP_def)
  have ne: "gh_delivered l \<noteq> []"
    using assms(1,3) False by (auto simp: sound_def dest: goodD(3))
  have "gh_delivered l' = gh_delivered l"
    using ack_received_evolves[OF _ a] assms(1) by (simp add: sound_def evolves_def)
  with ack_received_sound[OF assms(1) ne a] ne show ?thesis by simp
qed

lemma linkReceiveInterface_sound:
  assumes "sound m l" "linkReceiveInterface True rx delay now p w l = Inr (w', l')"
    and "isTLP p \<Longrightarrow> gh_delivered l = [] \<Longrightarrow> lp_seqNum p = 0" "ack_ok m p" "m < 2 ^ 31"
    and "length (gh_accepted l) < 2 ^ 31"
  shows "sound m l' \<and> (isTLP p \<longrightarrow> gh_delivered l' \<noteq> [])
    \<and> length (gh_delivered l) \<le> length (gh_delivered l')"
proof -
  consider "isTLP p" "recv_TLP True delay now p w l = Inr (w', l')"
    | "\<not> isTLP p" "isDLLP p" "recv_Ack rx delay now p w l = Inr (w', l')"
    | "\<not> isTLP p" "l' = l"
    using assms(2) by (auto simp: linkReceiveInterface_def deref_link_def split: if_splits)
  then show ?thesis
  proof cases
    case 1
    with recv_TLP_sound[OF assms(1) 1(2)] assms(3) show ?thesis by simp
  next
    case 2
    then obtain a where "a < m" "lp_dllp p = Some (of_nat a)"
      using assms(4,5) by (auto simp: ack_ok_def)
    with recv_Ack_sound[OF assms(1) 2(3)] assms(5,6)
      recv_Ack_evolves[OF _ 2(3)] assms(1) 2(1) show ?thesis
      by (simp add: evolves_def sound_def)
  next
    case 3
    with assms(1) show ?thesis by simp
  qed
qed

section \<open>The whole link\<close>

definition no_loss :: "PCIELink \<Rightarrow> bool" where
  "no_loss s = (\<forall>i. sound (length (gh_delivered (links s (\<not> i)))) (links s i))"

definition small :: "PCIELink \<Rightarrow> bool" where
  "small s = (\<forall>i. length (gh_accepted (links s i)) < 2 ^ 31)"

lemma no_lossD: "no_loss s \<Longrightarrow> sound (length (gh_delivered (links s (\<not> i)))) (links s i)"
  by (simp add: no_loss_def)

lemma sound_mono: "sound m l \<Longrightarrow> m \<le> m' \<Longrightarrow> sound m' l"
  using good_mono by (auto simp: sound_def)

lemma sys_inv_recv:
  "sys_inv s \<Longrightarrow> length (gh_accepted (links s i)) < 2 ^ 64
    \<Longrightarrow> recv_ok (gh_accepted (links s i)) (links s (\<not> i))"
  by (simp add: sys_inv_def)

lemma no_lossI:
  assumes "sound (length (gh_delivered (links s (\<not> i)))) (links s i)"
    and "sound (length (gh_delivered (links s i))) (links s (\<not> i))"
  shows "no_loss s"
  using assms unfolding no_loss_def all_bool_eq by (cases i) simp_all

lemma small_delivered:
  assumes "sys_inv s" "small s"
  shows "length (gh_delivered (links s i)) < 2 ^ 31"
proof -
  have "length (gh_accepted (links s (\<not> i))) < 2 ^ 31" using assms(2) by (simp add: small_def)
  moreover from this have "prefix (gh_delivered (links s i)) (gh_accepted (links s (\<not> i)))"
    using sys_inv_recv[OF assms(1), of "\<not> i"] by (simp add: recv_ok_def)
  ultimately show ?thesis using prefix_length_le by fastforce
qed

text \<open>Changing one side, the other keeps its invariant when the change only delivers more.\<close>

lemma no_loss_set_link:
  assumes "no_loss s" "sound (length (gh_delivered (links s (\<not> i)))) l"
    and "length (gh_delivered (links s i)) \<le> length (gh_delivered l)"
  shows "no_loss (set_link i l w s)"
proof -
  have "sound (length (gh_delivered l)) (links s (\<not> i))"
    using sound_mono[OF no_lossD[OF assms(1), of "\<not> i"]] assms(3) by simp
  with assms(2) show ?thesis unfolding no_loss_def by (cases i) auto
qed

lemma no_loss_evolves:
  assumes "no_loss s" "evolves (links s i) l"
    and "sound (length (gh_delivered (links s (\<not> i)))) (links s i)
      \<Longrightarrow> sound (length (gh_delivered (links s (\<not> i)))) l"
  shows "no_loss (set_link i l w s)"
  using no_loss_set_link[OF assms(1)] assms no_lossD by (auto simp: evolves_def)

lemma txComplete_no_loss:
  assumes "sound (length (gh_delivered (links s i))) (links s (\<not> i))"
    and "txComplete True rx delay now i p s = Inr s'"
    and "isTLP p \<Longrightarrow> gh_delivered (links s (\<not> i)) = [] \<Longrightarrow> lp_seqNum p = 0"
    and "ack_ok (length (gh_delivered (links s i))) p" "length (gh_delivered (links s i)) < 2 ^ 31"
    and "length (gh_accepted (links s (\<not> i))) < 2 ^ 31"
  shows "links s' i = links s i" "sound (length (gh_delivered (links s i))) (links s' (\<not> i))"
    and "isTLP p \<Longrightarrow> gh_delivered (links s' (\<not> i)) \<noteq> []"
    and "length (gh_delivered (links s (\<not> i))) \<le> length (gh_delivered (links s' (\<not> i)))"
proof -
  obtain w l where r: "linkReceiveInterface True rx delay now p (world s) (links s (\<not> i)) = Inr (w, l)"
    and s': "s' = set_link (\<not> i) l w s"
    using assms(2) by (auto simp: txComplete_def)
  note ri = linkReceiveInterface_sound[OF assms(1) r assms(3-6)]
  have l: "links s' i = links s i" "links s' (\<not> i) = l" by (simp_all add: s')
  show "links s' i = links s i" "sound (length (gh_delivered (links s i))) (links s' (\<not> i))"
    "isTLP p \<Longrightarrow> gh_delivered (links s' (\<not> i)) \<noteq> []"
    "length (gh_delivered (links s (\<not> i))) \<le> length (gh_delivered (links s' (\<not> i)))"
    unfolding l using ri by blast+
qed

text \<open>Taking a packet off the wire is sound when it was an acknowledgement or something has been
  delivered.\<close>

lemma off_wire_sound:
  assumes "sound m l" "m \<le> m'" "m' = 0 \<Longrightarrow> wire l' = wire l" "link_ok l'"
    and "buffer l' = buffer l" "replayPacket l' = replayPacket l" "maxQueueSize l' = maxQueueSize l"
    and "gh_accepted l' = gh_accepted l" "gh_delivered l' = gh_delivered l"
    and "recvSeqNum l' = recvSeqNum l" "ackAt l' = ackAt l" "replayDLLP l' = replayDLLP l"
    and "held l' \<subseteq> held l"
  shows "sound m' l'"
proof -
  have g: "good m' l" using good_mono[of m l m'] assms(1,2) by (simp add: sound_def)
  then have "win_ok m' l'"
    using assms(5-8) unfolding good_def win_ok_def window_def by simp
  moreover have "acks_ok l'"
    using g assms(9-13) unfolding good_def acks_ok_def by auto
  moreover have "first_ok m' l'"
    using g assms(3,5) first_ok_cong[of l' l m'] by (auto simp: good_def first_ok_def)
  ultimately show ?thesis using assms(4) by (simp only: sound_def good_def simp_thms)
qed

lemma txDone_no_loss:
  assumes "no_loss s" "sys_inv s" "small s" "txDone True rx delay now i s = Inr s'"
  shows "no_loss s'"
  using assms(4)
proof (cases rule: txDoneE)
  case (queued p t w l l1)
  let ?m = "length (gh_delivered (links s (\<not> i)))"
  note sd = no_lossD[OF assms(1), of i]
  have ok: "link_ok (links s i)" using sd by (simp add: sound_def)
  have e: "evolves (links s i) l1" unfolding queued(2) using enqueue_evolves[OF ok queued(1)] .
  note e0 = evolves_flags(11)[OF evolves_ok[OF e]]
  have wr: "wire (l1\<lparr> packet := None \<rparr>) = wire (links s i)"
    using queued(1) by (simp add: queued(2) wire_def)
  have "sound ?m (l1\<lparr> packet := None \<rparr>)"
    using queued(1) by (intro off_wire_sound[OF sd _ wr evolves_ok[OF e0]])
      (auto simp: queued(2) held_def)
  moreover have "wire (l1\<lparr> packet := None \<rparr>) \<noteq> []" if "isTLP p"
    unfolding wr using that queued(1) by (simp add: wire_def)
  ultimately have "sound ?m l" using txDone_rest_sound[OF _ queued(3)] by blast
  moreover have "tlp_ok (gh_accepted l1) p" using link_okD(2)[OF ok queued(1)] by (simp add: queued(2))
  then have "gh_delivered l = gh_delivered (links s i)"
    using txDone_rest_evolves[OF evolves_ok[OF e] queued(3)] e by (simp add: evolves_def)
  moreover have "s' = set_link i l w s" unfolding queued(4) by (simp add: set_link_def)
  ultimately show ?thesis using no_loss_set_link[OF assms(1), of i l w] by simp
next
  case (direct p s1 w l)
  let ?l = "links s i"
  note sd = no_lossD[OF assms(1), of i]
  have ok: "link_ok ?l" and g: "good (length (gh_delivered (links s (\<not> i)))) ?l"
    using sd by (simp_all add: sound_def)
  have wr: "wire ?l = (if isTLP p then [p] else [])" using direct(1,2) by (simp add: wire_def)
  note c = txComplete_no_loss[OF _ direct(3) _ _ small_delivered[OF assms(2,3)]]
  have c': "links s1 i = ?l" "sound (length (gh_delivered ?l)) (links s1 (\<not> i))"
    "isTLP p \<Longrightarrow> gh_delivered (links s1 (\<not> i)) \<noteq> []"
    "length (gh_delivered (links s (\<not> i))) \<le> length (gh_delivered (links s1 (\<not> i)))"
    using no_lossD[OF assms(1), of "\<not> i"] g goodD(6)[OF g, of p] direct(1) assms(3) wr
    by (intro c; force simp: good_def first_ok_def held_def small_def)+
  have "sound (length (gh_delivered (links s1 (\<not> i)))) (?l\<lparr> packet := None \<rparr>)"
    using direct(1,2) wr c'(3) evolves_ok[OF evolves_flags(11)[OF ok]]
    by (intro off_wire_sound[OF sd c'(4)]) (auto simp: held_def wire_def)
  then have "sound (length (gh_delivered (links s1 (\<not> i)))) l"
    using txDone_rest_sound[of _ ?l rx delay now p] direct(4) c'(1,3) by auto
  moreover have "gh_delivered l = gh_delivered ?l"
    using txDone_rest_evolves[of ?l, OF ok _ link_okD(2)[OF ok direct(1)]] direct(4) c'(1)
    by (auto simp: evolves_def)
  ultimately show ?thesis
    unfolding direct(5) no_loss_def using c'(2) by (cases i) auto
qed

lemma processTxQueue_no_loss:
  assumes "no_loss s" "sys_inv s" "small s" "processTxQueue True rx delay now i s = Inr s'"
  shows "no_loss s'"
  using assms(4)
proof (cases rule: processTxQueueE)
  case (1 t p rest at)
  let ?l = "links s i"
  let ?l' = "?l\<lparr> txQueue := rest, txQueueAt := at \<rparr>"
  let ?s = "set_link i ?l' (world s) s"
  note sd = no_lossD[OF assms(1), of i]
  have ok: "link_ok ?l" and g: "good (length (gh_delivered (links s (\<not> i)))) ?l"
    using sd by (simp_all add: sound_def)
  have wr: "wire ?l = (if isTLP p then p # wire ?l' else wire ?l')" using 1(1) by (simp add: wire_def)
  have d: "gh_delivered (links ?s i) = gh_delivered ?l" by simp
  have c: "links s' i = links ?s i" "sound (length (gh_delivered (links ?s i))) (links s' (\<not> i))"
    "isTLP p \<Longrightarrow> gh_delivered (links s' (\<not> i)) \<noteq> []"
    "length (gh_delivered (links ?s (\<not> i))) \<le> length (gh_delivered (links s' (\<not> i)))"
    using no_lossD[OF assms(1), of "\<not> i"] g goodD(6)[OF g, of p] 1(1) assms(3) wr
      small_delivered[OF assms(2,3), of i]
    by (intro txComplete_no_loss[OF _ 1(2)]; force simp: good_def first_ok_def held_def small_def)+
  have "sound (length (gh_delivered (links s' (\<not> i)))) ?l'"
    using c(3,4) wr 1(1) evolves_ok[OF dequeue_evolves[OF ok 1(1)]]
    by (intro off_wire_sound[OF sd]) (auto simp: held_def split: if_splits)
  then show ?thesis
    using c(2) unfolding c(1) d by (intro no_lossI[of s' i]) (simp_all add: c(1))
qed

lemma small_prefix: "sys_next s s' \<Longrightarrow> small s' \<Longrightarrow> small s"
  unfolding sys_next_def small_def using prefix_length_le le_less_trans by blast

lemma small_set_link [simp]:
  "gh_accepted l = gh_accepted (links s i) \<Longrightarrow> small (set_link i l w s) = small s"
  unfolding small_def all_bool_eq by (cases i) simp_all

lemma link_step_no_loss:
  assumes "link_step True s s'" "sys_inv s" "small s" "no_loss s"
  shows "no_loss s'"
  using assms
proof (induction rule: link_step.induct)
  case (offer delay now i master pkt s b s')
  then obtain w l where
    l: "linkTransmitInterface delay now pkt master (world s) (links s i) = Inr (b, w, l)"
    and s': "s' = set_link i l w s"
    by (auto simp: port_recv_def)
  note e = linkTransmitInterface_evolves[OF sys_invD[OF offer(2)] l]
  show ?case
    unfolding s' using linkTransmitInterface_good[OF _ sys_invD[OF offer(2)] l] e
    by (intro no_loss_evolves[OF offer(4)]) (auto simp: sound_def evolves_def)
next
  case (tx_done s i now accept rx delay s')
  note e = evolves_flags(7)[OF sys_invD[OF tx_done(4), of i], of None]
  have "no_loss (set_link i ((links s i)\<lparr> doneAt := None \<rparr>) (world s) s)"
    using no_loss_evolves[OF tx_done(6) e] sound_flags(7) by blast
  from txDone_no_loss[OF this sys_next_inv[OF sys_inv_evolves[OF tx_done(4) e]]] tx_done(2,3,5)
  show ?case by simp
next
  case (arrive s i now accept rx delay s')
  note e = evolves_flags(8)[OF sys_invD[OF arrive(4), of i], of None]
  have "no_loss (set_link i ((links s i)\<lparr> txQueueAt := None \<rparr>) (world s) s)"
    using no_loss_evolves[OF arrive(6) e] sound_flags(8) by blast
  from processTxQueue_no_loss[OF this sys_next_inv[OF sys_inv_evolves[OF arrive(4) e]]] arrive(2,3,5)
  show ?case by simp
next
  case (timeout s i now delay w l)
  note e = evolves_flags(6)[OF sys_invD[OF timeout(3), of i], of None]
  note e' = evolves_trans[OF e timeoutFunc_evolves[OF evolves_ok[OF e] timeout(2)]]
  show ?case
    using timeoutFunc_sound[OF sound_flags(6) timeout(2)]
    by (intro no_loss_evolves[OF timeout(5) e'])
next
  case (ack_timer s i now delay w l)
  note e = evolves_flags(9)[OF sys_invD[OF ack_timer(3), of i], of None]
  note e' = evolves_trans[OF e sendAck_evolves[OF evolves_ok[OF e] ack_timer(2)]]
  have "gh_delivered (links s i) \<noteq> []"
    using no_lossD[OF ack_timer(5), of i] ack_timer(1) goodD(4) by (auto simp: sound_def)
  then show ?case
    using sendAck_sound[OF sound_flags(9) _ ack_timer(2)]
    by (intro no_loss_evolves[OF ack_timer(5) e']) simp
qed

lemma no_loss_start: "n > 0 \<Longrightarrow> no_loss (new_PCIELink n rt d)"
  using sys_invD[OF sys_inv_start, of n rt d False] rb_new_inv[of n]
  by (simp add: no_loss_def sound_def good_def win_ok_def first_ok_def acks_ok_def window_def
      wire_def held_def new_PCIELink_def new_Link_def)
    (simp add: new_ReplayBuffer_def)

lemma link_reachable_no_loss:
  "link_reachable True n rt d s \<Longrightarrow> n > 0 \<Longrightarrow> small s \<Longrightarrow> no_loss s"
proof (induction rule: link_reachable.induct)
  case (step s s')
  note inv = link_reachable_inv[OF step(1,4)]
  from small_prefix[OF link_step_inv[OF step(2) inv] step(5)] step link_step_no_loss[OF step(2) inv]
  show ?case by blast
qed (simp add: no_loss_start)

section \<open>Properties\<close>

lemma window_packets:
  assumes "link_ok l" "win_ok m l" "length (gh_accepted l) < 2 ^ 64"
  shows "\<exists>k \<le> m. k \<le> length (gh_accepted l)
    \<and> map lp_pkt (window l) = map Some (drop k (gh_accepted l))"
proof -
  let ?acc = "gh_accepted l"
  obtain k where k: "k \<le> m" "k \<le> length ?acc"
    "map lp_seqNum (window l) = map of_nat [k..<length ?acc]" and tlp: "\<forall>p \<in> set (window l). isTLP p"
    using assms(2) by (auto simp: win_ok_def)
  have len: "length (window l) = length ?acc - k" using arg_cong[OF k(3), of length] by simp
  have "map lp_pkt (window l) = map Some (drop k ?acc)"
  proof (rule nth_equalityI)
    fix j assume "j < length (map lp_pkt (window l))"
    then have j: "j < length (window l)" "k + j < length ?acc" using len by auto
    then have mem: "window l ! j \<in> set (window l)" by simp
    then have "window l ! j \<in> held l" by (auto simp: window_def held_def split: option.splits)
    then obtain i where i: "i < length ?acc" "lp_seqNum (window l ! j) = of_nat i"
      "lp_pkt (window l ! j) = Some (?acc ! i)"
      using assms(1) mem tlp by (auto simp: link_ok_def tlp_ok_def)
    have "lp_seqNum (window l ! j) = of_nat (k + j)"
      using j k(3) by (metis nth_map nth_upt len length_map)
    then have "i = k + j"
      using i(1,2) j(2) assms(3) by (intro of_nat_u64_inj) simp_all
    then show "map lp_pkt (window l) ! j = map Some (drop k ?acc) ! j"
      using i(3) j by simp
  qed (simp add: len)
  with k(1,2) show ?thesis by blast
qed

text \<open>C3: Nothing is lost while the attached devices accept what they are given and fewer than 2
  to the 31 packets were taken: in every reachable state the sender's replay buffer followed
  by its waiting packet is exactly the tail of the accepted packets from some point up to
  which all were delivered. In particular, when the sender holds nothing, everything it
  accepted has been delivered.\<close>

theorem link_loses_nothing:
  assumes "link_reachable True n rt d s" "n > 0"
    and "\<forall>i. length (gh_accepted (links s i)) < 2 ^ 31"
  shows "(\<exists>k \<le> length (gh_delivered (links s (\<not> i))).
      map lp_pkt (window (links s i)) = map Some (drop k (gh_accepted (links s i))))
    \<and> (window (links s i) = [] \<longrightarrow>
      gh_delivered (links s (\<not> i)) = gh_accepted (links s i))"
proof -
  have sm: "small s" using assms(3) by (simp add: small_def)
  then have n: "length (gh_accepted (links s i)) < 2 ^ 64" by (auto simp: small_def intro: less_trans)
  note sd = no_lossD[OF link_reachable_no_loss[OF assms(1,2) sm], of i]
  have p: "prefix (gh_delivered (links s (\<not> i))) (gh_accepted (links s i))"
    using sys_inv_recv[OF link_reachable_inv[OF assms(1,2)] n] by (simp add: recv_ok_def)
  obtain k where k: "k \<le> length (gh_delivered (links s (\<not> i)))" "k \<le> length (gh_accepted (links s i))"
    "map lp_pkt (window (links s i)) = map Some (drop k (gh_accepted (links s i)))"
    using window_packets[OF _ _ n] sd by (auto simp: sound_def good_def)
  then have "gh_delivered (links s (\<not> i)) = gh_accepted (links s i)" if "window (links s i) = []"
    using that p by (auto simp: prefix_def)
  with k show ?thesis by blast
qed

theorem link_loses_nothing_witness:
  "link_reachable True 2 30 0 (projr run_one)
    \<and> (\<exists>k \<le> length (gh_delivered (links (projr run_one) True)).
        map lp_pkt (window (links (projr run_one) False))
          = map Some (drop k (gh_accepted (links (projr run_one) False))))"
proof -
  have "gh_accepted (links (projr run_one) True) = []" by code_simp
  then have "\<forall>i. length (gh_accepted (links (projr run_one) i)) < 2 ^ 31"
    using run_one_result by (simp add: all_bool_eq)
  from link_loses_nothing[OF run_one_reachable[of True] _ this, of False] show ?thesis
    using run_one_reachable[of True] by simp
qed

text \<open>The run in which the device refuses the first packet and the second one arrives before the
  first is sent again.\<close>

definition run_refused :: "PCIELink outcome" where
  "run_refused = run_events 5
    [Offer False False 0 run_packet, Tx_done False False,
     Offer False False 6 run_packet, Tx_done False True, Tx_done True True]
    (new_PCIELink 2 30 0)"

text \<open>C31: A refused first packet can be lost: there is a run of the link, with two packets taken
  from the device on one side and the first delivery refused, after which nothing was
  delivered, the sender holds nothing to send again, and no event is scheduled on either
  side. The acknowledgement sent for the second packet is one below 0, that is 2 to the 64
  minus 1, and clears the whole replay buffer.\<close>

theorem refused_packet_lost:
  "\<exists>s. link_reachable False 2 30 0 s
    \<and> gh_accepted (links s False) = [run_packet, run_packet] \<and> gh_delivered (links s True) = []
    \<and> window (links s False) = [] \<and> packet (links s False) = None \<and> txQueue (links s False) = []
    \<and> (\<forall>i. doneAt (links s i) = None \<and> txQueueAt (links s i) = None
        \<and> timeoutAt (links s i) = None \<and> ackAt (links s i) = None)"
proof (intro exI conjI)
  have "\<not> isl run_refused" by code_simp
  then have "run_refused = Inr (projr run_refused)" by simp
  then show "link_reachable False 2 30 0 (projr run_refused)"
    unfolding run_refused_def by (rule run_events_reachable) simp
  show "gh_accepted (links (projr run_refused) False) = [run_packet, run_packet]" by code_simp
  show "gh_delivered (links (projr run_refused) True) = []" by code_simp
  show "window (links (projr run_refused) False) = []" by code_simp
  show "packet (links (projr run_refused) False) = None" by code_simp
  show "txQueue (links (projr run_refused) False) = []" by code_simp
  show "\<forall>i. doneAt (links (projr run_refused) i) = None \<and> txQueueAt (links (projr run_refused) i) = None
      \<and> timeoutAt (links (projr run_refused) i) = None \<and> ackAt (links (projr run_refused) i) = None"
    unfolding all_bool_eq by code_simp
qed

text \<open>A run with events in the order of their ticks: the propagation delay of 100 exceeds the
  replay time of 30.\<close>

definition run_delayed :: "PCIELink outcome" where
  "run_delayed = run_events 5
    [Offer False False 0 run_packet, Tx_done False True, Timeout False, Tx_done False True,
     Timeout False, Tx_done False True, Arrive False True, Timeout False, Tx_done True True,
     Tx_done False True, Arrive False True, Timeout False, Tx_done True True, Tx_done False True,
     Arrive False True, Timeout False, Tx_done True True, Tx_done False True, Arrive True True,
     Arrive False True]
    (new_PCIELink 2 30 100)"

text \<open>On a link whose propagation delay exceeds the replay time, a retransmitted packet
  arrives after its acknowledgement has deleted it, although both devices accept everything:
  the run of one offered packet ends in the use of a deleted link packet.\<close>

lemma retransmission_uses_deleted_packet:
  "run_delayed = Inl (Undefined ''use of a deleted link packet'')"
proof -
  have "isl run_delayed" by code_simp
  moreover have "projl run_delayed = Undefined ''use of a deleted link packet''" by code_simp
  ultimately show ?thesis by (metis sum.collapse(1))
qed

end
