(* ===== verification/EventQueue.thy ===== *)
theory EventQueue
  imports Prelude "HOL-Library.Product_Lexorder"
begin

text \<open>
  The event queue of the simulator (\<^verbatim>\<open>sim/eventq.hh\<close>, \<^verbatim>\<open>sim/eventq.cc\<close>) at the level of its
  pointers. An event object lives at an address; its fields \<open>nextBin\<close> and \<open>nextInBin\<close> are
  addresses of other events or null. The queue is a linked list of bins, one for every
  time and priority, and a bin is a stack of events. A pointer to an object that does not
  exist (any more) has an undefined value, and a loop along pointers may run forever: such a
  loop is a \<open>partial_function\<close>, and its result \<open>None\<close> means that it does not return.

  One queue is modelled, with the store of the event objects; the mutexes and the debug
  output are left out. What an event does when it is processed is the parameter \<open>process\<close>: the
  list of calls it makes to the queue.
\<close>

section \<open>Results of operations that may not return\<close>

type_synonym 'a res = "'a outcome option"

fun pbind :: "'a res \<Rightarrow> ('a \<Rightarrow> 'b res) \<Rightarrow> 'b res" where
  "pbind None f = None"
| "pbind (Some (Inl e)) f = Some (Inl e)"
| "pbind (Some (Inr x)) f = f x"

lemma pbind_assoc: "pbind (pbind r f) g = pbind r (\<lambda>x. pbind (f x) g)"
  by (cases "(r, f)" rule: pbind.cases) auto

section \<open>Events\<close>

text \<open>The address of an event object.\<close>

type_synonym evid = nat

type_synonym Priority = "8 word"

record Event =
  nextBin :: "evid option"
  nextInBin :: "evid option"
  ev_when :: u64
  ev_priority :: Priority
  ev_flags :: u16
  ev_queue :: "nat option"

definition ev_PublicWrite :: u16 where "ev_PublicWrite = 0x001d"
definition ev_Squashed :: u16 where "ev_Squashed = 0x0001"
definition ev_Scheduled :: u16 where "ev_Scheduled = 0x0002"
definition ev_Managed :: u16 where "ev_Managed = 0x0004"
definition ev_IsExitEvent :: u16 where "ev_IsExitEvent = 0x0010"
definition ev_IsMainQueue :: u16 where "ev_IsMainQueue = 0x0020"
definition ev_Initialized :: u16 where "ev_Initialized = 0x7a40"
definition ev_InitMask :: u16 where "ev_InitMask = 0xffc0"

lemmas ev_flag_defs = ev_PublicWrite_def ev_Squashed_def ev_Scheduled_def ev_Managed_def
  ev_IsExitEvent_def ev_IsMainQueue_def ev_Initialized_def ev_InitMask_def

definition initialized :: "Event \<Rightarrow> bool" where
  "initialized e \<longleftrightarrow> ev_flags e AND ev_InitMask = ev_Initialized"

definition scheduled :: "Event \<Rightarrow> bool" where
  "scheduled e = flag_isSet (ev_flags e) ev_Scheduled"

definition squashed :: "Event \<Rightarrow> bool" where
  "squashed e = flag_isSet (ev_flags e) ev_Squashed"

definition isExitEvent :: "Event \<Rightarrow> bool" where
  "isExitEvent e = flag_isSet (ev_flags e) ev_IsExitEvent"

definition isManaged :: "Event \<Rightarrow> bool" where
  "isManaged e = flag_isSet (ev_flags e) ev_Managed"

definition setWhen :: "u64 \<Rightarrow> nat \<Rightarrow> Event \<Rightarrow> Event" where
  "setWhen t q e = e\<lparr> ev_when := t, ev_queue := Some q \<rparr>"

text \<open>The comparisons of events; priorities are signed.\<close>

definition ev_less :: "Event \<Rightarrow> Event \<Rightarrow> bool" where
  "ev_less l r \<longleftrightarrow> ev_when l < ev_when r \<or>
     (ev_when l = ev_when r \<and> sint (ev_priority l) < sint (ev_priority r))"

definition ev_less_eq :: "Event \<Rightarrow> Event \<Rightarrow> bool" where
  "ev_less_eq l r \<longleftrightarrow> ev_when l < ev_when r \<or>
     (ev_when l = ev_when r \<and> sint (ev_priority l) \<le> sint (ev_priority r))"

definition ev_equal :: "Event \<Rightarrow> Event \<Rightarrow> bool" where
  "ev_equal l r \<longleftrightarrow> ev_when l = ev_when r \<and> ev_priority l = ev_priority r"

definition ev_not_equal :: "Event \<Rightarrow> Event \<Rightarrow> bool" where
  "ev_not_equal l r \<longleftrightarrow> ev_when l \<noteq> ev_when r \<or> ev_priority l \<noteq> ev_priority r"

section \<open>The queue\<close>

text \<open>
  The members of \<open>EventQueue\<close>, the store of event objects, and the two globals the queue
  reads: whether the simulation runs in parallel mode, and the queue of the running thread.
\<close>

record EventQueue =
  q_id :: nat
  head :: "evid option"
  curTick :: u64
  async_queue :: "evid list"
  events :: "evid \<Rightarrow> Event option"
  inParallelMode :: bool
  curEventQueue :: nat

definition new_EventQueue :: "nat \<Rightarrow> EventQueue" where
  "new_EventQueue q = \<lparr> q_id = q, head = None, curTick = 0, async_queue = [],
     events = (\<lambda>_. None), inParallelMode = False, curEventQueue = q \<rparr>"

definition event_at :: "EventQueue \<Rightarrow> evid \<Rightarrow> Event outcome" where
  "event_at s p = (case events s p of None \<Rightarrow> Inl (Undefined ''dangling event pointer'')
                   | Some e \<Rightarrow> Inr e)"

definition set_event :: "evid \<Rightarrow> (Event \<Rightarrow> Event) \<Rightarrow> EventQueue \<Rightarrow> EventQueue outcome" where
  "set_event p f s = rbind (event_at s p) (\<lambda>e. Inr (s\<lparr> events := (events s)(p \<mapsto> f e) \<rparr>))"

text \<open>Construction of an event at a free address.\<close>

definition new_Event :: "evid \<Rightarrow> Priority \<Rightarrow> u16 \<Rightarrow> EventQueue \<Rightarrow> EventQueue outcome" where
  "new_Event p pri f s =
     (if events s p \<noteq> None then Inl (Undefined ''address in use'')
      else if flag_isSet f (NOT ev_PublicWrite) then Inl (AssertFail ''f.noneSet(~PublicWrite)'')
      else Inr (s\<lparr> events := (events s)(p \<mapsto>
             \<lparr> nextBin = None, nextInBin = None, ev_when = 0, ev_priority = pri,
               ev_flags = ev_Initialized OR f, ev_queue = None \<rparr>) \<rparr>))"

text \<open>Destruction of an event.\<close>

definition delete_Event :: "evid \<Rightarrow> EventQueue \<Rightarrow> EventQueue outcome" where
  "delete_Event p s =
     rbind (event_at s p) (\<lambda>e.
     if scheduled e then Inl (AssertFail ''!scheduled()'')
     else Inr (s\<lparr> events := (events s)(p := None) \<rparr>))"

definition ev_acquire :: "evid \<Rightarrow> EventQueue \<Rightarrow> EventQueue outcome" where
  "ev_acquire p s = rbind (event_at s p) (\<lambda>e. Inr s)"

definition ev_release :: "evid \<Rightarrow> EventQueue \<Rightarrow> EventQueue outcome" where
  "ev_release p s =
     rbind (event_at s p) (\<lambda>e.
     if isManaged e \<and> \<not> scheduled e then delete_Event p s else Inr s)"

section \<open>Insertion and removal\<close>

definition insertBefore :: "evid \<Rightarrow> evid option \<Rightarrow> EventQueue \<Rightarrow> (evid \<times> EventQueue) outcome" where
  "insertBefore event cur s =
     (case cur of
        None \<Rightarrow>
          rbind (set_event event (\<lambda>e. e\<lparr> nextBin := None, nextInBin := None \<rparr>) s)
            (\<lambda>s1. Inr (event, s1))
      | Some c \<Rightarrow>
          rbind (event_at s event) (\<lambda>e.
          rbind (event_at s c) (\<lambda>ce.
          if ev_less e ce then
            rbind (set_event event (\<lambda>e. e\<lparr> nextBin := Some c, nextInBin := None \<rparr>) s)
              (\<lambda>s1. Inr (event, s1))
          else
            rbind (set_event event (\<lambda>e. e\<lparr> nextBin := nextBin ce, nextInBin := Some c \<rparr>) s)
              (\<lambda>s1. Inr (event, s1)))))"

text \<open>The search for the bin of an event, shared by insertion and removal.\<close>

partial_function (option) find_bin ::
  "evid \<Rightarrow> evid option \<Rightarrow> evid \<Rightarrow> EventQueue \<Rightarrow> (evid \<times> evid option) res" where
  "find_bin prev cur event s =
     (case cur of
        None \<Rightarrow> Some (Inr (prev, None))
      | Some c \<Rightarrow>
          (case event_at s c of
             Inl err \<Rightarrow> Some (Inl err)
           | Inr ce \<Rightarrow>
               (case event_at s event of
                  Inl err \<Rightarrow> Some (Inl err)
                | Inr e \<Rightarrow>
                    if ev_less ce e then find_bin c (nextBin ce) event s
                    else Some (Inr (prev, Some c)))))"

definition eq_insert :: "evid \<Rightarrow> EventQueue \<Rightarrow> EventQueue res" where
  "eq_insert event s =
     pbind (Some (event_at s event)) (\<lambda>e.
     case head s of
       None \<Rightarrow> Some (rbind (insertBefore event None s) (\<lambda>(p, s1). Inr (s1\<lparr> head := Some p \<rparr>)))
     | Some h \<Rightarrow>
         pbind (Some (event_at s h)) (\<lambda>he.
         if ev_less_eq e he then
           Some (rbind (insertBefore event (Some h) s) (\<lambda>(p, s1). Inr (s1\<lparr> head := Some p \<rparr>)))
         else
           pbind (find_bin h (nextBin he) event s) (\<lambda>(prev, cur).
           Some (rbind (insertBefore event cur s) (\<lambda>(p, s1).
             set_event prev (\<lambda>e. e\<lparr> nextBin := Some p \<rparr>) s1)))))"

text \<open>The search for an event inside a bin.\<close>

partial_function (option) find_in_bin ::
  "evid \<Rightarrow> evid \<Rightarrow> evid option \<Rightarrow> EventQueue \<Rightarrow> (evid \<times> evid) res" where
  "find_in_bin event cur nxt s =
     (case nxt of
        None \<Rightarrow> Some (Inl (Panic ''event not found!''))
      | Some n \<Rightarrow>
          if event = n then Some (Inr (cur, n))
          else (case event_at s n of
                  Inl err \<Rightarrow> Some (Inl err)
                | Inr ne \<Rightarrow> find_in_bin event n (nextInBin ne) s))"

definition removeItem :: "evid \<Rightarrow> evid \<Rightarrow> EventQueue \<Rightarrow> (evid option \<times> EventQueue) res" where
  "removeItem event top_ev s =
     pbind (Some (event_at s top_ev)) (\<lambda>te.
     if event = top_ev then
       (case nextInBin te of
          None \<Rightarrow> Some (Inr (nextBin te, s))
        | Some n \<Rightarrow> Some (rbind (set_event n (\<lambda>e. e\<lparr> nextBin := nextBin te \<rparr>) s)
                          (\<lambda>s1. Inr (Some n, s1))))
     else
       pbind (find_in_bin event top_ev (nextInBin te) s) (\<lambda>(cur, n).
       pbind (Some (event_at s n)) (\<lambda>ne.
       Some (rbind (set_event cur (\<lambda>e. e\<lparr> nextInBin := nextInBin ne \<rparr>) s)
              (\<lambda>s1. Inr (Some top_ev, s1))))))"

definition eq_remove :: "evid \<Rightarrow> EventQueue \<Rightarrow> EventQueue res" where
  "eq_remove event s =
     (case head s of
        None \<Rightarrow> Some (Inl (Panic ''event not found!''))
      | Some h \<Rightarrow>
          pbind (Some (event_at s event)) (\<lambda>e.
          if ev_queue e \<noteq> Some (q_id s) then Some (Inl (AssertFail ''event->queue == this''))
          else
            pbind (Some (event_at s h)) (\<lambda>he.
            if ev_equal he e then
              pbind (removeItem event h s) (\<lambda>(p, s1). Some (Inr (s1\<lparr> head := p \<rparr>)))
            else
              pbind (find_bin h (nextBin he) event s) (\<lambda>(prev, cur).
              case cur of
                None \<Rightarrow> Some (Inl (Panic ''event not found!''))
              | Some c \<Rightarrow>
                  pbind (Some (event_at s c)) (\<lambda>ce.
                  if ev_not_equal ce e then Some (Inl (Panic ''event not found!''))
                  else
                    pbind (removeItem event c s) (\<lambda>(p, s1).
                    Some (set_event prev (\<lambda>e. e\<lparr> nextBin := p \<rparr>) s1)))))))"

section \<open>Scheduling\<close>

definition asyncInsert :: "evid \<Rightarrow> EventQueue \<Rightarrow> EventQueue" where
  "asyncInsert event s = s\<lparr> async_queue := async_queue s @ [event] \<rparr>"

definition set_flags :: "u16 \<Rightarrow> Event \<Rightarrow> Event" where
  "set_flags m e = e\<lparr> ev_flags := flag_set (ev_flags e) m \<rparr>"

definition clear_flags :: "u16 \<Rightarrow> Event \<Rightarrow> Event" where
  "clear_flags m e = e\<lparr> ev_flags := flag_clear (ev_flags e) m \<rparr>"

definition eq_schedule :: "evid \<Rightarrow> u64 \<Rightarrow> bool \<Rightarrow> EventQueue \<Rightarrow> EventQueue res" where
  "eq_schedule event t global s =
     pbind (Some (event_at s event)) (\<lambda>e.
     if t < curTick s then Some (Inl (AssertFail ''when >= getCurTick()''))
     else if scheduled e then Some (Inl (AssertFail ''!event->scheduled()''))
     else if \<not> initialized e then Some (Inl (AssertFail ''event->initialized()''))
     else
       pbind (Some (set_event event (setWhen t (q_id s)) s)) (\<lambda>s1.
       pbind (if inParallelMode s1 \<and> (q_id s1 \<noteq> curEventQueue s1 \<or> global)
              then Some (Inr (asyncInsert event s1))
              else eq_insert event s1) (\<lambda>s2.
       Some (rbind (set_event event (set_flags ev_Scheduled) s2) (ev_acquire event)))))"

definition eq_deschedule :: "evid \<Rightarrow> EventQueue \<Rightarrow> EventQueue res" where
  "eq_deschedule event s =
     pbind (Some (event_at s event)) (\<lambda>e.
     if \<not> scheduled e then Some (Inl (AssertFail ''event->scheduled()''))
     else if \<not> initialized e then Some (Inl (AssertFail ''event->initialized()''))
     else if inParallelMode s \<and> q_id s \<noteq> curEventQueue s
       then Some (Inl (AssertFail ''!inParallelMode || this == curEventQueue()''))
     else
       pbind (eq_remove event s) (\<lambda>s1.
       Some (rbind (set_event event (clear_flags ev_Squashed) s1) (\<lambda>s2.
             rbind (set_event event (clear_flags ev_Scheduled) s2) (ev_release event)))))"

definition eq_reschedule :: "evid \<Rightarrow> u64 \<Rightarrow> bool \<Rightarrow> EventQueue \<Rightarrow> EventQueue res" where
  "eq_reschedule event t always s =
     pbind (Some (event_at s event)) (\<lambda>e.
     if t < curTick s then Some (Inl (AssertFail ''when >= getCurTick()''))
     else if \<not> (always \<or> scheduled e) then Some (Inl (AssertFail ''always || event->scheduled()''))
     else if \<not> initialized e then Some (Inl (AssertFail ''event->initialized()''))
     else if inParallelMode s \<and> q_id s \<noteq> curEventQueue s
       then Some (Inl (AssertFail ''!inParallelMode || this == curEventQueue()''))
     else
       pbind (if scheduled e then eq_remove event s else Some (ev_acquire event s)) (\<lambda>s1.
       pbind (Some (set_event event (setWhen t (q_id s)) s1)) (\<lambda>s2.
       pbind (eq_insert event s2) (\<lambda>s3.
       Some (rbind (set_event event (clear_flags ev_Squashed) s3)
              (set_event event (set_flags ev_Scheduled)))))))"

fun insert_async :: "evid list \<Rightarrow> EventQueue \<Rightarrow> EventQueue res" where
  "insert_async [] s = Some (Inr (s\<lparr> async_queue := [] \<rparr>))"
| "insert_async (e # es) s =
     pbind (eq_insert e s) (\<lambda>s1. insert_async es (s1\<lparr> async_queue := es \<rparr>))"

definition handleAsyncInsertions :: "EventQueue \<Rightarrow> EventQueue res" where
  "handleAsyncInsertions s =
     (if q_id s \<noteq> curEventQueue s then Some (Inl (AssertFail ''this == curEventQueue()''))
      else insert_async (async_queue s) s)"

definition squash :: "evid \<Rightarrow> EventQueue \<Rightarrow> EventQueue outcome" where
  "squash p s = set_event p (set_flags ev_Squashed) s"

definition replaceHead :: "evid option \<Rightarrow> EventQueue \<Rightarrow> evid option \<times> EventQueue" where
  "replaceHead p s = (head s, s\<lparr> head := p \<rparr>)"

section \<open>Servicing events\<close>

text \<open>The calls a processed event can make to its queue.\<close>

datatype eq_call =
    NewEvent evid Priority u16
  | Schedule evid u64
  | Deschedule evid
  | Reschedule evid u64 bool
  | Squash evid

fun run_call :: "eq_call \<Rightarrow> EventQueue \<Rightarrow> EventQueue res" where
  "run_call (NewEvent p pri f) s = Some (new_Event p pri f s)"
| "run_call (Schedule e t) s = eq_schedule e t False s"
| "run_call (Deschedule e) s = eq_deschedule e s"
| "run_call (Reschedule e t always) s = eq_reschedule e t always s"
| "run_call (Squash e) s = Some (squash e s)"

fun run_calls :: "eq_call list \<Rightarrow> EventQueue \<Rightarrow> EventQueue res" where
  "run_calls [] s = Some (Inr s)"
| "run_calls (c # cs) s = pbind (run_call c s) (run_calls cs)"

text \<open>The next event is taken off the queue and marked.\<close>

definition pop_event :: "EventQueue \<Rightarrow> (evid \<times> EventQueue) outcome" where
  "pop_event s =
     rbind (deref (head s)) (\<lambda>h.
     rbind (event_at s h) (\<lambda>he.
     rbind (set_event h (clear_flags ev_Scheduled) s) (\<lambda>s1.
     case nextInBin he of
       Some n \<Rightarrow>
         rbind (set_event n (\<lambda>e. e\<lparr> nextBin := nextBin he \<rparr>) s1) (\<lambda>s2.
         Inr (h, s2\<lparr> head := Some n \<rparr>))
     | None \<Rightarrow> Inr (h, s1\<lparr> head := nextBin he \<rparr>))))"

definition serviceOne ::
  "(evid \<Rightarrow> EventQueue \<Rightarrow> eq_call list) \<Rightarrow> EventQueue \<Rightarrow> (evid option \<times> EventQueue) res" where
  "serviceOne process s =
     pbind (Some (pop_event s)) (\<lambda>(event, s1).
     pbind (Some (event_at s1 event)) (\<lambda>e.
     if \<not> squashed e then
       let s2 = s1\<lparr> curTick := ev_when e \<rparr> in
       pbind (run_calls (process event s2) s2) (\<lambda>s3.
       pbind (Some (event_at s3 event)) (\<lambda>e3.
       if isExitEvent e3 then
         if isManaged e3 \<and> flag_isSet (ev_flags e3) ev_IsMainQueue
         then Some (Inl (AssertFail ''!Managed || !IsMainQueue''))
         else Some (Inr (Some event, s3))
       else Some (rbind (ev_release event s3) (\<lambda>s4. Inr (None, s4)))))
     else
       Some (rbind (set_event event (clear_flags ev_Squashed) s1) (\<lambda>s2.
             rbind (ev_release event s2) (\<lambda>s3. Inr (None, s3))))))"

definition nextTick :: "EventQueue \<Rightarrow> u64 outcome" where
  "nextTick s = rbind (deref (head s)) (\<lambda>h. rbind (event_at s h) (\<lambda>he. Inr (ev_when he)))"

partial_function (option) serviceEvents ::
  "(evid \<Rightarrow> EventQueue \<Rightarrow> eq_call list) \<Rightarrow> u64 \<Rightarrow> EventQueue \<Rightarrow> EventQueue res" where
  "serviceEvents process t s =
     (if head s = None then Some (Inr (s\<lparr> curTick := t \<rparr>))
      else (case nextTick s of
              Inl err \<Rightarrow> Some (Inl err)
            | Inr n \<Rightarrow>
                if n > t then Some (Inr (s\<lparr> curTick := t \<rparr>))
                else (case serviceOne process s of
                        None \<Rightarrow> None
                      | Some (Inl err) \<Rightarrow> Some (Inl err)
                      | Some (Inr r) \<Rightarrow> serviceEvents process t (snd r))))"

text \<open>
  The simulation loop (\<^verbatim>\<open>sim/simulate.cc\<close>) of a thread, without the handling of signals: it
  ends with the first exit event.
\<close>

partial_function (option) sim_loop ::
  "(evid \<Rightarrow> EventQueue \<Rightarrow> eq_call list) \<Rightarrow> EventQueue \<Rightarrow> (evid \<times> EventQueue) res" where
  "sim_loop process s =
     (if head s = None then Some (Inl (AssertFail ''!eventq->empty()''))
      else (case nextTick s of
              Inl err \<Rightarrow> Some (Inl err)
            | Inr n \<Rightarrow>
                if \<not> curTick s \<le> n then Some (Inl (AssertFail ''event scheduled in the past''))
                else (case serviceOne process s of
                        None \<Rightarrow> None
                      | Some (Inl err) \<Rightarrow> Some (Inl err)
                      | Some (Inr r) \<Rightarrow>
                          (case fst r of
                             Some e \<Rightarrow> Some (Inr (e, snd r))
                           | None \<Rightarrow> sim_loop process (snd r)))))"

definition doSimLoop ::
  "(evid \<Rightarrow> EventQueue \<Rightarrow> eq_call list) \<Rightarrow> EventQueue \<Rightarrow> (evid \<times> EventQueue) res" where
  "doSimLoop process s =
     pbind (handleAsyncInsertions (s\<lparr> curEventQueue := q_id s \<rparr>)) (sim_loop process)"

text \<open>The destructor deschedules the head until the queue is empty.\<close>

partial_function (option) destroy_EventQueue :: "EventQueue \<Rightarrow> EventQueue res" where
  "destroy_EventQueue s =
     (case head s of
        None \<Rightarrow> Some (Inr s)
      | Some h \<Rightarrow>
          (case eq_deschedule h s of
             None \<Rightarrow> None
           | Some (Inl err) \<Rightarrow> Some (Inl err)
           | Some (Inr s1) \<Rightarrow> destroy_EventQueue s1))"

section \<open>Checkpoints\<close>

text \<open>What a checkpoint stores of an event.\<close>

record ev_checkpoint =
  cp_when :: u64
  cp_priority :: Priority
  cp_flags :: u16

definition ev_serialize :: "Event \<Rightarrow> ev_checkpoint" where
  "ev_serialize e = \<lparr> cp_when = ev_when e, cp_priority = ev_priority e, cp_flags = ev_flags e \<rparr>"

definition ev_unserialize :: "ev_checkpoint \<Rightarrow> Event \<Rightarrow> Event outcome" where
  "ev_unserialize cp e =
     (if scheduled e then Inl (AssertFail ''!scheduled()'')
      else
        let e1 = e\<lparr> ev_when := cp_when cp, ev_priority := cp_priority cp \<rparr> in
        if \<not> initialized e1 then Inl (AssertFail ''initialized()'')
        else
          let e2 = e1\<lparr> ev_flags := flag_set (cp_flags cp) ev_Initialized \<rparr> in
          if scheduled e2 \<and> \<not> squashed e2 then Inr (clear_flags (ev_Squashed OR ev_Scheduled) e2)
          else Inr e2)"

definition checkpointReschedule :: "evid \<Rightarrow> EventQueue \<Rightarrow> EventQueue res" where
  "checkpointReschedule event s =
     pbind (Some (event_at s event)) (\<lambda>e.
     if scheduled e then eq_insert event s else Some (Inr s))"

definition UNSERIALIZE_EVENT :: "ev_checkpoint \<Rightarrow> evid \<Rightarrow> EventQueue \<Rightarrow> EventQueue res" where
  "UNSERIALIZE_EVENT cp event s =
     pbind (Some (rbind (event_at s event) (ev_unserialize cp))) (\<lambda>e.
     checkpointReschedule event (s\<lparr> events := (events s)(event \<mapsto> e) \<rparr>))"

section \<open>The debugging check of the queue\<close>

text \<open>
  The check walks all bins. Its state is the time and priority of the event before and the
  events seen; \<open>None\<close> stands for the return of \<open>false\<close>.
\<close>

partial_function (option) verify_bin ::
  "evid option \<Rightarrow> evid list \<times> u64 \<times> int \<Rightarrow> EventQueue \<Rightarrow> (evid list \<times> u64 \<times> int) option res" where
  "verify_bin nib st s =
     (case nib of
        None \<Rightarrow> Some (Inr (Some st))
      | Some n \<Rightarrow>
          (case event_at s n of
             Inl err \<Rightarrow> Some (Inl err)
           | Inr e \<Rightarrow>
               if ev_when e < fst (snd st) then Some (Inr None)
               else if ev_when e = fst (snd st) \<and> sint (ev_priority e) < snd (snd st)
                 then Some (Inr None)
               else if n \<in> set (fst st) then Some (Inr None)
               else verify_bin (nextInBin e) (n # fst st, ev_when e, sint (ev_priority e)) s))"

partial_function (option) verify_bins ::
  "evid option \<Rightarrow> evid list \<times> u64 \<times> int \<Rightarrow> EventQueue \<Rightarrow> bool res" where
  "verify_bins nb st s =
     (case nb of
        None \<Rightarrow> Some (Inr True)
      | Some b \<Rightarrow>
          (case verify_bin nb st s of
             None \<Rightarrow> None
           | Some (Inl err) \<Rightarrow> Some (Inl err)
           | Some (Inr None) \<Rightarrow> Some (Inr False)
           | Some (Inr (Some st1)) \<Rightarrow>
               (case event_at s b of
                  Inl err \<Rightarrow> Some (Inl err)
                | Inr be \<Rightarrow> verify_bins (nextBin be) st1 s)))"

definition debugVerify :: "EventQueue \<Rightarrow> bool res" where
  "debugVerify s = verify_bins (head s) ([], 0, 0) s"

end
