(* ===== verification/EventQueueHeap.thy ===== *)
theory EventQueueHeap
  imports EventQueue
begin

text \<open>
  The linked structure of the event queue represents a list of bins, and the concatenation
  of the bins is the list of the scheduled events in the order of their service. Insertion is
  insertion into a sorted list, in front of the events with the same time and priority;
  removal deletes the event; both return.
\<close>

section \<open>Keys\<close>

text \<open>Events are ordered by time and, at the same time, by priority.\<close>

lemma sint_eq_iff: "sint a = sint b \<longleftrightarrow> a = b"
  by (metis of_int_sint scast_id)

definition ev_key :: "Event \<Rightarrow> u64 \<times> int" where
  "ev_key e = (ev_when e, sint (ev_priority e))"

lemma ev_less_key: "ev_less l r \<longleftrightarrow> ev_key l < ev_key r"
  by (auto simp: ev_less_def ev_key_def)

lemma ev_less_eq_key: "ev_less_eq l r \<longleftrightarrow> ev_key l \<le> ev_key r"
  by (auto simp: ev_less_eq_def ev_key_def)

lemma ev_equal_key: "ev_equal l r \<longleftrightarrow> ev_key l = ev_key r"
  by (auto simp: ev_equal_def ev_key_def sint_eq_iff)

lemma ev_not_equal_key: "ev_not_equal l r \<longleftrightarrow> ev_key l \<noteq> ev_key r"
  by (auto simp: ev_not_equal_def ev_key_def sint_eq_iff)

lemmas ev_compare = ev_less_key ev_less_eq_key ev_equal_key ev_not_equal_key

lemma ev_key_pointers [simp]:
  "ev_key (e\<lparr> nextBin := x \<rparr>) = ev_key e"
  "ev_key (e\<lparr> nextInBin := y \<rparr>) = ev_key e"
  "ev_key (e\<lparr> ev_flags := f \<rparr>) = ev_key e"
  by (simp_all add: ev_key_def)

type_synonym store = "evid \<Rightarrow> Event option"

abbreviation key_of :: "store \<Rightarrow> evid \<Rightarrow> u64 \<times> int" where
  "key_of h p \<equiv> ev_key (the (h p))"

section \<open>Bins as lists\<close>

text \<open>A stack of events linked by \<open>nextInBin\<close>.\<close>

fun in_bin :: "store \<Rightarrow> evid option \<Rightarrow> evid list \<Rightarrow> bool" where
  "in_bin h p [] \<longleftrightarrow> p = None"
| "in_bin h p (a # as) \<longleftrightarrow> p = Some a \<and> (\<exists>e. h a = Some e \<and> in_bin h (nextInBin e) as)"

text \<open>
  A chain of bins from \<open>p\<close> to \<open>q\<close>: the first event of a bin links to the first event of the
  next one. The field \<open>nextBin\<close> of the other events is not looked at.
\<close>

fun bins_seg :: "store \<Rightarrow> evid option \<Rightarrow> evid list list \<Rightarrow> evid option \<Rightarrow> bool" where
  "bins_seg h p [] q \<longleftrightarrow> p = q"
| "bins_seg h p ([] # bs) q \<longleftrightarrow> False"
| "bins_seg h p ((a # as) # bs) q \<longleftrightarrow> p = Some a \<and>
     (\<exists>e. h a = Some e \<and> in_bin h (nextInBin e) as \<and> bins_seg h (nextBin e) bs q)"

lemma in_bin_update [simp]:
  "a \<notin> set xs \<Longrightarrow> in_bin (h(a := v)) p xs = in_bin h p xs"
  by (induction h p xs rule: in_bin.induct) auto

lemma bins_seg_update [simp]:
  "a \<notin> set (concat bs) \<Longrightarrow> bins_seg (h(a := v)) p bs q = bins_seg h p bs q"
  by (induction h p bs q rule: bins_seg.induct) auto

lemmas in_bin_update' [simp] = in_bin_update[unfolded fun_upd_def]
  and bins_seg_update' [simp] = bins_seg_update[unfolded fun_upd_def]

text \<open>Changes that keep the links keep the chain.\<close>

lemma in_bin_cong:
  "(\<And>x. x \<in> set xs \<Longrightarrow> map_option nextInBin (h' x) = map_option nextInBin (h x)) \<Longrightarrow>
   in_bin h' p xs = in_bin h p xs"
proof (induction xs arbitrary: p)
  case (Cons a as)
  have eq: "map_option nextInBin (h' a) = map_option nextInBin (h a)"
    by (rule Cons(2)) simp
  have ih: "in_bin h' r as = in_bin h r as" for r
    by (rule Cons(1)) (use Cons(2) in auto)
  show ?case
    using eq by (cases "h a"; cases "h' a") (auto simp: ih)
qed simp

definition links :: "Event \<Rightarrow> evid option \<times> evid option" where
  "links e = (nextBin e, nextInBin e)"

lemma bins_seg_cong:
  "(\<And>x. x \<in> set (concat bs) \<Longrightarrow> map_option links (h' x) = map_option links (h x)) \<Longrightarrow>
   bins_seg h' p bs q = bins_seg h p bs q"
proof (induction bs arbitrary: p)
  case (Cons b bs)
  show ?case
  proof (cases b)
    case b: (Cons a as)
    have eq: "map_option links (h' a) = map_option links (h a)"
      by (rule Cons(2)) (simp add: b)
    have ih: "bins_seg h' r bs q = bins_seg h r bs q" for r
      by (rule Cons(1)) (use Cons(2) in auto)
    have "map_option nextInBin (h' x) = map_option nextInBin (h x)" if "x \<in> set as" for x
      using Cons(2)[of x] that b by (cases "h x"; cases "h' x") (auto simp: links_def)
    then have ib: "in_bin h' r as = in_bin h r as" for r
      by (rule in_bin_cong)
    show ?thesis
      using eq by (cases "h a"; cases "h' a") (auto simp: b links_def ih ib)
  qed simp
qed simp

lemma bins_seg_append:
  "bins_seg h p (xs @ ys) q \<longleftrightarrow> (\<exists>m. bins_seg h p xs m \<and> bins_seg h m ys q)"
  by (induction h p xs q rule: bins_seg.induct) auto

lemma bins_seg_nonempty: "bins_seg h p bs q \<Longrightarrow> [] \<notin> set bs"
  by (induction h p bs q rule: bins_seg.induct) auto

lemma in_bin_alloc: "in_bin h p xs \<Longrightarrow> x \<in> set xs \<Longrightarrow> \<exists>e. h x = Some e"
  by (induction h p xs rule: in_bin.induct) auto

lemma bins_seg_alloc: "bins_seg h p bs q \<Longrightarrow> x \<in> set (concat bs) \<Longrightarrow> \<exists>e. h x = Some e"
  by (induction h p bs q rule: bins_seg.induct) (auto dest: in_bin_alloc)

lemma bins_seg_first: "bins_seg h p (b # bs) q \<Longrightarrow> p = Some (hd b) \<and> b \<noteq> []"
  by (cases b) auto

lemma bins_seg_None: "bins_seg h None bs None \<Longrightarrow> bs = []"
  by (cases bs rule: list.exhaust; auto dest: bins_seg_first)

lemma bins_seg_Some: "bins_seg h (Some a) bs None \<Longrightarrow> \<exists>as cs. bs = (a # as) # cs"
proof (cases bs)
  case (Cons b cs)
  assume "bins_seg h (Some a) bs None"
  with Cons show ?thesis
    by (cases b) auto
qed simp

text \<open>The last bin of a chain can be linked to another one.\<close>

lemma bins_seg_link:
  assumes "bins_seg h p bs m" "bs \<noteq> []" "distinct (concat bs)" "h (hd (last bs)) = Some e"
  shows "bins_seg (h(hd (last bs) \<mapsto> e\<lparr> nextBin := q \<rparr>)) p bs q"
  using assms
proof (induction h p bs m rule: bins_seg.induct)
  case (3 h p a as bs m)
  from 3(2) obtain e' where e': "p = Some a" "h a = Some e'" "in_bin h (nextInBin e') as"
    "bins_seg h (nextBin e') bs m" by auto
  show ?case
  proof (cases "bs = []")
    case True
    with 3(4,5) e' show ?thesis by (auto simp: in_bin_update[unfolded fun_upd_def])
  next
    case False
    define t where "t = hd (last bs)"
    have "last bs \<in> set bs" "last bs \<noteq> []"
      using last_in_set[OF False] bins_seg_nonempty[OF e'(4)] by metis+
    then have "t \<in> set (concat bs)"
      by (auto simp: t_def intro!: bexI[of _ "last bs"])
    with 3(4) have ne: "t \<noteq> a" "t \<notin> set as"
      by auto
    have "bins_seg (h(t \<mapsto> e\<lparr> nextBin := q \<rparr>)) (nextBin e') bs q"
      unfolding t_def by (rule 3(1)) (use e' False 3(4,5) in auto)
    moreover have "(h(t \<mapsto> e\<lparr> nextBin := q \<rparr>)) a = Some e'"
      "in_bin (h(t \<mapsto> e\<lparr> nextBin := q \<rparr>)) (nextInBin e') as"
      using e' ne by simp_all
    moreover have "hd (last ((a # as) # bs)) = t"
      using False by (simp add: t_def)
    ultimately show ?thesis
      using e'(1) by (auto simp del: fun_upd_apply)
  qed
qed simp_all

section \<open>Bins of a sorted queue\<close>

definition same_key :: "(evid \<Rightarrow> 'k) \<Rightarrow> evid list \<Rightarrow> bool" where
  "same_key k b \<longleftrightarrow> (\<forall>x \<in> set b. \<forall>y \<in> set b. k x = k y)"

lemma same_key_hd: "same_key k b \<Longrightarrow> x \<in> set b \<Longrightarrow> k x = k (hd b)"
proof -
  assume b: "same_key k b" and x: "x \<in> set b"
  then have "hd b \<in> set b" by (cases b) auto
  with b x show ?thesis unfolding same_key_def by blast
qed

lemma same_key_Nil [simp]: "same_key k []"
  by (simp add: same_key_def)

lemma same_key_single [simp]: "same_key k [e]"
  by (simp add: same_key_def)

lemma same_key_Cons: "same_key k b \<Longrightarrow> b = [] \<or> k e = k (hd b) \<Longrightarrow> same_key k (e # b)"
  using same_key_hd[of k b] by (auto simp: same_key_def[of k "e # b"])

lemma same_key_subset: "same_key k b \<Longrightarrow> set c \<subseteq> set b \<Longrightarrow> same_key k c"
  by (auto simp: same_key_def)

definition wf_bins :: "(evid \<Rightarrow> 'k::linorder) \<Rightarrow> evid list list \<Rightarrow> bool" where
  "wf_bins k bs \<longleftrightarrow> (\<forall>b \<in> set bs. b \<noteq> [] \<and> same_key k b) \<and>
     sorted_wrt (<) (map (\<lambda>b. k (hd b)) bs)"

lemma wf_bins_Nil [simp]: "wf_bins k []"
  by (simp add: wf_bins_def)

lemma wf_bins_Cons:
  "wf_bins k (b # bs) \<longleftrightarrow> b \<noteq> [] \<and> same_key k b \<and>
     (\<forall>c \<in> set bs. k (hd b) < k (hd c)) \<and> wf_bins k bs"
  by (auto simp: wf_bins_def)

lemma wf_bins_append:
  "wf_bins k (xs @ ys) \<longleftrightarrow> wf_bins k xs \<and> wf_bins k ys \<and>
     (\<forall>b \<in> set xs. \<forall>c \<in> set ys. k (hd b) < k (hd c))"
  by (auto simp: wf_bins_def sorted_wrt_append)

lemma wf_bins_cong:
  assumes eq: "\<And>x. x \<in> set (concat bs) \<Longrightarrow> k' x = k x" and wf: "wf_bins k bs"
  shows "wf_bins k' bs"
proof -
  have hd: "k' (hd b) = k (hd b)" if "b \<in> set bs" for b
  proof (rule eq)
    have "b \<noteq> []" using wf that by (simp add: wf_bins_def)
    then show "hd b \<in> set (concat bs)" using that hd_in_set by fastforce
  qed
  have "same_key k' b" if "b \<in> set bs" for b
    unfolding same_key_def
  proof (intro ballI)
    fix x y assume "x \<in> set b" "y \<in> set b"
    moreover from that wf have "same_key k b" by (simp add: wf_bins_def)
    ultimately have "k x = k y" unfolding same_key_def by blast
    moreover have "k' x = k x" "k' y = k y"
      using that \<open>x \<in> set b\<close> \<open>y \<in> set b\<close> eq[of x] eq[of y] by auto
    ultimately show "k' x = k' y" by simp
  qed
  moreover have "map (\<lambda>b. k' (hd b)) bs = map (\<lambda>b. k (hd b)) bs"
    using hd by simp
  ultimately show ?thesis
    using wf unfolding wf_bins_def by metis
qed

text \<open>The events of the bins, one after the other, are sorted.\<close>

lemma wf_bins_greater:
  assumes "wf_bins k (b # bs)" "x \<in> set (concat bs)"
  shows "k (hd b) < k x"
proof -
  from assms(2) obtain c where c: "c \<in> set bs" "x \<in> set c" by auto
  with assms(1) have "k (hd b) < k (hd c)" "same_key k c"
    by (auto simp: wf_bins_def)
  with same_key_hd[OF this(2) c(2)] show ?thesis by simp
qed

lemma same_key_sorted: "same_key k b \<Longrightarrow> sorted (map k b)"
proof -
  assume b: "same_key k b"
  have "map k b = replicate (length b) (k (hd b))"
    by (rule replicate_eqI) (auto dest: same_key_hd[OF b])
  then show ?thesis by simp
qed

lemma wf_bins_sorted: "wf_bins k bs \<Longrightarrow> sorted (map k (concat bs))"
proof (induction bs)
  case (Cons b bs)
  then have b: "same_key k b" "wf_bins k bs"
    by (auto simp: wf_bins_Cons)
  have "k x \<le> k y" if "x \<in> set b" "y \<in> set (concat bs)" for x y
    using wf_bins_greater[OF Cons(2) that(2)] same_key_hd[OF b(1) that(1)] by simp
  then show ?case
    using Cons(1)[OF b(2)] same_key_sorted[OF b(1)] by (auto simp: sorted_append)
qed simp

text \<open>Insertion of an event into the bins.\<close>

fun ins_bins :: "(evid \<Rightarrow> 'k::linorder) \<Rightarrow> evid \<Rightarrow> evid list list \<Rightarrow> evid list list" where
  "ins_bins k e [] = [[e]]"
| "ins_bins k e (b # bs) =
     (if k e < k (hd b) then [e] # b # bs
      else if k e = k (hd b) then (e # b) # bs
      else b # ins_bins k e bs)"

lemma set_ins_bins: "set (concat (ins_bins k e bs)) = insert e (set (concat bs))"
  by (induction bs) auto

lemma distinct_ins_bins:
  "distinct (concat bs) \<Longrightarrow> e \<notin> set (concat bs) \<Longrightarrow> distinct (concat (ins_bins k e bs))"
proof (induction bs)
  case (Cons b bs)
  have "set b \<inter> set (concat (ins_bins k e bs)) = {}"
    using Cons by (subst set_ins_bins) auto
  with Cons show ?case
    by auto
qed simp

lemma hd_ins_bins:
  "c \<in> set (ins_bins k e bs) \<Longrightarrow> k (hd c) = k e \<or> (\<exists>b \<in> set bs. k (hd c) = k (hd b))"
  by (induction bs) (auto split: if_splits)

lemma wf_ins_bins: "wf_bins k bs \<Longrightarrow> wf_bins k (ins_bins k e bs)"
proof (induction bs)
  case (Cons b bs)
  then have b: "b \<noteq> []" "same_key k b" "\<forall>c \<in> set bs. k (hd b) < k (hd c)" "wf_bins k bs"
    by (auto simp: wf_bins_Cons)
  consider "k e < k (hd b)" | "k e = k (hd b)" | "k (hd b) < k e"
    by fastforce
  then show ?case
  proof cases
    case 1
    with b show ?thesis by (auto simp: wf_bins_Cons)
  next
    case 2
    with b show ?thesis by (auto simp: wf_bins_Cons intro!: same_key_Cons)
  next
    case 3
    have "k (hd b) < k (hd c)" if "c \<in> set (ins_bins k e bs)" for c
      using hd_ins_bins[OF that] 3 b(3) by auto
    with 3 b Cons(1) show ?thesis by (auto simp: wf_bins_Cons)
  qed
qed (simp add: wf_bins_def)

lemma ins_bins_skip:
  "(\<And>b. b \<in> set ys \<Longrightarrow> k (hd b) < k e) \<Longrightarrow> ins_bins k e (ys @ zs) = ys @ ins_bins k e zs"
proof (induction ys)
  case (Cons b ys)
  have b: "k (hd b) < k e" by (rule Cons(2)) simp
  have "ins_bins k e (ys @ zs) = ys @ ins_bins k e zs"
    by (rule Cons(1)) (simp add: Cons(2))
  with b show ?case by auto
qed simp

lemma insort_key_skip:
  "(\<And>x. x \<in> set b \<Longrightarrow> k x < k e) \<Longrightarrow> insort_key k e (b @ xs) = b @ insort_key k e xs"
proof (induction b)
  case (Cons a b)
  have a: "k a < k e" by (rule Cons(2)) simp
  have "insort_key k e (b @ xs) = b @ insort_key k e xs"
    by (rule Cons(1)) (simp add: Cons(2))
  with a show ?case by auto
qed simp

lemma insort_key_front: "xs = [] \<or> k e \<le> k (hd xs) \<Longrightarrow> insort_key k e xs = e # xs"
  by (cases xs) auto

lemma concat_ins_bins:
  "wf_bins k bs \<Longrightarrow> concat (ins_bins k e bs) = insort_key k e (concat bs)"
proof (induction bs)
  case (Cons b bs)
  then have b: "b \<noteq> []" "same_key k b" "wf_bins k bs"
    by (auto simp: wf_bins_Cons)
  show ?case
  proof (cases "k e \<le> k (hd b)")
    case True
    then have "insort_key k e (concat (b # bs)) = e # concat (b # bs)"
      using b(1) by (intro insort_key_front) auto
    with True show ?thesis by auto
  next
    case False
    have "k x < k e" if "x \<in> set b" for x
      using False same_key_hd[OF b(2) that] by simp
    then have "insort_key k e (b @ concat bs) = b @ insort_key k e (concat bs)"
      by (rule insort_key_skip)
    with False Cons(1)[OF b(3)] show ?thesis by auto
  qed
qed simp

text \<open>Removal of an event from the bins.\<close>

definition rem_bins :: "evid \<Rightarrow> evid list list \<Rightarrow> evid list list" where
  "rem_bins e bs = filter (\<lambda>b. b \<noteq> []) (map (removeAll e) bs)"

lemma concat_rem_bins: "concat (rem_bins e bs) = removeAll e (concat bs)"
  by (induction bs) (auto simp: rem_bins_def)

lemma rem_bins_notin: "e \<notin> set (concat bs) \<Longrightarrow> [] \<notin> set bs \<Longrightarrow> rem_bins e bs = bs"
  by (induction bs) (auto simp: rem_bins_def)

lemma rem_bins_append: "rem_bins e (xs @ ys) = rem_bins e xs @ rem_bins e ys"
  by (simp add: rem_bins_def)

lemma wf_rem_bins: "wf_bins k bs \<Longrightarrow> wf_bins k (rem_bins e bs)"
proof (induction bs)
  case (Cons b bs)
  then have b: "same_key k b" "\<forall>c \<in> set bs. k (hd b) < k (hd c)" "wf_bins k bs"
    by (auto simp: wf_bins_Cons)
  have key: "k (hd (removeAll e c)) = k (hd c)" if "same_key k c" "removeAll e c \<noteq> []" for c
    using hd_in_set[OF that(2)] by (intro same_key_hd[OF that(1)]) auto
  have "k (hd b) < k (hd c)" if "c \<in> set (rem_bins e bs)" for c
  proof -
    from that obtain d where d: "d \<in> set bs" "c = removeAll e d" "c \<noteq> []"
      by (auto simp: rem_bins_def)
    with b(3) have "same_key k d" by (auto simp: wf_bins_def)
    with key[of d] d b(2) show ?thesis by auto
  qed
  then show ?case
    using Cons(1)[OF b(3)] key[OF b(1)] same_key_subset[OF b(1), of "removeAll e b"]
    by (auto simp: rem_bins_def wf_bins_Cons)
qed (simp add: rem_bins_def)

end
