(* ===== verification/EventQueueRefine.thy ===== *)
theory EventQueueRefine
  imports EventQueueHeap
begin

text \<open>
  The pointer operations of the event queue against its list of bins: every search loop
  returns, and insertion and removal have the effect of the list operations and change
  nothing but links.
\<close>

lemma event_at_Inr [simp]: "event_at s p = Inr e \<longleftrightarrow> events s p = Some e"
  by (simp add: event_at_def split: option.splits)

lemma event_at_Some: "events s p = Some e \<Longrightarrow> event_at s p = Inr e"
  by simp

lemma set_event_Some:
  "events s p = Some e \<Longrightarrow> set_event p f s = Inr (s\<lparr> events := (events s)(p \<mapsto> f e) \<rparr>)"
  by (simp add: set_event_def event_at_Some)

lemma EventQueue_events_id [simp]: "s\<lparr> events := events s \<rparr> = s"
  by simp

section \<open>Changes of links only\<close>

definition attrs :: "Event \<Rightarrow> u64 \<times> Priority \<times> u16 \<times> nat option" where
  "attrs e = (ev_when e, ev_priority e, ev_flags e, ev_queue e)"

definition same_attrs :: "store \<Rightarrow> store \<Rightarrow> bool" where
  "same_attrs h h' \<longleftrightarrow> (\<forall>p. map_option attrs (h' p) = map_option attrs (h p))"

lemma attrs_links [simp]:
  "attrs (e\<lparr> nextBin := x \<rparr>) = attrs e" "attrs (e\<lparr> nextInBin := y \<rparr>) = attrs e"
  by (simp_all add: attrs_def)

lemma same_attrs_refl [simp]: "same_attrs h h"
  by (simp add: same_attrs_def)

lemma same_attrs_trans: "same_attrs h h1 \<Longrightarrow> same_attrs h1 h2 \<Longrightarrow> same_attrs h h2"
  by (simp add: same_attrs_def)

lemma same_attrs_update:
  "h p = Some e \<Longrightarrow> attrs e' = attrs e \<Longrightarrow> same_attrs h (h(p \<mapsto> e'))"
  by (simp add: same_attrs_def)

lemma same_attrs_key: "same_attrs h h' \<Longrightarrow> key_of h' p = key_of h p"
proof -
  assume "same_attrs h h'"
  then have "map_option attrs (h' p) = map_option attrs (h p)"
    by (simp add: same_attrs_def)
  then show ?thesis
    by (cases "h p"; cases "h' p") (auto simp: attrs_def ev_key_def)
qed

lemma same_attrs_get:
  assumes "same_attrs h h'" "h p = Some e"
  obtains e' where "h' p = Some e'" "attrs e' = attrs e"
proof -
  have "map_option attrs (h' p) = Some (attrs e)"
    using assms by (simp add: same_attrs_def)
  then show ?thesis using that by auto
qed

section \<open>Insertion\<close>

lemma find_bin_None: "find_bin prev None event s = Some (Inr (prev, None))"
  by (simp add: find_bin.simps)

lemma find_bin_Some:
  "events s c = Some ce \<Longrightarrow> events s event = Some e \<Longrightarrow>
   find_bin prev (Some c) event s =
     (if ev_key ce < ev_key e then find_bin c (nextBin ce) event s
      else Some (Inr (prev, Some c)))"
  by (subst find_bin.simps) (simp add: event_at_Some ev_compare)

lemma find_bin_split:
  assumes "bins_seg (events s) cur bs None" "events s event = Some e"
  shows "\<exists>ys zs cur'. bs = ys @ zs \<and>
     find_bin prev cur event s = Some (Inr (if ys = [] then prev else hd (last ys), cur')) \<and>
     bins_seg (events s) cur ys cur' \<and> bins_seg (events s) cur' zs None \<and>
     (\<forall>b \<in> set ys. key_of (events s) (hd b) < ev_key e) \<and>
     (zs \<noteq> [] \<longrightarrow> \<not> key_of (events s) (hd (hd zs)) < ev_key e)"
  using assms(1)
proof (induction bs arbitrary: prev cur)
  case Nil
  then show ?case
    by (intro exI[of _ "[]"] exI[of _ None]) (simp add: find_bin_None)
next
  case (Cons b bs)
  then obtain c as where b: "b = c # as"
    using bins_seg_first by (cases b) auto
  with Cons(2) obtain ce where ce: "cur = Some c" "events s c = Some ce"
    "in_bin (events s) (nextInBin ce) as" "bins_seg (events s) (nextBin ce) bs None"
    by auto
  show ?case
  proof (cases "ev_key ce < ev_key e")
    case True
    from Cons(1)[OF ce(4), of c] obtain ys zs cur' where ih: "bs = ys @ zs"
      "find_bin c (nextBin ce) event s = Some (Inr (if ys = [] then c else hd (last ys), cur'))"
      "bins_seg (events s) (nextBin ce) ys cur'" "bins_seg (events s) cur' zs None"
      "\<forall>b \<in> set ys. key_of (events s) (hd b) < ev_key e"
      "zs \<noteq> [] \<longrightarrow> \<not> key_of (events s) (hd (hd zs)) < ev_key e"
      by blast
    show ?thesis
      by (intro exI[of _ "b # ys"] exI[of _ zs] exI[of _ cur'])
        (use ih ce True b in \<open>auto simp: find_bin_Some[OF ce(2) assms(2)]\<close>)
  next
    case False
    then show ?thesis
      by (intro exI[of _ "[]"] exI[of _ "b # bs"] exI[of _ cur])
        (use Cons(2) ce b in \<open>auto simp: find_bin_Some[OF ce(2) assms(2)]\<close>)
  qed
qed

lemma insertBefore_bins:
  assumes seg: "bins_seg (events s) cur zs None" and e: "events s event = Some e"
    and notin: "event \<notin> set (concat zs)"
    and le: "zs \<noteq> [] \<longrightarrow> ev_key e \<le> key_of (events s) (hd (hd zs))"
  shows "\<exists>e'. insertBefore event cur s = Inr (event, s\<lparr> events := (events s)(event \<mapsto> e') \<rparr>) \<and>
     attrs e' = attrs e \<and>
     bins_seg ((events s)(event \<mapsto> e')) (Some event) (ins_bins (key_of (events s)) event zs) None"
proof (cases zs)
  case Nil
  with seg have "cur = None" by simp
  with Nil e show ?thesis
    by (intro exI[of _ "e\<lparr> nextBin := None, nextInBin := None \<rparr>"])
      (simp add: insertBefore_def set_event_Some[OF e])
next
  case (Cons b bs)
  with seg obtain c as where b: "b = c # as"
    by (cases b) auto
  with seg Cons obtain ce where ce: "cur = Some c" "events s c = Some ce"
    "in_bin (events s) (nextInBin ce) as" "bins_seg (events s) (nextBin ce) bs None"
    by auto
  have ne: "event \<noteq> c" "event \<notin> set as" "event \<notin> set (concat bs)"
    using notin Cons b by auto
  show ?thesis
  proof (cases "ev_key e < ev_key ce")
    case True
    then have "insertBefore event cur s = Inr (event, s\<lparr> events := (events s)(event \<mapsto>
        e\<lparr> nextBin := Some c, nextInBin := None \<rparr>) \<rparr>)"
      using ce e by (simp add: insertBefore_def event_at_Some ev_compare set_event_Some[OF e])
    moreover have "bins_seg ((events s)(event \<mapsto> e\<lparr> nextBin := Some c, nextInBin := None \<rparr>))
        (Some c) zs None"
      using seg ce(1) by (subst bins_seg_update[OF notin]) simp
    ultimately show ?thesis
      using True Cons b ce e by (intro exI[of _ "e\<lparr> nextBin := Some c, nextInBin := None \<rparr>"]) simp
  next
    case False
    with le Cons b ce have key: "ev_key e = ev_key ce" by simp
    have "insertBefore event cur s = Inr (event, s\<lparr> events := (events s)(event \<mapsto>
        e\<lparr> nextBin := nextBin ce, nextInBin := Some c \<rparr>) \<rparr>)"
      using ce e False by (simp add: insertBefore_def event_at_Some ev_compare set_event_Some[OF e])
    moreover have "in_bin ((events s)(event \<mapsto> e')) (Some c) (c # as)"
      "bins_seg ((events s)(event \<mapsto> e')) (nextBin ce) bs None" for e'
      using ce ne by simp_all
    ultimately show ?thesis
      using key Cons b ce e
      by (intro exI[of _ "e\<lparr> nextBin := nextBin ce, nextInBin := Some c \<rparr>"]) simp
  qed
qed

lemma eq_insert_bins:
  assumes seg: "bins_seg (events s) (head s) bs None" and e: "events s event = Some e"
    and notin: "event \<notin> set (concat bs)" and dist: "distinct (concat bs)"
  shows "\<exists>h' p. eq_insert event s = Some (Inr (s\<lparr> events := h', head := p \<rparr>)) \<and>
     bins_seg h' p (ins_bins (key_of (events s)) event bs) None \<and> same_attrs (events s) h'"
proof (cases bs)
  case Nil
  with seg have "head s = None" by simp
  with insertBefore_bins[of s None "[]" event e] e Nil show ?thesis
    by (auto simp: eq_insert_def event_at_Some intro!: same_attrs_update)
next
  case (Cons b bs')
  with seg obtain c as where b: "b = c # as"
    by (cases b) auto
  with seg Cons obtain ce where ce: "head s = Some c" "events s c = Some ce"
    "in_bin (events s) (nextInBin ce) as" "bins_seg (events s) (nextBin ce) bs' None"
    by auto
  show ?thesis
  proof (cases "ev_key e \<le> ev_key ce")
    case True
    then have "bs \<noteq> [] \<longrightarrow> ev_key e \<le> key_of (events s) (hd (hd bs))"
      using Cons b ce by simp
    from insertBefore_bins[OF seg e notin this] obtain e' where
      "insertBefore event (head s) s = Inr (event, s\<lparr> events := (events s)(event \<mapsto> e') \<rparr>)"
      "attrs e' = attrs e"
      "bins_seg ((events s)(event \<mapsto> e')) (Some event) (ins_bins (key_of (events s)) event bs) None"
      by blast
    with True ce e show ?thesis
      by (auto simp: eq_insert_def event_at_Some ev_compare intro!: same_attrs_update)
  next
    case False
    from find_bin_split[OF ce(4) e, of c] obtain ys zs cur where split: "bs' = ys @ zs"
      "find_bin c (nextBin ce) event s = Some (Inr (if ys = [] then c else hd (last ys), cur))"
      "bins_seg (events s) (nextBin ce) ys cur" "bins_seg (events s) cur zs None"
      "\<forall>b \<in> set ys. key_of (events s) (hd b) < ev_key e"
      "zs \<noteq> [] \<longrightarrow> \<not> key_of (events s) (hd (hd zs)) < ev_key e"
      by blast
    define ys' where "ys' = b # ys"
    define prev where "prev = hd (last ys')"
    have bs: "bs = ys' @ zs" by (simp add: Cons split(1) ys'_def)
    have fb: "find_bin c (nextBin ce) event s = Some (Inr (prev, cur))"
      using split(2) b by (auto simp: prev_def ys'_def)
    from insertBefore_bins[OF split(4) e] notin split(6) obtain e' where ib:
      "insertBefore event cur s = Inr (event, s\<lparr> events := (events s)(event \<mapsto> e') \<rparr>)"
      "attrs e' = attrs e"
      "bins_seg ((events s)(event \<mapsto> e')) (Some event) (ins_bins (key_of (events s)) event zs) None"
      by (auto simp: bs not_less)
    define h1 where "h1 = (events s)(event \<mapsto> e')"
    have seg': "bins_seg (events s) (head s) ys' cur"
      using ce b split(3) by (auto simp: ys'_def)
    have seg1: "bins_seg h1 (head s) ys' cur"
      unfolding h1_def using notin bs by (subst bins_seg_update) (auto simp: seg')
    have "last ys' \<in> set ys'" "last ys' \<noteq> []"
      using bins_seg_nonempty[OF seg'] last_in_set[of ys'] by (auto simp: ys'_def)
    then have prev_in: "prev \<in> set (concat ys')"
      by (auto simp: prev_def intro!: bexI[of _ "last ys'"])
    then obtain pe where pe: "h1 prev = Some pe"
      using bins_seg_alloc[OF seg1] by blast
    define h2 where "h2 = h1(prev \<mapsto> pe\<lparr> nextBin := Some event \<rparr>)"
    have "bins_seg h2 (head s) ys' (Some event)"
      unfolding h2_def prev_def
      by (rule bins_seg_link[OF seg1]) (use dist bs pe in \<open>auto simp: ys'_def prev_def\<close>)
    moreover have "prev \<notin> set (concat (ins_bins (key_of (events s)) event zs))"
      using prev_in notin dist by (subst set_ins_bins) (auto simp: bs)
    then have "bins_seg h2 (Some event) (ins_bins (key_of (events s)) event zs) None"
      using ib(3) by (simp add: h2_def h1_def)
    moreover have "ins_bins (key_of (events s)) event bs =
        ys' @ ins_bins (key_of (events s)) event zs"
      unfolding bs by (rule ins_bins_skip) (use False split(5) b ce e in \<open>auto simp: ys'_def\<close>)
    ultimately have "bins_seg h2 (head s) (ins_bins (key_of (events s)) event bs) None"
      by (auto simp: bins_seg_append)
    moreover have "same_attrs (events s) h2"
      unfolding h2_def
      by (rule same_attrs_trans[OF _ same_attrs_update[where h = h1 and p = prev, OF pe]])
        (use e ib(2) in \<open>auto simp: h1_def intro: same_attrs_update\<close>)
    moreover have "eq_insert event s = Some (Inr (s\<lparr> events := h2 \<rparr>))"
      using False ce e fb ib(1) pe
      by (simp add: eq_insert_def event_at_Some ev_compare set_event_Some h1_def h2_def)
    moreover have "s\<lparr> events := h2 \<rparr> = s\<lparr> events := h2, head := head s \<rparr>"
      by simp
    ultimately show ?thesis by metis
  qed
qed

section \<open>Removal\<close>

lemma find_in_bin_Some:
  "events s n = Some ne \<Longrightarrow>
   find_in_bin event cur (Some n) s =
     (if event = n then Some (Inr (cur, n)) else find_in_bin event n (nextInBin ne) s)"
  by (subst find_in_bin.simps) (simp add: event_at_Some)

lemma find_in_bin_unlink:
  assumes "events s cur = Some ce" "in_bin (events s) (nextInBin ce) xs" "event \<in> set xs"
    "distinct (cur # xs)"
  shows "\<exists>c c_e ee ce'. find_in_bin event cur (nextInBin ce) s = Some (Inr (c, event)) \<and>
     events s c = Some c_e \<and> events s event = Some ee \<and> c \<in> set (cur # xs) \<and>
     ((events s)(c \<mapsto> c_e\<lparr> nextInBin := nextInBin ee \<rparr>)) cur = Some ce' \<and>
     nextBin ce' = nextBin ce \<and>
     in_bin ((events s)(c \<mapsto> c_e\<lparr> nextInBin := nextInBin ee \<rparr>)) (nextInBin ce') (removeAll event xs)"
  using assms
proof (induction xs arbitrary: cur ce)
  case (Cons n xs)
  then obtain ne where ne: "nextInBin ce = Some n" "events s n = Some ne"
    "in_bin (events s) (nextInBin ne) xs"
    by auto
  show ?case
  proof (cases "event = n")
    case True
    have "n \<notin> set xs" "cur \<notin> set xs" "cur \<noteq> n" using Cons(5) by auto
    then show ?thesis
      using ne Cons(2) True
      by (rule_tac x = cur in exI, rule_tac x = ce in exI, rule_tac x = ne in exI,
          rule_tac x = "ce\<lparr> nextInBin := nextInBin ne \<rparr>" in exI)
        (simp add: find_in_bin_Some[OF ne(2)])
  next
    case False
    have "event \<in> set xs" "distinct (n # xs)"
      using Cons(4,5) False by auto
    from Cons(1)[OF ne(2,3) this] obtain c c_e ee ne' where ih:
      "find_in_bin event n (nextInBin ne) s = Some (Inr (c, event))"
      "events s c = Some c_e" "events s event = Some ee" "c \<in> set (n # xs)"
      "((events s)(c \<mapsto> c_e\<lparr> nextInBin := nextInBin ee \<rparr>)) n = Some ne'"
      "in_bin ((events s)(c \<mapsto> c_e\<lparr> nextInBin := nextInBin ee \<rparr>)) (nextInBin ne') (removeAll event xs)"
      by blast
    have "c \<noteq> cur" using ih(4) Cons(5) by auto
    then have "((events s)(c \<mapsto> c_e\<lparr> nextInBin := nextInBin ee \<rparr>)) cur = Some ce"
      using Cons(2) by simp
    moreover have "in_bin ((events s)(c \<mapsto> c_e\<lparr> nextInBin := nextInBin ee \<rparr>)) (nextInBin ce)
        (removeAll event (n # xs))"
      using ih(5,6) False ne(1) by (auto simp del: fun_upd_apply)
    moreover have "find_in_bin event cur (nextInBin ce) s = Some (Inr (c, event))"
      using ih(1) ne(1) False by (simp add: find_in_bin_Some[OF ne(2)])
    moreover have "c \<in> set (cur # n # xs)"
      using ih(4) by simp
    ultimately show ?thesis
      using ih(2,3) by blast
  qed
qed simp

lemma removeItem_bins:
  assumes seg: "bins_seg (events s) (Some c) (b # zs) None" and ev: "event \<in> set b"
    and dist: "distinct (concat (b # zs))"
  shows "\<exists>p h'. removeItem event c s = Some (Inr (p, s\<lparr> events := h' \<rparr>)) \<and>
     bins_seg h' p (rem_bins event (b # zs)) None \<and> same_attrs (events s) h' \<and>
     (\<forall>x. x \<notin> set b \<longrightarrow> h' x = events s x)"
proof -
  from seg obtain as where b: "b = c # as"
    by (cases b) auto
  with seg obtain ce where ce: "events s c = Some ce" "in_bin (events s) (nextInBin ce) as"
    "bins_seg (events s) (nextBin ce) zs None"
    by auto
  have zs: "rem_bins event zs = zs"
    by (rule rem_bins_notin) (use dist ev bins_seg_nonempty[OF ce(3)] in auto)
  show ?thesis
  proof (cases "event = c")
    case top: True
    then have as: "removeAll event b = as" "c \<notin> set as"
      using dist b by auto
    show ?thesis
    proof (cases as)
      case Nil
      with ce have "nextInBin ce = None" by simp
      with top ce(1) have "removeItem event c s = Some (Inr (nextBin ce, s))"
        by (simp add: removeItem_def event_at_Some)
      moreover have "rem_bins event (b # zs) = zs"
        using zs as(1) Nil by (simp add: rem_bins_def)
      ultimately show ?thesis
        using ce(3) by (intro exI[of _ "nextBin ce"] exI[of _ "events s"]) simp
    next
      case (Cons n as')
      with ce obtain ne where ne: "nextInBin ce = Some n" "events s n = Some ne"
        "in_bin (events s) (nextInBin ne) as'"
        by auto
      define h' where "h' = (events s)(n \<mapsto> ne\<lparr> nextBin := nextBin ce \<rparr>)"
      have "removeItem event c s = Some (Inr (Some n, s\<lparr> events := h' \<rparr>))"
        using top ce(1) ne by (simp add: removeItem_def event_at_Some set_event_Some h'_def)
      moreover have "rem_bins event (b # zs) = as # zs"
        using zs as(1) Cons by (simp add: rem_bins_def)
      moreover have "n \<notin> set as'" "n \<notin> set (concat zs)"
        using dist b Cons by auto
      then have "bins_seg h' (Some n) (as # zs) None"
        using ne(2,3) ce(3) by (simp add: h'_def Cons)
      moreover have "same_attrs (events s) h'"
        unfolding h'_def by (rule same_attrs_update[where h = "events s", OF ne(2)]) simp
      moreover have "\<forall>x. x \<notin> set b \<longrightarrow> h' x = events s x"
        using b Cons by (simp add: h'_def)
      ultimately show ?thesis by metis
    qed
  next
    case False
    with ev b have ev': "event \<in> set as" by simp
    from dist b have "distinct (c # as)" by auto
    from find_in_bin_unlink[OF ce(1,2) ev' this] obtain d de ee ce' where u:
      "find_in_bin event c (nextInBin ce) s = Some (Inr (d, event))"
      "events s d = Some de" "events s event = Some ee" "d \<in> set (c # as)"
      "((events s)(d \<mapsto> de\<lparr> nextInBin := nextInBin ee \<rparr>)) c = Some ce'"
      "nextBin ce' = nextBin ce"
      "in_bin ((events s)(d \<mapsto> de\<lparr> nextInBin := nextInBin ee \<rparr>)) (nextInBin ce') (removeAll event as)"
      by blast
    define h' where "h' = (events s)(d \<mapsto> de\<lparr> nextInBin := nextInBin ee \<rparr>)"
    have "removeItem event c s = Some (Inr (Some c, s\<lparr> events := h' \<rparr>))"
      using False ce(1) u(1-3) by (simp add: removeItem_def event_at_Some set_event_Some h'_def)
    moreover have "rem_bins event (b # zs) = (c # removeAll event as) # zs"
      using zs b False by (simp add: rem_bins_def)
    moreover have "d \<notin> set (concat zs)"
      using dist b u(4) by auto
    then have "bins_seg h' (nextBin ce') zs None"
      using ce(3) u(6) by (simp add: h'_def)
    then have "bins_seg h' (Some c) ((c # removeAll event as) # zs) None"
      using u(5,7) by (simp add: h'_def[symmetric])
    moreover have "same_attrs (events s) h'"
      unfolding h'_def by (rule same_attrs_update[where h = "events s", OF u(2)]) simp
    moreover have "\<forall>x. x \<notin> set b \<longrightarrow> h' x = events s x"
      using b u(4) by (auto simp: h'_def)
    ultimately show ?thesis by metis
  qed
qed

lemma eq_remove_bins:
  assumes seg: "bins_seg (events s) (head s) bs None" and e: "events s event = Some e"
    and ev: "event \<in> set (concat bs)" and dist: "distinct (concat bs)"
    and wf: "wf_bins (key_of (events s)) bs" and q: "ev_queue e = Some (q_id s)"
  shows "\<exists>h' p. eq_remove event s = Some (Inr (s\<lparr> events := h', head := p \<rparr>)) \<and>
     bins_seg h' p (rem_bins event bs) None \<and> same_attrs (events s) h'"
proof -
  obtain b bs' where bs: "bs = b # bs'"
    using ev by (cases bs) auto
  with seg obtain c as where b: "b = c # as"
    by (cases b) auto
  with seg bs obtain ce where ce: "head s = Some c" "events s c = Some ce"
    "in_bin (events s) (nextInBin ce) as" "bins_seg (events s) (nextBin ce) bs' None"
    by auto
  show ?thesis
  proof (cases "ev_key ce = ev_key e")
    case True
    have "event \<in> set b"
    proof (rule ccontr)
      assume "event \<notin> set b"
      with ev bs have "event \<in> set (concat bs')" by simp
      from wf_bins_greater[OF wf[unfolded bs] this] True b ce e show False by simp
    qed
    from removeItem_bins[OF _ this, of s c bs'] seg ce(1) dist bs
    obtain p h' where "removeItem event c s = Some (Inr (p, s\<lparr> events := h' \<rparr>))"
      "bins_seg h' p (rem_bins event bs) None" "same_attrs (events s) h'"
      by auto
    with True ce e q show ?thesis
      by (auto simp: eq_remove_def event_at_Some ev_compare)
  next
    case False
    from find_bin_split[OF ce(4) e, of c] obtain ys zs cur where split: "bs' = ys @ zs"
      "find_bin c (nextBin ce) event s = Some (Inr (if ys = [] then c else hd (last ys), cur))"
      "bins_seg (events s) (nextBin ce) ys cur" "bins_seg (events s) cur zs None"
      "\<forall>b \<in> set ys. key_of (events s) (hd b) < ev_key e"
      "zs \<noteq> [] \<longrightarrow> \<not> key_of (events s) (hd (hd zs)) < ev_key e"
      by blast
    define ys' where "ys' = b # ys"
    define prev where "prev = hd (last ys')"
    have bs2: "bs = ys' @ zs" by (simp add: bs split(1) ys'_def)
    have fb: "find_bin c (nextBin ce) event s = Some (Inr (prev, cur))"
      using split(2) b by (auto simp: prev_def ys'_def)
    have seg': "bins_seg (events s) (head s) ys' cur"
      using ce b split(3) by (auto simp: ys'_def)
    have sk: "same_key (key_of (events s)) d" if "d \<in> set bs" for d
      using wf that by (simp add: wf_bins_def)
    have "event \<notin> set d" if "d \<in> set ys'" for d
    proof
      assume "event \<in> set d"
      then have "ev_key e = key_of (events s) (hd d)"
        using same_key_hd[OF sk, of d event] that bs2 e by auto
      with that split(5) False ce b show False by (auto simp: ys'_def)
    qed
    then have notin: "event \<notin> set (concat ys')" by auto
    with ev bs2 have evz: "event \<in> set (concat zs)" by simp
    then obtain z zs' where zs: "zs = z # zs'" by (cases zs) auto
    have wfz: "wf_bins (key_of (events s)) (z # zs')"
      using wf bs2 zs by (simp add: wf_bins_append)
    have ez: "event \<in> set z"
    proof (rule ccontr)
      assume "event \<notin> set z"
      with evz zs have "event \<in> set (concat zs')" by simp
      from wf_bins_greater[OF wfz this] split(6) zs e show False by simp
    qed
    have "cur = Some (hd z)" "z \<noteq> []"
      using split(4) zs bins_seg_first by auto
    then obtain d ds where z: "z = d # ds" "cur = Some d" by (cases z) auto
    obtain de where de: "events s d = Some de"
      using split(4) zs z by auto
    have key: "ev_key de = ev_key e"
      using same_key_hd[OF sk, of z event] ez bs2 zs z e de by simp
    have distz: "distinct (concat (z # zs'))"
      using dist bs2 zs by auto
    from removeItem_bins[OF _ ez distz, of s d] split(4) zs z
    obtain p h1 where rem: "removeItem event d s = Some (Inr (p, s\<lparr> events := h1 \<rparr>))"
      "bins_seg h1 p (rem_bins event zs) None" "same_attrs (events s) h1"
      "\<forall>x. x \<notin> set z \<longrightarrow> h1 x = events s x"
      by auto
    have seg1: "bins_seg h1 (head s) ys' cur"
    proof -
      have "map_option links (h1 x) = map_option links (events s x)" if "x \<in> set (concat ys')" for x
      proof -
        have "x \<notin> set z" using that dist bs2 zs by auto
        with rem(4) show ?thesis by simp
      qed
      from bins_seg_cong[OF this] seg' show ?thesis by simp
    qed
    have "last ys' \<in> set ys'" "last ys' \<noteq> []"
      using bins_seg_nonempty[OF seg'] last_in_set[of ys'] by (auto simp: ys'_def)
    then have prev_in: "prev \<in> set (concat ys')"
      by (auto simp: prev_def intro!: bexI[of _ "last ys'"])
    then obtain pe where pe: "h1 prev = Some pe"
      using bins_seg_alloc[OF seg1] by blast
    define h2 where "h2 = h1(prev \<mapsto> pe\<lparr> nextBin := p \<rparr>)"
    have "bins_seg h2 (head s) ys' p"
      unfolding h2_def prev_def
      by (rule bins_seg_link[OF seg1]) (use dist bs2 pe in \<open>auto simp: ys'_def prev_def\<close>)
    moreover have "prev \<notin> set (concat (rem_bins event zs))"
      using prev_in dist by (subst concat_rem_bins) (auto simp: bs2)
    then have "bins_seg h2 p (rem_bins event zs) None"
      using rem(2) by (simp add: h2_def)
    moreover have "rem_bins event bs = ys' @ rem_bins event zs"
      unfolding bs2 rem_bins_append
      by (subst rem_bins_notin[OF notin bins_seg_nonempty[OF seg']]) simp
    ultimately have "bins_seg h2 (head s) (rem_bins event bs) None"
      by (auto simp: bins_seg_append)
    moreover have "same_attrs (events s) h2"
      unfolding h2_def
      by (rule same_attrs_trans[OF rem(3) same_attrs_update[where h = h1 and p = prev, OF pe]]) simp
    moreover have "eq_remove event s = Some (Inr (s\<lparr> events := h2 \<rparr>))"
      using False ce e q fb z de key rem(1) pe
      by (simp add: eq_remove_def event_at_Some ev_compare set_event_Some h2_def)
    moreover have "s\<lparr> events := h2 \<rparr> = s\<lparr> events := h2, head := head s \<rparr>"
      by simp
    ultimately show ?thesis by metis
  qed
qed

end
