(* ===== verification/EventQueueSpec.thy ===== *)
theory EventQueueSpec
  imports EventQueueRefine
begin

text \<open>
  The contract of the event queue: an agenda, a list of events sorted by time and priority,
  where a new event goes in front of those with the same time and priority. The linked
  structure of the code implements the agenda, call by call, errors included.
\<close>

section \<open>The queue as a list of events\<close>

definition eq_rep :: "EventQueue \<Rightarrow> evid list \<Rightarrow> bool" where
  "eq_rep s q \<longleftrightarrow> (\<exists>bs. bins_seg (events s) (head s) bs None \<and> wf_bins (key_of (events s)) bs \<and>
     distinct (concat bs) \<and> q = concat bs)"

lemma eq_rep_alloc: "eq_rep s q \<Longrightarrow> p \<in> set q \<Longrightarrow> \<exists>e. events s p = Some e"
  by (auto simp: eq_rep_def dest: bins_seg_alloc)

lemma eq_rep_sorted: "eq_rep s q \<Longrightarrow> sorted (map (key_of (events s)) q)"
  by (auto simp: eq_rep_def dest: wf_bins_sorted)

lemma eq_rep_distinct: "eq_rep s q \<Longrightarrow> distinct q"
  by (auto simp: eq_rep_def)

lemma eq_rep_head: "eq_rep s q \<Longrightarrow> head s = (if q = [] then None else Some (hd q))"
proof -
  assume "eq_rep s q"
  then obtain bs where "bins_seg (events s) (head s) bs None" "q = concat bs"
    by (auto simp: eq_rep_def)
  then show ?thesis
    by (cases bs) (auto dest!: bins_seg_first simp: hd_append)
qed

lemma eq_rep_cong: "events s' = events s \<Longrightarrow> head s' = head s \<Longrightarrow> eq_rep s' q = eq_rep s q"
  by (simp add: eq_rep_def)

text \<open>A change of an event that keeps its links, and its key while it is queued.\<close>

lemma eq_rep_update:
  assumes "eq_rep s q" "events s p = Some e" "links e' = links e" "p \<in> set q \<Longrightarrow> ev_key e' = ev_key e"
  shows "eq_rep (s\<lparr> events := (events s)(p \<mapsto> e') \<rparr>) q"
proof -
  from assms(1) obtain bs where bs: "bins_seg (events s) (head s) bs None"
    "wf_bins (key_of (events s)) bs" "distinct (concat bs)" "q = concat bs"
    by (auto simp: eq_rep_def)
  have "bins_seg ((events s)(p \<mapsto> e')) (head s) bs None"
    using assms(2,3) by (subst bins_seg_cong[where h = "events s"]) (auto simp: bs(1))
  moreover have "wf_bins (key_of ((events s)(p \<mapsto> e'))) bs"
    by (rule wf_bins_cong[OF _ bs(2)]) (use assms(2,4) bs(4) in auto)
  ultimately show ?thesis
    using bs by (auto simp: eq_rep_def)
qed

lemma eq_rep_outside:
  assumes "eq_rep s q" "p \<notin> set q"
  shows "eq_rep (s\<lparr> events := (events s)(p := eo) \<rparr>) q"
proof -
  from assms(1) obtain bs where bs: "bins_seg (events s) (head s) bs None"
    "wf_bins (key_of (events s)) bs" "distinct (concat bs)" "q = concat bs"
    by (auto simp: eq_rep_def)
  have "bins_seg ((events s)(p := eo)) (head s) bs None"
    using assms(2) bs(1,4) by simp
  moreover have "wf_bins (key_of ((events s)(p := eo))) bs"
    by (rule wf_bins_cong[OF _ bs(2)]) (use assms(2) bs(4) in auto)
  ultimately show ?thesis
    using bs by (auto simp: eq_rep_def)
qed

text \<open>Insertion and removal.\<close>

lemma eq_rep_same_attrs:
  assumes "same_attrs (events s) h'" "wf_bins (key_of (events s)) bs"
  shows "wf_bins (key_of h') bs"
  by (rule wf_bins_cong[OF _ assms(2)]) (rule same_attrs_key[OF assms(1)])

lemma eq_insert_rep:
  assumes "eq_rep s q" "events s e = Some ev" "e \<notin> set q"
  shows "\<exists>h p. eq_insert e s = Some (Inr (s\<lparr> events := h, head := p \<rparr>)) \<and>
     same_attrs (events s) h \<and>
     eq_rep (s\<lparr> events := h, head := p \<rparr>) (insort_key (key_of (events s)) e q)"
proof -
  from assms(1) obtain bs where bs: "bins_seg (events s) (head s) bs None"
    "wf_bins (key_of (events s)) bs" "distinct (concat bs)" "q = concat bs"
    by (auto simp: eq_rep_def)
  from eq_insert_bins[OF bs(1) assms(2) _ bs(3)] assms(3) bs(4) obtain h p where ins:
    "eq_insert e s = Some (Inr (s\<lparr> events := h, head := p \<rparr>))"
    "bins_seg h p (ins_bins (key_of (events s)) e bs) None" "same_attrs (events s) h"
    by auto
  have "wf_bins (key_of h) (ins_bins (key_of (events s)) e bs)"
    by (rule eq_rep_same_attrs[OF ins(3) wf_ins_bins[OF bs(2)]])
  moreover have "distinct (concat (ins_bins (key_of (events s)) e bs))"
    by (rule distinct_ins_bins) (use bs assms(3) in auto)
  ultimately show ?thesis
    using ins concat_ins_bins[OF bs(2)] bs(4)
    by (intro exI[of _ h] exI[of _ p])
      (auto simp: eq_rep_def intro!: exI[of _ "ins_bins (key_of (events s)) e bs"])
qed

lemma eq_remove_rep:
  assumes "eq_rep s q" "events s e = Some ev" "e \<in> set q" "ev_queue ev = Some (q_id s)"
  shows "\<exists>h p. eq_remove e s = Some (Inr (s\<lparr> events := h, head := p \<rparr>)) \<and>
     same_attrs (events s) h \<and> eq_rep (s\<lparr> events := h, head := p \<rparr>) (removeAll e q)"
proof -
  from assms(1) obtain bs where bs: "bins_seg (events s) (head s) bs None"
    "wf_bins (key_of (events s)) bs" "distinct (concat bs)" "q = concat bs"
    by (auto simp: eq_rep_def)
  from eq_remove_bins[OF bs(1) assms(2) _ bs(3,2) assms(4)] assms(3) bs(4) obtain h p where rem:
    "eq_remove e s = Some (Inr (s\<lparr> events := h, head := p \<rparr>))"
    "bins_seg h p (rem_bins e bs) None" "same_attrs (events s) h"
    by auto
  have "wf_bins (key_of h) (rem_bins e bs)"
    by (rule eq_rep_same_attrs[OF rem(3) wf_rem_bins[OF bs(2)]])
  moreover have "distinct (concat (rem_bins e bs))"
    using bs(3) unfolding concat_rem_bins by (simp add: distinct_removeAll)
  ultimately show ?thesis
    using rem bs(4) concat_rem_bins[of e bs]
    by (intro exI[of _ h] exI[of _ p]) (auto simp: eq_rep_def intro!: exI[of _ "rem_bins e bs"])
qed

text \<open>Taking the head off.\<close>

lemma pop_event_rep:
  assumes "eq_rep s (e # q)" "events s e = Some ev"
  shows "\<exists>h p. pop_event s = Inr (e, s\<lparr> events := h, head := p \<rparr>) \<and>
     same_attrs ((events s)(e \<mapsto> clear_flags ev_Scheduled ev)) h \<and>
     eq_rep (s\<lparr> events := h, head := p \<rparr>) q"
proof -
  from assms(1) obtain bs where bs: "bins_seg (events s) (head s) bs None"
    "wf_bins (key_of (events s)) bs" "distinct (concat bs)" "e # q = concat bs"
    by (auto simp: eq_rep_def)
  then obtain b zs where zs: "bs = b # zs"
    by (cases bs) auto
  with bs obtain as where b: "b = e # as"
    by (cases b) auto
  define h1 where "h1 = (events s)(e \<mapsto> clear_flags ev_Scheduled ev)"
  from bs zs b assms(2) have ev: "head s = Some e" "in_bin (events s) (nextInBin ev) as"
    "bins_seg (events s) (nextBin ev) zs None"
    by auto
  have notin: "e \<notin> set as" "e \<notin> set (concat zs)"
    using bs(3) zs b by auto
  have q: "q = as @ concat zs" using bs(4) zs b by simp
  have wf: "wf_bins (key_of h1) bs"
    by (rule wf_bins_cong[OF _ bs(2)]) (auto simp: h1_def assms(2) clear_flags_def)
  show ?thesis
  proof (cases as)
    case Nil
    then have "pop_event s = Inr (e, s\<lparr> events := h1, head := nextBin ev \<rparr>)"
      using ev assms(2) by (simp add: pop_event_def event_at_Some set_event_Some h1_def)
    moreover have "bins_seg h1 (nextBin ev) zs None"
      using ev(3) notin by (simp add: h1_def)
    moreover have "wf_bins (key_of h1) zs" "distinct (concat zs)"
      using wf bs(3) zs by (auto simp: wf_bins_Cons)
    ultimately show ?thesis
      using q Nil by (auto simp: eq_rep_def h1_def intro!: exI[of _ h1] exI[of _ zs])
  next
    case (Cons n as')
    then obtain ne where ne: "nextInBin ev = Some n" "events s n = Some ne"
      "in_bin (events s) (nextInBin ne) as'"
      using ev(2) by auto
    have ne1: "h1 n = Some ne" using ne notin Cons by (auto simp: h1_def)
    define h where "h = h1(n \<mapsto> ne\<lparr> nextBin := nextBin ev \<rparr>)"
    have "pop_event s = Inr (e, s\<lparr> events := h, head := Some n \<rparr>)"
      using ev assms(2) ne ne1 notin Cons
      by (simp add: pop_event_def event_at_Some set_event_Some h_def h1_def)
    moreover have sa: "same_attrs h1 h"
      unfolding h_def by (rule same_attrs_update[where h = h1, OF ne1]) simp
    moreover have "n \<notin> set as'" "n \<notin> set (concat zs)"
      using bs(3) zs b Cons by auto
    then have "bins_seg h (Some n) (as # zs) None"
      using ne ev(3) notin Cons by (simp add: h_def h1_def)
    moreover have "wf_bins (key_of h) (as # zs)"
    proof (rule wf_bins_cong[where k = "key_of h1"])
      show "wf_bins (key_of h1) (as # zs)"
        using wf zs b Cons same_key_hd[of "key_of h1" b n]
        by (auto simp: wf_bins_Cons intro: same_key_subset)
    qed (rule same_attrs_key[OF sa])
    moreover have "distinct (concat (as # zs))"
      using bs(3) zs b by auto
    ultimately show ?thesis
      using q by (auto simp: eq_rep_def h1_def intro!: exI[of _ h] exI[of _ "as # zs"])
  qed
qed

section \<open>The interface of a sorted queue\<close>

text \<open>
  A queue that represents a list sorted by a key, with insertion in front of equal keys and
  removal. Operations return, and keep the keys and the elements that can be queued.
\<close>

locale sorted_queue =
  fixes rep :: "'s \<Rightarrow> 'e list \<Rightarrow> bool"
    and key :: "'s \<Rightarrow> 'e \<Rightarrow> 'k::linorder"
    and live :: "'s \<Rightarrow> 'e \<Rightarrow> bool"
    and ins :: "'e \<Rightarrow> 's \<Rightarrow> 's res"
    and del :: "'e \<Rightarrow> 's \<Rightarrow> 's res"
  assumes rep_sorted: "rep s q \<Longrightarrow> sorted (map (key s) q)"
    and ins_rep: "rep s q \<Longrightarrow> live s e \<Longrightarrow> e \<notin> set q \<Longrightarrow>
      \<exists>s'. ins e s = Some (Inr s') \<and> rep s' (insort_key (key s) e q) \<and> key s' = key s \<and> live s' = live s"
    and del_rep: "rep s q \<Longrightarrow> live s e \<Longrightarrow> e \<in> set q \<Longrightarrow>
      \<exists>s'. del e s = Some (Inr s') \<and> rep s' (removeAll e q) \<and> key s' = key s \<and> live s' = live s"
begin

lemma removeAll_insort: "e \<notin> set q \<Longrightarrow> removeAll e (insort_key f e q) = q"
  for f :: "'e \<Rightarrow> 'k"
  by (induction q) auto

text \<open>Removal undoes insertion.\<close>

lemma ins_del:
  assumes "rep s q" "live s e" "e \<notin> set q"
  shows "\<exists>s1 s2. ins e s = Some (Inr s1) \<and> del e s1 = Some (Inr s2) \<and> rep s2 q"
proof -
  from ins_rep[OF assms] obtain s1 where s1: "ins e s = Some (Inr s1)"
    "rep s1 (insort_key (key s) e q)" "live s1 = live s"
    by blast
  from del_rep[OF s1(2), of e] s1(3) assms obtain s2 where "del e s1 = Some (Inr s2)"
    "rep s2 (removeAll e (insort_key (key s) e q))"
    by (auto simp: set_insort_key)
  with s1(1) removeAll_insort[OF assms(3)] show ?thesis by auto
qed

text \<open>Insertions with different keys commute.\<close>

lemma ins_ins:
  assumes "rep s q" "live s a" "live s b" "a \<notin> set q" "b \<notin> set q" "key s a \<noteq> key s b"
  shows "\<exists>s1 s2 t1 t2. ins a s = Some (Inr s1) \<and> ins b s1 = Some (Inr s2) \<and>
     ins b s = Some (Inr t1) \<and> ins a t1 = Some (Inr t2) \<and> (\<exists>r. rep s2 r \<and> rep t2 r)"
proof -
  have ne: "a \<noteq> b" using assms(6) by auto
  from ins_rep[OF assms(1,2,4)] obtain s1 where s1: "ins a s = Some (Inr s1)"
    "rep s1 (insort_key (key s) a q)" "key s1 = key s" "live s1 = live s"
    by blast
  from ins_rep[OF s1(2), of b] s1 assms ne obtain s2 where s2: "ins b s1 = Some (Inr s2)"
    "rep s2 (insort_key (key s) b (insort_key (key s) a q))"
    by (auto simp: set_insort_key)
  from ins_rep[OF assms(1,3,5)] obtain t1 where t1: "ins b s = Some (Inr t1)"
    "rep t1 (insort_key (key s) b q)" "key t1 = key s" "live t1 = live s"
    by blast
  from ins_rep[OF t1(2), of a] t1 assms ne obtain t2 where t2: "ins a t1 = Some (Inr t2)"
    "rep t2 (insort_key (key s) a (insort_key (key s) b q))"
    by (auto simp: set_insort_key)
  from s1 s2 t1 t2 show ?thesis
    using insort_key_left_comm[of "key s" a b q] assms(6) by auto
qed

end

definition eq_live :: "EventQueue \<Rightarrow> evid \<Rightarrow> bool" where
  "eq_live s e \<longleftrightarrow> (\<exists>ev. events s e = Some ev \<and> ev_queue ev = Some (q_id s))"

lemma eq_live_same:
  assumes "same_attrs (events s) h"
  shows "eq_live (s\<lparr> events := h, head := p \<rparr>) = eq_live s"
proof
  fix x
  have "map_option attrs (h x) = map_option attrs (events s x)"
    using assms by (simp add: same_attrs_def)
  then show "eq_live (s\<lparr> events := h, head := p \<rparr>) x = eq_live s x"
    by (cases "h x"; cases "events s x") (auto simp: eq_live_def attrs_def)
qed

interpretation eqq: sorted_queue eq_rep "\<lambda>s. key_of (events s)" eq_live eq_insert eq_remove
proof
  fix s q e
  show "eq_rep s q \<Longrightarrow> sorted (map (key_of (events s)) q)"
    by (rule eq_rep_sorted)
  assume rep: "eq_rep s q" and live: "eq_live s e"
  from live obtain ev where ev: "events s e = Some ev" "ev_queue ev = Some (q_id s)"
    by (auto simp: eq_live_def)
  have key: "key_of (events (s\<lparr> events := h, head := p \<rparr>)) = key_of (events s)"
    if "same_attrs (events s) h" for h p
    using same_attrs_key[OF that] by auto
  show "\<exists>s'. eq_insert e s = Some (Inr s') \<and> eq_rep s' (insort_key (key_of (events s)) e q) \<and>
      key_of (events s') = key_of (events s) \<and> eq_live s' = eq_live s" if "e \<notin> set q"
    using eq_insert_rep[OF rep ev(1) that] key eq_live_same by metis
  show "\<exists>s'. eq_remove e s = Some (Inr s') \<and> eq_rep s' (removeAll e q) \<and>
      key_of (events s') = key_of (events s) \<and> eq_live s' = eq_live s" if "e \<in> set q"
    using eq_remove_rep[OF rep ev(1) that ev(2)] key eq_live_same by metis
qed

end
