(* ===== verification/EventQueueAgenda.thy ===== *)
theory EventQueueAgenda
  imports EventQueueSpec
begin

text \<open>
  The agenda machine and the simulation of the event queue by it. The machine knows the
  existing events with their priority and three of their flags, the current time and the
  agenda; it has no pointers.
\<close>

section \<open>Flags of an event\<close>

definition isMainQueue :: "Event \<Rightarrow> bool" where
  "isMainQueue e = flag_isSet (ev_flags e) ev_IsMainQueue"

lemma flag_set_masked: "m AND k = 0 \<Longrightarrow> flag_set fl m AND k = fl AND k"
  for fl :: "'a::len word"
  by (simp add: flag_set_def bit.conj_disj_distrib2)

lemma flag_clear_masked:
  fixes fl :: "'a::len word"
  assumes "m AND k = 0"
  shows "flag_clear fl m AND k = fl AND k"
proof -
  have "bit k i \<Longrightarrow> \<not> bit m i" for i
    using arg_cong[OF assms, of "\<lambda>w. bit w i"] by (simp add: bit_simps)
  then show ?thesis
    by (intro bit_word_eqI) (auto simp: flag_clear_def bit_simps)
qed

lemmas ev_queries = scheduled_def squashed_def isManaged_def isExitEvent_def isMainQueue_def
  initialized_def

lemma set_flags_queries [simp]:
  "scheduled (set_flags ev_Scheduled e)" "squashed (set_flags ev_Scheduled e) = squashed e"
  "isManaged (set_flags ev_Scheduled e) = isManaged e"
  "isExitEvent (set_flags ev_Scheduled e) = isExitEvent e"
  "isMainQueue (set_flags ev_Scheduled e) = isMainQueue e"
  "initialized (set_flags ev_Scheduled e) = initialized e"
  "scheduled (set_flags ev_Squashed e) = scheduled e" "squashed (set_flags ev_Squashed e)"
  "isManaged (set_flags ev_Squashed e) = isManaged e"
  "isExitEvent (set_flags ev_Squashed e) = isExitEvent e"
  "isMainQueue (set_flags ev_Squashed e) = isMainQueue e"
  "initialized (set_flags ev_Squashed e) = initialized e"
  by (simp_all add: ev_queries set_flags_def flag_set_other flag_set_masked ev_flag_defs)

lemma clear_flags_queries [simp]:
  "\<not> scheduled (clear_flags ev_Scheduled e)" "squashed (clear_flags ev_Scheduled e) = squashed e"
  "isManaged (clear_flags ev_Scheduled e) = isManaged e"
  "isExitEvent (clear_flags ev_Scheduled e) = isExitEvent e"
  "isMainQueue (clear_flags ev_Scheduled e) = isMainQueue e"
  "initialized (clear_flags ev_Scheduled e) = initialized e"
  "scheduled (clear_flags ev_Squashed e) = scheduled e" "\<not> squashed (clear_flags ev_Squashed e)"
  "isManaged (clear_flags ev_Squashed e) = isManaged e"
  "isExitEvent (clear_flags ev_Squashed e) = isExitEvent e"
  "isMainQueue (clear_flags ev_Squashed e) = isMainQueue e"
  "initialized (clear_flags ev_Squashed e) = initialized e"
  by (simp_all add: ev_queries clear_flags_def flag_clear_other flag_clear_masked ev_flag_defs)

lemma setWhen_queries [simp]:
  "scheduled (setWhen t q e) = scheduled e" "squashed (setWhen t q e) = squashed e"
  "isManaged (setWhen t q e) = isManaged e" "isExitEvent (setWhen t q e) = isExitEvent e"
  "isMainQueue (setWhen t q e) = isMainQueue e" "initialized (setWhen t q e) = initialized e"
  by (simp_all add: ev_queries setWhen_def)

lemma ev_fields [simp]:
  "ev_when (set_flags m e) = ev_when e" "ev_when (clear_flags m e) = ev_when e"
  "ev_when (setWhen t q e) = t"
  "ev_queue (set_flags m e) = ev_queue e" "ev_queue (clear_flags m e) = ev_queue e"
  "ev_queue (setWhen t q e) = Some q"
  "ev_priority (set_flags m e) = ev_priority e" "ev_priority (clear_flags m e) = ev_priority e"
  "ev_priority (setWhen t q e) = ev_priority e"
  "ev_key (set_flags m e) = ev_key e" "ev_key (clear_flags m e) = ev_key e"
  "ev_key (setWhen t q e) = (t, sint (ev_priority e))"
  "links (set_flags m e) = links e" "links (clear_flags m e) = links e"
  "links (setWhen t q e) = links e"
  by (simp_all add: set_flags_def clear_flags_def setWhen_def ev_key_def links_def)

text \<open>A new event has the flags it is given, apart from the reserved ones.\<close>

lemma new_flags:
  assumes "\<not> flag_isSet f (NOT ev_PublicWrite)"
  shows "(ev_Initialized OR f) AND ev_InitMask = ev_Initialized"
    and "\<not> flag_isSet (ev_Initialized OR f) ev_Scheduled"
    and "\<not> flag_isSet (ev_Initialized OR f) ev_IsMainQueue"
    and "flag_isSet (ev_Initialized OR f) ev_Squashed = flag_isSet f ev_Squashed"
    and "flag_isSet (ev_Initialized OR f) ev_Managed = flag_isSet f ev_Managed"
    and "flag_isSet (ev_Initialized OR f) ev_IsExitEvent = flag_isSet f ev_IsExitEvent"
proof -
  have sub: "f AND m = 0" if "m AND ev_PublicWrite = 0" for m
  proof (rule bit_word_eqI)
    fix n
    have "\<not> bit (f AND NOT ev_PublicWrite) n"
      using assms by (simp add: flag_isSet_def)
    moreover have "\<not> bit (m AND ev_PublicWrite) n"
      using that by simp
    ultimately show "bit (f AND m) n = bit (0 :: u16) n" if "n < LENGTH(16)"
      using that by (auto simp: bit_simps)
  qed
  show "(ev_Initialized OR f) AND ev_InitMask = ev_Initialized"
    using sub[of ev_InitMask] by (simp add: bit.conj_disj_distrib2 ev_flag_defs)
  show "\<not> flag_isSet (ev_Initialized OR f) ev_Scheduled"
    using sub[of ev_Scheduled] by (simp add: flag_isSet_def bit.conj_disj_distrib2 ev_flag_defs)
  show "\<not> flag_isSet (ev_Initialized OR f) ev_IsMainQueue"
    using sub[of ev_IsMainQueue] by (simp add: flag_isSet_def bit.conj_disj_distrib2 ev_flag_defs)
qed (simp_all add: flag_isSet_def bit.conj_disj_distrib2 ev_flag_defs)

section \<open>The agenda machine\<close>

record spec_event =
  sp_pri :: int
  sp_managed :: bool
  sp_squashed :: bool
  sp_exit :: bool

record agenda =
  sp_now :: u64
  sp_live :: "evid \<Rightarrow> spec_event option"
  sp_agenda :: "((u64 \<times> int) \<times> evid) list"

definition agenda_init :: agenda where
  "agenda_init = \<lparr> sp_now = 0, sp_live = (\<lambda>_. None), sp_agenda = [] \<rparr>"

definition on_agenda :: "evid \<Rightarrow> agenda \<Rightarrow> bool" where
  "on_agenda e a \<longleftrightarrow> e \<in> snd ` set (sp_agenda a)"

definition sp_insert :: "evid \<Rightarrow> u64 \<times> int \<Rightarrow> agenda \<Rightarrow> agenda" where
  "sp_insert e k a = a\<lparr> sp_agenda := insort_key fst (k, e) (sp_agenda a) \<rparr>"

definition sp_remove :: "evid \<Rightarrow> agenda \<Rightarrow> agenda" where
  "sp_remove e a = a\<lparr> sp_agenda := filter (\<lambda>x. snd x \<noteq> e) (sp_agenda a) \<rparr>"

definition sp_set :: "evid \<Rightarrow> spec_event option \<Rightarrow> agenda \<Rightarrow> agenda" where
  "sp_set e l a = a\<lparr> sp_live := (sp_live a)(e := l) \<rparr>"

text \<open>An event that left the agenda: managed events cease to exist.\<close>

definition sp_release :: "evid \<Rightarrow> spec_event \<Rightarrow> agenda \<Rightarrow> agenda" where
  "sp_release e l a = sp_set e (if sp_managed l then None else Some l) a"

fun spec_call :: "eq_call \<Rightarrow> agenda \<Rightarrow> agenda option" where
  "spec_call (NewEvent p pri f) a =
     (if sp_live a p \<noteq> None \<or> flag_isSet f (NOT ev_PublicWrite) then None
      else Some (sp_set p (Some \<lparr> sp_pri = sint pri, sp_managed = flag_isSet f ev_Managed,
             sp_squashed = flag_isSet f ev_Squashed, sp_exit = flag_isSet f ev_IsExitEvent \<rparr>) a))"
| "spec_call (Schedule e t) a =
     (case sp_live a e of
        None \<Rightarrow> None
      | Some l \<Rightarrow> if t < sp_now a \<or> on_agenda e a then None
                  else Some (sp_insert e (t, sp_pri l) a))"
| "spec_call (Deschedule e) a =
     (case sp_live a e of
        None \<Rightarrow> None
      | Some l \<Rightarrow> if \<not> on_agenda e a then None
                  else Some (sp_release e (l\<lparr> sp_squashed := False \<rparr>) (sp_remove e a)))"
| "spec_call (Reschedule e t always) a =
     (case sp_live a e of
        None \<Rightarrow> None
      | Some l \<Rightarrow> if t < sp_now a \<or> \<not> (always \<or> on_agenda e a) then None
                  else Some (sp_set e (Some (l\<lparr> sp_squashed := False \<rparr>))
                         (sp_insert e (t, sp_pri l) (sp_remove e a))))"
| "spec_call (Squash e) a =
     (case sp_live a e of
        None \<Rightarrow> None
      | Some l \<Rightarrow> Some (sp_set e (Some (l\<lparr> sp_squashed := True \<rparr>)) a))"

fun spec_calls :: "eq_call list \<Rightarrow> agenda \<Rightarrow> agenda option" where
  "spec_calls [] a = Some a"
| "spec_calls (c # cs) a = Option.bind (spec_call c a) (spec_calls cs)"

text \<open>
  Service of the first event of the agenda; \<open>calls\<close> are the calls an event makes. The first
  component of the result is the exit event, if it was one.
\<close>

definition spec_service :: "(evid \<Rightarrow> eq_call list) \<Rightarrow> agenda \<Rightarrow> (evid option \<times> agenda) option" where
  "spec_service calls a =
     (case sp_agenda a of
        [] \<Rightarrow> None
      | (k, e) # rest \<Rightarrow>
          let a1 = a\<lparr> sp_agenda := rest \<rparr> in
          (case sp_live a e of
             None \<Rightarrow> None
           | Some l \<Rightarrow>
               if sp_squashed l then Some (None, sp_release e (l\<lparr> sp_squashed := False \<rparr>) a1)
               else
                 Option.bind (spec_calls (calls e) (a1\<lparr> sp_now := fst k \<rparr>)) (\<lambda>a2.
                 case sp_live a2 e of
                   None \<Rightarrow> None
                 | Some l2 \<Rightarrow>
                     if sp_exit l2 then Some (Some e, a2)
                     else if on_agenda e a2 then Some (None, a2)
                     else Some (None, sp_release e l2 a2))))"

section \<open>The simulation\<close>

definition sim_event :: "Event \<Rightarrow> spec_event \<Rightarrow> bool" where
  "sim_event e l \<longleftrightarrow> sp_pri l = sint (ev_priority e) \<and> sp_managed l = isManaged e \<and>
     sp_squashed l = squashed e \<and> sp_exit l = isExitEvent e \<and> initialized e \<and> \<not> isMainQueue e"

text \<open>What an event at address \<open>p\<close> has to do with the queue \<open>qid\<close> whose events are \<open>Q\<close>.\<close>

fun sim_at :: "nat \<Rightarrow> u64 \<Rightarrow> evid set \<Rightarrow> evid \<Rightarrow> Event option \<Rightarrow> spec_event option \<Rightarrow> bool" where
  "sim_at qid now Q p None None \<longleftrightarrow> p \<notin> Q"
| "sim_at qid now Q p (Some e) (Some l) \<longleftrightarrow> sim_event e l \<and> (scheduled e \<longleftrightarrow> p \<in> Q) \<and>
     (p \<in> Q \<longrightarrow> ev_queue e = Some qid \<and> now \<le> ev_when e)"
| "sim_at qid now Q p _ _ \<longleftrightarrow> False"

definition sim :: "EventQueue \<Rightarrow> agenda \<Rightarrow> evid list \<Rightarrow> bool" where
  "sim s a q \<longleftrightarrow> eq_rep s q \<and> sp_agenda a = map (\<lambda>p. (key_of (events s) p, p)) q \<and>
     sp_now a = curTick s \<and> async_queue s = [] \<and> \<not> inParallelMode s \<and>
     (\<forall>p. sim_at (q_id s) (curTick s) (set q) p (events s p) (sp_live a p))"

definition simulates :: "EventQueue \<Rightarrow> agenda \<Rightarrow> bool" where
  "simulates s a \<longleftrightarrow> (\<exists>q. sim s a q)"

lemma sim_at_cases:
  assumes "sim_at qid now Q p eo lo"
  obtains "eo = None" "lo = None" "p \<notin> Q"
  | e l where "eo = Some e" "lo = Some l" "sim_event e l" "scheduled e \<longleftrightarrow> p \<in> Q"
      "p \<in> Q \<Longrightarrow> ev_queue e = Some qid" "p \<in> Q \<Longrightarrow> now \<le> ev_when e"
  using assms by (cases eo; cases lo) auto

lemma sim_at_attrs:
  assumes "map_option attrs eo' = map_option attrs eo"
  shows "sim_at qid now Q p eo' lo = sim_at qid now Q p eo lo"
  using assms
  by (cases eo; cases eo'; cases lo) (auto simp: attrs_def sim_event_def ev_queries)

lemma sim_at_cong: "(p \<in> Q \<longleftrightarrow> p \<in> Q') \<Longrightarrow> sim_at qid now Q p eo lo = sim_at qid now Q' p eo lo"
  by (cases eo; cases lo) auto

lemma sim_at_frame:
  "sim_at qid now Q p eo lo \<Longrightarrow> map_option attrs eo' = map_option attrs eo \<Longrightarrow> (p \<in> Q' \<longleftrightarrow> p \<in> Q) \<Longrightarrow>
   sim_at qid now Q' p eo' lo"
  using sim_at_attrs sim_at_cong by metis

lemma sim_event_simps [simp]:
  "sim_event (set_flags ev_Scheduled e) l = sim_event e l"
  "sim_event (clear_flags ev_Scheduled e) l = sim_event e l"
  "sim_event (setWhen t q e) l = sim_event e l"
  by (simp_all add: sim_event_def)

lemma sim_event_squash [simp]:
  "sim_event e l \<Longrightarrow> sim_event (set_flags ev_Squashed e) (l\<lparr> sp_squashed := True \<rparr>)"
  "sim_event e l \<Longrightarrow> sim_event (clear_flags ev_Squashed e) (l\<lparr> sp_squashed := False \<rparr>)"
  by (simp_all add: sim_event_def)

lemma on_agenda_sim: "sim s a q \<Longrightarrow> on_agenda e a \<longleftrightarrow> e \<in> set q"
  by (simp add: sim_def on_agenda_def image_image)

lemma map_insort_key_pair:
  "map (\<lambda>p. (k p, p)) (insort_key k e q) = insort_key fst (k e, e) (map (\<lambda>p. (k p, p)) q)"
  by (induction q) auto

lemma map_removeAll_pair:
  "map (\<lambda>p. (k p, p)) (removeAll e q) = filter (\<lambda>x. snd x \<noteq> e) (map (\<lambda>p. (k p, p)) q)"
  by (induction q) auto

section \<open>Each call refines the call of the machine\<close>

definition refines :: "EventQueue res \<Rightarrow> agenda option \<Rightarrow> bool" where
  "refines r ao \<longleftrightarrow> (\<exists>x. r = Some x \<and>
     (case x of Inl err \<Rightarrow> ao = None | Inr s' \<Rightarrow> (\<exists>a'. ao = Some a' \<and> simulates s' a')))"

lemma refines_fail [simp]: "refines (Some (Inl err)) None"
  by (simp add: refines_def)

lemma refinesE:
  assumes "refines r ao"
  obtains err where "r = Some (Inl err)" "ao = None"
  | s' a' where "r = Some (Inr s')" "ao = Some a'" "simulates s' a'"
proof -
  from assms obtain x where x: "r = Some x"
    "case x of Inl err \<Rightarrow> ao = None | Inr s' \<Rightarrow> (\<exists>a'. ao = Some a' \<and> simulates s' a')"
    by (auto simp: refines_def)
  then show ?thesis
    using that by (cases x) auto
qed

lemma refines_ok: "simulates s' a' \<Longrightarrow> refines (Some (Inr s')) (Some a')"
  by (simp add: refines_def)

abbreviation keyed :: "store \<Rightarrow> evid list \<Rightarrow> ((u64 \<times> int) \<times> evid) list" where
  "keyed h q \<equiv> map (\<lambda>p. (key_of h p, p)) q"

lemma keyed_cong: "(\<And>p. p \<in> set q \<Longrightarrow> key_of h' p = key_of h p) \<Longrightarrow> keyed h' q = keyed h q"
  by simp

lemma simD:
  assumes "sim s a q"
  shows "eq_rep s q" "sp_agenda a = keyed (events s) q" "sp_now a = curTick s"
    "async_queue s = []" "\<not> inParallelMode s"
    "sim_at (q_id s) (curTick s) (set q) p (events s p) (sp_live a p)"
  using assms by (auto simp: sim_def)

text \<open>Setting the time of an event and inserting it.\<close>

lemma insert_at_time:
  assumes rep: "eq_rep s q" and ev: "events s e = Some ev" and notin: "e \<notin> set q"
  shows "\<exists>s2 ev2. eq_insert e (s\<lparr> events := (events s)(e \<mapsto> setWhen t i ev) \<rparr>) = Some (Inr s2) \<and>
    events s2 e = Some ev2 \<and> attrs ev2 = attrs (setWhen t i ev) \<and>
    (\<forall>x. x \<noteq> e \<longrightarrow> map_option attrs (events s2 x) = map_option attrs (events s x)) \<and>
    eq_rep s2 (insort_key (key_of (events s2)) e q) \<and>
    keyed (events s2) (insort_key (key_of (events s2)) e q) =
      insort_key fst ((t, sint (ev_priority ev)), e) (keyed (events s) q) \<and>
    s2 = s\<lparr> events := events s2, head := head s2 \<rparr>"
proof -
  define s1 where "s1 = s\<lparr> events := (events s)(e \<mapsto> setWhen t i ev) \<rparr>"
  have rep1: "eq_rep s1 q"
    unfolding s1_def by (rule eq_rep_outside[OF rep notin])
  have ev1: "events s1 e = Some (setWhen t i ev)"
    by (simp add: s1_def)
  from eq_insert_rep[OF rep1 ev1 notin] obtain h p where ins:
    "eq_insert e s1 = Some (Inr (s1\<lparr> events := h, head := p \<rparr>))" "same_attrs (events s1) h"
    "eq_rep (s1\<lparr> events := h, head := p \<rparr>) (insort_key (key_of (events s1)) e q)"
    by blast
  define s2 where "s2 = s1\<lparr> events := h, head := p \<rparr>"
  have key: "key_of (events s2) = key_of (events s1)"
    using same_attrs_key[OF ins(2)] by (auto simp: s2_def)
  obtain ev2 where ev2: "h e = Some ev2" "attrs ev2 = attrs (setWhen t i ev)"
    using same_attrs_get[OF ins(2) ev1] by blast
  have "keyed (events s1) q = keyed (events s) q"
    by (rule keyed_cong) (use notin in \<open>auto simp: s1_def\<close>)
  moreover have "key_of (events s1) e = (t, sint (ev_priority ev))"
    by (simp add: ev1)
  moreover have "keyed (events s2) r = keyed (events s1) r" for r
    by (rule keyed_cong) (use same_attrs_key[OF ins(2)] in \<open>simp add: s2_def\<close>)
  ultimately have "keyed (events s2) (insort_key (key_of (events s2)) e q) =
      insort_key fst ((t, sint (ev_priority ev)), e) (keyed (events s) q)"
    unfolding key by (simp only: map_insort_key_pair[of "key_of (events s1)"])
  moreover have "map_option attrs (events s2 x) = map_option attrs (events s x)" if "x \<noteq> e" for x
    using ins(2) that by (simp add: same_attrs_def s2_def s1_def)
  moreover have "eq_rep s2 (insort_key (key_of (events s2)) e q)"
    unfolding key using ins(3) by (simp add: s2_def)
  moreover have "s2 = s\<lparr> events := events s2, head := head s2 \<rparr>"
    by (simp add: s2_def s1_def)
  moreover have "eq_insert e (s\<lparr> events := (events s)(e \<mapsto> setWhen t i ev) \<rparr>) = Some (Inr s2)"
    using ins(1) by (simp add: s2_def s1_def)
  moreover have "events s2 e = Some ev2"
    using ev2(1) by (simp add: s2_def)
  ultimately show ?thesis
    using ev2(2) by blast
qed

lemma new_Event_refines:
  assumes sim: "sim s a q"
  shows "refines (run_call (NewEvent p pri f) s) (spec_call (NewEvent p pri f) a)"
proof (cases "events s p")
  case (Some e)
  then have "sp_live a p \<noteq> None"
    using simD(6)[OF sim, of p] by (auto elim: sim_at_cases)
  with Some show ?thesis by (simp add: new_Event_def)
next
  case None
  then have p: "sp_live a p = None" "p \<notin> set q"
    using simD(6)[OF sim, of p] by (auto elim: sim_at_cases)
  show ?thesis
  proof (cases "flag_isSet f (NOT ev_PublicWrite)")
    case True
    with None p show ?thesis by (simp add: new_Event_def)
  next
    case False
    define e where "e = \<lparr> nextBin = None, nextInBin = None, ev_when = 0, ev_priority = pri,
      ev_flags = ev_Initialized OR f, ev_queue = None \<rparr>"
    define l where "l = \<lparr> sp_pri = sint pri, sp_managed = flag_isSet f ev_Managed,
      sp_squashed = flag_isSet f ev_Squashed, sp_exit = flag_isSet f ev_IsExitEvent \<rparr>"
    have e: "sim_event e l" "\<not> scheduled e"
      using new_flags[OF False] by (simp_all add: sim_event_def ev_queries e_def l_def)
    have "sim (s\<lparr> events := (events s)(p \<mapsto> e) \<rparr>) (sp_set p (Some l) a) q"
      unfolding sim_def
    proof (intro conjI allI)
      show "eq_rep (s\<lparr> events := (events s)(p \<mapsto> e) \<rparr>) q"
        by (rule eq_rep_outside[OF simD(1)[OF sim] p(2)])
      show "sp_agenda (sp_set p (Some l) a) = keyed (events (s\<lparr> events := (events s)(p \<mapsto> e) \<rparr>)) q"
        using simD(2)[OF sim] p(2) by (auto simp: sp_set_def)
    qed (use simD[OF sim] p e in \<open>auto simp: sp_set_def\<close>)
    then show ?thesis
      using None p False
      by (auto simp: new_Event_def e_def l_def simulates_def intro!: refines_ok)
  qed
qed

text \<open>
  The state after an insertion and the marking of the event: the only change to other events
  is in their links.
\<close>

lemma sim_inserted:
  assumes sim: "sim s a q" and rep: "eq_rep s2 q'"
    and keyed: "keyed (events s2) q' = insort_key fst (k, e) (keyed (events s) (removeAll e q))"
    and set_q': "set q' = insert e (set q)"
    and ev2: "events s2 e = Some ev2" "links ev3 = links ev2" "ev_key ev3 = ev_key ev2"
    and ev3: "sim_event ev3 l3" "scheduled ev3" "ev_queue ev3 = Some (q_id s)"
      "curTick s \<le> ev_when ev3"
    and others: "\<And>x. x \<noteq> e \<Longrightarrow> map_option attrs (events s2 x) = map_option attrs (events s x)"
    and fields: "s2 = s\<lparr> events := events s2, head := head s2 \<rparr>"
  shows "sim (s2\<lparr> events := (events s2)(e \<mapsto> ev3) \<rparr>)
     (sp_set e (Some l3) (sp_insert e k (sp_remove e a))) q'"
proof -
  define s3 where "s3 = s2\<lparr> events := (events s2)(e \<mapsto> ev3) \<rparr>"
  define a3 where "a3 = sp_set e (Some l3) (sp_insert e k (sp_remove e a))"
  have s3: "q_id s3 = q_id s" "curTick s3 = curTick s" "async_queue s3 = async_queue s"
    "inParallelMode s3 = inParallelMode s"
    using arg_cong[OF fields, of q_id] arg_cong[OF fields, of curTick]
      arg_cong[OF fields, of async_queue] arg_cong[OF fields, of inParallelMode]
    by (simp_all add: s3_def)
  have "sim s3 a3 q'"
    unfolding sim_def
  proof (intro conjI allI)
    show "eq_rep s3 q'"
      unfolding s3_def by (rule eq_rep_update[OF rep ev2(1)]) (use ev2 in simp_all)
    have "keyed (events s3) q' = keyed (events s2) q'"
      by (rule keyed_cong) (auto simp: s3_def ev2)
    then show "sp_agenda a3 = keyed (events s3) q'"
      using keyed simD(2)[OF sim]
      by (simp add: a3_def sp_set_def sp_insert_def sp_remove_def map_removeAll_pair)
  next
    fix p
    show "sim_at (q_id s3) (curTick s3) (set q') p (events s3 p) (sp_live a3 p)"
    proof (cases "p = e")
      case True
      with ev3 set_q' s3 show ?thesis
        by (simp add: s3_def a3_def sp_set_def)
    next
      case other: False
      then have "map_option attrs (events s3 p) = map_option attrs (events s p)"
        using others[OF other] by (simp add: s3_def)
      moreover have "p \<in> set q' \<longleftrightarrow> p \<in> set q" using other set_q' by simp
      moreover have "sp_live a3 p = sp_live a p"
        using other by (simp add: a3_def sp_set_def sp_insert_def sp_remove_def)
      ultimately show ?thesis
        unfolding s3 using sim_at_frame[OF simD(6)[OF sim, of p]] by metis
    qed
  qed (use simD[OF sim] s3 in \<open>simp_all add: a3_def sp_set_def sp_insert_def sp_remove_def\<close>)
  then show ?thesis by (simp add: s3_def a3_def)
qed

lemma sp_remove_absent: "\<not> on_agenda e a \<Longrightarrow> sp_remove e a = a"
proof -
  assume "\<not> on_agenda e a"
  then have "filter (\<lambda>x. snd x \<noteq> e) (sp_agenda a) = sp_agenda a"
    by (intro filter_True) (auto simp: on_agenda_def)
  then show ?thesis by (simp add: sp_remove_def)
qed

lemma sp_set_same: "sp_live a e = Some l \<Longrightarrow> sp_set e (Some l) a = a"
  by (simp add: sp_set_def fun_upd_idem)

lemma attrs_event:
  assumes "attrs ev2 = attrs ev"
  shows "sim_event ev2 l = sim_event ev l" "ev_queue ev2 = ev_queue ev" "ev_when ev2 = ev_when ev"
    "scheduled ev2 = scheduled ev" "isManaged ev2 = isManaged ev" "initialized ev2 = initialized ev"
    "squashed ev2 = squashed ev"
  using assms by (auto simp: attrs_def sim_event_def ev_queries)

lemma eq_schedule_refines:
  assumes sim: "sim s a q"
  shows "refines (run_call (Schedule e t) s) (spec_call (Schedule e t) a)"
  using simD(6)[OF sim, of e]
proof (cases rule: sim_at_cases)
  case 1
  then show ?thesis by (simp add: eq_schedule_def event_at_def)
next
  case (2 ev l)
  show ?thesis
  proof (cases "t < curTick s \<or> e \<in> set q")
    case True
    with 2 show ?thesis
      by (auto simp: eq_schedule_def event_at_Some simD(3)[OF sim] on_agenda_sim[OF sim])
  next
    case False
    then have notin: "e \<notin> set q" by simp
    obtain s2 ev2 where ins:
      "eq_insert e (s\<lparr> events := (events s)(e \<mapsto> setWhen t (q_id s) ev) \<rparr>) = Some (Inr s2)"
      "events s2 e = Some ev2" "attrs ev2 = attrs (setWhen t (q_id s) ev)"
      "\<forall>x. x \<noteq> e \<longrightarrow> map_option attrs (events s2 x) = map_option attrs (events s x)"
      "eq_rep s2 (insort_key (key_of (events s2)) e q)"
      "keyed (events s2) (insort_key (key_of (events s2)) e q) =
         insort_key fst ((t, sint (ev_priority ev)), e) (keyed (events s) q)"
      "s2 = s\<lparr> events := events s2, head := head s2 \<rparr>"
      using insert_at_time[where t = t and i = "q_id s", OF simD(1)[OF sim] 2(1) notin] by blast
    have run: "run_call (Schedule e t) s =
        Some (Inr (s2\<lparr> events := (events s2)(e \<mapsto> set_flags ev_Scheduled ev2) \<rparr>))"
      using 2 False ins(1,2) simD(5)[OF sim]
      by (simp add: eq_schedule_def event_at_Some set_event_Some sim_event_def ev_acquire_def)
    have pri: "sp_pri l = sint (ev_priority ev)"
      using 2(3) by (simp add: sim_event_def)
    have sev: "sim_event ev2 l" "ev_queue ev2 = Some (q_id s)" "ev_when ev2 = t"
      using attrs_event[OF ins(3)] 2(3) by simp_all
    have "removeAll e q = q" using notin by simp
    then have "sim (s2\<lparr> events := (events s2)(e \<mapsto> set_flags ev_Scheduled ev2) \<rparr>)
        (sp_set e (Some l) (sp_insert e (t, sp_pri l) (sp_remove e a)))
        (insort_key (key_of (events s2)) e q)"
      using ins(6) sev False pri
      by (intro sim_inserted[OF sim ins(5) _ _ ins(2) _ _ _ _ _ _ ins(4)[rule_format] ins(7)])
        (simp_all add: set_insort_key not_less)
    moreover have "sp_set e (Some l) (sp_insert e (t, sp_pri l) (sp_remove e a)) =
        sp_insert e (t, sp_pri l) a"
      using 2(2) notin on_agenda_sim[OF sim, of e]
      by (simp add: sp_remove_absent sp_set_same sp_insert_def)
    ultimately show ?thesis
      unfolding run using 2 False simD(3)[OF sim] on_agenda_sim[OF sim]
      by (auto simp: simulates_def intro!: refines_ok)
  qed
qed

text \<open>Removal of a queued event, with or without marks.\<close>

lemma remove_queued:
  assumes sim: "sim s a q" and e: "e \<in> set q" "events s e = Some ev"
  shows "\<exists>s1 ev1. eq_remove e s = Some (Inr s1) \<and> events s1 e = Some ev1 \<and> attrs ev1 = attrs ev \<and>
     same_attrs (events s) (events s1) \<and> eq_rep s1 (removeAll e q) \<and>
     s1 = s\<lparr> events := events s1, head := head s1 \<rparr>"
proof -
  have "ev_queue ev = Some (q_id s)"
    using simD(6)[OF sim, of e] e by (auto elim: sim_at_cases)
  from eq_remove_rep[OF simD(1)[OF sim] e(2,1) this] obtain h p where rem:
    "eq_remove e s = Some (Inr (s\<lparr> events := h, head := p \<rparr>))" "same_attrs (events s) h"
    "eq_rep (s\<lparr> events := h, head := p \<rparr>) (removeAll e q)"
    by blast
  obtain ev1 where "h e = Some ev1" "attrs ev1 = attrs ev"
    using same_attrs_get[OF rem(2) e(2)] by blast
  with rem show ?thesis
    by (intro exI[of _ "s\<lparr> events := h, head := p \<rparr>"] exI[of _ ev1]) simp
qed

text \<open>The state after an event left the queue.\<close>

lemma attrs_key: "map_option attrs eo' = map_option attrs eo \<Longrightarrow> ev_key (the eo') = ev_key (the eo)"
  by (cases eo; cases eo') (auto simp: attrs_def ev_key_def)

lemma sim_removed:
  assumes sim: "sim s a q" and rep: "eq_rep s1 q'"
    and others: "\<And>x. x \<noteq> e \<Longrightarrow> map_option attrs (events s1 x) = map_option attrs (events s x)"
    and set_q': "q' = removeAll e q"
    and eo: "sim_at (q_id s) t (set q') e eo lo"
    and t: "\<And>p ev. p \<in> set q' \<Longrightarrow> events s1 p = Some ev \<Longrightarrow> t \<le> ev_when ev"
    and fields: "s1 = s\<lparr> events := events s1, head := head s1 \<rparr>"
  shows "sim (s1\<lparr> events := (events s1)(e := eo), curTick := t \<rparr>)
     ((sp_set e lo (sp_remove e a))\<lparr> sp_now := t \<rparr>) q'"
proof -
  define s2 where "s2 = s1\<lparr> events := (events s1)(e := eo), curTick := t \<rparr>"
  define a2 where "a2 = (sp_set e lo (sp_remove e a))\<lparr> sp_now := t \<rparr>"
  have s2: "q_id s2 = q_id s" "curTick s2 = t" "async_queue s2 = async_queue s"
    "inParallelMode s2 = inParallelMode s"
    using arg_cong[OF fields, of q_id] arg_cong[OF fields, of async_queue]
      arg_cong[OF fields, of inParallelMode]
    by (simp_all add: s2_def)
  have notin: "e \<notin> set q'" using set_q' by simp
  have "sim s2 a2 q'"
    unfolding sim_def
  proof (intro conjI allI)
    have "eq_rep (s1\<lparr> events := (events s1)(e := eo) \<rparr>) q'"
      by (rule eq_rep_outside[OF rep notin])
    then show "eq_rep s2 q'" by (simp add: s2_def eq_rep_def)
    have "keyed (events s2) q' = keyed (events s) q'"
    proof (rule keyed_cong)
      fix p assume "p \<in> set q'"
      then have "p \<noteq> e" using notin by auto
      with attrs_key[OF others] show "key_of (events s2) p = key_of (events s) p"
        by (simp add: s2_def)
    qed
    then show "sp_agenda a2 = keyed (events s2) q'"
      using simD(2)[OF sim]
      by (simp add: a2_def sp_set_def sp_remove_def set_q' map_removeAll_pair)
  next
    fix p
    show "sim_at (q_id s2) (curTick s2) (set q') p (events s2 p) (sp_live a2 p)"
    proof (cases "p = e")
      case True
      with eo s2 show ?thesis by (simp add: s2_def a2_def sp_set_def)
    next
      case other: False
      have eqs: "events s2 p = events s1 p" "sp_live a2 p = sp_live a p"
        using other by (simp_all add: s2_def a2_def sp_set_def sp_remove_def)
      have "sim_at (q_id s) (curTick s) (set q') p (events s1 p) (sp_live a p)"
        by (rule sim_at_frame[OF simD(6)[OF sim, of p]])
          (use others[OF other] other set_q' in auto)
      then show ?thesis
        unfolding eqs s2 using t[of p] by (cases rule: sim_at_cases) auto
    qed
  qed (use simD[OF sim] s2 in \<open>simp_all add: a2_def\<close>)
  then show ?thesis by (simp add: s2_def a2_def)
qed

lemma fields_same:
  assumes "s1 = s\<lparr> events := events s1, head := head s1 \<rparr>"
  shows "q_id s1 = q_id s" "curTick s1 = curTick s" "async_queue s1 = async_queue s"
    "inParallelMode s1 = inParallelMode s" "curEventQueue s1 = curEventQueue s"
  using arg_cong[OF assms, of q_id] arg_cong[OF assms, of curTick]
    arg_cong[OF assms, of async_queue] arg_cong[OF assms, of inParallelMode]
    arg_cong[OF assms, of curEventQueue]
  by simp_all

lemma set_event_twice:
  "events s p = Some e \<Longrightarrow>
   rbind (set_event p f s) (set_event p g) = Inr (s\<lparr> events := (events s)(p \<mapsto> g (f e)) \<rparr>)"
  by (simp add: set_event_Some)

lemma ev_release_unqueued:
  "events s p = Some e \<Longrightarrow> \<not> scheduled e \<Longrightarrow>
   ev_release p s = Inr (s\<lparr> events := (events s)(p := if isManaged e then None else Some e) \<rparr>)"
  by (simp add: ev_release_def delete_Event_def event_at_Some fun_upd_idem)

lemma sim_when:
  assumes "sim s a q" "p \<in> set q" "events s p = Some ev"
  shows "curTick s \<le> ev_when ev"
  using simD(6)[OF assms(1), of p] assms(2,3) by (auto elim: sim_at_cases)

lemma eq_deschedule_refines:
  assumes sim: "sim s a q"
  shows "refines (run_call (Deschedule e) s) (spec_call (Deschedule e) a)"
  using simD(6)[OF sim, of e]
proof (cases rule: sim_at_cases)
  case 1
  then show ?thesis by (simp add: eq_deschedule_def event_at_def)
next
  case (2 ev l)
  show ?thesis
  proof (cases "e \<in> set q")
    case False
    with 2 show ?thesis
      by (simp add: eq_deschedule_def event_at_Some on_agenda_sim[OF sim])
  next
    case True
    from remove_queued[OF sim True 2(1)] obtain s1 ev1 where rem:
      "eq_remove e s = Some (Inr s1)" "events s1 e = Some ev1" "attrs ev1 = attrs ev"
      "same_attrs (events s) (events s1)" "eq_rep s1 (removeAll e q)"
      "s1 = s\<lparr> events := events s1, head := head s1 \<rparr>"
      by blast
    define ev3 where "ev3 = clear_flags ev_Scheduled (clear_flags ev_Squashed ev1)"
    define eo where "eo = (if isManaged ev3 then None else Some ev3)"
    define l3 where "l3 = l\<lparr> sp_squashed := False \<rparr>"
    have "sim_event ev1 l"
      using attrs_event(1)[OF rem(3)] 2(3) by simp
    then have sev: "\<not> scheduled ev3" "sim_event ev3 l3"
      by (simp_all add: ev3_def l3_def)
    then have ev3: "\<not> scheduled ev3" "sim_event ev3 l3" "isManaged ev3 = sp_managed l3"
      by (simp_all add: sim_event_def)
    define s3 where "s3 = s1\<lparr> events := (events s1)(e \<mapsto> ev3) \<rparr>"
    have "ev_release e s3 = Inr (s1\<lparr> events := (events s1)(e := eo) \<rparr>)"
      using ev_release_unqueued[of s3 e ev3] ev3 by (simp add: s3_def eo_def)
    then have run: "run_call (Deschedule e) s = Some (Inr (s1\<lparr> events := (events s1)(e := eo) \<rparr>))"
      using 2 True rem(1,2) simD(5)[OF sim]
      by (simp add: eq_deschedule_def event_at_Some sim_event_def set_event_Some s3_def ev3_def)
    have "sim (s1\<lparr> events := (events s1)(e := eo), curTick := curTick s \<rparr>)
        ((sp_set e (if sp_managed l3 then None else Some l3) (sp_remove e a))\<lparr> sp_now := curTick s \<rparr>)
        (removeAll e q)"
    proof (rule sim_removed[OF sim rem(5) _ refl _ _ rem(6)])
      show "map_option attrs (events s1 x) = map_option attrs (events s x)" for x
        using rem(4) by (simp add: same_attrs_def)
      show "sim_at (q_id s) (curTick s) (set (removeAll e q)) e eo
          (if sp_managed l3 then None else Some l3)"
        using ev3 by (auto simp: eo_def)
      fix p evp assume "p \<in> set (removeAll e q)" "events s1 p = Some evp"
      moreover from this obtain ev0 where "events s p = Some ev0" "attrs evp = attrs ev0"
        using eq_rep_alloc[OF simD(1)[OF sim], of p] same_attrs_get[OF rem(4)] by force
      ultimately show "curTick s \<le> ev_when evp"
        using sim_when[OF sim, of p ev0] attrs_event(3)[of evp ev0] by simp
    qed
    moreover have "s1\<lparr> events := (events s1)(e := eo), curTick := curTick s \<rparr> =
        s1\<lparr> events := (events s1)(e := eo) \<rparr>"
      using fields_same(2)[OF rem(6)] by simp
    moreover have "(sp_set e lo (sp_remove e a))\<lparr> sp_now := curTick s \<rparr> = sp_set e lo (sp_remove e a)"
      for lo using simD(3)[OF sim] by (simp add: sp_set_def sp_remove_def)
    ultimately show ?thesis
      unfolding run using 2 True on_agenda_sim[OF sim]
      by (auto simp: simulates_def sp_release_def l3_def intro!: refines_ok)
  qed
qed

lemma squash_refines:
  assumes sim: "sim s a q"
  shows "refines (run_call (Squash e) s) (spec_call (Squash e) a)"
  using simD(6)[OF sim, of e]
proof (cases rule: sim_at_cases)
  case 1
  then show ?thesis by (simp add: squash_def set_event_def event_at_def)
next
  case (2 ev l)
  define s' where "s' = s\<lparr> events := (events s)(e \<mapsto> set_flags ev_Squashed ev) \<rparr>"
  define a' where "a' = sp_set e (Some (l\<lparr> sp_squashed := True \<rparr>)) a"
  have "sim s' a' q"
    unfolding sim_def
  proof (intro conjI allI)
    show "eq_rep s' q"
      unfolding s'_def by (rule eq_rep_update[OF simD(1)[OF sim] 2(1)]) simp_all
    have "keyed (events s') q = keyed (events s) q"
      by (rule keyed_cong) (simp add: s'_def 2(1))
    then show "sp_agenda a' = keyed (events s') q"
      using simD(2)[OF sim] by (simp add: a'_def sp_set_def)
    fix p
    show "sim_at (q_id s') (curTick s') (set q) p (events s' p) (sp_live a' p)"
      using simD(6)[OF sim, of p] 2 by (simp add: s'_def a'_def sp_set_def)
  qed (use simD[OF sim] in \<open>simp_all add: s'_def a'_def sp_set_def\<close>)
  then show ?thesis
    using 2 by (auto simp: squash_def set_event_Some s'_def a'_def simulates_def intro!: refines_ok)
qed

lemma eq_reschedule_refines:
  assumes sim: "sim s a q"
  shows "refines (run_call (Reschedule e t always) s) (spec_call (Reschedule e t always) a)"
  using simD(6)[OF sim, of e]
proof (cases rule: sim_at_cases)
  case 1
  then show ?thesis by (simp add: eq_reschedule_def event_at_def)
next
  case (2 ev l)
  show ?thesis
  proof (cases "t < curTick s \<or> \<not> (always \<or> e \<in> set q)")
    case True
    with 2 show ?thesis
      by (auto simp: eq_reschedule_def event_at_Some simD(3)[OF sim] on_agenda_sim[OF sim])
  next
    case False
    obtain s1 ev1 where rem:
      "(if scheduled ev then eq_remove e s else Some (ev_acquire e s)) = Some (Inr s1)"
      "events s1 e = Some ev1" "attrs ev1 = attrs ev" "same_attrs (events s) (events s1)"
      "eq_rep s1 (removeAll e q)" "s1 = s\<lparr> events := events s1, head := head s1 \<rparr>"
    proof (cases "e \<in> set q")
      case True
      with remove_queued[OF sim True 2(1)] 2(4) that show ?thesis by auto
    next
      case False
      with simD(1)[OF sim] 2(1,4) that[of s ev] show ?thesis
        by (simp add: ev_acquire_def event_at_Some)
    qed
    have "e \<notin> set (removeAll e q)" by simp
    from insert_at_time[where t = t and i = "q_id s", OF rem(5,2) this] obtain s2 ev2 where ins:
      "eq_insert e (s1\<lparr> events := (events s1)(e \<mapsto> setWhen t (q_id s) ev1) \<rparr>) = Some (Inr s2)"
      "events s2 e = Some ev2" "attrs ev2 = attrs (setWhen t (q_id s) ev1)"
      "\<forall>x. x \<noteq> e \<longrightarrow> map_option attrs (events s2 x) = map_option attrs (events s1 x)"
      "eq_rep s2 (insort_key (key_of (events s2)) e (removeAll e q))"
      "keyed (events s2) (insort_key (key_of (events s2)) e (removeAll e q)) =
         insort_key fst ((t, sint (ev_priority ev1)), e) (keyed (events s1) (removeAll e q))"
      "s2 = s1\<lparr> events := events s2, head := head s2 \<rparr>"
      by blast
    define ev3 where "ev3 = set_flags ev_Scheduled (clear_flags ev_Squashed ev2)"
    define l3 where "l3 = l\<lparr> sp_squashed := False \<rparr>"
    have run: "run_call (Reschedule e t always) s = Some (Inr (s2\<lparr> events := (events s2)(e \<mapsto> ev3) \<rparr>))"
      using 2 False rem(1,2) ins(1,2) simD(5)[OF sim]
      by (auto simp: eq_reschedule_def event_at_Some set_event_Some sim_event_def ev3_def)
    have pri: "sp_pri l = sint (ev_priority ev1)"
      using 2(3) rem(3) by (simp add: sim_event_def attrs_def)
    have sev: "sim_event ev2 l" "ev_queue ev2 = Some (q_id s)" "ev_when ev2 = t"
      using attrs_event[OF ins(3)] attrs_event[OF rem(3)] 2(3) by simp_all
    have ev3: "sim_event ev3 l3" "scheduled ev3" "ev_queue ev3 = Some (q_id s)" "ev_when ev3 = t"
      using sev by (simp_all add: ev3_def l3_def)
    have keyed: "keyed (events s1) (removeAll e q) = keyed (events s) (removeAll e q)"
      by (rule keyed_cong) (rule same_attrs_key[OF rem(4)])
    have s1: "s1\<lparr> events := x, head := y \<rparr> = s\<lparr> events := x, head := y \<rparr>" for x y
      by (subst rem(6)) simp
    have "sim (s2\<lparr> events := (events s2)(e \<mapsto> ev3) \<rparr>)
        (sp_set e (Some l3) (sp_insert e (t, sp_pri l) (sp_remove e a)))
        (insort_key (key_of (events s2)) e (removeAll e q))"
    proof (rule sim_inserted[OF sim ins(5) _ _ ins(2)])
      show "keyed (events s2) (insort_key (key_of (events s2)) e (removeAll e q)) =
          insort_key fst ((t, sp_pri l), e) (keyed (events s) (removeAll e q))"
        using ins(6) unfolding keyed pri .
      show "map_option attrs (events s2 x) = map_option attrs (events s x)" if "x \<noteq> e" for x
        using ins(4) rem(4) that by (simp add: same_attrs_def)
      show "s2 = s\<lparr> events := events s2, head := head s2 \<rparr>"
        using ins(7) unfolding s1 .
    qed (use ev3 False in \<open>auto simp: set_insort_key ev3_def not_less\<close>)
    then show ?thesis
      unfolding run using 2 False simD(3)[OF sim] on_agenda_sim[OF sim]
      by (auto simp: simulates_def l3_def intro!: refines_ok)
  qed
qed

lemma run_call_refines: "simulates s a \<Longrightarrow> refines (run_call c s) (spec_call c a)"
  unfolding simulates_def
  by (cases c)
    (auto dest: new_Event_refines eq_schedule_refines eq_deschedule_refines eq_reschedule_refines
      squash_refines simp del: run_call.simps spec_call.simps)

lemma run_calls_refines: "simulates s a \<Longrightarrow> refines (run_calls cs s) (spec_calls cs a)"
proof (induction cs arbitrary: s a)
  case (Cons c cs)
  from run_call_refines[OF Cons(2), of c] show ?case
    by (cases rule: refinesE) (simp_all add: Cons(1))
qed (simp add: refines_ok)

section \<open>Service of the first event\<close>

text \<open>The earliest event has the smallest time.\<close>

lemma sim_head_earliest:
  assumes sim: "sim s a (e # q)" and ev: "events s e = Some ev" "events s p = Some pv"
    and p: "p \<in> set q"
  shows "ev_when ev \<le> ev_when pv"
proof -
  have "ev_key ev \<le> ev_key pv"
    using eq_rep_sorted[OF simD(1)[OF sim]] p ev by (auto simp: image_iff)
  then show ?thesis by (auto simp: ev_key_def)
qed

text \<open>The state after the first event was taken off, with the time set to \<open>t\<close>.\<close>

lemma sim_popped:
  assumes sim: "sim s a (e # q)" and ev: "events s e = Some ev"
    and sa: "same_attrs ((events s)(e \<mapsto> clear_flags ev_Scheduled ev)) h"
    and rep: "eq_rep (s\<lparr> events := h, head := p \<rparr>) q"
    and t: "t \<le> ev_when ev" and eo: "sim_at (q_id s) t (set q) e eo lo"
  shows "sim (s\<lparr> events := h(e := eo), head := p, curTick := t \<rparr>)
     (sp_set e lo (a\<lparr> sp_agenda := tl (sp_agenda a), sp_now := t \<rparr>)) q"
proof -
  have e: "e \<notin> set q" "removeAll e (e # q) = q"
    using eq_rep_distinct[OF simD(1)[OF sim]] by auto
  have "sim ((s\<lparr> events := h, head := p \<rparr>)\<lparr> events := (events (s\<lparr> events := h, head := p \<rparr>))(e := eo), curTick := t \<rparr>)
      ((sp_set e lo (sp_remove e a))\<lparr> sp_now := t \<rparr>) q"
  proof (rule sim_removed[OF sim rep _ e(2)[symmetric] eo])
    show "map_option attrs (events (s\<lparr> events := h, head := p \<rparr>) x) = map_option attrs (events s x)"
      if "x \<noteq> e" for x
      using sa that by (simp add: same_attrs_def)
    fix x pv assume x: "x \<in> set q" "events (s\<lparr> events := h, head := p \<rparr>) x = Some pv"
    then have "x \<noteq> e" using e by auto
    have "map_option attrs (h x) = map_option attrs (((events s)(e \<mapsto> clear_flags ev_Scheduled ev)) x)"
      using sa unfolding same_attrs_def by blast
    with x(2) \<open>x \<noteq> e\<close> have "map_option attrs (events s x) = Some (attrs pv)"
      by simp
    then obtain xv where "events s x = Some xv" "attrs xv = attrs pv" by auto
    with sim_head_earliest[OF sim ev this(1) x(1)] t attrs_event(3)[of xv pv]
    show "t \<le> ev_when pv" by simp
  qed simp
  moreover have "sp_agenda (sp_remove e a) = tl (sp_agenda a)"
    using simD(2)[OF sim] e by (auto simp: sp_remove_def intro!: filter_True)
  then have "(sp_set e lo (sp_remove e a))\<lparr> sp_now := t \<rparr> =
      sp_set e lo (a\<lparr> sp_agenda := tl (sp_agenda a), sp_now := t \<rparr>)"
    by (simp add: sp_set_def sp_remove_def)
  moreover have "s\<lparr> head := p, events := x, curTick := t \<rparr> = s\<lparr> events := x, head := p, curTick := t \<rparr>" for x
    by (cases s) simp
  ultimately show ?thesis by simp
qed

lemma sim_release:
  assumes sim: "sim s a q" and e: "events s e = Some ev" "sp_live a e = Some l" "e \<notin> set q"
  shows "ev_release e s = Inr (s\<lparr> events := (events s)(e := if isManaged ev then None else Some ev) \<rparr>)"
    and "sim (s\<lparr> events := (events s)(e := if isManaged ev then None else Some ev) \<rparr>) (sp_release e l a) q"
proof -
  have at: "sim_at (q_id s) (curTick s) (set q) e (Some ev) (Some l)"
    using simD(6)[OF sim, of e] e by simp
  then have "\<not> scheduled ev" "isManaged ev = sp_managed l"
    using e(3) by (simp_all add: sim_event_def)
  then show "ev_release e s = Inr (s\<lparr> events := (events s)(e := if isManaged ev then None else Some ev) \<rparr>)"
    by (simp add: ev_release_unqueued[OF e(1)])
  have "sim (s\<lparr> events := (events s)(e := if isManaged ev then None else Some ev), curTick := curTick s \<rparr>)
      ((sp_set e (if sp_managed l then None else Some l) (sp_remove e a))\<lparr> sp_now := curTick s \<rparr>) q"
    by (rule sim_removed[OF sim simD(1)[OF sim] refl])
      (use e at \<open>isManaged ev = sp_managed l\<close> sim_when[OF sim] in auto)
  moreover have "(sp_set e (if sp_managed l then None else Some l) (sp_remove e a))\<lparr> sp_now := curTick s \<rparr> =
      sp_release e l a"
    using e(3) on_agenda_sim[OF sim] simD(3)[OF sim]
    by (simp add: sp_remove_absent sp_release_def sp_set_def)
  moreover have "s\<lparr> events := h, curTick := curTick s \<rparr> = s\<lparr> events := h \<rparr>" for h
    by simp
  ultimately show "sim (s\<lparr> events := (events s)(e := if isManaged ev then None else Some ev) \<rparr>)
      (sp_release e l a) q"
    by metis
qed

text \<open>
  A service refines the service of the machine. The calls of the serviced event are made in
  a state in which the event has left the queue and the time is its time.
\<close>

definition refines_service :: "(evid option \<times> EventQueue) res \<Rightarrow> (evid option \<times> agenda) option \<Rightarrow> bool" where
  "refines_service r ao \<longleftrightarrow> (\<exists>x. r = Some x \<and>
     (case x of Inl err \<Rightarrow> ao = None
      | Inr y \<Rightarrow> (\<exists>a'. ao = Some (fst y, a') \<and> simulates (snd y) a')))"

lemma refines_service_fail [simp]: "refines_service (Some (Inl err)) None"
  by (simp add: refines_service_def)

lemma refines_service_ok:
  "simulates s' a' \<Longrightarrow> refines_service (Some (Inr (x, s'))) (Some (x, a'))"
  by (simp add: refines_service_def)

text \<open>What follows the calls of the event.\<close>

lemma finish_service_refines:
  assumes sim: "simulates s a"
  shows "refines_service
     (pbind (Some (event_at s e)) (\<lambda>e3.
        if isExitEvent e3 then
          if isManaged e3 \<and> flag_isSet (ev_flags e3) ev_IsMainQueue
          then Some (Inl (AssertFail ''!Managed || !IsMainQueue''))
          else Some (Inr (Some e, s))
        else Some (rbind (ev_release e s) (\<lambda>s4. Inr (None, s4)))))
     (case sp_live a e of
        None \<Rightarrow> None
      | Some l2 \<Rightarrow>
          if sp_exit l2 then Some (Some e, a)
          else if on_agenda e a then Some (None, a)
          else Some (None, sp_release e l2 a))"
proof -
  from sim obtain q where q: "sim s a q" by (auto simp: simulates_def)
  from simD(6)[OF q, of e] show ?thesis
  proof (cases rule: sim_at_cases)
    case 1
    then show ?thesis by (simp add: event_at_def)
  next
    case (2 ev l)
    have flags: "sp_exit l = isExitEvent ev" "\<not> flag_isSet (ev_flags ev) ev_IsMainQueue"
      using 2(3) by (simp_all add: sim_event_def isMainQueue_def)
    show ?thesis
    proof (cases "isExitEvent ev")
      case True
      with 2 flags sim show ?thesis
        by (simp add: event_at_Some refines_service_ok)
    next
      case not_exit: False
      show ?thesis
      proof (cases "e \<in> set q")
        case True
        then have "ev_release e s = Inr s"
          using 2 by (simp add: ev_release_def event_at_Some)
        with True 2 flags not_exit sim on_agenda_sim[OF q] show ?thesis
          by (simp add: event_at_Some refines_service_ok)
      next
        case False
        with sim_release[OF q 2(1,2) False] 2 flags not_exit on_agenda_sim[OF q] show ?thesis
          by (auto simp: event_at_Some simulates_def intro!: refines_service_ok)
      qed
    qed
  qed
qed

lemma serviceOne_refines:
  assumes "simulates s a"
  shows "refines_service (serviceOne (\<lambda>e _. calls e) s) (spec_service calls a)"
proof -
  from assms obtain q where sim: "sim s a q" by (auto simp: simulates_def)
  show ?thesis
  proof (cases q)
    case Nil
    with eq_rep_head[OF simD(1)[OF sim]] simD(2)[OF sim] show ?thesis
      by (simp add: serviceOne_def pop_event_def spec_service_def)
  next
    case (Cons e q')
    note sim = sim[unfolded Cons]
    have e: "e \<notin> set q'" using eq_rep_distinct[OF simD(1)[OF sim]] by simp
    from simD(6)[OF sim, of e] obtain ev l where ev: "events s e = Some ev" "sp_live a e = Some l"
      "sim_event ev l" "curTick s \<le> ev_when ev"
      by (cases rule: sim_at_cases) auto
    from pop_event_rep[OF simD(1)[OF sim] ev(1)] obtain h p where pop:
      "pop_event s = Inr (e, s\<lparr> events := h, head := p \<rparr>)"
      "same_attrs ((events s)(e \<mapsto> clear_flags ev_Scheduled ev)) h"
      "eq_rep (s\<lparr> events := h, head := p \<rparr>) q'"
      by blast
    obtain ev1 where ev1: "h e = Some ev1" "attrs ev1 = attrs (clear_flags ev_Scheduled ev)"
      using same_attrs_get[OF pop(2), of e] by auto
    have "sim_event ev1 l" "\<not> scheduled ev1" "ev_when ev1 = ev_when ev"
      using attrs_event[OF ev1(2)] ev(3) by simp_all
    then have sev1: "sim_event ev1 l" "\<not> scheduled ev1" "ev_when ev1 = ev_when ev"
      "squashed ev1 = sp_squashed l"
      by (simp_all add: sim_event_def)
    have agenda: "sp_agenda a = ((ev_when ev, sint (ev_priority ev)), e) # tl (sp_agenda a)"
      using simD(2)[OF sim] ev(1) by (simp add: ev_key_def)
    show ?thesis
    proof (cases "sp_squashed l")
      case False
      have at: "sim_at (q_id s) (ev_when ev) (set q') e (Some ev1) (Some l)"
        using sev1 e by simp
      from sim_popped[OF sim ev(1) pop(2,3) order_refl at]
      have sim2: "simulates (s\<lparr> events := h, head := p, curTick := ev_when ev \<rparr>)
          (a\<lparr> sp_agenda := tl (sp_agenda a), sp_now := ev_when ev \<rparr>)"
        using ev1(1) ev(2)
        by (auto simp: simulates_def fun_upd_idem sp_set_same)
      have run: "serviceOne (\<lambda>e _. calls e) s =
          pbind (run_calls (calls e) (s\<lparr> events := h, head := p, curTick := ev_when ev \<rparr>)) (\<lambda>s3.
          pbind (Some (event_at s3 e)) (\<lambda>e3.
            if isExitEvent e3 then
              if isManaged e3 \<and> flag_isSet (ev_flags e3) ev_IsMainQueue
              then Some (Inl (AssertFail ''!Managed || !IsMainQueue''))
              else Some (Inr (Some e, s3))
            else Some (rbind (ev_release e s3) (\<lambda>s4. Inr (None, s4)))))"
        using pop(1) ev1(1) sev1 False
        by (simp add: serviceOne_def event_at_Some Let_def)
      from run_calls_refines[OF sim2, of "calls e"] show ?thesis
      proof (cases rule: refinesE)
        case (1 err)
        have "spec_service calls a = None"
          using ev(2) False 1(2) unfolding spec_service_def by (subst agenda) simp
        with 1(1) show ?thesis
          unfolding run by simp
      next
        case (2 s3 a3)
        have "spec_service calls a = (case sp_live a3 e of
            None \<Rightarrow> None
          | Some l2 \<Rightarrow>
              if sp_exit l2 then Some (Some e, a3)
              else if on_agenda e a3 then Some (None, a3)
              else Some (None, sp_release e l2 a3))"
          using ev(2) False 2(2) unfolding spec_service_def by (subst agenda) simp
        with finish_service_refines[OF 2(3), of e] 2(1) show ?thesis
          unfolding run by simp
      qed
    next
      case True
      define ev2 where "ev2 = clear_flags ev_Squashed ev1"
      define eo where "eo = (if isManaged ev2 then None else Some ev2)"
      define l2 where "l2 = l\<lparr> sp_squashed := False \<rparr>"
      have ev2: "sim_event ev2 l2" "\<not> scheduled ev2" "isManaged ev2 = sp_managed l2"
        using sev1 sim_event_squash(2)[OF sev1(1)] by (simp_all add: ev2_def l2_def sim_event_def)
      have at: "sim_at (q_id s) (curTick s) (set q') e eo (if sp_managed l2 then None else Some l2)"
        using ev2 e by (simp add: eo_def)
      have sim2: "simulates (s\<lparr> events := h(e := eo), head := p \<rparr>)
          (sp_release e l2 (a\<lparr> sp_agenda := tl (sp_agenda a) \<rparr>))"
      proof -
        have "a\<lparr> sp_agenda := x, sp_now := curTick s \<rparr> = a\<lparr> sp_agenda := x \<rparr>" for x
          using simD(3)[OF sim] by (cases a) simp
        with sim_popped[OF sim ev(1) pop(2,3) ev(4) at] show ?thesis
          by (auto simp: simulates_def sp_release_def)
      qed
      define s2 where "s2 = s\<lparr> events := h(e \<mapsto> ev2), head := p \<rparr>"
      have "ev_release e s2 = Inr (s\<lparr> events := h(e := eo), head := p \<rparr>)"
        using ev_release_unqueued[of s2 e ev2] ev2(2)
        by (simp add: s2_def eo_def)
      moreover have "set_event e (clear_flags ev_Squashed) (s\<lparr> events := h, head := p \<rparr>) = Inr s2"
        using ev1(1) set_event_Some[of "s\<lparr> events := h, head := p \<rparr>" e ev1 "clear_flags ev_Squashed"]
        by (simp add: s2_def ev2_def)
      ultimately have "serviceOne (\<lambda>e _. calls e) s =
          Some (Inr (None, s\<lparr> events := h(e := eo), head := p \<rparr>))"
        using pop(1) ev1(1) sev1 True by (simp add: serviceOne_def event_at_Some)
      moreover have "spec_service calls a =
          Some (None, sp_release e l2 (a\<lparr> sp_agenda := tl (sp_agenda a) \<rparr>))"
        using ev(2) True unfolding spec_service_def l2_def by (subst agenda) simp
      ultimately show ?thesis
        using sim2 by (simp add: refines_service_ok)
    qed
  qed
qed

end
