(* ===== verification/EventQueueProps.thy ===== *)
theory EventQueueProps
  imports EventQueueAgenda
begin

text \<open>
  The properties of the event queue: it implements the agenda for every sequence of calls and
  services; the simulation loop never meets an event in the past; the destructor ends; the
  debugging check accepts the queue except in one case; and what a checkpoint restores.
\<close>

section \<open>Sequences of operations\<close>

text \<open>
  A call from outside, or the service of the first event, which makes the calls given for it.
\<close>

datatype eq_op =
    Call eq_call
  | Service "evid \<Rightarrow> eq_call list"

fun run_ops :: "eq_op list \<Rightarrow> EventQueue \<Rightarrow> EventQueue res" where
  "run_ops [] s = Some (Inr s)"
| "run_ops (Call c # ops) s = pbind (run_call c s) (run_ops ops)"
| "run_ops (Service calls # ops) s =
     pbind (serviceOne (\<lambda>e _. calls e) s) (\<lambda>r. run_ops ops (snd r))"

fun agenda_ops :: "eq_op list \<Rightarrow> agenda \<Rightarrow> agenda option" where
  "agenda_ops [] a = Some a"
| "agenda_ops (Call c # ops) a = Option.bind (spec_call c a) (agenda_ops ops)"
| "agenda_ops (Service calls # ops) a =
     Option.bind (spec_service calls a) (\<lambda>r. agenda_ops ops (snd r))"

lemma refines_serviceE:
  assumes "refines_service r ao"
  obtains err where "r = Some (Inl err)" "ao = None"
  | x s' a' where "r = Some (Inr (x, s'))" "ao = Some (x, a')" "simulates s' a'"
proof -
  from assms obtain x where x: "r = Some x"
    "case x of Inl err \<Rightarrow> ao = None | Inr y \<Rightarrow> (\<exists>a'. ao = Some (fst y, a') \<and> simulates (snd y) a')"
    by (auto simp: refines_service_def)
  then show ?thesis
    using that by (cases x) auto
qed

lemma run_ops_refines: "simulates s a \<Longrightarrow> refines (run_ops ops s) (agenda_ops ops a)"
proof (induction ops arbitrary: s a)
  case Nil
  then show ?case by (simp add: refines_ok)
next
  case (Cons x ops)
  show ?case
  proof (cases x)
    case (Call c)
    from run_call_refines[OF Cons(2), of c] show ?thesis
      unfolding Call by (cases rule: refinesE) (simp_all add: Cons(1))
  next
    case (Service calls)
    from serviceOne_refines[OF Cons(2), of calls] show ?thesis
      unfolding Service by (cases rule: refines_serviceE) (simp_all add: Cons(1))
  qed
qed

lemma simulates_init: "simulates (new_EventQueue i) agenda_init"
  unfolding simulates_def sim_def
  by (intro exI[of _ "[]"]) (auto simp: new_EventQueue_def agenda_init_def eq_rep_def intro!: exI[of _ "[]"])

lemma run_ops_simulates:
  assumes "run_ops ops (new_EventQueue i) = Some (Inr s)"
  obtains a q where "sim s a q"
  using run_ops_refines[OF simulates_init, of ops i] assms
  by (auto simp: refines_def simulates_def)

text \<open>C5: The event queue implements the agenda. Every sequence of calls and services on a
  new queue returns; it stops the simulation exactly when the agenda machine has no successor,
  and otherwise the linked bins hold the events of the agenda in its order, the flags and times
  of the events agree with it, and the current time is that of the agenda.\<close>

theorem event_queue_refines_agenda:
  "\<exists>r. run_ops ops (new_EventQueue i) = Some r \<and>
     (case r of
        Inl err \<Rightarrow> agenda_ops ops agenda_init = None
      | Inr s \<Rightarrow> (\<exists>a. agenda_ops ops agenda_init = Some a \<and> simulates s a))"
  using run_ops_refines[OF simulates_init, of ops i] by (simp add: refines_def)

section \<open>The simulation loop\<close>

lemma serviceOne_fixed_calls: "\<exists>calls. serviceOne process s = serviceOne (\<lambda>e _. calls e) s"
proof (cases "pop_event s")
  case (Inr r)
  then obtain event s1 where r: "pop_event s = Inr (event, s1)" by (cases r) auto
  show ?thesis
    by (rule exI[of _ "\<lambda>_. case events s1 event of None \<Rightarrow> [] |
          Some e \<Rightarrow> process event (s1\<lparr> curTick := ev_when e \<rparr>)"])
      (cases "events s1 event"; simp add: serviceOne_def r event_at_def Let_def)
qed (simp add: serviceOne_def)

lemma serviceOne_keeps:
  assumes "simulates s a" "serviceOne process s = Some (Inr (x, s'))"
  shows "\<exists>a'. simulates s' a'"
proof -
  obtain calls where "serviceOne process s = serviceOne (\<lambda>e _. calls e) s"
    using serviceOne_fixed_calls by blast
  with serviceOne_refines[OF assms(1), of calls] assms(2) show ?thesis
    by (auto simp: refines_service_def)
qed

text \<open>The next event is the earliest of all scheduled events and not in the past.\<close>

lemma sim_next_event:
  assumes sim: "sim s a q" and h: "head s = Some h"
  obtains e where "events s h = Some e" "curTick s \<le> ev_when e"
    "\<And>p f. events s p = Some f \<Longrightarrow> scheduled f \<Longrightarrow> ev_key e \<le> ev_key f"
proof -
  from eq_rep_head[OF simD(1)[OF sim]] h obtain q' where q: "q = h # q'"
    by (cases q) (auto split: if_splits)
  obtain e where e: "events s h = Some e"
    using eq_rep_alloc[OF simD(1)[OF sim], of h] q by auto
  have "ev_key e \<le> ev_key f" if f: "events s p = Some f" "scheduled f" for p f
  proof -
    have "p \<in> set q" using simD(6)[OF sim, of p] f by (auto elim: sim_at_cases)
    with eq_rep_sorted[OF simD(1)[OF sim]] q e f show ?thesis by auto
  qed
  with that e sim_when[OF sim, of h e] q show ?thesis by auto
qed

definition not_past :: "'a res \<Rightarrow> bool" where
  "not_past r \<longleftrightarrow> r \<noteq> Some (Inl (AssertFail ''event scheduled in the past''))"

lemma not_past_pbind:
  "not_past r \<Longrightarrow> (\<And>x. r = Some (Inr x) \<Longrightarrow> not_past (f x)) \<Longrightarrow> not_past (pbind r f)"
  by (cases "(r, f)" rule: pbind.cases) (auto simp: not_past_def)

lemma not_past_rbind:
  "not_past (Some r) \<Longrightarrow> (\<And>x. not_past (Some (f x))) \<Longrightarrow> not_past (Some (rbind r f))"
  by (cases r) (auto simp: not_past_def)

lemma not_past_simps [simp]:
  "not_past (Some (Inr x))" "not_past (Some (event_at s p))" "not_past (Some (set_event p f s))"
  "not_past (Some (deref po))" "not_past None"
  by (auto simp: not_past_def event_at_def set_event_def split: option.splits) (cases po; simp)+

lemma not_past_find_bin: "not_past (find_bin prev cur event s)"
proof -
  have "y \<noteq> Inl (AssertFail ''event scheduled in the past'')"
    if "find_bin prev cur event s = Some y" for y
  proof (rule find_bin.raw_induct[where
        P = "\<lambda>_ _ _ _ y. y \<noteq> Inl (AssertFail ''event scheduled in the past'')", OF _ that])
    fix f prev cur event s y
    assume ih: "\<And>prev cur event s y. f prev cur event s = Some y \<Longrightarrow>
        y \<noteq> Inl (AssertFail ''event scheduled in the past'')"
      and eq: "(case cur of None \<Rightarrow> Some (Inr (prev, None))
        | Some c \<Rightarrow> (case event_at s c of Inl err \<Rightarrow> Some (Inl err)
            | Inr ce \<Rightarrow> (case event_at s event of Inl err \<Rightarrow> Some (Inl err)
                | Inr e \<Rightarrow> if ev_less ce e then f c (nextBin ce) event s
                    else Some (Inr (prev, Some c))))) = Some y"
    from eq show "y \<noteq> Inl (AssertFail ''event scheduled in the past'')"
      by (auto simp: event_at_def split: option.splits if_splits dest: ih)
  qed
  then show ?thesis by (auto simp: not_past_def)
qed

lemma not_past_find_in_bin: "not_past (find_in_bin event cur nxt s)"
proof -
  have "y \<noteq> Inl (AssertFail ''event scheduled in the past'')"
    if "find_in_bin event cur nxt s = Some y" for y
  proof (rule find_in_bin.raw_induct[where
        P = "\<lambda>_ _ _ _ y. y \<noteq> Inl (AssertFail ''event scheduled in the past'')", OF _ that])
    fix f event cur nxt s y
    assume ih: "\<And>event cur nxt s y. f event cur nxt s = Some y \<Longrightarrow>
        y \<noteq> Inl (AssertFail ''event scheduled in the past'')"
      and eq: "(case nxt of None \<Rightarrow> Some (Inl (Panic ''event not found!''))
        | Some n \<Rightarrow> if event = n then Some (Inr (cur, n))
            else (case event_at s n of Inl err \<Rightarrow> Some (Inl err)
              | Inr ne \<Rightarrow> f event n (nextInBin ne) s)) = Some y"
    from eq show "y \<noteq> Inl (AssertFail ''event scheduled in the past'')"
      by (auto simp: event_at_def split: option.splits if_splits dest: ih)
  qed
  then show ?thesis by (auto simp: not_past_def)
qed

lemma not_past_if: "(b \<Longrightarrow> not_past r) \<Longrightarrow> (\<not> b \<Longrightarrow> not_past t) \<Longrightarrow> not_past (if b then r else t)"
  by simp

lemma not_past_option:
  "(x = None \<Longrightarrow> not_past r) \<Longrightarrow> (\<And>y. x = Some y \<Longrightarrow> not_past (f y)) \<Longrightarrow>
   not_past (case x of None \<Rightarrow> r | Some y \<Rightarrow> f y)"
  by (cases x) auto

lemma not_past_prod: "(\<And>a b. x = (a, b) \<Longrightarrow> not_past (f a b)) \<Longrightarrow> not_past (case x of (a, b) \<Rightarrow> f a b)"
  by (cases x) auto

lemma not_past_Some_if:
  "not_past (Some r) \<Longrightarrow> not_past (Some t) \<Longrightarrow> not_past (Some (if b then r else t))"
  by simp

lemma not_past_error:
  "not_past (Some (Inl (Panic m)))" "not_past (Some (Inl (Undefined m)))"
  by (simp_all add: not_past_def)

lemmas not_past_intros = not_past_pbind not_past_rbind not_past_if not_past_option not_past_prod
  not_past_Some_if not_past_find_bin not_past_find_in_bin not_past_error not_past_simps

lemma not_past_insertBefore: "not_past (Some (insertBefore event cur s))"
  unfolding insertBefore_def
  by (cases cur) (auto intro!: not_past_intros simp: insertBefore_def)

lemma not_past_eq_insert: "not_past (eq_insert event s)"
  unfolding eq_insert_def by (intro not_past_intros not_past_insertBefore) (auto intro!: not_past_intros)

lemma not_past_removeItem: "not_past (removeItem event t s)"
  unfolding removeItem_def by (intro not_past_intros)

lemma not_past_eq_remove: "not_past (eq_remove event s)"
  unfolding eq_remove_def
  by (intro not_past_intros not_past_removeItem) (auto intro!: not_past_intros simp: not_past_def)

lemma not_past_release: "not_past (Some (ev_release p s))"
  unfolding ev_release_def delete_Event_def
  by (intro not_past_intros) (auto simp: not_past_def)

lemma not_past_eq_schedule: "not_past (eq_schedule event t g s)"
  unfolding eq_schedule_def ev_acquire_def
  by (intro not_past_intros not_past_eq_insert) (auto intro!: not_past_intros not_past_eq_insert simp: not_past_def)

lemma not_past_eq_deschedule: "not_past (eq_deschedule event s)"
  unfolding eq_deschedule_def
  by (intro not_past_intros not_past_eq_remove not_past_release) (auto simp: not_past_def)

lemma not_past_eq_reschedule: "not_past (eq_reschedule event t always s)"
  unfolding eq_reschedule_def ev_acquire_def
  by (intro not_past_intros not_past_eq_insert not_past_eq_remove) (auto simp: not_past_def)

lemma not_past_run_call: "not_past (run_call c s)"
  by (cases c)
    (auto simp: not_past_eq_schedule not_past_eq_deschedule not_past_eq_reschedule new_Event_def
      squash_def not_past_error not_past_def[of "Some (Inl (AssertFail _))"])

lemma not_past_run_calls: "not_past (run_calls cs s)"
  by (induction cs arbitrary: s) (auto intro!: not_past_pbind not_past_run_call)

lemma not_past_pop_event: "not_past (Some (pop_event s))"
  unfolding pop_event_def by (intro not_past_intros) (auto intro!: not_past_intros split: option.split)

lemma not_past_serviceOne: "not_past (serviceOne process s)"
  unfolding serviceOne_def Let_def
  by (intro not_past_intros not_past_pop_event not_past_run_calls not_past_release)
    (auto simp: not_past_def)

lemma sim_loop_not_past:
  assumes "simulates s a"
  shows "not_past (sim_loop process s)"
proof -
  let ?past = "Inl (AssertFail ''event scheduled in the past'')"
  have "(\<exists>a. simulates s a) \<longrightarrow> y \<noteq> ?past" if "sim_loop process s = Some y" for y
  proof (rule sim_loop.raw_induct[where P = "\<lambda>_ s y. (\<exists>a. simulates s a) \<longrightarrow> y \<noteq> ?past", OF _ that])
    fix f process s y
    assume ih: "\<And>process s y. f process s = Some y \<Longrightarrow> (\<exists>a. simulates s a) \<longrightarrow> y \<noteq> ?past"
      and eq: "(if head s = None then Some (Inl (AssertFail ''!eventq->empty()''))
        else case nextTick s of Inl err \<Rightarrow> Some (Inl err)
          | Inr n \<Rightarrow> if \<not> curTick s \<le> n then Some ?past
              else (case serviceOne process s of None \<Rightarrow> None
                | Some (Inl err) \<Rightarrow> Some (Inl err)
                | Some (Inr r) \<Rightarrow> (case fst r of Some e \<Rightarrow> Some (Inr (e, snd r))
                    | None \<Rightarrow> f process (snd r)))) = Some y"
    show "(\<exists>a. simulates s a) \<longrightarrow> y \<noteq> ?past"
    proof (intro impI, elim exE)
      fix a assume sims: "simulates s a"
      then obtain q where sim: "sim s a q" by (auto simp: simulates_def)
      show "y \<noteq> ?past"
      proof (cases "head s")
        case None
        with eq show ?thesis by auto
      next
        case (Some h)
        obtain e where e: "events s h = Some e" "curTick s \<le> ev_when e"
          using sim_next_event[OF sim Some] by metis
        with Some have "nextTick s = Inr (ev_when e)"
          by (simp add: nextTick_def event_at_Some)
        with eq e Some have eq': "(case serviceOne process s of None \<Rightarrow> None
                | Some (Inl err) \<Rightarrow> Some (Inl err)
                | Some (Inr r) \<Rightarrow> (case fst r of Some e \<Rightarrow> Some (Inr (e, snd r))
                    | None \<Rightarrow> f process (snd r))) = Some y"
          by simp
        consider err where "serviceOne process s = Some (Inl err)" "y = Inl err"
          | x s' where "serviceOne process s = Some (Inr (Some x, s'))" "y = Inr (x, s')"
          | s' where "serviceOne process s = Some (Inr (None, s'))" "f process s' = Some y"
          using eq' by (auto split: option.splits sum.splits)
        then show ?thesis
        proof cases
          case 1
          with not_past_serviceOne[of process s] show ?thesis by (simp add: not_past_def)
        next
          case (3 s')
          with serviceOne_keeps[OF sims 3(1)] ih[OF 3(2)] show ?thesis by blast
        qed simp
      qed
    qed
  qed
  with assms show ?thesis by (auto simp: not_past_def)
qed

lemma simulates_curEventQueue: "simulates s a \<Longrightarrow> simulates (s\<lparr> curEventQueue := x \<rparr>) a"
  by (auto simp: simulates_def sim_def eq_rep_def)

text \<open>A run with two events at the same time, the second with the higher priority.\<close>

definition two_events :: "eq_op list" where
  "two_events = [Call (NewEvent 1 0 0), Call (NewEvent 2 (-1) 0), Call (Schedule 1 5),
     Call (Schedule 2 5)]"

lemma two_events_run:
  obtains s where "run_ops two_events (new_EventQueue 0) = Some (Inr s)" "head s = Some 2"
  by (simp add: two_events_def new_Event_def new_EventQueue_def eq_schedule_def event_at_def
      set_event_def setWhen_def eq_insert_def insertBefore_def ev_acquire_def ev_queries
      set_flags_def ev_less_eq_def ev_less_def ev_flag_defs flag_isSet_def flag_set_def)

text \<open>C6: Time never runs backwards. After any sequence of calls and services, the event
  the queue serves next is the earliest of all scheduled events and is not in the past; so the
  simulation loop, whatever its events do, never fails its assertion that the next event is
  not in the past.\<close>

theorem simulation_never_in_past:
  assumes "run_ops ops (new_EventQueue i) = Some (Inr s)"
  shows "(\<forall>h. head s = Some h \<longrightarrow> (\<exists>e. events s h = Some e \<and> curTick s \<le> ev_when e \<and>
            (\<forall>p f. events s p = Some f \<longrightarrow> scheduled f \<longrightarrow> ev_key e \<le> ev_key f))) \<and>
     doSimLoop process s \<noteq> Some (Inl (AssertFail ''event scheduled in the past''))"
proof -
  from run_ops_simulates[OF assms] obtain a q where sim: "sim s a q" by blast
  have "handleAsyncInsertions (s\<lparr> curEventQueue := q_id s \<rparr>) = Some (Inr (s\<lparr> curEventQueue := q_id s \<rparr>))"
    using simD(4)[OF sim] by (simp add: handleAsyncInsertions_def)
  then have "doSimLoop process s = sim_loop process (s\<lparr> curEventQueue := q_id s \<rparr>)"
    by (simp add: doSimLoop_def)
  moreover have "simulates (s\<lparr> curEventQueue := q_id s \<rparr>) a"
    by (rule simulates_curEventQueue) (use sim in \<open>auto simp: simulates_def\<close>)
  ultimately have "doSimLoop process s \<noteq> Some (Inl (AssertFail ''event scheduled in the past''))"
    using sim_loop_not_past[of "s\<lparr> curEventQueue := q_id s \<rparr>" a process]
    by (simp add: not_past_def)
  with sim_next_event[OF sim] show ?thesis by metis
qed

theorem simulation_never_in_past_witness:
  "\<exists>s. run_ops two_events (new_EventQueue 0) = Some (Inr s) \<and> head s = Some 2 \<and>
     doSimLoop (\<lambda>_ _. []) s \<noteq> Some (Inl (AssertFail ''event scheduled in the past''))"
proof -
  obtain s where s: "run_ops two_events (new_EventQueue 0) = Some (Inr s)" "head s = Some 2"
    by (rule two_events_run)
  with simulation_never_in_past[OF s(1)] show ?thesis by blast
qed

section \<open>The destructor\<close>

lemma deschedule_head:
  assumes sim: "sim s a q" and h: "head s = Some h"
  shows "\<exists>s' a' q'. eq_deschedule h s = Some (Inr s') \<and> sim s' a' q' \<and> length q' < length q"
proof -
  from eq_rep_head[OF simD(1)[OF sim]] h obtain q0 where q: "q = h # q0"
    by (cases q) (auto split: if_splits)
  from simD(6)[OF sim, of h] obtain l where l: "sp_live a h = Some l"
    using q by (cases rule: sim_at_cases) auto
  have spec: "spec_call (Deschedule h) a =
      Some (sp_release h (l\<lparr> sp_squashed := False \<rparr>) (sp_remove h a))"
    using l on_agenda_sim[OF sim, of h] q by simp
  have "simulates s a" using sim by (auto simp: simulates_def)
  from run_call_refines[OF this, of "Deschedule h"] spec obtain s' q' where s':
    "eq_deschedule h s = Some (Inr s')"
    "sim s' (sp_release h (l\<lparr> sp_squashed := False \<rparr>) (sp_remove h a)) q'"
    by (cases rule: refinesE) (auto simp: simulates_def)
  have "length q' = length (sp_agenda (sp_remove h a))"
    using arg_cong[OF simD(2)[OF s'(2)], of length] by (simp add: sp_release_def sp_set_def)
  also have "\<dots> < length (sp_agenda a)"
    using simD(2)[OF sim] q by (simp add: sp_remove_def le_imp_less_Suc)
  also have "\<dots> = length q"
    using arg_cong[OF simD(2)[OF sim], of length] by simp
  finally show ?thesis using s' by blast
qed

lemma destroy_ends:
  "sim s a q \<Longrightarrow> \<exists>s' a'. destroy_EventQueue s = Some (Inr s') \<and> sim s' a' []"
proof (induction "length q" arbitrary: s a q rule: less_induct)
  case less
  show ?case
  proof (cases "head s")
    case None
    then have "q = []"
      using eq_rep_head[OF simD(1)[OF less(2)]] by (auto split: if_splits)
    with None less(2) show ?thesis
      by (subst destroy_EventQueue.simps) auto
  next
    case (Some h)
    from deschedule_head[OF less(2) Some] obtain s1 a1 q1 where s1:
      "eq_deschedule h s = Some (Inr s1)" "sim s1 a1 q1" "length q1 < length q"
      by blast
    from less(1)[OF s1(3,2)] Some s1(1) show ?thesis
      by (subst destroy_EventQueue.simps) simp
  qed
qed

text \<open>C33: The destructor of the queue returns. After any sequence of calls and services it
  deschedules event after event until the queue is empty, and no event is left scheduled.\<close>

theorem destructor_returns:
  assumes "run_ops ops (new_EventQueue i) = Some (Inr s)"
  shows "\<exists>s'. destroy_EventQueue s = Some (Inr s') \<and> head s' = None \<and>
     (\<forall>p e. events s' p = Some e \<longrightarrow> \<not> scheduled e)"
proof -
  from run_ops_simulates[OF assms] obtain a q where "sim s a q" by blast
  from destroy_ends[OF this] obtain s' a' where s': "destroy_EventQueue s = Some (Inr s')"
    "sim s' a' []"
    by blast
  have "\<not> scheduled e" if "events s' p = Some e" for p e
    using simD(6)[OF s'(2), of p] that by (auto elim: sim_at_cases)
  with s' eq_rep_head[OF simD(1)[OF s'(2)]] show ?thesis by auto
qed

theorem destructor_returns_witness:
  "\<exists>s s'. run_ops two_events (new_EventQueue 0) = Some (Inr s) \<and>
     destroy_EventQueue s = Some (Inr s') \<and> head s' = None"
proof -
  obtain s where s: "run_ops two_events (new_EventQueue 0) = Some (Inr s)" "head s = Some 2"
    by (rule two_events_run)
  with destructor_returns[OF s(1)] show ?thesis by blast
qed

section \<open>The debugging check\<close>

lemma verify_bin_None: "verify_bin None st s = Some (Inr (Some st))"
  by (simp add: verify_bin.simps)

lemma verify_bin_Some:
  "events s n = Some e \<Longrightarrow>
   verify_bin (Some n) (seen, k) s =
     (if ev_key e < k \<or> n \<in> set seen then Some (Inr None)
      else verify_bin (nextInBin e) (n # seen, ev_key e) s)"
  by (subst verify_bin.simps) (auto simp: event_at_Some ev_key_def less_prod_def')

text \<open>A bin passes when its key is not below the key before it.\<close>

lemma verify_bin_list:
  assumes "in_bin (events s) p xs" "distinct xs" "set xs \<inter> set seen = {}"
    "\<And>x. x \<in> set xs \<Longrightarrow> key_of (events s) x = k"
  shows "verify_bin p (seen, k0) s =
     (if xs = [] then Some (Inr (Some (seen, k0)))
      else if k < k0 then Some (Inr None) else Some (Inr (Some (rev xs @ seen, k))))"
  using assms
proof (induction xs arbitrary: p seen k0)
  case Nil
  then show ?case by (simp add: verify_bin_None)
next
  case (Cons x xs)
  then obtain e where e: "p = Some x" "events s x = Some e" "in_bin (events s) (nextInBin e) xs"
    by auto
  have k: "ev_key e = k" using Cons(5)[of x] e by simp
  have "verify_bin (nextInBin e) (x # seen, k) s =
      (if xs = [] then Some (Inr (Some (x # seen, k)))
       else if k < k then Some (Inr None) else Some (Inr (Some (rev xs @ x # seen, k))))"
    by (rule Cons(1)) (use Cons e in auto)
  with e k Cons(4) show ?case
    by (auto simp: verify_bin_Some[OF e(2)])
qed

lemma verify_bins_list:
  assumes "bins_seg (events s) p bs None" "wf_bins (key_of (events s)) bs" "distinct (concat bs)"
    "set (concat bs) \<inter> set seen = {}"
  shows "verify_bins p (seen, k0) s =
     Some (Inr (bs = [] \<or> \<not> key_of (events s) (hd (hd bs)) < k0))"
  using assms
proof (induction bs arbitrary: p seen k0)
  case Nil
  then show ?case by (subst verify_bins.simps) simp
next
  case (Cons b bs)
  then obtain x as where b: "b = x # as" by (cases b) auto
  with Cons(2) obtain e where e: "p = Some x" "events s x = Some e"
    "in_bin (events s) (nextInBin e) as" "bins_seg (events s) (nextBin e) bs None"
    by auto
  define k where "k = key_of (events s) (hd b)"
  have wf: "same_key (key_of (events s)) b" "\<forall>c \<in> set bs. k < key_of (events s) (hd c)"
    "wf_bins (key_of (events s)) bs"
    using Cons(3) by (auto simp: wf_bins_Cons k_def)
  have bin: "verify_bin p (seen, k0) s =
      (if k < k0 then Some (Inr None) else Some (Inr (Some (rev b @ seen, k))))"
  proof -
    have "in_bin (events s) p b" "distinct b" using e b Cons(4) by auto
    moreover have "set b \<inter> set seen = {}" using Cons(5) by auto
    moreover have "\<And>x. x \<in> set b \<Longrightarrow> key_of (events s) x = k"
      using same_key_hd[OF wf(1)] by (simp add: k_def)
    ultimately show ?thesis using verify_bin_list[of s p b seen k k0] b by simp
  qed
  have rest: "verify_bins (nextBin e) (rev b @ seen, k) s = Some (Inr True)"
  proof -
    have "distinct (concat bs)" "set (concat bs) \<inter> set (rev b @ seen) = {}"
      using Cons(4,5) by (auto simp: Int_Un_distrib Int_Un_distrib2 Int_commute)
    from Cons(1)[OF e(4) wf(3) this, of k] wf(2) show ?thesis
      by (cases bs) auto
  qed
  show ?case
    by (subst verify_bins.simps)
      (use e bin rest in \<open>auto simp: event_at_Some k_def\<close>)
qed

text \<open>The debugging check of the queue returns after any sequence of calls and
  services, and it accepts the queue, except when the first event is scheduled at tick 0 with a
  negative priority, which it reports as an inversion.\<close>

theorem debugVerify_accepts:
  assumes "run_ops ops (new_EventQueue i) = Some (Inr s)"
  shows "\<exists>ok. debugVerify s = Some (Inr ok) \<and>
     (ok \<longleftrightarrow> \<not> (\<exists>h e. head s = Some h \<and> events s h = Some e \<and> ev_when e = 0 \<and> sint (ev_priority e) < 0))"
proof -
  from run_ops_simulates[OF assms] obtain a q where sim: "sim s a q" by blast
  obtain bs where bs: "bins_seg (events s) (head s) bs None"
    "wf_bins (key_of (events s)) bs" "distinct (concat bs)"
    using simD(1)[OF sim] by (auto simp: eq_rep_def)
  have "debugVerify s = Some (Inr (bs = [] \<or> \<not> key_of (events s) (hd (hd bs)) < (0, 0)))"
    unfolding debugVerify_def using verify_bins_list[OF bs] by simp
  moreover have "bs = [] \<or> \<not> key_of (events s) (hd (hd bs)) < (0, 0) \<longleftrightarrow>
      \<not> (\<exists>h e. head s = Some h \<and> events s h = Some e \<and> ev_when e = 0 \<and> sint (ev_priority e) < 0)"
  proof (cases bs)
    case Nil
    with bs(1) show ?thesis by simp
  next
    case (Cons b bs')
    then obtain x as where b: "b = x # as" using bs(1) by (cases b) auto
    with bs(1) Cons obtain e where "head s = Some x" "events s x = Some e" by auto
    with Cons b show ?thesis by (auto simp: ev_key_def)
  qed
  ultimately show ?thesis by blast
qed

theorem debugVerify_accepts_witness:
  "\<exists>s ok. run_ops two_events (new_EventQueue 0) = Some (Inr s) \<and> debugVerify s = Some (Inr ok)"
proof -
  obtain s where s: "run_ops two_events (new_EventQueue 0) = Some (Inr s)" "head s = Some 2"
    by (rule two_events_run)
  with debugVerify_accepts[OF s(1)] show ?thesis by blast
qed

section \<open>Checkpoints\<close>

text \<open>C34: Restoring a checkpoint loses scheduled events. An event that was scheduled and not
  squashed when it was saved is restored with its time, priority and other flags, but it is
  not put into the queue and not marked as scheduled.\<close>

theorem checkpoint_loses_scheduled_event:
  assumes "scheduled e" "\<not> squashed e" "events s p = Some e0" "\<not> scheduled e0" "initialized e0"
  shows "\<exists>e1. UNSERIALIZE_EVENT (ev_serialize e) p s =
       Some (Inr (s\<lparr> events := (events s)(p \<mapsto> e1) \<rparr>)) \<and>
     \<not> scheduled e1 \<and> links e1 = links e0 \<and> ev_when e1 = ev_when e \<and> ev_priority e1 = ev_priority e \<and>
     isManaged e1 = isManaged e \<and> isExitEvent e1 = isExitEvent e"
proof -
  define e2 where "e2 = e0\<lparr> ev_when := ev_when e, ev_priority := ev_priority e,
    ev_flags := flag_set (ev_flags e) ev_Initialized \<rparr>"
  define e1 where "e1 = clear_flags (ev_Squashed OR ev_Scheduled) e2"
  have fl: "scheduled e2" "\<not> squashed e2" "isManaged e2 = isManaged e" "isExitEvent e2 = isExitEvent e"
    using assms(1,2) by (simp_all add: e2_def ev_queries flag_set_other ev_flag_defs)
  have e1: "\<not> scheduled e1" "isManaged e1 = isManaged e2" "isExitEvent e1 = isExitEvent e2"
    "links e1 = links e0" "ev_when e1 = ev_when e" "ev_priority e1 = ev_priority e"
    by (simp_all add: e1_def e2_def ev_queries clear_flags_def flag_clear_other ev_flag_defs links_def
        flag_isSet_def flag_clear_def and.assoc)
  have "ev_unserialize (ev_serialize e) e0 = Inr e1"
    using assms(4,5) fl
    by (simp add: ev_unserialize_def ev_serialize_def Let_def e1_def e2_def initialized_def)
  then have "UNSERIALIZE_EVENT (ev_serialize e) p s =
      checkpointReschedule p (s\<lparr> events := (events s)(p \<mapsto> e1) \<rparr>)"
    using assms(3) by (simp add: UNSERIALIZE_EVENT_def event_at_Some)
  also have "\<dots> = Some (Inr (s\<lparr> events := (events s)(p \<mapsto> e1) \<rparr>))"
    using e1(1) by (simp add: checkpointReschedule_def event_at_Some)
  finally show ?thesis
    using e1 fl by auto
qed

definition saved_event :: Event where
  "saved_event = \<lparr> nextBin = None, nextInBin = None, ev_when = 7, ev_priority = 0,
     ev_flags = 0x7a42, ev_queue = Some 0 \<rparr>"

definition fresh_event :: Event where
  "fresh_event = \<lparr> nextBin = None, nextInBin = None, ev_when = 0, ev_priority = 0,
     ev_flags = 0x7a40, ev_queue = None \<rparr>"

lemma saved_event_flags:
  "scheduled saved_event" "\<not> squashed saved_event" "\<not> scheduled fresh_event" "initialized fresh_event"
  unfolding saved_event_def fresh_event_def ev_queries ev_flag_defs flag_isSet_def by simp_all

theorem checkpoint_loses_scheduled_event_witness:
  "\<exists>e1. UNSERIALIZE_EVENT (ev_serialize saved_event) 1
       ((new_EventQueue 0)\<lparr> events := [1 \<mapsto> fresh_event] \<rparr>) =
     Some (Inr ((new_EventQueue 0)\<lparr> events := [1 \<mapsto> e1] \<rparr>)) \<and> \<not> scheduled e1 \<and> ev_when e1 = 7"
  using checkpoint_loses_scheduled_event[OF saved_event_flags(1,2) _ saved_event_flags(3,4),
      of "(new_EventQueue 0)\<lparr> events := [1 \<mapsto> fresh_event] \<rparr>" 1]
  by (auto simp: saved_event_def)

end
