(* ===== verification/BridgeConfig.thy ===== *)
theory BridgeConfig
  imports Packets AddrRanges
begin

text \<open>
  The configuration registers of the root complex (\<open>config_class\<close> in \<^verbatim>\<open>mem/PciBridge.hh\<close> and
  \<^verbatim>\<open>mem/PciBridge.cc\<close>): the 64-byte bridge header and the 36-byte PCI Express capability of
  each root port, their configuration reads and writes, the address windows they describe, the
  decoding of addresses and bus numbers to ports, and the address ranges a port announces.

  A header is a union of a byte array and a structure, so it is modelled by its bytes; a field
  is read and written at its offset, in the little-endian order of the header (the host is
  little-endian, so \<open>htole\<close> and \<open>letoh\<close> are the identity). A configuration packet carries at
  most four bytes of data, which are an argument or a result of the handlers. Ports are numbers:
  master port 0 is the upstream one (\<open>masterPort_DMA\<close>) and slave port 0 is \<open>slavePort\<close>. The
  ranges announced by the peer of a master port are a parameter. \<open>sendRangeChange\<close> notifies the
  peer of a slave port; the handlers return the list of the slave ports that send it.
\<close>

section \<open>Registers\<close>

definition PCI_VENDOR_ID :: nat where "PCI_VENDOR_ID = 0x00"
definition PCI_DEVICE_ID :: nat where "PCI_DEVICE_ID = 0x02"
definition PCI_COMMAND :: nat where "PCI_COMMAND = 0x04"
definition PCI_STATUS :: nat where "PCI_STATUS = 0x06"
definition PCI_REVISION_ID :: nat where "PCI_REVISION_ID = 0x08"
definition PCI_CLASS_CODE :: nat where "PCI_CLASS_CODE = 0x09"
definition PCI_SUB_CLASS_CODE :: nat where "PCI_SUB_CLASS_CODE = 0x0A"
definition PCI_BASE_CLASS_CODE :: nat where "PCI_BASE_CLASS_CODE = 0x0B"
definition PCI_CACHE_LINE_SIZE :: nat where "PCI_CACHE_LINE_SIZE = 0x0C"
definition PCI_LATENCY_TIMER :: nat where "PCI_LATENCY_TIMER = 0x0D"
definition PCI_HEADER_TYPE :: nat where "PCI_HEADER_TYPE = 0x0E"
definition PCI_BIST :: nat where "PCI_BIST = 0x0F"
definition PCI1_BASE_ADDR0 :: nat where "PCI1_BASE_ADDR0 = 0x10"
definition PCI1_BASE_ADDR1 :: nat where "PCI1_BASE_ADDR1 = 0x14"
definition PCI1_PRI_BUS_NUM :: nat where "PCI1_PRI_BUS_NUM = 0x18"
definition PCI1_SEC_BUS_NUM :: nat where "PCI1_SEC_BUS_NUM = 0x19"
definition PCI1_SUB_BUS_NUM :: nat where "PCI1_SUB_BUS_NUM = 0x1A"
definition PCI1_SEC_LAT_TIMER :: nat where "PCI1_SEC_LAT_TIMER = 0x1B"
definition PCI1_IO_BASE :: nat where "PCI1_IO_BASE = 0x1C"
definition PCI1_IO_LIMIT :: nat where "PCI1_IO_LIMIT = 0x1D"
definition PCI1_SECONDARY_STATUS :: nat where "PCI1_SECONDARY_STATUS = 0x1E"
definition PCI1_MEM_BASE :: nat where "PCI1_MEM_BASE = 0x20"
definition PCI1_MEM_LIMIT :: nat where "PCI1_MEM_LIMIT = 0x22"
definition PCI1_PRF_MEM_BASE :: nat where "PCI1_PRF_MEM_BASE = 0x24"
definition PCI1_PRF_MEM_LIMIT :: nat where "PCI1_PRF_MEM_LIMIT = 0x26"
definition PCI1_PRF_BASE_UPPER :: nat where "PCI1_PRF_BASE_UPPER = 0x28"
definition PCI1_PRF_LIMIT_UPPER :: nat where "PCI1_PRF_LIMIT_UPPER = 0x2C"
definition PCI1_IO_BASE_UPPER :: nat where "PCI1_IO_BASE_UPPER = 0x30"
definition PCI1_IO_LIMIT_UPPER :: nat where "PCI1_IO_LIMIT_UPPER = 0x32"
definition PCI1_RESERVED :: nat where "PCI1_RESERVED = 0x34"
definition PCI1_ROM_BASE_ADDR :: nat where "PCI1_ROM_BASE_ADDR = 0x38"
definition PCI1_INTR_LINE :: nat where "PCI1_INTR_LINE = 0x3C"
definition PCI1_INTR_PIN :: nat where "PCI1_INTR_PIN = 0x3D"
definition PCI1_BRIDGE_CTRL :: nat where "PCI1_BRIDGE_CTRL = 0x3E"

lemmas pci_offsets =
  PCI_VENDOR_ID_def PCI_DEVICE_ID_def PCI_COMMAND_def PCI_STATUS_def PCI_REVISION_ID_def
  PCI_CLASS_CODE_def PCI_SUB_CLASS_CODE_def PCI_BASE_CLASS_CODE_def PCI_CACHE_LINE_SIZE_def
  PCI_LATENCY_TIMER_def PCI_HEADER_TYPE_def PCI_BIST_def PCI1_BASE_ADDR0_def
  PCI1_BASE_ADDR1_def PCI1_PRI_BUS_NUM_def PCI1_SEC_BUS_NUM_def PCI1_SUB_BUS_NUM_def
  PCI1_SEC_LAT_TIMER_def PCI1_IO_BASE_def PCI1_IO_LIMIT_def PCI1_SECONDARY_STATUS_def
  PCI1_MEM_BASE_def PCI1_MEM_LIMIT_def PCI1_PRF_MEM_BASE_def PCI1_PRF_MEM_LIMIT_def
  PCI1_PRF_BASE_UPPER_def PCI1_PRF_LIMIT_UPPER_def PCI1_IO_BASE_UPPER_def
  PCI1_IO_LIMIT_UPPER_def PCI1_RESERVED_def PCI1_ROM_BASE_ADDR_def PCI1_INTR_LINE_def
  PCI1_INTR_PIN_def PCI1_BRIDGE_CTRL_def

definition PCIE_CONFIG_SIZE :: addr where "PCIE_CONFIG_SIZE = 0xFFF"
definition PCIE_HEADER_SIZE :: nat where "PCIE_HEADER_SIZE = 64"
definition PXCAPSIZE :: nat where "PXCAPSIZE = 36"
definition SLOT_REG_BASE :: nat where "SLOT_REG_BASE = 20"
definition SLOT_REG_LIMIT :: nat where "SLOT_REG_LIMIT = 27"
definition IO_MASK :: u32 where "IO_MASK = 0x00000001"
definition MEM_MASK :: u32 where "MEM_MASK = 0x0000000F"
definition IO_BASE_MASK :: u8 where "IO_BASE_MASK = 0x0F"
definition IO_LIMIT_MASK :: u8 where "IO_LIMIT_MASK = 0x0F"
definition PREFETCH_MEM_BASE_MASK :: u16 where "PREFETCH_MEM_BASE_MASK = 0x000"
definition PREFETCH_MEM_LIMIT_MASK :: u16 where "PREFETCH_MEM_LIMIT_MASK = 0x000F"
definition MMIO_BASE_MASK :: u16 where "MMIO_BASE_MASK = 0x000F"
definition MMIO_LIMIT_MASK :: u16 where "MMIO_LIMIT_MASK = 0x000F"
definition IO_BASE_SHIFT :: u32 where "IO_BASE_SHIFT = 4096"
definition PREFETCH_BASE_SHIFT :: u32 where "PREFETCH_BASE_SHIFT = 1048576"
definition ADDR_MAX :: addr where "ADDR_MAX = 0xFFFFFFFFFFFFFFFF"

lemmas bridge_masks =
  IO_MASK_def MEM_MASK_def IO_BASE_MASK_def IO_LIMIT_MASK_def PREFETCH_MEM_BASE_MASK_def
  PREFETCH_MEM_LIMIT_MASK_def MMIO_BASE_MASK_def MMIO_LIMIT_MASK_def IO_BASE_SHIFT_def
  PREFETCH_BASE_SHIFT_def

text \<open>Little-endian access to a byte array at an offset that is in range.\<close>

definition rd16 :: "u8 list \<Rightarrow> nat \<Rightarrow> u16" where
  "rd16 d i = ucast (d ! i) OR push_bit 8 (ucast (d ! (i + 1)))"

definition rd32 :: "u8 list \<Rightarrow> nat \<Rightarrow> u32" where
  "rd32 d i = ucast (rd16 d i) OR push_bit 16 (ucast (rd16 d (i + 2)))"

definition wr16 :: "nat \<Rightarrow> u16 \<Rightarrow> u8 list \<Rightarrow> u8 list" where
  "wr16 i v d = d[i := ucast v, i + 1 := ucast (drop_bit 8 v)]"

definition wr32 :: "nat \<Rightarrow> u32 \<Rightarrow> u8 list \<Rightarrow> u8 list" where
  "wr32 i v d = wr16 (i + 2) (ucast (drop_bit 16 v)) (wr16 i (ucast v) d)"

text \<open>The state of one root port. \<open>pci_dev\<close>, \<open>pci_func\<close> and the bridge address are used by the
  PCI host only.\<close>

record config_class =
  storage1 :: "u8 list"
  storage2 :: "u8 list"
  barsize :: "u32 \<times> u32"
  barflags :: "u32 \<times> u32"
  cfg_pci_bus :: int
  configDelay :: u64
  PXCAPBaseOffset :: u8
  cfg_is_switch :: int
  cfg_id :: u8
  is_valid :: u8
  valid_io_base :: bool
  valid_io_limit :: bool
  valid_prefetchable_memory_base :: bool
  valid_prefetchable_memory_limit :: bool
  valid_memory_base :: bool
  valid_memory_limit :: bool

definition reg8 :: "config_class \<Rightarrow> nat \<Rightarrow> u8" where
  "reg8 c i = storage1 c ! i"

definition reg16 :: "config_class \<Rightarrow> nat \<Rightarrow> u16" where
  "reg16 c i = rd16 (storage1 c) i"

definition reg32 :: "config_class \<Rightarrow> nat \<Rightarrow> u32" where
  "reg32 c i = rd32 (storage1 c) i"

definition set8 :: "nat \<Rightarrow> u8 \<Rightarrow> config_class \<Rightarrow> config_class" where
  "set8 i v c = c\<lparr> storage1 := (storage1 c)[i := v] \<rparr>"

definition set16 :: "nat \<Rightarrow> u16 \<Rightarrow> config_class \<Rightarrow> config_class" where
  "set16 i v c = c\<lparr> storage1 := wr16 i v (storage1 c) \<rparr>"

definition set32 :: "nat \<Rightarrow> u32 \<Rightarrow> config_class \<Rightarrow> config_class" where
  "set32 i v c = c\<lparr> storage1 := wr32 i v (storage1 c) \<rparr>"

section \<open>Address windows\<close>

definition getBar0 :: "config_class \<Rightarrow> addr" where
  "getBar0 c = ucast (reg32 c PCI1_BASE_ADDR0 AND NOT (fst (barsize c) - 1))"

definition getBar1 :: "config_class \<Rightarrow> addr" where
  "getBar1 c = ucast (reg32 c PCI1_BASE_ADDR1 AND NOT (snd (barsize c) - 1))"

definition getIOBase :: "config_class \<Rightarrow> addr" where
  "getIOBase c =
    (let base_val = push_bit 16 (ucast (reg16 c PCI1_IO_BASE_UPPER)) :: u32;
         stored_base = drop_bit 4 (reg8 c PCI1_IO_BASE)
     in ucast (base_val + ucast stored_base * IO_BASE_SHIFT))"

definition getIOLimit :: "config_class \<Rightarrow> addr" where
  "getIOLimit c =
    (let limit_val = push_bit 16 (ucast (reg16 c PCI1_IO_LIMIT_UPPER)) :: u32;
         stored_limit = drop_bit 4 (reg8 c PCI1_IO_LIMIT)
     in ucast ((limit_val + ucast stored_limit * IO_BASE_SHIFT) OR 0x00000FFF))"

definition getMemoryBase :: "config_class \<Rightarrow> addr" where
  "getMemoryBase c =
    ucast (push_bit 20 (ucast (drop_bit 4 (reg16 c PCI1_MEM_BASE))) :: u32)"

definition getMemoryLimit :: "config_class \<Rightarrow> addr" where
  "getMemoryLimit c =
    ucast (push_bit 20 (ucast (drop_bit 4 (reg16 c PCI1_MEM_LIMIT))) OR 0x000FFFFF :: u32)"

text \<open>The product with \<open>PREFETCH_BASE_SHIFT\<close> is an \<open>int\<close>, which is sign-extended when it is added
  to a 64-bit value (a product beyond the range of \<open>int\<close> wraps on the compilers in use). The
  upper half of the limit is read through a 16-bit variable.\<close>

definition getPrefetchableMemoryBase :: "config_class \<Rightarrow> addr" where
  "getPrefetchableMemoryBase c =
    (let base_val = push_bit 32 (ucast (reg32 c PCI1_PRF_BASE_UPPER)) :: u64;
         stored_base = drop_bit 4 (reg16 c PCI1_PRF_MEM_BASE)
     in base_val + scast (ucast stored_base * PREFETCH_BASE_SHIFT :: u32))"

definition getPrefetchableMemoryLimit :: "config_class \<Rightarrow> addr" where
  "getPrefetchableMemoryLimit c =
    (let limit_val = push_bit 32 (ucast (ucast (reg32 c PCI1_PRF_LIMIT_UPPER) :: u16)) :: u64;
         stored_limit = drop_bit 4 (reg16 c PCI1_PRF_MEM_LIMIT)
     in (limit_val + scast (ucast stored_limit * PREFETCH_BASE_SHIFT :: u32)) OR 0x000FFFFF)"

section \<open>Configuration accesses\<close>

definition isWritable :: "nat \<Rightarrow> bool" where
  "isWritable offset \<longleftrightarrow>
    offset \<notin> {PCI_VENDOR_ID, PCI_DEVICE_ID, PCI_REVISION_ID, PCI_CLASS_CODE,
      PCI_SUB_CLASS_CODE, PCI_BASE_CLASS_CODE, PCI_CACHE_LINE_SIZE, PCI_LATENCY_TIMER,
      PCI_HEADER_TYPE, PCI1_SEC_LAT_TIMER, PCI1_RESERVED, PCI1_INTR_PIN}"

text \<open>A read of one, two or four bytes of a register array; past its end the pointer cast reads
  outside the array.\<close>

definition read_array :: "u8 list \<Rightarrow> nat \<Rightarrow> u32 \<Rightarrow> u32 outcome" where
  "read_array d i sz =
    (if sz \<notin> {1, 2, 4} then Inl (Panic ''invalid access size'')
     else if length d < i + unat sz then Inl (Undefined ''array index'')
     else if sz = 1 then Inr (ucast (d ! i))
     else if sz = 2 then Inr (ucast (rd16 d i))
     else Inr (rd32 d i))"

definition cfg_offset :: "Packet \<Rightarrow> nat outcome" where
  "cfg_offset pkt = rbind (getAddr pkt) (\<lambda>a. Inr (unat (a AND PCIE_CONFIG_SIZE)))"

definition in_PXCAP :: "config_class \<Rightarrow> nat \<Rightarrow> bool" where
  "in_PXCAP c offset \<longleftrightarrow>
    unat (PXCAPBaseOffset c) \<le> offset \<and> offset < unat (PXCAPBaseOffset c) + PXCAPSIZE"

definition readConfig :: "config_class \<Rightarrow> Packet \<Rightarrow> (u32 \<times> Packet \<times> u64) outcome" where
  "readConfig c pkt =
    rbind (cfg_offset pkt) (\<lambda>offset.
    rbind (getSize pkt) (\<lambda>sz.
    rbind (if offset < PCIE_HEADER_SIZE then read_array (storage1 c) offset sz
           else if in_PXCAP c offset
           then read_array (storage2 c) (offset - unat (PXCAPBaseOffset c)) sz
           else if sz \<in> {1, 2, 4} then Inr 0
           else Inl (Panic ''invalid access size'')) (\<lambda>v.
    rbind (makeResponse pkt) (\<lambda>pkt'. Inr (v, pkt', configDelay c)))))"

text \<open>A field of which software can write only the bits outside a mask.\<close>

definition keep_bits :: "'a::len word \<Rightarrow> 'a word \<Rightarrow> 'a word \<Rightarrow> 'a word" where
  "keep_bits m new old = (new AND NOT m) OR (old AND m)"

text \<open>The three arms of the \<open>switch\<close> of \<open>writeConfig\<close>. The result says whether a window changed
  (\<open>flag\<close>). The two-byte writes of the command and the status registers take one byte of the
  packet only, and writes to the upper halves of the I/O window store nothing.\<close>

definition write8 :: "nat \<Rightarrow> u8 \<Rightarrow> config_class \<Rightarrow> config_class \<times> bool" where
  "write8 offset val c =
    (if offset = PCI1_PRI_BUS_NUM then (set8 PCI1_PRI_BUS_NUM val c, False)
     else if offset = PCI1_SEC_BUS_NUM then
       ((set8 PCI1_SEC_BUS_NUM val c)\<lparr> is_valid := 1 \<rparr>, False)
     else if offset = PCI1_SUB_BUS_NUM then (set8 PCI1_SUB_BUS_NUM val c, False)
     else if offset = PCI1_IO_BASE then
       ((set8 PCI1_IO_BASE (keep_bits IO_BASE_MASK val (reg8 c PCI1_IO_BASE)) c)
          \<lparr> valid_io_base := True \<rparr>, True)
     else if offset = PCI1_IO_LIMIT then
       ((set8 PCI1_IO_LIMIT (keep_bits IO_LIMIT_MASK val (reg8 c PCI1_IO_LIMIT)) c)
          \<lparr> valid_io_limit := True \<rparr>, True)
     else if offset = PCI1_INTR_LINE then (set8 PCI1_INTR_LINE val c, False)
     else if offset = PCI_BIST then (set8 PCI_BIST val c, False)
     else (c, False))"

definition write16 :: "nat \<Rightarrow> u16 \<Rightarrow> config_class \<Rightarrow> config_class \<times> bool" where
  "write16 offset val c =
    (if offset = PCI_COMMAND then
       (set16 PCI_COMMAND (ucast (ucast val :: u8) OR 0x0400) c, False)
     else if offset = PCI_STATUS then (set16 PCI_STATUS (ucast (ucast val :: u8)) c, False)
     else if offset = PCI1_SECONDARY_STATUS then
       (set16 PCI1_SECONDARY_STATUS (ucast (ucast val :: u8)) c, False)
     else if offset = PCI1_MEM_BASE then
       ((set16 PCI1_MEM_BASE (keep_bits MMIO_BASE_MASK val (reg16 c PCI1_MEM_BASE)) c)
          \<lparr> valid_memory_base := True \<rparr>, True)
     else if offset = PCI1_MEM_LIMIT then
       ((set16 PCI1_MEM_LIMIT (keep_bits MMIO_LIMIT_MASK val (reg16 c PCI1_MEM_LIMIT)) c)
          \<lparr> valid_memory_limit := True \<rparr>, True)
     else if offset = PCI1_PRF_MEM_BASE then
       ((set16 PCI1_PRF_MEM_BASE
           (keep_bits PREFETCH_MEM_BASE_MASK val (reg16 c PCI1_PRF_MEM_BASE)) c)
          \<lparr> valid_prefetchable_memory_base := True \<rparr>, True)
     else if offset = PCI1_PRF_MEM_LIMIT then
       ((set16 PCI1_PRF_MEM_LIMIT ((val AND NOT PREFETCH_MEM_LIMIT_MASK)
           OR (reg16 c PCI1_PRF_MEM_LIMIT AND PREFETCH_MEM_BASE_MASK)) c)
          \<lparr> valid_prefetchable_memory_limit := True \<rparr>, True)
     else if offset = PCI1_IO_BASE_UPPER then (c\<lparr> valid_io_base := True \<rparr>, True)
     else if offset = PCI1_IO_LIMIT_UPPER then (c\<lparr> valid_io_limit := True \<rparr>, True)
     else if offset = PCI1_BRIDGE_CTRL then (set16 PCI1_BRIDGE_CTRL val c, False)
     else if offset = PCI1_IO_BASE then
       (let c1 = set8 PCI1_IO_BASE
              (keep_bits IO_BASE_MASK (ucast (val AND 0x00FF)) (reg8 c PCI1_IO_BASE)) c;
            c2 = set8 PCI1_IO_LIMIT
              (keep_bits IO_LIMIT_MASK (ucast (drop_bit 8 val)) (reg8 c1 PCI1_IO_LIMIT)) c1
        in (c2\<lparr> valid_io_base := True, valid_io_limit := True \<rparr>, True))
     else (c, False))"

text \<open>The base address registers. Writing all ones asks for the size; the I/O form of the first
  register computes it in another way than the rest.\<close>

definition write_bar0 :: "u32 \<Rightarrow> config_class \<Rightarrow> config_class \<times> bool" where
  "write_bar0 val c =
    (let Bar0 = reg32 c PCI1_BASE_ADDR0; bs = fst (barsize c) in
     if val = 0xFFFFFFFF then
       (set32 PCI1_BASE_ADDR0
         (if Bar0 AND 1 \<noteq> 0 then (NOT bs - 1) OR (Bar0 AND IO_MASK)
          else NOT (bs - 1) OR (Bar0 AND MEM_MASK)) c, False)
     else
       (set32 PCI1_BASE_ADDR0
         (if Bar0 AND 1 \<noteq> 0 then (val AND NOT (bs - 1)) OR (Bar0 AND IO_MASK)
          else (val AND NOT (bs - 1)) OR (Bar0 AND MEM_MASK))
         (c\<lparr> barflags := (1, snd (barflags c)) \<rparr>), True))"

definition write_bar1 :: "u32 \<Rightarrow> config_class \<Rightarrow> config_class \<times> bool" where
  "write_bar1 val c =
    (let Bar1 = reg32 c PCI1_BASE_ADDR1; bs = snd (barsize c) in
     if val = 0xFFFFFFFF then
       (set32 PCI1_BASE_ADDR1
         (if Bar1 AND 1 \<noteq> 0 then NOT (bs - 1) OR (Bar1 AND IO_MASK)
          else NOT (bs - 1) OR (Bar1 AND MEM_MASK)) c, False)
     else
       (set32 PCI1_BASE_ADDR1
         (if Bar1 AND 1 \<noteq> 0 then (val AND NOT (bs - 1)) OR (Bar1 AND IO_MASK)
          else (val AND NOT (bs - 1)) OR (Bar1 AND MEM_MASK))
         (c\<lparr> barflags := (fst (barflags c), 1) \<rparr>), True))"

definition write32 :: "nat \<Rightarrow> u32 \<Rightarrow> config_class \<Rightarrow> config_class \<times> bool" where
  "write32 offset val c =
    (if offset = PCI1_ROM_BASE_ADDR then (set32 PCI1_ROM_BASE_ADDR 0 c, False)
     else if offset = PCI1_PRF_BASE_UPPER then
       ((set32 PCI1_PRF_BASE_UPPER val c)\<lparr> valid_prefetchable_memory_base := True \<rparr>, True)
     else if offset = PCI1_PRF_LIMIT_UPPER then
       ((set32 PCI1_PRF_LIMIT_UPPER val c)\<lparr> valid_prefetchable_memory_limit := True \<rparr>, True)
     else if offset = PCI1_BASE_ADDR0 then write_bar0 val c
     else if offset = PCI1_BASE_ADDR1 then write_bar1 val c
     else if offset = PCI1_MEM_BASE then
       (let base_val = ucast (val AND 0x0000FFFF); limit_val = ucast (drop_bit 16 val);
            cur_base_val = (base_val AND NOT MMIO_BASE_MASK)
              OR (reg16 c PCI1_MEM_BASE AND MMIO_LIMIT_MASK);
            cur_limit_val = keep_bits MMIO_LIMIT_MASK limit_val (reg16 c PCI1_MEM_LIMIT)
        in ((set16 PCI1_MEM_LIMIT cur_limit_val (set16 PCI1_MEM_BASE cur_base_val c))
              \<lparr> valid_memory_base := True, valid_memory_limit := True \<rparr>, True))
     else if offset = PCI1_IO_BASE_UPPER then
       (c\<lparr> valid_io_base := True, valid_io_limit := True \<rparr>, True)
     else if offset = PCI1_PRF_MEM_BASE then
       (let base_val = ucast (val AND 0x0000FFFF); limit_val = ucast (drop_bit 16 val);
            cur_base_val = keep_bits PREFETCH_MEM_BASE_MASK base_val
              (reg16 c PCI1_PRF_MEM_BASE);
            cur_limit_val = (limit_val AND NOT PREFETCH_MEM_LIMIT_MASK)
              OR (reg16 c PCI1_PRF_MEM_LIMIT AND PREFETCH_MEM_BASE_MASK)
        in ((set16 PCI1_PRF_MEM_LIMIT cur_limit_val (set16 PCI1_PRF_MEM_BASE cur_base_val c))
              \<lparr> valid_prefetchable_memory_base := True,
                valid_prefetchable_memory_limit := True \<rparr>, True))
     else if offset = PCI_COMMAND then
       (set16 PCI_STATUS (ucast (drop_bit 16 val))
          (set16 PCI_COMMAND (ucast (val AND 0x0000FFFF)) c), False)
     else if offset = PCI1_PRI_BUS_NUM then
       ((set32 PCI1_PRI_BUS_NUM val c)\<lparr> is_valid := 1 \<rparr>, False)
     else (c, False))"

text \<open>A write to the PCI Express capability. The test for the slot registers asks for an offset
  that is both below their base and above their limit.\<close>

definition write_PXCAP :: "nat \<Rightarrow> u32 \<Rightarrow> u32 \<Rightarrow> config_class \<Rightarrow> config_class outcome" where
  "write_PXCAP offset sz val c =
    (if offset < SLOT_REG_BASE \<and> offset > SLOT_REG_LIMIT then
       (if sz = 1 then Inr (c\<lparr> storage2 := (storage2 c)[offset := ucast val] \<rparr>)
        else if sz = 2 then Inr (c\<lparr> storage2 := wr16 offset (ucast val) (storage2 c) \<rparr>)
        else if sz = 4 then Inr (c\<lparr> storage2 := wr32 offset val (storage2 c) \<rparr>)
        else Inl (Panic ''invalid access size''))
     else Inr c)"

text \<open>The slave ports that announce new ranges after a write that changed a window.\<close>

definition range_changes :: "config_class \<Rightarrow> nat list" where
  "range_changes c =
    (if cfg_id c = 0 \<or> cfg_is_switch c = 0 then [0] else [])
    @ (if cfg_id c = 1 then [1] else []) @ (if cfg_id c = 2 then [2] else [])
    @ (if cfg_id c = 3 then [3] else [])"

definition writeConfig ::
  "u32 \<Rightarrow> Packet \<Rightarrow> config_class \<Rightarrow> (config_class \<times> Packet \<times> u64 \<times> nat list) outcome" where
  "writeConfig val pkt c =
    rbind (cfg_offset pkt) (\<lambda>offset.
    rbind (getSize pkt) (\<lambda>sz.
    rbind
      (if offset < PCIE_HEADER_SIZE then
         (if \<not> isWritable offset then Inr (c, False)
          else if sz = 1 then Inr (write8 offset (ucast val) c)
          else if sz = 2 then Inr (write16 offset (ucast val) c)
          else if sz = 4 then Inr (write32 offset val c)
          else Inl (Panic ''invalid access size''))
       else if in_PXCAP c offset then
         rbind (write_PXCAP (offset - unat (PXCAPBaseOffset c)) sz val c)
           (\<lambda>c'. Inr (c', False))
       else Inl (Panic ''out of range access to pcie config space''))
      (\<lambda>(c', flag).
    rbind (makeResponse pkt) (\<lambda>pkt'.
      Inr (c', pkt', configDelay c', if flag then range_changes c' else [])))))"

section \<open>Decoding to ports\<close>

text \<open>The four root ports by the number of their \<open>storage_ptr\<close>; number 4 is the upstream port of
  a switch.\<close>

type_synonym port_configs = "nat \<Rightarrow> config_class"

definition in_window :: "addr \<Rightarrow> addr \<Rightarrow> addr \<Rightarrow> bool" where
  "in_window address base limit \<longleftrightarrow>
    address \<ge> base \<and> address \<le> limit \<and> base \<noteq> 0 \<and> limit \<noteq> 0"

definition decodes :: "config_class \<Rightarrow> addr \<Rightarrow> bool" where
  "decodes c address \<longleftrightarrow>
    in_window address (getMemoryBase c) (getMemoryLimit c)
    \<or> in_window address (getPrefetchableMemoryBase c) (getPrefetchableMemoryLimit c)
    \<or> in_window address (getIOBase c) (getIOLimit c)"

definition getMasterPort ::
  "(nat \<Rightarrow> AddrRange list) \<Rightarrow> port_configs \<Rightarrow> addr \<Rightarrow> nat" where
  "getMasterPort peer_ranges cfgs address =
    (if decodes (cfgs 1) address then 1
     else if decodes (cfgs 2) address then 2
     else if decodes (cfgs 3) address then 3
     else if list_ex (\<lambda>r. contains r address) (peer_ranges 1) then 1
     else if list_ex (\<lambda>r. contains r address) (peer_ranges 2) then 2
     else if list_ex (\<lambda>r. contains r address) (peer_ranges 3) then 3
     else 0)"

definition has_bus :: "config_class \<Rightarrow> int \<Rightarrow> bool" where
  "has_bus c bus_num \<longleftrightarrow>
    bus_num \<ge> uint (reg8 c PCI1_SEC_BUS_NUM) \<and> bus_num \<le> uint (reg8 c PCI1_SUB_BUS_NUM)
    \<and> is_valid c = 1"

definition getSlavePort :: "port_configs \<Rightarrow> int \<Rightarrow> nat" where
  "getSlavePort cfgs bus_num =
    (if has_bus (cfgs 1) bus_num then 1
     else if has_bus (cfgs 2) bus_num then 2
     else if has_bus (cfgs 3) bus_num then 3
     else 0)"

section \<open>Announced ranges\<close>

definition fill_ranges :: "AddrRange list \<Rightarrow> config_class \<Rightarrow> AddrRange list" where
  "fill_ranges ranges c =
    ranges
    @ (if fst (barsize c) \<noteq> 0 \<and> getBar0 c \<noteq> 0
       then [RangeSize (getBar0 c) (ucast (fst (barsize c)))] else [])
    @ (if snd (barsize c) \<noteq> 0 \<and> getBar1 c \<noteq> 0
       then [RangeSize (getBar1 c) (ucast (snd (barsize c)))] else [])
    @ (if valid_memory_base c \<and> valid_memory_limit c
          \<and> getMemoryBase c < getMemoryLimit c \<and> getMemoryBase c \<noteq> 0
       then [RangeIn (getMemoryBase c) (getMemoryLimit c)] else [])
    @ (if valid_prefetchable_memory_base c \<and> valid_prefetchable_memory_limit c
          \<and> getPrefetchableMemoryBase c < getPrefetchableMemoryLimit c
          \<and> getPrefetchableMemoryBase c \<noteq> 0
       then [RangeIn (getPrefetchableMemoryBase c) (getPrefetchableMemoryLimit c)] else [])
    @ (if valid_io_base c \<and> valid_io_limit c \<and> getIOBase c < getIOLimit c
          \<and> getIOBase c \<noteq> 0
       then [RangeIn (getIOBase c) (getIOLimit c)] else [])"

text \<open>The loop over the sorted ranges that collects the gaps between them.\<close>

fun gaps :: "addr \<Rightarrow> AddrRange list \<Rightarrow> AddrRange list \<times> addr" where
  "gaps last_val [] = ([], last_val)"
| "gaps last_val (r # rs) =
     (let (gs, l) = gaps (rend r + 1) rs in
      ((if last_val < rstart r then [RangeIn last_val (rstart r - 1)] else []) @ gs, l))"

definition window_ranges :: "int \<Rightarrow> port_configs \<Rightarrow> nat \<Rightarrow> AddrRange list" where
  "window_ranges is_switch cfgs slaveID =
    sort_ranges
      (if slaveID = 0 \<and> is_switch = 0
       then fill_ranges (fill_ranges (fill_ranges [] (cfgs 1)) (cfgs 2)) (cfgs 3)
       else if slaveID = 0 \<and> is_switch = 1 then fill_ranges [] (cfgs 4)
       else if slaveID = 1 then fill_ranges [] (cfgs 1)
       else if slaveID = 2 then fill_ranges [] (cfgs 2)
       else if slaveID = 3 then fill_ranges [] (cfgs 3)
       else [])"

definition slave_getAddrRanges :: "int \<Rightarrow> port_configs \<Rightarrow> nat \<Rightarrow> AddrRange list" where
  "slave_getAddrRanges is_switch cfgs slaveID =
    (let ranges = window_ranges is_switch cfgs slaveID; is_upstream = (slaveID = 0) in
     if is_upstream then ranges
     else let (downstream_ranges, last_val) = gaps 0 ranges in
          if last_val = 0 then downstream_ranges
          else downstream_ranges @ [RangeIn last_val ADDR_MAX])"

section \<open>Construction\<close>

text \<open>The parameters of \<open>initialize_ports\<close>, and the bytes it gives the two register arrays. Every
  byte is set: the device identifier and the capability register by the constructor.\<close>

record PciBridgeParams =
  p_VendorId :: u16
  p_Command :: u16
  p_Status :: u16
  p_ClassCode :: u8
  p_SubClassCode :: u8
  p_ProgIF :: u8
  p_Revision :: u8
  p_BIST :: u8
  p_HeaderType :: u8
  p_LatencyTimer :: u8
  p_CacheLineSize :: u8
  p_Bar0 :: u32
  p_Bar1 :: u32
  p_SecondaryLatencyTimer :: u8
  p_MemoryLimit :: u16
  p_MemoryBase :: u16
  p_PrefetchableMemoryLimit :: u16
  p_PrefetchableMemoryBase :: u16
  p_PrefetchableMemoryLimitUpper :: u32
  p_PrefetchableMemoryBaseUpper :: u32
  p_IOLimit :: u8
  p_IOBase :: u8
  p_IOLimitUpper :: u16
  p_IOBaseUpper :: u16
  p_CapabilityPointer :: u8
  p_ExpansionROMBaseAddress :: u32
  p_InterruptPin :: u8
  p_InterruptLine :: u8
  p_BridgeControl :: u16
  p_SecondaryStatus :: u16
  p_PrimaryBusNumber :: u8
  p_SecondaryBusNumber :: u8
  p_SubordinateBusNumber :: u8
  p_PXCAPNextCapability :: u8
  p_PXCAPCapId :: u8
  p_PXCAPDevCapabilities :: u32
  p_PXCAPDevCtrl :: u16
  p_PXCAPDevStatus :: u16
  p_PXCAPLinkCap :: u32
  p_PXCAPLinkCtrl :: u16
  p_PXCAPLinkStatus :: u16
  p_PXCAPRootStatus :: u32
  p_PXCAPRootControl :: u16
  p_config_latency :: u64
  p_BAR0Size :: u32
  p_BAR1Size :: u32
  p_PXCAPBaseOffset :: u8
  p_is_switch :: int

definition le16 :: "u16 \<Rightarrow> u8 list" where
  "le16 v = [ucast v, ucast (drop_bit 8 v)]"

definition le32 :: "u32 \<Rightarrow> u8 list" where
  "le32 v = le16 (ucast v) @ le16 (ucast (drop_bit 16 v))"

definition init_header :: "u16 \<Rightarrow> PciBridgeParams \<Rightarrow> u8 list" where
  "init_header DeviceId p =
    le16 (p_VendorId p) @ le16 DeviceId @ le16 (p_Command p) @ le16 (p_Status p)
    @ [p_Revision p, p_ProgIF p, p_SubClassCode p, p_ClassCode p,
       p_CacheLineSize p, p_LatencyTimer p, p_HeaderType p, p_BIST p]
    @ le32 (p_Bar0 p) @ le32 (p_Bar1 p)
    @ [p_PrimaryBusNumber p, p_SecondaryBusNumber p, p_SubordinateBusNumber p,
       p_SecondaryLatencyTimer p, p_IOBase p, p_IOLimit p]
    @ le16 (p_SecondaryStatus p) @ le16 (p_MemoryBase p) @ le16 (p_MemoryLimit p)
    @ le16 (p_PrefetchableMemoryBase p) @ le16 (p_PrefetchableMemoryLimit p)
    @ le32 (p_PrefetchableMemoryBaseUpper p) @ le32 (p_PrefetchableMemoryLimitUpper p)
    @ le16 (p_IOBaseUpper p) @ le16 (p_IOLimitUpper p)
    @ [p_CapabilityPointer p, 0, 0, 0]
    @ le32 (p_ExpansionROMBaseAddress p)
    @ [p_InterruptLine p, p_InterruptPin p] @ le16 (p_BridgeControl p)"

definition init_PXCAP :: "u16 \<Rightarrow> PciBridgeParams \<Rightarrow> u8 list" where
  "init_PXCAP capabilities p =
    [p_PXCAPCapId p, p_PXCAPNextCapability p] @ le16 capabilities
    @ le32 (p_PXCAPDevCapabilities p) @ le16 (p_PXCAPDevStatus p) @ le16 (p_PXCAPDevCtrl p)
    @ le32 (p_PXCAPLinkCap p) @ le16 (p_PXCAPLinkCtrl p) @ le16 (p_PXCAPLinkStatus p)
    @ le32 0 @ le16 0 @ le16 0
    @ le32 (ucast (p_PXCAPRootControl p)) @ le32 (p_PXCAPRootStatus p)"

definition initialize_ports ::
  "u16 \<Rightarrow> u16 \<Rightarrow> int \<Rightarrow> u8 \<Rightarrow> PciBridgeParams \<Rightarrow> config_class" where
  "initialize_ports DeviceId capabilities pci_bus i p =
    \<lparr> storage1 = init_header DeviceId p, storage2 = init_PXCAP capabilities p,
      barsize = (p_BAR0Size p, p_BAR1Size p), barflags = (0, 0),
      cfg_pci_bus = pci_bus, configDelay = p_config_latency p,
      PXCAPBaseOffset = p_PXCAPBaseOffset p, cfg_is_switch = p_is_switch p, cfg_id = i,
      is_valid = 0, valid_io_base = False, valid_io_limit = False,
      valid_prefetchable_memory_base = False, valid_prefetchable_memory_limit = False,
      valid_memory_base = False, valid_memory_limit = False \<rparr>"

section \<open>Checkpoints\<close>

text \<open>What a checkpoint stores of each root port. Restoring overwrites these fields of the
  constructed ports and lets all slave ports announce their ranges.\<close>

record config_checkpoint =
  cp_storage1 :: "u8 list"
  cp_storage2 :: "u8 list"
  cp_is_valid :: u8
  cp_valid_io_base :: bool
  cp_valid_io_limit :: bool
  cp_valid_memory_base :: bool
  cp_valid_memory_limit :: bool
  cp_valid_prefetchable_memory_base :: bool
  cp_valid_prefetchable_memory_limit :: bool

definition serialize_port :: "config_class \<Rightarrow> config_checkpoint" where
  "serialize_port c =
    \<lparr> cp_storage1 = storage1 c, cp_storage2 = storage2 c, cp_is_valid = is_valid c,
      cp_valid_io_base = valid_io_base c, cp_valid_io_limit = valid_io_limit c,
      cp_valid_memory_base = valid_memory_base c, cp_valid_memory_limit = valid_memory_limit c,
      cp_valid_prefetchable_memory_base = valid_prefetchable_memory_base c,
      cp_valid_prefetchable_memory_limit = valid_prefetchable_memory_limit c \<rparr>"

definition unserialize_port :: "config_checkpoint \<Rightarrow> config_class \<Rightarrow> config_class" where
  "unserialize_port cp c =
    c\<lparr> storage1 := cp_storage1 cp, storage2 := cp_storage2 cp, is_valid := cp_is_valid cp,
      valid_io_base := cp_valid_io_base cp, valid_io_limit := cp_valid_io_limit cp,
      valid_memory_base := cp_valid_memory_base cp,
      valid_memory_limit := cp_valid_memory_limit cp,
      valid_prefetchable_memory_base := cp_valid_prefetchable_memory_base cp,
      valid_prefetchable_memory_limit := cp_valid_prefetchable_memory_limit cp \<rparr>"

definition bridge_serialize :: "port_configs \<Rightarrow> nat \<Rightarrow> config_checkpoint" where
  "bridge_serialize cfgs = (\<lambda>i. serialize_port (cfgs i))"

definition bridge_unserialize ::
  "(nat \<Rightarrow> config_checkpoint) \<Rightarrow> port_configs \<Rightarrow> port_configs \<times> nat list" where
  "bridge_unserialize cp cfgs =
    (\<lambda>i. if i \<in> {1, 2, 3, 4} then unserialize_port (cp i) (cfgs i) else cfgs i, [0, 1, 2, 3])"

end
