(* ===== verification/BridgeQueues.thy ===== *)
theory BridgeQueues
  imports HomeAgent BridgeConfig
begin

text \<open>
  The timing path of the root complex (\<open>PciBridgeSlavePort\<close> and \<open>PciBridgeMasterPort\<close> in
  \<^verbatim>\<open>mem/PciBridge.cc\<close>): four slave ports accept requests and return responses, four master ports
  forward requests and receive responses. A request is accepted when the queue of its master port
  has room and, if it expects a response, when the slave port can reserve a place for it;
  otherwise the slave port remembers to ask for a retry.

  Ports are numbered as in \<open>BridgeConfig\<close>. The send event of a queue is the tick it is scheduled
  for. The entry of \<open>Request::pciBridgeSlaveIDs\<close> that belongs to this bridge is a map from
  requests in the bridge's state: no other bridge reads or writes it. The requester numbers
  (\<open>req_bus\<close>) only give \<open>recvTimingResp\<close> a first choice of slave port, which every branch
  overwrites, so they are left out. The byte counter of a master port is kept; the event that
  prints it is not modelled. When a port tells its peer to retry, the peer may send at once; since
  nothing that follows in the handler depends on it, the handlers return the ports that send a
  retry and the peers' new requests are further actions. The peer's answer to a packet is an
  argument: \<open>None\<close> when it refuses, else the packet as the peer leaves it. Trace output, with the
  reads of the address that guard it, is left out.
\<close>

section \<open>State\<close>

type_synonym deferred = "Packet \<times> u64"

record BridgeSlave =
  s_transmitList :: "deferred list"
  outstandingResponses :: u32
  retryReq :: bool
  respQueueLimit :: u32
  s_sendEvent :: "u64 option"

record BridgeMaster =
  m_transmitList :: "deferred list"
  reqQueueLimit :: u32
  m_sendEvent :: "u64 option"
  totalCount :: u64

record PciBridge =
  slaves :: "nat \<Rightarrow> BridgeSlave"
  masters :: "nat \<Rightarrow> BridgeMaster"
  routeTo :: "nat \<Rightarrow> nat option"
  pciBridgeSlaveIDs :: "nat \<Rightarrow> nat"
  cfgs :: port_configs
  peer_ranges :: "nat \<Rightarrow> AddrRange list"
  br_is_switch :: int
  is_transmit :: int

definition new_BridgeSlave :: "u32 \<Rightarrow> BridgeSlave" where
  "new_BridgeSlave resp_limit =
    \<lparr> s_transmitList = [], outstandingResponses = 0, retryReq = False,
      respQueueLimit = resp_limit, s_sendEvent = None \<rparr>"

definition new_BridgeMaster :: "u32 \<Rightarrow> BridgeMaster" where
  "new_BridgeMaster req_limit =
    \<lparr> m_transmitList = [], reqQueueLimit = req_limit, m_sendEvent = None, totalCount = 0 \<rparr>"

definition new_PciBridge ::
  "u32 \<Rightarrow> u32 \<Rightarrow> port_configs \<Rightarrow> (nat \<Rightarrow> AddrRange list) \<Rightarrow> int \<Rightarrow> int \<Rightarrow> PciBridge" where
  "new_PciBridge req_size resp_size cs pr sw tr =
    \<lparr> slaves = (\<lambda>_. new_BridgeSlave resp_size), masters = (\<lambda>_. new_BridgeMaster req_size),
      routeTo = (\<lambda>_. None), pciBridgeSlaveIDs = (\<lambda>_. 0), cfgs = cs, peer_ranges = pr,
      br_is_switch = sw, is_transmit = tr \<rparr>"

abbreviation upd_slave :: "nat \<Rightarrow> (BridgeSlave \<Rightarrow> BridgeSlave) \<Rightarrow> PciBridge \<Rightarrow> PciBridge" where
  "upd_slave i f b \<equiv> b\<lparr> slaves := (slaves b)(i := f (slaves b i)) \<rparr>"

abbreviation upd_master :: "nat \<Rightarrow> (BridgeMaster \<Rightarrow> BridgeMaster) \<Rightarrow> PciBridge \<Rightarrow> PciBridge" where
  "upd_master j f b \<equiv> b\<lparr> masters := (masters b)(j := f (masters b j)) \<rparr>"

text \<open>The ticks a handler reads: \<open>curTick()\<close>, \<open>clockEdge()\<close> and \<open>clockEdge(delay)\<close>.\<close>

record bridge_clock =
  b_now :: u64
  b_edge :: u64
  b_edge_delay :: u64

definition sched :: "u64 \<Rightarrow> u64 option \<Rightarrow> u64 \<Rightarrow> u64 option outcome" where
  "sched now ev when =
    rbind (assert_that (now \<le> when) ''when >= getCurTick()'') (\<lambda>_.
    rbind (assert_that (ev = None) ''!event->scheduled()'') (\<lambda>_. Inr (Some when)))"

section \<open>Queues\<close>

definition respQueueFull :: "BridgeSlave \<Rightarrow> bool" where
  "respQueueFull s \<longleftrightarrow> outstandingResponses s = respQueueLimit s"

definition reqQueueFull :: "BridgeMaster \<Rightarrow> bool" where
  "reqQueueFull m \<longleftrightarrow> length (m_transmitList m) = unat (reqQueueLimit m)"

definition schedTimingReq ::
  "u64 \<Rightarrow> Packet \<Rightarrow> u64 \<Rightarrow> BridgeMaster \<Rightarrow> BridgeMaster outcome" where
  "schedTimingReq now pkt when m =
    rbind (if m_transmitList m = [] then sched now (m_sendEvent m) when
           else Inr (m_sendEvent m)) (\<lambda>ev.
    rbind (assert_that (length (m_transmitList m) \<noteq> unat (reqQueueLimit m))
        ''transmitList.size() != reqQueueLimit'') (\<lambda>_.
      Inr (m\<lparr> m_sendEvent := ev, m_transmitList := m_transmitList m @ [(pkt, when)] \<rparr>)))"

definition schedTimingResp ::
  "u64 \<Rightarrow> Packet \<Rightarrow> u64 \<Rightarrow> BridgeSlave \<Rightarrow> BridgeSlave outcome" where
  "schedTimingResp now pkt when s =
    rbind (if s_transmitList s = [] then sched now (s_sendEvent s) when
           else Inr (s_sendEvent s)) (\<lambda>ev.
      Inr (s\<lparr> s_sendEvent := ev, s_transmitList := s_transmitList s @ [(pkt, when)] \<rparr>))"

text \<open>The delay a packet brings is a 32-bit sum.\<close>

definition receive_delay :: "Packet \<Rightarrow> u64" where
  "receive_delay pkt = ucast (headerDelay pkt + payloadDelay pkt)"

definition clear_delays :: "Packet \<Rightarrow> Packet" where
  "clear_delays pkt = pkt\<lparr> headerDelay := 0, payloadDelay := 0 \<rparr>"

section \<open>Requests\<close>

text \<open>The CXL part of \<open>recvTimingReq\<close>: depending on the address and on the port, the home agent
  attaches a message and the master port may change.\<close>

definition makeCXL_or_panic :: "HA_cases \<Rightarrow> Packet \<Rightarrow> Packet outcome" where
  "makeCXL_or_panic tc pkt =
    rbind (makeCXLPacket tc pkt) (\<lambda>(checkCXLPkt, pkt').
      if \<not> checkCXLPkt then Inl (Panic ''failed make CXL Packet'') else Inr pkt')"

definition req_by_addr ::
  "HA_cases \<Rightarrow> (addr \<Rightarrow> nat) \<Rightarrow> nat \<Rightarrow> addr \<Rightarrow> Packet \<Rightarrow> nat \<Rightarrow> (Packet \<times> nat) outcome" where
  "req_by_addr tc get_master slaveID a pkt masterPort =
    (if 0x15000000 \<le> a \<and> a < 0x15040000 then
       (if slaveID = 0
        then rbind (makeCXL_or_panic tc pkt) (\<lambda>pkt'. Inr (pkt', masterPort))
        else Inr (pkt, masterPort))
     else if 0x80000000 \<le> a \<and> a < 0xA0000000 then
       (if slaveID = 0 \<and> cxl_packet_type (req pkt) \<noteq> HostBiasCheck
        then rbind (makeCXL_or_panic tc pkt) (\<lambda>pkt'. Inr (pkt', masterPort))
        else Inr (pkt, masterPort))
     else if 0xA0000000 \<le> a then
       (if slaveID = 0 then
          (if cxl_packet_type (req pkt) = CXLcacheH2DReq
           then rbind (makeCXLSnpReq pkt) (\<lambda>(_, pkt'). Inr (pkt', get_master 0x15000000))
           else Inl (Panic ''host-to-host access should not reach PCIBridge''))
        else Inr (pkt, masterPort))
     else Inr (pkt, masterPort))"

definition req_bias_check ::
  "(addr \<Rightarrow> nat) \<Rightarrow> nat \<Rightarrow> Packet \<times> nat \<Rightarrow> (Packet \<times> nat) outcome" where
  "req_bias_check get_master slaveID = (\<lambda>(pkt, masterPort).
    if cxl_packet_type (req pkt) = HostBiasCheck \<and> slaveID \<noteq> 0 then
      rbind (deref (cxl_cache (req pkt))) (\<lambda>c.
        if 0x80000000 \<le> CXL_Cache_getAddr c \<and> CXL_Cache_getAddr c < 0xA0000000
        then Inr (pkt, get_master 0xA0000000)
        else Inl (Panic ''incorrect CXL Req''))
    else if cxl_packet_type (req pkt) = HostBiasCheck then
      rbind (checkCoherenceTiming pkt) (\<lambda>pkt'. Inr (pkt', masterPort))
    else Inr (pkt, masterPort))"

definition translate_req ::
  "HA_cases \<Rightarrow> PciBridge \<Rightarrow> nat \<Rightarrow> addr \<Rightarrow> Packet \<Rightarrow> (Packet \<times> nat) outcome" where
  "translate_req tc b slaveID a pkt =
    (let get_master = getMasterPort (peer_ranges b) (cfgs b) in
     rbind (req_by_addr tc get_master slaveID a pkt (get_master a))
       (req_bias_check get_master slaveID))"

text \<open>\<open>PciBridgeSlavePort::recvTimingReq\<close>. The result is whether the request was accepted, and the
  packet: the message that the home agent attached stays on a refused packet.\<close>

definition slave_recvTimingReq ::
  "HA_cases \<Rightarrow> bridge_clock \<Rightarrow> nat \<Rightarrow> Packet \<Rightarrow> PciBridge
    \<Rightarrow> (bool \<times> Packet \<times> PciBridge) outcome" where
  "slave_recvTimingReq tc clk slaveID pkt b0 =
    rbind (getAddr pkt) (\<lambda>a.
    let b = b0\<lparr> pciBridgeSlaveIDs := (pciBridgeSlaveIDs b0)(req_ptr (req pkt) := slaveID) \<rparr> in
    if cacheResponding pkt then
      Inl (Panic ''Should not see packets where cache is responding'')
    else if retryReq (slaves b slaveID) then Inr (False, pkt, b)
    else
      rbind (translate_req tc b slaveID a pkt) (\<lambda>(pkt1, masterPort).
      if reqQueueFull (masters b masterPort) then
        Inr (False, pkt1, upd_slave slaveID (\<lambda>s. s\<lparr> retryReq := True \<rparr>) b)
      else if needsResponse (cmd pkt1) \<and> respQueueFull (slaves b slaveID) then
        Inr (False, pkt1, upd_slave slaveID (\<lambda>s. s\<lparr> retryReq := True \<rparr>) b)
      else
        let b1 = (if needsResponse (cmd pkt1)
                  then upd_slave slaveID
                    (\<lambda>s. s\<lparr> outstandingResponses := outstandingResponses s + 1 \<rparr>) b
                  else b);
            pkt2 = clear_delays pkt1
        in rbind (schedTimingReq (b_now clk) pkt2 (b_edge_delay clk + receive_delay pkt1)
               (masters b1 masterPort)) (\<lambda>m.
             Inr (True, pkt2, upd_master masterPort (\<lambda>_. m) b1))))"

definition retryStalledReq :: "nat \<Rightarrow> PciBridge \<Rightarrow> nat list \<times> PciBridge" where
  "retryStalledReq i b =
    (if retryReq (slaves b i) then ([i], upd_slave i (\<lambda>s. s\<lparr> retryReq := False \<rparr>) b)
     else ([], b))"

fun retry_all :: "nat list \<Rightarrow> PciBridge \<Rightarrow> nat list \<times> PciBridge" where
  "retry_all [] b = ([], b)"
| "retry_all (i # is) b =
     (let (r, b1) = retryStalledReq i b; (rs, b2) = retry_all is b1 in (r @ rs, b2))"

definition unrouted_req :: "CXLPacketType \<Rightarrow> bool" where
  "unrouted_req t \<longleftrightarrow> t \<in> {HostBiasCheck, CXLcacheH2DReq, CXLcacheH2DResp}"

text \<open>The tail of \<open>trySendTiming\<close>: the head leaves the queue and the next packet is scheduled.\<close>

definition pop_queue ::
  "bridge_clock \<Rightarrow> deferred list \<Rightarrow> u64 option \<Rightarrow> (deferred list \<times> u64 option) outcome" where
  "pop_queue clk q ev =
    (case tl q of
       [] \<Rightarrow> Inr ([], ev)
     | d # ds \<Rightarrow> rbind (sched (b_now clk) ev (max (snd d) (b_edge clk)))
                  (\<lambda>ev'. Inr (d # ds, ev')))"

definition master_trySendTiming ::
  "bridge_clock \<Rightarrow> nat \<Rightarrow> Packet option \<Rightarrow> PciBridge \<Rightarrow> (nat list \<times> PciBridge) outcome" where
  "master_trySendTiming clk j answer b =
    (let m = masters b j in
     rbind (assert_that (m_transmitList m \<noteq> []) ''!transmitList.empty()'') (\<lambda>_.
     rbind (assert_that (snd (hd (m_transmitList m)) \<le> b_now clk) ''req.tick <= curTick()'')
       (\<lambda>_.
     case answer of
       None \<Rightarrow> Inr ([], b)
     | Some pkt \<Rightarrow>
         rbind (assert_that (routeTo b (req_ptr (req pkt)) = None)
             ''routeTo.find(pkt->req) == routeTo.end()'') (\<lambda>_.
         rbind (pop_queue clk (m_transmitList m) (m_sendEvent m)) (\<lambda>(q, ev).
         let b1 = (if unrouted_req (cxl_packet_type (req pkt)) then b
                   else b\<lparr> routeTo := (routeTo b)(req_ptr (req pkt) \<mapsto>
                          pciBridgeSlaveIDs b (req_ptr (req pkt))) \<rparr>);
             b2 = upd_master j (\<lambda>m. m\<lparr> m_transmitList := q, m_sendEvent := ev \<rparr>) b1
         in Inr (retry_all [0, 1, 2, 3] b2))))))"

section \<open>Responses\<close>

definition unrouted_resp :: "CXLPacketType \<Rightarrow> bool" where
  "unrouted_resp t \<longleftrightarrow> t \<in> {HostBiasCheck, CXLcacheH2DResp}"

text \<open>The slave port of a response, with the byte count of root port 1, and the CXL part: a host
  bias check is completed by the home agent, other CXL responses are received by it.\<close>

definition resp_port :: "PciBridge \<Rightarrow> nat \<Rightarrow> Packet \<Rightarrow> (nat \<times> PciBridge) outcome" where
  "resp_port b j pkt =
    (if unrouted_resp (cxl_packet_type (req pkt)) then
       Inr (if cxl_packet_type (req pkt) = HostBiasCheck then 2 else 0, b)
     else case routeTo b (req_ptr (req pkt)) of
       None \<Rightarrow> Inl (Undefined ''routeTo.end()->second'')
     | Some slaveID \<Rightarrow>
         if slaveID = 1 \<and> br_is_switch b = 0 \<and> isResponse (cmd pkt) \<and> hasData (cmd pkt)
            \<and> is_transmit b = 1
         then rbind (getSize pkt) (\<lambda>n. Inr (slaveID,
                upd_master j (\<lambda>m. m\<lparr> totalCount := totalCount m + ucast n \<rparr>) b))
         else Inr (slaveID, b))"

definition resp_cxl :: "Packet \<Rightarrow> Packet outcome" where
  "resp_cxl pkt =
    rbind (if cxl_packet_type (req pkt) = HostBiasCheck then checkCoherenceTiming pkt
           else Inr pkt) (\<lambda>pkt1.
      if cxl_packet_type (req pkt1) = CXLcacheH2DResp then Inr pkt1
      else if cxl_packet_type (req pkt1) \<noteq> DefaultPacket then reciveCXL pkt1
      else Inr pkt1)"

definition master_recvTimingResp ::
  "bridge_clock \<Rightarrow> nat \<Rightarrow> Packet \<Rightarrow> PciBridge \<Rightarrow> PciBridge outcome" where
  "master_recvTimingResp clk j pkt b =
    rbind (resp_port b j pkt) (\<lambda>(slaveID, b1).
    rbind (resp_cxl pkt) (\<lambda>pkt1.
    rbind (schedTimingResp (b_now clk) (clear_delays pkt1)
        (b_edge_delay clk + receive_delay pkt1) (slaves b1 slaveID)) (\<lambda>s.
    let b2 = upd_slave slaveID (\<lambda>_. s) b1 in
    if unrouted_resp (cxl_packet_type (req pkt1)) then Inr b2
    else if routeTo b (req_ptr (req pkt)) = None then
      Inl (Undefined ''routeTo.erase(routeTo.end())'')
    else Inr (b2\<lparr> routeTo := (routeTo b2)(req_ptr (req pkt) := None) \<rparr>))))"

definition slave_trySendTiming ::
  "bridge_clock \<Rightarrow> nat \<Rightarrow> bool \<Rightarrow> PciBridge \<Rightarrow> (nat list \<times> PciBridge) outcome" where
  "slave_trySendTiming clk i accepted b =
    (let s = slaves b i in
     rbind (assert_that (s_transmitList s \<noteq> []) ''!transmitList.empty()'') (\<lambda>_.
     rbind (assert_that (snd (hd (s_transmitList s)) \<le> b_now clk) ''resp.tick <= curTick()'')
       (\<lambda>_.
     if \<not> accepted then Inr ([], b)
     else
       rbind (assert_that (outstandingResponses s \<noteq> 0) ''outstandingResponses != 0'') (\<lambda>_.
       rbind (pop_queue clk (s_transmitList s) (s_sendEvent s)) (\<lambda>(q, ev).
         Inr (retryStalledReq i (upd_slave i (\<lambda>s. s\<lparr> s_transmitList := q,
           outstandingResponses := outstandingResponses s - 1, s_sendEvent := ev \<rparr>) b)))))))"

section \<open>Actions\<close>

text \<open>What can happen: a peer sends a request or a response, a send event runs (it leaves the
  schedule first), or a peer that refused a packet asks for it again.\<close>

datatype bridge_act =
    Recv_req nat Packet
  | Recv_resp nat Packet
  | Master_event nat "Packet option"
  | Master_retry nat "Packet option"
  | Slave_event nat bool
  | Slave_retry nat bool

definition fire :: "u64 \<Rightarrow> u64 option \<Rightarrow> unit outcome" where
  "fire now ev = (if ev = Some now then Inr () else Inl (AssertFail ''event not scheduled''))"

fun bridge_step ::
  "HA_cases \<Rightarrow> bridge_clock \<Rightarrow> bridge_act \<Rightarrow> PciBridge
    \<Rightarrow> (bool \<times> nat list \<times> PciBridge) outcome" where
  "bridge_step tc clk (Recv_req i pkt) b =
     rbind (slave_recvTimingReq tc clk i pkt b) (\<lambda>(acc, _, b'). Inr (acc, [], b'))"
| "bridge_step tc clk (Recv_resp j pkt) b =
     rbind (master_recvTimingResp clk j pkt b) (\<lambda>b'. Inr (True, [], b'))"
| "bridge_step tc clk (Master_event j ans) b =
     rbind (fire (b_now clk) (m_sendEvent (masters b j))) (\<lambda>_.
     rbind (master_trySendTiming clk j ans (upd_master j (\<lambda>m. m\<lparr> m_sendEvent := None \<rparr>) b))
       (\<lambda>(rs, b'). Inr (ans \<noteq> None, rs, b')))"
| "bridge_step tc clk (Master_retry j ans) b =
     rbind (master_trySendTiming clk j ans b) (\<lambda>(rs, b'). Inr (ans \<noteq> None, rs, b'))"
| "bridge_step tc clk (Slave_event i acc) b =
     rbind (fire (b_now clk) (s_sendEvent (slaves b i))) (\<lambda>_.
     rbind (slave_trySendTiming clk i acc (upd_slave i (\<lambda>s. s\<lparr> s_sendEvent := None \<rparr>) b))
       (\<lambda>(rs, b'). Inr (acc, rs, b')))"
| "bridge_step tc clk (Slave_retry i acc) b =
     rbind (slave_trySendTiming clk i acc b) (\<lambda>(rs, b'). Inr (acc, rs, b'))"

end
