(* ===== verification/BridgeConfigProps.thy ===== *)
theory BridgeConfigProps
  imports BridgeConfig
begin

text \<open>
  What configuration software can and cannot do to a root port: exactly which bits no sequence of
  writes changes, the window that a write to the memory base and limit registers opens, and where
  the bridge forwards the addresses it announces.
\<close>

section \<open>Bytes and fields\<close>

lemma length_wr16 [simp]: "length (wr16 i v d) = length d"
  by (simp add: wr16_def)

lemma length_wr32 [simp]: "length (wr32 i v d) = length d"
  by (simp add: wr32_def)

lemma rd16_wr16_same [simp]: "i + 1 < length d \<Longrightarrow> rd16 (wr16 i v d) i = v"
  by (intro bit_word_eqI) (auto simp: rd16_def wr16_def bit_simps)

lemma rd16_wr16_other [simp]:
  "i + 1 < j \<or> j + 1 < i \<Longrightarrow> rd16 (wr16 j v d) i = rd16 d i"
  by (auto simp: rd16_def wr16_def)

lemma nth_wr16_other [simp]: "k \<noteq> i \<Longrightarrow> k \<noteq> i + 1 \<Longrightarrow> wr16 i v d ! k = d ! k"
  by (simp add: wr16_def)

lemma rd32_wr32_same [simp]: "i + 3 < length d \<Longrightarrow> rd32 (wr32 i v d) i = v"
  by (intro bit_word_eqI) (auto simp: rd32_def wr32_def bit_simps)

lemmas config_fields =
  reg8_def reg16_def reg32_def set8_def set16_def set32_def

section \<open>Read-only bits\<close>

text \<open>The bits of each byte of the header that \<open>writeConfig\<close> cannot change: the identification bytes, the
  cache line size, the latency timer and the header type; the low halves of the I/O and memory
  base and limit registers; the upper halves of the I/O window, whose writes store nothing; the
  capability pointer with the reserved bytes; and the interrupt pin. The secondary latency timer
  is not among them, although \<open>isWritable\<close> lists it, and neither are the low halves of the
  prefetchable base and limit registers. \<open>configuration_keeps_read_only_bits\<close> shows that the table
  has exactly the bits that no sequence of writes changes.\<close>

definition ro_mask :: "u8 list" where
  "ro_mask =
    replicate 4 0xFF @ replicate 4 0 @ replicate 7 0xFF @ replicate 13 0
    @ [0x0F, 0x0F, 0, 0, 0x0F, 0, 0x0F, 0] @ replicate 12 0 @ replicate 8 0xFF
    @ replicate 5 0 @ [0xFF, 0, 0]"

lemma ro_mask_nth:
  "i < 64 \<Longrightarrow> ro_mask ! i =
    (if i < 4 \<or> 8 \<le> i \<and> i < 15 \<or> 48 \<le> i \<and> i < 56 \<or> i = 61 then 0xFF
     else if i \<in> {28, 29, 32, 34} then 0x0F else 0)"
proof -
  have "list_all (\<lambda>i. ro_mask ! i =
      (if i < 4 \<or> 8 \<le> i \<and> i < 15 \<or> 48 \<le> i \<and> i < 56 \<or> i = 61 then 0xFF
       else if i \<in> {28, 29, 32, 34} then 0x0F else 0)) [0..<64]"
    by code_simp
  then show "i < 64 \<Longrightarrow> ?thesis"
    by (simp add: list_all_iff)
qed

definition ro_agree :: "u8 list \<Rightarrow> u8 list \<Rightarrow> bool" where
  "ro_agree d d' \<longleftrightarrow>
    length d = 64 \<and> length d' = 64 \<and> (\<forall>i<64. d' ! i AND ro_mask ! i = d ! i AND ro_mask ! i)"

lemma ro_agree_refl: "length d = 64 \<Longrightarrow> ro_agree d d"
  by (simp add: ro_agree_def)

lemma ro_agree_trans: "ro_agree d d' \<Longrightarrow> ro_agree d' d'' \<Longrightarrow> ro_agree d d''"
  by (simp add: ro_agree_def)

lemma ro_agree_update:
  assumes "ro_agree d d'" "v AND ro_mask ! i = d ! i AND ro_mask ! i"
  shows "ro_agree d (d'[i := v])"
proof -
  have "d'[i := v] ! j AND ro_mask ! j = d ! j AND ro_mask ! j" if "j < 64" for j
    using assms that by (cases "j = i") (auto simp: ro_agree_def)
  then show ?thesis
    using assms(1) by (simp add: ro_agree_def)
qed

lemma keep_bits_mask: "keep_bits m new old AND m = old AND m"
  by (intro bit_word_eqI) (auto simp: keep_bits_def bit_simps)

text \<open>The low byte of a two-byte field whose low nibble is kept.\<close>

lemma bit_15: "bit (15 :: 'a::len word) n \<longleftrightarrow> n < 4 \<and> n < LENGTH('a)"
proof -
  have "(15 :: 'a word) = mask 4"
    by (simp add: mask_eq_exp_minus_1)
  then have "bit (15 :: 'a word) n = bit (mask 4 :: 'a word) n"
    by (rule arg_cong)
  also have "\<dots> \<longleftrightarrow> n < 4 \<and> n < LENGTH('a)"
    by (auto simp: bit_mask_iff)
  finally show ?thesis .
qed

lemma low_byte_kept:
  assumes "v AND 15 = rd16 d i AND 15"
  shows "(ucast v :: u8) AND 15 = d ! i AND 15"
proof (rule bit_word_eqI)
  fix n assume "n < LENGTH(8)"
  have "bit (v AND 15) n = bit (rd16 d i AND 15) n"
    by (simp add: assms)
  then show "bit ((ucast v :: u8) AND 15) n = bit (d ! i AND 15) n"
    using \<open>n < LENGTH(8)\<close> by (auto simp: bit_simps bit_15 rd16_def)
qed

lemma low_byte_keep_bits [simp]:
  "(ucast (keep_bits MMIO_LIMIT_MASK v (rd16 d i)) :: u8) AND 15 = d ! i AND 15"
  by (rule low_byte_kept) (simp add: keep_bits_mask flip: MMIO_LIMIT_MASK_def)

lemma mmio_masks [simp]: "MMIO_BASE_MASK = MMIO_LIMIT_MASK"
  by (simp add: bridge_masks)

lemma ro_agree_wr16:
  assumes "ro_agree d d'" "i + 1 < 64"
    and "(ucast v :: u8) AND ro_mask ! i = d ! i AND ro_mask ! i"
    and "(ucast (drop_bit 8 v) :: u8) AND ro_mask ! (i + 1) = d ! (i + 1) AND ro_mask ! (i + 1)"
  shows "ro_agree d (wr16 i v d')"
  unfolding wr16_def using assms by (intro ro_agree_update)

lemma ro_agree_wr32:
  assumes "ro_agree d d'" "i + 3 < 64"
    and "\<And>j. j \<in> {i, i + 1, i + 2, i + 3} \<Longrightarrow> ro_mask ! j = 0"
  shows "ro_agree d (wr32 i v d')"
  unfolding wr32_def using assms
  by (intro ro_agree_wr16) (auto simp: numeral_3_eq_3)

text \<open>What one write does to the rest of the state.\<close>

definition cfg_agree :: "config_class \<Rightarrow> config_class \<Rightarrow> bool" where
  "cfg_agree c c' \<longleftrightarrow>
    ro_agree (storage1 c) (storage1 c') \<and> storage2 c' = storage2 c \<and> barsize c' = barsize c
    \<and> cfg_pci_bus c' = cfg_pci_bus c \<and> configDelay c' = configDelay c
    \<and> PXCAPBaseOffset c' = PXCAPBaseOffset c \<and> cfg_is_switch c' = cfg_is_switch c
    \<and> cfg_id c' = cfg_id c"

lemma cfg_agree_refl: "length (storage1 c) = 64 \<Longrightarrow> cfg_agree c c"
  by (simp add: cfg_agree_def ro_agree_refl)

lemma cfg_agree_trans: "cfg_agree c c' \<Longrightarrow> cfg_agree c' c'' \<Longrightarrow> cfg_agree c c''"
  by (auto simp: cfg_agree_def intro: ro_agree_trans)

lemmas ro_agree_writes = ro_agree_refl ro_agree_update ro_agree_wr16 ro_agree_wr32

lemma write8_agree:
  "length (storage1 c) = 64 \<Longrightarrow> cfg_agree c (fst (write8 i v c))"
  by (auto simp: write8_def cfg_agree_def config_fields pci_offsets ro_mask_nth IO_BASE_MASK_def
      IO_LIMIT_MASK_def keep_bits_mask intro!: ro_agree_writes)

lemma write16_agree:
  "length (storage1 c) = 64 \<Longrightarrow> cfg_agree c (fst (write16 i v c))"
  by (auto simp: write16_def cfg_agree_def config_fields pci_offsets ro_mask_nth IO_BASE_MASK_def
      IO_LIMIT_MASK_def keep_bits_mask Let_def intro!: ro_agree_writes)

lemma write_bar_agree:
  assumes "length (storage1 c) = 64"
  shows "cfg_agree c (fst (write_bar0 v c))" "cfg_agree c (fst (write_bar1 v c))"
  using assms
  by (auto simp: write_bar0_def write_bar1_def cfg_agree_def config_fields pci_offsets
      ro_mask_nth Let_def intro!: ro_agree_refl ro_agree_wr32)

lemma write32_agree:
  assumes "length (storage1 c) = 64"
  shows "cfg_agree c (fst (write32 i v c))"
proof (cases "i = PCI1_BASE_ADDR0 \<or> i = PCI1_BASE_ADDR1")
  case True
  with assms show ?thesis
    by (auto simp: write32_def pci_offsets write_bar_agree)
next
  case False
  with assms show ?thesis
    by (auto simp: write32_def cfg_agree_def config_fields pci_offsets ro_mask_nth Let_def
        simp flip: keep_bits_def intro!: ro_agree_writes)
qed

lemma write_PXCAP_same: "write_PXCAP i sz v c = Inr c' \<Longrightarrow> c' = c"
  by (auto simp: write_PXCAP_def SLOT_REG_BASE_def SLOT_REG_LIMIT_def split: if_splits)

lemma writes_agree:
  assumes "length (storage1 c) = 64"
  shows "write8 i v8 c = (c', f) \<Longrightarrow> cfg_agree c c'"
    and "write16 i v16 c = (c', f) \<Longrightarrow> cfg_agree c c'"
    and "write32 i v32 c = (c', f) \<Longrightarrow> cfg_agree c c'"
  using assms write8_agree[of c i v8] write16_agree[of c i v16] write32_agree[of c i v32]
  by simp_all

lemma writeConfig_agree:
  assumes "writeConfig v pkt c = Inr (c', r)" "length (storage1 c) = 64"
  shows "cfg_agree c c'"
  using assms
  by (auto simp: writeConfig_def cfg_agree_refl split: if_splits dest!: write_PXCAP_same
      intro: writes_agree)

section \<open>Sequences of writes\<close>

text \<open>Configuration software sends any number of writes to a port.\<close>

fun run_writes :: "(u32 \<times> Packet) list \<Rightarrow> config_class \<Rightarrow> config_class outcome" where
  "run_writes [] c = Inr c"
| "run_writes ((v, pkt) # ws) c =
     rbind (writeConfig v pkt c) (\<lambda>(c', _). run_writes ws c')"

lemma run_writes_agree:
  "run_writes ws c = Inr c' \<Longrightarrow> length (storage1 c) = 64 \<Longrightarrow> cfg_agree c c'"
proof (induction ws c rule: run_writes.induct)
  case (2 v pkt ws c)
  then obtain c1 r where w: "writeConfig v pkt c = Inr (c1, r)" and rest: "run_writes ws c1 = Inr c'"
    by auto
  then have "cfg_agree c c1"
    using "2.prems" writeConfig_agree by blast
  moreover from this have "length (storage1 c1) = 64"
    by (simp add: cfg_agree_def ro_agree_def)
  ultimately show ?case
    using "2.IH"[OF w refl rest] by (blast intro: cfg_agree_trans)
qed (simp add: cfg_agree_refl)

text \<open>A read that concerns read-only bytes only has the same answer in states that agree.\<close>

lemma readConfig_agree:
  assumes "cfg_agree c c'" "cfg_offset pkt = Inr k"
    and "64 \<le> k \<or> getSize pkt = Inr 1 \<and> ro_mask ! k = 0xFF"
  shows "readConfig c' pkt = readConfig c pkt"
proof (cases "64 \<le> k")
  case True
  with assms show ?thesis
    by (simp add: readConfig_def cfg_agree_def in_PXCAP_def PCIE_HEADER_SIZE_def cong: if_cong)
next
  case False
  have "(0xFF :: u8) = - 1"
    by simp
  then have ff: "w AND 0xFF = w" for w :: u8
    by (simp only: and.right_neutral)
  from assms(1) False have "storage1 c' ! k AND ro_mask ! k = storage1 c ! k AND ro_mask ! k"
    by (simp add: cfg_agree_def ro_agree_def)
  with False assms(3) have "storage1 c' ! k AND 0xFF = storage1 c ! k AND 0xFF"
    by simp
  then have "storage1 c' ! k = storage1 c ! k"
    by (simp only: ff)
  with False assms show ?thesis
    by (simp add: readConfig_def cfg_agree_def ro_agree_def PCIE_HEADER_SIZE_def read_array_def)
qed

lemma init_lengths [simp]:
  "length (init_header dev p) = 64" "length (init_PXCAP cap p) = 36"
  by (simp_all add: init_header_def init_PXCAP_def le16_def le32_def)

section \<open>Windows\<close>

lemma reg16_set16 [simp]:
  assumes "length (storage1 c) = 64" "i + 1 < 64"
  shows "reg16 (set16 i v c) i = v"
  using assms by (simp add: reg16_def set16_def)

lemma bit_MMIO: "bit MMIO_LIMIT_MASK n \<longleftrightarrow> n < 4"
  using bit_15[where 'a = 16, of n] by (auto simp: MMIO_LIMIT_MASK_def simp del: bit_numeral_simps)

lemma drop_keep_bits: "drop_bit 4 (keep_bits MMIO_LIMIT_MASK v old) = drop_bit 4 v"
  by (rule bit_word_eqI) (auto simp: keep_bits_def bit_MMIO bit_simps dest: bit_imp_le_length)

definition mb :: nat where "mb = 2 ^ 20"

lemma window_word:
  "unat (ucast (push_bit 20 (ucast (drop_bit 4 v)) :: u32) :: addr)
    = push_bit 20 (unat (drop_bit 4 (v :: u16)))"
  by (rule bit_eqI) (auto simp: bit_simps dest: bit_imp_le_length)

lemma unat_window_base:
  "unat (ucast (push_bit 20 (ucast (drop_bit 4 v)) :: u32) :: addr)
    = mb * (unat (v :: u16) div 16)"
  unfolding window_word
  by (simp add: push_bit_eq_mult unsigned_drop_bit_eq drop_bit_eq_div mb_def unat_div_distrib)

lemma or_low_mb: "mb * m OR 0xFFFFF = mb * m + (mb - 1)"
proof -
  have "push_bit 20 m + mask 20 = push_bit 20 m OR (mask 20 :: nat)"
    by (rule disjunctive_add_eq_or) (simp add: take_bit_push_bit flip: take_bit_eq_mask)
  then show ?thesis
    by (simp add: mb_def push_bit_eq_mult mask_eq_exp_minus_1 mult.commute)
qed

lemma unat_window_limit:
  "unat (ucast (push_bit 20 (ucast (drop_bit 4 v)) OR 0xFFFFF :: u32) :: addr)
    = mb * (unat (v :: u16) div 16) + (mb - 1)"
proof -
  have "(ucast (push_bit 20 (ucast (drop_bit 4 v)) OR 0xFFFFF :: u32) :: addr)
      = ucast (push_bit 20 (ucast (drop_bit 4 v)) :: u32) OR 0xFFFFF"
    by (simp add: unsigned_or_eq)
  then show ?thesis
    using or_low_mb[of "unat v div 16"] unat_window_base[of v] by (simp add: unsigned_or_eq)
qed


text \<open>What a four-byte write to the memory base register puts into the window: bits 4 to 15 give the
  base and bits 20 to 31 the limit, in megabytes.\<close>

definition mem_base_of :: "u32 \<Rightarrow> nat" where
  "mem_base_of val = mb * (unat val mod 2 ^ 16 div 2 ^ 4)"

definition mem_limit_of :: "u32 \<Rightarrow> nat" where
  "mem_limit_of val = mb * (unat val div 2 ^ 20) + (mb - 1)"

lemma val_low_half: "unat (ucast ((val :: u32) AND 0xFFFF) :: u16) = unat val mod 2 ^ 16"
proof -
  have "val AND 0xFFFF = take_bit 16 val"
    by (simp add: take_bit_eq_mask mask_eq_exp_minus_1)
  then have "unat (val AND 0xFFFF) = unat val mod 2 ^ 16"
    by (simp add: take_bit_eq_mod unat_mod_distrib)
  then show ?thesis
    by (simp add: unsigned_ucast_eq take_bit_eq_mod)
qed

lemma val_high_half: "unat (ucast (drop_bit 16 (val :: u32)) :: u16) = unat val div 2 ^ 16"
proof -
  have "unat val < 2 ^ 32"
    using unsigned_less[of val] by simp
  then have "unat val div 2 ^ 16 < 2 ^ 16"
    by simp
  then show ?thesis
    by (simp add: unsigned_ucast_eq unsigned_drop_bit_eq drop_bit_eq_div take_bit_nat_eq_self
        unat_div_distrib)
qed

lemma write32_mem:
  assumes "write32 PCI1_MEM_BASE val c = (c', f)" "length (storage1 c) = 64"
  shows "f \<and> valid_memory_base c' \<and> valid_memory_limit c' \<and> length (storage1 c') = 64
    \<and> cfg_id c' = cfg_id c \<and> cfg_is_switch c' = cfg_is_switch c
    \<and> unat (getMemoryBase c') = mem_base_of val \<and> unat (getMemoryLimit c') = mem_limit_of val"
proof -
  let ?b = "keep_bits MMIO_LIMIT_MASK (ucast (val AND 0xFFFF)) (reg16 c PCI1_MEM_BASE)"
  let ?l = "keep_bits MMIO_LIMIT_MASK (ucast (drop_bit 16 val)) (reg16 c PCI1_MEM_LIMIT)"
  have c': "c' = (set16 PCI1_MEM_LIMIT ?l (set16 PCI1_MEM_BASE ?b c))
      \<lparr> valid_memory_base := True, valid_memory_limit := True \<rparr>" and f: "f"
    using assms(1) by (auto simp: write32_def pci_offsets Let_def simp flip: keep_bits_def)
  have regs: "reg16 c' PCI1_MEM_BASE = ?b" "reg16 c' PCI1_MEM_LIMIT = ?l"
    using assms(2) by (simp_all add: c' reg16_def set16_def pci_offsets)
  have "unat (ucast (val AND 0xFFFF) :: u16) = unat val mod 2 ^ 16"
    using val_low_half[of val] by simp
  then have base: "unat (getMemoryBase c') = mem_base_of val"
    unfolding getMemoryBase_def regs drop_keep_bits unat_window_base mem_base_of_def by simp
  have "unat (ucast (drop_bit 16 val) :: u16) div 16 = unat val div 2 ^ 20"
    using val_high_half[of val] by (simp flip: div_mult2_eq)
  then have limit: "unat (getMemoryLimit c') = mem_limit_of val"
    unfolding getMemoryLimit_def regs drop_keep_bits unat_window_limit mem_limit_of_def by simp
  show ?thesis
    using assms(2) f base limit by (simp add: c' set16_def)
qed

lemma contains_RangeIn: "contains (RangeIn b l) a \<Longrightarrow> b \<le> a \<and> a \<le> l"
  by (auto simp: RangeIn_def word_le_nat_alt word_less_nat_alt unat_word_ariths split: if_splits)


text \<open>The addresses of the base address registers of a port. Apart from them a port announces only windows
  that it decodes.\<close>

definition in_bar :: "config_class \<Rightarrow> addr \<Rightarrow> bool" where
  "in_bar c a \<longleftrightarrow>
    fst (barsize c) \<noteq> 0 \<and> getBar0 c \<noteq> 0 \<and> contains (RangeSize (getBar0 c) (ucast (fst (barsize c)))) a
    \<or> snd (barsize c) \<noteq> 0 \<and> getBar1 c \<noteq> 0 \<and> contains (RangeSize (getBar1 c) (ucast (snd (barsize c)))) a"

lemma fill_ranges_decodes:
  assumes "covers (fill_ranges rs c) a"
  shows "covers rs a \<or> in_bar c a \<or> decodes c a"
proof -
  have win: "in_window a b l" if "covers (if v then [RangeIn b l] else []) a" "v \<Longrightarrow> b < l \<and> b \<noteq> 0"
    for v b l
    using that contains_RangeIn[of b l a] by (auto simp: in_window_def split: if_splits)
  have bar: "in_bar c a" if "covers (if fst (barsize c) \<noteq> 0 \<and> getBar0 c \<noteq> 0
      then [RangeSize (getBar0 c) (ucast (fst (barsize c)))] else []) a
    \<or> covers (if snd (barsize c) \<noteq> 0 \<and> getBar1 c \<noteq> 0
      then [RangeSize (getBar1 c) (ucast (snd (barsize c)))] else []) a"
    using that by (auto simp: in_bar_def split: if_splits)
  from assms consider "covers rs a" | "in_bar c a"
    | "covers (if valid_memory_base c \<and> valid_memory_limit c
          \<and> getMemoryBase c < getMemoryLimit c \<and> getMemoryBase c \<noteq> 0
        then [RangeIn (getMemoryBase c) (getMemoryLimit c)] else []) a"
    | "covers (if valid_prefetchable_memory_base c \<and> valid_prefetchable_memory_limit c
          \<and> getPrefetchableMemoryBase c < getPrefetchableMemoryLimit c
          \<and> getPrefetchableMemoryBase c \<noteq> 0
        then [RangeIn (getPrefetchableMemoryBase c) (getPrefetchableMemoryLimit c)] else []) a"
    | "covers (if valid_io_base c \<and> valid_io_limit c \<and> getIOBase c < getIOLimit c
          \<and> getIOBase c \<noteq> 0
        then [RangeIn (getIOBase c) (getIOLimit c)] else []) a"
    unfolding fill_ranges_def covers_simps using bar by blast
  then show ?thesis
    by cases (auto simp: decodes_def dest!: win)
qed

lemma covers_sort [simp]: "covers (sort_ranges rs) a \<longleftrightarrow> covers rs a"
  by (simp add: covers_def)

text \<open>Where a request goes: to the first port one of whose windows holds its address, else to the first port
  whose device announces it, else back to the host.\<close>

definition decoding_ports :: "port_configs \<Rightarrow> addr \<Rightarrow> nat set" where
  "decoding_ports cfgs a = {j \<in> {1, 2, 3}. decodes (cfgs j) a}"

definition claiming_ports :: "(nat \<Rightarrow> AddrRange list) \<Rightarrow> addr \<Rightarrow> nat set" where
  "claiming_ports peer_ranges a = {j \<in> {1, 2, 3}. covers (peer_ranges j) a}"

lemma Min_ports:
  assumes "S \<subseteq> {1, 2, 3 :: nat}" "S \<noteq> {}"
  shows "Min S = (if 1 \<in> S then 1 else if 2 \<in> S then 2 else 3)"
proof -
  have "finite S" using assms(1) by (rule finite_subset) simp
  then show ?thesis using assms by (intro Min_eqI) auto
qed

lemma getMasterPort_first:
  "decoding_ports cfgs a \<noteq> {} \<Longrightarrow> getMasterPort peer_ranges cfgs a = Min (decoding_ports cfgs a)"
  "decoding_ports cfgs a = {} \<Longrightarrow> claiming_ports peer_ranges a \<noteq> {}
    \<Longrightarrow> getMasterPort peer_ranges cfgs a = Min (claiming_ports peer_ranges a)"
  "decoding_ports cfgs a = {} \<Longrightarrow> claiming_ports peer_ranges a = {} \<Longrightarrow> getMasterPort peer_ranges cfgs a = 0"
proof -
  have s: "decoding_ports cfgs a \<subseteq> {1, 2, 3}" "claiming_ports peer_ranges a \<subseteq> {1, 2, 3}"
    by (auto simp: decoding_ports_def claiming_ports_def)
  show "decoding_ports cfgs a \<noteq> {} \<Longrightarrow> getMasterPort peer_ranges cfgs a = Min (decoding_ports cfgs a)"
    unfolding Min_ports[OF s(1)] by (auto simp: getMasterPort_def decoding_ports_def)
  show "decoding_ports cfgs a = {} \<Longrightarrow> claiming_ports peer_ranges a \<noteq> {}
    \<Longrightarrow> getMasterPort peer_ranges cfgs a = Min (claiming_ports peer_ranges a)"
    unfolding Min_ports[OF s(2)]
    by (auto simp: getMasterPort_def decoding_ports_def claiming_ports_def covers_def list_ex_iff)
  show "decoding_ports cfgs a = {} \<Longrightarrow> claiming_ports peer_ranges a = {} \<Longrightarrow> getMasterPort peer_ranges cfgs a = 0"
    by (auto simp: getMasterPort_def decoding_ports_def claiming_ports_def covers_def list_ex_iff)
qed

lemma unat_u32_addr: "unat (ucast (w :: u32) :: addr) < 2 ^ 32"
  using unsigned_less[where 'a = nat, of w] by (simp add: unsigned_ucast_eq take_bit_nat_eq_self)

lemma covers_fill_memory:
  assumes "valid_memory_base c" "valid_memory_limit c" "getMemoryBase c < getMemoryLimit c"
    "getMemoryBase c \<noteq> 0" "getMemoryBase c \<le> a" "a \<le> getMemoryLimit c"
  shows "covers (fill_ranges rs c) a"
proof -
  have "unat (getMemoryLimit c) < 2 ^ 32"
    unfolding getMemoryLimit_def by (rule unat_u32_addr)
  then have "contains (RangeIn (getMemoryBase c) (getMemoryLimit c)) a"
    using assms(5,6) by (simp add: RangeIn_def word_le_nat_alt word_less_nat_alt unat_word_ariths)
  then show ?thesis
    using assms(1-4) by (simp add: fill_ranges_def)
qed

lemma covers_fill_mono: "covers rs a \<Longrightarrow> covers (fill_ranges rs c) a"
  by (simp add: fill_ranges_def)

section \<open>Ranges of the downstream ports\<close>

text \<open>The ranges that a downstream slave port announces for requests of its device lie below a window
  of the port: the range behind the last window is meant to reach to the highest address, but its
  exclusive end is that address plus one, which is zero.\<close>

lemma gaps_below: "covers (fst (gaps l rs)) a \<Longrightarrow> \<exists>r \<in> set rs. a < rstart r"
  by (induction l rs rule: gaps.induct)
    (auto simp: Let_def RangeIn_def split: prod.splits if_splits)

lemma RangeIn_ADDR_MAX [simp]: "\<not> contains (RangeIn l ADDR_MAX) a"
proof -
  have "ADDR_MAX + 1 = 0"
    by (simp add: ADDR_MAX_def)
  then show ?thesis
    by (simp add: RangeIn_def)
qed

lemma downstream_port_announces_below_window:
  assumes "covers (slave_getAddrRanges is_switch cfgs i) a" "i \<noteq> 0"
  shows "\<exists>r \<in> set (window_ranges is_switch cfgs i). a < rstart r"
proof -
  have "covers (fst (gaps 0 (window_ranges is_switch cfgs i))) a"
    using assms by (auto simp: slave_getAddrRanges_def Let_def split: prod.splits if_splits)
  then show ?thesis
    by (rule gaps_below)
qed


section \<open>Checkpoints\<close>



section \<open>Properties\<close>

definition sample_params :: PciBridgeParams where
  "sample_params =
    \<lparr> p_VendorId = 0x8086, p_Command = 0, p_Status = 0x10, p_ClassCode = 6, p_SubClassCode = 4,
      p_ProgIF = 0, p_Revision = 0, p_BIST = 0, p_HeaderType = 1, p_LatencyTimer = 0,
      p_CacheLineSize = 0x20, p_Bar0 = 0, p_Bar1 = 0, p_SecondaryLatencyTimer = 0,
      p_MemoryLimit = 0, p_MemoryBase = 0, p_PrefetchableMemoryLimit = 0,
      p_PrefetchableMemoryBase = 0, p_PrefetchableMemoryLimitUpper = 0,
      p_PrefetchableMemoryBaseUpper = 0, p_IOLimit = 1, p_IOBase = 1, p_IOLimitUpper = 0x2f00,
      p_IOBaseUpper = 0x2f00, p_CapabilityPointer = 0x40, p_ExpansionROMBaseAddress = 0,
      p_InterruptPin = 1, p_InterruptLine = 0, p_BridgeControl = 0, p_SecondaryStatus = 0,
      p_PrimaryBusNumber = 0, p_SecondaryBusNumber = 0, p_SubordinateBusNumber = 0,
      p_PXCAPNextCapability = 0, p_PXCAPCapId = 0x10, p_PXCAPDevCapabilities = 0x241,
      p_PXCAPDevCtrl = 0x2040, p_PXCAPDevStatus = 0, p_PXCAPLinkCap = 0x5111,
      p_PXCAPLinkCtrl = 0, p_PXCAPLinkStatus = 0x11, p_PXCAPRootStatus = 0,
      p_PXCAPRootControl = 0, p_config_latency = 20000, p_BAR0Size = 0, p_BAR1Size = 0,
      p_PXCAPBaseOffset = 0x40, p_is_switch = 0 \<rparr>"

definition sample_write :: "addr \<Rightarrow> u32 \<Rightarrow> Packet" where
  "sample_write a n =
    Packet_new (sample_request\<lparr> r_paddr := Some a, r_size := Some n \<rparr>) WriteReq"

definition sample_ports :: port_configs where
  "sample_ports i = initialize_ports 0x9c90 0x41 0 (of_nat i) sample_params"

text \<open>A bit of the header is fixed when no sequence of writes that completes changes it from the value the
  constructor gave it, whatever the parameters of the bridge.\<close>

definition fixed_bit :: "nat \<Rightarrow> nat \<Rightarrow> bool" where
  "fixed_bit k n \<longleftrightarrow> (\<forall>dev cap bus i p ws c. run_writes ws (initialize_ports dev cap bus i p) = Inr c
     \<longrightarrow> bit (storage1 c ! k) n = bit (init_header dev p ! k) n)"

text \<open>Two bridges and single writes that change every bit outside \<open>ro_mask\<close>: some set bits that were clear,
  the others clear bits that were set.\<close>

definition clear_params :: PciBridgeParams where
  "clear_params = sample_params\<lparr> p_Command := 0, p_Status := 0, p_Bar0 := 0, p_Bar1 := 0, p_IOLimit := 0,
     p_IOBase := 0, p_BAR0Size := 1, p_BAR1Size := 1 \<rparr>"

definition set_params :: PciBridgeParams where
  "set_params = sample_params\<lparr> p_SecondaryStatus := 0xFFFF, p_PrefetchableMemoryLimit := 0xFFFF,
     p_ExpansionROMBaseAddress := 0xFFFFFFFF \<rparr>"

definition changing_writes :: "((u32 \<times> Packet) \<times> PciBridgeParams) list" where
  "changing_writes =
     map (\<lambda>a. ((0xFFFFFFFF, sample_write a 4), clear_params)) [0x04, 0x10, 0x14, 0x18, 0x20, 0x24, 0x28, 0x2C]
     @ map (\<lambda>a. ((0xFFFF, sample_write a 2), clear_params)) [0x1C, 0x1E, 0x3E]
     @ map (\<lambda>a. ((0xFF, sample_write a 1), clear_params)) [0x0F, 0x3C]
     @ [((0, sample_write 0x1E 2), set_params), ((0, sample_write 0x24 4), set_params), ((0, sample_write 0x38 4), set_params)]"

text \<open>The bits of the header that a write changes.\<close>

definition changed_bits :: "(u32 \<times> Packet) \<times> PciBridgeParams \<Rightarrow> u8 list" where
  "changed_bits wp = (case run_writes [fst wp] (initialize_ports 0 0 0 1 (snd wp)) of
     Inl _ \<Rightarrow> replicate 64 0 | Inr c \<Rightarrow> map2 (XOR) (storage1 c) (init_header 0 (snd wp)))"

lemma changed_bits_length [simp]: "length (changed_bits wp) = 64"
  by (auto simp: changed_bits_def initialize_ports_def ro_agree_def cfg_agree_def dest: run_writes_agree split: sum.splits)

lemma changed_bit_not_fixed:
  assumes "k < 64" "bit (changed_bits wp ! k) n"
  shows "\<not> fixed_bit k n"
proof (cases "run_writes [fst wp] (initialize_ports 0 0 0 1 (snd wp))")
  case (Inl e)
  with assms show ?thesis by (simp add: changed_bits_def)
next
  case (Inr c)
  have "length (storage1 c) = 64"
    using run_writes_agree[OF Inr] by (simp add: initialize_ports_def cfg_agree_def ro_agree_def)
  with assms Inr have "bit (storage1 c ! k) n \<noteq> bit (init_header 0 (snd wp) ! k) n"
    by (simp add: changed_bits_def bit_xor_iff)
  with Inr show ?thesis unfolding fixed_bit_def by blast
qed

lemma or_lists:
  assumes "\<forall>xs \<in> set xss. length xs = length ys" "k < length ys" "bit (foldr (map2 (OR)) xss ys ! k) n"
  shows "bit ((ys :: u8 list) ! k) n \<or> (\<exists>xs \<in> set xss. bit (xs ! k) n)"
proof -
  have "length (foldr (map2 (OR)) xss ys) = length ys \<and>
    (bit (foldr (map2 (OR)) xss ys ! k) n \<longrightarrow> bit (ys ! k) n \<or> (\<exists>xs \<in> set xss. bit (xs ! k) n))"
    using assms(1,2) by (induction xss) (auto simp: bit_or_iff)
  with assms(3) show ?thesis by blast
qed

lemma every_other_bit_changes: "foldr (map2 (OR)) (map changed_bits changing_writes) ro_mask = replicate 64 0xFF"
  by code_simp

lemma fixed_bit_masked:
  assumes "k < 64" "n < 8" "fixed_bit k n"
  shows "bit (ro_mask ! k) n"
proof -
  have "(0xFF :: u8) = - 1" by simp
  then have "bit (0xFF :: u8) n" using assms(2) by (simp only: bit_minus_1_iff) simp
  then have "bit (foldr (map2 (OR)) (map changed_bits changing_writes) ro_mask ! k) n"
    using assms(1) by (simp add: every_other_bit_changes)
  moreover have "length ro_mask = 64" by (simp add: ro_mask_def)
  ultimately have "bit (ro_mask ! k) n \<or> (\<exists>xs \<in> set (map changed_bits changing_writes). bit (xs ! k) n)"
    using assms(1) by (intro or_lists) auto
  with changed_bit_not_fixed[OF assms(1)] assms(3) show ?thesis by auto
qed

text \<open>The registers that \<open>isWritable\<close> refuses are in the table, but for one.\<close>

lemma refused_registers:
  assumes "k < 64" "\<not> isWritable k"
  shows "ro_mask ! k = (if k = PCI1_SEC_LAT_TIMER then 0 else 0xFF)"
  using assms by (auto simp: isWritable_def pci_offsets ro_mask_nth)

text \<open>C21: Which bits of a root port are read-only. After any configuration writes that complete, starting
  from the state the constructor builds, the bits of the header that the table \<open>ro_mask\<close> marks
  still have their initial values, and these are all such bits: every other bit is changed by some
  sequence of writes to some bridge. The table has all bits of every register that \<open>isWritable\<close>
  refuses, except the secondary latency timer: a four-byte write to the bus numbers overwrites it.
  The registers of the PCI Express capability never change (every write to them is dropped, not
  only those to the slot registers), and a read of a read-only byte or of any register behind the
  header answers as it did at the start.\<close>

theorem configuration_keeps_read_only_bits:
  assumes "run_writes ws (initialize_ports dev cap bus i p) = Inr c"
  shows "length (storage1 c) = 64 \<and> storage2 c = init_PXCAP cap p
    \<and> (\<forall>k<64. storage1 c ! k AND ro_mask ! k = init_header dev p ! k AND ro_mask ! k)
    \<and> (\<forall>k<64. \<forall>n<8. bit (ro_mask ! k) n \<longleftrightarrow> fixed_bit k n)
    \<and> (\<forall>k<64. \<not> isWritable k \<longrightarrow> ro_mask ! k = (if k = PCI1_SEC_LAT_TIMER then 0 else 0xFF))
    \<and> (\<forall>pkt k. cfg_offset pkt = Inr k \<and> (64 \<le> k \<or> getSize pkt = Inr 1 \<and> ro_mask ! k = 0xFF)
        \<longrightarrow> readConfig c pkt = readConfig (initialize_ports dev cap bus i p) pkt)"
proof -
  let ?c0 = "initialize_ports dev cap bus i p"
  have agree: "cfg_agree (initialize_ports dev cap bus i p) c"
    if "run_writes ws (initialize_ports dev cap bus i p) = Inr c" for ws dev cap bus i p c
    using run_writes_agree[OF that] by (simp add: initialize_ports_def)
  have fixed: "fixed_bit k n" if "k < 64" "bit (ro_mask ! k) n" for k n
    unfolding fixed_bit_def
  proof (intro allI impI)
    fix dev cap bus i p ws c assume "run_writes ws (initialize_ports dev cap bus i p) = Inr c"
    from agree[OF this] have "storage1 c ! k AND ro_mask ! k = init_header dev p ! k AND ro_mask ! k"
      using that(1) by (simp add: cfg_agree_def ro_agree_def initialize_ports_def)
    then have "bit (storage1 c ! k AND ro_mask ! k) n = bit (init_header dev p ! k AND ro_mask ! k) n" by simp
    with that(2) show "bit (storage1 c ! k) n = bit (init_header dev p ! k) n" by (simp add: bit_and_iff)
  qed
  have same: "readConfig c pkt = readConfig ?c0 pkt"
    if "cfg_offset pkt = Inr k" "64 \<le> k \<or> getSize pkt = Inr 1 \<and> ro_mask ! k = 0xFF" for pkt k
    using readConfig_agree[OF agree[OF assms] that] .
  have "length (storage1 c) = 64" "storage2 c = init_PXCAP cap p"
    "\<forall>k<64. storage1 c ! k AND ro_mask ! k = init_header dev p ! k AND ro_mask ! k"
    using agree[OF assms] by (simp_all add: cfg_agree_def ro_agree_def initialize_ports_def)
  with fixed fixed_bit_masked refused_registers same show ?thesis by blast
qed

theorem configuration_keeps_read_only_bits_witness:
  "\<exists>c. run_writes [(0xFFFFFFFF, sample_write 0 4), (0x9FF08000, sample_write 0x20 4),
      (0xFF, sample_write 0x48 1)] (sample_ports 2) = Inr c
    \<and> storage2 c = init_PXCAP 0x41 sample_params \<and> unat (getMemoryBase c) = 0x80000000
    \<and> fixed_bit 0x20 3 \<and> \<not> fixed_bit PCI1_SEC_LAT_TIMER 0"
proof -
  let ?ws = "[(0xFFFFFFFF, sample_write 0 4), (0x9FF08000, sample_write 0x20 4),
      (0xFF, sample_write 0x48 1)]"
  have q: "\<not> isl (run_writes ?ws (sample_ports 2))"
      "getMemoryBase (projr (run_writes ?ws (sample_ports 2))) = 0x80000000"
      "bit (ro_mask ! 0x20) 3" "\<not> bit (ro_mask ! PCI1_SEC_LAT_TIMER) 0" "PCI1_SEC_LAT_TIMER < 64"
    by code_simp+
  then obtain c where c: "run_writes ?ws (sample_ports 2) = Inr c"
    by (cases "run_writes ?ws (sample_ports 2)") auto
  from q(2)[unfolded c] have "unat (getMemoryBase c) = 0x80000000"
    by simp
  moreover note p = configuration_keeps_read_only_bits[OF c[unfolded sample_ports_def]]
  from p have "storage2 c = init_PXCAP 0x41 sample_params" by blast
  moreover from p have f: "\<forall>k<64. \<forall>n<8. bit (ro_mask ! k) n \<longleftrightarrow> fixed_bit k n" by blast
  then have "fixed_bit 0x20 3" "\<not> fixed_bit PCI1_SEC_LAT_TIMER 0" using q(3-5) by auto
  ultimately show ?thesis
    using c by blast
qed


text \<open>C20: A four-byte write to the memory base register of a root port completes, tells the
  upstream slave port to announce its ranges again, and opens the window it describes: the
  announced ranges of that slave port hold every address from the base to the limit written, and
  a request to such an address is forwarded to this root port, unless a window of a port with a
  smaller number also holds the address.\<close>

theorem memory_window_opens:
  assumes "i \<in> {1, 2, 3}" "length (storage1 (cfgs i)) = 64" "cfg_is_switch (cfgs i) = 0"
    and "cfg_offset pkt = Inr PCI1_MEM_BASE" "getSize pkt = Inr 4"
    and "needsResponse (cmd pkt)" "isRequest (cmd pkt)"
    and "0 < mem_base_of val" "mem_base_of val < mem_limit_of val"
  shows "\<exists>c' pkt' notified.
    writeConfig val pkt (cfgs i) = Inr (c', pkt', configDelay (cfgs i), notified)
    \<and> 0 \<in> set notified
    \<and> (\<forall>a. mem_base_of val \<le> unat a \<and> unat a \<le> mem_limit_of val \<longrightarrow>
        covers (slave_getAddrRanges 0 (cfgs(i := c')) 0) a
        \<and> ((\<forall>j. 1 \<le> j \<and> j < i \<longrightarrow> \<not> decodes (cfgs j) a)
            \<longrightarrow> getMasterPort peer_ranges (cfgs(i := c')) a = i))"
proof -
  obtain c' f where w: "write32 PCI1_MEM_BASE val (cfgs i) = (c', f)"
    by fastforce
  note m = write32_mem[OF w assms(2)]
  obtain pkt' where r: "makeResponse pkt = Inr pkt'"
    using assms(6,7) by (auto simp: makeResponse_def)
  have "configDelay c' = configDelay (cfgs i)"
    using writes_agree(3)[OF assms(2) w] by (simp add: cfg_agree_def)
  then have wr: "writeConfig val pkt (cfgs i) =
      Inr (c', pkt', configDelay (cfgs i), range_changes c')"
    using assms(4,5) w r m
    by (simp add: writeConfig_def PCIE_HEADER_SIZE_def isWritable_def pci_offsets)
  have "getMemoryBase c' \<noteq> 0"
    using m assms(8) by auto
  then have win: "covers (fill_ranges rs c') a \<and> decodes c' a"
    if "mem_base_of val \<le> unat a" "unat a \<le> mem_limit_of val" for a rs
    using covers_fill_memory[of c' a rs] m that assms(8,9)
    by (auto simp: decodes_def in_window_def word_le_nat_alt word_less_nat_alt unat_eq_zero)
  have "covers (slave_getAddrRanges 0 (cfgs(i := c')) 0) a"
    if "mem_base_of val \<le> unat a" "unat a \<le> mem_limit_of val" for a
    using win[OF that] assms(1)
    by (auto simp: slave_getAddrRanges_def window_ranges_def intro: covers_fill_mono)
  moreover have "getMasterPort peer_ranges (cfgs(i := c')) a = i"
    if "mem_base_of val \<le> unat a" "unat a \<le> mem_limit_of val"
      "\<forall>j. 1 \<le> j \<and> j < i \<longrightarrow> \<not> decodes (cfgs j) a" for a
    using win[OF that(1,2)] that(3) assms(1) by (auto simp: getMasterPort_def)
  moreover have "0 \<in> set (range_changes c')"
    using m assms(3) by (simp add: range_changes_def)
  ultimately show ?thesis
    using wr by blast
qed

theorem memory_window_opens_witness:
  "\<exists>c' pkt' notified.
    writeConfig 0x9FF08000 (sample_write 0x20 4) (sample_ports 2)
      = Inr (c', pkt', 20000, notified)
    \<and> getMasterPort (\<lambda>_. []) (sample_ports(2 := c')) 0x80001000 = 2"
proof -
  have hyps: "length (storage1 (sample_ports 2)) = 64" "cfg_is_switch (sample_ports 2) = 0"
      "cfg_offset (sample_write 0x20 4) = Inr PCI1_MEM_BASE" "getSize (sample_write 0x20 4) = Inr 4"
      "needsResponse (cmd (sample_write 0x20 4))" "isRequest (cmd (sample_write 0x20 4))"
      "configDelay (sample_ports 2) = 20000" "\<not> decodes (sample_ports 1) 0x80001000"
    by code_simp+
  have window: "0 < mem_base_of 0x9FF08000" "mem_base_of 0x9FF08000 < mem_limit_of 0x9FF08000"
      "mem_base_of 0x9FF08000 \<le> unat (0x80001000 :: addr)"
      "unat (0x80001000 :: addr) \<le> mem_limit_of 0x9FF08000"
    by (simp_all add: mem_base_of_def mem_limit_of_def mb_def)
  have below: "\<forall>j. 1 \<le> j \<and> j < 2 \<longrightarrow> \<not> decodes (sample_ports j) 0x80001000"
    using hyps(8) by (metis One_nat_def less_2_cases_iff not_one_le_zero)
  have "(2 :: nat) \<in> {1, 2, 3}"
    by simp
  from memory_window_opens[of 2 sample_ports, OF this hyps(1-6) window(1,2),
      where peer_ranges = "\<lambda>_. []"]
  show ?thesis
    using below hyps(7) window(3,4) by metis
qed

text \<open>The ports whose windows and base address registers the upstream slave port announces.\<close>

definition announcing_ports :: "int \<Rightarrow> nat set" where
  "announcing_ports is_switch = (if is_switch = 0 then {1, 2, 3} else {4})"

text \<open>C22: Where the addresses go that the upstream slave port of a root complex or a switch announces. An
  announced address is forwarded to the first root port one of whose windows holds it. If no
  window of a root port holds it, it lies in a base address register of an announcing port or, in
  a switch, in a window of the upstream port only; only such an address is forwarded by what the
  devices announce or, if none claims it, sent back to the host.\<close>

theorem announced_addresses_go_downstream:
  assumes "covers (slave_getAddrRanges is_switch cfgs 0) a"
  shows "if decoding_ports cfgs a \<noteq> {} then getMasterPort peer_ranges cfgs a = Min (decoding_ports cfgs a)
    else ((\<exists>i \<in> announcing_ports is_switch. in_bar (cfgs i) a) \<or> is_switch = 1 \<and> decodes (cfgs 4) a)
      \<and> getMasterPort peer_ranges cfgs a =
          (if claiming_ports peer_ranges a \<noteq> {} then Min (claiming_ports peer_ranges a) else 0)"
proof -
  have "covers (window_ranges is_switch cfgs 0) a"
    using assms by (simp add: slave_getAddrRanges_def)
  moreover have "is_switch = 0 \<or> is_switch = 1"
    using calculation by (auto simp: window_ranges_def split: if_splits)
  ultimately have "(\<exists>i \<in> announcing_ports is_switch. in_bar (cfgs i) a) \<or> is_switch = 1 \<and> decodes (cfgs 4) a
      \<or> decoding_ports cfgs a \<noteq> {}"
    by (auto simp: window_ranges_def announcing_ports_def decoding_ports_def
        dest!: fill_ranges_decodes split: if_splits)
  then show ?thesis
    using getMasterPort_first[of cfgs a peer_ranges] by auto
qed

text \<open>In a root complex the second port has a window; in a switch only the upstream port has one.\<close>

definition opened_port :: config_class where
  "opened_port = projr (run_writes [(0x9FF08000, sample_write 0x20 4)] (sample_ports 2))"

definition complex_ports :: port_configs where
  "complex_ports i = (if i = 2 then opened_port else sample_ports i)"

definition switch_ports :: port_configs where
  "switch_ports i = (if i = 4 then opened_port else sample_ports i)"

theorem announced_addresses_go_downstream_witness:
  "getMasterPort (\<lambda>_. []) complex_ports 0x90000000 = 2 \<and> getMasterPort (\<lambda>_. []) switch_ports 0x90000000 = 0
    \<and> decodes (switch_ports 4) 0x90000000"
proof -
  have v: "list_ex (\<lambda>r. contains r 0x90000000) (slave_getAddrRanges 0 complex_ports 0)"
      "list_ex (\<lambda>r. contains r 0x90000000) (slave_getAddrRanges 1 switch_ports 0)"
      "\<not> decodes (complex_ports 1) 0x90000000" "decodes (complex_ports 2) 0x90000000"
      "\<not> decodes (complex_ports 3) 0x90000000"
      "\<not> decodes (switch_ports 1) 0x90000000" "\<not> decodes (switch_ports 2) 0x90000000"
      "\<not> decodes (switch_ports 3) 0x90000000" "barsize (switch_ports 4) = (0, 0)"
    by code_simp+
  then have c: "covers (slave_getAddrRanges 0 complex_ports 0) 0x90000000"
      "covers (slave_getAddrRanges 1 switch_ports 0) 0x90000000"
    by (simp_all add: covers_def list_ex_iff)
  have d: "decoding_ports complex_ports 0x90000000 = {2}" "decoding_ports switch_ports 0x90000000 = {}"
      "claiming_ports (\<lambda>_. []) 0x90000000 = {}" "\<not> in_bar (switch_ports 4) 0x90000000"
    using v(3-9) by (auto simp: decoding_ports_def claiming_ports_def in_bar_def covers_def)
  have "getMasterPort (\<lambda>_. []) complex_ports 0x90000000 = 2"
    using announced_addresses_go_downstream[OF c(1), where peer_ranges = "\<lambda>_. []"] d(1) by simp
  moreover have "decodes (switch_ports 4) 0x90000000 \<and> getMasterPort (\<lambda>_. []) switch_ports 0x90000000 = 0"
    using announced_addresses_go_downstream[OF c(2), where peer_ranges = "\<lambda>_. []"] d(2-4)
    by (simp add: announcing_ports_def)
  ultimately show ?thesis by simp
qed



end
