(* ===== verification/BridgeQueuesProps.thy ===== *)
theory BridgeQueuesProps
  imports BridgeQueues BridgeConfigProps
begin

text \<open>
  Correctness of the timing path of the root complex for ordinary traffic. A history records the
  requests that were sent and not yet answered, the time, and the queues whose head the peer
  refused; \<open>allowed\<close> says what peers that follow the port protocol do in a given history. The
  invariant relates the counters, the routing table and the send events to the history.
\<close>

section \<open>Histories\<close>

record history =
  g_flight :: "(nat \<times> nat) list"
  g_now :: u64
  g_waitM :: "nat \<Rightarrow> bool"
  g_waitS :: "nat \<Rightarrow> bool"

definition new_history :: history where
  "new_history = \<lparr> g_flight = [], g_now = 0, g_waitM = (\<lambda>_. False), g_waitS = (\<lambda>_. False) \<rparr>"

abbreviation ptr :: "Packet \<Rightarrow> nat" where
  "ptr p \<equiv> req_ptr (req p)"

definition queued_of :: "(nat \<Rightarrow> BridgeMaster) \<Rightarrow> deferred list" where
  "queued_of ms = concat (map (\<lambda>j. m_transmitList (ms j)) [0, 1, 2, 3])"

definition queued :: "PciBridge \<Rightarrow> deferred list" where
  "queued b = queued_of (masters b)"

text \<open>Ordinary packets: neither host bias checks nor snoops of the device.\<close>

definition ordinary :: "Packet \<Rightarrow> bool" where
  "ordinary p \<longleftrightarrow> \<not> unrouted_req (cxl_packet_type (req p))"

definition head_request :: "PciBridge \<Rightarrow> nat \<Rightarrow> Packet" where
  "head_request b j = fst (hd (m_transmitList (masters b j)))"

definition clock_ok :: "bridge_clock \<Rightarrow> history \<Rightarrow> bool" where
  "clock_ok clk g \<longleftrightarrow>
    g_now g \<le> b_now clk \<and> b_now clk \<le> b_edge clk \<and> b_edge clk \<le> b_edge_delay clk
    \<and> unat (b_edge_delay clk) + 2 ^ 32 < 2 ^ 64"

text \<open>What peers do. A request is new to the bridge, carries an address the home agent accepts, and
  no cache has answered it; a response belongs to a request in flight; a packet a peer accepts
  keeps its request; an event runs when it is due, and a peer asks for a retry only of a packet
  it refused.\<close>

definition good_answer :: "PciBridge \<Rightarrow> nat \<Rightarrow> Packet option \<Rightarrow> bool" where
  "good_answer b j ans \<longleftrightarrow>
    (case ans of None \<Rightarrow> True | Some p \<Rightarrow> ptr p = ptr (head_request b j) \<and> ordinary p)"

fun allowed ::
  "HA_cases \<Rightarrow> bridge_clock \<Rightarrow> bridge_act \<Rightarrow> PciBridge \<Rightarrow> history \<Rightarrow> bool" where
  "allowed tc clk (Recv_req i pkt) b g \<longleftrightarrow>
     clock_ok clk g \<and> i < 4 \<and> ordinary pkt \<and> \<not> cacheResponding pkt
     \<and> ptr pkt \<notin> ptr ` fst ` set (queued b) \<and> routeTo b (ptr pkt) = None
     \<and> (\<exists>a. getAddr pkt = Inr a \<and> ok (translate_req tc b i a pkt))"
| "allowed tc clk (Recv_resp j pkt) b g \<longleftrightarrow>
     clock_ok clk g \<and> j < 4 \<and> ordinary pkt \<and> ptr pkt \<in> fst ` set (g_flight g)
     \<and> ok (resp_cxl pkt) \<and> ok (getSize pkt)"
| "allowed tc clk (Master_event j ans) b g \<longleftrightarrow>
     clock_ok clk g \<and> j < 4 \<and> m_sendEvent (masters b j) = Some (b_now clk)
     \<and> good_answer b j ans"
| "allowed tc clk (Master_retry j ans) b g \<longleftrightarrow>
     clock_ok clk g \<and> j < 4 \<and> g_waitM g j \<and> good_answer b j ans"
| "allowed tc clk (Slave_event i acc) b g \<longleftrightarrow>
     clock_ok clk g \<and> i < 4 \<and> s_sendEvent (slaves b i) = Some (b_now clk)"
| "allowed tc clk (Slave_retry i acc) b g \<longleftrightarrow> clock_ok clk g \<and> i < 4 \<and> g_waitS g i"

definition sent :: "PciBridge \<Rightarrow> nat \<Rightarrow> Packet option \<Rightarrow> history \<Rightarrow> history" where
  "sent b j ans g =
    (case ans of
       None \<Rightarrow> g\<lparr> g_waitM := (g_waitM g)(j := True) \<rparr>
     | Some _ \<Rightarrow>
         (let p = head_request b j in
          g\<lparr> g_waitM := (g_waitM g)(j := False),
             g_flight := (if needsResponse (cmd p)
               then (ptr p, pciBridgeSlaveIDs b (ptr p)) # g_flight g else g_flight g) \<rparr>))"

fun record_act :: "bridge_clock \<Rightarrow> bridge_act \<Rightarrow> PciBridge \<Rightarrow> history \<Rightarrow> history" where
  "record_act clk (Recv_req i pkt) b g = g\<lparr> g_now := b_now clk \<rparr>"
| "record_act clk (Recv_resp j pkt) b g =
     g\<lparr> g_now := b_now clk, g_flight := filter (\<lambda>(r, _). r \<noteq> ptr pkt) (g_flight g) \<rparr>"
| "record_act clk (Master_event j ans) b g = sent b j ans (g\<lparr> g_now := b_now clk \<rparr>)"
| "record_act clk (Master_retry j ans) b g = sent b j ans (g\<lparr> g_now := b_now clk \<rparr>)"
| "record_act clk (Slave_event i acc) b g =
     g\<lparr> g_now := b_now clk, g_waitS := (g_waitS g)(i := \<not> acc) \<rparr>"
| "record_act clk (Slave_retry i acc) b g =
     g\<lparr> g_now := b_now clk, g_waitS := (g_waitS g)(i := \<not> acc) \<rparr>"

text \<open>The states that ordinary traffic reaches from the construction of the bridge.\<close>

inductive reachable :: "HA_cases \<Rightarrow> PciBridge \<Rightarrow> history \<Rightarrow> bool" for tc where
  reach_new: "0 < req_size \<Longrightarrow> 0 < resp_size \<Longrightarrow>
    reachable tc (new_PciBridge req_size resp_size cs pr sw tr) new_history"
| reach_step: "reachable tc b g \<Longrightarrow> allowed tc clk act b g \<Longrightarrow>
    bridge_step tc clk act b = Inr (acc, rs, b') \<Longrightarrow>
    reachable tc b' (record_act clk act b g)"

section \<open>Invariant\<close>

text \<open>A queue is empty without event, or its event is due when its head is, or its head was due and
  refused.\<close>

definition q_ok :: "deferred list \<Rightarrow> u64 option \<Rightarrow> bool \<Rightarrow> u64 \<Rightarrow> bool" where
  "q_ok q ev waiting now \<longleftrightarrow>
    (if q = [] then ev = None \<and> \<not> waiting
     else case ev of
            Some t \<Rightarrow> \<not> waiting \<and> snd (hd q) \<le> t
          | None \<Rightarrow> waiting \<and> snd (hd q) \<le> now)"

definition master_inv :: "BridgeMaster \<Rightarrow> bool \<Rightarrow> u64 \<Rightarrow> bool" where
  "master_inv m waiting now \<longleftrightarrow>
    length (m_transmitList m) \<le> unat (reqQueueLimit m) \<and> 0 < reqQueueLimit m
    \<and> q_ok (m_transmitList m) (m_sendEvent m) waiting now"

definition slave_inv :: "BridgeSlave \<Rightarrow> nat \<Rightarrow> bool \<Rightarrow> bool \<Rightarrow> u64 \<Rightarrow> bool" where
  "slave_inv s pending busy waiting now \<longleftrightarrow>
    outstandingResponses s \<le> respQueueLimit s \<and> 0 < respQueueLimit s
    \<and> unat (outstandingResponses s) = length (s_transmitList s) + pending
    \<and> q_ok (s_transmitList s) (s_sendEvent s) waiting now
    \<and> (retryReq s \<longrightarrow> busy \<or> outstandingResponses s \<noteq> 0)"

text \<open>The requests that entered through port \<open>i\<close> and whose response is still to come.\<close>

definition expects_from :: "PciBridge \<Rightarrow> nat \<Rightarrow> deferred \<Rightarrow> bool" where
  "expects_from b i d \<longleftrightarrow>
    needsResponse (cmd (fst d)) \<and> pciBridgeSlaveIDs b (ptr (fst d)) = i"

definition pending :: "PciBridge \<Rightarrow> history \<Rightarrow> nat \<Rightarrow> nat" where
  "pending b g i =
    length (filter (expects_from b i) (queued b))
    + length (filter (\<lambda>(r, s). s = i) (g_flight g))"

definition routes_ok :: "PciBridge \<Rightarrow> history \<Rightarrow> bool" where
  "routes_ok b g \<longleftrightarrow>
    distinct (map (ptr \<circ> fst) (queued b)) \<and> distinct (map fst (g_flight g))
    \<and> (\<forall>d \<in> set (queued b). routeTo b (ptr (fst d)) = None
        \<and> pciBridgeSlaveIDs b (ptr (fst d)) < 4)
    \<and> (\<forall>x \<in> set (g_flight g). routeTo b (fst x) = Some (snd x) \<and> snd x < 4)"

definition binv :: "PciBridge \<Rightarrow> history \<Rightarrow> bool" where
  "binv b g \<longleftrightarrow>
    (\<forall>j<4. master_inv (masters b j) (g_waitM g j) (g_now g))
    \<and> (\<forall>i<4. slave_inv (slaves b i) (pending b g i) (queued b \<noteq> []) (g_waitS g i) (g_now g))
    \<and> routes_ok b g"


section \<open>Queues and ports\<close>

lemma less_4_cases: "(j :: nat) < 4 \<Longrightarrow> j = 0 \<or> j = 1 \<or> j = 2 \<or> j = 3"
  by auto

lemma queued_split:
  assumes "j < 4"
  shows "\<exists>xs ys. \<forall>m. queued_of (ms(j := m)) = xs @ m_transmitList m @ ys"
  using less_4_cases[OF assms]
proof (elim disjE)
  assume "j = 1" then show ?thesis
    by (intro exI[of _ "m_transmitList (ms 0)"]
        exI[of _ "m_transmitList (ms 2) @ m_transmitList (ms 3)"]) (simp add: queued_of_def)
next
  assume "j = 2" then show ?thesis
    by (intro exI[of _ "m_transmitList (ms 0) @ m_transmitList (ms 1)"]
        exI[of _ "m_transmitList (ms 3)"]) (simp add: queued_of_def)
next
  assume "j = 3" then show ?thesis
    by (intro exI[of _ "m_transmitList (ms 0) @ m_transmitList (ms 1) @ m_transmitList (ms 2)"]
        exI[of _ "[]"]) (simp add: queued_of_def)
next
  assume "j = 0" then show ?thesis
    by (intro exI[of _ "[]"] exI[of _ "m_transmitList (ms 1) @ m_transmitList (ms 2)
          @ m_transmitList (ms 3)"]) (simp add: queued_of_def)
qed

lemma queued_of_same:
  "m_transmitList m = m_transmitList (ms j) \<Longrightarrow> queued_of (ms(j := m)) = queued_of ms"
  by (simp add: queued_of_def)

lemma getMasterPort_less: "getMasterPort pr cs a < 4"
  by (simp add: getMasterPort_def)

lemma q_ok_mono: "q_ok q ev w now \<Longrightarrow> now \<le> now' \<Longrightarrow> q_ok q ev w now'"
  by (auto simp: q_ok_def split: if_splits option.splits)

lemma q_ok_append:
  assumes "q_ok q ev w now" "now' \<le> when"
  shows "\<exists>ev'. (if q = [] then sched now' ev when else Inr ev) = Inr ev'
    \<and> q_ok (q @ [(p, when)]) ev' w now"
  using assms by (auto simp: q_ok_def sched_def split: if_splits option.splits)

lemma pop_queue_ok:
  assumes "q \<noteq> []" "b_now clk \<le> b_edge clk"
  shows "\<exists>ev'. pop_queue clk q None = Inr (tl q, ev') \<and> q_ok (tl q) ev' False now"
  using assms
  by (auto simp: pop_queue_def q_ok_def sched_def le_max_iff_disj split: list.splits)

lemma receive_delay_less: "unat (receive_delay p) < 2 ^ 32"
  using unsigned_less[where 'a = nat, of "headerDelay p + payloadDelay p"]
  by (simp add: receive_delay_def unsigned_ucast_eq take_bit_nat_eq_self)

lemma clock_when:
  assumes "clock_ok clk g"
  shows "b_now clk \<le> b_edge_delay clk + receive_delay p"
proof -
  have "unat (b_edge_delay clk + receive_delay p)
      = unat (b_edge_delay clk) + unat (receive_delay p)"
    using assms receive_delay_less[of p] by (simp add: clock_ok_def unat_word_ariths)
  then show ?thesis
    using assms by (simp add: clock_ok_def word_le_nat_alt)
qed

section \<open>The home agent keeps the request\<close>

lemma makeCXLPacket_keeps:
  assumes "makeCXLPacket tc pkt = Inr (True, p)"
  shows "ptr p = ptr pkt \<and> ordinary p"
  using assms
  by (auto simp: makeCXLPacket_def attach_M2S_Req_def attach_M2S_RwD_def upd_req_def
      ordinary_def unrouted_req_def Let_def split: if_splits)

lemma translate_keeps:
  assumes "translate_req tc b i a pkt = Inr (p, j)" "ordinary pkt"
  shows "ptr p = ptr pkt \<and> ordinary p \<and> j < 4"
proof -
  let ?gm = "getMasterPort (peer_ranges b) (cfgs b)"
  obtain p1 j1 where r: "req_by_addr tc ?gm i a pkt (?gm a) = Inr (p1, j1)"
      and c: "req_bias_check ?gm i (p1, j1) = Inr (p, j)"
    using assms(1) by (auto simp: translate_req_def Let_def)
  have "ptr p1 = ptr pkt \<and> ordinary p1 \<and> j1 < 4"
    using r assms(2)
    by (auto simp: req_by_addr_def makeCXL_or_panic_def getMasterPort_less ordinary_def
        unrouted_req_def dest!: makeCXLPacket_keeps split: if_splits)
  with c show ?thesis
    by (auto simp: req_bias_check_def ordinary_def unrouted_req_def split: if_splits)
qed

lemma makeCXLResp_keeps:
  assumes "makeCXLResp pkt = Inr (f, p)" "ordinary pkt"
  shows "ptr p = ptr pkt \<and> ordinary p"
proof -
  let ?rs = "\<lambda>x rd. [makeCXLResp_read x rd pkt, makeCXLResp_nodata x pkt, makeCXLResp_evict x pkt,
    makeCXLResp_write x pkt]"
  have keeps: "ptr q = ptr pkt \<and> ordinary q" if "Some q \<in> set (?rs x rd)" for x rd q
    using that assms(2)
    by (cases x) (auto simp: attach_H2D_Resp_def attach_H2D_Resp_Data_def upd_req_def
        ordinary_def unrouted_req_def)
  have first: "P (first_some xs d)" if "P d" "\<And>x. Some x \<in> set xs \<Longrightarrow> P x" for P xs and d :: Packet
    using that by (induction xs d rule: first_some.induct) auto
  obtain x rd where "p = first_some (?rs x rd) pkt"
    using assms(1) by (auto simp: makeCXLResp_def Let_def split: if_splits)
  then show ?thesis
    using first[where P = "\<lambda>q. ptr q = ptr pkt \<and> ordinary q", of pkt "?rs x rd"]
      keeps[of _ x rd] assms(2) by blast
qed

lemma resp_cxl_keeps:
  assumes "resp_cxl pkt = Inr p" "ordinary pkt"
  shows "ptr p = ptr pkt \<and> ordinary p"
  using assms makeCXLResp_keeps[of pkt]
  by (auto simp: resp_cxl_def reciveCXL_def HA_makeCXLData_def upd_req_def ordinary_def
      unrouted_req_def split: if_splits option.splits)


section \<open>Preservation\<close>

text \<open>What the state of the slave ports and the routes do not matter for.\<close>

lemma queued_simps [simp]:
  "queued (b\<lparr> slaves := ss \<rparr>) = queued b" "queued (b\<lparr> routeTo := rt \<rparr>) = queued b"
  by (simp_all add: queued_def)

lemma expects_from_simps [simp]:
  "expects_from (b\<lparr> slaves := ss \<rparr>) = expects_from b"
  "expects_from (b\<lparr> masters := ms \<rparr>) = expects_from b"
  "expects_from (b\<lparr> routeTo := rt \<rparr>) = expects_from b"
  by (simp_all add: expects_from_def fun_eq_iff)

lemma pending_simps [simp]:
  "pending (b\<lparr> slaves := ss \<rparr>) g i = pending b g i"
  "pending (b\<lparr> routeTo := rt \<rparr>) g i = pending b g i"
  by (simp_all add: pending_def)

lemma routes_ok_slaves [simp]: "routes_ok (b\<lparr> slaves := ss \<rparr>) g = routes_ok b g"
  by (simp add: routes_ok_def)

text \<open>Time may pass, and the slave number of a request outside the queues may change.\<close>

lemma binv_now:
  assumes "binv b g" "g_now g \<le> t"
  shows "binv b (g\<lparr> g_now := t \<rparr>)"
  using assms q_ok_mono
  by (auto simp: binv_def master_inv_def slave_inv_def routes_ok_def pending_def)

lemma binv_slaveIDs:
  assumes "binv b g" "r \<notin> ptr ` fst ` set (queued b)"
  shows "binv (b\<lparr> pciBridgeSlaveIDs := (pciBridgeSlaveIDs b)(r := i) \<rparr>) g"
proof -
  let ?b = "b\<lparr> pciBridgeSlaveIDs := (pciBridgeSlaveIDs b)(r := i) \<rparr>"
  have q: "queued ?b = queued b"
    by (simp add: queued_def)
  have ids: "pciBridgeSlaveIDs ?b (ptr (fst d)) = pciBridgeSlaveIDs b (ptr (fst d))"
    if "d \<in> set (queued b)" for d
    using assms(2) that by auto
  have "filter (expects_from ?b k) (queued b) = filter (expects_from b k) (queued b)" for k
    using ids by (intro filter_cong) (auto simp: expects_from_def)
  then have "pending ?b g = pending b g"
    unfolding pending_def q by (intro ext) simp
  then show ?thesis
    using assms(1) ids unfolding binv_def routes_ok_def q by auto
qed

lemma binv_retryReq:
  assumes "binv b g" "i < 4" "queued b \<noteq> [] \<or> outstandingResponses (slaves b i) \<noteq> 0"
  shows "binv (upd_slave i (\<lambda>s. s\<lparr> retryReq := True \<rparr>) b) g"
  using assms unfolding binv_def by (auto simp: slave_inv_def)

lemma full_queue_not_empty:
  assumes "binv b g" "j < 4" "reqQueueFull (masters b j)"
  shows "queued b \<noteq> []"
proof -
  have "m_transmitList (masters b j) \<noteq> []"
    using assms by (auto simp: binv_def master_inv_def reqQueueFull_def word_less_nat_alt)
  moreover obtain xs ys where "\<forall>m. queued_of ((masters b)(j := m)) = xs @ m_transmitList m @ ys"
    using queued_split[OF assms(2)] by blast
  then have "queued b = xs @ m_transmitList (masters b j) @ ys"
    by (metis queued_def fun_upd_triv)
  ultimately show ?thesis
    by simp
qed

lemma u32_inc:
  assumes "(x :: u32) < y"
  shows "unat (x + 1) = unat x + 1 \<and> x + 1 \<le> y"
  using assms unsigned_less[where 'a = nat, of y]
  by (simp add: word_less_nat_alt word_le_nat_alt unat_word_ariths)

text \<open>A request enters the queue of a master port.\<close>

definition reserve :: "nat \<Rightarrow> bool \<Rightarrow> PciBridge \<Rightarrow> PciBridge" where
  "reserve i n b =
    (if n then upd_slave i (\<lambda>s. s\<lparr> outstandingResponses := outstandingResponses s + 1 \<rparr>) b else b)"

lemma binv_enqueue:
  assumes inv: "binv b g" and i: "i < 4" and j: "j < 4"
    and space: "\<not> reqQueueFull (masters b j)"
      "needsResponse (cmd p) \<Longrightarrow> \<not> respQueueFull (slaves b i)"
    and new: "ptr p \<notin> ptr ` fst ` set (queued b)" "routeTo b (ptr p) = None"
      "pciBridgeSlaveIDs b (ptr p) = i"
    and "now \<le> when"
  shows "\<exists>m. schedTimingReq now p when (masters (reserve i (needsResponse (cmd p)) b) j) = Inr m
    \<and> binv (upd_master j (\<lambda>_. m) (reserve i (needsResponse (cmd p)) b)) g"
proof -
  let ?n = "needsResponse (cmd p)"
  let ?m = "masters b j"
  have mi: "master_inv ?m (g_waitM g j) (g_now g)"
    using inv j by (simp add: binv_def)
  obtain ev where ev: "(if m_transmitList ?m = [] then sched now (m_sendEvent ?m) when
        else Inr (m_sendEvent ?m)) = Inr ev"
      and q: "q_ok (m_transmitList ?m @ [(p, when)]) ev (g_waitM g j) (g_now g)"
    using q_ok_append[of "m_transmitList ?m" "m_sendEvent ?m" "g_waitM g j" "g_now g" now "when" p]
      mi assms(9) unfolding master_inv_def by auto
  define m where "m = ?m\<lparr> m_sendEvent := ev, m_transmitList := m_transmitList ?m @ [(p, when)] \<rparr>"
  define b' where "b' = upd_master j (\<lambda>_. m) (reserve i ?n b)"
  have ms: "masters (reserve i ?n b) = masters b"
    by (simp add: reserve_def)
  have run: "schedTimingReq now p when (masters (reserve i ?n b) j) = Inr m"
    using space(1) ev unfolding ms schedTimingReq_def by (simp add: reqQueueFull_def m_def)
  obtain xs ys where split: "\<forall>m. queued_of ((masters b)(j := m)) = xs @ m_transmitList m @ ys"
    using queued_split[OF j] by blast
  have qb: "queued b = xs @ m_transmitList ?m @ ys"
    by (metis queued_def fun_upd_triv split)
  have qb': "queued b' = xs @ m_transmitList ?m @ (p, when) # ys"
    using split[rule_format, of m] by (simp add: queued_def b'_def ms m_def)
  have same: "routeTo b' = routeTo b" "pciBridgeSlaveIDs b' = pciBridgeSlaveIDs b"
    by (simp_all add: b'_def reserve_def)
  have routes: "routes_ok b' g"
    using inv new i unfolding binv_def routes_ok_def qb qb' same
    by (auto simp: qb image_iff)
  have pend: "pending b' g k = pending b g k + (if ?n \<and> k = i then 1 else 0)" for k
  proof -
    have "expects_from b' = expects_from b"
      by (simp add: b'_def reserve_def)
    moreover have "expects_from b k (p, when) \<longleftrightarrow> ?n \<and> k = i"
      using new(3) by (auto simp: expects_from_def)
    ultimately show ?thesis
      by (simp add: pending_def qb qb')
  qed
  have sb': "slaves b' = (if ?n then (slaves b)(i := (slaves b i)
      \<lparr> outstandingResponses := outstandingResponses (slaves b i) + 1 \<rparr>) else slaves b)"
    by (simp add: b'_def reserve_def)
  have "master_inv m (g_waitM g j) (g_now g)"
    using mi q space(1) by (auto simp: master_inv_def m_def reqQueueFull_def)
  moreover have "slave_inv (slaves b' k) (pending b' g k) (queued b' \<noteq> []) (g_waitS g k) (g_now g)"
    if "k < 4" for k
  proof -
    have si: "slave_inv (slaves b k) (pending b g k) (queued b \<noteq> []) (g_waitS g k) (g_now g)"
      using inv that by (simp add: binv_def)
    show ?thesis
    proof (cases "?n \<and> k = i")
      case True
      then have "outstandingResponses (slaves b i) < respQueueLimit (slaves b i)"
        using si space(2) by (auto simp: slave_inv_def respQueueFull_def)
      then have "unat (outstandingResponses (slaves b i) + 1)
          = unat (outstandingResponses (slaves b i)) + 1
          \<and> outstandingResponses (slaves b i) + 1 \<le> respQueueLimit (slaves b i)"
        by (rule u32_inc)
      then show ?thesis
        using True si sb' by (auto simp: slave_inv_def pend qb')
    next
      case False
      then show ?thesis
        using si sb' by (auto simp: slave_inv_def pend qb')
    qed
  qed
  ultimately have "binv b' g"
    using inv routes by (auto simp: binv_def b'_def ms)
  then show ?thesis
    using run unfolding b'_def by blast
qed


text \<open>The head of a master queue leaves it, is refused, or goes into flight.\<close>

lemma snd_retryStalledReq:
  "snd (retryStalledReq i c) = upd_slave i (\<lambda>s. s\<lparr> retryReq := False \<rparr>) c"
proof (cases "retryReq (slaves c i)")
  case False
  then have eq: "(slaves c i)\<lparr> retryReq := False \<rparr> = slaves c i"
    by (cases "slaves c i") simp
  have "upd_slave i (\<lambda>s. s\<lparr> retryReq := False \<rparr>) c = c"
    unfolding eq fun_upd_triv by (cases c) simp
  with False show ?thesis
    by (simp add: retryStalledReq_def)
qed (simp add: retryStalledReq_def)

lemma snd_retry_all:
  "snd (retry_all [0, 1, 2, 3] b) =
    b\<lparr> slaves := (\<lambda>i. if i < 4 then (slaves b i)\<lparr> retryReq := False \<rparr> else slaves b i) \<rparr>"
proof -
  have "snd (retry_all (i # ks) c) = snd (retry_all ks (snd (retryStalledReq i c)))" for i ks c
    by (simp add: Let_def split: prod.split)
  then have "snd (retry_all [0, 1, 2, 3] b) =
      b\<lparr> slaves := (slaves b)(0 := (slaves b 0)\<lparr> retryReq := False \<rparr>,
        1 := (slaves b 1)\<lparr> retryReq := False \<rparr>, 2 := (slaves b 2)\<lparr> retryReq := False \<rparr>,
        3 := (slaves b 3)\<lparr> retryReq := False \<rparr>) \<rparr>"
    by (simp add: snd_retryStalledReq del: retry_all.simps(2))
  also have "\<dots> = b\<lparr> slaves :=
      (\<lambda>i. if i < 4 then (slaves b i)\<lparr> retryReq := False \<rparr> else slaves b i) \<rparr>"
    by (rule arg_cong[where f = "\<lambda>ss. b\<lparr> slaves := ss \<rparr>"])
      (auto simp: fun_eq_iff dest!: less_4_cases)
  finally show ?thesis .
qed

lemma master_send:
  assumes inv: "binv b g" and clk: "clock_ok clk g" and j: "j < 4"
    and ne: "m_transmitList (masters b j) \<noteq> []"
    and due: "snd (hd (m_transmitList (masters b j))) \<le> b_now clk"
    and ans: "good_answer b j ans"
  shows "\<exists>rs b'. master_trySendTiming clk j ans
      (upd_master j (\<lambda>m. m\<lparr> m_sendEvent := None \<rparr>) b) = Inr (rs, b')
    \<and> binv b' (sent b j ans (g\<lparr> g_now := b_now clk \<rparr>))"
proof -
  define b0 where "b0 = upd_master j (\<lambda>m. m\<lparr> m_sendEvent := None \<rparr>) b"
  define g0 where "g0 = g\<lparr> g_now := b_now clk \<rparr>"
  let ?q = "m_transmitList (masters b j)"
  have inv0: "binv b g0"
    using binv_now[OF inv] clk by (simp add: clock_ok_def g0_def)
  have q0: "queued b0 = queued b"
    by (simp add: b0_def queued_def queued_of_same)
  show ?thesis
  proof (cases ans)
    case None
    have "binv b0 (g0\<lparr> g_waitM := (g_waitM g0)(j := True) \<rparr>)"
    proof -
      have "master_inv (masters b0 j) True (g_now g0)"
        using inv0 j ne due by (simp add: binv_def master_inv_def q_ok_def b0_def g0_def)
      moreover have "pending b0 (g0\<lparr> g_waitM := w \<rparr>) k = pending b g0 k" for w k
        using q0 by (simp add: pending_def b0_def)
      moreover have "routes_ok b0 (g0\<lparr> g_waitM := w \<rparr>) = routes_ok b g0" for w
        using q0 by (simp add: routes_ok_def b0_def)
      ultimately show ?thesis
        using inv0 q0 by (auto simp: binv_def b0_def)
    qed
    then show ?thesis
      using None ne due
      by (simp add: master_trySendTiming_def sent_def b0_def g0_def)
  next
    case (Some p)
    define h where "h = head_request b j"
    have ph: "ptr p = ptr h" and ord: "ordinary p"
      using ans Some by (auto simp: good_answer_def h_def)
    obtain ev where pop: "pop_queue clk ?q None = Inr (tl ?q, ev)"
        and qok: "q_ok (tl ?q) ev False (b_now clk)"
      using pop_queue_ok[OF ne] clk unfolding clock_ok_def by blast
    obtain xs ys where split: "\<forall>m. queued_of ((masters b)(j := m)) = xs @ m_transmitList m @ ys"
      using queued_split[OF j] by blast
    have hq: "?q = (h, snd (hd ?q)) # tl ?q"
      using ne by (cases ?q) (auto simp: h_def head_request_def)
    have qb: "queued b = xs @ (h, snd (hd ?q)) # tl ?q @ ys"
      using split hq by (metis queued_def fun_upd_triv append_Cons)
    have route: "routeTo b (ptr h) = None" and sid: "pciBridgeSlaveIDs b (ptr h) < 4"
      using inv by (auto simp: binv_def routes_ok_def qb)
    define b1 where "b1 = b\<lparr> routeTo := (routeTo b)(ptr h \<mapsto> pciBridgeSlaveIDs b (ptr h)),
      masters := (masters b)(j := (masters b j)\<lparr> m_transmitList := tl ?q, m_sendEvent := ev \<rparr>) \<rparr>"
    define b2 where "b2 = snd (retry_all [0, 1, 2, 3] b1)"
    have run: "\<exists>rs. master_trySendTiming clk j ans b0 = Inr (rs, b2)"
      using Some ne due pop route ord ph
      by (auto simp: master_trySendTiming_def b0_def b2_def b1_def ordinary_def Let_def
          simp del: retry_all.simps intro!: exI[of _ "fst (retry_all [0, 1, 2, 3] b1)"])
    let ?g = "sent b j ans g0"
    have g: "g_flight ?g = (if needsResponse (cmd h)
          then (ptr h, pciBridgeSlaveIDs b (ptr h)) # g_flight g else g_flight g)"
        "g_waitM ?g = (g_waitM g)(j := False)" "g_waitS ?g = g_waitS g" "g_now ?g = b_now clk"
      using Some by (simp_all add: sent_def g0_def h_def Let_def)
    have b2: "masters b2 = masters b1" "routeTo b2 = routeTo b1"
        "pciBridgeSlaveIDs b2 = pciBridgeSlaveIDs b"
        "slaves b2 = (\<lambda>i. if i < 4 then (slaves b i)\<lparr> retryReq := False \<rparr> else slaves b i)"
      unfolding b2_def snd_retry_all by (simp_all add: b1_def cong: if_cong)
    have qb2: "queued b2 = xs @ tl ?q @ ys"
      using split by (simp add: queued_def b2 b1_def)
    have pend: "pending b2 ?g k = pending b g0 k" for k
    proof -
      have "expects_from b2 = expects_from b"
        by (simp add: expects_from_def fun_eq_iff b2)
      moreover have "expects_from b k (h, snd (hd ?q))
          \<longleftrightarrow> needsResponse (cmd h) \<and> pciBridgeSlaveIDs b (ptr h) = k"
        by (simp add: expects_from_def)
      ultimately show ?thesis
        unfolding pending_def qb qb2 g by (simp add: g0_def)
    qed
    have flight: "ptr h \<notin> fst ` set (g_flight g)"
      using inv route by (auto simp: binv_def routes_ok_def)
    have "routes_ok b2 ?g"
      using inv flight sid unfolding binv_def routes_ok_def qb qb2 b2 g
      by (auto simp: b1_def image_iff)
    moreover have "master_inv (masters b2 k) (g_waitM ?g k) (g_now ?g)" if "k < 4" for k
      using inv0 that qok unfolding g by (auto simp: binv_def master_inv_def b2 b1_def g0_def)
    moreover have "slave_inv (slaves b2 k) (pending b2 ?g k) (queued b2 \<noteq> []) (g_waitS ?g k)
        (g_now ?g)" if "k < 4" for k
      using inv0 that unfolding pend g by (auto simp: binv_def slave_inv_def b2 g0_def)
    ultimately have "binv b2 ?g"
      by (simp add: binv_def)
    then show ?thesis
      using run by (auto simp: b0_def g0_def)
  qed
qed


text \<open>A response of a request in flight enters the queue of the port the request came from.\<close>

lemma resp_port_ok:
  assumes "routeTo b (ptr pkt) = Some i" "ordinary pkt" "ok (getSize pkt)"
  shows "\<exists>n. resp_port b j pkt = Inr (i, upd_master j (\<lambda>m. m\<lparr> totalCount := n \<rparr>) b)"
proof -
  have "upd_master j (\<lambda>m. m\<lparr> totalCount := totalCount (masters b j) \<rparr>) b = b"
    by simp
  then show ?thesis
    using assms by (auto simp: resp_port_def ordinary_def unrouted_req_def unrouted_resp_def
        ok_def intro: exI[of _ "totalCount (masters b j)"])
qed

lemma filter_flight:
  assumes "distinct (map fst fl)" "(r, s) \<in> set fl"
  shows "length (filter (\<lambda>(r', s'). s' = k) fl)
    = length (filter (\<lambda>(r', s'). s' = k) (filter (\<lambda>(r', _). r' \<noteq> r) fl)) + (if k = s then 1 else 0)"
  using assms
proof (induction fl)
  case (Cons x fl)
  show ?case
  proof (cases "x = (r, s)")
    case True
    then have "filter (\<lambda>(r', _). r' \<noteq> r) fl = fl"
      using Cons.prems by (auto simp: filter_id_conv image_iff)
    with True show ?thesis
      by simp
  next
    case False
    with Cons.prems have "fst x \<noteq> r" "(r, s) \<in> set fl"
      by (auto simp: image_iff)
    with Cons show ?thesis
      by (auto split: prod.splits)
  qed
qed simp

lemma recv_response:
  assumes inv: "binv b g" and al: "allowed tc clk (Recv_resp j pkt) b g"
  shows "\<exists>b'. master_recvTimingResp clk j pkt b = Inr b'
    \<and> binv b' (record_act clk (Recv_resp j pkt) b g)"
proof -
  have clk: "clock_ok clk g" and ord: "ordinary pkt" and sz: "ok (getSize pkt)"
    using al by auto
  obtain i where fl: "(ptr pkt, i) \<in> set (g_flight g)"
    using al by auto
  then have route: "routeTo b (ptr pkt) = Some i" and i: "i < 4"
    using inv by (fastforce simp: binv_def routes_ok_def)+
  obtain p where p: "resp_cxl pkt = Inr p"
    using al by (auto simp: ok_def)
  have pk: "ordinary p"
    using resp_cxl_keeps[OF p ord] by simp
  obtain n where port: "resp_port b j pkt = Inr (i, upd_master j (\<lambda>m. m\<lparr> totalCount := n \<rparr>) b)"
    using resp_port_ok[OF route ord sz] by blast
  let ?s = "slaves b i" and ?w = "b_edge_delay clk + receive_delay p"
  define g0 where "g0 = g\<lparr> g_now := b_now clk \<rparr>"
  have inv0: "binv b g0"
    using binv_now[OF inv] clk by (simp add: clock_ok_def g0_def)
  have si: "slave_inv ?s (pending b g0 i) (queued b \<noteq> []) (g_waitS g i) (b_now clk)"
    using inv0 i by (auto simp: binv_def g0_def)
  obtain ev where ev: "(if s_transmitList ?s = [] then sched (b_now clk) (s_sendEvent ?s) ?w
        else Inr (s_sendEvent ?s)) = Inr ev"
      and q: "q_ok (s_transmitList ?s @ [(clear_delays p, ?w)]) ev (g_waitS g i) (b_now clk)"
    using q_ok_append[of "s_transmitList ?s" "s_sendEvent ?s" "g_waitS g i" "b_now clk" "b_now clk"
        ?w "clear_delays p"] si clock_when[OF clk] unfolding slave_inv_def by auto
  define s where "s = ?s\<lparr> s_sendEvent := ev,
    s_transmitList := s_transmitList ?s @ [(clear_delays p, ?w)] \<rparr>"
  define b' where "b' = b\<lparr> slaves := (slaves b)(i := s),
    masters := (masters b)(j := (masters b j)\<lparr> totalCount := n \<rparr>),
    routeTo := (routeTo b)(ptr pkt := None) \<rparr>"
  have run: "master_recvTimingResp clk j pkt b = Inr b'"
    using port p ev pk route
    by (auto simp: master_recvTimingResp_def schedTimingResp_def s_def b'_def ordinary_def
        unrouted_req_def unrouted_resp_def)
  let ?g = "record_act clk (Recv_resp j pkt) b g"
  have qb': "queued b' = queued b" and ef: "expects_from b' = expects_from b"
    by (simp_all add: b'_def queued_def queued_of_same)
  have pend: "pending b g0 k = pending b' ?g k + (if k = i then 1 else 0)" for k
    using filter_flight[OF _ fl, of k] inv
    by (simp add: pending_def qb' ef g0_def binv_def routes_ok_def)
  have "routes_ok b' ?g"
    using inv unfolding binv_def routes_ok_def qb'
    by (auto simp: b'_def distinct_map_filter)
  moreover have "master_inv (masters b' k) (g_waitM ?g k) (g_now ?g)" if "k < 4" for k
    using inv0 that by (auto simp: binv_def master_inv_def b'_def g0_def)
  moreover have "slave_inv (slaves b' k) (pending b' ?g k) (queued b' \<noteq> []) (g_waitS ?g k)
      (g_now ?g)" if "k < 4" for k
  proof (cases "k = i")
    case True
    then show ?thesis
      using si q pend[of i] by (auto simp: slave_inv_def b'_def s_def qb'[unfolded b'_def])
  next
    case False
    then have "pending b' ?g k = pending b g0 k" "slaves b' k = slaves b k"
      using pend[of k] by (simp_all add: b'_def)
    then show ?thesis
      using inv0 that qb' by (simp add: binv_def g0_def)
  qed
  ultimately have "binv b' ?g"
    by (simp add: binv_def)
  with run show ?thesis
    by blast
qed


text \<open>The head of a response queue leaves it or is refused.\<close>

lemma u32_dec: "(x :: u32) \<noteq> 0 \<Longrightarrow> unat (x - 1) = unat x - 1 \<and> x - 1 \<le> x"
  by (simp add: unat_minus_one word_le_nat_alt)

lemma slave_send:
  assumes inv: "binv b g" and clk: "clock_ok clk g" and i: "i < 4"
    and ne: "s_transmitList (slaves b i) \<noteq> []"
    and due: "snd (hd (s_transmitList (slaves b i))) \<le> b_now clk"
  shows "\<exists>rs b'. slave_trySendTiming clk i acc
      (upd_slave i (\<lambda>s. s\<lparr> s_sendEvent := None \<rparr>) b) = Inr (rs, b')
    \<and> binv b' (g\<lparr> g_now := b_now clk, g_waitS := (g_waitS g)(i := \<not> acc) \<rparr>)"
proof -
  let ?s = "slaves b i" and ?g = "g\<lparr> g_now := b_now clk, g_waitS := (g_waitS g)(i := \<not> acc) \<rparr>"
  define g0 where "g0 = g\<lparr> g_now := b_now clk \<rparr>"
  have inv0: "binv b g0"
    using binv_now[OF inv] clk by (simp add: clock_ok_def g0_def)
  have si: "slave_inv ?s (pending b g0 i) (queued b \<noteq> []) (g_waitS g i) (b_now clk)"
    using inv0 i by (auto simp: binv_def g0_def)
  have keep: "binv (b\<lparr> slaves := (slaves b)(i := s) \<rparr>) ?g"
    if "slave_inv s (pending b g0 i) (queued b \<noteq> []) (\<not> acc) (b_now clk)" for s
    using inv0 that by (auto simp: binv_def g0_def routes_ok_def pending_def)
  show ?thesis
  proof (cases acc)
    case False
    then have "slave_inv (?s\<lparr> s_sendEvent := None \<rparr>) (pending b g0 i) (queued b \<noteq> []) (\<not> acc)
        (b_now clk)"
      using si ne due by (simp add: slave_inv_def q_ok_def)
    from keep[OF this] show ?thesis
      using False ne due by (simp add: slave_trySendTiming_def)
  next
    case True
    obtain ev where pop: "pop_queue clk (s_transmitList ?s) None = Inr (tl (s_transmitList ?s), ev)"
        and q: "q_ok (tl (s_transmitList ?s)) ev False (b_now clk)"
      using pop_queue_ok[OF ne] clk unfolding clock_ok_def by blast
    define s where "s = ?s\<lparr> s_transmitList := tl (s_transmitList ?s),
      outstandingResponses := outstandingResponses ?s - 1, s_sendEvent := ev, retryReq := False \<rparr>"
    have nz: "outstandingResponses ?s \<noteq> 0"
      using si ne by (auto simp: slave_inv_def)
    have "slave_inv s (pending b g0 i) (queued b \<noteq> []) (\<not> acc) (b_now clk)"
      using si ne q True u32_dec[OF nz] unfolding slave_inv_def s_def
      by (auto simp: neq_Nil_conv intro: order.trans)
    note keep[OF this]
    moreover have "slave_trySendTiming clk i acc
        (upd_slave i (\<lambda>s. s\<lparr> s_sendEvent := None \<rparr>) b) = Inr (retryStalledReq i
          (b\<lparr> slaves := (slaves b)(i := ?s\<lparr> s_transmitList := tl (s_transmitList ?s),
            outstandingResponses := outstandingResponses ?s - 1, s_sendEvent := ev \<rparr>) \<rparr>))"
      using True ne due nz pop by (simp add: slave_trySendTiming_def Let_def)
    moreover have "snd (retryStalledReq i
          (b\<lparr> slaves := (slaves b)(i := ?s\<lparr> s_transmitList := tl (s_transmitList ?s),
            outstandingResponses := outstandingResponses ?s - 1, s_sendEvent := ev \<rparr>) \<rparr>))
        = b\<lparr> slaves := (slaves b)(i := s) \<rparr>"
      by (simp add: snd_retryStalledReq s_def)
    ultimately show ?thesis
      by (metis prod.collapse)
  qed
qed

text \<open>A request is accepted or refused.\<close>

lemma recv_request:
  assumes inv: "binv b g" and al: "allowed tc clk (Recv_req i pkt) b g"
  shows "\<exists>acc p b'. slave_recvTimingReq tc clk i pkt b = Inr (acc, p, b')
    \<and> binv b' (g\<lparr> g_now := b_now clk \<rparr>)"
proof -
  have clk: "clock_ok clk g" and i: "i < 4" and ord: "ordinary pkt"
    and new: "ptr pkt \<notin> ptr ` fst ` set (queued b)" "routeTo b (ptr pkt) = None"
    and cr: "\<not> cacheResponding pkt"
    using al by auto
  obtain a p j where a: "getAddr pkt = Inr a" and tr: "translate_req tc b i a pkt = Inr (p, j)"
    using al by (auto simp: ok_def)
  have p: "ptr p = ptr pkt" and j: "j < 4"
    using translate_keeps[OF tr ord] by auto
  define g0 where "g0 = g\<lparr> g_now := b_now clk \<rparr>"
  define b1 where "b1 = b\<lparr> pciBridgeSlaveIDs := (pciBridgeSlaveIDs b)(ptr pkt := i) \<rparr>"
  have b1: "queued b1 = queued b" "routeTo b1 = routeTo b" "slaves b1 = slaves b"
      "masters b1 = masters b" "pciBridgeSlaveIDs b1 (ptr pkt) = i"
      "translate_req tc b1 i a pkt = Inr (p, j)"
    using tr by (simp_all add: b1_def queued_def translate_req_def)
  have "binv b g0"
    using binv_now[OF inv] clk by (simp add: clock_ok_def g0_def)
  then have inv1: "binv b1 g0"
    unfolding b1_def using new(1) by (rule binv_slaveIDs)
  consider (stalled) "retryReq (slaves b i)"
    | (full) "\<not> retryReq (slaves b i)"
        "reqQueueFull (masters b j) \<or> needsResponse (cmd p) \<and> respQueueFull (slaves b i)"
    | (space) "\<not> retryReq (slaves b i)" "\<not> reqQueueFull (masters b j)"
        "needsResponse (cmd p) \<longrightarrow> \<not> respQueueFull (slaves b i)"
    by blast
  then show ?thesis
  proof cases
    case stalled
    then have "slave_recvTimingReq tc clk i pkt b = Inr (False, pkt, b1)"
      using a cr by (simp add: slave_recvTimingReq_def Let_def b1_def)
    then show ?thesis
      using inv1 by (auto simp: g0_def)
  next
    case full
    let ?b = "upd_slave i (\<lambda>s. s\<lparr> retryReq := True \<rparr>) b1"
    have "slave_recvTimingReq tc clk i pkt b = Inr (False, p, ?b)"
      using a cr full b1(6)
      by (auto simp: slave_recvTimingReq_def Let_def b1_def)
    moreover have "queued b1 \<noteq> [] \<or> outstandingResponses (slaves b1 i) \<noteq> 0"
      using full full_queue_not_empty[OF inv1 j] inv1 i b1
      by (auto simp: respQueueFull_def binv_def slave_inv_def)
    ultimately show ?thesis
      using binv_retryReq[OF inv1 i] by (auto simp: g0_def)
  next
    case space
    let ?c = "clear_delays p" and ?w = "b_edge_delay clk + receive_delay p"
    have c: "ptr ?c = ptr pkt" "cmd ?c = cmd p"
      using p by (simp_all add: clear_delays_def)
    obtain m where m: "schedTimingReq (b_now clk) ?c ?w
          (masters (reserve i (needsResponse (cmd p)) b1) j) = Inr m"
        and ok: "binv (upd_master j (\<lambda>_. m) (reserve i (needsResponse (cmd p)) b1)) g0"
      using binv_enqueue[OF inv1 i j, of ?c "b_now clk" ?w] space new b1 c clock_when[OF clk]
      by auto
    have "slave_recvTimingReq tc clk i pkt b
        = Inr (True, ?c, upd_master j (\<lambda>_. m) (reserve i (needsResponse (cmd p)) b1))"
      using a cr space b1(6) m
      by (auto simp: slave_recvTimingReq_def Let_def b1_def reserve_def)
    then show ?thesis
      using ok by (auto simp: g0_def)
  qed
qed

section \<open>Reachable states\<close>

lemma binv_new:
  assumes "0 < req_size" "0 < resp_size"
  shows "binv (new_PciBridge req_size resp_size cs pr sw tr) new_history"
  using assms
  by (simp add: binv_def new_PciBridge_def new_history_def master_inv_def slave_inv_def q_ok_def
      new_BridgeMaster_def new_BridgeSlave_def routes_ok_def pending_def queued_def queued_of_def)

lemma step_ok:
  assumes inv: "binv b g" and al: "allowed tc clk act b g"
  shows "\<exists>acc rs b'. bridge_step tc clk act b = Inr (acc, rs, b')
    \<and> binv b' (record_act clk act b g)"
proof (cases act)
  case (Recv_req i pkt)
  then show ?thesis
    using recv_request[OF inv, of tc clk i pkt] al by fastforce
next
  case (Recv_resp j pkt)
  then show ?thesis
    using recv_response[OF inv, of tc clk j pkt] al by fastforce
next
  case (Master_event j ans)
  then have "m_transmitList (masters b j) \<noteq> []
      \<and> snd (hd (m_transmitList (masters b j))) \<le> b_now clk"
    using inv al by (auto simp: binv_def master_inv_def q_ok_def split: if_splits)
  then show ?thesis
    using master_send[OF inv, of clk j ans] al Master_event by (fastforce simp: fire_def)
next
  case (Master_retry j ans)
  then have "m_transmitList (masters b j) \<noteq> [] \<and> m_sendEvent (masters b j) = None
      \<and> snd (hd (m_transmitList (masters b j))) \<le> b_now clk"
    using inv al by (auto simp: binv_def master_inv_def q_ok_def clock_ok_def
        split: if_splits option.splits)
  moreover from this have "upd_master j (\<lambda>m. m\<lparr> m_sendEvent := None \<rparr>) b = b"
    by (cases b) (metis BridgeMaster.surjective BridgeMaster.update_convs(3) fun_upd_triv
        PciBridge.select_convs(2) PciBridge.update_convs(2))
  ultimately show ?thesis
    using master_send[OF inv, of clk j ans] al Master_retry by fastforce
next
  case (Slave_event i acc)
  then have "s_transmitList (slaves b i) \<noteq> [] \<and> snd (hd (s_transmitList (slaves b i))) \<le> b_now clk"
    using inv al by (auto simp: binv_def slave_inv_def q_ok_def split: if_splits)
  then show ?thesis
    using slave_send[OF inv, of clk i acc] al Slave_event by (fastforce simp: fire_def)
next
  case (Slave_retry i acc)
  then have "s_transmitList (slaves b i) \<noteq> [] \<and> s_sendEvent (slaves b i) = None
      \<and> snd (hd (s_transmitList (slaves b i))) \<le> b_now clk"
    using inv al by (auto simp: binv_def slave_inv_def q_ok_def clock_ok_def
        split: if_splits option.splits)
  moreover from this have "upd_slave i (\<lambda>s. s\<lparr> s_sendEvent := None \<rparr>) b = b"
    by (cases b) (metis BridgeSlave.surjective BridgeSlave.update_convs(5) fun_upd_triv
        PciBridge.select_convs(1) PciBridge.update_convs(1))
  ultimately show ?thesis
    using slave_send[OF inv, of clk i acc] al Slave_retry by fastforce
qed

lemma reachable_binv: "reachable tc b g \<Longrightarrow> binv b g"
proof (induction rule: reachable.induct)
  case (reach_step b g clk act acc rs b')
  then show ?case
    using step_ok[of b g tc clk act] by fastforce
qed (rule binv_new)


section \<open>What a step does to the ports\<close>

lemma fst_retry_all:
  "fst (retry_all [0, 1, 2, 3] b) = filter (\<lambda>i. retryReq (slaves b i)) [0, 1, 2, 3]"
  by (simp add: retryStalledReq_def Let_def)

text \<open>After a request has been sent every stalled port is told to retry.\<close>

lemma master_send_retries:
  assumes "master_trySendTiming clk j (Some p) b = Inr (rs, b')"
  shows "rs = filter (\<lambda>i. retryReq (slaves b i)) [0, 1, 2, 3] \<and> (\<forall>i<4. \<not> retryReq (slaves b' i))"
proof -
  have "\<exists>b2. retry_all [0, 1, 2, 3] b2 = (rs, b') \<and> slaves b2 = slaves b"
    using assms
    by (auto simp: master_trySendTiming_def Let_def simp del: retry_all.simps split: if_splits)
  then obtain b2 where b2: "slaves b2 = slaves b" and r: "retry_all [0, 1, 2, 3] b2 = (rs, b')"
    by blast
  then have "rs = fst (retry_all [0, 1, 2, 3] b2)" "b' = snd (retry_all [0, 1, 2, 3] b2)"
    by simp_all
  then show ?thesis
    unfolding fst_retry_all snd_retry_all using b2 by simp
qed

text \<open>A response goes to the port its route names and to no other.\<close>

lemma response_port:
  assumes "master_recvTimingResp clk j pkt b = Inr b'" "routeTo b (ptr pkt) = Some i" "ordinary pkt"
  shows "(\<exists>d. s_transmitList (slaves b' i) = s_transmitList (slaves b i) @ [d]
      \<and> ptr (fst d) = ptr pkt) \<and> (\<forall>k. k \<noteq> i \<longrightarrow> slaves b' k = slaves b k)"
proof -
  obtain k b1 p s where port: "resp_port b j pkt = Inr (k, b1)" and p: "resp_cxl pkt = Inr p"
      and s: "schedTimingResp (b_now clk) (clear_delays p) (b_edge_delay clk + receive_delay p)
        (slaves b1 k) = Inr s"
      and b': "slaves b' = (slaves b1)(k := s)"
    using assms(1)
    by (auto simp: master_recvTimingResp_def Let_def simp del: fun_upd_apply split: if_splits)
  have "k = i \<and> slaves b1 = slaves b"
    using port assms(2,3)
    by (auto simp: resp_port_def ordinary_def unrouted_req_def unrouted_resp_def split: if_splits)
  then have s: "schedTimingResp (b_now clk) (clear_delays p) (b_edge_delay clk + receive_delay p)
        (slaves b i) = Inr s" and b': "slaves b' = (slaves b)(i := s)"
    using s b' by auto
  have "ptr (clear_delays p) = ptr pkt"
    using resp_cxl_keeps[OF p assms(3)] by (simp add: clear_delays_def)
  with s b' show ?thesis
    by (auto simp: schedTimingResp_def)
qed


section \<open>Properties\<close>

definition sample_clock :: "u64 \<Rightarrow> bridge_clock" where
  "sample_clock t = \<lparr> b_now = t, b_edge = t, b_edge_delay = t + 1000 \<rparr>"

definition sample_bridge :: PciBridge where
  "sample_bridge = new_PciBridge 16 16 (sample_ports(2 := projr (run_writes
      [(0x9FF08000, sample_write 0x20 4)] (sample_ports 2)))) (\<lambda>_. []) 0 0"

definition sample_read :: Packet where
  "sample_read =
    Packet_new (sample_request\<lparr> r_paddr := Some 0x80001000, r_size := Some 64 \<rparr>) ReadReq"

definition after_read :: PciBridge where
  "after_read = snd (snd (projr (bridge_step home_agent_cases (sample_clock 500)
    (Recv_req 0 sample_read) sample_bridge)))"

lemma sample_clock_ok: "clock_ok (sample_clock 500) new_history"
  by (simp add: clock_ok_def sample_clock_def new_history_def)

lemma sample_read_allowed:
  "allowed home_agent_cases (sample_clock 500) (Recv_req 0 sample_read) sample_bridge new_history"
proof -
  have "getAddr sample_read = Inr 0x80001000"
    by code_simp
  moreover have "\<not> isl (translate_req home_agent_cases sample_bridge 0 0x80001000 sample_read)"
    by code_simp
  then have "ok (translate_req home_agent_cases sample_bridge 0 0x80001000 sample_read)"
    by (cases "translate_req home_agent_cases sample_bridge 0 0x80001000 sample_read") auto
  moreover have "ordinary sample_read" "\<not> cacheResponding sample_read"
    by code_simp+
  moreover have "queued sample_bridge = []" "routeTo sample_bridge (ptr sample_read) = None"
    by (simp_all add: sample_bridge_def new_PciBridge_def queued_def queued_of_def
        new_BridgeMaster_def)
  ultimately show ?thesis
    using sample_clock_ok by simp
qed

lemma sample_reachable: "reachable home_agent_cases sample_bridge new_history"
  unfolding sample_bridge_def by (rule reach_new) simp_all

text \<open>C18: In every state that ordinary traffic reaches, no request queue of the bridge is longer than
  its limit, and no slave port has promised more responses than its limit allows. A port's count
  of outstanding responses is exactly the number of its responses waiting to be sent, of its
  requests waiting in the bridge, and of its requests that were sent and not yet answered; so
  there is always room for a response. A port that refused a request still has something in the
  bridge whose departure makes it send the retry.\<close>

theorem bridge_queue_bounds:
  assumes "reachable tc b g"
  shows "(\<forall>j<4. length (m_transmitList (masters b j)) \<le> unat (reqQueueLimit (masters b j)))
    \<and> (\<forall>i<4. outstandingResponses (slaves b i) \<le> respQueueLimit (slaves b i)
        \<and> unat (outstandingResponses (slaves b i))
          = length (s_transmitList (slaves b i)) + pending b g i
        \<and> (retryReq (slaves b i) \<longrightarrow> queued b \<noteq> [] \<or> outstandingResponses (slaves b i) \<noteq> 0))"
  using reachable_binv[OF assms] by (simp add: binv_def master_inv_def slave_inv_def)

theorem bridge_queue_bounds_witness:
  "reachable home_agent_cases after_read (new_history\<lparr> g_now := 500 \<rparr>)
    \<and> unat (outstandingResponses (slaves after_read 0))
      = length (s_transmitList (slaves after_read 0))
        + pending after_read (new_history\<lparr> g_now := 500 \<rparr>) 0
    \<and> outstandingResponses (slaves after_read 0) = 1"
proof -
  obtain acc rs b' where st: "bridge_step home_agent_cases (sample_clock 500)
      (Recv_req 0 sample_read) sample_bridge = Inr (acc, rs, b')"
    using step_ok[OF reachable_binv[OF sample_reachable] sample_read_allowed] by blast
  then have b': "b' = after_read"
    by (simp del: bridge_step.simps add: after_read_def)
  have r: "reachable home_agent_cases after_read (new_history\<lparr> g_now := 500 \<rparr>)"
    using reach_step[OF sample_reachable sample_read_allowed st]
    by (simp add: b' sample_clock_def)
  have "outstandingResponses (slaves after_read 0) = 1"
    by code_simp
  moreover have "unat (outstandingResponses (slaves after_read 0))
      = length (s_transmitList (slaves after_read 0))
        + pending after_read (new_history\<lparr> g_now := 500 \<rparr>) 0"
    using bridge_queue_bounds[OF r] by (metis zero_less_numeral)
  ultimately show ?thesis
    using r by blast
qed

text \<open>C19: Ordinary traffic never makes the bridge fail: whatever the peers do within the port
  protocol in a reachable state, the handler completes without a failing assertion or an undefined
  lookup. A response is queued at the slave port its request came in by and changes no other
  slave port. When a request leaves the bridge, exactly the stalled ports are told to retry, and
  none stays stalled.\<close>

theorem bridge_steps_never_fail:
  assumes "reachable tc b g" "allowed tc clk act b g"
  shows "\<exists>acc rs b'. bridge_step tc clk act b = Inr (acc, rs, b')
    \<and> (\<forall>j pkt i. act = Recv_resp j pkt \<and> (ptr pkt, i) \<in> set (g_flight g) \<longrightarrow>
        (\<exists>d. s_transmitList (slaves b' i) = s_transmitList (slaves b i) @ [d]
          \<and> ptr (fst d) = ptr pkt) \<and> (\<forall>k. k \<noteq> i \<longrightarrow> slaves b' k = slaves b k))
    \<and> (\<forall>j p. act = Master_event j (Some p) \<or> act = Master_retry j (Some p) \<longrightarrow>
        rs = filter (\<lambda>i. retryReq (slaves b i)) [0, 1, 2, 3]
        \<and> (\<forall>i<4. \<not> retryReq (slaves b' i)))"
proof -
  have inv: "binv b g"
    by (rule reachable_binv[OF assms(1)])
  obtain acc rs b' where st: "bridge_step tc clk act b = Inr (acc, rs, b')"
    using step_ok[OF inv assms(2)] by blast
  have "(\<exists>d. s_transmitList (slaves b' i) = s_transmitList (slaves b i) @ [d]
      \<and> ptr (fst d) = ptr pkt) \<and> (\<forall>k. k \<noteq> i \<longrightarrow> slaves b' k = slaves b k)"
    if act: "act = Recv_resp j pkt" and fl: "(ptr pkt, i) \<in> set (g_flight g)" for j pkt i
  proof (rule response_port)
    show "master_recvTimingResp clk j pkt b = Inr b'"
      using st act by auto
    show "routeTo b (ptr pkt) = Some i"
      using inv fl by (fastforce simp: binv_def routes_ok_def)
    show "ordinary pkt"
      using assms(2) act by simp
  qed
  moreover have "rs = filter (\<lambda>i. retryReq (slaves b i)) [0, 1, 2, 3]
      \<and> (\<forall>i<4. \<not> retryReq (slaves b' i))"
    if "act = Master_event j (Some p) \<or> act = Master_retry j (Some p)" for j p
    using st that master_send_retries[of clk j p b rs b']
      master_send_retries[of clk j p "upd_master j (\<lambda>m. m\<lparr> m_sendEvent := None \<rparr>) b" rs b']
    by (auto simp del: filter.simps)
  ultimately show ?thesis
    using st by blast
qed

theorem bridge_steps_never_fail_witness:
  "\<exists>acc rs b'. bridge_step home_agent_cases (sample_clock 500) (Recv_req 0 sample_read)
      sample_bridge = Inr (acc, rs, b') \<and> length (m_transmitList (masters b' 2)) = 1"
proof -
  obtain acc rs b' where st: "bridge_step home_agent_cases (sample_clock 500)
      (Recv_req 0 sample_read) sample_bridge = Inr (acc, rs, b')"
    using bridge_steps_never_fail[OF sample_reachable sample_read_allowed] by blast
  then have "b' = after_read"
    by (simp del: bridge_step.simps add: after_read_def)
  moreover have "length (m_transmitList (masters after_read 2)) = 1"
    by code_simp
  ultimately show ?thesis
    using st by blast
qed

end
