(* ===== verification/RangeMap.thy ===== *)
theory RangeMap
  imports AddrRanges
begin

text \<open>
  The contract of a map from address ranges to values, as the crossbars use it for address
  decoding: a range is looked up in the entry it fits, and an entry is inserted when it overlaps
  no other. A lookup may change the map, for instance an internal cache, but never what it
  stores. That the cache is invisible is proved once from the contract. The map keeps the
  contract of lookups for plain and for interleaved entries, and the contract of insertions for
  plain entries and for the members of an interleaved group.
\<close>

definition proper :: "AddrRange \<Rightarrow> bool" where
  "proper r = (plain r \<and> rstart r < rend r)"

definition overlaps :: "AddrRange \<Rightarrow> AddrRange \<Rightarrow> bool" where
  "overlaps r e = (rstart r < rend e \<and> rstart e < rend r)"

definition within :: "AddrRange \<Rightarrow> AddrRange \<Rightarrow> bool" where
  "within r e = (rstart e \<le> rstart r \<and> rend r \<le> rend e)"

lemma within_overlaps: "proper r \<Longrightarrow> within r e \<Longrightarrow> overlaps r e"
  by (auto simp: proper_def within_def overlaps_def)

lemma within_two: "proper r \<Longrightarrow> within r e \<Longrightarrow> within r e' \<Longrightarrow> overlaps e e'"
  by (auto simp: proper_def within_def overlaps_def)

text \<open>A sequence of lookups.\<close>

fun lookups ::
  "(AddrRange \<Rightarrow> 'm \<Rightarrow> ('e \<times> 'm) outcome) \<Rightarrow> AddrRange list \<Rightarrow> 'm \<Rightarrow> 'm outcome" where
  "lookups lookup [] m = Inr m"
| "lookups lookup (r # rs) m = rbind (lookup r m) (\<lambda>(_, m'). lookups lookup rs m')"

text \<open>Lookups: what it means that a range fits an entry is up to the map, but it fits at most one.\<close>

locale range_lookup =
  fixes ok :: "'m \<Rightarrow> bool"
    and entries :: "'m \<Rightarrow> (AddrRange \<times> 'v) set"
    and fits :: "AddrRange \<Rightarrow> AddrRange \<Rightarrow> bool"
    and lookup :: "AddrRange \<Rightarrow> 'm \<Rightarrow> ((AddrRange \<times> 'v) option \<times> 'm) outcome"
  assumes fits_one:
      "ok m \<Longrightarrow> proper r \<Longrightarrow> x \<in> entries m \<Longrightarrow> y \<in> entries m \<Longrightarrow> fits r (fst x)
        \<Longrightarrow> fits r (fst y) \<Longrightarrow> x = y"
    and lookup_law:
      "ok m \<Longrightarrow> proper r \<Longrightarrow> \<exists>e m'. lookup r m = Inr (e, m') \<and> ok m' \<and> entries m' = entries m
        \<and> (case e of Some x \<Rightarrow> x \<in> entries m \<and> fits r (fst x)
            | None \<Rightarrow> \<forall>x \<in> entries m. \<not> fits r (fst x))"
begin

text \<open>The entry a lookup finds depends on the stored entries only.\<close>

lemma lookup_unique:
  assumes "ok m" "proper r" "lookup r m = Inr (e, m')"
  shows "e = Some x \<longleftrightarrow> x \<in> entries m \<and> fits r (fst x)"
proof -
  have c: "case e of Some x \<Rightarrow> x \<in> entries m \<and> fits r (fst x)
      | None \<Rightarrow> \<forall>x \<in> entries m. \<not> fits r (fst x)"
    using lookup_law[OF assms(1,2)] assms(3) by auto
  show ?thesis
  proof
    assume "x \<in> entries m \<and> fits r (fst x)"
    with c fits_one[OF assms(1,2)] show "e = Some x" by (cases e) auto
  qed (use c in auto)
qed

lemma lookups_ok:
  assumes "ok m" "\<forall>r \<in> set rs. proper r"
  shows "\<exists>m'. lookups lookup rs m = Inr m' \<and> ok m' \<and> entries m' = entries m"
  using assms
proof (induction rs arbitrary: m)
  case (Cons r rs)
  then obtain e m1 where "lookup r m = Inr (e, m1)" "ok m1" "entries m1 = entries m"
    using lookup_law[of m r] by auto
  with Cons.IH[of m1] Cons.prems show ?case by (metis list.set_intros(2) lookups.simps(2)
      rbind.simps(2) case_prod_conv)
qed simp

text \<open>Lookups are invisible to later lookups.\<close>

lemma lookup_after_lookups:
  assumes "ok m" "\<forall>q \<in> set rs. proper q" "proper r"
  shows "\<exists>e m1 m2 m3. lookup r m = Inr (e, m1) \<and> lookups lookup rs m = Inr m2
    \<and> lookup r m2 = Inr (e, m3)"
proof -
  obtain m2 where m2: "lookups lookup rs m = Inr m2" "ok m2" "entries m2 = entries m"
    using lookups_ok[OF assms(1,2)] by blast
  obtain e m1 e' m3 where l: "lookup r m = Inr (e, m1)" "lookup r m2 = Inr (e', m3)"
    using lookup_law[OF assms(1,3)] lookup_law[OF m2(2) assms(3)] by blast
  have "e = Some x \<longleftrightarrow> e' = Some x" for x
    using lookup_unique[OF assms(1,3) l(1)] lookup_unique[OF m2(2) assms(3) l(2)] m2(3) by simp
  then have "e = e'" by (metis option.exhaust)
  with l m2 show ?thesis by blast
qed

end

text \<open>Insertions of plain ranges.\<close>

locale range_map = range_lookup ok entries within lookup
  for ok :: "'m \<Rightarrow> bool"
    and entries :: "'m \<Rightarrow> (AddrRange \<times> 'v) set"
    and lookup :: "AddrRange \<Rightarrow> 'm \<Rightarrow> ((AddrRange \<times> 'v) option \<times> 'm) outcome" +
  fixes insert_range :: "AddrRange \<Rightarrow> 'v \<Rightarrow> 'm \<Rightarrow> (bool \<times> 'm) outcome"
  assumes insert_law:
      "ok m \<Longrightarrow> proper r \<Longrightarrow> \<exists>b m'. insert_range r v m = Inr (b, m') \<and> ok m'
        \<and> b = (\<forall>x \<in> entries m. \<not> overlaps r (fst x))
        \<and> entries m' = (if b then insert (r, v) (entries m) else entries m)"
begin

text \<open>After an insertion that succeeds, the new entry is found under every part of it.\<close>

lemma lookup_inserted:
  assumes "ok m" "proper r" "proper q" "within q r"
    and "insert_range r v m = Inr (True, m')" "lookup q m' = Inr (e, m'')"
  shows "e = Some (r, v)"
proof -
  have "ok m'" "entries m' = insert (r, v) (entries m)"
    using insert_law[OF assms(1,2), of v] assms(5) by auto
  with lookup_unique[OF _ assms(3,6)] assms(4) show ?thesis by simp
qed

end

section \<open>The map of address ranges\<close>

text \<open>\<^verbatim>\<open>base/addr_range_map.hh\<close>: the tree is the sequence of its entries in order, an iterator
  is the entry it points to, and the cache holds the most recently found entries. The size of
  the cache, a template parameter, is the argument \<open>k\<close>.\<close>

record 'v AddrRangeMap =
  tree :: "(AddrRange \<times> 'v) list"
  mcache :: "(AddrRange \<times> 'v) list"

definition empty_map :: "'v AddrRangeMap" where
  "empty_map = \<lparr> tree = [], mcache = [] \<rparr>"

definition addNewEntryToCache :: "nat \<Rightarrow> 'e \<Rightarrow> 'e list \<Rightarrow> 'e list" where
  "addNewEntryToCache k it cache =
    (if k \<noteq> 0 then
       (if length cache \<ge> k then
          (if k > 1 then it # butlast cache else butlast cache @ [it])
        else it # cache)
     else cache)"

text \<open>The first cached entry that satisfies the condition, with the cache after it is promoted.\<close>

fun cache_find ::
  "(AddrRange \<Rightarrow> bool outcome) \<Rightarrow> (AddrRange \<times> 'v) list \<Rightarrow> (AddrRange \<times> 'v) list
    \<Rightarrow> ((AddrRange \<times> 'v) \<times> (AddrRange \<times> 'v) list) option outcome" where
  "cache_find cond before [] = Inr None"
| "cache_find cond before (c # cs) =
     rbind (cond (fst c)) (\<lambda>b.
       if b then Inr (Some (c, c # before @ cs)) else cache_find cond (before @ [c]) cs)"

text \<open>The backward search from the last entry not above the range, as long as entries merge.\<close>

fun scan_back ::
  "(AddrRange \<Rightarrow> bool outcome) \<Rightarrow> (AddrRange \<times> 'v) list \<Rightarrow> (AddrRange \<times> 'v) option outcome" where
  "scan_back cond [] = Inr None"
| "scan_back cond (i # rest) =
     rbind (cond (fst i)) (\<lambda>b.
       if b then Inr (Some i)
       else case rest of
              [] \<Rightarrow> Inr None
            | next # _ \<Rightarrow> if mergesWith (fst next) (fst i) then scan_back cond rest else Inr None)"

definition tree_find ::
  "AddrRange \<Rightarrow> (AddrRange \<Rightarrow> bool outcome) \<Rightarrow> (AddrRange \<times> 'v) list
    \<Rightarrow> (AddrRange \<times> 'v) option outcome" where
  "tree_find r cond t =
    (let below = takeWhile (\<lambda>e. \<not> range_less r (fst e)) t;
         above = dropWhile (\<lambda>e. \<not> range_less r (fst e)) t in
     rbind (case above of [] \<Rightarrow> Inr False | next # _ \<Rightarrow> cond (fst next)) (\<lambda>hit.
       if hit then Inr (Some (hd above)) else scan_back cond (rev below)))"

definition map_find ::
  "nat \<Rightarrow> AddrRange \<Rightarrow> (AddrRange \<Rightarrow> bool outcome) \<Rightarrow> 'v AddrRangeMap
    \<Rightarrow> ((AddrRange \<times> 'v) option \<times> 'v AddrRangeMap) outcome" where
  "map_find k r cond m =
    rbind (cache_find cond [] (mcache m)) (\<lambda>hit.
      case hit of
        Some (e, c) \<Rightarrow> Inr (Some e, m\<lparr> mcache := c \<rparr>)
      | None \<Rightarrow>
          rbind (tree_find r cond (tree m)) (\<lambda>found.
            Inr (found, case found of
                   Some e \<Rightarrow> m\<lparr> mcache := addNewEntryToCache k e (mcache m) \<rparr>
                 | None \<Rightarrow> m)))"

definition map_contains ::
  "nat \<Rightarrow> AddrRange \<Rightarrow> 'v AddrRangeMap \<Rightarrow> ((AddrRange \<times> 'v) option \<times> 'v AddrRangeMap) outcome" where
  "map_contains k r m = map_find k r (\<lambda>e. isSubset r e) m"

definition map_intersects ::
  "nat \<Rightarrow> AddrRange \<Rightarrow> 'v AddrRangeMap \<Rightarrow> ((AddrRange \<times> 'v) option \<times> 'v AddrRangeMap) outcome" where
  "map_intersects k r m = map_find k r (\<lambda>e. intersects r e) m"

text \<open>Insertion into the tree keeps its order; an equivalent key that is there already stays.\<close>

fun tree_insert :: "AddrRange \<Rightarrow> 'v \<Rightarrow> (AddrRange \<times> 'v) list \<Rightarrow> (AddrRange \<times> 'v) list" where
  "tree_insert r d [] = [(r, d)]"
| "tree_insert r d (e # es) =
     (if range_less (fst e) r then e # tree_insert r d es
      else if range_less r (fst e) then (r, d) # e # es
      else e # es)"

text \<open>\<open>insert\<close>; the flag tells that the result is not \<open>end()\<close>.\<close>

definition map_insert ::
  "nat \<Rightarrow> AddrRange \<Rightarrow> 'v \<Rightarrow> 'v AddrRangeMap \<Rightarrow> (bool \<times> 'v AddrRangeMap) outcome" where
  "map_insert k r d m =
    rbind (map_intersects k r m) (\<lambda>(found, m1).
      case found of
        Some _ \<Rightarrow> Inr (False, m1)
      | None \<Rightarrow> Inr (True, m1\<lparr> tree := tree_insert r d (tree m1) \<rparr>))"

definition map_erase :: "(AddrRange \<times> 'v) \<Rightarrow> 'v AddrRangeMap \<Rightarrow> 'v AddrRangeMap" where
  "map_erase p m = m\<lparr> mcache := filter (\<lambda>c. c \<noteq> p) (mcache m), tree := filter (\<lambda>e. e \<noteq> p) (tree m) \<rparr>"

definition map_clear :: "'v AddrRangeMap \<Rightarrow> 'v AddrRangeMap" where
  "map_clear m = \<lparr> tree = [], mcache = [] \<rparr>"

section \<open>The map keeps the contract\<close>

definition ordered :: "(AddrRange \<times> 'v) list \<Rightarrow> bool" where
  "ordered t = ((\<forall>e \<in> set t. proper (fst e)) \<and> sorted_wrt (\<lambda>a b. rend (fst a) \<le> rstart (fst b)) t)"

definition map_ok :: "'v AddrRangeMap \<Rightarrow> bool" where
  "map_ok m = (ordered (tree m) \<and> set (mcache m) \<subseteq> set (tree m))"

lemma isSubset_proper: "proper r \<Longrightarrow> proper e \<Longrightarrow> isSubset r e = Inr (within r e)"
  by (auto simp: proper_def isSubset_def within_def)

lemma intersects_proper: "proper r \<Longrightarrow> proper e \<Longrightarrow> intersects r e = Inr (overlaps r e)"
  by (simp add: proper_def intersects_plain overlaps_def)

lemma range_less_proper: "proper r \<Longrightarrow> proper e \<Longrightarrow> range_less r e \<longleftrightarrow> rstart r < rstart e"
  by (simp add: proper_def range_less_plain)

lemma ordered_Cons:
  "ordered (e # es) \<longleftrightarrow> proper (fst e) \<and> (\<forall>x \<in> set es. rend (fst e) \<le> rstart (fst x)) \<and> ordered es"
  by (auto simp: ordered_def)

lemma ordered_append:
  "ordered (xs @ ys) \<longleftrightarrow> ordered xs \<and> ordered ys
    \<and> (\<forall>x \<in> set xs. \<forall>y \<in> set ys. rend (fst x) \<le> rstart (fst y))"
  by (auto simp: ordered_def sorted_wrt_append)

lemma ordered_disjoint:
  assumes "ordered t" "x \<in> set t" "y \<in> set t" "overlaps (fst x) (fst y)"
  shows "x = y"
  using assms
proof (induction t)
  case (Cons e es)
  then show ?case by (auto simp: ordered_Cons overlaps_def)
qed simp

lemma cache_find_spec:
  assumes "\<forall>c \<in> set cs. cond (fst c) = Inr (P (fst c))"
  shows "\<exists>hit. cache_find cond pre cs = Inr hit
    \<and> (case hit of Some (c, cs') \<Rightarrow> c \<in> set cs \<and> P (fst c) \<and> set cs' \<subseteq> set pre \<union> set cs
        | None \<Rightarrow> \<forall>c \<in> set cs. \<not> P (fst c))"
  using assms
proof (induction cs arbitrary: pre)
  case (Cons c cs)
  then obtain hit where h: "cache_find cond (pre @ [c]) cs = Inr hit"
    "case hit of Some (x, cs') \<Rightarrow> x \<in> set cs \<and> P (fst x) \<and> set cs' \<subseteq> set (pre @ [c]) \<union> set cs
        | None \<Rightarrow> \<forall>x \<in> set cs. \<not> P (fst x)" by (meson list.set_intros(2))
  show ?case
  proof (cases "P (fst c)")
    case False
    then show ?thesis using Cons.prems h by (auto split: option.splits)
  qed (use Cons.prems in auto)
qed simp

lemma scan_back_ordered:
  assumes "ordered (rev t)" "\<forall>e \<in> set t. cond (fst e) = Inr (P (fst e))"
  shows "scan_back cond t = Inr (case t of [] \<Rightarrow> None | i # _ \<Rightarrow> if P (fst i) then Some i else None)"
proof (cases t)
  case (Cons i rest)
  have "\<not> mergesWith (fst nx) (fst i)" if "nx \<in> set rest" for nx
  proof -
    have "rend (fst nx) \<le> rstart (fst i)" "rstart (fst i) < rend (fst i)"
      using assms(1) that Cons by (auto simp: ordered_append ordered_Cons proper_def)
    then show ?thesis by (auto simp: mergesWith_def)
  qed
  then show ?thesis using assms(2) Cons by (cases rest) auto
qed simp

lemma above_start:
  assumes "ordered t" "proper r" "x \<in> set (dropWhile (\<lambda>e. \<not> range_less r (fst e)) t)"
  shows "rstart r < rstart (fst x)"
  using assms
proof (induction t)
  case (Cons e es)
  have "rstart r < rstart (fst x)" if "rstart r < rstart (fst e)" "x \<in> set es"
  proof -
    have "rstart (fst e) < rend (fst e)" "rend (fst e) \<le> rstart (fst x)"
      using that(2) Cons.prems(1) by (auto simp: ordered_Cons proper_def)
    with that(1) show ?thesis by simp
  qed
  with Cons show ?case
    by (auto simp: ordered_Cons range_less_proper split: if_splits)
qed simp

lemma below_start:
  assumes "ordered t" "proper r" "x \<in> set (takeWhile (\<lambda>e. \<not> range_less r (fst e)) t)"
  shows "rstart (fst x) \<le> rstart r"
  using set_takeWhileD[OF assms(3)] assms(1,2) by (auto simp: ordered_def range_less_proper not_less)

text \<open>The two places the search looks at are enough.\<close>

lemma tree_find_spec:
  assumes "ordered t" "proper r" "\<forall>e \<in> set t. cond (fst e) = Inr (P (fst e))"
    and over: "\<And>e. proper e \<Longrightarrow> P e \<Longrightarrow> overlaps r e"
    and lower: "\<And>x h. proper h \<Longrightarrow> rstart r < rstart h \<Longrightarrow> rstart h \<le> rstart x \<Longrightarrow> P x \<Longrightarrow> P h"
  shows "\<exists>found. tree_find r cond t = Inr found
    \<and> (case found of Some e \<Rightarrow> e \<in> set t \<and> P (fst e) | None \<Rightarrow> \<forall>e \<in> set t. \<not> P (fst e))"
proof -
  define below where "below = takeWhile (\<lambda>e. \<not> range_less r (fst e)) t"
  define above where "above = dropWhile (\<lambda>e. \<not> range_less r (fst e)) t"
  have t: "t = below @ above" by (simp add: below_def above_def)
  then have o: "ordered below" "ordered above" using assms(1) by (simp_all add: ordered_append)
  have p: "proper (fst x)" if "x \<in> set t" for x using that assms(1) by (auto simp: ordered_def)
  have up: "P (fst h)" if "above = h # as" "x \<in> set above" "P (fst x)" for h as x
  proof (rule lower)
    have h: "h \<in> set above" using that(1) by simp
    then show "proper (fst h)" using p t by simp
    show "rstart r < rstart (fst h)"
      using h unfolding above_def by (rule above_start[OF assms(1,2)])
    show "rstart (fst h) \<le> rstart (fst x)"
      using o(2) that(1,2) by (auto simp: ordered_Cons proper_def intro: order_trans less_imp_le)
  qed (use that in simp)
  have low: "x = l" if "rev below = l # ls" "x \<in> set below" "P (fst x)" for x l ls
  proof -
    have "overlaps r (fst x)" using over[OF p[of x] that(3)] t that(2) by simp
    moreover have "rstart (fst l) \<le> rstart r"
      using below_start[OF assms(1,2), of l] that(1) by (metis below_def list.set_intros(1) set_rev)
    moreover have "below = rev ls @ [l]" using that(1) by (metis rev.simps(2) rev_rev_ident)
    ultimately show ?thesis using o(1) that(2) by (auto simp: ordered_append overlaps_def)
  qed
  have s: "scan_back cond (rev below)
      = Inr (case rev below of [] \<Rightarrow> None | i # _ \<Rightarrow> if P (fst i) then Some i else None)"
    using scan_back_ordered[of "rev below" cond P] o(1) assms(3) t by simp
  have f: "tree_find r cond t = (if above \<noteq> [] \<and> P (fst (hd above)) then Inr (Some (hd above))
      else scan_back cond (rev below))"
    unfolding tree_find_def Let_def below_def[symmetric] above_def[symmetric]
    using assms(3) t by (cases above) auto
  show ?thesis
  proof (cases "above \<noteq> [] \<and> P (fst (hd above))")
    case True
    then show ?thesis using f t by (cases above) auto
  next
    case False
    then have na: "\<forall>x \<in> set above. \<not> P (fst x)" using up by (cases above) auto
    show ?thesis
    proof (cases "rev below")
      case Nil
      then show ?thesis unfolding f if_not_P[OF False] s using na t by simp
    next
      case (Cons l ls)
      then have l: "l \<in> set below" by (metis list.set_intros(1) set_rev)
      have g: "tree_find r cond t = Inr (if P (fst l) then Some l else None)"
        unfolding f if_not_P[OF False] unfolding s by (simp add: Cons)
      show ?thesis
      proof (cases "P (fst l)")
        case True
        then show ?thesis using g l t by simp
      next
        case False
        then have "\<forall>x \<in> set below. \<not> P (fst x)" using low[OF Cons] by blast
        then have "\<forall>x \<in> set t. \<not> P (fst x)" using na unfolding t by auto
        then show ?thesis using g False by simp
      qed
    qed
  qed
qed

lemma set_addNewEntryToCache: "set (addNewEntryToCache k e c) \<subseteq> insert e (set c)"
  by (auto simp: addNewEntryToCache_def dest: in_set_butlastD)

lemma map_find_spec:
  assumes "map_ok m" "proper r" "\<And>e. proper e \<Longrightarrow> cond e = Inr (P e)"
    and "\<And>e. proper e \<Longrightarrow> P e \<Longrightarrow> overlaps r e"
    and "\<And>x h. proper h \<Longrightarrow> rstart r < rstart h \<Longrightarrow> rstart h \<le> rstart x \<Longrightarrow> P x \<Longrightarrow> P h"
  shows "\<exists>found m'. map_find k r cond m = Inr (found, m') \<and> map_ok m' \<and> tree m' = tree m
    \<and> (case found of Some e \<Rightarrow> e \<in> set (tree m) \<and> P (fst e) | None \<Rightarrow> \<forall>e \<in> set (tree m). \<not> P (fst e))"
proof -
  have t: "\<forall>e \<in> set (tree m). cond (fst e) = Inr (P (fst e))" "ordered (tree m)"
    and c: "set (mcache m) \<subseteq> set (tree m)"
    using assms(1,3) by (auto simp: map_ok_def ordered_def)
  obtain hit where h: "cache_find cond [] (mcache m) = Inr hit"
    "case hit of Some (c, cs') \<Rightarrow> c \<in> set (mcache m) \<and> P (fst c) \<and> set cs' \<subseteq> set [] \<union> set (mcache m)
        | None \<Rightarrow> \<forall>c \<in> set (mcache m). \<not> P (fst c)"
    using cache_find_spec[of "mcache m" cond P "[]"] t(1) c by blast
  obtain found where f: "tree_find r cond (tree m) = Inr found"
    "case found of Some e \<Rightarrow> e \<in> set (tree m) \<and> P (fst e) | None \<Rightarrow> \<forall>e \<in> set (tree m). \<not> P (fst e)"
    using tree_find_spec[OF t(2) assms(2) t(1)] assms(4,5) by blast
  show ?thesis
  proof (cases hit)
    case None
    have "set (addNewEntryToCache k e (mcache m)) \<subseteq> set (tree m)" if "e \<in> set (tree m)" for e
      using set_addNewEntryToCache[of k e "mcache m"] c that by auto
    with None h(1) f assms(1) show ?thesis
      by (cases found) (auto simp: map_find_def map_ok_def)
  next
    case (Some x)
    with h c assms(1) show ?thesis by (cases x) (auto simp: map_find_def map_ok_def)
  qed
qed

lemma map_contains_spec:
  assumes "map_ok m" "proper r"
  shows "\<exists>found m'. map_contains k r m = Inr (found, m') \<and> map_ok m' \<and> tree m' = tree m
    \<and> (case found of Some e \<Rightarrow> e \<in> set (tree m) \<and> within r (fst e)
        | None \<Rightarrow> \<forall>e \<in> set (tree m). \<not> within r (fst e))"
  unfolding map_contains_def
  using assms isSubset_proper[OF assms(2)] within_overlaps[OF assms(2)]
  by (intro map_find_spec) (auto simp: within_def)

lemma map_intersects_spec:
  assumes "map_ok m" "proper r"
  shows "\<exists>found m'. map_intersects k r m = Inr (found, m') \<and> map_ok m' \<and> tree m' = tree m
    \<and> (case found of Some e \<Rightarrow> e \<in> set (tree m) \<and> overlaps r (fst e)
        | None \<Rightarrow> \<forall>e \<in> set (tree m). \<not> overlaps r (fst e))"
  unfolding map_intersects_def
  using assms intersects_proper[OF assms(2)]
  by (intro map_find_spec) (auto simp: overlaps_def proper_def)

lemma tree_insert_spec:
  assumes "ordered t" "proper r" "\<forall>e \<in> set t. \<not> overlaps r (fst e)"
  shows "ordered (tree_insert r d t) \<and> set (tree_insert r d t) = insert (r, d) (set t)"
  using assms
proof (induction t)
  case (Cons e es)
  consider "rend (fst e) \<le> rstart r" | "rend r \<le> rstart (fst e)"
    using Cons.prems(3) by (auto simp: overlaps_def not_less)
  then show ?case
  proof cases
    case 1
    moreover have "rstart (fst e) < rend (fst e)" using Cons.prems(1) by (simp add: ordered_Cons proper_def)
    ultimately have "range_less (fst e) r"
      using Cons.prems(1,2) by (simp add: ordered_Cons range_less_proper)
    with 1 Cons show ?thesis by (auto simp: ordered_Cons)
  next
    case 2
    moreover have "rstart r < rend r" using Cons.prems(2) by (simp add: proper_def)
    ultimately have lt: "rstart r < rstart (fst e)" by simp
    then have "range_less r (fst e)" "\<not> range_less (fst e) r"
      using Cons.prems(1,2) by (simp_all add: ordered_Cons range_less_proper)
    moreover have "rend r \<le> rstart (fst x)" if "x \<in> set es" for x
    proof -
      have "rstart (fst e) < rend (fst e)" "rend (fst e) \<le> rstart (fst x)"
        using that Cons.prems(1) by (auto simp: ordered_Cons proper_def)
      with 2 show ?thesis by simp
    qed
    ultimately show ?thesis using 2 Cons.prems(1,2) by (auto simp: ordered_Cons)
  qed
qed (simp add: ordered_Cons ordered_def)

lemma map_insert_spec:
  assumes "map_ok m" "proper r"
  shows "\<exists>b m'. map_insert k r d m = Inr (b, m') \<and> map_ok m'
    \<and> b = (\<forall>e \<in> set (tree m). \<not> overlaps r (fst e))
    \<and> set (tree m') = (if b then insert (r, d) (set (tree m)) else set (tree m))"
proof -
  obtain found m1 where f: "map_intersects k r m = Inr (found, m1)" "map_ok m1" "tree m1 = tree m"
    "case found of Some e \<Rightarrow> e \<in> set (tree m) \<and> overlaps r (fst e)
        | None \<Rightarrow> \<forall>e \<in> set (tree m). \<not> overlaps r (fst e)"
    using map_intersects_spec[OF assms] by blast
  show ?thesis
  proof (cases found)
    case None
    with f tree_insert_spec[of "tree m" r d] assms show ?thesis
      by (auto simp: map_insert_def map_ok_def)
  next
    case (Some e)
    with f show ?thesis by (auto simp: map_insert_def)
  qed
qed

interpretation amap: range_map map_ok "\<lambda>m. set (tree m)" "map_contains k" "map_insert k"
  for k :: nat
proof
  fix m :: "'v AddrRangeMap" and r x y
  assume "map_ok m" "proper r" "x \<in> set (tree m)" "y \<in> set (tree m)" "within r (fst x)" "within r (fst y)"
  then show "x = y" using ordered_disjoint[of "tree m" x y] within_two by (auto simp: map_ok_def)
next
  fix m :: "'v AddrRangeMap" and r
  assume "map_ok m" "proper r"
  from map_contains_spec[OF this, of k]
  show "\<exists>e m'. map_contains k r m = Inr (e, m') \<and> map_ok m' \<and> set (tree m') = set (tree m)
    \<and> (case e of Some x \<Rightarrow> x \<in> set (tree m) \<and> within r (fst x)
        | None \<Rightarrow> \<forall>x \<in> set (tree m). \<not> within r (fst x))"
    by (metis (no_types, lifting))
next
  fix m :: "'v AddrRangeMap" and r and v
  assume "map_ok m" "proper r"
  from map_insert_spec[OF this, of k v]
  show "\<exists>b m'. map_insert k r v m = Inr (b, m') \<and> map_ok m'
    \<and> b = (\<forall>x \<in> set (tree m). \<not> overlaps r (fst x))
    \<and> set (tree m') = (if b then insert (r, v) (set (tree m)) else set (tree m))" .
qed

section \<open>Interleaved entries\<close>

text \<open>In general two entries of the map are apart, or they are members of one interleaved group, which
  share their bounds and masks and differ in the match value. The tree is ordered by the bounds and,
  within a group, by the match value.\<close>

definition may_precede :: "AddrRange \<Rightarrow> AddrRange \<Rightarrow> bool" where
  "may_precede a b = (rend a \<le> rstart b \<or> mergesWith a b \<and> interleaved b \<and> intlvMatch a < intlvMatch b)"

definition grouped :: "(AddrRange \<times> 'v) list \<Rightarrow> bool" where
  "grouped t = ((\<forall>e \<in> set t. rstart (fst e) < rend (fst e)) \<and> sorted_wrt (\<lambda>a b. may_precede (fst a) (fst b)) t)"

definition map_wf :: "'v AddrRangeMap \<Rightarrow> bool" where
  "map_wf m = (grouped (tree m) \<and> set (mcache m) \<subseteq> set (tree m))"

text \<open>The plain range \<open>r\<close> fits an entry when the code finds it a subset of the entry.\<close>

definition fits_entry :: "AddrRange \<Rightarrow> AddrRange \<Rightarrow> bool" where
  "fits_entry r e = (isSubset r e = Inr True)"

lemma grouped_Cons:
  "grouped (e # es) \<longleftrightarrow> rstart (fst e) < rend (fst e) \<and> (\<forall>x \<in> set es. may_precede (fst e) (fst x)) \<and> grouped es"
  by (auto simp: grouped_def)

lemma grouped_append:
  "grouped (xs @ ys) \<longleftrightarrow> grouped xs \<and> grouped ys \<and> (\<forall>x \<in> set xs. \<forall>y \<in> set ys. may_precede (fst x) (fst y))"
  by (auto simp: grouped_def sorted_wrt_append)

lemma isSubset_fits: "proper r \<Longrightarrow> isSubset r e = Inr (fits_entry r e)"
  by (auto simp: fits_entry_def isSubset_def proper_def)

lemma fits_start: "proper r \<Longrightarrow> fits_entry r e \<Longrightarrow> rstart e \<le> rstart r \<and> rstart r < rend e"
  by (auto simp: fits_entry_def isSubset_def proper_def contains_def split: if_splits)

lemma fits_match:
  assumes "proper r" "fits_entry r a" "interleaved a"
  shows "intlv_sel (rstart r) 0 (masks a) = ucast (intlvMatch a)"
  using assms by (auto simp: fits_entry_def isSubset_def proper_def contains_def split: if_splits)

lemma fits_not_both:
  assumes "proper r" "may_precede a b" "fits_entry r a" "fits_entry r b"
  shows False
proof -
  have "mergesWith a b" "interleaved b" "intlvMatch a < intlvMatch b"
    using assms(2) fits_start[OF assms(1,3)] fits_start[OF assms(1,4)] by (auto simp: may_precede_def)
  moreover from this(1,2) have "interleaved a" by (simp add: mergesWith_def interleaved_def)
  ultimately have "(ucast (intlvMatch a) :: u32) = ucast (intlvMatch b)"
    using fits_match[OF assms(1,3)] fits_match[OF assms(1,4)] by (simp add: mergesWith_def)
  then have "unat (ucast (intlvMatch a) :: u32) = unat (ucast (intlvMatch b) :: u32)" by simp
  moreover have "unat (ucast w :: u32) = unat w" for w :: u8
    using unsigned_less[of w, where ?'a = nat] by (simp add: unsigned_ucast_eq take_bit_nat_eq_self_iff)
  ultimately show False using \<open>intlvMatch a < intlvMatch b\<close> by (simp add: word_less_nat_alt)
qed

lemma grouped_fits_one:
  assumes "grouped t" "proper r" "x \<in> set t" "y \<in> set t" "fits_entry r (fst x)" "fits_entry r (fst y)"
  shows "x = y"
  using assms(1,3,4)
proof (induction t)
  case (Cons e es)
  then show ?case using fits_not_both[OF assms(2)] assms(5,6) by (auto simp: grouped_Cons)
qed simp

text \<open>The backward search walks through the whole group, so it misses no entry.\<close>

lemma between_merges:
  assumes "may_precede x n" "may_precede n i" "may_precede x i" "rstart i < rend x" "rstart n < rend n"
  shows "mergesWith n i"
  using assms by (auto simp: may_precede_def mergesWith_def)

lemma scan_back_grouped:
  assumes "grouped (rev t)" "proper r" "\<forall>e \<in> set t. rstart (fst e) \<le> rstart r"
  shows "\<exists>found. scan_back (isSubset r) t = Inr found
    \<and> (case found of Some e \<Rightarrow> e \<in> set t \<and> fits_entry r (fst e) | None \<Rightarrow> \<forall>e \<in> set t. \<not> fits_entry r (fst e))"
  using assms
proof (induction t)
  case (Cons i rest)
  have IH: "\<exists>found. scan_back (isSubset r) rest = Inr found
    \<and> (case found of Some e \<Rightarrow> e \<in> set rest \<and> fits_entry r (fst e) | None \<Rightarrow> \<forall>e \<in> set rest. \<not> fits_entry r (fst e))"
    using Cons.IH Cons.prems by (simp add: grouped_append)
  have pre: "may_precede (fst x) (fst i)" if "x \<in> set rest" for x
    using Cons.prems(1) that by (simp add: grouped_append)
  consider "fits_entry r (fst i)" | "\<not> fits_entry r (fst i)" "rest = []"
    | n ns where "\<not> fits_entry r (fst i)" "rest = n # ns" by (cases rest) auto
  then show ?case
  proof cases
    case 3
    show ?thesis
    proof (cases "mergesWith (fst n) (fst i)")
      case True
      from IH obtain found where f: "scan_back (isSubset r) rest = Inr found"
        "case found of Some e \<Rightarrow> e \<in> set rest \<and> fits_entry r (fst e) | None \<Rightarrow> \<forall>e \<in> set rest. \<not> fits_entry r (fst e)"
        by blast
      have "scan_back (isSubset r) (i # rest) = scan_back (isSubset r) rest"
        using 3 True isSubset_fits[OF Cons.prems(2), of "fst i"] by simp
      then have "scan_back (isSubset r) (i # rest) = Inr found" using f(1) by (rule trans)
      moreover have "case found of Some e \<Rightarrow> e \<in> set (i # rest) \<and> fits_entry r (fst e)
          | None \<Rightarrow> \<forall>e \<in> set (i # rest). \<not> fits_entry r (fst e)"
        using f(2) 3(1) by (cases found) simp_all
      ultimately show ?thesis by blast
    next
      case False
      have "\<not> fits_entry r (fst x)" if x: "x \<in> set rest" for x
      proof
        assume f: "fits_entry r (fst x)"
        have lt: "rstart (fst i) < rend (fst x)"
          using fits_start[OF Cons.prems(2) f] Cons.prems(3) by auto
        have "mergesWith (fst n) (fst i)"
        proof (cases "x = n")
          case True
          then show ?thesis using pre[OF x] lt by (auto simp: may_precede_def)
        next
          case False
          then have "x \<in> set ns" using x 3 by simp
          then have "may_precede (fst x) (fst n)" "rstart (fst n) < rend (fst n)"
            using Cons.prems(1) 3 by (auto simp: grouped_def sorted_wrt_append)
          then show ?thesis using between_merges pre[OF x] pre[of n] lt 3 by auto
        qed
        then show False using False by simp
      qed
      then show ?thesis using 3 False isSubset_fits[OF Cons.prems(2)] by auto
    qed
  qed (use isSubset_fits[OF Cons.prems(2)] in auto)
qed simp

lemma plain_less: "proper r \<Longrightarrow> range_less r e \<longleftrightarrow> rstart r < rstart e"
  by (auto simp: range_less_def proper_def)

lemma grouped_starts:
  assumes "grouped (e # es)" "x \<in> set es"
  shows "rstart (fst e) \<le> rstart (fst x)"
proof -
  have "may_precede (fst e) (fst x)" "rstart (fst e) < rend (fst e)" using assms by (auto simp: grouped_Cons)
  then show ?thesis by (auto simp: may_precede_def mergesWith_def)
qed

lemma above_grouped:
  assumes "grouped t" "proper r" "x \<in> set (dropWhile (\<lambda>e. \<not> range_less r (fst e)) t)"
  shows "rstart r < rstart (fst x)"
  using assms
proof (induction t)
  case (Cons e es)
  show ?case
  proof (cases "range_less r (fst e)")
    case True
    then have "rstart r < rstart (fst e)" "x \<in> set (e # es)" using Cons.prems by (auto simp: plain_less)
    then show ?thesis using grouped_starts[OF Cons.prems(1), of x] by (auto intro: less_le_trans)
  next
    case False
    then show ?thesis using Cons by (auto simp: grouped_Cons)
  qed
qed simp

lemma tree_find_grouped:
  assumes "grouped t" "proper r"
  shows "\<exists>found. tree_find r (isSubset r) t = Inr found
    \<and> (case found of Some e \<Rightarrow> e \<in> set t \<and> fits_entry r (fst e) | None \<Rightarrow> \<forall>e \<in> set t. \<not> fits_entry r (fst e))"
proof -
  define below where "below = takeWhile (\<lambda>e. \<not> range_less r (fst e)) t"
  define above where "above = dropWhile (\<lambda>e. \<not> range_less r (fst e)) t"
  have t: "t = below @ above" by (simp add: below_def above_def)
  have na: "\<not> fits_entry r (fst x)" if "x \<in> set above" for x
    using above_grouped[OF assms that[unfolded above_def]] fits_start[OF assms(2), of "fst x"] by auto
  have "\<forall>e \<in> set below. rstart (fst e) \<le> rstart r"
    unfolding below_def using plain_less[OF assms(2)] by (auto dest!: set_takeWhileD simp: not_less)
  with scan_back_grouped[of "rev below" r, unfolded set_rev] assms t obtain found where
    f: "scan_back (isSubset r) (rev below) = Inr found"
      "case found of Some e \<Rightarrow> e \<in> set below \<and> fits_entry r (fst e) | None \<Rightarrow> \<forall>e \<in> set below. \<not> fits_entry r (fst e)"
    by (auto simp: grouped_append)
  have "tree_find r (isSubset r) t = Inr found"
    unfolding tree_find_def Let_def below_def[symmetric] above_def[symmetric]
    using f(1) na isSubset_fits[OF assms(2)] by (cases above) auto
  with f(2) na show ?thesis unfolding t by (auto split: option.splits)
qed

lemma map_contains_grouped:
  assumes "map_wf m" "proper r"
  shows "\<exists>found m'. map_contains k r m = Inr (found, m') \<and> map_wf m' \<and> tree m' = tree m
    \<and> (case found of Some e \<Rightarrow> e \<in> set (tree m) \<and> fits_entry r (fst e)
        | None \<Rightarrow> \<forall>e \<in> set (tree m). \<not> fits_entry r (fst e))"
proof -
  have c: "set (mcache m) \<subseteq> set (tree m)" "grouped (tree m)" using assms(1) by (auto simp: map_wf_def)
  obtain hit where h: "cache_find (isSubset r) [] (mcache m) = Inr hit"
    "case hit of Some (c, cs') \<Rightarrow> c \<in> set (mcache m) \<and> fits_entry r (fst c) \<and> set cs' \<subseteq> set [] \<union> set (mcache m)
        | None \<Rightarrow> \<forall>c \<in> set (mcache m). \<not> fits_entry r (fst c)"
    using cache_find_spec[of "mcache m" "isSubset r" "fits_entry r" "[]"] isSubset_fits[OF assms(2)] by blast
  obtain found where f: "tree_find r (isSubset r) (tree m) = Inr found"
    "case found of Some e \<Rightarrow> e \<in> set (tree m) \<and> fits_entry r (fst e) | None \<Rightarrow> \<forall>e \<in> set (tree m). \<not> fits_entry r (fst e)"
    using tree_find_grouped[OF c(2) assms(2)] by blast
  show ?thesis
  proof (cases hit)
    case None
    have "set (addNewEntryToCache k e (mcache m)) \<subseteq> set (tree m)" if "e \<in> set (tree m)" for e
      using set_addNewEntryToCache[of k e "mcache m"] c that by auto
    with None h(1) f assms(1) show ?thesis
      by (cases found) (auto simp: map_contains_def map_find_def map_wf_def)
  next
    case (Some x)
    with h c assms(1) show ?thesis by (cases x) (auto simp: map_contains_def map_find_def map_wf_def)
  qed
qed

interpretation gmap: range_lookup map_wf "\<lambda>m. set (tree m)" fits_entry "map_contains k"
  for k :: nat
proof
  fix m :: "'v AddrRangeMap" and r x y
  assume "map_wf m" "proper r" "x \<in> set (tree m)" "y \<in> set (tree m)" "fits_entry r (fst x)" "fits_entry r (fst y)"
  then show "x = y" using grouped_fits_one[of "tree m" r x y] by (simp add: map_wf_def)
next
  fix m :: "'v AddrRangeMap" and r
  assume "map_wf m" "proper r"
  from map_contains_grouped[OF this, of k]
  show "\<exists>e m'. map_contains k r m = Inr (e, m') \<and> map_wf m' \<and> set (tree m') = set (tree m)
    \<and> (case e of Some x \<Rightarrow> x \<in> set (tree m) \<and> fits_entry r (fst x)
        | None \<Rightarrow> \<forall>x \<in> set (tree m). \<not> fits_entry r (fst x))"
    by (metis (no_types, lifting))
qed

section \<open>Properties\<close>

text \<open>C28: The cache of the range map is invisible. Let the entries of the map, plain or interleaved, be
  pairwise apart or members of one interleaved group, in the order of the tree, and let the cache hold
  any of them in any order. Then every lookup of a plain non-empty range returns (an interleaved key
  panics in the subset test), after any sequence of lookups it finds the same entry as before, for
  every cache size, and what it finds is the one stored entry the range is a subset of, if there is
  one: the backward search through a group of interleaved entries misses none.\<close>

theorem map_cache_invisible:
  assumes "map_wf m" "\<forall>q \<in> set rs. proper q" "proper r"
  shows "\<exists>e m1 m2 m3. map_contains k r m = Inr (e, m1) \<and> lookups (map_contains k) rs m = Inr m2
    \<and> map_contains k r m2 = Inr (e, m3)
    \<and> (\<forall>x. e = Some x \<longleftrightarrow> x \<in> set (tree m) \<and> isSubset r (fst x) = Inr True)"
  using gmap.lookup_after_lookups[OF assms, of k] gmap.lookup_unique[OF assms(1,3), of k]
  unfolding fits_entry_def by blast

text \<open>Inserting a range succeeds exactly when it overlaps no stored range; then every part of it
  is found under the new value and the map stays well formed; otherwise the stored ranges stay
  as they are.\<close>

theorem map_insert_lookup:
  assumes "map_ok m" "proper r" "proper q" "within q r"
  shows "\<exists>b m'. map_insert k r d m = Inr (b, m') \<and> map_ok m'
    \<and> b = (\<forall>e \<in> set (tree m). \<not> overlaps r (fst e))
    \<and> set (tree m') = (if b then insert (r, d) (set (tree m)) else set (tree m))
    \<and> (b \<longrightarrow> (\<exists>m''. map_contains k q m' = Inr (Some (r, d), m'')))"
proof -
  obtain b m' where i: "map_insert k r d m = Inr (b, m')" "map_ok m'"
    "b = (\<forall>e \<in> set (tree m). \<not> overlaps r (fst e))"
    "set (tree m') = (if b then insert (r, d) (set (tree m)) else set (tree m))"
    using map_insert_spec[OF assms(1,2)] by blast
  obtain e m'' where l: "map_contains k q m' = Inr (e, m'')"
    using map_contains_spec[OF i(2) assms(3)] by blast
  have "e = Some (r, d)" if b using amap.lookup_inserted[OF assms _ l, of d] i(1) that by simp
  with i l show ?thesis by blast
qed

text \<open>Two ranges of device memory.\<close>

definition sample_map :: "int AddrRangeMap" where
  "sample_map = \<lparr> tree = [(AddrRange2 0x80000000 0x90000000, 1), (AddrRange2 0x90000000 0xA0000000, 2)],
    mcache = [(AddrRange2 0x90000000 0xA0000000, 2)] \<rparr>"

lemma sample_map_ok: "map_ok sample_map"
  by (simp add: sample_map_def map_ok_def ordered_def proper_def)

text \<open>Two memory channels, interleaved by address bit 6, beside a plain range; the map is built by
  inserting the second channel first.\<close>

definition channel :: "u8 \<Rightarrow> AddrRange" where
  "channel c = \<lparr> rstart = 0x80000000, rend = 0x90000000, masks = [0x40], intlvMatch = c \<rparr>"

definition sample_channels :: "int AddrRangeMap" where
  "sample_channels = \<lparr> tree = [(channel 0, 0), (channel 1, 1), (AddrRange2 0x90000000 0xA0000000, 2)],
    mcache = [(AddrRange2 0x90000000 0xA0000000, 2)] \<rparr>"

lemma sample_channels_wf: "map_wf sample_channels"
  by (simp add: sample_channels_def map_wf_def grouped_def may_precede_def channel_def mergesWith_def interleaved_def)

lemma sample_channels_built:
  "rbind (map_insert 3 (channel 1) 1 empty_map) (\<lambda>(_, m). rbind (map_insert 3 (channel 0) 0 m) (\<lambda>(_, m).
    rbind (map_insert 3 (AddrRange2 0x90000000 0xA0000000) 2 m) (\<lambda>(_, m). Inr (tree m)))) = Inr (tree sample_channels)"
  by code_simp

theorem map_cache_invisible_witness:
  "map_wf sample_channels \<and> isSubset (AddrRange2 0x80000000 0x80000040) (channel 0) = Inr True
    \<and> (\<exists>m1 m2 m3. map_contains 3 (AddrRange2 0x80000000 0x80000040) sample_channels = Inr (Some (channel 0, 0), m1)
      \<and> lookups (map_contains 3) [AddrRange2 0x80000040 0x80000080] sample_channels = Inr m2
      \<and> map_contains 3 (AddrRange2 0x80000000 0x80000040) m2 = Inr (Some (channel 0, 0), m3))"
proof -
  let ?r = "AddrRange2 0x80000000 0x80000040" and ?q = "AddrRange2 0x80000040 0x80000080"
  have s: "isSubset ?r (channel 0) = Inr True" by code_simp
  have "(channel 0, 0) \<in> set (tree sample_channels)" by (simp add: sample_channels_def)
  moreover have "\<forall>q \<in> set [?q]. proper q" "proper ?r" by (simp_all add: proper_def)
  ultimately show ?thesis
    using map_cache_invisible[OF sample_channels_wf, of "[?q]" ?r 3] s sample_channels_wf
    by (metis (no_types, lifting) fst_conv)
qed

theorem map_insert_lookup_witness:
  "\<exists>m'. map_insert 3 (AddrRange2 0xA0000000 0xB0000000) 3 sample_map = Inr (True, m')
    \<and> (\<exists>m''. map_contains 3 (AddrRange2 0xA0000000 0xA0000040) m'
        = Inr (Some (AddrRange2 0xA0000000 0xB0000000, 3), m''))"
  using map_insert_lookup[OF sample_map_ok, of "AddrRange2 0xA0000000 0xB0000000"
      "AddrRange2 0xA0000000 0xA0000040" 3 3]
  by (auto simp: proper_def within_def overlaps_def sample_map_def)

end
