(* ===== verification/XBarPorts.thy ===== *)
theory XBarPorts
  imports RangeMap
begin

text \<open>
  Address decoding of a crossbar (\<^verbatim>\<open>mem/xbar.cc\<close>, class \<open>BaseXBar\<close>): the map from address
  ranges to the memory-side ports, the default port, and how the map follows the range changes
  of the ports. The ranges a port answers with are an argument; telling the CPU-side ports is
  the flag \<open>notified\<close> of the result.
\<close>

section \<open>Merging of interleaved ranges\<close>

text \<open>The constructor of a range from a list of ranges.\<close>

fun merge_check :: "AddrRange \<Rightarrow> u8 \<Rightarrow> AddrRange list \<Rightarrow> unit outcome" where
  "merge_check t match [] = Inr ()"
| "merge_check t match (r # rs) =
     (if \<not> mergesWith t r then Inl (Fatal ''Can only merge ranges with the same interleaving'')
      else if intlvMatch r \<noteq> match then Inl (Fatal ''Expected another interleave match'')
      else merge_check t (match + 1) rs)"

definition AddrRange_merge :: "AddrRange list \<Rightarrow> AddrRange outcome" where
  "AddrRange_merge ranges =
    (let t = (case ranges of [] \<Rightarrow> AddrRange2 1 0 | r # _ \<Rightarrow> r) in
     if length ranges > 1 then
       (if of_nat (length ranges) \<noteq> (push_bit (length (masks t)) 1 :: u64)
        then Inl (Fatal ''Got ranges spanning interleaving bits'')
        else rbind (merge_check t 0 ranges) (\<lambda>_. Inr (t\<lparr> masks := [], intlvMatch := 0 \<rparr>)))
     else Inr t)"

section \<open>The crossbar\<close>

type_synonym PortID = int

definition InvalidPortID :: PortID where
  "InvalidPortID = -1"

record BaseXBar =
  portMap :: "PortID AddrRangeMap"
  gotAddrRanges :: "bool list"
  gotAllAddrRanges :: bool
  defaultPortID :: PortID
  useDefaultRange :: bool
  defaultRange :: AddrRange
  xbarRanges :: "AddrRange list"

definition new_BaseXBar :: "nat \<Rightarrow> PortID \<Rightarrow> bool \<Rightarrow> BaseXBar" where
  "new_BaseXBar ports default_port use_default =
    \<lparr> portMap = empty_map, gotAddrRanges = replicate ports False, gotAllAddrRanges = False,
      defaultPortID = default_port, useDefaultRange = use_default,
      defaultRange = AddrRange2 1 0, xbarRanges = [] \<rparr>"

text \<open>The lookup also updates the cache of the port map.\<close>

definition findPort :: "AddrRange \<Rightarrow> BaseXBar \<Rightarrow> (PortID \<times> BaseXBar) outcome" where
  "findPort r x =
    rbind (assert_that (gotAllAddrRanges x) ''gotAllAddrRanges'') (\<lambda>_.
    rbind (map_contains 3 r (portMap x)) (\<lambda>(i, m).
      let x1 = x\<lparr> portMap := m \<rparr> in
      case i of
        Some e \<Rightarrow> Inr (snd e, x1)
      | None \<Rightarrow>
          if useDefaultRange x1 then
            rbind (isSubset r (defaultRange x1)) (\<lambda>s.
              if s then Inr (defaultPortID x1, x1)
              else Inl (Fatal ''Unable to find destination''))
          else if defaultPortID x1 \<noteq> InvalidPortID then Inr (defaultPortID x1, x1)
          else Inl (Fatal ''Unable to find destination'')))"

text \<open>The loops of \<open>recvRangeChange\<close>: the entries of a port are removed, its ranges inserted, and
  the ranges of the whole crossbar collected.\<close>

fun erase_port :: "PortID \<Rightarrow> (AddrRange \<times> PortID) list \<Rightarrow> PortID AddrRangeMap \<Rightarrow> PortID AddrRangeMap" where
  "erase_port port [] m = m"
| "erase_port port (p # ps) m = erase_port port ps (if snd p = port then map_erase p m else m)"

fun insert_ranges :: "PortID \<Rightarrow> AddrRange list \<Rightarrow> PortID AddrRangeMap \<Rightarrow> PortID AddrRangeMap outcome" where
  "insert_ranges port [] m = Inr m"
| "insert_ranges port (r # rs) m =
     rbind (map_insert 3 r port m) (\<lambda>(inserted, m1).
       if \<not> inserted then
         rbind (map_intersects 3 r m1) (\<lambda>_. Inl (Fatal ''two ports responding within range''))
       else insert_ranges port rs m1)"

definition outside_default :: "BaseXBar \<Rightarrow> AddrRange \<Rightarrow> bool outcome" where
  "outside_default x r =
    (if useDefaultRange x then rbind (isSubset r (defaultRange x)) (\<lambda>s. Inr (\<not> s)) else Inr True)"

definition add_range :: "BaseXBar \<Rightarrow> AddrRange \<Rightarrow> AddrRange list \<Rightarrow> AddrRange list outcome" where
  "add_range x r acc =
    rbind (outside_default x r) (\<lambda>keep. Inr (if keep then acc @ [r] else acc))"

definition add_merged :: "BaseXBar \<Rightarrow> AddrRange list \<Rightarrow> AddrRange list \<Rightarrow> AddrRange list outcome" where
  "add_merged x intlv_ranges acc =
    rbind (AddrRange_merge intlv_ranges) (\<lambda>merged. add_range x merged acc)"

fun aggregate ::
  "BaseXBar \<Rightarrow> AddrRange list \<Rightarrow> AddrRange list \<Rightarrow> AddrRange list \<Rightarrow> AddrRange list outcome" where
  "aggregate x intlv_ranges acc [] =
     (if intlv_ranges \<noteq> [] then add_merged x intlv_ranges acc else Inr acc)"
| "aggregate x intlv_ranges acc (r # rs) =
     (if interleaved r then
        (if intlv_ranges \<noteq> [] \<and> \<not> mergesWith (last intlv_ranges) r
         then rbind (add_merged x intlv_ranges acc) (\<lambda>acc'. aggregate x [r] acc' rs)
         else aggregate x (intlv_ranges @ [r]) acc rs)
      else rbind (add_range x r acc) (\<lambda>acc'. aggregate x intlv_ranges acc' rs))"

fun check_default :: "BaseXBar \<Rightarrow> AddrRange list \<Rightarrow> unit outcome" where
  "check_default x [] = Inr ()"
| "check_default x (r # rs) =
     rbind (intersects r (defaultRange x)) (\<lambda>i.
     rbind (if i then isSubset r (defaultRange x) else Inr True) (\<lambda>s.
       if i \<and> \<not> s then Inl (Fatal ''Range intersects the default range but is not a subset'')
       else check_default x rs))"

definition collect_ranges :: "BaseXBar \<Rightarrow> BaseXBar outcome" where
  "collect_ranges x =
    rbind (if useDefaultRange x then
             rbind (if 0 \<le> defaultPortID x \<and> nat (defaultPortID x) < length (gotAddrRanges x)
                    then Inr (gotAddrRanges x ! nat (defaultPortID x))
                    else Inl (Undefined ''gotAddrRanges'')) (\<lambda>got.
               if got then Inr [defaultRange x]
               else Inl (Fatal ''Crossbar uses default range, but none provided''))
           else Inr []) (\<lambda>acc.
    rbind (aggregate x [] acc (map fst (tree (portMap x)))) (\<lambda>ranges.
    rbind (if useDefaultRange x then check_default x ranges else Inr ()) (\<lambda>_.
      Inr (x\<lparr> xbarRanges := ranges \<rparr>))))"

text \<open>\<open>recvRangeChange\<close>; \<open>ranges\<close> is what the port answers.\<close>

definition recvRangeChange :: "AddrRange list \<Rightarrow> PortID \<Rightarrow> BaseXBar \<Rightarrow> (bool \<times> BaseXBar) outcome" where
  "recvRangeChange ranges port x =
    (if port < 0 \<or> nat port \<ge> length (gotAddrRanges x) then Inl (Undefined ''gotAddrRanges'')
     else
       let x1 = x\<lparr> gotAddrRanges := (gotAddrRanges x)[nat port := True] \<rparr>;
           x2 = x1\<lparr> gotAllAddrRanges := (if \<not> gotAllAddrRanges x1 then list_all id (gotAddrRanges x1)
                                         else True) \<rparr> in
       rbind (if port = defaultPortID x2 then
                (if useDefaultRange x2 then
                   (case ranges of [r] \<Rightarrow> Inr (x2\<lparr> defaultRange := r \<rparr>)
                    | _ \<Rightarrow> Inl (Fatal ''Crossbar may only have a single default range''))
                 else Inr x2)
              else
                rbind (insert_ranges port ranges (erase_port port (tree (portMap x2)) (portMap x2)))
                  (\<lambda>m. Inr (x2\<lparr> portMap := m \<rparr>))) (\<lambda>x3.
         if gotAllAddrRanges x3 then rbind (collect_ranges x3) (\<lambda>x4. Inr (True, x4))
         else Inr (False, x3)))"

definition xbar_getAddrRanges :: "BaseXBar \<Rightarrow> AddrRange list outcome" where
  "xbar_getAddrRanges x =
    rbind (assert_that (gotAllAddrRanges x) ''gotAllAddrRanges'') (\<lambda>_. Inr (xbarRanges x))"

section \<open>Decoding\<close>

text \<open>Address decoding finds the right port: for a crossbar whose map is well formed, a lookup
  of a non-empty plain range returns the port of the entry that covers the range, whatever
  the cache of the map holds; if no entry covers it, the default port when there is one that
  applies; and it stops the simulation otherwise. The stored ranges never change.\<close>

theorem findPort_correct:
  assumes "map_ok (portMap x)" "gotAllAddrRanges x" "proper r" "plain (defaultRange x)"
  shows "case findPort r x of
      Inr (p, x') \<Rightarrow> map_ok (portMap x') \<and> tree (portMap x') = tree (portMap x)
        \<and> (if \<exists>e \<in> set (tree (portMap x)). within r (fst e)
           then \<exists>e \<in> set (tree (portMap x)). within r (fst e) \<and> p = snd e
           else p = defaultPortID x)
    | Inl err \<Rightarrow> err = Fatal ''Unable to find destination''
        \<and> (\<forall>e \<in> set (tree (portMap x)). \<not> within r (fst e))
        \<and> (if useDefaultRange x then \<not> within r (defaultRange x)
           else defaultPortID x = InvalidPortID)"
proof -
  obtain i m where l: "map_contains 3 r (portMap x) = Inr (i, m)" "map_ok m"
    "tree m = tree (portMap x)"
    "case i of Some e \<Rightarrow> e \<in> set (tree (portMap x)) \<and> within r (fst e)
      | None \<Rightarrow> \<forall>e \<in> set (tree (portMap x)). \<not> within r (fst e)"
    using map_contains_spec[OF assms(1,3), of 3] by blast
  have s: "isSubset r (defaultRange x) = Inr (within r (defaultRange x))"
    using assms(3,4) by (auto simp: proper_def isSubset_def within_def)
  show ?thesis
  proof (cases i)
    case (Some e)
    then show ?thesis using assms(2) l by (auto simp: findPort_def)
  next
    case None
    then show ?thesis using assms(2) l s by (auto simp: findPort_def Let_def)
  qed
qed

theorem findPort_correct_witness:
  "\<exists>x'. findPort (AddrRange2 0x90000040 0x90000080)
      ((new_BaseXBar 3 InvalidPortID False)\<lparr> portMap := sample_map, gotAllAddrRanges := True \<rparr>)
    = Inr (2, x')"
proof -
  let ?x = "(new_BaseXBar 3 InvalidPortID False)\<lparr> portMap := sample_map, gotAllAddrRanges := True \<rparr>"
  let ?r = "AddrRange2 0x90000040 0x90000080"
  have "map_ok (portMap ?x)" "gotAllAddrRanges ?x" "proper ?r" "plain (defaultRange ?x)"
    by (simp_all add: sample_map_ok proper_def new_BaseXBar_def)
  from findPort_correct[OF this] show ?thesis
    by (auto simp: sample_map_def within_def new_BaseXBar_def split: sum.splits if_splits)
qed

section \<open>Range changes\<close>

lemma map_erase_ok: "map_ok m \<Longrightarrow> map_ok (map_erase p m)"
  by (auto simp: map_ok_def map_erase_def ordered_def sorted_wrt_filter)

lemma erase_port_spec:
  assumes "map_ok m"
  shows "map_ok (erase_port p ps m)
    \<and> tree (erase_port p ps m) = filter (\<lambda>e. \<not> (e \<in> set ps \<and> snd e = p)) (tree m)"
  using assms
proof (induction ps arbitrary: m)
  case (Cons q qs)
  show ?case
  proof (cases "snd q = p")
    case True
    then have "erase_port p (q # qs) m = erase_port p qs (map_erase q m)" by simp
    with Cons.IH[OF map_erase_ok[OF Cons.prems, of q]] True show ?thesis
      by (auto simp: map_erase_def intro: filter_cong)
  next
    case False
    then have "erase_port p (q # qs) m = erase_port p qs m" by simp
    with Cons.IH[OF Cons.prems] False show ?thesis by (auto intro: filter_cong)
  qed
qed simp

lemma erase_port_all:
  "map_ok m \<Longrightarrow> map_ok (erase_port p (tree m) m)
    \<and> set (tree (erase_port p (tree m) m)) = {e \<in> set (tree m). snd e \<noteq> p}"
  using erase_port_spec[of m p "tree m"] by auto

definition conflict_free :: "(AddrRange \<times> PortID) set \<Rightarrow> AddrRange list \<Rightarrow> bool" where
  "conflict_free E rs = ((\<forall>r \<in> set rs. \<forall>e \<in> E. \<not> overlaps r (fst e))
    \<and> sorted_wrt (\<lambda>a b. \<not> overlaps a b) rs)"

lemma overlaps_sym: "overlaps a b \<longleftrightarrow> overlaps b a"
  by (auto simp: overlaps_def)

lemma conflict_free_Cons:
  "conflict_free E (r # rs) \<longleftrightarrow>
    (\<forall>e \<in> E. \<not> overlaps r (fst e)) \<and> conflict_free (insert (r, p) E) rs"
  by (auto simp: conflict_free_def overlaps_sym[of r])

lemma insert_ranges_spec:
  assumes "map_ok m" "\<forall>r \<in> set rs. proper r"
  shows "if conflict_free (set (tree m)) rs
    then \<exists>m'. insert_ranges p rs m = Inr m' \<and> map_ok m'
      \<and> set (tree m') = set (tree m) \<union> (\<lambda>r. (r, p)) ` set rs
    else insert_ranges p rs m = Inl (Fatal ''two ports responding within range'')"
  using assms
proof (induction rs arbitrary: m)
  case Nil
  then show ?case by (simp add: conflict_free_def)
next
  case (Cons r rs)
  obtain b m1 where i: "map_insert 3 r p m = Inr (b, m1)" "map_ok m1"
    "b = (\<forall>e \<in> set (tree m). \<not> overlaps r (fst e))"
    "set (tree m1) = (if b then insert (r, p) (set (tree m)) else set (tree m))"
    using map_insert_spec[of m r 3 p] Cons.prems by auto
  show ?case
  proof (cases b)
    case True
    with i Cons.IH[OF i(2)] Cons.prems(2) show ?thesis
      by (auto simp: conflict_free_Cons[of _ r rs p])
  next
    case False
    obtain f m2 where "map_intersects 3 r m1 = Inr (f, m2)"
      using map_intersects_spec[OF i(2), of r 3] Cons.prems(2) by auto
    with False i show ?thesis by (auto simp: conflict_free_Cons[of _ r rs p])
  qed
qed

lemma aggregate_plain:
  assumes "\<not> useDefaultRange x" "\<forall>r \<in> set rs. plain r"
  shows "aggregate x [] acc rs = Inr (acc @ rs)"
  using assms by (induction rs arbitrary: acc) (auto simp: add_range_def outside_default_def)

lemma collect_plain:
  assumes "\<not> useDefaultRange x" "map_ok (portMap x)"
  shows "collect_ranges x = Inr (x\<lparr> xbarRanges := map fst (tree (portMap x)) \<rparr>)"
proof -
  have "\<forall>r \<in> set (map fst (tree (portMap x))). plain r"
    using assms(2) by (auto simp: map_ok_def ordered_def proper_def)
  from aggregate_plain[OF assms(1) this] assms(1) show ?thesis by (simp add: collect_ranges_def)
qed

text \<open>A range change of a port of a crossbar without a default range replaces exactly that
  port's entries: if its new ranges overlap neither each other nor the entries of another
  port, the change succeeds, the map stays well formed and holds the other ports' entries and
  the new ones, and once all ports have reported the crossbar announces exactly the ranges of
  the map; if they overlap, the simulation stops because two ports respond within a range.\<close>

theorem range_change_replaces:
  assumes "map_ok (portMap x)" "\<not> useDefaultRange x" "0 \<le> p" "nat p < length (gotAddrRanges x)"
    and "p \<noteq> defaultPortID x" "\<forall>r \<in> set rs. proper r"
  shows "if (\<forall>r \<in> set rs. \<forall>e \<in> set (tree (portMap x)). snd e \<noteq> p \<longrightarrow> \<not> overlaps r (fst e))
        \<and> sorted_wrt (\<lambda>a b. \<not> overlaps a b) rs
    then \<exists>notified x'. recvRangeChange rs p x = Inr (notified, x') \<and> map_ok (portMap x')
      \<and> set (tree (portMap x'))
          = {e \<in> set (tree (portMap x)). snd e \<noteq> p} \<union> (\<lambda>r. (r, p)) ` set rs
      \<and> (notified \<longrightarrow> xbarRanges x' = map fst (tree (portMap x')))
    else recvRangeChange rs p x = Inl (Fatal ''two ports responding within range'')"
proof -
  let ?m = "erase_port p (tree (portMap x)) (portMap x)"
  note e = erase_port_all[OF assms(1), of p]
  then have c: "conflict_free (set (tree ?m)) rs \<longleftrightarrow>
      (\<forall>r \<in> set rs. \<forall>e \<in> set (tree (portMap x)). snd e \<noteq> p \<longrightarrow> \<not> overlaps r (fst e))
        \<and> sorted_wrt (\<lambda>a b. \<not> overlaps a b) rs"
    unfolding conflict_free_def conjunct2[OF e] by blast
  note i = insert_ranges_spec[OF conjunct1[OF e] assms(6), of p]
  define x2 where "x2 = x\<lparr> gotAddrRanges := (gotAddrRanges x)[nat p := True],
    gotAllAddrRanges := (if \<not> gotAllAddrRanges x then list_all id ((gotAddrRanges x)[nat p := True]) else True) \<rparr>"
  have rc: "recvRangeChange rs p x = rbind (insert_ranges p rs ?m) (\<lambda>m.
      let x3 = x2\<lparr> portMap := m \<rparr> in
      if gotAllAddrRanges x3 then rbind (collect_ranges x3) (\<lambda>x4. Inr (True, x4)) else Inr (False, x3))"
    using assms(3-5) by (cases "insert_ranges p rs ?m") (simp_all add: recvRangeChange_def x2_def Let_def)
  show ?thesis
  proof (cases "conflict_free (set (tree ?m)) rs")
    case True
    then obtain m' where m': "insert_ranges p rs ?m = Inr m'" "map_ok m'"
      "set (tree m') = set (tree ?m) \<union> (\<lambda>r. (r, p)) ` set rs"
      using i by auto
    have "collect_ranges (x2\<lparr> portMap := m' \<rparr>)
        = Inr (x2\<lparr> portMap := m', xbarRanges := map fst (tree m') \<rparr>)"
      using collect_plain[of "x2\<lparr> portMap := m' \<rparr>"] assms(2) m'(2) by (simp add: x2_def)
    with m' rc e have "\<exists>notified x'. recvRangeChange rs p x = Inr (notified, x') \<and> map_ok (portMap x')
      \<and> set (tree (portMap x'))
          = {e \<in> set (tree (portMap x)). snd e \<noteq> p} \<union> (\<lambda>r. (r, p)) ` set rs
      \<and> (notified \<longrightarrow> xbarRanges x' = map fst (tree (portMap x')))"
      by (cases "gotAllAddrRanges x2") (auto simp: Let_def)
    with True c show ?thesis by simp
  next
    case False
    then show ?thesis using i c rc by simp
  qed
qed

theorem range_change_replaces_witness:
  "\<exists>notified x'. recvRangeChange [AddrRange2 0x90000000 0xB0000000] 2
      ((new_BaseXBar 3 InvalidPortID False)\<lparr> portMap := sample_map \<rparr>) = Inr (notified, x')
    \<and> set (tree (portMap x')) = {(AddrRange2 0x80000000 0x90000000, 1), (AddrRange2 0x90000000 0xB0000000, 2)}"
proof -
  let ?x = "(new_BaseXBar 3 InvalidPortID False)\<lparr> portMap := sample_map \<rparr>"
  have "map_ok (portMap ?x)" "\<not> useDefaultRange ?x" "(0::int) \<le> 2" "nat 2 < length (gotAddrRanges ?x)"
    "2 \<noteq> defaultPortID ?x" "\<forall>r \<in> set [AddrRange2 0x90000000 0xB0000000]. proper r"
    by (simp_all add: sample_map_ok new_BaseXBar_def InvalidPortID_def proper_def)
  from range_change_replaces[OF this] show ?thesis
    by (auto simp: sample_map_def overlaps_def)
qed

end
