(* ===== verification/XBarLayer.thy ===== *)
theory XBarLayer
  imports Prelude
begin

text \<open>
  A layer of a crossbar (\<^verbatim>\<open>mem/xbar.cc\<close>, \<^verbatim>\<open>mem/xbar.hh\<close>, class \<open>BaseXBar::Layer\<close>): the
  arbitration point in front of a destination port. A layer is idle, busy, or retrying; the
  ports it refused wait in a queue, and a port whose packet the destination refused waits for
  the destination's retry.

  Source ports are numbers. The release event is the tick it is scheduled for, or \<open>None\<close>. What
  a port does at once when it is told to retry is a parameter: nothing, or one attempt to send
  through the layer. The crossbar's clock edge is an argument. The field \<open>gh_retried\<close> is a
  history variable: the ports that were told to retry. The occupancy statistic is left out.
\<close>

section \<open>The layer\<close>

datatype LayerState = IDLE | BUSY | RETRY

datatype DrainState = Running | Draining | Drained | Resuming

type_synonym port_id = nat

record Layer =
  lstate :: LayerState
  waitingForLayer :: "port_id list"
  waitingForPeer :: "port_id option"
  releaseEvent :: "u64 option"
  drainState :: DrainState
  gh_retried :: "port_id list"

definition new_Layer :: Layer where
  "new_Layer = \<lparr> lstate = IDLE, waitingForLayer = [], waitingForPeer = None,
    releaseEvent = None, drainState = Running, gh_retried = [] \<rparr>"

definition occupyLayer :: "u64 \<Rightarrow> Layer \<Rightarrow> Layer outcome" where
  "occupyLayer until l =
    rbind (assert_that (lstate l = BUSY) ''state == BUSY'') (\<lambda>_.
    rbind (assert_that (until \<noteq> 0) ''until != 0'') (\<lambda>_.
    rbind (assert_that (releaseEvent l = None) ''!event->scheduled()'') (\<lambda>_.
      Inr (l\<lparr> releaseEvent := Some until \<rparr>))))"

definition tryTiming :: "port_id \<Rightarrow> Layer \<Rightarrow> (bool \<times> Layer) outcome" where
  "tryTiming src_port l =
    (if lstate l = BUSY \<or> waitingForPeer l \<noteq> None then
       rbind (assert_that (src_port \<notin> set (waitingForLayer l)) ''port already waiting'') (\<lambda>_.
         Inr (False, l\<lparr> waitingForLayer := waitingForLayer l @ [src_port] \<rparr>))
     else Inr (True, l\<lparr> lstate := BUSY \<rparr>))"

definition succeededTiming :: "u64 \<Rightarrow> Layer \<Rightarrow> Layer outcome" where
  "succeededTiming busy_time l =
    rbind (assert_that (lstate l = BUSY) ''state == BUSY'') (\<lambda>_. occupyLayer busy_time l)"

definition failedTiming :: "port_id \<Rightarrow> u64 \<Rightarrow> Layer \<Rightarrow> Layer outcome" where
  "failedTiming src_port busy_time l =
    rbind (assert_that (waitingForPeer l = None) ''waitingForPeer == NULL'') (\<lambda>_.
      let l1 = l\<lparr> waitingForPeer := Some src_port \<rparr> in
      rbind (assert_that (lstate l1 = BUSY) ''state == BUSY'') (\<lambda>_. occupyLayer busy_time l1))"

text \<open>How a crossbar sends a packet through a layer: the layer is tried first; the destination's
  answer and the time the layer stays busy are inputs.\<close>

definition send_timing :: "port_id \<Rightarrow> bool \<Rightarrow> u64 \<Rightarrow> Layer \<Rightarrow> (bool \<times> Layer) outcome" where
  "send_timing src_port success busy_time l =
    rbind (tryTiming src_port l) (\<lambda>(free, l1).
      if \<not> free then Inr (False, l1)
      else if \<not> success then
        rbind (failedTiming src_port busy_time l1) (\<lambda>l2. Inr (False, l2))
      else rbind (succeededTiming busy_time l1) (\<lambda>l2. Inr (True, l2)))"

text \<open>The reaction of a port to a retry: nothing, or an attempt with its answer and busy time.\<close>

type_synonym retry_reaction = "port_id \<Rightarrow> (bool \<times> u64) option"

definition sendRetry :: "retry_reaction \<Rightarrow> port_id \<Rightarrow> Layer \<Rightarrow> Layer outcome" where
  "sendRetry rx retry_port l =
    (let l1 = l\<lparr> gh_retried := gh_retried l @ [retry_port] \<rparr> in
     case rx retry_port of
       None \<Rightarrow> Inr l1
     | Some (success, busy_time) \<Rightarrow>
         rbind (send_timing retry_port success busy_time l1) (\<lambda>(_, l2). Inr l2))"

definition retryWaiting :: "retry_reaction \<Rightarrow> u64 \<Rightarrow> Layer \<Rightarrow> Layer outcome" where
  "retryWaiting rx clock_edge l =
    (case waitingForLayer l of
       [] \<Rightarrow> Inl (AssertFail ''!waitingForLayer.empty()'')
     | retryingPort # rest \<Rightarrow>
         rbind (assert_that (lstate l = IDLE) ''state == IDLE'') (\<lambda>_.
         rbind (sendRetry rx retryingPort (l\<lparr> lstate := RETRY, waitingForLayer := rest \<rparr>)) (\<lambda>l1.
           if lstate l1 = RETRY then occupyLayer clock_edge (l1\<lparr> lstate := BUSY \<rparr>) else Inr l1)))"

definition releaseLayer :: "retry_reaction \<Rightarrow> u64 \<Rightarrow> Layer \<Rightarrow> Layer outcome" where
  "releaseLayer rx clock_edge l =
    rbind (assert_that (lstate l = BUSY) ''state == BUSY'') (\<lambda>_.
    rbind (assert_that (releaseEvent l = None) ''!releaseEvent.scheduled()'') (\<lambda>_.
      let l1 = l\<lparr> lstate := IDLE \<rparr> in
      if waitingForLayer l1 \<noteq> [] then
        (if waitingForPeer l1 = None then retryWaiting rx clock_edge l1 else Inr l1)
      else if waitingForPeer l1 = None \<and> drainState l1 = Draining
        then Inr (l1\<lparr> drainState := Drained \<rparr>)
      else Inr l1))"

definition recvRetry :: "retry_reaction \<Rightarrow> u64 \<Rightarrow> Layer \<Rightarrow> Layer outcome" where
  "recvRetry rx clock_edge l =
    (case waitingForPeer l of
       None \<Rightarrow> Inl (AssertFail ''waitingForPeer != NULL'')
     | Some p \<Rightarrow>
         let l1 = l\<lparr> waitingForLayer := p # waitingForLayer l, waitingForPeer := None \<rparr> in
         if lstate l1 = IDLE then retryWaiting rx clock_edge l1
         else rbind (assert_that (lstate l1 = BUSY) ''state == BUSY'') (\<lambda>_. Inr l1))"

definition layer_drain :: "Layer \<Rightarrow> DrainState" where
  "layer_drain l = (if lstate l \<noteq> IDLE then Draining else Drained)"

section \<open>Runs of a layer\<close>

text \<open>What can happen to a layer whose ports keep to the protocol: a port that is not waiting
  sends, the release event runs, the destination asks for a retry it owes, or the layer is
  asked to drain. Busy times and clock edges are never tick 0.\<close>

definition reacts_in_time :: "retry_reaction \<Rightarrow> bool" where
  "reacts_in_time rx = (\<forall>p s t. rx p = Some (s, t) \<longrightarrow> t \<noteq> 0)"

inductive layer_step :: "Layer \<Rightarrow> Layer outcome \<Rightarrow> bool" where
  send: "p \<notin> set (waitingForLayer l) \<Longrightarrow> waitingForPeer l \<noteq> Some p \<Longrightarrow> t \<noteq> 0
    \<Longrightarrow> layer_step l (rbind (send_timing p success t l) (\<lambda>(_, l'). Inr l'))"
| release: "releaseEvent l = Some t \<Longrightarrow> reacts_in_time rx \<Longrightarrow> edge \<noteq> 0
    \<Longrightarrow> layer_step l (releaseLayer rx edge (l\<lparr> releaseEvent := None \<rparr>))"
| retry: "waitingForPeer l \<noteq> None \<Longrightarrow> reacts_in_time rx \<Longrightarrow> edge \<noteq> 0
    \<Longrightarrow> layer_step l (recvRetry rx edge l)"
| drain: "layer_step l (Inr (l\<lparr> drainState := layer_drain l \<rparr>))"

inductive layer_reachable :: "Layer \<Rightarrow> bool" where
  start: "layer_reachable new_Layer"
| step: "layer_reachable l \<Longrightarrow> layer_step l (Inr l') \<Longrightarrow> layer_reachable l'"

text \<open>Between events the layer is never retrying; it is busy exactly while its release is
  scheduled; no port waits twice; and a waiting port implies that the layer is busy or waits
  for the destination, so that something is bound to happen.\<close>

definition layer_inv :: "Layer \<Rightarrow> bool" where
  "layer_inv l = (lstate l \<noteq> RETRY \<and> (lstate l = BUSY \<longleftrightarrow> releaseEvent l \<noteq> None)
    \<and> distinct (waitingForLayer l) \<and> (\<forall>p. waitingForPeer l = Some p \<longrightarrow> p \<notin> set (waitingForLayer l))
    \<and> (waitingForLayer l \<noteq> [] \<longrightarrow> lstate l = BUSY \<or> waitingForPeer l \<noteq> None))"

text \<open>An operation that succeeds and restores the invariant.\<close>

definition restores :: "Layer outcome \<Rightarrow> bool" where
  "restores r = (\<exists>l'. r = Inr l' \<and> layer_inv l')"

lemmas layer_op_defs =
  tryTiming_def succeededTiming_def failedTiming_def occupyLayer_def send_timing_def

lemma send_timing_restores:
  assumes "layer_inv l" "p \<notin> set (waitingForLayer l)" "waitingForPeer l \<noteq> Some p" "t \<noteq> 0"
  shows "restores (rbind (send_timing p success t l) (\<lambda>(_, l'). Inr l'))"
  using assms unfolding restores_def
  by (cases "lstate l"; cases "waitingForPeer l"; cases success)
    (auto simp: layer_op_defs layer_inv_def)

text \<open>Retrying starts from an idle layer whose queue is not empty and that does not wait for the
  destination; in all cases it ends busy.\<close>

lemma retryWaiting_restores:
  assumes "lstate l = IDLE" "releaseEvent l = None" "waitingForPeer l = None"
    and "waitingForLayer l = p # ps" "distinct (p # ps)" "reacts_in_time rx" "edge \<noteq> 0"
  shows "restores (retryWaiting rx edge l)"
proof (cases "rx p")
  case None
  then show ?thesis
    using assms by (auto simp: retryWaiting_def sendRetry_def occupyLayer_def restores_def layer_inv_def)
next
  case (Some st)
  obtain success t where st: "st = (success, t)" by (cases st)
  with Some assms(6) have "t \<noteq> 0" by (auto simp: reacts_in_time_def)
  then show ?thesis
    using assms Some st
    by (cases success) (auto simp: retryWaiting_def sendRetry_def layer_op_defs restores_def layer_inv_def)
qed

lemma releaseLayer_restores:
  assumes "layer_inv l" "releaseEvent l = Some t" "reacts_in_time rx" "edge \<noteq> 0"
  shows "restores (releaseLayer rx edge (l\<lparr> releaseEvent := None \<rparr>))"
proof (cases "waitingForLayer l")
  case Nil
  then show ?thesis
    using assms by (cases "waitingForPeer l = None \<and> drainState l = Draining")
      (auto simp: releaseLayer_def restores_def layer_inv_def Let_def)
next
  case (Cons p ps)
  let ?l = "l\<lparr> releaseEvent := None, lstate := IDLE \<rparr>"
  show ?thesis
  proof (cases "waitingForPeer l")
    case None
    have "restores (retryWaiting rx edge ?l)"
      using assms Cons None by (intro retryWaiting_restores) (auto simp: layer_inv_def)
    then show ?thesis using assms Cons None by (auto simp: releaseLayer_def layer_inv_def)
  qed (use assms Cons in \<open>auto simp: releaseLayer_def restores_def layer_inv_def\<close>)
qed

lemma recvRetry_restores:
  assumes "layer_inv l" "waitingForPeer l \<noteq> None" "reacts_in_time rx" "edge \<noteq> 0"
  shows "restores (recvRetry rx edge l)"
proof -
  obtain p where p: "waitingForPeer l = Some p" using assms(2) by blast
  let ?l = "l\<lparr> waitingForLayer := p # waitingForLayer l, waitingForPeer := None \<rparr>"
  show ?thesis
  proof (cases "lstate l")
    case IDLE
    have "restores (retryWaiting rx edge ?l)"
      using assms p IDLE by (intro retryWaiting_restores) (auto simp: layer_inv_def)
    then show ?thesis using p IDLE by (simp add: recvRetry_def)
  qed (use assms p in \<open>auto simp: recvRetry_def restores_def layer_inv_def\<close>)
qed

lemma layer_step_restores:
  assumes "layer_step l r" "layer_inv l"
  shows "restores r"
  using assms
proof (induction rule: layer_step.induct)
  case (drain l)
  then show ?case by (auto simp: restores_def layer_inv_def)
qed (auto intro: send_timing_restores releaseLayer_restores recvRetry_restores)

lemma layer_reachable_inv: "layer_reachable l \<Longrightarrow> layer_inv l"
proof (induction rule: layer_reachable.induct)
  case start
  then show ?case by (simp add: layer_inv_def new_Layer_def)
next
  case (step l l')
  from layer_step_restores[OF step(2,3)] show ?case by (simp add: restores_def)
qed

section \<open>Properties\<close>

text \<open>C27: Safety and progress of a crossbar layer whose ports keep to the protocol. In every
  reachable state no event can make one of the layer's assertions fail; the layer is busy
  exactly while its release is scheduled; no port waits twice; and whenever a port waits, the
  layer is busy or waits for its destination, so no waiting port is forgotten.\<close>

theorem layer_never_stuck:
  assumes "layer_reachable l"
  shows "(\<forall>r. layer_step l r \<longrightarrow> (\<exists>l'. r = Inr l'))
    \<and> (lstate l = BUSY \<longleftrightarrow> releaseEvent l \<noteq> None)
    \<and> distinct (waitingForLayer l)
    \<and> (waitingForLayer l \<noteq> [] \<longrightarrow> lstate l = BUSY \<or> waitingForPeer l \<noteq> None)"
proof -
  note inv = layer_reachable_inv[OF assms]
  have "\<forall>r. layer_step l r \<longrightarrow> (\<exists>l'. r = Inr l')"
    using layer_step_restores[OF _ inv] unfolding restores_def by blast
  with inv show ?thesis unfolding layer_inv_def by blast
qed

lemma layer_send_reachable:
  assumes "layer_reachable l" "p \<notin> set (waitingForLayer l)" "waitingForPeer l \<noteq> Some p" "t \<noteq> 0"
    and "send_timing p success t l = Inr (b, l')"
  shows "layer_reachable l'"
  using layer_step.send[OF assms(2-4), of success] assms(1,5) by (auto intro: layer_reachable.step)

text \<open>Port 1 holds the layer, ports 2 and 3 wait.\<close>

definition busy_layer :: Layer where
  "busy_layer = new_Layer\<lparr> lstate := BUSY, releaseEvent := Some 10, waitingForLayer := [2, 3] \<rparr>"

lemma busy_layer_reachable: "layer_reachable busy_layer"
proof -
  have 1: "layer_reachable (new_Layer\<lparr> lstate := BUSY, releaseEvent := Some 10 \<rparr>)"
    by (rule layer_send_reachable[OF layer_reachable.start, of 1 10 True True])
      (simp_all add: layer_op_defs new_Layer_def)
  have "layer_reachable (new_Layer\<lparr> lstate := BUSY, releaseEvent := Some 10, waitingForLayer := [2] \<rparr>)"
    by (rule layer_send_reachable[OF 1, of 2 10 True False]) (simp_all add: layer_op_defs new_Layer_def)
  then show ?thesis
    by (rule layer_send_reachable[of _ 3 10 True False])
      (simp_all add: layer_op_defs new_Layer_def busy_layer_def)
qed

theorem layer_never_stuck_witness:
  "layer_reachable busy_layer \<and> distinct (waitingForLayer busy_layer)
    \<and> waitingForLayer busy_layer = [2, 3] \<and> lstate busy_layer = BUSY"
  using layer_never_stuck[OF busy_layer_reachable] busy_layer_reachable
  by (simp add: busy_layer_def)

text \<open>A number of releases in a row, with ports whose packets the destination accepts.\<close>

fun release_n :: "retry_reaction \<Rightarrow> u64 \<Rightarrow> nat \<Rightarrow> Layer \<Rightarrow> Layer outcome" where
  "release_n rx edge 0 l = Inr l"
| "release_n rx edge (Suc n) l =
     rbind (releaseLayer rx edge (l\<lparr> releaseEvent := None \<rparr>)) (release_n rx edge n)"

lemma release_one:
  assumes "lstate l = BUSY" "waitingForPeer l = None" "waitingForLayer l = p # ps"
    and "reacts_in_time rx" "\<forall>p t. rx p \<noteq> Some (False, t)" "edge \<noteq> 0"
  shows "\<exists>l'. releaseLayer rx edge (l\<lparr> releaseEvent := None \<rparr>) = Inr l' \<and> lstate l' = BUSY
    \<and> waitingForPeer l' = None \<and> waitingForLayer l' = ps \<and> gh_retried l' = gh_retried l @ [p]"
proof (cases "rx p")
  case None
  then show ?thesis
    using assms by (simp add: releaseLayer_def retryWaiting_def sendRetry_def occupyLayer_def)
next
  case (Some st)
  with assms(5) obtain t where st: "st = (True, t)" by (cases st; cases "fst st") auto
  with Some assms(4) have "t \<noteq> 0" by (auto simp: reacts_in_time_def)
  then show ?thesis
    using assms Some st by (simp add: releaseLayer_def retryWaiting_def sendRetry_def layer_op_defs)
qed

text \<open>A crossbar layer is fair: as long as the destination accepts, the ports that wait are
  told to retry in the order in which they were refused, one at each release of the layer,
  whether or not a port reacts; after as many releases as there are ports before it, every
  waiting port has had its turn.\<close>

theorem layer_serves_in_order:
  assumes "lstate l = BUSY" "waitingForPeer l = None" "n \<le> length (waitingForLayer l)"
    and "reacts_in_time rx" "\<forall>p t. rx p \<noteq> Some (False, t)" "edge \<noteq> 0"
  shows "\<exists>l'. release_n rx edge n l = Inr l' \<and> lstate l' = BUSY
    \<and> waitingForLayer l' = drop n (waitingForLayer l)
    \<and> gh_retried l' = gh_retried l @ take n (waitingForLayer l)"
  using assms(1-3)
proof (induction n arbitrary: l)
  case (Suc n)
  then obtain p ps where w: "waitingForLayer l = p # ps" by (cases "waitingForLayer l") auto
  from release_one[OF Suc.prems(1,2) w assms(4-6)] obtain l1 where
    "releaseLayer rx edge (l\<lparr> releaseEvent := None \<rparr>) = Inr l1" "lstate l1 = BUSY"
    "waitingForPeer l1 = None" "waitingForLayer l1 = ps" "gh_retried l1 = gh_retried l @ [p]" by blast
  with Suc.IH[of l1] Suc.prems(3) w show ?case by auto
qed simp

theorem layer_serves_in_order_witness:
  "\<exists>l'. release_n (\<lambda>p. if p = 2 then Some (True, 20) else None) 15 2 busy_layer = Inr l'
    \<and> waitingForLayer l' = [] \<and> gh_retried l' = [2, 3]"
proof -
  let ?rx = "\<lambda>p. if p = 2 then Some (True, 20 :: u64) else None"
  have "reacts_in_time ?rx" "\<forall>p t. ?rx p \<noteq> Some (False, t)"
    by (simp_all add: reacts_in_time_def split: if_splits)
  from layer_serves_in_order[OF _ _ _ this, of busy_layer 2 15] show ?thesis
    by (auto simp: busy_layer_def new_Layer_def)
qed

end
