(* ===== verification/IOXBar.thy ===== *)
theory IOXBar
  imports XBarPorts XBarLayer Packets
begin

text \<open>
  The non-coherent crossbar (\<^verbatim>\<open>mem/noncoherent_xbar.cc\<close>) with the branch this repository adds
  for host bias checks: requests are decoded, arbitrated by the layer of their destination and
  forwarded; responses find their way back through the routing table, whose key is the
  identity of the request.

  The devices on the memory side are a parameter: given a packet they accept or refuse it and
  may change it and the world around them. Responses leave through queued ports, which always
  take them; the queue is the field \<open>sched_resps\<close>. The clock of the crossbar (current tick, the
  current and the next clock edge, the period, the ticks of a microsecond) is an argument.
  Statistics are left out.
\<close>

section \<open>The crossbar\<close>

record Clock =
  curTick :: u64
  clockEdge0 :: u64
  clockEdge1 :: u64
  clockPeriod :: u64
  tick_us :: u64

record NoncoherentXBar =
  xbase :: BaseXBar
  reqLayers :: "Layer list"
  respLayers :: "Layer list"
  routeTo :: "nat \<rightharpoonup> PortID"
  sched_resps :: "(PortID \<times> Packet \<times> u64) list"
  frontendLatency :: u64
  forwardLatency :: u64
  responseLatency :: u64
  xwidth :: u32

type_synonym 'e devices = "PortID \<Rightarrow> 'e timing_peer"

definition getAddrRange :: "Packet \<Rightarrow> AddrRange outcome" where
  "getAddrRange p =
    rbind (getAddr p) (\<lambda>a. rbind (getSize p) (\<lambda>s. Inr (RangeSize a (ucast s))))"

definition divCeil :: "u32 \<Rightarrow> u32 \<Rightarrow> u32" where
  "divCeil a b = (a + b - 1) div b"

definition calcPacketTiming :: "Clock \<Rightarrow> u32 \<Rightarrow> u64 \<Rightarrow> Packet \<Rightarrow> Packet outcome" where
  "calcPacketTiming clk width header_delay pkt =
    (let hd' = ucast (ucast (headerDelay pkt) + (clockEdge0 clk - curTick clk) + header_delay) :: u32 in
     if (ucast hd' :: u64) > tick_us clk
     then Inl (Panic ''Encountered header delay exceeding 1 us'')
     else if hasData (cmd pkt) then
       rbind (getSize pkt) (\<lambda>s.
         Inr (pkt\<lparr> headerDelay := hd',
           payloadDelay := ucast (max (ucast (payloadDelay pkt) :: u64)
             (ucast (divCeil s width) * clockPeriod clk)) \<rparr>))
     else Inr (pkt\<lparr> headerDelay := hd' \<rparr>))"

definition at_port :: "'a list \<Rightarrow> PortID \<Rightarrow> 'a outcome" where
  "at_port xs p = (if 0 \<le> p then array_at xs (nat p) else Inl (Undefined ''array index''))"

definition set_req_layer :: "PortID \<Rightarrow> Layer \<Rightarrow> NoncoherentXBar \<Rightarrow> NoncoherentXBar" where
  "set_req_layer p l x = x\<lparr> reqLayers := (reqLayers x)[nat p := l] \<rparr>"

definition set_resp_layer :: "PortID \<Rightarrow> Layer \<Rightarrow> NoncoherentXBar \<Rightarrow> NoncoherentXBar" where
  "set_resp_layer p l x = x\<lparr> respLayers := (respLayers x)[nat p := l] \<rparr>"

definition expects_response :: "Packet \<Rightarrow> bool" where
  "expects_response pkt = (needsResponse (cmd pkt) \<and> \<not> cacheResponding pkt)"

text \<open>Entering a request into the routing table.\<close>

definition add_route :: "bool \<Rightarrow> nat \<Rightarrow> PortID \<Rightarrow> NoncoherentXBar \<Rightarrow> NoncoherentXBar outcome" where
  "add_route expect r src x =
    (if expect then
       rbind (assert_that (routeTo x r = None) ''routeTo.find(pkt->req) == routeTo.end()'') (\<lambda>_.
         Inr (x\<lparr> routeTo := (routeTo x)(r \<mapsto> src) \<rparr>))
     else Inr x)"

definition find_dest :: "AddrRange \<Rightarrow> NoncoherentXBar \<Rightarrow> (PortID \<times> NoncoherentXBar) outcome" where
  "find_dest r x = rbind (findPort r (xbase x)) (\<lambda>(p, b). Inr (p, x\<lparr> xbase := b \<rparr>))"

text \<open>\<open>recvTimingReq\<close> for a host bias check, and for every other packet.\<close>

definition recvBiasCheck ::
  "'e devices \<Rightarrow> Packet \<Rightarrow> PortID \<Rightarrow> NoncoherentXBar \<Rightarrow> 'e
    \<Rightarrow> (bool \<times> Packet \<times> NoncoherentXBar \<times> 'e) outcome" where
  "recvBiasCheck devs pkt src x e =
    rbind (add_route (expects_response pkt) (req_ptr (req pkt)) src x) (\<lambda>x1.
    rbind (find_dest (RangeSize 0xA0000000 0x40000) x1) (\<lambda>(p, x2).
    rbind (at_port (reqLayers x2) p) (\<lambda>_.
    rbind (devs p pkt e) (\<lambda>(success, pkt', e'). Inr (success, pkt', x2, e')))))"

definition recvTimingReq_plain ::
  "'e devices \<Rightarrow> Clock \<Rightarrow> Packet \<Rightarrow> PortID \<Rightarrow> NoncoherentXBar \<Rightarrow> 'e
    \<Rightarrow> (bool \<times> Packet \<times> NoncoherentXBar \<times> 'e) outcome" where
  "recvTimingReq_plain devs clk pkt src x e =
    rbind (at_port (respLayers x) src) (\<lambda>_.
    rbind (assert_that (\<not> isExpressSnoop pkt) ''!pkt->isExpressSnoop()'') (\<lambda>_.
    rbind (getAddrRange pkt) (\<lambda>r.
    rbind (find_dest r x) (\<lambda>(p, x1).
    rbind (at_port (reqLayers x1) p) (\<lambda>l.
    rbind (tryTiming (nat src) l) (\<lambda>(free, l1).
      if \<not> free then Inr (False, pkt, set_req_layer p l1 x1, e)
      else
        rbind (calcPacketTiming clk (xwidth x1)
            ((frontendLatency x1 + forwardLatency x1) * clockPeriod clk) pkt) (\<lambda>pkt1.
        let finish = clockEdge1 clk + ucast (payloadDelay pkt1); expect = expects_response pkt1 in
        rbind (devs p pkt1 e) (\<lambda>(success, pkt2, e').
          if \<not> success then
            rbind (failedTiming (nat src) (clockEdge1 clk) l1) (\<lambda>l2.
              Inr (False, pkt2\<lparr> headerDelay := headerDelay pkt \<rparr>, set_req_layer p l2 x1, e'))
          else
            rbind (add_route expect (req_ptr (req pkt2)) src x1) (\<lambda>x2.
            rbind (succeededTiming finish l1) (\<lambda>l2.
              Inr (True, pkt2, set_req_layer p l2 x2, e')))))))))))"

definition recvTimingReq ::
  "'e devices \<Rightarrow> Clock \<Rightarrow> Packet \<Rightarrow> PortID \<Rightarrow> NoncoherentXBar \<Rightarrow> 'e
    \<Rightarrow> (bool \<times> Packet \<times> NoncoherentXBar \<times> 'e) outcome" where
  "recvTimingReq devs clk pkt src x e =
    (if cxl_packet_type (req pkt) = HostBiasCheck then recvBiasCheck devs pkt src x e
     else recvTimingReq_plain devs clk pkt src x e)"

definition xbar_recvTimingResp ::
  "Clock \<Rightarrow> Packet \<Rightarrow> PortID \<Rightarrow> NoncoherentXBar \<Rightarrow> (bool \<times> NoncoherentXBar) outcome" where
  "xbar_recvTimingResp clk pkt src x =
    rbind (at_port (reqLayers x) src) (\<lambda>_.
    (case routeTo x (req_ptr (req pkt)) of
       None \<Rightarrow> Inl (AssertFail ''route_lookup != routeTo.end()'')
     | Some dest \<Rightarrow>
         rbind (assert_that (dest \<noteq> InvalidPortID) ''cpu_side_port_id != InvalidPortID'') (\<lambda>_.
         rbind (assert_that (nat dest < length (respLayers x)) ''cpu_side_port_id < respLayers.size()'') (\<lambda>_.
         rbind (at_port (respLayers x) dest) (\<lambda>l.
         rbind (tryTiming (nat src) l) (\<lambda>(free, l1).
           if \<not> free then Inr (False, set_resp_layer dest l1 x)
           else
             rbind (calcPacketTiming clk (xwidth x) (responseLatency x * clockPeriod clk) pkt) (\<lambda>pkt1.
             rbind (succeededTiming (clockEdge1 clk + ucast (payloadDelay pkt1)) l1) (\<lambda>l2.
               Inr (True, set_resp_layer dest l2 (x\<lparr>
                 sched_resps := sched_resps x
                   @ [(dest, pkt1\<lparr> headerDelay := 0 \<rparr>, curTick clk + ucast (headerDelay pkt1))],
                 routeTo := (routeTo x)(req_ptr (req pkt) := None) \<rparr>)))))))))) "

text \<open>\<open>recvReqRetry\<close>: the destination is ready again. The ports that wait for the layer are told;
  what they do at once is the parameter of the layer.\<close>

definition recvReqRetry :: "retry_reaction \<Rightarrow> Clock \<Rightarrow> PortID \<Rightarrow> NoncoherentXBar \<Rightarrow> NoncoherentXBar outcome" where
  "recvReqRetry rx clk p x =
    rbind (at_port (reqLayers x) p) (\<lambda>l.
    rbind (recvRetry rx (clockEdge0 clk) l) (\<lambda>l1. Inr (set_req_layer p l1 x)))"

text \<open>\<open>recvAtomic\<close>, without a backdoor; the packet's payload delay becomes the latency.\<close>

definition xbar_recvAtomic ::
  "(PortID \<Rightarrow> 'e atomic_peer) \<Rightarrow> Packet \<Rightarrow> NoncoherentXBar \<Rightarrow> 'e
    \<Rightarrow> (u64 \<times> Packet \<times> NoncoherentXBar \<times> 'e) outcome" where
  "xbar_recvAtomic devs pkt x e =
    rbind (getAddrRange pkt) (\<lambda>r.
    rbind (find_dest r x) (\<lambda>(p, x1).
    rbind (at_port (reqLayers x1) p) (\<lambda>_.
    rbind (devs p pkt e) (\<lambda>(lat, pkt1, e').
      Inr (lat, pkt1\<lparr> payloadDelay := ucast lat \<rparr>, x1, e')))))"

section \<open>What the operations do to the routing table\<close>

lemma layer_sels [simp]:
  "routeTo (set_req_layer p l x) = routeTo x" "routeTo (set_resp_layer p l x) = routeTo x"
  "sched_resps (set_req_layer p l x) = sched_resps x" "sched_resps (set_resp_layer p l x) = sched_resps x"
  "respLayers (set_req_layer p l x) = respLayers x"
  by (simp_all add: set_req_layer_def set_resp_layer_def)

lemma find_dest_frame:
  "find_dest r x = Inr (p, x') \<Longrightarrow> routeTo x' = routeTo x \<and> sched_resps x' = sched_resps x
    \<and> respLayers x' = respLayers x \<and> reqLayers x' = reqLayers x"
  by (auto simp: find_dest_def)

lemma calcPacketTiming_frame:
  assumes "calcPacketTiming clk w d pkt = Inr pkt'"
  shows "cmd pkt' = cmd pkt \<and> req pkt' = req pkt \<and> p_flags pkt' = p_flags pkt"
  using assms unfolding calcPacketTiming_def Let_def
  by (cases "hasData (cmd pkt)") (auto split: if_splits)

lemma calcPacketTiming_delays:
  assumes "calcPacketTiming clk w d pkt = Inr pkt'"
  shows "\<exists>h p. pkt' = pkt\<lparr> headerDelay := h, payloadDelay := p \<rparr>"
proof (cases "hasData (cmd pkt)")
  case True
  with assms show ?thesis by (auto simp: calcPacketTiming_def Let_def split: if_splits)
next
  case False
  with assms obtain h where "pkt' = pkt\<lparr> headerDelay := h, payloadDelay := payloadDelay pkt \<rparr>"
    by (auto simp: calcPacketTiming_def Let_def split: if_splits)
  then show ?thesis by blast
qed

lemma expects_response_frame:
  "cmd p = cmd q \<Longrightarrow> p_flags p = p_flags q \<Longrightarrow> expects_response p = expects_response q"
  by (simp add: expects_response_def cacheResponding_def)

text \<open>The crossbar relies on the request behind a packet staying the same
  (\<^verbatim>\<open>mem/xbar.hh\<close>, comment of \<open>routeTo\<close>).\<close>

definition keeps_request :: "'e devices \<Rightarrow> bool" where
  "keeps_request devs = (\<forall>p pkt e s pkt' e'. devs p pkt e = Inr (s, pkt', e')
    \<longrightarrow> req_ptr (req pkt') = req_ptr (req pkt))"

lemma keeps_requestD:
  "keeps_request devs \<Longrightarrow> devs p pkt e = Inr (s, pkt', e') \<Longrightarrow> req_ptr (req pkt') = req_ptr (req pkt)"
  unfolding keeps_request_def by blast

lemma add_route_frame:
  assumes "add_route b r src x = Inr x'"
  shows "routeTo x' = (if b then (routeTo x)(r \<mapsto> src) else routeTo x)"
    "sched_resps x' = sched_resps x" "respLayers x' = respLayers x" "reqLayers x' = reqLayers x"
  using assms by (auto simp: add_route_def split: if_splits)

text \<open>The outcomes of a request that is not a bias check.\<close>

lemma recvTimingReq_plainE:
  assumes "recvTimingReq_plain devs clk pkt src x e = Inr (b, pkt', x', e')"
  obtains (busy) p x1 l where "\<not> b" "pkt' = pkt" "e' = e" "0 \<le> p" "nat p < length (reqLayers x)"
      "tryTiming (nat src) (reqLayers x ! nat p) = Inr (False, l)"
      "x' = set_req_layer p l x1" "routeTo x1 = routeTo x" "sched_resps x1 = sched_resps x"
      "respLayers x1 = respLayers x" "reqLayers x1 = reqLayers x" "nat src < length (respLayers x)" "0 \<le> src"
  | (refused) p x1 l1 l2 pkt2 where "\<not> b" "pkt' = pkt2\<lparr> headerDelay := headerDelay pkt \<rparr>"
      "0 \<le> p" "nat p < length (reqLayers x)"
      "failedTiming (nat src) (clockEdge1 clk) l1 = Inr l2"
      "x' = set_req_layer p l2 x1" "routeTo x1 = routeTo x" "sched_resps x1 = sched_resps x"
      "respLayers x1 = respLayers x" "reqLayers x1 = reqLayers x" "nat src < length (respLayers x)" "0 \<le> src"
  | (accepted) p x1 x2 l2 pkt1 pkt2 where "b" "cmd pkt1 = cmd pkt" "req pkt1 = req pkt"
      "p_flags pkt1 = p_flags pkt" "devs p pkt1 e = Inr (True, pkt2, e')" "pkt' = pkt2"
      "add_route (expects_response pkt) (req_ptr (req pkt2)) src x1 = Inr x2"
      "x' = set_req_layer p l2 x2" "routeTo x1 = routeTo x" "sched_resps x1 = sched_resps x"
      "respLayers x1 = respLayers x" "reqLayers x1 = reqLayers x" "nat src < length (respLayers x)" "0 \<le> src"
proof -
  obtain r p x1 free l1 where
    d: "find_dest r x = Inr (p, x1)" and src: "0 \<le> src" "nat src < length (respLayers x)"
    and p: "0 \<le> p" "nat p < length (reqLayers x1)"
    and t: "tryTiming (nat src) (reqLayers x1 ! nat p) = Inr (free, l1)"
    and rest: "(if \<not> free then Inr (False, pkt, set_req_layer p l1 x1, e)
      else
        rbind (calcPacketTiming clk (xwidth x1)
            ((frontendLatency x1 + forwardLatency x1) * clockPeriod clk) pkt) (\<lambda>pkt1.
        let finish = clockEdge1 clk + ucast (payloadDelay pkt1); expect = expects_response pkt1 in
        rbind (devs p pkt1 e) (\<lambda>(success, pkt2, e').
          if \<not> success then
            rbind (failedTiming (nat src) (clockEdge1 clk) l1) (\<lambda>l2.
              Inr (False, pkt2\<lparr> headerDelay := headerDelay pkt \<rparr>, set_req_layer p l2 x1, e'))
          else
            rbind (add_route expect (req_ptr (req pkt2)) src x1) (\<lambda>x2.
            rbind (succeededTiming finish l1) (\<lambda>l2.
              Inr (True, pkt2, set_req_layer p l2 x2, e')))))) = Inr (b, pkt', x', e')"
    using assms unfolding recvTimingReq_plain_def at_port_def by (auto split: if_splits)
  note f = find_dest_frame[OF d]
  show ?thesis
  proof (cases free)
    case False
    with rest t p src f show ?thesis by (intro busy[of p l1 x1]) auto
  next
    case True
    with rest obtain pkt1 where c: "calcPacketTiming clk (xwidth x1)
        ((frontendLatency x1 + forwardLatency x1) * clockPeriod clk) pkt = Inr pkt1" by auto
    note cf = calcPacketTiming_frame[OF c]
    have ex: "expects_response pkt1 = expects_response pkt" using cf expects_response_frame by blast
    from rest True c obtain success pkt2 e2 where dv: "devs p pkt1 e = Inr (success, pkt2, e2)"
      and rest2: "(if \<not> success then
            rbind (failedTiming (nat src) (clockEdge1 clk) l1) (\<lambda>l2.
              Inr (False, pkt2\<lparr> headerDelay := headerDelay pkt \<rparr>, set_req_layer p l2 x1, e2))
          else
            rbind (add_route (expects_response pkt1) (req_ptr (req pkt2)) src x1) (\<lambda>x2.
            rbind (succeededTiming (clockEdge1 clk + ucast (payloadDelay pkt1)) l1) (\<lambda>l2.
              Inr (True, pkt2, set_req_layer p l2 x2, e2)))) = Inr (b, pkt', x', e')"
      by (auto simp: Let_def)
    show ?thesis
    proof (cases success)
      case False
      with rest2 obtain l2 where "failedTiming (nat src) (clockEdge1 clk) l1 = Inr l2"
        "\<not> b" "pkt' = pkt2\<lparr> headerDelay := headerDelay pkt \<rparr>" "x' = set_req_layer p l2 x1" by auto
      with p src f show ?thesis by (intro refused[of pkt2 p l1 l2 x1]) auto
    next
      case True
      with rest2 obtain x2 l2 where
        "add_route (expects_response pkt) (req_ptr (req pkt2)) src x1 = Inr x2"
        "b" "pkt' = pkt2" "x' = set_req_layer p l2 x2" "e2 = e'" unfolding ex by auto
      with dv True cf src f show ?thesis by (intro accepted[of pkt1 p pkt2 x1 x2 l2]) auto
    qed
  qed
qed

lemma recvBiasCheck_route:
  assumes "recvBiasCheck devs pkt src x e = Inr (b, pkt', x', e')"
  shows "routeTo x' = (if expects_response pkt then (routeTo x)(req_ptr (req pkt) \<mapsto> src) else routeTo x)"
    "respLayers x' = respLayers x"
proof -
  obtain x1 p where a: "add_route (expects_response pkt) (req_ptr (req pkt)) src x = Inr x1"
    and d: "find_dest (RangeSize 0xA0000000 0x40000) x1 = Inr (p, x')"
    using assms by (auto simp: recvBiasCheck_def)
  show "routeTo x' = (if expects_response pkt then (routeTo x)(req_ptr (req pkt) \<mapsto> src) else routeTo x)"
    "respLayers x' = respLayers x"
    using add_route_frame[OF a] find_dest_frame[OF d] by simp_all
qed

text \<open>An accepted request that expects a response enters the routing table under its own key.\<close>

lemma recvTimingReq_route:
  assumes "recvTimingReq devs clk pkt src x e = Inr (b, pkt', x', e')" "keeps_request devs"
  shows "r \<noteq> req_ptr (req pkt) \<Longrightarrow> routeTo x' r = routeTo x r"
    and "b \<Longrightarrow> expects_response pkt \<Longrightarrow> routeTo x' (req_ptr (req pkt)) = Some src"
    and "length (respLayers x') = length (respLayers x)"
proof -
  have "(r \<noteq> req_ptr (req pkt) \<longrightarrow> routeTo x' r = routeTo x r)
    \<and> (b \<longrightarrow> expects_response pkt \<longrightarrow> routeTo x' (req_ptr (req pkt)) = Some src)
    \<and> length (respLayers x') = length (respLayers x)"
  proof (cases "cxl_packet_type (req pkt) = HostBiasCheck")
    case True
    then show ?thesis
      using assms(1) recvBiasCheck_route[of devs pkt src x e b pkt' x' e'] by (simp add: recvTimingReq_def)
  next
    case False
    then have "recvTimingReq_plain devs clk pkt src x e = Inr (b, pkt', x', e')"
      using assms(1) by (simp add: recvTimingReq_def)
    then show ?thesis
    proof (cases rule: recvTimingReq_plainE)
      case (accepted p x1 x2 l2 pkt1 pkt2)
      have "req_ptr (req pkt2) = req_ptr (req pkt)"
        using keeps_requestD[OF assms(2) accepted(5)] accepted(3) by simp
      with add_route_frame[OF accepted(7)] accepted show ?thesis by simp
    qed simp_all
  qed
  then show "r \<noteq> req_ptr (req pkt) \<Longrightarrow> routeTo x' r = routeTo x r"
    "b \<Longrightarrow> expects_response pkt \<Longrightarrow> routeTo x' (req_ptr (req pkt)) = Some src"
    "length (respLayers x') = length (respLayers x)" by blast+
qed

lemma xbar_recvTimingRespE:
  assumes "xbar_recvTimingResp clk pkt src x = Inr (b, x')" "routeTo x (req_ptr (req pkt)) = Some dest"
  obtains (busy) l where "\<not> b" "0 \<le> dest" "nat dest < length (respLayers x)"
      "tryTiming (nat src) (respLayers x ! nat dest) = Inr (False, l)" "x' = set_resp_layer dest l x"
  | (sent) l p t where "b" "0 \<le> dest" "nat dest < length (respLayers x)"
      "x' = set_resp_layer dest l (x\<lparr> sched_resps := sched_resps x
          @ [(dest, pkt\<lparr> headerDelay := 0, payloadDelay := p \<rparr>, t)],
        routeTo := (routeTo x)(req_ptr (req pkt) := None) \<rparr>)"
proof -
  obtain free l1 where d: "0 \<le> dest" "nat dest < length (respLayers x)"
    and t: "tryTiming (nat src) (respLayers x ! nat dest) = Inr (free, l1)"
    and rest: "(if \<not> free then Inr (False, set_resp_layer dest l1 x)
           else
             rbind (calcPacketTiming clk (xwidth x) (responseLatency x * clockPeriod clk) pkt) (\<lambda>pkt1.
             rbind (succeededTiming (clockEdge1 clk + ucast (payloadDelay pkt1)) l1) (\<lambda>l2.
               Inr (True, set_resp_layer dest l2 (x\<lparr>
                 sched_resps := sched_resps x
                   @ [(dest, pkt1\<lparr> headerDelay := 0 \<rparr>, curTick clk + ucast (headerDelay pkt1))],
                 routeTo := (routeTo x)(req_ptr (req pkt) := None) \<rparr>))))) = Inr (b, x')"
    using assms unfolding xbar_recvTimingResp_def at_port_def by (auto split: if_splits)
  show ?thesis
  proof (cases free)
    case False
    with rest t d show ?thesis by (intro busy[of l1]) auto
  next
    case True
    with rest obtain pkt1 l2 where c: "calcPacketTiming clk (xwidth x) (responseLatency x * clockPeriod clk) pkt = Inr pkt1"
      and x': "b" "x' = set_resp_layer dest l2 (x\<lparr> sched_resps := sched_resps x
          @ [(dest, pkt1\<lparr> headerDelay := 0 \<rparr>, curTick clk + ucast (headerDelay pkt1))],
        routeTo := (routeTo x)(req_ptr (req pkt) := None) \<rparr>)" by auto
    obtain h p where "pkt1 = pkt\<lparr> headerDelay := h, payloadDelay := p \<rparr>" using calcPacketTiming_delays[OF c] by blast
    then have "pkt1\<lparr> headerDelay := 0 \<rparr> = pkt\<lparr> headerDelay := 0, payloadDelay := p \<rparr>" by simp
    with x'(2) show ?thesis by (intro sent[OF x'(1) d]) simp
  qed
qed

lemma xbar_recvTimingResp_route:
  assumes "xbar_recvTimingResp clk pkt src x = Inr (b, x')" "r \<noteq> req_ptr (req pkt)"
  shows "routeTo x' r = routeTo x r"
proof (cases "routeTo x (req_ptr (req pkt))")
  case None
  with assms(1) show ?thesis by (auto simp: xbar_recvTimingResp_def)
next
  case (Some dest)
  from assms(1) this show ?thesis by (cases rule: xbar_recvTimingRespE) (use assms(2) in simp_all)
qed

section \<open>Properties\<close>

text \<open>Traffic through the crossbar between the request \<open>r\<close> and its response: timing requests and responses of
  other requests, atomic accesses, changes of the address ranges, and any change of the layers
  (their releases and retries, and what a port does in the middle of one). A functional access or
  a request for a backdoor changes the crossbar by the lookup of its destination only.\<close>

inductive io_traffic :: "'e devices \<Rightarrow> nat \<Rightarrow> NoncoherentXBar \<times> 'e \<Rightarrow> NoncoherentXBar \<times> 'e \<Rightarrow> bool"
  for devs :: "'e devices" and r :: nat and s :: "NoncoherentXBar \<times> 'e" where
  none: "io_traffic devs r s s"
| request: "io_traffic devs r s (x, e) \<Longrightarrow> recvTimingReq devs clk pkt src x e = Inr (b, pkt', x', e')
    \<Longrightarrow> req_ptr (req pkt) \<noteq> r \<Longrightarrow> io_traffic devs r s (x', e')"
| response: "io_traffic devs r s (x, e) \<Longrightarrow> xbar_recvTimingResp clk rsp mp x = Inr (b, x')
    \<Longrightarrow> req_ptr (req rsp) \<noteq> r \<Longrightarrow> io_traffic devs r s (x', e)"
| layers: "io_traffic devs r s (x, e) \<Longrightarrow> length rq = length (reqLayers x) \<Longrightarrow> length rs = length (respLayers x)
    \<Longrightarrow> io_traffic devs r s (x\<lparr> reqLayers := rq, respLayers := rs \<rparr>, e)"
| range_change: "io_traffic devs r s (x, e) \<Longrightarrow> recvRangeChange ranges p (xbase x) = Inr (n, bb)
    \<Longrightarrow> io_traffic devs r s (x\<lparr> xbase := bb \<rparr>, e)"
| atomic: "io_traffic devs r s (x, e) \<Longrightarrow> xbar_recvAtomic adevs pkt x e = Inr (lat, pkt', x', e')
    \<Longrightarrow> io_traffic devs r s (x', e')"
| lookup: "io_traffic devs r s (x, e) \<Longrightarrow> find_dest ar x = Inr (p, x') \<Longrightarrow> io_traffic devs r s (x', e)"
| world: "io_traffic devs r s (x, e) \<Longrightarrow> io_traffic devs r s (x, e')"

text \<open>The release of a layer and the notification that a destination is ready again are among these steps.\<close>

lemma layer_events_are_io_traffic:
  assumes t: "io_traffic devs r s (x, e)"
  shows "releaseLayer rx edge ((reqLayers x ! nat p)\<lparr> releaseEvent := None \<rparr>) = Inr l
      \<Longrightarrow> io_traffic devs r s (set_req_layer p l x, e)"
    and "releaseLayer rx edge ((respLayers x ! nat p)\<lparr> releaseEvent := None \<rparr>) = Inr l
      \<Longrightarrow> io_traffic devs r s (set_resp_layer p l x, e)"
    and "recvReqRetry rx clk mp x = Inr x' \<Longrightarrow> io_traffic devs r s (x', e)"
proof -
  have q: "io_traffic devs r s (set_req_layer p l x, e)" for p l
    using io_traffic.layers[OF t, of "(reqLayers x)[nat p := l]" "respLayers x"] by (simp add: set_req_layer_def)
  then show "io_traffic devs r s (set_req_layer p l x, e)" .
  show "io_traffic devs r s (set_resp_layer p l x, e)"
    using io_traffic.layers[OF t, of "reqLayers x" "(respLayers x)[nat p := l]"] by (simp add: set_resp_layer_def)
  show "recvReqRetry rx clk mp x = Inr x' \<Longrightarrow> io_traffic devs r s (x', e)"
    using q by (auto simp: recvReqRetry_def)
qed

lemma io_traffic_route:
  assumes "io_traffic devs r s s'" "keeps_request devs"
  shows "routeTo (fst s') r = routeTo (fst s) r"
  using assms(1)
proof (induction rule: io_traffic.induct)
  case (request x e clk pkt src b pkt' x' e')
  then show ?case using recvTimingReq_route(1)[OF request(2) assms(2), of r] by simp
next
  case (response x e clk rsp mp b x')
  then show ?case using xbar_recvTimingResp_route[OF response(2), of r] by simp
next
  case (atomic x e adevs pkt lat pkt' x' e')
  then show ?case by (auto simp: xbar_recvAtomic_def dest!: find_dest_frame)
next
  case (lookup x e ar p x')
  then show ?case using find_dest_frame[OF lookup(2)] by simp
qed simp_all

text \<open>C26: A response returns to the port its request came from. Let a request that expects a
  response be accepted from a CPU-side port, let any traffic of other requests pass through
  the crossbar, with layers released and retried at will, and let the response arrive: if the
  crossbar takes it, it is queued at that port, unchanged but for its delays, and the route is
  forgotten; if the port's layer is busy, the responding port waits for it, and the route stays.
  The devices may do anything but exchange the request of a packet.\<close>

theorem response_returns_to_requester:
  assumes "keeps_request devs" "recvTimingReq devs clk pkt src x e = Inr (True, pkt', x1, e1)"
    and "expects_response pkt" "io_traffic devs (req_ptr (req pkt)) (x1, e1) (x2, e2)"
    and "xbar_recvTimingResp clk' rsp mp x2 = Inr (b, x3)" "req_ptr (req rsp) = req_ptr (req pkt)"
  shows "if b then \<exists>d t. sched_resps x3 = sched_resps x2 @ [(src, rsp\<lparr> headerDelay := 0, payloadDelay := d \<rparr>, t)]
      \<and> routeTo x3 (req_ptr (req pkt)) = None
    else sched_resps x3 = sched_resps x2 \<and> routeTo x3 (req_ptr (req pkt)) = Some src
      \<and> nat mp \<in> set (waitingForLayer (respLayers x3 ! nat src))"
proof -
  have r: "routeTo x2 (req_ptr (req rsp)) = Some src"
    using recvTimingReq_route(2)[OF assms(2,1)] io_traffic_route[OF assms(4,1)] assms(3,6) by simp
  from assms(5) r show ?thesis
  proof (cases rule: xbar_recvTimingRespE)
    case (busy l)
    then have "waitingForLayer l = waitingForLayer (respLayers x2 ! nat src) @ [nat mp]"
      by (auto simp: tryTiming_def split: if_splits)
    with busy r assms(6) show ?thesis by (simp add: set_resp_layer_def)
  next
    case (sent l p t)
    with assms(6) show ?thesis by auto
  qed
qed


text \<open>A crossbar with two ports on each side, a device that takes everything, one that refuses
  everything, and the packets of a read.\<close>

definition sample_xbar :: NoncoherentXBar where
  "sample_xbar = \<lparr> xbase = (new_BaseXBar 3 InvalidPortID False)\<lparr> portMap :=
        \<lparr> tree = [(AddrRange2 0x80000000 0x90000000, 1), (AddrRange2 0x90000000 0xB0000000, 2)],
          mcache = [] \<rparr>, gotAllAddrRanges := True \<rparr>,
      reqLayers = [new_Layer, new_Layer, new_Layer], respLayers = [new_Layer, new_Layer],
      routeTo = Map.empty, sched_resps = [], frontendLatency = 1, forwardLatency = 1,
      responseLatency = 1, xwidth = 16 \<rparr>"

definition sample_clock :: Clock where
  "sample_clock = \<lparr> curTick = 1000, clockEdge0 = 1000, clockEdge1 = 1500, clockPeriod = 500,
    tick_us = 1000000 \<rparr>"

definition accepting :: "unit devices" where
  "accepting = (\<lambda>p pkt e. Inr (True, pkt, e))"


definition sample_read :: "CXLPacketType \<Rightarrow> Packet" where
  "sample_read t = Packet_new (sample_request\<lparr> cxl_packet_type := t \<rparr>) ReadReq"

definition sample_read_resp :: Packet where
  "sample_read_resp = Packet_new sample_request ReadResp"

definition after_request :: "(bool \<times> Packet \<times> NoncoherentXBar \<times> unit) outcome" where
  "after_request = recvTimingReq accepting sample_clock (sample_read DefaultPacket) 1 sample_xbar ()"

text \<open>The layers are released; another port uses the same destination; then the response arrives.\<close>

definition released_xbar :: NoncoherentXBar where
  "released_xbar = (fst (snd (snd (projr after_request))))\<lparr>
     reqLayers := [new_Layer, new_Layer, new_Layer], respLayers := [new_Layer, new_Layer] \<rparr>"

definition other_request :: "(bool \<times> Packet \<times> NoncoherentXBar \<times> unit) outcome" where
  "other_request = recvTimingReq accepting sample_clock
     (Packet_new (sample_request\<lparr> req_ptr := 2 \<rparr>) ReadReq) 0 released_xbar ()"

definition after_response :: "(bool \<times> NoncoherentXBar) outcome" where
  "after_response = xbar_recvTimingResp sample_clock sample_read_resp 2 (fst (snd (snd (projr other_request))))"

lemma outcome_shape:
  "\<not> isl r \<Longrightarrow> fst (projr r) = b \<Longrightarrow> \<exists>y. r = Inr (b, y)"
  by (cases r) auto

lemma sample_io_traffic:
  obtains pkt' x1 x2 where "after_request = Inr (True, pkt', x1, ())" "io_traffic accepting 1 (x1, ()) (x2, ())"
    "x2 = fst (snd (snd (projr other_request)))"
proof -
  have q: "\<not> isl after_request" "fst (projr after_request)" "\<not> isl other_request" "fst (projr other_request)"
    "length (reqLayers (fst (snd (snd (projr after_request))))) = 3"
    "length (respLayers (fst (snd (snd (projr after_request))))) = 2"
    by code_simp+
  obtain pkt' x1 where a: "after_request = Inr (True, pkt', x1, ())"
    using outcome_shape[OF q(1), of True] q(2) by (metis (full_types) old.unit.exhaust surj_pair)
  obtain pkt2 x2 where o: "other_request = Inr (True, pkt2, x2, ())"
    using outcome_shape[OF q(3), of True] q(4) by (metis (full_types) old.unit.exhaust surj_pair)
  have r: "released_xbar = x1\<lparr> reqLayers := [new_Layer, new_Layer, new_Layer], respLayers := [new_Layer, new_Layer] \<rparr>"
    by (simp add: released_xbar_def a)
  have "io_traffic accepting 1 (x1, ()) (released_xbar, ())" unfolding r
    by (rule io_traffic.layers[OF io_traffic.none]) (use q(5)[unfolded a] q(6)[unfolded a] in simp_all)
  from io_traffic.request[OF this o[unfolded other_request_def]] have "io_traffic accepting 1 (x1, ()) (x2, ())"
    by (simp add: Packet_new_def)
  then show ?thesis by (rule that[OF a]) (simp add: o)
qed

theorem response_returns_to_requester_witness:
  "\<exists>x3 d t. after_response = Inr (True, x3)
    \<and> sched_resps x3 = [(1, sample_read_resp\<lparr> headerDelay := 0, payloadDelay := d \<rparr>, t)]"
proof -
  obtain pkt' x1 x2 where a: "after_request = Inr (True, pkt', x1, ())" "io_traffic accepting 1 (x1, ()) (x2, ())"
    "x2 = fst (snd (snd (projr other_request)))" by (rule sample_io_traffic)
  have q: "\<not> isl after_response" "fst (projr after_response)" "sched_resps (fst (snd (snd (projr other_request)))) = []"
    by code_simp+
  obtain x3 where b: "after_response = Inr (True, x3)"
    using outcome_shape[OF q(1), of True] q(2) by blast
  then have r: "xbar_recvTimingResp sample_clock sample_read_resp 2 x2 = Inr (True, x3)"
    unfolding after_response_def a(3) .
  have k: "keeps_request accepting" by (simp add: keeps_request_def accepting_def)
  have e: "expects_response (sample_read DefaultPacket)" "req_ptr (req (sample_read DefaultPacket)) = 1"
    "req_ptr (req sample_read_resp) = req_ptr (req (sample_read DefaultPacket))" by code_simp+
  from response_returns_to_requester[OF k a(1)[unfolded after_request_def] e(1) a(2)[folded e(2)] r e(3)]
  show ?thesis using b q(3) a(3) by auto
qed


end
