(* ===== verification/BridgeAtomic.thy ===== *)
theory BridgeAtomic
  imports BridgeQueues
begin

text \<open>
  The atomic path of the root complex (\<open>PciBridgeSlavePort::recvAtomic\<close> in
  \<^verbatim>\<open>mem/PciBridge.cc\<close>), with its agreement with the timing path on the host's requests to the
  device. The peers of the master ports and the host caches behind the snooping port are
  parameters that act on an environment.
\<close>

section \<open>Atomic requests\<close>

text \<open>What the handler has found out before it forwards the packet: the latency of a snoop, whether
  a CXL response is due, and whether the snoop already answered the packet.\<close>

record 'e atomic_st =
  at_pkt :: Packet
  at_latency :: u64
  Need_CXLResp :: bool
  at_sink :: bool
  at_env :: 'e

definition atomic_makeCXL :: "HA_cases \<Rightarrow> nat \<Rightarrow> 'e atomic_st \<Rightarrow> 'e atomic_st outcome" where
  "atomic_makeCXL tc slaveID st =
    (if slaveID = 0
     then rbind (makeCXL_or_panic tc (at_pkt st)) (\<lambda>p. Inr (st\<lparr> at_pkt := p \<rparr>))
     else Inr st)"

text \<open>A request of the host to host memory: the device is snooped if the packet asks for it, and
  the snoop message is removed again.\<close>

definition atomic_snoop_device ::
  "(nat \<Rightarrow> 'e atomic_peer) \<Rightarrow> (addr \<Rightarrow> nat) \<Rightarrow> 'e atomic_st \<Rightarrow> 'e atomic_st outcome" where
  "atomic_snoop_device sendAtomic get_master st =
    (if cxl_packet_type (req (at_pkt st)) = CXLcacheH2DReq then
       rbind (makeCXLSnpReq (at_pkt st)) (\<lambda>(_, p1).
       rbind (sendAtomic (get_master 0x15000000) p1 (at_env st)) (\<lambda>(snoop_latency, p2, e).
         let p3 = upd_req (\<lambda>r. r\<lparr> cxl_cache := None \<rparr>) p2 in
         Inr (st\<lparr> at_pkt := p3, at_latency := at_latency st + snoop_latency,
           at_sink := HA_sinkPacket p3, Need_CXLResp := True, at_env := e \<rparr>)))
     else Inr st)"

text \<open>A request of the device to host memory: the host caches are snooped.\<close>

definition atomic_snoop_host ::
  "'e atomic_peer \<Rightarrow> 'e atomic_st \<Rightarrow> 'e atomic_st outcome" where
  "atomic_snoop_host sendAtomicSnoop st =
    (if cxl_packet_type (req (at_pkt st)) \<noteq> CXLcacheH2DReq then
       rbind (forwardAtomic sendAtomicSnoop (at_pkt st) (at_env st))
         (\<lambda>(snoop_response_cmd, snoop_response_latency, p1, e).
         Inr (st\<lparr> at_pkt := (if snoop_response_cmd \<noteq> InvalidCmd
             then p1\<lparr> cmd := snoop_response_cmd \<rparr> else p1),
           at_latency := at_latency st + snoop_response_latency,
           at_sink := HA_sinkPacket p1, Need_CXLResp := True, at_env := e \<rparr>))
     else Inr st)"

definition atomic_by_addr ::
  "HA_cases \<Rightarrow> (nat \<Rightarrow> 'e atomic_peer) \<Rightarrow> 'e atomic_peer \<Rightarrow> (addr \<Rightarrow> nat) \<Rightarrow> nat \<Rightarrow> addr
    \<Rightarrow> 'e atomic_st \<Rightarrow> 'e atomic_st outcome" where
  "atomic_by_addr tc sendAtomic sendAtomicSnoop get_master slaveID a st =
    (if 0x15000000 \<le> a \<and> a < 0x15040000 then atomic_makeCXL tc slaveID st
     else if 0x80000000 \<le> a \<and> a < 0xA0000000 then atomic_makeCXL tc slaveID st
     else if 0xA0000000 \<le> a then
       (if slaveID = 0 then atomic_snoop_device sendAtomic get_master st
        else atomic_snoop_host sendAtomicSnoop st)
     else Inr st)"

text \<open>The end of the handler: forward the packet unless a snoop answered it, and let the home agent
  complete the CXL exchange. The bridge's own delay is multiplied by zero in the source.\<close>

definition atomic_forward ::
  "(nat \<Rightarrow> 'e atomic_peer) \<Rightarrow> nat \<Rightarrow> 'e atomic_st \<Rightarrow> (u64 \<times> Packet \<times> 'e) outcome" where
  "atomic_forward sendAtomic masterPort st =
    rbind (if Need_CXLResp st \<and> at_sink st then Inr (0, at_pkt st, at_env st)
           else sendAtomic masterPort (at_pkt st) (at_env st)) (\<lambda>(access_latency, p, e).
    rbind (if Need_CXLResp st then reciveCXL p else Inr p) (\<lambda>p'.
      Inr (at_latency st + access_latency, p', e)))"

definition slave_recvAtomic ::
  "HA_cases \<Rightarrow> (nat \<Rightarrow> 'e atomic_peer) \<Rightarrow> 'e atomic_peer \<Rightarrow> PciBridge \<Rightarrow> nat \<Rightarrow> Packet \<Rightarrow> 'e
    \<Rightarrow> (u64 \<times> Packet \<times> 'e) outcome" where
  "slave_recvAtomic tc sendAtomic sendAtomicSnoop b slaveID pkt e =
    rbind (getAddr pkt) (\<lambda>a.
    let get_master = getMasterPort (peer_ranges b) (cfgs b); masterPort = get_master a in
    if cacheResponding pkt then
      Inl (Panic ''Should not see packets where cache is responding'')
    else
      rbind (atomic_by_addr tc sendAtomic sendAtomicSnoop get_master slaveID a
          \<lparr> at_pkt = pkt, at_latency = 0, Need_CXLResp = False, at_sink = False, at_env = e \<rparr>)
        (\<lambda>st.
      if cxl_packet_type (req (at_pkt st)) = HostBiasCheck then
        rbind (deref (cxl_cache (req (at_pkt st)))) (\<lambda>c.
          if 0x80000000 \<le> CXL_Cache_getAddr c \<and> CXL_Cache_getAddr c < 0xA0000000
          then checkCoherence sendAtomicSnoop (at_pkt st) (at_env st)
          else atomic_forward sendAtomic masterPort st)
      else atomic_forward sendAtomic masterPort st))"

section \<open>Agreement of the two paths\<close>

lemma makeCXL_type:
  "makeCXL_or_panic tc pkt = Inr p \<Longrightarrow> cxl_packet_type (req p) = CXLmemPacket"
  by (auto simp: makeCXL_or_panic_def makeCXLPacket_def attach_M2S_Req_def attach_M2S_RwD_def
      upd_req_def Let_def split: if_splits)

text \<open>For a host request to the device or to its memory the atomic path sends the peer exactly the
  packet that the timing path would queue, through the same master port, or fails in the same
  way, and returns the peer's answer.\<close>

lemma atomic_path_agrees_with_timing_path:
  assumes "getAddr pkt = Inr a" "\<not> cacheResponding pkt"
    and "0x15000000 \<le> a \<and> a < 0x15040000 \<or> 0x80000000 \<le> a \<and> a < 0xA0000000"
    and "cxl_packet_type (req pkt) \<noteq> HostBiasCheck"
  shows "slave_recvAtomic tc sendAtomic sendAtomicSnoop b 0 pkt e =
    rbind (translate_req tc b 0 a pkt) (\<lambda>(p, j). sendAtomic j p e)"
proof (cases "makeCXL_or_panic tc pkt")
  case (Inl x)
  then show ?thesis
    using assms by (auto simp: slave_recvAtomic_def Let_def atomic_by_addr_def atomic_makeCXL_def
        translate_req_def req_by_addr_def)
next
  case (Inr p)
  have "cxl_packet_type (req p) \<noteq> HostBiasCheck"
    using makeCXL_type[OF Inr] by simp
  moreover have "rbind r (\<lambda>(l, q, e'). Inr (0 + l, q, e')) = r" for r :: "(u64 \<times> Packet \<times> 'a) outcome"
    by (cases r) auto
  ultimately show ?thesis
    using assms Inr
    by (auto simp: slave_recvAtomic_def Let_def atomic_by_addr_def atomic_makeCXL_def
        translate_req_def req_by_addr_def req_bias_check_def atomic_forward_def)
qed

end
