(* ===== verification/FunctionalPaths.thy ===== *)
theory FunctionalPaths
  imports IOXBar BridgeAtomic
begin

text \<open>
  Functional accesses through the non-coherent crossbar (\<^verbatim>\<open>mem/noncoherent_xbar.cc\<close>) and through the
  root complex (\<^verbatim>\<open>mem/PciBridge.cc\<close>), with the construction of the crossbar and its backdoor
  requests. Whether a queued packet satisfies an access depends on the payloads, which are part of
  the environment: it is a parameter. Labels, which only serve printing, are left out.
\<close>

section \<open>The non-coherent crossbar\<close>

text \<open>One layer for each port; the default port comes after the other memory-side ports.\<close>

definition new_NoncoherentXBar :: "nat \<Rightarrow> bool \<Rightarrow> nat \<Rightarrow> bool \<Rightarrow> u64 \<times> u64 \<times> u64 \<Rightarrow> u32 \<Rightarrow> NoncoherentXBar" where
  "new_NoncoherentXBar mem_side default_port cpu_side use_default lats w =
    (let n = mem_side + (if default_port then 1 else 0) in
     \<lparr> xbase = new_BaseXBar n (if default_port then int mem_side else InvalidPortID) use_default,
       reqLayers = replicate n new_Layer, respLayers = replicate cpu_side new_Layer, NoncoherentXBar.routeTo = (\<lambda>_. None),
       sched_resps = [], frontendLatency = fst lats, forwardLatency = fst (snd lats), responseLatency = snd (snd lats),
       xwidth = w \<rparr>)"

type_synonym 'e functional_peer = "Packet \<Rightarrow> 'e \<Rightarrow> (Packet \<times> 'e) outcome"

text \<open>The queues of the CPU-side ports are asked in order; the first that satisfies the access answers it.\<close>

fun ask_ports :: "('p \<Rightarrow> Packet \<Rightarrow> 'e \<Rightarrow> (bool \<times> Packet \<times> 'e) outcome) \<Rightarrow> 'p list \<Rightarrow> Packet \<Rightarrow> 'e
    \<Rightarrow> (bool \<times> Packet \<times> 'e) outcome" where
  "ask_ports satisfy [] pkt e = Inr (False, pkt, e)"
| "ask_ports satisfy (p # ps) pkt e =
     rbind (satisfy p pkt e) (\<lambda>(found, pkt1, e1).
       if found then
         rbind (if needsResponse (cmd pkt1) then makeResponse pkt1 else Inr pkt1) (\<lambda>pkt2. Inr (True, pkt2, e1))
       else ask_ports satisfy ps pkt1 e1)"

definition noncoh_recvFunctional ::
  "(PortID \<Rightarrow> Packet \<Rightarrow> 'e \<Rightarrow> (bool \<times> Packet \<times> 'e) outcome) \<Rightarrow> (PortID \<Rightarrow> 'e functional_peer)
    \<Rightarrow> Packet \<Rightarrow> NoncoherentXBar \<Rightarrow> 'e \<Rightarrow> (Packet \<times> NoncoherentXBar \<times> 'e) outcome" where
  "noncoh_recvFunctional satisfy devs pkt x e =
    rbind (ask_ports satisfy (map int [0..<length (respLayers x)]) pkt e) (\<lambda>(found, pkt1, e1).
      if found then Inr (pkt1, x, e1)
      else
        rbind (getAddrRange pkt1) (\<lambda>r.
        rbind (find_dest r x) (\<lambda>(dest_id, x1).
        rbind (at_port (reqLayers x1) dest_id) (\<lambda>_.
        rbind (devs dest_id pkt1 e1) (\<lambda>(pkt2, e2). Inr (pkt2, x1, e2))))))"

definition noncoh_recvMemBackdoorReq ::
  "(PortID \<Rightarrow> AddrRange \<Rightarrow> 'e \<Rightarrow> 'e outcome) \<Rightarrow> AddrRange \<Rightarrow> NoncoherentXBar \<Rightarrow> 'e \<Rightarrow> (NoncoherentXBar \<times> 'e) outcome" where
  "noncoh_recvMemBackdoorReq devs r x e =
    rbind (find_dest r x) (\<lambda>(dest_id, x1).
    rbind (at_port (reqLayers x1) dest_id) (\<lambda>_.
    rbind (devs dest_id r e) (\<lambda>e1. Inr (x1, e1))))"

section \<open>The root complex\<close>

text \<open>The search of a queue; an access that is satisfied is answered at once.\<close>

fun search_queue :: "(Packet \<Rightarrow> Packet \<Rightarrow> 'e \<Rightarrow> (bool \<times> Packet \<times> 'e) outcome) \<Rightarrow> deferred list \<Rightarrow> Packet \<Rightarrow> 'e
    \<Rightarrow> (bool \<times> Packet \<times> 'e) outcome" where
  "search_queue satisfy [] pkt e = Inr (False, pkt, e)"
| "search_queue satisfy ((queued, _) # qs) pkt e =
     rbind (satisfy queued pkt e) (\<lambda>(found, pkt1, e1).
       if found then rbind (makeResponse pkt1) (\<lambda>pkt2. Inr (True, pkt2, e1))
       else search_queue satisfy qs pkt1 e1)"

definition master_trySatisfyFunctional ::
  "(Packet \<Rightarrow> Packet \<Rightarrow> 'e \<Rightarrow> (bool \<times> Packet \<times> 'e) outcome) \<Rightarrow> BridgeMaster \<Rightarrow> Packet \<Rightarrow> 'e \<Rightarrow> (bool \<times> Packet \<times> 'e) outcome" where
  "master_trySatisfyFunctional satisfy m = search_queue satisfy (m_transmitList m)"

definition slave_recvFunctional ::
  "(Packet \<Rightarrow> Packet \<Rightarrow> 'e \<Rightarrow> (bool \<times> Packet \<times> 'e) outcome) \<Rightarrow> (nat \<Rightarrow> 'e functional_peer)
    \<Rightarrow> PciBridge \<Rightarrow> nat \<Rightarrow> Packet \<Rightarrow> 'e \<Rightarrow> (Packet \<times> 'e) outcome" where
  "slave_recvFunctional satisfy devs b slaveID pkt e =
    rbind (getAddr pkt) (\<lambda>a.
    let masterPort = getMasterPort (peer_ranges b) (cfgs b) a in
    rbind (search_queue satisfy (s_transmitList (slaves b slaveID)) pkt e) (\<lambda>(found, pkt1, e1).
      if found then Inr (pkt1, e1)
      else
        rbind (master_trySatisfyFunctional satisfy (masters b masterPort) pkt1 e1) (\<lambda>(found2, pkt2, e2).
          if found2 then Inr (pkt2, e2) else devs masterPort pkt2 e2)))"

section \<open>Where functional accesses end\<close>

text \<open>A functional access leaves the timing state of the crossbar alone: routes, layers and scheduled
  responses stay; only the cache of the port map may change.\<close>

lemma functional_keeps_timing_state:
  assumes "noncoh_recvFunctional satisfy devs pkt x e = Inr (pkt', x', e')"
  shows "NoncoherentXBar.routeTo x' = NoncoherentXBar.routeTo x \<and> reqLayers x' = reqLayers x \<and> respLayers x' = respLayers x \<and> sched_resps x' = sched_resps x"
  using assms by (auto simp: noncoh_recvFunctional_def split: if_splits dest!: find_dest_frame)

text \<open>So a functional access is among the traffic through the crossbar that keeps the route of a request.\<close>

lemma functional_is_io_traffic:
  assumes "io_traffic devs r s (x, e)" "noncoh_recvFunctional satisfy fdevs pkt x e = Inr (pkt', x', e')"
  shows "io_traffic devs r s (x', e')"
proof -
  have "x' = x \<or> (\<exists>ar p. find_dest ar x = Inr (p, x'))"
    using assms(2) by (auto simp: noncoh_recvFunctional_def split: if_splits)
  then have "io_traffic devs r s (x', e)" using assms(1) by (blast intro: io_traffic.lookup)
  then show ?thesis by (rule io_traffic.world)
qed

text \<open>Queues that satisfy nothing and leave the access alone are as good as empty.\<close>

lemma ask_ports_none:
  assumes "\<And>p. p \<in> set ps \<Longrightarrow> satisfy p pkt e = Inr (False, pkt, e)"
  shows "ask_ports satisfy ps pkt e = Inr (False, pkt, e)"
  using assms by (induction ps) auto

lemma search_queue_none:
  assumes "\<And>q t. (q, t) \<in> set qs \<Longrightarrow> satisfy q pkt e = Inr (False, pkt, e)"
  shows "search_queue satisfy qs pkt e = Inr (False, pkt, e)"
  using assms
proof (induction qs)
  case (Cons x qs)
  obtain q t where x: "x = (q, t)" by (cases x)
  have "satisfy q pkt e = Inr (False, pkt, e)" by (rule Cons.prems[of q t]) (simp add: x)
  moreover have "search_queue satisfy qs pkt e = Inr (False, pkt, e)"
    by (rule Cons.IH) (meson Cons.prems list.set_intros(2))
  ultimately show ?case by (simp add: x)
qed simp

text \<open>Unless a queued packet satisfies it, a functional access reaches the device that the atomic access
  reaches: the paths agree on the port, in the crossbar and in the bridge.\<close>

lemma crossbar_functional_follows_atomic:
  assumes "\<And>p. satisfy p pkt e = Inr (False, pkt, e)"
    and "\<And>p q d. adevs p q d = rbind (devs p q d) (\<lambda>(q', d'). Inr (lat, q', d'))"
  shows "xbar_recvAtomic adevs pkt x e = rbind (noncoh_recvFunctional satisfy devs pkt x e)
    (\<lambda>(pkt', x', e'). Inr (lat, pkt'\<lparr> payloadDelay := ucast lat \<rparr>, x', e'))"
proof -
  have "ask_ports satisfy (map int [0..<length (respLayers x)]) pkt e = Inr (False, pkt, e)"
    by (rule ask_ports_none) (rule assms(1))
  then show ?thesis
    unfolding xbar_recvAtomic_def noncoh_recvFunctional_def assms(2)
    by (auto simp: rbind_assoc split_def)
qed

lemma bridge_functional_port:
  assumes "\<And>q. satisfy q pkt e = Inr (False, pkt, e)" "getAddr pkt = Inr a"
  shows "slave_recvFunctional satisfy devs b slaveID pkt e = devs (getMasterPort (peer_ranges b) (cfgs b) a) pkt e"
  using assms by (simp add: slave_recvFunctional_def master_trySatisfyFunctional_def search_queue_none Let_def)

end
