(* ===== verification/SnoopFilter.thy ===== *)
theory SnoopFilter
  imports XBarPorts Packets "HOL-Library.AList"
begin

text \<open>
  The snoop filter of a coherent crossbar (\<^verbatim>\<open>mem/snoop_filter.hh\<close>, \<^verbatim>\<open>mem/snoop_filter.cc\<close>). For every
  cache line that a cache above the crossbar may hold, it keeps two bit masks over the snooping
  ports: those with a request in flight, and those that may hold the line. The hash map of lines
  is an association list without duplicate keys; an iterator into it is the key of its entry,
  or \<open>None\<close> for the end. Statistics and debug output are left out.
\<close>

section \<open>State\<close>

type_synonym SnoopMask = "256 word"

definition SNOOP_MASK_SIZE :: nat where "SNOOP_MASK_SIZE = 256"

text \<open>A CPU-side port as the filter sees it.\<close>

record CpuSidePort =
  cp_id :: PortID
  cp_snooping :: bool

record SnoopItem =
  requested :: SnoopMask
  holder :: SnoopMask

record SnoopFilter =
  cachedLocations :: "(addr \<times> SnoopItem) list"
  reqIt :: "addr option"
  retryItem :: SnoopItem
  cpuSidePorts :: "CpuSidePort list"
  localResponsePortIds :: "PortID list"
  linesize :: u64
  lookupLatency :: u64
  maxEntryCount :: nat

definition LineSecure :: addr where "LineSecure = 0x01"

definition new_SnoopFilter :: "u64 \<Rightarrow> u64 \<Rightarrow> u64 \<Rightarrow> SnoopFilter" where
  "new_SnoopFilter cacheLineSize lookup_latency max_capacity =
     \<lparr> cachedLocations = [], reqIt = None, retryItem = \<lparr> requested = 0, holder = 0 \<rparr>,
       cpuSidePorts = [], localResponsePortIds = [], linesize = cacheLineSize,
       lookupLatency = lookup_latency,
       maxEntryCount = unat (ucast (max_capacity div cacheLineSize) :: u32) \<rparr>"

text \<open>The ports are numbered in the order of the list; ports that do not snoop get no number.\<close>

fun number_ports :: "CpuSidePort list \<Rightarrow> nat \<Rightarrow> SnoopFilter \<Rightarrow> (nat \<times> SnoopFilter) outcome" where
  "number_ports [] n sf = Inr (n, sf)"
| "number_ports (p # ps) n sf =
     (if cp_snooping p then
        if 0 \<le> cp_id p \<and> nat (cp_id p) < length (localResponsePortIds sf) then
          number_ports ps (Suc n)
            (sf\<lparr> cpuSidePorts := cpuSidePorts sf @ [p],
                localResponsePortIds := (localResponsePortIds sf)[nat (cp_id p) := int n] \<rparr>)
        else Inl (Undefined ''array index'')
      else number_ports ps n sf)"

definition setCPUSidePorts :: "CpuSidePort list \<Rightarrow> SnoopFilter \<Rightarrow> SnoopFilter outcome" where
  "setCPUSidePorts ps sf =
     rbind (number_ports ps 0
              (sf\<lparr> localResponsePortIds := replicate (length ps) InvalidPortID \<rparr>)) (\<lambda>(n, sf1).
     if n > SNOOP_MASK_SIZE then Inl (Fatal ''Snoop filter only supports 256 snooping ports'')
     else Inr sf1)"

section \<open>Ports and masks\<close>

definition portToMask :: "SnoopFilter \<Rightarrow> CpuSidePort \<Rightarrow> SnoopMask outcome" where
  "portToMask sf p =
     (if cp_id p = InvalidPortID then Inl (AssertFail ''port.getId() != InvalidPortID'')
      else if \<not> cp_snooping p then Inr 0
      else if cp_id p < 0 then Inl (Undefined ''array index'')
      else rbind (array_at (localResponsePortIds sf) (nat (cp_id p))) (\<lambda>i.
             if i < 0 then Inr 0 else Inr (push_bit (nat i) 1)))"

fun mask_ports :: "SnoopFilter \<Rightarrow> SnoopMask \<Rightarrow> CpuSidePort list \<Rightarrow> CpuSidePort list outcome" where
  "mask_ports sf m [] = Inr []"
| "mask_ports sf m (p # ps) =
     rbind (portToMask sf p) (\<lambda>pm.
     rbind (mask_ports sf m ps) (\<lambda>res.
     Inr (if m AND pm \<noteq> 0 then p # res else res)))"

definition maskToPortList :: "SnoopFilter \<Rightarrow> SnoopMask \<Rightarrow> CpuSidePort list outcome" where
  "maskToPortList sf m = mask_ports sf m (cpuSidePorts sf)"

type_synonym snoop_targets = "CpuSidePort list \<times> u64"

definition snoopAll :: "SnoopFilter \<Rightarrow> u64 \<Rightarrow> snoop_targets" where
  "snoopAll sf latency = (cpuSidePorts sf, latency)"

definition snoopSelected :: "CpuSidePort list \<Rightarrow> u64 \<Rightarrow> snoop_targets" where
  "snoopSelected ps latency = (ps, latency)"

definition snoopDown :: "u64 \<Rightarrow> snoop_targets" where
  "snoopDown latency = ([], latency)"

section \<open>Entries\<close>

definition pkt_isSecure :: "Packet \<Rightarrow> bool outcome" where
  "pkt_isSecure p = rbind (assert_that (valid_addr p) ''VALID_ADDR'') (\<lambda>_. Inr (p_isSecure p))"

text \<open>The key of the line a packet accesses.\<close>

definition line_addr :: "SnoopFilter \<Rightarrow> Packet \<Rightarrow> addr outcome" where
  "line_addr sf pkt =
     rbind (getBlockAddr (ucast (linesize sf)) pkt) (\<lambda>a.
     rbind (pkt_isSecure pkt) (\<lambda>secure.
     Inr (if secure then a OR LineSecure else a)))"

definition sf_find :: "SnoopFilter \<Rightarrow> addr \<Rightarrow> SnoopItem option" where
  "sf_find sf a = map_of (cachedLocations sf) a"

definition sf_store :: "addr \<Rightarrow> SnoopItem \<Rightarrow> SnoopFilter \<Rightarrow> SnoopFilter" where
  "sf_store a item sf = sf\<lparr> cachedLocations := AList.update a item (cachedLocations sf) \<rparr>"

definition sf_erase :: "addr \<Rightarrow> SnoopFilter \<Rightarrow> SnoopFilter" where
  "sf_erase a sf = sf\<lparr> cachedLocations := AList.delete a (cachedLocations sf) \<rparr>"

definition eraseIfNullEntry :: "addr \<Rightarrow> SnoopFilter \<Rightarrow> SnoopFilter outcome" where
  "eraseIfNullEntry a sf =
     (case sf_find sf a of
        None \<Rightarrow> Inl (Undefined ''dangling iterator'')
      | Some item \<Rightarrow> Inr (if requested item OR holder item = 0 then sf_erase a sf else sf))"

section \<open>Requests\<close>

text \<open>The effect of a request of a cache on the entry of its line.\<close>

definition request_item :: "Packet \<Rightarrow> SnoopMask \<Rightarrow> SnoopItem \<Rightarrow> SnoopItem outcome" where
  "request_item cpkt req_port item =
     (if needsResponse (cmd cpkt) then
        if \<not> cacheResponding cpkt then
          if requested item AND req_port \<noteq> 0 then Inl (Panic ''double request'')
          else Inr (item\<lparr> requested := requested item OR req_port \<rparr>)
        else if holder item AND req_port = 0 then Inl (Panic ''Need to hold the value!'')
        else Inr item
      else
        rbind (assert_that (isEviction (cmd cpkt)) ''cpkt->isEviction()'') (\<lambda>_.
        if holder item AND req_port = 0 then Inl (Panic ''requestor is not a holder'')
        else if \<not> isBlockCached cpkt
          then Inr (item\<lparr> holder := holder item AND NOT req_port \<rparr>)
        else Inr item))"

definition allocates :: "Packet \<Rightarrow> CpuSidePort \<Rightarrow> bool" where
  "allocates cpkt port \<longleftrightarrow>
     \<not> isUncacheable (req cpkt) \<and> cp_snooping port \<and> fromCache (cmd cpkt)"

definition lookupRequest ::
  "Packet \<Rightarrow> CpuSidePort \<Rightarrow> SnoopFilter \<Rightarrow> (snoop_targets \<times> SnoopFilter) outcome" where
  "lookupRequest cpkt port sf =
     rbind (line_addr sf cpkt) (\<lambda>a.
     rbind (portToMask sf port) (\<lambda>req_port.
     case sf_find sf a of
       None \<Rightarrow>
         if \<not> allocates cpkt port then Inr (snoopDown (lookupLatency sf), sf\<lparr> reqIt := None \<rparr>)
         else
           let item = \<lparr> requested = 0, holder = 0 \<rparr>;
               sf1 = (sf_store a item sf)\<lparr> reqIt := Some a, retryItem := item \<rparr>
           in rbind (request_item cpkt req_port item) (\<lambda>item1.
              rbind (maskToPortList sf1 ((holder item OR requested item) AND NOT req_port)) (\<lambda>ps.
              Inr (snoopSelected ps (lookupLatency sf), sf_store a item1 sf1)))
     | Some item \<Rightarrow>
         let sf1 = sf\<lparr> reqIt := Some a, retryItem := item \<rparr>;
             interested = holder item OR requested item
         in rbind (if allocates cpkt port then request_item cpkt req_port item else Inr item) (\<lambda>item1.
            rbind (maskToPortList sf1 (interested AND NOT req_port)) (\<lambda>ps.
            Inr (snoopSelected ps (lookupLatency sf), sf_store a item1 sf1)))))"

definition finishRequest :: "bool \<Rightarrow> addr \<Rightarrow> bool \<Rightarrow> SnoopFilter \<Rightarrow> SnoopFilter outcome" where
  "finishRequest will_retry a is_secure sf =
     (case reqIt sf of
        None \<Rightarrow> Inr sf
      | Some it \<Rightarrow>
          (case sf_find sf it of
             None \<Rightarrow> Inl (Undefined ''dangling iterator'')
           | Some _ \<Rightarrow>
               rbind (assert_that (it = (if is_secure then (a AND NOT (linesize sf - 1)) OR LineSecure
                                         else a AND NOT (linesize sf - 1)))
                       ''reqLookupResult.it->first'') (\<lambda>_.
               eraseIfNullEntry it (if will_retry then sf_store it (retryItem sf) sf else sf))))"

section \<open>Snoops and responses\<close>

text \<open>What \<open>lookupSnoop\<close> asserts of a snoop that hits.\<close>

definition snoop_check :: "Packet \<Rightarrow> bool outcome" where
  "snoop_check cpkt =
     (if isWriteback (cmd cpkt) \<or> isUncacheable (req cpkt) then Inr True
      else rbind (pkt_needsWritable cpkt) (\<lambda>w.
           Inr (isInvalidate (cmd cpkt) = w \<or> isCacheMaintenance (req cpkt))))"

definition lookupSnoop :: "Packet \<Rightarrow> SnoopFilter \<Rightarrow> (snoop_targets \<times> SnoopFilter) outcome" where
  "lookupSnoop cpkt sf =
     rbind (assert_that (isRequest (cmd cpkt)) ''cpkt->isRequest()'') (\<lambda>_.
     rbind (line_addr sf cpkt) (\<lambda>a.
     case sf_find sf a of
       None \<Rightarrow>
         if length (cachedLocations sf) \<ge> maxEntryCount sf
         then Inl (Panic ''snoop filter exceeded capacity'')
         else Inr (snoopDown (lookupLatency sf), sf)
     | Some item \<Rightarrow>
         rbind (snoop_check cpkt) (\<lambda>c.
         rbind (assert_that c ''isWriteback() || isUncacheable() || ...'') (\<lambda>_.
         rbind (if isInvalidate (cmd cpkt) \<and> requested item = 0
                then eraseIfNullEntry a (sf_store a (item\<lparr> holder := 0 \<rparr>) sf)
                else Inr sf) (\<lambda>sf1.
         rbind (maskToPortList sf1 (holder item OR requested item)) (\<lambda>ps.
         Inr (snoopSelected ps (lookupLatency sf), sf1)))))))"

definition updateSnoopResponse ::
  "Packet \<Rightarrow> CpuSidePort \<Rightarrow> CpuSidePort \<Rightarrow> SnoopFilter \<Rightarrow> SnoopFilter outcome" where
  "updateSnoopResponse cpkt rsp_port req_port sf =
     rbind (assert_that (isResponse (cmd cpkt)) ''cpkt->isResponse()'') (\<lambda>_.
     rbind (assert_that (cacheResponding cpkt) ''cpkt->cacheResponding()'') (\<lambda>_.
     if isUncacheable (req cpkt) \<or> \<not> cp_snooping req_port then Inr sf
     else
       rbind (line_addr sf cpkt) (\<lambda>a.
       rbind (portToMask sf rsp_port) (\<lambda>rsp_mask.
       rbind (portToMask sf req_port) (\<lambda>req_mask.
       let item = (case sf_find sf a of None \<Rightarrow> \<lparr> requested = 0, holder = 0 \<rparr> | Some i \<Rightarrow> i) in
       if holder item AND rsp_mask = 0 then Inl (Panic ''SF value does not have the line'')
       else if requested item AND req_mask = 0 then Inl (Panic ''SF value missing the original request'')
       else
         let item1 = (if \<not> hasSharers cpkt then item\<lparr> holder := 0 \<rparr> else item) in
         rbind (assert_that (\<not> isWriteback (cmd cpkt)) ''!cpkt->isWriteback()'') (\<lambda>_.
         let item2 = item1\<lparr> holder := holder item1 OR req_mask,
                            requested := requested item1 AND NOT req_mask \<rparr> in
         rbind (assert_that (requested item2 OR holder item2 \<noteq> 0) ''(requested | holder).any()'') (\<lambda>_.
         Inr (sf_store a item2 sf))))))))"

definition updateSnoopForward :: "Packet \<Rightarrow> SnoopFilter \<Rightarrow> SnoopFilter outcome" where
  "updateSnoopForward cpkt sf =
     rbind (assert_that (isResponse (cmd cpkt)) ''cpkt->isResponse()'') (\<lambda>_.
     rbind (assert_that (cacheResponding cpkt) ''cpkt->cacheResponding()'') (\<lambda>_.
     rbind (line_addr sf cpkt) (\<lambda>a.
     case sf_find sf a of
       None \<Rightarrow> Inr sf
     | Some item \<Rightarrow>
         if \<not> hasSharers cpkt then eraseIfNullEntry a (sf_store a (item\<lparr> holder := 0 \<rparr>) sf)
         else Inr sf)))"

definition updateResponse :: "Packet \<Rightarrow> CpuSidePort \<Rightarrow> SnoopFilter \<Rightarrow> SnoopFilter outcome" where
  "updateResponse cpkt port sf =
     rbind (assert_that (isResponse (cmd cpkt)) ''cpkt->isResponse()'') (\<lambda>_.
     if isUncacheable (req cpkt) \<or> \<not> cp_snooping port then Inr sf
     else
       rbind (line_addr sf cpkt) (\<lambda>a.
       case sf_find sf a of
         None \<Rightarrow> Inr sf
       | Some item \<Rightarrow>
           rbind (portToMask sf port) (\<lambda>response_mask.
           if requested item AND response_mask = 0 then Inl (Panic ''SF value missing request bit'')
           else
             let item1 = item\<lparr> requested := requested item AND NOT response_mask \<rparr> in
             if isCacheMaintenance (req cpkt) then
               let item2 = (if isInvalidate (cmd cpkt)
                            then item1\<lparr> holder := holder item1 AND NOT response_mask \<rparr> else item1)
               in eraseIfNullEntry a (sf_store a item2 sf)
             else
               let item2 = item1\<lparr> holder := holder item1 OR response_mask \<rparr> in
               rbind (assert_that (holder item2 OR requested item2 \<noteq> 0) ''(holder | requested).any()'') (\<lambda>_.
               Inr (sf_store a item2 sf)))))"

end
