(* ===== verification/CoherentXBar.thy ===== *)
theory CoherentXBar
  imports IOXBar SnoopFilter
begin

text \<open>
  The coherent crossbar (\<^verbatim>\<open>mem/coherent_xbar.cc\<close>, \<^verbatim>\<open>mem/coherent_xbar.hh\<close>): every request is
  shown to the caches above the crossbar that may hold its line, and then forwarded, answered
  or dropped; a cache that commits to answering sends a snoop response, which the crossbar
  turns into the response of the request.

  The host crossbar of the CXL system (\<^verbatim>\<open>mem/cxl_host_xbar.cc\<close>) repeats this code with a few
  changes. The places where the two differ are the fields of the record \<open>xvariant\<close>, an argument
  of the operations; both crossbars are instances (here and in theory \<open>HostXBar\<close>).

  The caches above and the memory below are parameters (record \<open>xpeers\<close>) that change the packet
  and the world around the crossbar; they do not call the crossbar while they handle a call of
  it. The hash tables are association lists and lists without duplicates, so that their sizes
  are lengths. The field \<open>gh_snooped\<close> is a history variable: the ports that were snooped.
  Statistics, trace output and the deletion of sunk packets are left out.
\<close>

section \<open>State\<close>

record CoherentXBar =
  cbase :: BaseXBar
  ccpuSidePorts :: "CpuSidePort list"
  creqLayers :: "Layer list"
  crespLayers :: "Layer list"
  snoopLayers :: "Layer list"
  snoopPorts :: "CpuSidePort list"
  outstandingSnoop :: "nat list"
  outstandingCMO :: "(nat \<times> Packet option) list"
  crouteTo :: "(nat \<times> PortID) list"
  snoopFilter :: "SnoopFilter option"
  bypassCaches :: bool
  snoopResponseLatency :: u64
  maxOutstandingSnoopCheck :: nat
  maxRoutingTableSizeCheck :: nat
  pointOfCoherency :: bool
  pointOfUnification :: bool
  cfrontendLatency :: u64
  cforwardLatency :: u64
  cresponseLatency :: u64
  cheaderLatency :: u64
  cwidth :: u32
  csched_resps :: "(PortID \<times> Packet \<times> u64) list"
  gh_snooped :: "PortID list"

text \<open>The neighbours: the memory-side peers, by the number of the memory-side port, and the
  caches above, by the number of the CPU-side port.\<close>

record 'e xpeers =
  sendTimingReq :: "PortID \<Rightarrow> 'e timing_peer"
  peer_tryTiming :: "PortID \<Rightarrow> Packet \<Rightarrow> 'e \<Rightarrow> bool outcome"
  sendTimingSnoopResp :: "PortID \<Rightarrow> 'e timing_peer"
  sendTimingSnoopReq :: "PortID \<Rightarrow> Packet \<Rightarrow> 'e \<Rightarrow> (Packet \<times> 'e) outcome"
  sendAtomic :: "PortID \<Rightarrow> 'e atomic_peer"
  sendAtomicSnoop :: "PortID \<Rightarrow> 'e atomic_peer"
  sendFunctional :: "PortID \<Rightarrow> Packet \<Rightarrow> 'e \<Rightarrow> (Packet \<times> 'e) outcome"
  sendFunctionalSnoop :: "PortID \<Rightarrow> Packet \<Rightarrow> 'e \<Rightarrow> (Packet \<times> 'e) outcome"
  trySatisfyFunctional :: "PortID \<Rightarrow> Packet \<Rightarrow> 'e \<Rightarrow> (bool \<times> Packet \<times> 'e) outcome"

text \<open>Where the crossbars differ: the lookup of the destination, whether a request is shown to
  the caches, how its route is stored, whether the size of the routing table is checked then, and
  what a response and an atomic access leave behind.\<close>

record 'x xvariant =
  v_findPort :: "Packet \<Rightarrow> 'x \<Rightarrow> (PortID \<times> Packet \<times> 'x) outcome"
  v_snoops :: "Packet \<Rightarrow> bool"
  v_route :: "bool \<Rightarrow> Packet \<Rightarrow> PortID \<Rightarrow> 'x \<Rightarrow> 'x outcome"
  v_checks :: "bool \<Rightarrow> Packet \<Rightarrow> bool"
  v_response :: "Packet \<Rightarrow> 'x \<Rightarrow> 'x outcome"
  v_atomic :: "Packet \<Rightarrow> 'x \<Rightarrow> 'x outcome"

definition clockEdge :: "Clock \<Rightarrow> u64 \<Rightarrow> u64" where
  "clockEdge clk cycles = clockEdge0 clk + clockPeriod clk * cycles"

section \<open>Construction\<close>

text \<open>The ports are numbered from zero; the default port is the last one of the memory side.
  \<open>snooping\<close> says which peers of the CPU-side ports snoop; these become the snoop ports.\<close>

record XBarParams =
  mem_side_ports_count :: nat
  has_default :: bool
  use_default_range :: bool
  snooping :: "bool list"
  par_snoop_filter :: "SnoopFilter option"
  par_snoop_response_latency :: u64
  par_max_outstanding_snoops :: nat
  par_max_routing_table_size :: nat
  par_point_of_coherency :: bool
  par_point_of_unification :: bool
  par_bypassCaches :: bool
  par_frontend_latency :: u64
  par_forward_latency :: u64
  par_response_latency :: u64
  par_header_latency :: u64
  par_width :: u32

definition par_cpu_ports :: "XBarParams \<Rightarrow> CpuSidePort list" where
  "par_cpu_ports p = map (\<lambda>i. \<lparr> cp_id = int i, cp_snooping = snooping p ! i \<rparr>) [0..<length (snooping p)]"

definition new_CoherentXBar :: "XBarParams \<Rightarrow> CoherentXBar" where
  "new_CoherentXBar p =
    (let n = mem_side_ports_count p + (if has_default p then 1 else 0) in
     \<lparr> cbase = new_BaseXBar n (if has_default p then int (mem_side_ports_count p) else InvalidPortID)
         (use_default_range p),
       ccpuSidePorts = par_cpu_ports p,
       creqLayers = replicate n new_Layer,
       crespLayers = replicate (length (snooping p)) new_Layer,
       snoopLayers = replicate n new_Layer,
       snoopPorts = [], outstandingSnoop = [], outstandingCMO = [], crouteTo = [],
       snoopFilter = par_snoop_filter p, bypassCaches = par_bypassCaches p,
       snoopResponseLatency = par_snoop_response_latency p,
       maxOutstandingSnoopCheck = par_max_outstanding_snoops p,
       maxRoutingTableSizeCheck = par_max_routing_table_size p,
       pointOfCoherency = par_point_of_coherency p, pointOfUnification = par_point_of_unification p,
       cfrontendLatency = par_frontend_latency p, cforwardLatency = par_forward_latency p,
       cresponseLatency = par_response_latency p, cheaderLatency = par_header_latency p,
       cwidth = par_width p, csched_resps = [], gh_snooped = [] \<rparr>)"

definition xbar_init :: "'z CoherentXBar_scheme \<Rightarrow> 'z CoherentXBar_scheme outcome" where
  "xbar_init x =
    (let x1 = x\<lparr> snoopPorts := snoopPorts x @ filter cp_snooping (ccpuSidePorts x) \<rparr> in
     case snoopFilter x1 of
       None \<Rightarrow> Inr x1
     | Some sf \<Rightarrow> rbind (setCPUSidePorts (ccpuSidePorts x1) sf) (\<lambda>sf1. Inr (x1\<lparr> snoopFilter := Some sf1 \<rparr>)))"

section \<open>What happens to a packet\<close>

definition isDestination :: "'z CoherentXBar_scheme \<Rightarrow> Packet \<Rightarrow> bool" where
  "isDestination x pkt = ((isToPOC (req pkt) \<and> pointOfCoherency x) \<or>
     (isToPOU (req pkt) \<and> pointOfUnification x))"

definition sinkPacket :: "'z CoherentXBar_scheme \<Rightarrow> Packet \<Rightarrow> bool outcome" where
  "sinkPacket x pkt =
    (if pointOfCoherency x \<and> cacheResponding pkt then Inr True
     else if pointOfCoherency x \<and> \<not> (isRead (cmd pkt) \<or> isWrite (cmd pkt)) \<and> \<not> needsResponse (cmd pkt)
       then Inr True
     else if isCleanEviction pkt \<and> isBlockCached pkt then Inr True
     else if cacheResponding pkt
       then rbind (pkt_needsWritable pkt) (\<lambda>w. Inr (\<not> w \<or> responderHadWritable pkt))
     else Inr False)"

definition forwardPacket :: "'z CoherentXBar_scheme \<Rightarrow> Packet \<Rightarrow> bool" where
  "forwardPacket x pkt =
    (if isClean (cmd pkt) then \<not> isDestination x pkt
     else isRead (cmd pkt) \<or> isWrite (cmd pkt) \<or> \<not> pointOfCoherency x)"

section \<open>Snooping\<close>

fun snoop_ports ::
  "'e xpeers \<Rightarrow> Packet \<Rightarrow> PortID \<Rightarrow> CpuSidePort list \<Rightarrow> 'z CoherentXBar_scheme \<Rightarrow> 'e
    \<Rightarrow> (Packet \<times> 'z CoherentXBar_scheme \<times> 'e) outcome" where
  "snoop_ports peers pkt ex [] x e = Inr (pkt, x, e)"
| "snoop_ports peers pkt ex (p # ps) x e =
     (if ex = InvalidPortID \<or> cp_id p \<noteq> ex then
        rbind (sendTimingSnoopReq peers (cp_id p) pkt e) (\<lambda>(pkt1, e1).
          snoop_ports peers pkt1 ex ps (x\<lparr> gh_snooped := gh_snooped x @ [cp_id p] \<rparr>) e1)
      else snoop_ports peers pkt ex ps x e)"

definition forwardTiming ::
  "'e xpeers \<Rightarrow> Packet \<Rightarrow> PortID \<Rightarrow> CpuSidePort list \<Rightarrow> 'z CoherentXBar_scheme \<Rightarrow> 'e
    \<Rightarrow> (Packet \<times> 'z CoherentXBar_scheme \<times> 'e) outcome" where
  "forwardTiming peers pkt ex dests x e =
    rbind (assert_that (\<not> bypassCaches x) ''!system->bypassCaches()'') (\<lambda>_.
      snoop_ports peers pkt ex dests x e)"

text \<open>The snoop delay of the packet becomes part of its header delay.\<close>

definition charge_snoop_delay :: "Packet \<Rightarrow> Packet" where
  "charge_snoop_delay pkt = pkt\<lparr> headerDelay := headerDelay pkt + snoopDelay pkt, snoopDelay := 0 \<rparr>"

definition charge_lookup :: "Clock \<Rightarrow> u64 \<Rightarrow> Packet \<Rightarrow> Packet" where
  "charge_lookup clk lat pkt = pkt\<lparr> headerDelay := headerDelay pkt + ucast (lat * clockPeriod clk) \<rparr>"

text \<open>A request is shown to the caches: to those the snoop filter names, or to all but the source.
  An eviction only learns whether another cache has the line.\<close>

definition snoop_request ::
  "'e xpeers \<Rightarrow> Clock \<Rightarrow> Packet \<Rightarrow> PortID \<Rightarrow> 'z CoherentXBar_scheme \<Rightarrow> 'e
    \<Rightarrow> (Packet \<times> 'z CoherentXBar_scheme \<times> 'e) outcome" where
  "snoop_request peers clk pkt src x e =
    rbind (case snoopFilter x of
        None \<Rightarrow> forwardTiming peers pkt src (snoopPorts x) x e
      | Some sf \<Rightarrow>
          rbind (at_port (ccpuSidePorts x) src) (\<lambda>port.
          rbind (lookupRequest pkt port sf) (\<lambda>((dests, lat), sf1).
            let pkt1 = charge_lookup clk lat pkt; x1 = x\<lparr> snoopFilter := Some sf1 \<rparr> in
            if isEviction (cmd pkt1)
            then Inr (if dests \<noteq> [] then setBlockCached pkt1 else pkt1, x1, e)
            else forwardTiming peers pkt1 src dests x1 e))) (\<lambda>(pkt1, x1, e1).
      Inr (charge_snoop_delay pkt1, x1, e1))"

section \<open>Timing requests\<close>

text \<open>Sending the packet on, once the caches have seen it. The result is whether it was taken,
  whether the crossbar has to answer it, the packet and the world. \<open>dest_here\<close> is
  \<open>is_destination\<close>.\<close>

definition send_onwards ::
  "'e xpeers \<Rightarrow> bool \<Rightarrow> bool \<Rightarrow> bool \<Rightarrow> PortID \<Rightarrow> Packet \<Rightarrow> 'z CoherentXBar_scheme \<Rightarrow> 'e
    \<Rightarrow> (bool \<times> bool \<times> Packet \<times> 'e) outcome" where
  "send_onwards peers dest_here expect_snoop_resp sink_packet mem pkt x e =
    (if sink_packet then Inr (True, False, pkt, e)
     else if forwardPacket x pkt then
       let pkt1 = (if cacheResponding pkt then setExpressSnoop pkt else pkt);
           pkt2 = (if isWrite (cmd pkt1) \<and> dest_here then clearWriteThrough pkt1 else pkt1) in
       rbind (sendTimingReq peers mem pkt2 e) (\<lambda>(success, pkt3, e1). Inr (success, False, pkt3, e1))
     else
       rbind (assert_that (needsResponse (cmd pkt)) ''pkt->needsResponse()'') (\<lambda>_.
       rbind (assert_that (\<not> expect_snoop_resp) ''!expect_snoop_resp'') (\<lambda>_.
         Inr (True, True, pkt, e))))"

definition finish_filter ::
  "bool \<Rightarrow> bool \<Rightarrow> addr \<Rightarrow> Packet \<Rightarrow> 'z CoherentXBar_scheme \<Rightarrow> 'z CoherentXBar_scheme outcome" where
  "finish_filter snoop_caches will_retry a pkt x =
    (case snoopFilter x of
       None \<Rightarrow> Inr x
     | Some sf \<Rightarrow>
         if snoop_caches then
           rbind (pkt_isSecure pkt) (\<lambda>secure.
           rbind (finishRequest will_retry a secure sf) (\<lambda>sf1. Inr (x\<lparr> snoopFilter := Some sf1 \<rparr>)))
         else Inr x)"

definition set_creq :: "PortID \<Rightarrow> Layer \<Rightarrow> 'z CoherentXBar_scheme \<Rightarrow> 'z CoherentXBar_scheme" where
  "set_creq p l x = x\<lparr> creqLayers := (creqLayers x)[nat p := l] \<rparr>"

definition set_cresp :: "PortID \<Rightarrow> Layer \<Rightarrow> 'z CoherentXBar_scheme \<Rightarrow> 'z CoherentXBar_scheme" where
  "set_cresp p l x = x\<lparr> crespLayers := (crespLayers x)[nat p := l] \<rparr>"

definition set_csnoop :: "PortID \<Rightarrow> Layer \<Rightarrow> 'z CoherentXBar_scheme \<Rightarrow> 'z CoherentXBar_scheme" where
  "set_csnoop p l x = x\<lparr> snoopLayers := (snoopLayers x)[nat p := l] \<rparr>"

definition route_of :: "'z CoherentXBar_scheme \<Rightarrow> nat \<Rightarrow> PortID option" where
  "route_of x r = map_of (crouteTo x) r"

definition set_route :: "nat \<Rightarrow> PortID \<Rightarrow> 'z CoherentXBar_scheme \<Rightarrow> 'z CoherentXBar_scheme" where
  "set_route r p x = x\<lparr> crouteTo := AList.update r p (crouteTo x) \<rparr>"

definition del_route :: "nat \<Rightarrow> 'z CoherentXBar_scheme \<Rightarrow> 'z CoherentXBar_scheme" where
  "del_route r x = x\<lparr> crouteTo := AList.delete r (crouteTo x) \<rparr>"

definition check_routes :: "'z CoherentXBar_scheme \<Rightarrow> 'z CoherentXBar_scheme outcome" where
  "check_routes x =
    (if length (crouteTo x) > maxRoutingTableSizeCheck x then Inl (Panic ''Routing table exceeded'')
     else Inr x)"

definition add_outstanding :: "nat \<Rightarrow> 'z CoherentXBar_scheme \<Rightarrow> 'z CoherentXBar_scheme outcome" where
  "add_outstanding r x =
    rbind (assert_that (r \<notin> set (outstandingSnoop x)) ''outstandingSnoop.find(pkt->req) == end()'') (\<lambda>_.
      let x1 = x\<lparr> outstandingSnoop := r # outstandingSnoop x \<rparr> in
      if length (outstandingSnoop x1) > maxOutstandingSnoopCheck x1
      then Inl (Panic ''Outstanding snoop requests exceeded'') else Inr x1)"

text \<open>The bookkeeping of a request that was taken and is not an express snoop.\<close>

definition account_request ::
  "'z CoherentXBar_scheme xvariant \<Rightarrow> bool \<Rightarrow> bool \<Rightarrow> bool \<Rightarrow> Packet \<Rightarrow> PortID
    \<Rightarrow> 'z CoherentXBar_scheme \<Rightarrow> 'z CoherentXBar_scheme outcome" where
  "account_request V expect_snoop_resp expect_response sink_packet pkt src x =
    rbind (if expect_snoop_resp then add_outstanding (req_ptr (req pkt)) x else Inr x) (\<lambda>x1.
      if expect_response \<or> expect_snoop_resp
      then rbind (v_route V sink_packet pkt src x1) (\<lambda>x2.
             if v_checks V sink_packet pkt then check_routes x2 else Inr x2)
      else Inr x1)"

text \<open>Cache maintenance at its destination: the answer goes out when both the clean request and
  the write that belongs to it have come by. The result says whether to answer now, with which
  packet (\<open>None\<close> for the current one) and through which port.\<close>

definition deferred_clean ::
  "'z CoherentXBar_scheme xvariant \<Rightarrow> bool \<Rightarrow> Packet \<Rightarrow> PortID \<Rightarrow> 'z CoherentXBar_scheme
    \<Rightarrow> (bool \<times> Packet option \<times> PortID \<times> 'z CoherentXBar_scheme) outcome" where
  "deferred_clean V sink_packet pkt src x =
    (case map_of (outstandingCMO x) (p_id pkt) of
       Some deferred \<Rightarrow>
         let x1 = x\<lparr> outstandingCMO := AList.delete (p_id pkt) (outstandingCMO x) \<rparr> in
         if isWrite (cmd pkt) then
           (case deferred of
              None \<Rightarrow> Inl (AssertFail ''rsp_pkt'')
            | Some rsp_pkt \<Rightarrow>
                (case route_of x (req_ptr (req rsp_pkt)) of
                   None \<Rightarrow> Inl (AssertFail ''route_lookup != routeTo.end()'')
                 | Some rsp_port \<Rightarrow>
                     rbind (assert_that (rsp_port \<noteq> InvalidPortID) ''rsp_port_id != InvalidPortID'') (\<lambda>_.
                     rbind (assert_that (nat rsp_port < length (crespLayers x)) ''rsp_port_id < respLayers.size()'') (\<lambda>_.
                       Inr (True, Some rsp_pkt, rsp_port, del_route (req_ptr (req rsp_pkt)) x1)))))
         else Inr (True, None, src, x1)
     | None \<Rightarrow>
         let x1 = x\<lparr> outstandingCMO := AList.update (p_id pkt)
               (if isWrite (cmd pkt) then None else Some pkt) (outstandingCMO x) \<rparr> in
         if isWrite (cmd pkt) then Inr (False, None, src, x1)
         else
           rbind (assert_that (route_of x1 (req_ptr (req pkt)) = None) ''routeTo.find(pkt->req) == routeTo.end()'') (\<lambda>_.
           rbind (v_route V sink_packet pkt src x1) (\<lambda>x2.
           rbind (check_routes x2) (\<lambda>x3. Inr (False, None, src, x3)))))"

text \<open>The crossbar answers a packet itself; \<open>delay\<close> is the header delay of the packet that is
  being handled.\<close>

definition respond_directly ::
  "Clock \<Rightarrow> u32 \<Rightarrow> Packet \<Rightarrow> PortID \<Rightarrow> 'z CoherentXBar_scheme
    \<Rightarrow> (Packet \<times> 'z CoherentXBar_scheme) outcome" where
  "respond_directly clk delay rsp_pkt rsp_port x =
    rbind (assert_that (needsResponse (cmd rsp_pkt)) ''rsp_pkt->needsResponse()'') (\<lambda>_.
    rbind (makeResponse rsp_pkt) (\<lambda>rsp.
    rbind (at_port (ccpuSidePorts x) rsp_port) (\<lambda>port.
    rbind (case snoopFilter x of
             Some sf \<Rightarrow> if \<not> bypassCaches x
               then rbind (updateResponse rsp port sf) (\<lambda>sf1. Inr (x\<lparr> snoopFilter := Some sf1 \<rparr>))
               else Inr x
           | None \<Rightarrow> Inr x) (\<lambda>x1.
      let rsp1 = rsp\<lparr> headerDelay := 0 \<rparr> in
      Inr (rsp1, x1\<lparr> csched_resps := csched_resps x1
        @ [(rsp_port, rsp1, clockEdge clk 0 + ucast delay)] \<rparr>)))))"

text \<open>The end of the handler: deferred answers and direct answers. The packet that is returned is
  the one the handler was called with.\<close>

definition answer_request ::
  "'z CoherentXBar_scheme xvariant \<Rightarrow> Clock \<Rightarrow> bool \<Rightarrow> bool \<Rightarrow> bool \<Rightarrow> bool \<Rightarrow> Packet \<Rightarrow> PortID
    \<Rightarrow> 'z CoherentXBar_scheme \<Rightarrow> (Packet \<times> 'z CoherentXBar_scheme) outcome" where
  "answer_request V clk success direct dest_here sink_packet pkt src x =
    rbind (if success \<and> ((isClean (cmd pkt) \<and> satisfied pkt) \<or> cmd pkt = WriteClean) \<and> dest_here
           then deferred_clean V sink_packet pkt src x
           else Inr (direct, None, src, x)) (\<lambda>(direct1, deferred, rsp_port, x1).
      if direct1 then
        rbind (assert_that success ''success'') (\<lambda>_.
        rbind (respond_directly clk (headerDelay pkt)
            (case deferred of None \<Rightarrow> pkt | Some d \<Rightarrow> d) rsp_port x1) (\<lambda>(rsp, x2).
          Inr (if deferred = None then rsp else pkt, x2)))
      else Inr (pkt, x1))"

text \<open>From the snoops on; \<open>l1\<close> is the layer of the destination after the arbitration.\<close>

definition forward_request ::
  "'z CoherentXBar_scheme xvariant \<Rightarrow> 'e xpeers \<Rightarrow> Clock \<Rightarrow> bool \<Rightarrow> bool \<Rightarrow> bool \<Rightarrow> u64 \<Rightarrow> u32 \<Rightarrow> PortID
    \<Rightarrow> Layer \<Rightarrow> Packet \<Rightarrow> PortID \<Rightarrow> 'z CoherentXBar_scheme \<Rightarrow> 'e
    \<Rightarrow> (bool \<times> Packet \<times> 'z CoherentXBar_scheme \<times> 'e) outcome" where
  "forward_request V peers clk express dest_here snoop_caches finish old_delay mem l1 pkt src x e =
    (let expect_snoop_resp = (\<not> express \<and> cacheResponding pkt);
         expect_response = (needsResponse (cmd pkt) \<and> \<not> cacheResponding pkt) in
     rbind (sinkPacket x pkt) (\<lambda>sink_packet.
     rbind (getAddr pkt) (\<lambda>a.
     rbind (send_onwards peers dest_here expect_snoop_resp sink_packet mem pkt x e) (\<lambda>(success, direct, pkt1, e1).
     rbind (finish_filter snoop_caches (\<not> success) a pkt1 x) (\<lambda>x1.
     if \<not> success then
       rbind (assert_that (\<not> express) ''!is_express_snoop'') (\<lambda>_.
       rbind (failedTiming (nat src) (clockEdge clk 1) l1) (\<lambda>l2.
         Inr (False, pkt1\<lparr> headerDelay := old_delay \<rparr>, set_creq mem l2 x1, e1)))
     else
       rbind (if express then Inr x1
              else rbind (account_request V expect_snoop_resp (expect_response \<and> \<not> direct) sink_packet pkt1 src x1) (\<lambda>x2.
                   rbind (succeededTiming finish l1) (\<lambda>l2. Inr (set_creq mem l2 x2)))) (\<lambda>x3.
       rbind (answer_request V clk success direct dest_here sink_packet pkt1 src x3) (\<lambda>(pkt2, x4).
         Inr (True, pkt2, x4, e1))))))))"

text \<open>After the arbitration: the timing of the packet, the check that a clean request can be passed on,
  and the snoops.\<close>

definition serve_request ::
  "'z CoherentXBar_scheme xvariant \<Rightarrow> 'e xpeers \<Rightarrow> Clock \<Rightarrow> bool \<Rightarrow> PortID \<Rightarrow> Layer \<Rightarrow> Packet \<Rightarrow> PortID
    \<Rightarrow> 'z CoherentXBar_scheme \<Rightarrow> 'e \<Rightarrow> (bool \<times> Packet \<times> 'z CoherentXBar_scheme \<times> 'e) outcome" where
  "serve_request V peers clk express mem l1 pkt src x e =
    rbind (calcPacketTiming clk (cwidth x)
        ((cfrontendLatency x + cforwardLatency x) * clockPeriod clk) pkt) (\<lambda>pkt1.
    let finish = clockEdge clk (cheaderLatency x) + ucast (payloadDelay pkt1);
        dest_here = isDestination x pkt1;
        snoop_caches = (\<not> bypassCaches x \<and> cmd pkt1 \<noteq> WriteClean);
        snoops = (v_snoops V pkt1 \<and> snoop_caches) in
    rbind (assert_that (snoops \<longrightarrow> snoopDelay pkt1 = 0) ''pkt->snoopDelay == 0'') (\<lambda>_.
    rbind (if snoops \<and> isClean (cmd pkt1) \<and> \<not> dest_here
           then peer_tryTiming peers mem pkt1 e else Inr True) (\<lambda>ready.
      if \<not> ready then
        rbind (failedTiming (nat src) (clockEdge clk 1) l1) (\<lambda>l2.
          Inr (False, pkt1, set_creq mem l2 x, e))
      else
        rbind (if snoops then snoop_request peers clk pkt1 src x e else Inr (pkt1, x, e)) (\<lambda>(pkt2, x2, e2).
          forward_request V peers clk express dest_here snoop_caches finish
            (headerDelay pkt) mem l1 pkt2 src x2 e2))))"

definition xbar_recvTimingReq ::
  "'z CoherentXBar_scheme xvariant \<Rightarrow> 'e xpeers \<Rightarrow> Clock \<Rightarrow> Packet \<Rightarrow> PortID
    \<Rightarrow> 'z CoherentXBar_scheme \<Rightarrow> 'e \<Rightarrow> (bool \<times> Packet \<times> 'z CoherentXBar_scheme \<times> 'e) outcome" where
  "xbar_recvTimingReq V peers clk pkt0 src x0 e =
    rbind (at_port (ccpuSidePorts x0) src) (\<lambda>_.
    let express = isExpressSnoop pkt0 in
    rbind (assert_that (express = cacheResponding pkt0) ''is_express_snoop == cache_responding'') (\<lambda>_.
    rbind (v_findPort V pkt0 x0) (\<lambda>(mem, pkt, x).
    rbind (at_port (creqLayers x) mem) (\<lambda>l.
    rbind (if express then Inr (True, l) else tryTiming (nat src) l) (\<lambda>(free, l1).
      if \<not> free then Inr (False, pkt, set_creq mem l1 x, e)
      else serve_request V peers clk express mem l1 pkt src x e)))))"

section \<open>Timing responses\<close>

definition xbar_update_response ::
  "Packet \<Rightarrow> PortID \<Rightarrow> 'z CoherentXBar_scheme \<Rightarrow> 'z CoherentXBar_scheme outcome" where
  "xbar_update_response pkt dest x =
    (case snoopFilter x of
       None \<Rightarrow> Inr x
     | Some sf \<Rightarrow>
         if bypassCaches x then Inr x
         else rbind (at_port (ccpuSidePorts x) dest) (\<lambda>port.
              rbind (updateResponse pkt port sf) (\<lambda>sf1. Inr (x\<lparr> snoopFilter := Some sf1 \<rparr>))))"

text \<open>A response leaves through the queue of a CPU-side port and pays its header delay there.\<close>

definition sched_response ::
  "Clock \<Rightarrow> PortID \<Rightarrow> Packet \<Rightarrow> 'z CoherentXBar_scheme \<Rightarrow> 'z CoherentXBar_scheme" where
  "sched_response clk dest pkt x = x\<lparr> csched_resps := csched_resps x
     @ [(dest, pkt\<lparr> headerDelay := 0 \<rparr>, curTick clk + ucast (headerDelay pkt))] \<rparr>"

definition coh_recvTimingResp ::
  "'z CoherentXBar_scheme xvariant \<Rightarrow> Clock \<Rightarrow> Packet \<Rightarrow> PortID \<Rightarrow> 'z CoherentXBar_scheme
    \<Rightarrow> (bool \<times> 'z CoherentXBar_scheme) outcome" where
  "coh_recvTimingResp V clk pkt mem x =
    rbind (at_port (creqLayers x) mem) (\<lambda>_.
    (case route_of x (req_ptr (req pkt)) of
       None \<Rightarrow> Inl (AssertFail ''route_lookup != routeTo.end()'')
     | Some dest \<Rightarrow>
         rbind (assert_that (dest \<noteq> InvalidPortID) ''cpu_side_port_id != InvalidPortID'') (\<lambda>_.
         rbind (assert_that (nat dest < length (crespLayers x)) ''cpu_side_port_id < respLayers.size()'') (\<lambda>_.
         rbind (at_port (crespLayers x) dest) (\<lambda>l.
         rbind (tryTiming (nat mem) l) (\<lambda>(free, l1).
           if \<not> free then Inr (False, set_cresp dest l1 x)
           else
             rbind (calcPacketTiming clk (cwidth x) (cresponseLatency x * clockPeriod clk) pkt) (\<lambda>pkt1.
             rbind (xbar_update_response pkt1 dest x) (\<lambda>x1.
             rbind (v_response V pkt1 x1) (\<lambda>x2.
             rbind (succeededTiming (clockEdge clk (cheaderLatency x) + ucast (payloadDelay pkt1)) l1) (\<lambda>l2.
               Inr (True, set_cresp dest l2 (del_route (req_ptr (req pkt))
                 (sched_response clk dest pkt1 x2)))))))))))))"

section \<open>Snoops from below\<close>

definition snoop_from_below ::
  "'e xpeers \<Rightarrow> Clock \<Rightarrow> Packet \<Rightarrow> 'z CoherentXBar_scheme \<Rightarrow> 'e
    \<Rightarrow> (Packet \<times> 'z CoherentXBar_scheme \<times> 'e) outcome" where
  "snoop_from_below peers clk pkt x e =
    rbind (case snoopFilter x of
        None \<Rightarrow> forwardTiming peers pkt InvalidPortID (snoopPorts x) x e
      | Some sf \<Rightarrow>
          rbind (lookupSnoop pkt sf) (\<lambda>((dests, lat), sf1).
            forwardTiming peers (charge_lookup clk lat pkt) InvalidPortID dests
              (x\<lparr> snoopFilter := Some sf1 \<rparr>) e)) (\<lambda>(pkt1, x1, e1).
      Inr (charge_snoop_delay pkt1, x1, e1))"

definition coh_recvTimingSnoopReq ::
  "'z CoherentXBar_scheme xvariant \<Rightarrow> 'e xpeers \<Rightarrow> Clock \<Rightarrow> Packet \<Rightarrow> PortID
    \<Rightarrow> 'z CoherentXBar_scheme \<Rightarrow> 'e \<Rightarrow> (Packet \<times> 'z CoherentXBar_scheme \<times> 'e) outcome" where
  "coh_recvTimingSnoopReq V peers clk pkt mem x e =
    rbind (assert_that (isExpressSnoop pkt) ''pkt->isExpressSnoop()'') (\<lambda>_.
    rbind (calcPacketTiming clk (cwidth x) (cforwardLatency x * clockPeriod clk) pkt) (\<lambda>pkt1.
    rbind (assert_that (snoopDelay pkt1 = 0) ''pkt->snoopDelay == 0'') (\<lambda>_.
    rbind (snoop_from_below peers clk pkt1 x e) (\<lambda>(pkt2, x2, e2).
    rbind (if \<not> cacheResponding pkt1 \<and> cacheResponding pkt2 then
             rbind (assert_that (route_of x2 (req_ptr (req pkt2)) = None)
                 ''routeTo.find(pkt->req) == routeTo.end()'') (\<lambda>_.
               Inr (set_route (req_ptr (req pkt2)) mem x2))
           else Inr x2) (\<lambda>x3.
    rbind (v_findPort V pkt2 x3) (\<lambda>(p, pkt3, x4).
    rbind (assert_that (p = mem) ''findPort(pkt) == mem_side_port_id'') (\<lambda>_.
      Inr (pkt3, x4, e2))))))))"

text \<open>In a response layer, the port that mirrors CPU-side port \<open>p\<close> for its snoop responses has a
  number after those of the memory-side ports.\<close>

definition snoopRespPort :: "'z CoherentXBar_scheme \<Rightarrow> PortID \<Rightarrow> port_id" where
  "snoopRespPort x p = length (creqLayers x) + nat p"

text \<open>A snoop response to a snoop that came from below is forwarded below; one to a snoop that the
  crossbar made for a request becomes the response of that request.\<close>

definition forward_snoop_resp ::
  "'e xpeers \<Rightarrow> Clock \<Rightarrow> Packet \<Rightarrow> PortID \<Rightarrow> PortID \<Rightarrow> 'z CoherentXBar_scheme \<Rightarrow> 'e
    \<Rightarrow> (bool \<times> Packet \<times> 'z CoherentXBar_scheme \<times> 'e) outcome" where
  "forward_snoop_resp peers clk pkt src dest x e =
    rbind (assert_that (nat dest < length (snoopLayers x)) ''dest_port_id < snoopLayers.size()'') (\<lambda>_.
    rbind (at_port (snoopLayers x) dest) (\<lambda>l.
    rbind (tryTiming (nat src) l) (\<lambda>(free, l1).
      if \<not> free then Inr (False, pkt, set_csnoop dest l1 x, e)
      else
        rbind (assert_that (\<not> isExpressSnoop pkt) ''!pkt->isExpressSnoop()'') (\<lambda>_.
        rbind (calcPacketTiming clk (cwidth x) (snoopResponseLatency x * clockPeriod clk) pkt) (\<lambda>pkt1.
        rbind (case snoopFilter x of
                 None \<Rightarrow> Inr x
               | Some sf \<Rightarrow> rbind (updateSnoopForward pkt1 sf) (\<lambda>sf1. Inr (x\<lparr> snoopFilter := Some sf1 \<rparr>))) (\<lambda>x1.
        rbind (sendTimingSnoopResp peers dest pkt1 e) (\<lambda>(success, pkt2, e1).
        rbind (assert_that success ''success'') (\<lambda>_.
        rbind (succeededTiming (clockEdge clk (cheaderLatency x) + ucast (payloadDelay pkt1)) l1) (\<lambda>l2.
          Inr (True, pkt2, del_route (req_ptr (req pkt)) (set_csnoop dest l2 x1), e1))))))))))"

definition respond_snoop_resp ::
  "Clock \<Rightarrow> Packet \<Rightarrow> PortID \<Rightarrow> PortID \<Rightarrow> 'z CoherentXBar_scheme
    \<Rightarrow> (bool \<times> Packet \<times> 'z CoherentXBar_scheme) outcome" where
  "respond_snoop_resp clk pkt src dest x =
    rbind (assert_that (nat dest < length (crespLayers x)) ''dest_port_id < respLayers.size()'') (\<lambda>_.
    rbind (at_port (crespLayers x) dest) (\<lambda>l.
    rbind (tryTiming (snoopRespPort x src) l) (\<lambda>(free, l1).
      if \<not> free then Inr (False, pkt, set_cresp dest l1 x)
      else
        rbind (assert_that (\<not> isExpressSnoop pkt) ''!pkt->isExpressSnoop()'') (\<lambda>_.
        rbind (calcPacketTiming clk (cwidth x) (cresponseLatency x * clockPeriod clk) pkt) (\<lambda>pkt1.
        let x1 = x\<lparr> outstandingSnoop := removeAll (req_ptr (req pkt)) (outstandingSnoop x) \<rparr> in
        rbind (assert_that (src \<noteq> dest) ''cpu_side_port_id != dest_port_id'') (\<lambda>_.
        rbind (case snoopFilter x1 of
                 None \<Rightarrow> Inr x1
               | Some sf \<Rightarrow>
                   rbind (at_port (ccpuSidePorts x1) src) (\<lambda>rsp_port.
                   rbind (at_port (ccpuSidePorts x1) dest) (\<lambda>req_port.
                   rbind (updateSnoopResponse pkt1 rsp_port req_port sf) (\<lambda>sf1.
                     Inr (x1\<lparr> snoopFilter := Some sf1 \<rparr>))))) (\<lambda>x2.
        rbind (succeededTiming (clockEdge clk (cheaderLatency x) + ucast (payloadDelay pkt1)) l1) (\<lambda>l2.
          Inr (True, pkt1\<lparr> headerDelay := 0 \<rparr>, del_route (req_ptr (req pkt))
            (set_cresp dest l2 (sched_response clk dest pkt1 x2))))))))))) "

definition coh_recvTimingSnoopResp ::
  "'e xpeers \<Rightarrow> Clock \<Rightarrow> Packet \<Rightarrow> PortID \<Rightarrow> 'z CoherentXBar_scheme \<Rightarrow> 'e
    \<Rightarrow> (bool \<times> Packet \<times> 'z CoherentXBar_scheme \<times> 'e) outcome" where
  "coh_recvTimingSnoopResp peers clk pkt src x e =
    rbind (at_port (ccpuSidePorts x) src) (\<lambda>_.
    (case route_of x (req_ptr (req pkt)) of
       None \<Rightarrow> Inl (AssertFail ''route_lookup != routeTo.end()'')
     | Some dest \<Rightarrow>
         rbind (assert_that (dest \<noteq> InvalidPortID) ''dest_port_id != InvalidPortID'') (\<lambda>_.
           if req_ptr (req pkt) \<notin> set (outstandingSnoop x)
           then forward_snoop_resp peers clk pkt src dest x e
           else rbind (respond_snoop_resp clk pkt src dest x) (\<lambda>(b, pkt1, x1). Inr (b, pkt1, x1, e)))))"

definition coh_recvReqRetry ::
  "retry_reaction \<Rightarrow> Clock \<Rightarrow> PortID \<Rightarrow> 'z CoherentXBar_scheme \<Rightarrow> 'z CoherentXBar_scheme outcome" where
  "coh_recvReqRetry rx clk p x =
    rbind (at_port (creqLayers x) p) (\<lambda>l.
    rbind (recvRetry rx (clockEdge clk 0) l) (\<lambda>l1. Inr (set_creq p l1 x)))"

section \<open>Atomic accesses\<close>

text \<open>The filter learns of the answer of a snooped cache: one to a snoop from below, or one to a
  request of CPU-side port \<open>ex\<close>.\<close>

definition atomic_snoop_answer ::
  "Packet \<Rightarrow> PortID \<Rightarrow> PortID \<Rightarrow> CpuSidePort \<Rightarrow> 'z CoherentXBar_scheme
    \<Rightarrow> 'z CoherentXBar_scheme outcome" where
  "atomic_snoop_answer pkt ex source p x =
    (case snoopFilter x of
       None \<Rightarrow> Inr x
     | Some sf \<Rightarrow>
         rbind (if source \<noteq> InvalidPortID then
                  rbind (assert_that (ex = InvalidPortID) ''exclude_cpu_side_port_id == InvalidPortID'') (\<lambda>_.
                    updateSnoopForward pkt sf)
                else
                  rbind (at_port (ccpuSidePorts x) ex) (\<lambda>req_port.
                    updateSnoopResponse pkt p req_port sf)) (\<lambda>sf1.
           Inr (x\<lparr> snoopFilter := Some sf1 \<rparr>)))"

fun snoop_atomic ::
  "'e xpeers \<Rightarrow> Command \<Rightarrow> PortID \<Rightarrow> PortID \<Rightarrow> CpuSidePort list \<Rightarrow> Command \<times> u64 \<Rightarrow> Packet
    \<Rightarrow> 'z CoherentXBar_scheme \<Rightarrow> 'e \<Rightarrow> ((Command \<times> u64) \<times> Packet \<times> 'z CoherentXBar_scheme \<times> 'e) outcome" where
  "snoop_atomic peers orig_cmd ex source [] res pkt x e = Inr (res, pkt, x, e)"
| "snoop_atomic peers orig_cmd ex source (p # ps) res pkt x e =
     (if ex \<noteq> InvalidPortID \<and> cp_id p = ex then snoop_atomic peers orig_cmd ex source ps res pkt x e
      else
        rbind (sendAtomicSnoop peers (cp_id p) pkt e) (\<lambda>(latency, pkt1, e1).
          let x1 = x\<lparr> gh_snooped := gh_snooped x @ [cp_id p] \<rparr> in
          if \<not> isResponse (cmd pkt1) then snoop_atomic peers orig_cmd ex source ps res pkt1 x1 e1
          else
            rbind (assert_that (cmd pkt1 \<noteq> orig_cmd) ''pkt->cmd != orig_cmd'') (\<lambda>_.
            rbind (assert_that (cacheResponding pkt1) ''pkt->cacheResponding()'') (\<lambda>_.
            rbind (assert_that (fst res = InvalidCmd) ''snoop_response_cmd == MemCmd::InvalidCmd'') (\<lambda>_.
            rbind (atomic_snoop_answer pkt1 ex source p x1) (\<lambda>x2.
              snoop_atomic peers orig_cmd ex source ps (cmd pkt1, latency)
                (pkt1\<lparr> cmd := orig_cmd \<rparr>) x2 e1))))))"

definition coh_forwardAtomic ::
  "'e xpeers \<Rightarrow> Packet \<Rightarrow> PortID \<Rightarrow> PortID \<Rightarrow> CpuSidePort list \<Rightarrow> 'z CoherentXBar_scheme \<Rightarrow> 'e
    \<Rightarrow> ((Command \<times> u64) \<times> Packet \<times> 'z CoherentXBar_scheme \<times> 'e) outcome" where
  "coh_forwardAtomic peers pkt ex source dests x e =
    rbind (assert_that (\<not> bypassCaches x) ''!system->bypassCaches()'') (\<lambda>_.
      snoop_atomic peers (cmd pkt) ex source dests (InvalidCmd, 0) pkt x e)"

text \<open>The snoops of an atomic request: the filter is told that the request is over before the caches
  are asked.\<close>

definition snoop_request_atomic ::
  "'e xpeers \<Rightarrow> Clock \<Rightarrow> Packet \<Rightarrow> PortID \<Rightarrow> 'z CoherentXBar_scheme \<Rightarrow> 'e
    \<Rightarrow> ((Command \<times> u64) \<times> Packet \<times> 'z CoherentXBar_scheme \<times> 'e) outcome" where
  "snoop_request_atomic peers clk pkt src x e =
    (case snoopFilter x of
       None \<Rightarrow> coh_forwardAtomic peers pkt src InvalidPortID (snoopPorts x) x e
     | Some sf \<Rightarrow>
         rbind (at_port (ccpuSidePorts x) src) (\<lambda>port.
         rbind (lookupRequest pkt port sf) (\<lambda>((dests, lat), sf1).
         rbind (getAddr pkt) (\<lambda>a.
         rbind (pkt_isSecure pkt) (\<lambda>secure.
         rbind (finishRequest False a secure sf1) (\<lambda>sf2.
           let x1 = x\<lparr> snoopFilter := Some sf2 \<rparr>; lookup = lat * clockPeriod clk in
           if isEviction (cmd pkt)
           then Inr ((InvalidCmd, lookup), if dests \<noteq> [] then setBlockCached pkt else pkt, x1, e)
           else
             rbind (coh_forwardAtomic peers pkt src InvalidPortID dests x1 e) (\<lambda>((c, lat1), pkt1, x2, e1).
               Inr ((c, lookup + lat1), pkt1, x2, e1))))))))"

definition atomic_maintenance ::
  "Packet \<Rightarrow> 'z CoherentXBar_scheme \<Rightarrow> 'z CoherentXBar_scheme outcome" where
  "atomic_maintenance pkt x =
    (if isClean (cmd pkt) \<and> isDestination x pkt \<and> satisfied pkt then
       rbind (assert_that (map_of (outstandingCMO x) (p_id pkt) \<noteq> None) ''it != outstandingCMO.end()'') (\<lambda>_.
         Inr (x\<lparr> outstandingCMO := AList.delete (p_id pkt) (outstandingCMO x) \<rparr>))
     else if cmd pkt = WriteClean \<and> isDestination x pkt then
       rbind (assert_that (map_of (outstandingCMO x) (p_id pkt) = None) ''ret.second'') (\<lambda>_.
         Inr (x\<lparr> outstandingCMO := AList.update (p_id pkt) None (outstandingCMO x) \<rparr>))
     else Inr x)"

text \<open>An atomic request at its destination: the latency, the packet and whether it was forwarded.\<close>

definition atomic_onwards ::
  "'z CoherentXBar_scheme xvariant \<Rightarrow> 'e xpeers \<Rightarrow> bool \<Rightarrow> bool \<Rightarrow> PortID \<Rightarrow> Packet
    \<Rightarrow> 'z CoherentXBar_scheme \<Rightarrow> 'e \<Rightarrow> (u64 \<times> Packet \<times> 'z CoherentXBar_scheme \<times> 'e) outcome" where
  "atomic_onwards V peers dest_here sink_packet mem pkt x e =
    (if sink_packet then Inr (0, pkt, x, e)
     else if forwardPacket x pkt then
       let pkt1 = (if isWrite (cmd pkt) \<and> dest_here then clearWriteThrough pkt else pkt) in
       rbind (at_port (creqLayers x) mem) (\<lambda>_.
       rbind (sendAtomic peers mem pkt1 e) (\<lambda>(latency, pkt2, e1).
       rbind (v_atomic V pkt2 x) (\<lambda>x1. Inr (latency, pkt2, x1, e1))))
     else
       rbind (assert_that (needsResponse (cmd pkt)) ''pkt->needsResponse()'') (\<lambda>_.
       rbind (makeResponse pkt) (\<lambda>pkt1. Inr (0, pkt1, x, e))))"

definition coh_recvAtomic ::
  "'z CoherentXBar_scheme xvariant \<Rightarrow> 'e xpeers \<Rightarrow> Clock \<Rightarrow> Packet \<Rightarrow> PortID
    \<Rightarrow> 'z CoherentXBar_scheme \<Rightarrow> 'e \<Rightarrow> (u64 \<times> Packet \<times> 'z CoherentXBar_scheme \<times> 'e) outcome" where
  "coh_recvAtomic V peers clk pkt src x e =
    (let dest_here = isDestination x pkt;
         snoop_caches = (\<not> bypassCaches x \<and> cmd pkt \<noteq> WriteClean) in
     rbind (if snoop_caches then snoop_request_atomic peers clk pkt src x e
            else Inr ((InvalidCmd, 0), pkt, x, e)) (\<lambda>((snoop_cmd, snoop_lat), pkt1, x1, e1).
     rbind (sinkPacket x1 pkt1) (\<lambda>sink_packet.
     rbind (v_findPort V pkt1 x1) (\<lambda>(mem, pkt2, x2).
     rbind (atomic_onwards V peers dest_here sink_packet mem pkt2 x2 e1) (\<lambda>(latency, pkt3, x3, e2).
     rbind (if isResponse (cmd pkt3) then xbar_update_response pkt3 src x3 else Inr x3) (\<lambda>x4.
     rbind (assert_that (snoop_cmd \<noteq> InvalidCmd \<longrightarrow> \<not> isResponse (cmd pkt3)) ''!pkt->isResponse()'') (\<lambda>_.
     let pkt4 = (if snoop_cmd \<noteq> InvalidCmd then pkt3\<lparr> cmd := snoop_cmd \<rparr> else pkt3);
         lat4 = (if snoop_cmd \<noteq> InvalidCmd then snoop_lat else latency) in
     rbind (atomic_maintenance pkt4 x4) (\<lambda>x5.
       Inr (lat4, pkt4\<lparr> payloadDelay := ucast lat4 \<rparr>, x5, e2)))))))))"

definition coh_recvAtomicSnoop ::
  "'e xpeers \<Rightarrow> Clock \<Rightarrow> Packet \<Rightarrow> PortID \<Rightarrow> 'z CoherentXBar_scheme \<Rightarrow> 'e
    \<Rightarrow> (u64 \<times> Packet \<times> 'z CoherentXBar_scheme \<times> 'e) outcome" where
  "coh_recvAtomicSnoop peers clk pkt mem x e =
    rbind (case snoopFilter x of
        None \<Rightarrow> coh_forwardAtomic peers pkt InvalidPortID InvalidPortID (snoopPorts x) x e
      | Some sf \<Rightarrow>
          rbind (lookupSnoop pkt sf) (\<lambda>((dests, lat), sf1).
          rbind (coh_forwardAtomic peers pkt InvalidPortID mem dests (x\<lparr> snoopFilter := Some sf1 \<rparr>) e)
            (\<lambda>((c, lat1), pkt1, x1, e1). Inr ((c, lat * clockPeriod clk + lat1), pkt1, x1, e1))))
      (\<lambda>((snoop_cmd, snoop_lat), pkt1, x1, e1).
        let pkt2 = (if snoop_cmd \<noteq> InvalidCmd then pkt1\<lparr> cmd := snoop_cmd \<rparr> else pkt1) in
        Inr (snoop_lat, pkt2\<lparr> payloadDelay := ucast snoop_lat \<rparr>, x1, e1))"

section \<open>Functional accesses\<close>

fun snoop_functional ::
  "'e xpeers \<Rightarrow> PortID \<Rightarrow> CpuSidePort list \<Rightarrow> Packet \<Rightarrow> 'e \<Rightarrow> (Packet \<times> 'e) outcome" where
  "snoop_functional peers ex [] pkt e = Inr (pkt, e)"
| "snoop_functional peers ex (p # ps) pkt e =
     rbind (if ex = InvalidPortID \<or> cp_id p \<noteq> ex then sendFunctionalSnoop peers (cp_id p) pkt e
            else Inr (pkt, e)) (\<lambda>(pkt1, e1).
       if isResponse (cmd pkt1) then Inr (pkt1, e1) else snoop_functional peers ex ps pkt1 e1)"

definition forwardFunctional ::
  "'e xpeers \<Rightarrow> Packet \<Rightarrow> PortID \<Rightarrow> 'z CoherentXBar_scheme \<Rightarrow> 'e \<Rightarrow> (Packet \<times> 'e) outcome" where
  "forwardFunctional peers pkt ex x e =
    rbind (assert_that (\<not> bypassCaches x) ''!system->bypassCaches()'') (\<lambda>_.
      snoop_functional peers ex (snoopPorts x) pkt e)"

text \<open>The queues of the CPU-side ports are asked one after the other; the first one that has the data
  ends the access.\<close>

fun try_queues ::
  "'e xpeers \<Rightarrow> CpuSidePort list \<Rightarrow> Packet \<Rightarrow> 'e \<Rightarrow> (bool \<times> Packet \<times> 'e) outcome" where
  "try_queues peers [] pkt e = Inr (False, pkt, e)"
| "try_queues peers (p # ps) pkt e =
     rbind (trySatisfyFunctional peers (cp_id p) pkt e) (\<lambda>(found, pkt1, e1).
       if found then
         if needsResponse (cmd pkt1) then rbind (makeResponse pkt1) (\<lambda>pkt2. Inr (True, pkt2, e1))
         else Inr (True, pkt1, e1)
       else try_queues peers ps pkt1 e1)"

definition coh_recvFunctional ::
  "'z CoherentXBar_scheme xvariant \<Rightarrow> 'e xpeers \<Rightarrow> Packet \<Rightarrow> PortID \<Rightarrow> 'z CoherentXBar_scheme \<Rightarrow> 'e
    \<Rightarrow> (Packet \<times> 'z CoherentXBar_scheme \<times> 'e) outcome" where
  "coh_recvFunctional V peers pkt src x e =
    rbind (if bypassCaches x then Inr (pkt, e) else forwardFunctional peers pkt src x e) (\<lambda>(pkt1, e1).
      if isResponse (cmd pkt1) then Inr (pkt1, x, e1)
      else
        rbind (try_queues peers (ccpuSidePorts x) pkt1 e1) (\<lambda>(found, pkt2, e2).
          if found then Inr (pkt2, x, e2)
          else
            rbind (v_findPort V pkt2 x) (\<lambda>(mem, pkt3, x1).
            rbind (at_port (creqLayers x1) mem) (\<lambda>_.
            rbind (sendFunctional peers mem pkt3 e2) (\<lambda>(pkt4, e3). Inr (pkt4, x1, e3))))))"

definition coh_recvFunctionalSnoop ::
  "'e xpeers \<Rightarrow> Packet \<Rightarrow> 'z CoherentXBar_scheme \<Rightarrow> 'e \<Rightarrow> (Packet \<times> 'e) outcome" where
  "coh_recvFunctionalSnoop peers pkt x e =
    rbind (try_queues peers (ccpuSidePorts x) pkt e) (\<lambda>(found, pkt1, e1).
      if found then Inr (pkt1, e1) else forwardFunctional peers pkt1 InvalidPortID x e1)"

text \<open>A request for a backdoor goes to the memory-side port of its range; what comes back is the
  peer's affair.\<close>

definition coh_recvMemBackdoorReq ::
  "(PortID \<Rightarrow> AddrRange \<Rightarrow> 'e \<Rightarrow> 'e outcome) \<Rightarrow> AddrRange \<Rightarrow> 'z CoherentXBar_scheme \<Rightarrow> 'e
    \<Rightarrow> ('z CoherentXBar_scheme \<times> 'e) outcome" where
  "coh_recvMemBackdoorReq sendMemBackdoorReq r x e =
    rbind (findPort r (cbase x)) (\<lambda>(p, b).
    rbind (at_port (creqLayers x) p) (\<lambda>_.
    rbind (sendMemBackdoorReq p r e) (\<lambda>e1. Inr (x\<lparr> cbase := b \<rparr>, e1))))"

section \<open>The coherent crossbar\<close>

text \<open>The variant without CXL: the destination is decoded from the address, every request is shown to
  the caches, and every request that expects an answer gets a route.\<close>

definition base_findPort ::
  "Packet \<Rightarrow> 'z CoherentXBar_scheme \<Rightarrow> (PortID \<times> Packet \<times> 'z CoherentXBar_scheme) outcome" where
  "base_findPort pkt x =
    rbind (getAddrRange pkt) (\<lambda>r.
    rbind (findPort r (cbase x)) (\<lambda>(p, b). Inr (p, pkt, x\<lparr> cbase := b \<rparr>)))"

definition store_route ::
  "Packet \<Rightarrow> PortID \<Rightarrow> 'z CoherentXBar_scheme \<Rightarrow> 'z CoherentXBar_scheme outcome" where
  "store_route pkt src x =
    rbind (assert_that (route_of x (req_ptr (req pkt)) = None) ''routeTo.find(pkt->req) == routeTo.end()'') (\<lambda>_.
      Inr (set_route (req_ptr (req pkt)) src x))"

definition coherent_variant :: "'z CoherentXBar_scheme xvariant" where
  "coherent_variant = \<lparr> v_findPort = base_findPort, v_snoops = (\<lambda>_. True),
     v_route = (\<lambda>_. store_route), v_checks = (\<lambda>_ _. True), v_response = (\<lambda>_. Inr), v_atomic = (\<lambda>_. Inr) \<rparr>"

definition coh_recvTimingReq ::
  "'e xpeers \<Rightarrow> Clock \<Rightarrow> Packet \<Rightarrow> PortID \<Rightarrow> CoherentXBar \<Rightarrow> 'e
    \<Rightarrow> (bool \<times> Packet \<times> CoherentXBar \<times> 'e) outcome" where
  "coh_recvTimingReq = xbar_recvTimingReq coherent_variant"

end
