(* ===== verification/CoherentXBarProps.thy ===== *)
theory CoherentXBarProps
  imports CoherentXBar
begin

text \<open>
  What the operations of the coherent crossbar do to its tables. The part that the crossbars
  share is proved once, in the locale \<open>xbar_variant\<close>, from what a variant promises: a lookup of
  the destination changes only the port map, a route is stored under the key of the request, and
  responses leave the tables alone.
\<close>

section \<open>The part that all crossbars have\<close>

definition core :: "'z CoherentXBar_scheme \<Rightarrow> CoherentXBar" where
  "core x = CoherentXBar.CoherentXBar.truncate x"

lemma core_sels [simp]:
  "cbase (core x) = cbase x" "ccpuSidePorts (core x) = ccpuSidePorts x"
  "creqLayers (core x) = creqLayers x" "crespLayers (core x) = crespLayers x"
  "snoopLayers (core x) = snoopLayers x" "snoopPorts (core x) = snoopPorts x"
  "outstandingSnoop (core x) = outstandingSnoop x" "outstandingCMO (core x) = outstandingCMO x"
  "crouteTo (core x) = crouteTo x" "snoopFilter (core x) = snoopFilter x"
  "bypassCaches (core x) = bypassCaches x" "pointOfCoherency (core x) = pointOfCoherency x"
  "pointOfUnification (core x) = pointOfUnification x"
  "maxOutstandingSnoopCheck (core x) = maxOutstandingSnoopCheck x"
  "maxRoutingTableSizeCheck (core x) = maxRoutingTableSizeCheck x"
  "csched_resps (core x) = csched_resps x" "gh_snooped (core x) = gh_snooped x"
  "cwidth (core x) = cwidth x" "cfrontendLatency (core x) = cfrontendLatency x"
  "cforwardLatency (core x) = cforwardLatency x" "cheaderLatency (core x) = cheaderLatency x"
  "cresponseLatency (core x) = cresponseLatency x" "snoopResponseLatency (core x) = snoopResponseLatency x"
  by (simp_all add: core_def CoherentXBar.CoherentXBar.truncate_def)

lemma core_upds [simp]:
  "core (x\<lparr> cbase := b \<rparr>) = (core x)\<lparr> cbase := b \<rparr>"
  "core (x\<lparr> creqLayers := ls \<rparr>) = (core x)\<lparr> creqLayers := ls \<rparr>"
  "core (x\<lparr> crespLayers := ls \<rparr>) = (core x)\<lparr> crespLayers := ls \<rparr>"
  "core (x\<lparr> snoopLayers := ls \<rparr>) = (core x)\<lparr> snoopLayers := ls \<rparr>"
  "core (x\<lparr> outstandingSnoop := rs \<rparr>) = (core x)\<lparr> outstandingSnoop := rs \<rparr>"
  "core (x\<lparr> outstandingCMO := cs \<rparr>) = (core x)\<lparr> outstandingCMO := cs \<rparr>"
  "core (x\<lparr> crouteTo := rt \<rparr>) = (core x)\<lparr> crouteTo := rt \<rparr>"
  "core (x\<lparr> snoopFilter := sf \<rparr>) = (core x)\<lparr> snoopFilter := sf \<rparr>"
  "core (x\<lparr> csched_resps := s \<rparr>) = (core x)\<lparr> csched_resps := s \<rparr>"
  "core (x\<lparr> gh_snooped := g \<rparr>) = (core x)\<lparr> gh_snooped := g \<rparr>"
  by (simp_all add: core_def CoherentXBar.CoherentXBar.truncate_def)

lemma core_same [simp]: "core (x :: CoherentXBar) = x"
  by (simp add: core_def CoherentXBar.CoherentXBar.truncate_def)

text \<open>Equations between cores give equations between fields.\<close>

lemma core_eqD:
  assumes "core x' = c"
  shows "cbase x' = cbase c" "ccpuSidePorts x' = ccpuSidePorts c" "creqLayers x' = creqLayers c"
    "crespLayers x' = crespLayers c" "snoopLayers x' = snoopLayers c" "snoopPorts x' = snoopPorts c"
    "outstandingSnoop x' = outstandingSnoop c" "outstandingCMO x' = outstandingCMO c"
    "crouteTo x' = crouteTo c" "snoopFilter x' = snoopFilter c" "bypassCaches x' = bypassCaches c"
    "pointOfCoherency x' = pointOfCoherency c" "pointOfUnification x' = pointOfUnification c"
    "maxOutstandingSnoopCheck x' = maxOutstandingSnoopCheck c"
    "maxRoutingTableSizeCheck x' = maxRoutingTableSizeCheck c" "csched_resps x' = csched_resps c"
    "gh_snooped x' = gh_snooped c" "cheaderLatency x' = cheaderLatency c"
    "cwidth x' = cwidth c" "cfrontendLatency x' = cfrontendLatency c"
    "cforwardLatency x' = cforwardLatency c" "cresponseLatency x' = cresponseLatency c"
  using assms by auto

section \<open>Frames\<close>

text \<open>The ports a snoop goes to.\<close>

definition snooped :: "PortID \<Rightarrow> CpuSidePort list \<Rightarrow> PortID list" where
  "snooped ex ps = map cp_id (filter (\<lambda>p. ex = InvalidPortID \<or> cp_id p \<noteq> ex) ps)"

lemma snooped_simps [simp]:
  "snooped ex [] = []"
  "snooped ex (p # ps) = (if ex = InvalidPortID \<or> cp_id p \<noteq> ex then cp_id p # snooped ex ps else snooped ex ps)"
  by (simp_all add: snooped_def)

text \<open>What snooped caches keep of a packet: its request and type, its command and its address.\<close>

definition keeps_identity :: "Packet \<Rightarrow> Packet \<Rightarrow> bool" where
  "keeps_identity pkt pkt' \<longleftrightarrow> req_ptr (req pkt') = req_ptr (req pkt) \<and>
     cxl_packet_type (req pkt') = cxl_packet_type (req pkt) \<and> r_flags (req pkt') = r_flags (req pkt) \<and>
     cmd pkt' = cmd pkt \<and> p_addr pkt' = p_addr pkt \<and> p_isSecure pkt' = p_isSecure pkt \<and>
     p_id pkt' = p_id pkt \<and> valid_addr pkt' = valid_addr pkt \<and>
     isExpressSnoop pkt' = isExpressSnoop pkt"

definition polite_snoopers :: "'e xpeers \<Rightarrow> bool" where
  "polite_snoopers peers \<longleftrightarrow> (\<forall>p pkt e pkt' e'.
     sendTimingSnoopReq peers p pkt e = Inr (pkt', e') \<longrightarrow> keeps_identity pkt pkt')"

lemma keeps_identity_refl [simp]: "keeps_identity pkt pkt"
  by (simp add: keeps_identity_def)

lemma keeps_identity_trans:
  "keeps_identity p q \<Longrightarrow> keeps_identity q r \<Longrightarrow> keeps_identity p r"
  by (simp add: keeps_identity_def)

lemma keeps_identity_delays [simp]:
  "keeps_identity pkt (charge_lookup clk lat pkt')  = keeps_identity pkt pkt'"
  "keeps_identity pkt (charge_snoop_delay pkt') = keeps_identity pkt pkt'"
  "keeps_identity (charge_lookup clk lat pkt) pkt' = keeps_identity pkt pkt'"
  by (simp_all add: keeps_identity_def charge_lookup_def charge_snoop_delay_def valid_addr_def
      isExpressSnoop_def)

lemma keeps_identity_block_cached [simp]: "keeps_identity pkt (setBlockCached pkt')  = keeps_identity pkt pkt'"
  by (simp add: keeps_identity_def setBlockCached_def valid_addr_def isExpressSnoop_def packet_flag_defs
      flag_set_other)

lemma snoop_ports_frame:
  assumes "snoop_ports peers pkt ex ps x e = Inr (pkt', x', e')"
  shows "x' = x\<lparr> gh_snooped := gh_snooped x @ snooped ex ps \<rparr>"
    and "polite_snoopers peers \<Longrightarrow> keeps_identity pkt pkt'"
proof -
  have "x' = x\<lparr> gh_snooped := gh_snooped x @ snooped ex ps \<rparr>
    \<and> (polite_snoopers peers \<longrightarrow> keeps_identity pkt pkt')"
    using assms
  proof (induction ps arbitrary: pkt x e)
    case (Cons p ps)
    show ?case
    proof (cases "ex = InvalidPortID \<or> cp_id p \<noteq> ex")
      case True
      with Cons.prems obtain pkt1 e1 where s: "sendTimingSnoopReq peers (cp_id p) pkt e = Inr (pkt1, e1)"
        and r: "snoop_ports peers pkt1 ex ps (x\<lparr> gh_snooped := gh_snooped x @ [cp_id p] \<rparr>) e1 = Inr (pkt', x', e')"
        by auto
      have "polite_snoopers peers \<Longrightarrow> keeps_identity pkt pkt1"
        using s unfolding polite_snoopers_def by blast
      with Cons.IH[OF r] True show ?thesis by (auto dest: keeps_identity_trans)
    qed (use Cons in auto)
  qed simp
  then show "x' = x\<lparr> gh_snooped := gh_snooped x @ snooped ex ps \<rparr>"
    "polite_snoopers peers \<Longrightarrow> keeps_identity pkt pkt'" by blast+
qed

lemma forwardTiming_frame:
  assumes "forwardTiming peers pkt ex ps x e = Inr (pkt', x', e')"
  shows "x' = x\<lparr> gh_snooped := gh_snooped x @ snooped ex ps \<rparr>" "\<not> bypassCaches x"
    and "polite_snoopers peers \<Longrightarrow> keeps_identity pkt pkt'"
  using assms snoop_ports_frame[of peers pkt ex ps x e pkt' x' e']
  by (auto simp: forwardTiming_def split: if_splits)

lemma snoop_request_frame:
  assumes "snoop_request peers clk pkt src x e = Inr (pkt', x', e')"
  obtains sf g where "x' = x\<lparr> snoopFilter := sf, gh_snooped := gh_snooped x @ g \<rparr>"
    "polite_snoopers peers \<Longrightarrow> keeps_identity pkt pkt'"
proof (cases "snoopFilter x")
  case None
  with assms obtain pkt1 where f: "forwardTiming peers pkt src (snoopPorts x) x e = Inr (pkt1, x', e')"
    "pkt' = charge_snoop_delay pkt1" by (auto simp: snoop_request_def)
  show ?thesis
    using forwardTiming_frame[OF f(1)] f(2) None
    by (intro that[where sf = None and g = "snooped src (snoopPorts x)"]) auto
next
  case (Some sf)
  with assms obtain port dests lat sf1 pkt1 where
    f: "(if isEviction (cmd (charge_lookup clk lat pkt))
          then Inr (if dests \<noteq> [] then setBlockCached (charge_lookup clk lat pkt) else charge_lookup clk lat pkt,
            x\<lparr> snoopFilter := Some sf1 \<rparr>, e)
          else forwardTiming peers (charge_lookup clk lat pkt) src dests (x\<lparr> snoopFilter := Some sf1 \<rparr>) e)
       = Inr (pkt1, x', e')" "pkt' = charge_snoop_delay pkt1"
    by (auto simp: snoop_request_def Let_def)
  show ?thesis
  proof (cases "isEviction (cmd (charge_lookup clk lat pkt))")
    case True
    with f show ?thesis by (intro that[where sf = "Some sf1" and g = "[]"]) (auto split: if_splits)
  next
    case False
    with f(1) have "forwardTiming peers (charge_lookup clk lat pkt) src dests (x\<lparr> snoopFilter := Some sf1 \<rparr>) e
      = Inr (pkt1, x', e')" by simp
    from forwardTiming_frame[OF this] f(2) show ?thesis
      by (intro that[where sf = "Some sf1" and g = "snooped src dests"]) auto
  qed
qed

lemma finish_filter_frame:
  assumes "finish_filter b r a pkt x = Inr x'"
  obtains sf where "x' = x\<lparr> snoopFilter := sf \<rparr>"
  using assms that[of "snoopFilter x"] by (auto simp: finish_filter_def split: option.splits if_splits)

lemma xbar_update_response_frame:
  assumes "xbar_update_response pkt dest x = Inr x'"
  obtains sf where "x' = x\<lparr> snoopFilter := sf \<rparr>"
  using assms that[of "snoopFilter x"] by (auto simp: xbar_update_response_def split: option.splits if_splits)

lemma respond_directly_frame:
  assumes "respond_directly clk d rsp port x = Inr (rsp', x')"
  obtains sf t where "x' = x\<lparr> snoopFilter := sf, csched_resps := csched_resps x @ [(port, rsp', t)] \<rparr>"
    "cmd rsp' = responseCommand (cmd rsp)" "req rsp' = req rsp"
proof -
  obtain q port' x1 where u: "(case snoopFilter x of
             Some sf \<Rightarrow> if \<not> bypassCaches x
               then rbind (updateResponse q port' sf) (\<lambda>sf1. Inr (x\<lparr> snoopFilter := Some sf1 \<rparr>))
               else Inr x
           | None \<Rightarrow> Inr x) = Inr x1"
    and x': "x' = x1\<lparr> csched_resps := csched_resps x1 @ [(port, rsp', clockEdge clk 0 + ucast d)] \<rparr>"
    and q: "makeResponse rsp = Inr q" "rsp' = q\<lparr> headerDelay := 0 \<rparr>"
    using assms unfolding respond_directly_def Let_def by (auto simp del: makeResponse_ok_iff split: if_splits)
  have "\<exists>sf. x1 = x\<lparr> snoopFilter := sf \<rparr>"
  proof (cases "snoopFilter x = None \<or> bypassCaches x")
    case True
    with u have "x1 = x\<lparr> snoopFilter := snoopFilter x \<rparr>" by (auto split: option.splits)
    then show ?thesis by (rule exI)
  next
    case False
    with u obtain sf1 where "x1 = x\<lparr> snoopFilter := Some sf1 \<rparr>" by auto
    then show ?thesis by (rule exI)
  qed
  then obtain sf where "x1 = x\<lparr> snoopFilter := sf \<rparr>" by (rule exE)
  with x' q show ?thesis by (intro that[where sf = sf]) (auto simp: makeResponse_ok_iff)
qed

lemma check_routes_Inr [simp]:
  "check_routes x = Inr x' \<longleftrightarrow> x' = x \<and> length (crouteTo x) \<le> maxRoutingTableSizeCheck x"
  by (auto simp: check_routes_def)

lemma checked_routes_Inr [simp]:
  "(if c then check_routes x else Inr x) = Inr x' \<longleftrightarrow>
     x' = x \<and> (c \<longrightarrow> length (crouteTo x) \<le> maxRoutingTableSizeCheck x)"
  by auto

lemma add_outstanding_Inr [simp]:
  "add_outstanding r x = Inr x' \<longleftrightarrow> r \<notin> set (outstandingSnoop x)
     \<and> Suc (length (outstandingSnoop x)) \<le> maxOutstandingSnoopCheck x
     \<and> x' = x\<lparr> outstandingSnoop := r # outstandingSnoop x \<rparr>"
  by (auto simp: add_outstanding_def Let_def)

lemma route_upds [simp]:
  "route_of (set_route r p x) r' = (if r' = r then Some p else route_of x r')"
  "route_of (del_route r x) r' = (if r' = r then None else route_of x r')"
  by (simp_all add: route_of_def set_route_def del_route_def AList.update_conv' AList.delete_conv')

lemma set_layer_sels [simp]:
  "crouteTo (set_creq p l x) = crouteTo x" "crouteTo (set_cresp p l x) = crouteTo x"
  "crouteTo (set_csnoop p l x) = crouteTo x"
  "outstandingSnoop (set_creq p l x) = outstandingSnoop x"
  "outstandingSnoop (set_cresp p l x) = outstandingSnoop x"
  "outstandingSnoop (set_csnoop p l x) = outstandingSnoop x"
  "outstandingCMO (set_creq p l x) = outstandingCMO x" "outstandingCMO (set_cresp p l x) = outstandingCMO x"
  "outstandingCMO (set_csnoop p l x) = outstandingCMO x"
  "csched_resps (set_creq p l x) = csched_resps x" "csched_resps (set_cresp p l x) = csched_resps x"
  "csched_resps (set_csnoop p l x) = csched_resps x"
  "creqLayers (set_cresp p l x) = creqLayers x" "creqLayers (set_csnoop p l x) = creqLayers x"
  "crespLayers (set_creq p l x) = crespLayers x" "crespLayers (set_csnoop p l x) = crespLayers x"
  "snoopLayers (set_creq p l x) = snoopLayers x" "snoopLayers (set_cresp p l x) = snoopLayers x"
  "length (creqLayers (set_creq p l x)) = length (creqLayers x)"
  "length (crespLayers (set_cresp p l x)) = length (crespLayers x)"
  "length (snoopLayers (set_csnoop p l x)) = length (snoopLayers x)"
  by (simp_all add: set_creq_def set_cresp_def set_csnoop_def)

lemma at_port_Inr [simp]: "at_port xs p = Inr v \<longleftrightarrow> 0 \<le> p \<and> nat p < length xs \<and> xs ! nat p = v"
  by (simp add: at_port_def)

lemma route_of_cong: "crouteTo x' = crouteTo x \<Longrightarrow> route_of x' = route_of x"
  by (simp add: route_of_def fun_eq_iff)

section \<open>What a variant promises\<close>

text \<open>What the lookup of a destination may change in a packet: the type of its request.\<close>

definition keeps_but_type :: "Packet \<Rightarrow> Packet \<Rightarrow> bool" where
  "keeps_but_type pkt pkt' \<longleftrightarrow> (\<exists>t. pkt' = upd_req (\<lambda>r. r\<lparr> cxl_packet_type := t \<rparr>) pkt)"

locale xbar_frame =
  fixes V :: "'z CoherentXBar_scheme xvariant" and regular :: "Packet \<Rightarrow> bool"
  assumes findPort_core: "v_findPort V pkt x = Inr (p, pkt', x') \<Longrightarrow> \<exists>b. core x' = (core x)\<lparr> cbase := b \<rparr>"
    and findPort_pkt: "v_findPort V pkt x = Inr (p, pkt', x') \<Longrightarrow>
      keeps_but_type pkt pkt' \<and> (regular pkt \<longrightarrow> regular pkt')"
    and route_core: "v_route V sink pkt src x = Inr x' \<Longrightarrow> core x' = core x \<or>
      route_of x (req_ptr (req pkt)) = None \<and> core x' = core (set_route (req_ptr (req pkt)) src x)"
    and response_core: "v_response V pkt x = Inr x' \<Longrightarrow> core x' = core x"
    and atomic_core: "v_atomic V pkt x = Inr x' \<Longrightarrow> core x' = core x"
    and type_only: "req_ptr (req pkt') = req_ptr (req pkt) \<Longrightarrow>
      cxl_packet_type (req pkt') = cxl_packet_type (req pkt) \<Longrightarrow>
      regular pkt' = regular pkt \<and> v_snoops V pkt' = v_snoops V pkt"

text \<open>A crossbar that also remembers the way back of every regular request, and of every request that a
  snooped cache has taken over.\<close>

locale xbar_variant = xbar_frame V regular
  for V :: "'z CoherentXBar_scheme xvariant" and regular :: "Packet \<Rightarrow> bool" +
  assumes route_regular: "v_route V sink pkt src x = Inr x' \<Longrightarrow> regular pkt \<or> sink \<and> v_snoops V pkt \<Longrightarrow>
      route_of x (req_ptr (req pkt)) = None \<and> core x' = core (set_route (req_ptr (req pkt)) src x)"

lemma base_findPort_frame:
  assumes "base_findPort pkt x = Inr (p, pkt', x')"
  shows "pkt' = pkt" "\<exists>b. x' = x\<lparr> cbase := b \<rparr>"
  using assms by (auto simp: base_findPort_def)

lemma store_route_Inr [simp]:
  "store_route pkt src x = Inr x' \<longleftrightarrow>
     route_of x (req_ptr (req pkt)) = None \<and> x' = set_route (req_ptr (req pkt)) src x"
  by (auto simp: store_route_def)

lemma keeps_but_type_refl [simp]: "keeps_but_type pkt pkt"
  unfolding keeps_but_type_def
  by (rule exI[of _ "cxl_packet_type (req pkt)"]) (simp add: upd_req_def)

lemma keeps_but_typeD:
  assumes "keeps_but_type pkt pkt'"
  shows "req_ptr (req pkt') = req_ptr (req pkt)" "cmd pkt' = cmd pkt" "p_flags pkt' = p_flags pkt"
    "p_addr pkt' = p_addr pkt" "p_id pkt' = p_id pkt" "r_flags (req pkt') = r_flags (req pkt)"
    "p_isSecure pkt' = p_isSecure pkt" "headerDelay pkt' = headerDelay pkt" "snoopDelay pkt' = snoopDelay pkt"
  using assms by (auto simp: keeps_but_type_def upd_req_def)

interpretation coherent: xbar_variant "coherent_variant :: 'z CoherentXBar_scheme xvariant" "\<lambda>_. True"
proof unfold_locales
  fix pkt pkt' :: Packet and x x' :: "'z CoherentXBar_scheme" and p :: PortID
  assume "v_findPort coherent_variant pkt x = Inr (p, pkt', x')"
  then have f: "base_findPort pkt x = Inr (p, pkt', x')" by (simp add: coherent_variant_def)
  show "\<exists>b. core x' = (core x)\<lparr> cbase := b \<rparr>" using base_findPort_frame(2)[OF f] by auto
  show "keeps_but_type pkt pkt' \<and> (True \<longrightarrow> True)" using base_findPort_frame(1)[OF f] by simp
qed (auto simp: coherent_variant_def)

text \<open>What the memory side keeps of a packet it is handed: the identity of the request, and its command
  unless it has turned it into the response.\<close>

definition polite_memory :: "(Packet \<Rightarrow> bool) \<Rightarrow> 'e xpeers \<Rightarrow> bool" where
  "polite_memory regular peers \<longleftrightarrow> (\<forall>p pkt e s pkt' e'. sendTimingReq peers p pkt e = Inr (s, pkt', e') \<longrightarrow>
     req_ptr (req pkt') = req_ptr (req pkt) \<and> p_id pkt' = p_id pkt \<and>
     (cmd pkt' = cmd pkt \<or> cmd pkt' = responseCommand (cmd pkt)) \<and> (regular pkt \<longrightarrow> regular pkt'))"

text \<open>Cache maintenance, which may be answered later.\<close>

definition maintenance :: "Command \<Rightarrow> bool" where
  "maintenance c \<longleftrightarrow> isClean c \<or> c = WriteClean"

lemma maintenance_response: "maintenance (responseCommand c) \<Longrightarrow> maintenance c"
  by (cases c) (simp_all add: maintenance_def isClean_def testCmdAttrib_def responseCommand_def)

section \<open>Requests\<close>

lemma calcPacketTiming_more:
  assumes "calcPacketTiming clk w d pkt = Inr pkt'"
  shows "keeps_identity pkt pkt'" "p_flags pkt' = p_flags pkt" "snoopDelay pkt' = snoopDelay pkt"
    "req pkt' = req pkt"
  using assms unfolding calcPacketTiming_def Let_def
  by (auto simp: keeps_identity_def valid_addr_def isExpressSnoop_def split: if_splits)

lemma send_onwards_cases:
  assumes "send_onwards peers d es sink mem pkt x e = Inr (success, direct, pkt1, e1)"
  shows "sink \<Longrightarrow> success \<and> \<not> direct \<and> pkt1 = pkt \<and> e1 = e"
    and "direct \<Longrightarrow> success \<and> pkt1 = pkt \<and> e1 = e \<and> needsResponse (cmd pkt) \<and> \<not> es"
    and "\<not> sink \<Longrightarrow> \<not> direct \<Longrightarrow> forwardPacket x pkt \<and> (\<exists>pkt2. sendTimingReq peers mem pkt2 e = Inr (success, pkt1, e1)
      \<and> req pkt2 = req pkt \<and> cmd pkt2 = cmd pkt \<and> p_id pkt2 = p_id pkt \<and> p_addr pkt2 = p_addr pkt
      \<and> p_isSecure pkt2 = p_isSecure pkt \<and> valid_addr pkt2 = valid_addr pkt)"
proof -
  show "sink \<Longrightarrow> success \<and> \<not> direct \<and> pkt1 = pkt \<and> e1 = e"
    using assms by (auto simp: send_onwards_def)
  show "direct \<Longrightarrow> success \<and> pkt1 = pkt \<and> e1 = e \<and> needsResponse (cmd pkt) \<and> \<not> es"
    using assms by (auto simp: send_onwards_def Let_def split: if_splits)
  assume n: "\<not> sink" "\<not> direct"
  let ?p1 = "if cacheResponding pkt then setExpressSnoop pkt else pkt"
  let ?p2 = "if isWrite (cmd ?p1) \<and> d then clearWriteThrough ?p1 else ?p1"
  have "forwardPacket x pkt \<and> sendTimingReq peers mem ?p2 e = Inr (success, pkt1, e1)"
    using assms n by (auto simp: send_onwards_def Let_def split: if_splits)
  moreover have "req ?p2 = req pkt \<and> cmd ?p2 = cmd pkt \<and> p_id ?p2 = p_id pkt \<and> p_addr ?p2 = p_addr pkt
      \<and> p_isSecure ?p2 = p_isSecure pkt \<and> valid_addr ?p2 = valid_addr pkt"
    by (simp add: setExpressSnoop_def clearWriteThrough_def valid_addr_def packet_flag_defs flag_set_other
        flag_clear_other)
  ultimately show "forwardPacket x pkt \<and> (\<exists>pkt2. sendTimingReq peers mem pkt2 e = Inr (success, pkt1, e1)
      \<and> req pkt2 = req pkt \<and> cmd pkt2 = cmd pkt \<and> p_id pkt2 = p_id pkt \<and> p_addr pkt2 = p_addr pkt
      \<and> p_isSecure pkt2 = p_isSecure pkt \<and> valid_addr pkt2 = valid_addr pkt)" by blast
qed

text \<open>A request that is accepted was shown to the caches as packet \<open>pk\<close>, sent on as \<open>pk1\<close>, entered into
  the tables and possibly answered.\<close>

definition accounted ::
  "'z CoherentXBar_scheme xvariant \<Rightarrow> bool \<Rightarrow> bool \<Rightarrow> bool \<Rightarrow> PortID \<Rightarrow> Packet \<Rightarrow> Packet \<Rightarrow> PortID
    \<Rightarrow> 'z CoherentXBar_scheme \<Rightarrow> 'z CoherentXBar_scheme \<Rightarrow> bool" where
  "accounted V express direct sink mem pk pk1 src xa xb \<longleftrightarrow>
     (if express then xb = xa
      else \<exists>xc l. account_request V (cacheResponding pk)
             ((needsResponse (cmd pk) \<and> \<not> cacheResponding pk) \<and> \<not> direct) sink pk1 src xa = Inr xc
           \<and> xb = set_creq mem l xc)"

lemma forward_requestE:
  assumes "forward_request V peers clk express d sc fin old mem l1 pk src x e = Inr (b, pkt', x', e')"
  obtains (refused) l sf pk1 sink where "\<not> b" "\<not> express" "x' = set_creq mem l (x\<lparr> snoopFilter := sf \<rparr>)"
      "sinkPacket x pk = Inr sink" "pkt' = pk1\<lparr> headerDelay := old \<rparr>"
      "send_onwards peers d (\<not> express \<and> cacheResponding pk) sink mem pk x e = Inr (False, False, pk1, e')"
      "finish_filter sc True (p_addr pk) pk1 x = Inr (x\<lparr> snoopFilter := sf \<rparr>)"
      "failedTiming (nat src) (clockEdge clk 1) l1 = Inr l"
  | (accepted) sink direct pk1 sf xb where "b" "sinkPacket x pk = Inr sink"
      "send_onwards peers d (\<not> express \<and> cacheResponding pk) sink mem pk x e = Inr (True, direct, pk1, e')"
      "finish_filter sc False (p_addr pk) pk1 x = Inr (x\<lparr> snoopFilter := sf \<rparr>)"
      "accounted V express direct sink mem pk pk1 src (x\<lparr> snoopFilter := sf \<rparr>) xb"
      "answer_request V clk True direct d sink pk1 src xb = Inr (pkt', x')"
proof -
  obtain sink a success direct pk1 e1 x1 where s: "sinkPacket x pk = Inr sink" "getAddr pk = Inr a"
      "send_onwards peers d (\<not> express \<and> cacheResponding pk) sink mem pk x e = Inr (success, direct, pk1, e1)"
      "finish_filter sc (\<not> success) a pk1 x = Inr x1"
    and rest: "(if \<not> success then
       rbind (assert_that (\<not> express) ''!is_express_snoop'') (\<lambda>_.
       rbind (failedTiming (nat src) (clockEdge clk 1) l1) (\<lambda>l2.
         Inr (False, pk1\<lparr> headerDelay := old \<rparr>, set_creq mem l2 x1, e1)))
     else
       rbind (if express then Inr x1
              else rbind (account_request V (\<not> express \<and> cacheResponding pk)
                     ((needsResponse (cmd pk) \<and> \<not> cacheResponding pk) \<and> \<not> direct) sink pk1 src x1) (\<lambda>x2.
                   rbind (succeededTiming fin l1) (\<lambda>l2. Inr (set_creq mem l2 x2)))) (\<lambda>x3.
       rbind (answer_request V clk success direct d sink pk1 src x3) (\<lambda>(pkt2, x4).
         Inr (True, pkt2, x4, e1)))) = Inr (b, pkt', x', e')"
    using assms unfolding forward_request_def by (auto simp: Let_def)
  have a: "a = p_addr pk" using s(2) by (simp add: getAddr_def split: if_splits)
  obtain sf where sf: "x1 = x\<lparr> snoopFilter := sf \<rparr>" using finish_filter_frame[OF s(4)] .
  show ?thesis
  proof (cases success)
    case False
    then have d: "\<not> direct" using send_onwards_cases(2)[OF s(3)] by blast
    from rest False obtain l where "\<not> b" "\<not> express" "failedTiming (nat src) (clockEdge clk 1) l1 = Inr l"
      "pkt' = pk1\<lparr> headerDelay := old \<rparr>" "x' = set_creq mem l x1" "e' = e1" by (auto split: if_splits)
    with s d a sf False show ?thesis by (intro refused[of l sf sink pk1]) auto
  next
    case True
    from rest True obtain xb where x3: "b" "e' = e1"
        "answer_request V clk True direct d sink pk1 src xb = Inr (pkt', x')"
      and acc: "(if express then Inr x1
              else rbind (account_request V (\<not> express \<and> cacheResponding pk)
                     ((needsResponse (cmd pk) \<and> \<not> cacheResponding pk) \<and> \<not> direct) sink pk1 src x1) (\<lambda>x2.
                   rbind (succeededTiming fin l1) (\<lambda>l2. Inr (set_creq mem l2 x2)))) = Inr xb"
      by auto
    from acc have "accounted V express direct sink mem pk pk1 src x1 xb"
      unfolding accounted_def by (cases express) auto
    with s x3 a sf True show ?thesis by (intro accepted[of sink direct pk1 sf xb]) auto
  qed
qed

lemma serve_requestE:
  assumes "serve_request V peers clk express mem l1 pkt src x e = Inr (b, pkt', x', e')"
  obtains (not_ready) pkt1 l where "\<not> b" "x' = set_creq mem l x" "pkt' = pkt1" "e' = e"
      "calcPacketTiming clk (cwidth x) ((cfrontendLatency x + cforwardLatency x) * clockPeriod clk) pkt = Inr pkt1"
      "isClean (cmd pkt)" "failedTiming (nat src) (clockEdge clk 1) l1 = Inr l"
      "v_snoops V pkt1" "peer_tryTiming peers mem pkt1 e = Inr False"
  | (ready) pkt1 sc pk x2 e2 fin where
      "calcPacketTiming clk (cwidth x) ((cfrontendLatency x + cforwardLatency x) * clockPeriod clk) pkt = Inr pkt1"
      "sc = (\<not> bypassCaches x \<and> cmd pkt1 \<noteq> WriteClean)"
      "(if v_snoops V pkt1 \<and> sc then snoop_request peers clk pkt1 src x e else Inr (pkt1, x, e)) = Inr (pk, x2, e2)"
      "forward_request V peers clk express (isDestination x pkt1) sc fin
         (headerDelay pkt) mem l1 pk src x2 e2 = Inr (b, pkt', x', e')"
proof -
  obtain pkt1 where c: "calcPacketTiming clk (cwidth x)
      ((cfrontendLatency x + cforwardLatency x) * clockPeriod clk) pkt = Inr pkt1"
    using assms unfolding serve_request_def by auto
  define sc where "sc = (\<not> bypassCaches x \<and> cmd pkt1 \<noteq> WriteClean)"
  define fin where "fin = clockEdge clk (cheaderLatency x) + ucast (payloadDelay pkt1)"
  obtain rdy where
    "(if (v_snoops V pkt1 \<and> sc) \<and> isClean (cmd pkt1) \<and> \<not> isDestination x pkt1
      then peer_tryTiming peers mem pkt1 e else Inr True) = Inr rdy" and
    rest: "(if \<not> rdy then
        rbind (failedTiming (nat src) (clockEdge clk 1) l1) (\<lambda>l2.
          Inr (False, pkt1, set_creq mem l2 x, e))
      else
        rbind (if v_snoops V pkt1 \<and> sc then snoop_request peers clk pkt1 src x e else Inr (pkt1, x, e)) (\<lambda>(pkt2, x2, e2).
          forward_request V peers clk express (isDestination x pkt1) sc fin
            (headerDelay pkt) mem l1 pkt2 src x2 e2)) = Inr (b, pkt', x', e')"
    using assms unfolding serve_request_def c sc_def[symmetric] fin_def[symmetric] Let_def rbind.simps rbind_assert
    by (cases "v_snoops V pkt1 \<and> sc \<longrightarrow> snoopDelay pkt1 = 0") auto
  show ?thesis
  proof (cases rdy)
    case False
    with \<open>(if _ then _ else _) = Inr rdy\<close> have "isClean (cmd pkt)" "v_snoops V pkt1"
        "peer_tryTiming peers mem pkt1 e = Inr False"
      using calcPacketTiming_frame[OF c] by (auto split: if_splits)
    with rest False c show ?thesis by (auto intro: not_ready)
  next
    case True
    with rest obtain pk x2 e2 where
      "(if v_snoops V pkt1 \<and> sc then snoop_request peers clk pkt1 src x e else Inr (pkt1, x, e)) = Inr (pk, x2, e2)"
      "forward_request V peers clk express (isDestination x pkt1) sc fin
         (headerDelay pkt) mem l1 pk src x2 e2 = Inr (b, pkt', x', e')" by auto
    with c sc_def show ?thesis by (intro ready[of pkt1 sc pk x2 e2 fin]) auto
  qed
qed

lemma arbitrate_request:
  assumes "xbar_recvTimingReq V peers clk pkt0 src x e = r" "r = Inr (b, pkt', x', e')"
  obtains mem pkt x1 l free l1 where "0 \<le> src" "nat src < length (ccpuSidePorts x)"
    "isExpressSnoop pkt0 = cacheResponding pkt0" "v_findPort V pkt0 x = Inr (mem, pkt, x1)"
    "(if isExpressSnoop pkt0 then Inr (True, l) else tryTiming (nat src) l) = Inr (free, l1)"
    "l = creqLayers x1 ! nat mem" "nat mem < length (creqLayers x1)"
    "(if \<not> free then Inr (False, pkt, set_creq mem l1 x1, e)
      else serve_request V peers clk (isExpressSnoop pkt0) mem l1 pkt src x1 e) = r"
proof -
  obtain mem pkt x1 where f: "0 \<le> src" "nat src < length (ccpuSidePorts x)"
    "isExpressSnoop pkt0 = cacheResponding pkt0" "v_findPort V pkt0 x = Inr (mem, pkt, x1)"
    and rest: "rbind (at_port (creqLayers x1) mem) (\<lambda>l.
      rbind (if isExpressSnoop pkt0 then Inr (True, l) else tryTiming (nat src) l) (\<lambda>(free, l1).
        if \<not> free then Inr (False, pkt, set_creq mem l1 x1, e)
        else serve_request V peers clk (isExpressSnoop pkt0) mem l1 pkt src x1 e)) = r"
    using assms unfolding xbar_recvTimingReq_def Let_def
    by (cases "v_findPort V pkt0 x"; cases "isExpressSnoop pkt0 = cacheResponding pkt0") (auto simp del: rbind_Inr_iff simp: rbind_Inr_iff[of "at_port (ccpuSidePorts x) src"])
  obtain free l1 where "nat mem < length (creqLayers x1)"
    "(if isExpressSnoop pkt0 then Inr (True, creqLayers x1 ! nat mem) else tryTiming (nat src) (creqLayers x1 ! nat mem))
       = Inr (free, l1)"
    "(if \<not> free then Inr (False, pkt, set_creq mem l1 x1, e)
      else serve_request V peers clk (isExpressSnoop pkt0) mem l1 pkt src x1 e) = r"
    using rest assms(2) by (auto simp del: if_split_asm)
  with f that show ?thesis by blast
qed

context xbar_frame
begin

text \<open>The outcomes of a request: it is refused, and only layers, filter and port map change; or it
  is accepted.\<close>

lemma recvTimingReqE:
  assumes "xbar_recvTimingReq V peers clk pkt0 src x e = Inr (b, pkt', x', e')" "polite_snoopers peers"
  obtains (refused) bb ls sf g where "\<not> b" "length ls = length (creqLayers x)"
      "core x' = (core x)\<lparr> cbase := bb, creqLayers := ls, snoopFilter := sf, gh_snooped := g \<rparr>"
  | (accepted) bb sf g and xs :: "'z CoherentXBar_scheme" and xa xb pk pk1 sink direct mem es d where "b"
      "core xa = (core x)\<lparr> cbase := bb, snoopFilter := sf, gh_snooped := g \<rparr>"
      "accounted V (isExpressSnoop pkt0) direct sink mem pk pk1 src xa xb"
      "answer_request V clk True direct d sink pk1 src xb = Inr (pkt', x')"
      "sinkPacket xs pk = Inr sink" "pointOfCoherency xs = pointOfCoherency x"
      "send_onwards peers d (\<not> isExpressSnoop pkt0 \<and> cacheResponding pk) sink mem pk xs es = Inr (True, direct, pk1, e')"
      "\<not> isExpressSnoop pkt0 \<Longrightarrow> cacheResponding pk \<Longrightarrow> v_snoops V pk"
      "req_ptr (req pk) = req_ptr (req pkt0)" "cmd pk = cmd pkt0" "p_id pk = p_id pkt0"
      "regular pkt0 \<Longrightarrow> regular pk" "0 \<le> src" "nat src < length (ccpuSidePorts x)"
proof -
  let ?express = "isExpressSnoop pkt0"
  obtain mem pkt x1 free l1 where src: "0 \<le> src" "nat src < length (ccpuSidePorts x)"
    and ex: "?express = cacheResponding pkt0"
    and f: "v_findPort V pkt0 x = Inr (mem, pkt, x1)"
    and rest: "(if \<not> free then Inr (False, pkt, set_creq mem l1 x1, e)
      else serve_request V peers clk ?express mem l1 pkt src x1 e) = Inr (b, pkt', x', e')"
    using arbitrate_request[OF assms(1) refl] by metis
  obtain bb where c1: "core x1 = (core x)\<lparr> cbase := bb \<rparr>" using findPort_core[OF f] by blast
  note kt = findPort_pkt[OF f] and c1d = core_eqD[OF c1]
  have ref: thesis if "\<not> b" "x' = set_creq mem l x1" for l
    using that c1 c1d
    by (intro refused[where ls = "(creqLayers x)[nat mem := l]" and bb = bb and sf = "snoopFilter x" and g = "gh_snooped x"])
      (auto simp: set_creq_def)
  show ?thesis
  proof (cases free)
    case False
    with rest ref show ?thesis by auto
  next
    case True
    with rest have "serve_request V peers clk ?express mem l1 pkt src x1 e = Inr (b, pkt', x', e')" by simp
    then show ?thesis
    proof (cases rule: serve_requestE)
      case (not_ready pkt1 l)
      with ref show ?thesis by blast
    next
      case (ready pkt1 sc pk x2 e2 fin)
      note c = ready(1) and sn = ready(3) and fw = ready(4)
      obtain sf g where x2: "x2 = x1\<lparr> snoopFilter := sf, gh_snooped := g \<rparr>" and ki: "keeps_identity pkt1 pk"
      proof (cases "v_snoops V pkt1 \<and> sc")
        case True
        with sn have "snoop_request peers clk pkt1 src x1 e = Inr (pk, x2, e2)" by simp
        from snoop_request_frame[OF this] assms(2) show ?thesis using that by metis
      next
        case False
        with sn show ?thesis using that[of "gh_snooped x1" "snoopFilter x1"] by auto
      qed
      have c2: "core x2 = (core x)\<lparr> cbase := bb, snoopFilter := sf, gh_snooped := g \<rparr>"
        using c1 x2 by simp
      note calc = calcPacketTiming_more[OF c] and k = keeps_but_typeD[OF conjunct1[OF kt]]
      have ids: "req_ptr (req pk) = req_ptr (req pkt0)" "cmd pk = cmd pkt0" "p_id pk = p_id pkt0"
        using ki calc(1) k by (auto simp: keeps_identity_def)
      have vs: "v_snoops V pk = v_snoops V pkt1" "regular pk = regular pkt"
        using type_only[of pk pkt1] type_only[of pk pkt] ki calc(1) by (auto simp: keeps_identity_def)
      have resp: "\<not> ?express \<Longrightarrow> cacheResponding pk \<Longrightarrow> v_snoops V pk"
        using sn ex calc(2) k(3) vs(1) by (auto simp: cacheResponding_def split: if_splits)
      from fw show ?thesis
      proof (cases rule: forward_requestE)
        case (refused l sf' pk1 sink)
        then show ?thesis using c2 core_eqD(3)[OF c2]
          by (intro that(1)[where ls = "(creqLayers x)[nat mem := l]" and bb = bb and sf = sf' and g = g]) (auto simp: set_creq_def)
      next
        case (accepted sink direct pk1 sf' xb)
        show ?thesis
          by (rule that(2)[where xa = "x2\<lparr> snoopFilter := sf' \<rparr>" and bb = bb and sf = sf' and g = g and xs = x2
                and xb = xb and pk = pk and es = e2 and d = "isDestination x1 pkt1"])
            (use accepted ids vs kt resp src c2 core_eqD(12)[OF c2] in auto)
      qed
    qed
  qed
qed

end

end
