(* ===== verification/CoherentXBarInv.thy ===== *)
theory CoherentXBarInv
  imports CoherentXBarProps
begin

text \<open>
  Well-formed states of the coherent crossbars. The tables have no duplicate keys and name
  existing ports only; every request whose answer is owed by a cache or deferred by the
  crossbar has a route to an existing CPU-side port; and no request is both. Every operation
  keeps a state well formed, so every reachable state is.
\<close>

section \<open>Well-formed states\<close>

definition routed_up :: "'z CoherentXBar_scheme \<Rightarrow> nat \<Rightarrow> bool" where
  "routed_up x r \<longleftrightarrow> (\<exists>p. route_of x r = Some p \<and> 0 \<le> p \<and> nat p < length (crespLayers x))"

definition cmo_of :: "'z CoherentXBar_scheme \<Rightarrow> nat \<Rightarrow> Packet option option" where
  "cmo_of x i = map_of (outstandingCMO x) i"

text \<open>The requests of the clean operations whose answer is deferred.\<close>

definition deferred_cmos :: "'z CoherentXBar_scheme \<Rightarrow> nat set" where
  "deferred_cmos x = {req_ptr (req pkt) | i pkt. cmo_of x i = Some (Some pkt)}"

lemma deferredI: "cmo_of x i = Some (Some pkt) \<Longrightarrow> req_ptr (req pkt) \<in> deferred_cmos x"
  by (auto simp: deferred_cmos_def)

lemma deferredE:
  assumes "r \<in> deferred_cmos x"
  obtains i pkt where "cmo_of x i = Some (Some pkt)" "r = req_ptr (req pkt)"
  using assms by (auto simp: deferred_cmos_def)

definition ports_wf :: "'z CoherentXBar_scheme \<Rightarrow> bool" where
  "ports_wf x \<longleftrightarrow> length (ccpuSidePorts x) = length (crespLayers x) \<and>
     (\<forall>i < length (ccpuSidePorts x). cp_id (ccpuSidePorts x ! i) = int i) \<and>
     length (snoopLayers x) = length (creqLayers x) \<and> set (snoopPorts x) \<subseteq> set (ccpuSidePorts x)"

definition tables_wf :: "'z CoherentXBar_scheme \<Rightarrow> bool" where
  "tables_wf x \<longleftrightarrow> distinct (map fst (crouteTo x)) \<and>
     (\<forall>r p. route_of x r = Some p \<longrightarrow> 0 \<le> p \<and> (nat p < length (crespLayers x) \<or> nat p < length (creqLayers x))) \<and>
     distinct (outstandingSnoop x) \<and> length (outstandingSnoop x) \<le> maxOutstandingSnoopCheck x \<and>
     (\<forall>r \<in> set (outstandingSnoop x). routed_up x r) \<and>
     distinct (map fst (outstandingCMO x)) \<and> (\<forall>r \<in> deferred_cmos x. routed_up x r) \<and>
     deferred_cmos x \<inter> set (outstandingSnoop x) = {} \<and>
     (\<forall>i j p q. cmo_of x i = Some (Some p) \<longrightarrow> cmo_of x j = Some (Some q) \<longrightarrow>
        req_ptr (req p) = req_ptr (req q) \<longrightarrow> i = j)"

definition xbar_wf :: "'z CoherentXBar_scheme \<Rightarrow> bool" where
  "xbar_wf x \<longleftrightarrow> ports_wf x \<and> tables_wf x"

text \<open>Two states with the same tables and ports.\<close>

definition same_tables :: "'z CoherentXBar_scheme \<Rightarrow> 'y CoherentXBar_scheme \<Rightarrow> bool" where
  "same_tables x x' \<longleftrightarrow> crouteTo x' = crouteTo x \<and> outstandingSnoop x' = outstandingSnoop x \<and>
     outstandingCMO x' = outstandingCMO x \<and> ccpuSidePorts x' = ccpuSidePorts x \<and>
     snoopPorts x' = snoopPorts x \<and> maxOutstandingSnoopCheck x' = maxOutstandingSnoopCheck x \<and>
     length (creqLayers x') = length (creqLayers x) \<and> length (crespLayers x') = length (crespLayers x) \<and>
     length (snoopLayers x') = length (snoopLayers x)"

lemma same_tables_route:
  assumes "same_tables x x'"
  shows "route_of x' = route_of x" "routed_up x' = routed_up x" "deferred_cmos x' = deferred_cmos x"
  using assms by (auto simp: same_tables_def route_of_def routed_up_def deferred_cmos_def cmo_of_def fun_eq_iff)

lemma same_tables_wf:
  assumes "same_tables x x'"
  shows "xbar_wf x' = xbar_wf x"
proof -
  have "cmo_of x' = cmo_of x" using assms by (simp add: same_tables_def cmo_of_def fun_eq_iff)
  note e = this same_tables_route[OF assms] assms[unfolded same_tables_def]
  show ?thesis unfolding xbar_wf_def ports_wf_def tables_wf_def by (simp only: e)
qed

lemma same_tables_refl [simp]: "same_tables x x"
  by (simp add: same_tables_def)

lemma same_tables_trans: "same_tables x y \<Longrightarrow> same_tables y z \<Longrightarrow> same_tables x z"
  by (simp only: same_tables_def)

lemma same_tables_core:
  assumes "core x' = c" "same_tables x c"
  shows "same_tables x x'"
  using assms(2) by (simp only: same_tables_def core_eqD[OF assms(1)])

lemma same_tables_upds [simp]:
  "same_tables x (y\<lparr> cbase := b \<rparr>) = same_tables x y"
  "same_tables x (y\<lparr> snoopFilter := sf \<rparr>) = same_tables x y"
  "same_tables x (y\<lparr> gh_snooped := g \<rparr>) = same_tables x y"
  "same_tables x (y\<lparr> csched_resps := s \<rparr>) = same_tables x y"
  "same_tables x (core y) = same_tables x y"
  "same_tables x (set_creq p l y) = same_tables x y" "same_tables x (set_cresp p l y) = same_tables x y"
  "same_tables x (set_csnoop p l y) = same_tables x y"
  by (simp_all add: same_tables_def set_creq_def set_cresp_def set_csnoop_def)

lemma same_tables_layers:
  "length rq = length (creqLayers x) \<Longrightarrow> length rs = length (crespLayers x) \<Longrightarrow> length sn = length (snoopLayers x)
    \<Longrightarrow> same_tables x (x\<lparr> creqLayers := rq, crespLayers := rs, snoopLayers := sn \<rparr>)"
  by (simp add: same_tables_def)

lemma same_tables_creqLayers:
  "length ls = length (creqLayers y) \<Longrightarrow> same_tables x (y\<lparr> creqLayers := ls \<rparr>) = same_tables x y"
  by (auto simp: same_tables_def)

section \<open>Changes of the tables\<close>

lemma route_fields [simp]:
  "outstandingSnoop (set_route r p x) = outstandingSnoop x" "outstandingSnoop (del_route r x) = outstandingSnoop x"
  "outstandingCMO (set_route r p x) = outstandingCMO x" "outstandingCMO (del_route r x) = outstandingCMO x"
  "ccpuSidePorts (set_route r p x) = ccpuSidePorts x" "ccpuSidePorts (del_route r x) = ccpuSidePorts x"
  "creqLayers (set_route r p x) = creqLayers x" "creqLayers (del_route r x) = creqLayers x"
  "crespLayers (set_route r p x) = crespLayers x" "crespLayers (del_route r x) = crespLayers x"
  "snoopLayers (set_route r p x) = snoopLayers x" "snoopLayers (del_route r x) = snoopLayers x"
  "snoopPorts (set_route r p x) = snoopPorts x" "snoopPorts (del_route r x) = snoopPorts x"
  "maxOutstandingSnoopCheck (set_route r p x) = maxOutstandingSnoopCheck x"
  "maxOutstandingSnoopCheck (del_route r x) = maxOutstandingSnoopCheck x"
  "snoopFilter (set_route r p x) = snoopFilter x" "snoopFilter (del_route r x) = snoopFilter x"
  "csched_resps (set_route r p x) = csched_resps x" "csched_resps (del_route r x) = csched_resps x"
  by (simp_all add: set_route_def del_route_def)

lemma deferred_route [simp]:
  "cmo_of (set_route r p x) i = cmo_of x i" "cmo_of (del_route r x) i = cmo_of x i"
  "deferred_cmos (set_route r p x) = deferred_cmos x" "deferred_cmos (del_route r x) = deferred_cmos x"
  by (simp_all add: deferred_cmos_def cmo_of_def)

lemma routed_up_upds:
  "routed_up (set_route r p x) r' \<longleftrightarrow> (if r' = r then 0 \<le> p \<and> nat p < length (crespLayers x) else routed_up x r')"
  "routed_up (del_route r x) r' \<longleftrightarrow> r' \<noteq> r \<and> routed_up x r'"
  by (auto simp: routed_up_def)

text \<open>A route is added for a request that has none, and removed for one that nobody waits for.\<close>

lemma set_route_wf:
  assumes "xbar_wf x" "route_of x r = None" "0 \<le> p" "nat p < length (crespLayers x) \<or> nat p < length (creqLayers x)"
  shows "xbar_wf (set_route r p x)"
proof -
  have n: "r \<notin> set (outstandingSnoop x)" "r \<notin> deferred_cmos x"
    using assms(1,2) by (auto simp: xbar_wf_def tables_wf_def routed_up_def)
  have d: "distinct (map fst (crouteTo (set_route r p x)))"
    using assms(1) by (simp add: set_route_def xbar_wf_def tables_wf_def AList.distinct_update)
  have "tables_wf (set_route r p x)"
    unfolding tables_wf_def
    using assms n d by (auto simp: xbar_wf_def tables_wf_def routed_up_upds split: if_splits)
  with assms(1) show ?thesis by (simp add: xbar_wf_def ports_wf_def)
qed

lemma del_route_wf:
  assumes "xbar_wf x" "r \<notin> set (outstandingSnoop x)" "r \<notin> deferred_cmos x"
  shows "xbar_wf (del_route r x)"
proof -
  have d: "distinct (map fst (crouteTo (del_route r x)))"
    using assms(1) by (simp add: del_route_def xbar_wf_def tables_wf_def AList.distinct_delete)
  have "tables_wf (del_route r x)"
    unfolding tables_wf_def
    using assms d by (auto simp: xbar_wf_def tables_wf_def routed_up_upds split: if_splits)
  with assms(1) show ?thesis by (simp add: xbar_wf_def ports_wf_def)
qed

text \<open>A request with a route to a CPU-side port starts and stops waiting for a snoop response.\<close>

lemma routed_up_outstanding [simp]:
  "routed_up (x\<lparr> outstandingSnoop := rs \<rparr>) r = routed_up x r" "deferred_cmos (x\<lparr> outstandingSnoop := rs \<rparr>) = deferred_cmos x"
  "route_of (x\<lparr> outstandingSnoop := rs \<rparr>) r = route_of x r" "cmo_of (x\<lparr> outstandingSnoop := rs \<rparr>) i = cmo_of x i"
  by (simp_all add: routed_up_def deferred_cmos_def route_of_def cmo_of_def)

lemma add_outstanding_wf:
  assumes "xbar_wf x" "routed_up x r" "r \<notin> set (outstandingSnoop x)" "r \<notin> deferred_cmos x"
    "Suc (length (outstandingSnoop x)) \<le> maxOutstandingSnoopCheck x"
  shows "xbar_wf (x\<lparr> outstandingSnoop := r # outstandingSnoop x \<rparr>)"
proof -
  have "tables_wf (x\<lparr> outstandingSnoop := r # outstandingSnoop x \<rparr>)"
    unfolding tables_wf_def using assms by (simp add: xbar_wf_def tables_wf_def) 
  with assms(1) show ?thesis by (simp add: xbar_wf_def ports_wf_def)
qed

lemma remove_outstanding_wf:
  assumes "xbar_wf x"
  shows "xbar_wf (x\<lparr> outstandingSnoop := removeAll r (outstandingSnoop x) \<rparr>)"
proof -
  have "length (removeAll r (outstandingSnoop x)) \<le> length (outstandingSnoop x)"
    by (simp add: removeAll_filter_not_eq)
  also have "\<dots> \<le> maxOutstandingSnoopCheck x"
    using assms by (simp add: xbar_wf_def tables_wf_def)
  finally have l: "length (removeAll r (outstandingSnoop x)) \<le> maxOutstandingSnoopCheck x" .
  have "tables_wf (x\<lparr> outstandingSnoop := removeAll r (outstandingSnoop x) \<rparr>)"
    unfolding tables_wf_def using assms l
    by (auto simp: xbar_wf_def tables_wf_def distinct_removeAll)
  with assms show ?thesis by (simp add: xbar_wf_def ports_wf_def)
qed

text \<open>Entries for cache maintenance come and go.\<close>

lemma routed_up_CMO [simp]:
  "routed_up (x\<lparr> outstandingCMO := cs \<rparr>) r = routed_up x r"
  "route_of (x\<lparr> outstandingCMO := cs \<rparr>) r = route_of x r"
  by (simp_all add: routed_up_def route_of_def)

lemma delete_CMO_wf:
  assumes "xbar_wf x"
  shows "xbar_wf (x\<lparr> outstandingCMO := AList.delete i (outstandingCMO x) \<rparr>)"
    and "cmo_of x i = Some (Some pkt) \<Longrightarrow>
      req_ptr (req pkt) \<notin> deferred_cmos (x\<lparr> outstandingCMO := AList.delete i (outstandingCMO x) \<rparr>)"
proof -
  let ?x = "x\<lparr> outstandingCMO := AList.delete i (outstandingCMO x) \<rparr>"
  have m: "cmo_of ?x j = (if j = i then None else cmo_of x j)" for j
    by (simp add: cmo_of_def AList.delete_conv')
  have d: "deferred_cmos ?x \<subseteq> deferred_cmos x" by (auto simp: deferred_cmos_def m)
  have "distinct (map fst (outstandingCMO ?x))"
    using assms by (simp add: xbar_wf_def tables_wf_def AList.distinct_delete)
  then have "tables_wf ?x"
    unfolding tables_wf_def m using assms d by (auto simp: xbar_wf_def tables_wf_def)
  with assms show "xbar_wf ?x" by (simp add: xbar_wf_def ports_wf_def)
  assume p: "cmo_of x i = Some (Some pkt)"
  show "req_ptr (req pkt) \<notin> deferred_cmos ?x"
  proof
    assume "req_ptr (req pkt) \<in> deferred_cmos ?x"
    then obtain j q where "cmo_of x j = Some (Some q)" "j \<noteq> i" "req_ptr (req pkt) = req_ptr (req q)"
      by (auto simp: deferred_cmos_def m split: if_splits)
    with assms p show False unfolding xbar_wf_def tables_wf_def by blast
  qed
qed

lemma insert_CMO_wf:
  assumes "xbar_wf x" "cmo_of x i = None"
    "\<And>pkt. d = Some pkt \<Longrightarrow> routed_up x (req_ptr (req pkt)) \<and> req_ptr (req pkt) \<notin> deferred_cmos x
       \<and> req_ptr (req pkt) \<notin> set (outstandingSnoop x)"
  shows "xbar_wf (x\<lparr> outstandingCMO := AList.update i d (outstandingCMO x) \<rparr>)"
proof -
  let ?x = "x\<lparr> outstandingCMO := AList.update i d (outstandingCMO x) \<rparr>"
  have m: "cmo_of ?x j = (if j = i then Some d else cmo_of x j)" for j
    by (simp add: cmo_of_def AList.update_conv')
  have df: "deferred_cmos ?x = deferred_cmos x \<union> (case d of None \<Rightarrow> {} | Some pkt \<Rightarrow> {req_ptr (req pkt)})"
  proof (intro set_eqI iffI)
    fix r assume "r \<in> deferred_cmos ?x"
    then obtain j q where "cmo_of ?x j = Some (Some q)" "r = req_ptr (req q)" by (rule deferredE)
    then show "r \<in> deferred_cmos x \<union> (case d of None \<Rightarrow> {} | Some pkt \<Rightarrow> {req_ptr (req pkt)})"
      by (cases "j = i") (auto simp: m intro: deferredI)
  next
    fix r assume "r \<in> deferred_cmos x \<union> (case d of None \<Rightarrow> {} | Some pkt \<Rightarrow> {req_ptr (req pkt)})"
    then show "r \<in> deferred_cmos ?x"
    proof
      assume "r \<in> deferred_cmos x"
      then obtain j q where "cmo_of x j = Some (Some q)" "r = req_ptr (req q)" by (rule deferredE)
      with assms(2) have "cmo_of ?x j = Some (Some q)" by (auto simp: m)
      with \<open>r = _\<close> show ?thesis by (auto intro: deferredI)
    next
      assume "r \<in> (case d of None \<Rightarrow> {} | Some pkt \<Rightarrow> {req_ptr (req pkt)})"
      then show ?thesis using m[of i] by (auto intro: deferredI split: option.splits)
    qed
  qed
  have dist: "distinct (map fst (outstandingCMO ?x))"
    using assms by (simp add: xbar_wf_def tables_wf_def AList.distinct_update)
  have inj: "\<forall>a b p q. cmo_of ?x a = Some (Some p) \<longrightarrow> cmo_of ?x b = Some (Some q) \<longrightarrow>
        req_ptr (req p) = req_ptr (req q) \<longrightarrow> a = b"
  proof (intro allI impI)
    fix a b p q
    assume h: "cmo_of ?x a = Some (Some p)" "cmo_of ?x b = Some (Some q)"
      "req_ptr (req p) = req_ptr (req q)"
    have new: "c \<noteq> i \<Longrightarrow> cmo_of x c = Some (Some u) \<Longrightarrow> d = Some v \<Longrightarrow>
        req_ptr (req u) \<noteq> req_ptr (req v)" for c u v
      using assms(3)[of v] by (auto simp: deferred_cmos_def)
    note h' = h(1)[unfolded m] h(2)[unfolded m] h(3)
    show "a = b"
    proof (cases "a = i"; cases "b = i")
      assume "a \<noteq> i" "b \<noteq> i"
      with h' assms(1) show ?thesis unfolding xbar_wf_def tables_wf_def by auto
    next
      assume "a = i" "b \<noteq> i"
      with h' new[of b q p] show ?thesis by simp
    next
      assume "a \<noteq> i" "b = i"
      with h' new[of a p q] show ?thesis by simp
    qed simp
  qed
  have "tables_wf ?x"
    unfolding tables_wf_def using assms(1,3) inj dist
    by (auto simp: xbar_wf_def tables_wf_def df split: option.splits)
  with assms(1) show ?thesis by (simp add: xbar_wf_def ports_wf_def)
qed

section \<open>Requests keep the state well formed\<close>

text \<open>The requests a crossbar may be given: all regular ones, and at the point of coherency also the
  others unless they are cache maintenance.\<close>

definition admissible :: "(Packet \<Rightarrow> bool) \<Rightarrow> 'z CoherentXBar_scheme \<Rightarrow> Packet \<Rightarrow> bool" where
  "admissible regular x pkt \<longleftrightarrow> regular pkt \<or> (pointOfCoherency x \<and> \<not> maintenance (cmd pkt))"

lemma sink_at_poc: "sinkPacket x pkt = Inr s \<Longrightarrow> pointOfCoherency x \<Longrightarrow> cacheResponding pkt \<Longrightarrow> s"
  by (simp add: sinkPacket_def)

lemma route_update_commute:
  "set_route r p (x\<lparr> outstandingSnoop := rs \<rparr>) = (set_route r p x)\<lparr> outstandingSnoop := rs \<rparr>"
  "set_route r p (x\<lparr> outstandingCMO := cs \<rparr>) = (set_route r p x)\<lparr> outstandingCMO := cs \<rparr>"
  by (simp_all add: set_route_def)

text \<open>The end of the handler changes the tables only for deferred answers.\<close>

lemma answer_requestE:
  assumes "answer_request V clk True direct d sink pkt src x = Inr (pkt', x')"
  obtains dir df port x1 where
    "(if ((isClean (cmd pkt) \<and> satisfied pkt) \<or> cmd pkt = WriteClean) \<and> d
      then deferred_clean V sink pkt src x else Inr (direct, None, src, x)) = Inr (dir, df, port, x1)"
    "same_tables x1 x'"
    "if dir then \<exists>rsp. respond_directly clk (headerDelay pkt) (case df of None \<Rightarrow> pkt | Some p \<Rightarrow> p) port x1 = Inr (rsp, x')
       \<and> pkt' = (if df = None then rsp else pkt)
     else x' = x1 \<and> pkt' = pkt"
proof -
  obtain dir df port x1 where
    c: "(if ((isClean (cmd pkt) \<and> satisfied pkt) \<or> cmd pkt = WriteClean) \<and> d
         then deferred_clean V sink pkt src x else Inr (direct, None, src, x)) = Inr (dir, df, port, x1)"
    and rest: "(if dir then
        rbind (respond_directly clk (headerDelay pkt)
            (case df of None \<Rightarrow> pkt | Some d \<Rightarrow> d) port x1) (\<lambda>(rsp, x2).
          Inr (if df = None then rsp else pkt, x2))
      else Inr (pkt, x1)) = Inr (pkt', x')"
    using assms unfolding answer_request_def assert_that_True rbind.simps by (auto simp del: split_paired_Ex)
  show ?thesis
  proof (cases dir)
    case True
    with rest obtain rsp where r: "respond_directly clk (headerDelay pkt) (case df of None \<Rightarrow> pkt | Some d \<Rightarrow> d) port x1
      = Inr (rsp, x')" "pkt' = (if df = None then rsp else pkt)" by auto
    then have "same_tables x1 x'" by - (erule respond_directly_frame, simp)
    with c r True show ?thesis by (intro that[of dir df port x1]) auto
  next
    case False
    with c rest show ?thesis by (intro that[of dir df port x1]) auto
  qed
qed

definition cpu_port :: "'z CoherentXBar_scheme \<Rightarrow> PortID \<Rightarrow> bool" where
  "cpu_port x p \<longleftrightarrow> 0 \<le> p \<and> nat p < length (crespLayers x)"

context xbar_variant
begin

lemma route_wf:
  assumes "v_route V sink pkt src x = Inr x'" "xbar_wf x" "cpu_port x src"
  shows "xbar_wf x'"
  using route_core[OF assms(1)]
proof
  assume "core x' = core x"
  from same_tables_core[OF this, of x] assms(2) show ?thesis by (simp add: same_tables_wf)
next
  assume r: "route_of x (req_ptr (req pkt)) = None \<and> core x' = core (set_route (req_ptr (req pkt)) src x)"
  have "xbar_wf (set_route (req_ptr (req pkt)) src x)"
    using assms(2,3) r by (intro set_route_wf) (auto simp: cpu_port_def)
  moreover have "same_tables (set_route (req_ptr (req pkt)) src x) x'"
    by (rule same_tables_core[OF conjunct2[OF r]]) simp
  ultimately show ?thesis by (simp add: same_tables_wf)
qed

lemma route_resp_layers: "v_route V sink pkt src x = Inr x' \<Longrightarrow> crespLayers x' = crespLayers x"
  using route_core[of sink pkt src x x'] core_eqD(4)[of x'] by fastforce

lemma account_request_ports:
  "account_request V es er sink pkt src x = Inr x' \<Longrightarrow> crespLayers x' = crespLayers x"
  by (auto simp: account_request_def dest!: route_resp_layers split: if_splits)

lemma account_wf:
  assumes a: "account_request V es er sink pkt src x = Inr x'" and wf: "xbar_wf x" and src: "cpu_port x src"
    and reg: "es \<Longrightarrow> regular pkt \<or> sink \<and> v_snoops V pkt"
  shows "xbar_wf x'" and "es \<Longrightarrow> req_ptr (req pkt) \<in> set (outstandingSnoop x') \<and>
    route_of x (req_ptr (req pkt)) = None \<and> route_of x' (req_ptr (req pkt)) = Some src"
proof -
  let ?r = "req_ptr (req pkt)"
  have "xbar_wf x' \<and> (es \<longrightarrow> ?r \<in> set (outstandingSnoop x') \<and> route_of x ?r = None \<and> route_of x' ?r = Some src)"
  proof (cases es)
    case True
    let ?x1 = "x\<lparr> outstandingSnoop := ?r # outstandingSnoop x \<rparr>"
    from a True have o: "?r \<notin> set (outstandingSnoop x)" "Suc (length (outstandingSnoop x)) \<le> maxOutstandingSnoopCheck x"
      and v: "v_route V sink pkt src ?x1 = Inr x'" by (auto simp: account_request_def)
    from route_regular[OF v] reg True have r: "route_of x ?r = None" "core x' = core (set_route ?r src ?x1)"
      by auto
    let ?y = "set_route ?r src x"
    have y: "xbar_wf ?y" using wf r(1) src by (intro set_route_wf) (auto simp: cpu_port_def)
    have "?r \<notin> deferred_cmos x" using wf r(1) by (auto simp: xbar_wf_def tables_wf_def routed_up_def)
    then have "xbar_wf (?y\<lparr> outstandingSnoop := ?r # outstandingSnoop ?y \<rparr>)"
      using y o src by (intro add_outstanding_wf) (auto simp: routed_up_upds cpu_port_def)
    then have "xbar_wf (set_route ?r src ?x1)" by (simp add: route_update_commute)
    moreover have s: "same_tables (set_route ?r src ?x1) x'" by (rule same_tables_core[OF r(2)]) simp
    ultimately show ?thesis using same_tables_route(1)[OF s] r(1) s
      by (simp add: same_tables_wf) (simp add: same_tables_def)
  next
    case False
    then show ?thesis using a route_wf[OF _ wf src, of sink pkt x'] wf by (auto simp: account_request_def split: if_splits)
  qed
  then show "xbar_wf x'" "es \<Longrightarrow> ?r \<in> set (outstandingSnoop x') \<and> route_of x ?r = None \<and> route_of x' ?r = Some src"
    by blast+
qed

lemma deferred_clean_wf:
  assumes a: "deferred_clean V sink pkt src x = Inr (dir, d, port, x')" and wf: "xbar_wf x"
    and src: "cpu_port x src" and reg: "regular pkt"
  shows "xbar_wf x'"
proof (cases "cmo_of x (p_id pkt)")
  case (Some df)
  let ?x1 = "x\<lparr> outstandingCMO := AList.delete (p_id pkt) (outstandingCMO x) \<rparr>"
  note w1 = delete_CMO_wf[OF wf, of "p_id pkt"]
  show ?thesis
  proof (cases "isWrite (cmd pkt)")
    case True
    from a Some True obtain rsp where rsp: "df = Some rsp" "x' = del_route (req_ptr (req rsp)) ?x1"
      by (auto simp: deferred_clean_def cmo_of_def Let_def split: option.splits if_splits)
    have "req_ptr (req rsp) \<in> deferred_cmos x" using Some rsp(1) by (auto intro: deferredI)
    then have "req_ptr (req rsp) \<notin> set (outstandingSnoop ?x1)"
      using wf by (auto simp: xbar_wf_def tables_wf_def)
    with rsp w1 Some show ?thesis by (auto intro: del_route_wf)
  next
    case False
    with a Some w1 show ?thesis by (auto simp: deferred_clean_def cmo_of_def)
  qed
next
  case None
  let ?d = "if isWrite (cmd pkt) then None else Some pkt"
  let ?x1 = "x\<lparr> outstandingCMO := AList.update (p_id pkt) ?d (outstandingCMO x) \<rparr>"
  let ?r = "req_ptr (req pkt)"
  show ?thesis
  proof (cases "isWrite (cmd pkt)")
    case True
    with a None have "x' = ?x1" by (auto simp: deferred_clean_def cmo_of_def)
    with insert_CMO_wf[OF wf None, of None] True show ?thesis by simp
  next
    case False
    with a None have v: "v_route V sink pkt src ?x1 = Inr x'"
      by (auto simp: deferred_clean_def cmo_of_def split: if_splits)
    from route_regular[OF v] reg have r: "route_of x ?r = None" "core x' = core (set_route ?r src ?x1)" by auto
    let ?y = "set_route ?r src x"
    have y: "xbar_wf ?y" using wf r(1) src by (intro set_route_wf) (auto simp: cpu_port_def)
    have "?r \<notin> deferred_cmos x" "?r \<notin> set (outstandingSnoop x)"
      using wf r(1) by (auto simp: xbar_wf_def tables_wf_def routed_up_def)
    then have "xbar_wf (?y\<lparr> outstandingCMO := AList.update (p_id pkt) (Some pkt) (outstandingCMO ?y) \<rparr>)"
      using y None src by (intro insert_CMO_wf) (auto simp: routed_up_upds cpu_port_def)
    then have "xbar_wf (set_route ?r src ?x1)" using False by (simp add: route_update_commute)
    moreover have "same_tables (set_route ?r src ?x1) x'" by (rule same_tables_core[OF r(2)]) simp
    ultimately show ?thesis by (simp add: same_tables_wf)
  qed
qed

lemma answer_wf:
  assumes a: "answer_request V clk True direct d sink pkt src x = Inr (pkt', x')" and wf: "xbar_wf x"
    and src: "cpu_port x src" and reg: "maintenance (cmd pkt) \<Longrightarrow> regular pkt"
  shows "xbar_wf x'"
  using a
proof (cases rule: answer_requestE)
  case (1 dir df port x1)
  have "xbar_wf x1"
  proof (cases "((isClean (cmd pkt) \<and> satisfied pkt) \<or> cmd pkt = WriteClean) \<and> d")
    case True
    then have "regular pkt" using reg by (auto simp: maintenance_def)
    with 1(1) True deferred_clean_wf[OF _ wf src] show ?thesis by simp
  qed (use 1(1) wf in auto)
  with 1(2) show ?thesis by (simp add: same_tables_wf)
qed

text \<open>A packet that was sent on is still admissible.\<close>

lemma sent_regular:
  assumes "send_onwards peers d es sink mem pk xs e = Inr (True, direct, pk1, e')" "polite_memory regular peers"
    and "regular pk \<or> \<not> maintenance (cmd pk)"
  shows "maintenance (cmd pk1) \<Longrightarrow> regular pk1" "regular pk \<Longrightarrow> regular pk1"
    "req_ptr (req pk1) = req_ptr (req pk)"
proof -
  have "(maintenance (cmd pk1) \<longrightarrow> regular pk1) \<and> (regular pk \<longrightarrow> regular pk1) \<and> req_ptr (req pk1) = req_ptr (req pk)"
  proof (cases "sink \<or> direct")
    case True
    then have "pk1 = pk" using send_onwards_cases(1,2)[OF assms(1)] by blast
    with assms(3) show ?thesis by blast
  next
    case False
    then obtain pkt2 where s: "sendTimingReq peers mem pkt2 e = Inr (True, pk1, e')" "req pkt2 = req pk" "cmd pkt2 = cmd pk"
      using send_onwards_cases(3)[OF assms(1)] by blast
    have r: "regular pkt2 = regular pk" using type_only[of pkt2 pk] s(2) by simp
    have "req_ptr (req pk1) = req_ptr (req pkt2)" "cmd pk1 = cmd pkt2 \<or> cmd pk1 = responseCommand (cmd pkt2)"
      "regular pkt2 \<longrightarrow> regular pk1"
      using assms(2) s(1) unfolding polite_memory_def by blast+
    with r s(2,3) assms(3) show ?thesis by (auto dest: maintenance_response)
  qed
  then show "maintenance (cmd pk1) \<Longrightarrow> regular pk1" "regular pk \<Longrightarrow> regular pk1"
    "req_ptr (req pk1) = req_ptr (req pk)" by blast+
qed

text \<open>The effect of a request on the tables.\<close>

lemma request_effect:
  assumes r: "xbar_recvTimingReq V peers clk pkt src x e = Inr (b, pkt', x', e')" and wf: "xbar_wf x"
    and polite: "polite_snoopers peers" "polite_memory regular peers" and adm: "admissible regular x pkt"
  obtains (refused) "\<not> b" "same_tables x x'"
  | (accepted) xa xb pk pk1 sink direct mem d where "b" "same_tables x xa"
      "accounted V (isExpressSnoop pkt) direct sink mem pk pk1 src xa xb"
      "answer_request V clk True direct d sink pk1 src xb = Inr (pkt', x')"
      "req_ptr (req pk1) = req_ptr (req pkt)" "xbar_wf xb" "cpu_port xb src"
      "maintenance (cmd pk1) \<Longrightarrow> regular pk1" "p_id pk = p_id pkt"
      "\<not> isExpressSnoop pkt \<Longrightarrow> cacheResponding pk \<Longrightarrow> req_ptr (req pkt) \<in> set (outstandingSnoop xb) \<and>
         route_of x (req_ptr (req pkt)) = None \<and> route_of xb (req_ptr (req pkt)) = Some src"
  using r polite(1)
proof (cases rule: recvTimingReqE)
  case (refused bb ls sf g)
  have "same_tables x x'"
    by (rule same_tables_core[OF refused(3)]) (simp add: same_tables_creqLayers refused(2))
  with refused(1) show ?thesis by (rule that(1))
next
  case (accepted bb sf g xs xa xb pk pk1 sink direct mem es d)
  have sa: "same_tables x xa" by (rule same_tables_core[OF accepted(2)]) simp
  then have wa: "xbar_wf xa" using wf by (simp add: same_tables_wf)
  have src: "cpu_port xa src"
    using sa wf accepted(13,14) by (simp add: cpu_port_def same_tables_def xbar_wf_def ports_wf_def)
  have reg: "regular pk \<or> \<not> maintenance (cmd pk)"
    using adm accepted(10,12) by (auto simp: admissible_def)
  note sent = sent_regular[OF accepted(7) polite(2) reg]
  have es: "regular pk1 \<or> sink \<and> v_snoops V pk1" if "\<not> isExpressSnoop pkt" "cacheResponding pk"
  proof (cases "regular pkt")
    case True
    then show ?thesis using accepted(12) sent(2) by blast
  next
    case False
    with adm have "pointOfCoherency xs" using accepted(6) by (simp add: admissible_def)
    with sink_at_poc[OF accepted(5) this that(2)] send_onwards_cases(1)[OF accepted(7)] accepted(8) that
    show ?thesis by auto
  qed
  let ?r = "req_ptr (req pkt)"
  have wb: "xbar_wf xb \<and> cpu_port xb src \<and> (\<not> isExpressSnoop pkt \<longrightarrow> cacheResponding pk \<longrightarrow>
      ?r \<in> set (outstandingSnoop xb) \<and> route_of x ?r = None \<and> route_of xb ?r = Some src)"
  proof (cases "isExpressSnoop pkt")
    case True
    then show ?thesis using accepted(3) wa src by (simp add: accounted_def)
  next
    case False
    with accepted(3) obtain xc l where acc: "account_request V (cacheResponding pk)
        ((needsResponse (cmd pk) \<and> \<not> cacheResponding pk) \<and> \<not> direct) sink pk1 src xa = Inr xc"
      "xb = set_creq mem l xc" by (auto simp: accounted_def)
    note aw = account_wf[OF acc(1) wa src]
    have w: "xbar_wf xc" using aw(1) es[OF False] by blast
    have s: "same_tables xc xb" using acc(2) by simp
    have p: "cpu_port xb src" using account_request_ports[OF acc(1)] acc(2) src by (simp add: cpu_port_def)
    have q: "cacheResponding pk \<longrightarrow> ?r \<in> set (outstandingSnoop xc) \<and> route_of xa ?r = None \<and> route_of xc ?r = Some src"
      using aw(2) es[OF False] sent(3) accepted(9) by metis
    have "outstandingSnoop xb = outstandingSnoop xc" using acc(2) by simp
    with w s p q show ?thesis
      by (simp add: same_tables_wf same_tables_route(1)[OF s] same_tables_route(1)[OF sa])
  qed
  show ?thesis
    by (rule that(2)[OF accepted(1) sa accepted(3,4)]) (use sent accepted(9,11) wb in auto)
qed

lemma request_wf:
  assumes "xbar_recvTimingReq V peers clk pkt src x e = Inr (b, pkt', x', e')" "xbar_wf x"
    and "polite_snoopers peers" "polite_memory regular peers" "admissible regular x pkt"
  shows "xbar_wf x'"
  using assms
proof (cases rule: request_effect)
  case refused
  with assms(2) show ?thesis by (simp add: same_tables_wf)
next
  case (accepted xa xb pk pk1 sink direct mem d)
  from answer_wf[OF accepted(4,6,7,8)] show ?thesis .
qed

end

section \<open>Responses and snoops\<close>

lemma sched_response_same [simp]: "same_tables x (sched_response clk dest pkt y) = same_tables x y"
  by (simp add: sched_response_def)

lemma same_tables_del_route: "same_tables x y \<Longrightarrow> same_tables (del_route r x) (del_route r y)"
  by (simp add: same_tables_def del_route_def)

lemma del_route_same_wf:
  assumes "xbar_wf x" "r \<notin> set (outstandingSnoop x)" "r \<notin> deferred_cmos x" "same_tables x y"
  shows "xbar_wf (del_route r y)"
  using same_tables_wf[OF same_tables_del_route[OF assms(4), of r]] del_route_wf[OF assms(1-3)] by simp

lemma coh_recvTimingRespE:
  assumes "coh_recvTimingResp V clk pkt mem x = Inr (b, x')"
  obtains (busy) dest l where "\<not> b" "x' = set_cresp dest l x" "route_of x (req_ptr (req pkt)) = Some dest"
  | (sent) dest l pkt1 x1 x2 where "b" "route_of x (req_ptr (req pkt)) = Some dest"
      "calcPacketTiming clk (cwidth x) (cresponseLatency x * clockPeriod clk) pkt = Inr pkt1"
      "xbar_update_response pkt1 dest x = Inr x1" "v_response V pkt1 x1 = Inr x2"
      "x' = set_cresp dest l (del_route (req_ptr (req pkt)) (sched_response clk dest pkt1 x2))"
proof (cases "route_of x (req_ptr (req pkt))")
  case None
  with assms show ?thesis by (simp add: coh_recvTimingResp_def)
next
  case (Some dest)
  with assms obtain free l1 where
    rest: "(if \<not> free then Inr (False, set_cresp dest l1 x)
       else
         rbind (calcPacketTiming clk (cwidth x) (cresponseLatency x * clockPeriod clk) pkt) (\<lambda>pkt1.
         rbind (xbar_update_response pkt1 dest x) (\<lambda>x1.
         rbind (v_response V pkt1 x1) (\<lambda>x2.
         rbind (succeededTiming (clockEdge clk (cheaderLatency x) + ucast (payloadDelay pkt1)) l1) (\<lambda>l2.
           Inr (True, set_cresp dest l2 (del_route (req_ptr (req pkt))
             (sched_response clk dest pkt1 x2)))))))) = Inr (b, x')"
    unfolding coh_recvTimingResp_def by (auto simp del: split_paired_Ex rbind_assert)
  show ?thesis
  proof (cases free)
    case False
    with rest Some show ?thesis by (intro busy[of dest l1]) auto
  next
    case True
    with rest Some show ?thesis using sent by auto
  qed
qed

lemma snoop_from_below_tables:
  assumes "snoop_from_below peers clk pkt x e = Inr (pkt', x', e')" "polite_snoopers peers"
  shows "same_tables x x' \<and> keeps_identity pkt pkt'"
proof (cases "snoopFilter x")
  case None
  with assms(1) obtain pkt1 where f: "forwardTiming peers pkt InvalidPortID (snoopPorts x) x e = Inr (pkt1, x', e')"
    and "pkt' = charge_snoop_delay pkt1" by (auto simp: snoop_from_below_def)
  with forwardTiming_frame(1,3)[OF f] assms(2) show ?thesis by simp
next
  case (Some sf)
  with assms(1) obtain pkt1 dests lat sf1 where
    f: "forwardTiming peers (charge_lookup clk lat pkt) InvalidPortID dests (x\<lparr> snoopFilter := Some sf1 \<rparr>) e
      = Inr (pkt1, x', e')" and "pkt' = charge_snoop_delay pkt1" by (auto simp: snoop_from_below_def)
  with forwardTiming_frame(1,3)[OF f] assms(2) show ?thesis by simp
qed

lemma coh_recvTimingSnoopReqE:
  assumes "coh_recvTimingSnoopReq V peers clk pkt mem x e = Inr (pkt', x', e')"
  obtains pkt1 pkt2 x2 x3 p where
    "calcPacketTiming clk (cwidth x) (cforwardLatency x * clockPeriod clk) pkt = Inr pkt1"
    "snoop_from_below peers clk pkt1 x e = Inr (pkt2, x2, e')"
    "if \<not> cacheResponding pkt1 \<and> cacheResponding pkt2
      then route_of x2 (req_ptr (req pkt2)) = None \<and> x3 = set_route (req_ptr (req pkt2)) mem x2 else x3 = x2"
    "v_findPort V pkt2 x3 = Inr (p, pkt', x')"
proof -
  obtain pkt1 pkt2 x2 x3 p where
    c: "calcPacketTiming clk (cwidth x) (cforwardLatency x * clockPeriod clk) pkt = Inr pkt1"
    and s: "snoop_from_below peers clk pkt1 x e = Inr (pkt2, x2, e')"
    and r: "(if \<not> cacheResponding pkt1 \<and> cacheResponding pkt2 then
             rbind (assert_that (route_of x2 (req_ptr (req pkt2)) = None)
                 ''routeTo.find(pkt->req) == routeTo.end()'') (\<lambda>_.
               Inr (set_route (req_ptr (req pkt2)) mem x2))
           else Inr x2) = Inr x3"
    and f: "v_findPort V pkt2 x3 = Inr (p, pkt', x')"
    using assms unfolding coh_recvTimingSnoopReq_def by (auto simp del: split_paired_Ex rbind_assert)
  have "if \<not> cacheResponding pkt1 \<and> cacheResponding pkt2
      then route_of x2 (req_ptr (req pkt2)) = None \<and> x3 = set_route (req_ptr (req pkt2)) mem x2 else x3 = x2"
    using r by (cases "\<not> cacheResponding pkt1 \<and> cacheResponding pkt2") (auto split: if_splits)
  from that[OF c s this f] show ?thesis .
qed

context xbar_frame
begin

lemma response_tables:
  assumes "coh_recvTimingResp V clk pkt mem x = Inr (b, x')"
  shows "same_tables x x' \<or> (\<exists>y. same_tables x y \<and> x' = del_route (req_ptr (req pkt)) y)"
  using assms
proof (cases rule: coh_recvTimingRespE)
  case (sent dest l pkt1 x1 x2)
  obtain sf where "x1 = x\<lparr> snoopFilter := sf \<rparr>" using xbar_update_response_frame[OF sent(4)] .
  then have "same_tables x x1" by simp
  moreover have "same_tables x1 x2" by (rule same_tables_core[OF response_core[OF sent(5)]]) simp
  ultimately have "same_tables x (set_cresp dest l (sched_response clk dest pkt1 x2))"
    by (simp add: same_tables_trans[of x x1 x2])
  moreover have "x' = del_route (req_ptr (req pkt)) (set_cresp dest l (sched_response clk dest pkt1 x2))"
    using sent(6) by (simp add: set_cresp_def del_route_def)
  ultimately show ?thesis by blast
qed simp

lemma response_wf:
  assumes "coh_recvTimingResp V clk pkt mem x = Inr (b, x')" "xbar_wf x"
    and "req_ptr (req pkt) \<notin> set (outstandingSnoop x) \<union> deferred_cmos x"
  shows "xbar_wf x'"
  using response_tables[OF assms(1)] assms(2,3) del_route_same_wf[of x "req_ptr (req pkt)"]
  by (auto simp: same_tables_wf)

lemma snoop_req_tables:
  assumes "coh_recvTimingSnoopReq V peers clk pkt mem x e = Inr (pkt', x', e')" "polite_snoopers peers"
  shows "same_tables x x' \<or> (\<exists>y :: 'z CoherentXBar_scheme. same_tables x y \<and> route_of y (req_ptr (req pkt)) = None \<and>
    same_tables (set_route (req_ptr (req pkt)) mem y) x')"
proof -
  from assms(1) obtain pkt1 pkt2 x2 x3 p where
    c: "calcPacketTiming clk (cwidth x) (cforwardLatency x * clockPeriod clk) pkt = Inr pkt1"
    and s: "snoop_from_below peers clk pkt1 x e = Inr (pkt2, x2, e')"
    and r: "if \<not> cacheResponding pkt1 \<and> cacheResponding pkt2
      then route_of x2 (req_ptr (req pkt2)) = None \<and> x3 = set_route (req_ptr (req pkt2)) mem x2 else x3 = x2"
    and f: "v_findPort V pkt2 x3 = Inr (p, pkt', x')"
    by (rule coh_recvTimingSnoopReqE)
  note s2 = snoop_from_below_tables[OF s assms(2)]
  have k: "req_ptr (req pkt2) = req_ptr (req pkt)"
    using s2 calcPacketTiming_more(4)[OF c] by (simp add: keeps_identity_def)
  obtain bb where "core x' = (core x3)\<lparr> cbase := bb \<rparr>" using findPort_core[OF f] by blast
  then have s3: "same_tables x3 x'" by (rule same_tables_core) simp
  show ?thesis
  proof (cases "\<not> cacheResponding pkt1 \<and> cacheResponding pkt2")
    case True
    with r k have "route_of x2 (req_ptr (req pkt)) = None" "x3 = set_route (req_ptr (req pkt)) mem x2"
      by auto
    with s2 s3 show ?thesis by blast
  next
    case False
    with r have "x3 = x2" by auto
    with s2 s3 show ?thesis by (blast intro: same_tables_trans)
  qed
qed

lemma snoop_req_wf:
  assumes "coh_recvTimingSnoopReq V peers clk pkt mem x e = Inr (pkt', x', e')" "xbar_wf x"
    and "0 \<le> mem" "nat mem < length (creqLayers x)" "polite_snoopers peers"
  shows "xbar_wf x'"
  using snoop_req_tables[OF assms(1,5)]
proof (elim disjE exE conjE)
  fix y assume y: "same_tables x y" "route_of y (req_ptr (req pkt)) = None"
    "same_tables (set_route (req_ptr (req pkt)) mem y) x'"
  have "nat mem < length (creqLayers y)" using y(1) assms(4) by (simp add: same_tables_def)
  moreover have "xbar_wf y" using y(1) assms(2) by (simp add: same_tables_wf)
  ultimately show ?thesis
    using set_route_wf[of y "req_ptr (req pkt)" mem] y(2,3) assms(3) by (simp add: same_tables_wf)
qed (use assms(2) in \<open>simp add: same_tables_wf\<close>)

end

lemma forward_snoop_respE:
  assumes "forward_snoop_resp peers clk pkt src dest x e = Inr (b, pkt', x', e')"
  obtains (busy) l where "\<not> b" "x' = set_csnoop dest l x"
  | (sent) l sf where "b" "x' = del_route (req_ptr (req pkt)) (set_csnoop dest l (x\<lparr> snoopFilter := sf \<rparr>))"
proof -
  obtain free l1 where
    rest: "(if \<not> free then Inr (False, pkt, set_csnoop dest l1 x, e)
      else
        rbind (assert_that (\<not> isExpressSnoop pkt) ''!pkt->isExpressSnoop()'') (\<lambda>_.
        rbind (calcPacketTiming clk (cwidth x) (snoopResponseLatency x * clockPeriod clk) pkt) (\<lambda>pkt1.
        rbind (case snoopFilter x of
                 None \<Rightarrow> Inr x
               | Some sf \<Rightarrow> rbind (updateSnoopForward pkt1 sf) (\<lambda>sf1. Inr (x\<lparr> snoopFilter := Some sf1 \<rparr>))) (\<lambda>x1.
        rbind (sendTimingSnoopResp peers dest pkt1 e) (\<lambda>(success, pkt2, e1).
        rbind (assert_that success ''success'') (\<lambda>_.
        rbind (succeededTiming (clockEdge clk (cheaderLatency x) + ucast (payloadDelay pkt1)) l1) (\<lambda>l2.
          Inr (True, pkt2, del_route (req_ptr (req pkt)) (set_csnoop dest l2 x1), e1)))))))) = Inr (b, pkt', x', e')"
    using assms unfolding forward_snoop_resp_def by (auto simp del: split_paired_Ex rbind_assert)
  show ?thesis
  proof (cases free)
    case False
    with rest show ?thesis by (intro busy[of l1]) auto
  next
    case True
    with rest obtain pkt1 x1 l2 where
      u: "(case snoopFilter x of None \<Rightarrow> Inr x
           | Some sf \<Rightarrow> rbind (updateSnoopForward pkt1 sf) (\<lambda>sf1. Inr (x\<lparr> snoopFilter := Some sf1 \<rparr>))) = Inr x1"
      and x': "b" "x' = del_route (req_ptr (req pkt)) (set_csnoop dest l2 x1)"
      by (auto simp del: split_paired_Ex rbind_assert)
    have "x1 = x\<lparr> snoopFilter := snoopFilter x1 \<rparr>" using u by (auto split: option.splits)
    with x' show ?thesis by (metis sent)
  qed
qed

lemma respond_snoop_respE:
  assumes "respond_snoop_resp clk pkt src dest x = Inr (b, pkt', x')"
  obtains (busy) l where "\<not> b" "x' = set_cresp dest l x"
      "tryTiming (snoopRespPort x src) (crespLayers x ! nat dest) = Inr (False, l)"
      "0 \<le> dest" "nat dest < length (crespLayers x)"
  | (sent) l sf pkt1 where "b" "\<exists>h d. pkt1 = pkt\<lparr> headerDelay := h, payloadDelay := d \<rparr>" "src \<noteq> dest"
      "pkt' = pkt1\<lparr> headerDelay := 0 \<rparr>"
      "x' = del_route (req_ptr (req pkt)) (set_cresp dest l (sched_response clk dest pkt1
         (x\<lparr> outstandingSnoop := removeAll (req_ptr (req pkt)) (outstandingSnoop x), snoopFilter := sf \<rparr>)))"
proof -
  obtain free l1 where t: "tryTiming (snoopRespPort x src) (crespLayers x ! nat dest) = Inr (free, l1)"
      "0 \<le> dest" "nat dest < length (crespLayers x)" and
    rest: "(if \<not> free then Inr (False, pkt, set_cresp dest l1 x)
      else
        rbind (assert_that (\<not> isExpressSnoop pkt) ''!pkt->isExpressSnoop()'') (\<lambda>_.
        rbind (calcPacketTiming clk (cwidth x) (cresponseLatency x * clockPeriod clk) pkt) (\<lambda>pkt1.
        let x1 = x\<lparr> outstandingSnoop := removeAll (req_ptr (req pkt)) (outstandingSnoop x) \<rparr> in
        rbind (assert_that (src \<noteq> dest) ''cpu_side_port_id != dest_port_id'') (\<lambda>_.
        rbind (case snoopFilter x1 of
                 None \<Rightarrow> Inr x1
               | Some sf \<Rightarrow>
                   rbind (at_port (ccpuSidePorts x1) src) (\<lambda>rsp_port.
                   rbind (at_port (ccpuSidePorts x1) dest) (\<lambda>req_port.
                   rbind (updateSnoopResponse pkt1 rsp_port req_port sf) (\<lambda>sf1.
                     Inr (x1\<lparr> snoopFilter := Some sf1 \<rparr>))))) (\<lambda>x2.
        rbind (succeededTiming (clockEdge clk (cheaderLatency x) + ucast (payloadDelay pkt1)) l1) (\<lambda>l2.
          Inr (True, pkt1\<lparr> headerDelay := 0 \<rparr>, del_route (req_ptr (req pkt))
            (set_cresp dest l2 (sched_response clk dest pkt1 x2))))))))) = Inr (b, pkt', x')"
    using assms unfolding respond_snoop_resp_def by (auto simp del: split_paired_Ex rbind_assert)
  show ?thesis
  proof (cases free)
    case False
    with rest t show ?thesis by (intro busy[of l1]) auto
  next
    case True
    let ?x1 = "x\<lparr> outstandingSnoop := removeAll (req_ptr (req pkt)) (outstandingSnoop x) \<rparr>"
    from True rest obtain pkt1 x2 l2 where
      c: "calcPacketTiming clk (cwidth x) (cresponseLatency x * clockPeriod clk) pkt = Inr pkt1" and
      u: "(case snoopFilter ?x1 of
                 None \<Rightarrow> Inr ?x1
               | Some sf \<Rightarrow>
                   rbind (at_port (ccpuSidePorts ?x1) src) (\<lambda>rsp_port.
                   rbind (at_port (ccpuSidePorts ?x1) dest) (\<lambda>req_port.
                   rbind (updateSnoopResponse pkt1 rsp_port req_port sf) (\<lambda>sf1.
                     Inr (?x1\<lparr> snoopFilter := Some sf1 \<rparr>))))) = Inr x2"
      and x': "b" "src \<noteq> dest" "pkt' = pkt1\<lparr> headerDelay := 0 \<rparr>"
        "x' = del_route (req_ptr (req pkt)) (set_cresp dest l2 (sched_response clk dest pkt1 x2))"
      unfolding Let_def by (auto simp del: split_paired_Ex rbind_assert)
    have "x2 = ?x1\<lparr> snoopFilter := snoopFilter x2 \<rparr>" using u by (auto split: option.splits)
    with x' calcPacketTiming_delays[OF c] show ?thesis by (metis sent)
  qed
qed

lemma snoop_resp_tables:
  assumes "coh_recvTimingSnoopResp peers clk pkt src x e = Inr (b, pkt', x', e')"
  shows "same_tables x x' \<or> (\<exists>y. (same_tables x y \<and> req_ptr (req pkt) \<notin> set (outstandingSnoop x) \<or>
      same_tables (x\<lparr> outstandingSnoop := removeAll (req_ptr (req pkt)) (outstandingSnoop x) \<rparr>) y) \<and>
      x' = del_route (req_ptr (req pkt)) y)"
proof -
  let ?r = "req_ptr (req pkt)" and ?y = "x\<lparr> outstandingSnoop := removeAll (req_ptr (req pkt)) (outstandingSnoop x) \<rparr>"
  obtain dest where
    rest: "(if ?r \<notin> set (outstandingSnoop x) then forward_snoop_resp peers clk pkt src dest x e
      else rbind (respond_snoop_resp clk pkt src dest x) (\<lambda>(b, pkt1, x1). Inr (b, pkt1, x1, e))) = Inr (b, pkt', x', e')"
    using assms(1) unfolding coh_recvTimingSnoopResp_def by (auto split: option.splits if_splits)
  show ?thesis
  proof (cases "?r \<in> set (outstandingSnoop x)")
    case False
    with rest have "forward_snoop_resp peers clk pkt src dest x e = Inr (b, pkt', x', e')" by simp
    then have "same_tables x x' \<or> (\<exists>y. same_tables x y \<and> x' = del_route ?r y)"
      by (cases rule: forward_snoop_respE) (simp, metis same_tables_refl same_tables_upds(2,8))
    with False show ?thesis by blast
  next
    case True
    with rest have "respond_snoop_resp clk pkt src dest x = Inr (b, pkt', x')" by auto
    then have "same_tables x x' \<or> (\<exists>z. same_tables ?y z \<and> x' = del_route ?r z)"
      by (cases rule: respond_snoop_respE)
        (simp, metis same_tables_refl same_tables_upds(2,7) sched_response_same)
    then show ?thesis by blast
  qed
qed

lemma snoop_resp_wf:
  assumes "coh_recvTimingSnoopResp peers clk pkt src x e = Inr (b, pkt', x', e')" "xbar_wf x"
    and "req_ptr (req pkt) \<notin> deferred_cmos x"
  shows "xbar_wf x'"
proof -
  let ?r = "req_ptr (req pkt)" and ?y = "x\<lparr> outstandingSnoop := removeAll (req_ptr (req pkt)) (outstandingSnoop x) \<rparr>"
  have w: "xbar_wf ?y" by (rule remove_outstanding_wf[OF assms(2)])
  show ?thesis
    using snoop_resp_tables[OF assms(1)] del_route_same_wf[of x ?r] del_route_same_wf[OF w, of ?r] assms(2,3)
    by (auto simp: same_tables_wf)
qed

section \<open>Atomic and functional accesses\<close>

text \<open>Atomic snoops change the snoop filter and the record of snooped ports only. Of a packet they keep
  what \<open>K\<close> relates, when every snooped cache does so and \<open>K\<close> does not look at a command that the
  crossbar restores.\<close>

definition atomic_snoopers_keep :: "(Packet \<Rightarrow> Packet \<Rightarrow> bool) \<Rightarrow> 'e xpeers \<Rightarrow> bool" where
  "atomic_snoopers_keep K peers \<longleftrightarrow> (\<forall>p pkt e lat pkt' e'. sendAtomicSnoop peers p pkt e = Inr (lat, pkt', e') \<longrightarrow> K pkt pkt')"

definition snoop_relation :: "(Packet \<Rightarrow> Packet \<Rightarrow> bool) \<Rightarrow> bool" where
  "snoop_relation K \<longleftrightarrow> (\<forall>p. K p p) \<and> (\<forall>p q r. K p q \<longrightarrow> K q r \<longrightarrow> K p r) \<and> (\<forall>p q. K p q \<longrightarrow> K p (q\<lparr> cmd := cmd p \<rparr>))
     \<and> (\<forall>p. K p (setBlockCached p))"

lemma atomic_snoop_answer_frame:
  "atomic_snoop_answer pkt ex source p x = Inr x' \<Longrightarrow> \<exists>sf. x' = x\<lparr> snoopFilter := sf \<rparr>"
  by (auto simp: atomic_snoop_answer_def split: option.splits intro: exI[of _ "snoopFilter x"])

lemma snoop_atomic_frame:
  assumes "snoop_atomic peers c ex source ps res pkt x e = Inr (res', pkt', x', e')"
  shows "\<exists>sf g. x' = x\<lparr> snoopFilter := sf, gh_snooped := g \<rparr>"
    and "atomic_snoopers_keep K peers \<Longrightarrow> snoop_relation K \<Longrightarrow> K p0 pkt \<Longrightarrow> cmd p0 = c \<Longrightarrow> K p0 pkt'"
proof -
  have "(\<exists>sf g. x' = x\<lparr> snoopFilter := sf, gh_snooped := g \<rparr>) \<and>
    (atomic_snoopers_keep K peers \<longrightarrow> snoop_relation K \<longrightarrow> K p0 pkt \<longrightarrow> cmd p0 = c \<longrightarrow> K p0 pkt')"
    using assms
  proof (induction ps arbitrary: res pkt x e)
    case Nil
    then have "x' = x\<lparr> snoopFilter := snoopFilter x, gh_snooped := gh_snooped x \<rparr>" "pkt' = pkt" by simp_all
    then show ?case by blast
  next
    case (Cons p ps)
    show ?case
    proof (cases "ex \<noteq> InvalidPortID \<and> cp_id p = ex")
      case False
      let ?x1 = "x\<lparr> gh_snooped := gh_snooped x @ [cp_id p] \<rparr>"
      from False Cons.prems obtain lat pkt1 e1 where
        snd: "sendAtomicSnoop peers (cp_id p) pkt e = Inr (lat, pkt1, e1)" and
        rest: "(if \<not> isResponse (cmd pkt1) then snoop_atomic peers c ex source ps res pkt1 ?x1 e1
            else
              rbind (assert_that (cmd pkt1 \<noteq> c) ''pkt->cmd != orig_cmd'') (\<lambda>_.
              rbind (assert_that (cacheResponding pkt1) ''pkt->cacheResponding()'') (\<lambda>_.
              rbind (assert_that (fst res = InvalidCmd) ''snoop_response_cmd == MemCmd::InvalidCmd'') (\<lambda>_.
              rbind (atomic_snoop_answer pkt1 ex source p ?x1) (\<lambda>x2.
                snoop_atomic peers c ex source ps (cmd pkt1, lat)
                  (pkt1\<lparr> cmd := c \<rparr>) x2 e1))))) = Inr (res', pkt', x', e')"
        by (auto simp: Let_def simp del: rbind_assert)
      have k1: "K p0 pkt1" if "atomic_snoopers_keep K peers" "snoop_relation K" "K p0 pkt"
        using that snd unfolding atomic_snoopers_keep_def snoop_relation_def by blast
      show ?thesis
      proof (cases "isResponse (cmd pkt1)")
        case True
        with rest obtain x2 where x2: "atomic_snoop_answer pkt1 ex source p ?x1 = Inr x2"
          "snoop_atomic peers c ex source ps (cmd pkt1, lat) (pkt1\<lparr> cmd := c \<rparr>) x2 e1 = Inr (res', pkt', x', e')"
          by (auto simp del: rbind_assert)
        have "K p0 (pkt1\<lparr> cmd := c \<rparr>)" if "atomic_snoopers_keep K peers" "snoop_relation K" "K p0 pkt" "cmd p0 = c"
          using k1[OF that(1-3)] that(2,4) unfolding snoop_relation_def by blast
        moreover from atomic_snoop_answer_frame[OF x2(1)] obtain sf0 where "x2 = ?x1\<lparr> snoopFilter := sf0 \<rparr>" by blast
        with Cons.IH[OF x2(2)] obtain sf g where "x' = x\<lparr> snoopFilter := sf, gh_snooped := g \<rparr>" by auto
        ultimately show ?thesis using Cons.IH[OF x2(2)] by blast
      next
        case False
        with rest have "snoop_atomic peers c ex source ps res pkt1 ?x1 e1 = Inr (res', pkt', x', e')" by simp
        note ih = Cons.IH[OF this]
        then obtain sf g where "x' = x\<lparr> snoopFilter := sf, gh_snooped := g \<rparr>" by auto
        with ih k1 show ?thesis by blast
      qed
    qed (use Cons in auto)
  qed
  then show "\<exists>sf g. x' = x\<lparr> snoopFilter := sf, gh_snooped := g \<rparr>"
    "atomic_snoopers_keep K peers \<Longrightarrow> snoop_relation K \<Longrightarrow> K p0 pkt \<Longrightarrow> cmd p0 = c \<Longrightarrow> K p0 pkt'" by blast+
qed

lemma coh_forwardAtomic_frame:
  assumes "coh_forwardAtomic peers pkt ex source dests x e = Inr (res, pkt', x', e')"
  shows "\<exists>sf g. x' = x\<lparr> snoopFilter := sf, gh_snooped := g \<rparr>"
    and "atomic_snoopers_keep K peers \<Longrightarrow> snoop_relation K \<Longrightarrow> K pkt pkt'"
proof -
  have s: "snoop_atomic peers (cmd pkt) ex source dests (InvalidCmd, 0) pkt x e = Inr (res, pkt', x', e')"
    using assms by (auto simp: coh_forwardAtomic_def split: if_splits)
  show "\<exists>sf g. x' = x\<lparr> snoopFilter := sf, gh_snooped := g \<rparr>" by (rule snoop_atomic_frame(1)[OF s])
  show "K pkt pkt'" if "atomic_snoopers_keep K peers" "snoop_relation K"
    using snoop_atomic_frame(2)[OF s that, of pkt] that(2) by (simp add: snoop_relation_def)
qed

lemma snoop_request_atomic_frame:
  assumes "snoop_request_atomic peers clk pkt src x e = Inr (res, pkt', x', e')"
  shows "\<exists>sf g. x' = x\<lparr> snoopFilter := sf, gh_snooped := g \<rparr>"
    and "atomic_snoopers_keep K peers \<Longrightarrow> snoop_relation K \<Longrightarrow> K pkt pkt'"
proof -
  have "(\<exists>sf g. x' = x\<lparr> snoopFilter := sf, gh_snooped := g \<rparr>) \<and>
    (atomic_snoopers_keep K peers \<longrightarrow> snoop_relation K \<longrightarrow> K pkt pkt')"
  proof (cases "snoopFilter x")
    case None
    with assms have "coh_forwardAtomic peers pkt src InvalidPortID (snoopPorts x) x e = Inr (res, pkt', x', e')"
      by (simp add: snoop_request_atomic_def)
    from coh_forwardAtomic_frame[OF this] show ?thesis by blast
  next
    case (Some sf)
    with assms obtain dests lat sf2 where
      rest: "(if isEviction (cmd pkt)
             then Inr ((InvalidCmd, lat * clockPeriod clk), if dests \<noteq> [] then setBlockCached pkt else pkt,
               x\<lparr> snoopFilter := Some sf2 \<rparr>, e)
             else
               rbind (coh_forwardAtomic peers pkt src InvalidPortID dests (x\<lparr> snoopFilter := Some sf2 \<rparr>) e) (\<lambda>((c, lat1), pkt1, x2, e1).
                 Inr ((c, lat * clockPeriod clk + lat1), pkt1, x2, e1))) = Inr (res, pkt', x', e')"
      unfolding snoop_request_atomic_def by (auto simp: Let_def simp del: split_paired_Ex)
    show ?thesis
    proof (cases "isEviction (cmd pkt)")
      case True
      with rest have "x' = x\<lparr> snoopFilter := Some sf2, gh_snooped := gh_snooped x \<rparr>"
        "pkt' = (if dests \<noteq> [] then setBlockCached pkt else pkt)" by auto
      moreover from this(2) have "snoop_relation K \<Longrightarrow> K pkt pkt'" by (simp add: snoop_relation_def)
      ultimately show ?thesis by blast
    next
      case False
      with rest obtain res1 where
        "coh_forwardAtomic peers pkt src InvalidPortID dests (x\<lparr> snoopFilter := Some sf2 \<rparr>) e = Inr (res1, pkt', x', e')"
        by auto
      from coh_forwardAtomic_frame[OF this] show ?thesis by auto
    qed
  qed
  then show "\<exists>sf g. x' = x\<lparr> snoopFilter := sf, gh_snooped := g \<rparr>"
    "atomic_snoopers_keep K peers \<Longrightarrow> snoop_relation K \<Longrightarrow> K pkt pkt'" by blast+
qed

lemma snoop_request_atomic_same:
  "snoop_request_atomic peers clk pkt src x e = Inr (res, pkt', x', e') \<Longrightarrow> same_tables x x'"
  using snoop_request_atomic_frame(1) by fastforce

lemma atomic_maintenance_wf:
  assumes "atomic_maintenance pkt x = Inr x'" "xbar_wf x"
  shows "xbar_wf x'"
  using assms delete_CMO_wf(1)[OF assms(2)] insert_CMO_wf[OF assms(2), of "p_id pkt" None]
  by (auto simp: atomic_maintenance_def cmo_of_def split: if_splits)

context xbar_frame
begin

lemma atomic_onwards_same:
  assumes "atomic_onwards V peers d sink mem pkt x e = Inr (lat, pkt', x', e')"
  shows "same_tables x x'"
proof (cases "\<not> sink \<and> forwardPacket x pkt")
  case True
  with assms obtain pkt2 where "v_atomic V pkt2 x = Inr x'" by (auto simp: atomic_onwards_def Let_def)
  then have "core x' = core x" by (rule atomic_core)
  then show ?thesis by (rule same_tables_core) simp
qed (use assms in \<open>auto simp: atomic_onwards_def split: if_splits\<close>)

lemma findPort_same: "v_findPort V pkt x = Inr (p, pkt', x') \<Longrightarrow> same_tables x x'"
  using findPort_core[of pkt x p pkt' x'] same_tables_core[of x' _ x] by fastforce

lemma atomic_tables:
  assumes "coh_recvAtomic V peers clk pkt src x e = Inr (lat, pkt', x', e')"
  obtains pkt4 x4 where "same_tables x x4" "atomic_maintenance pkt4 x4 = Inr x'"
proof -
  obtain res pkt1 x1 e1 sink mem pkt2 x2 lat' pkt3 x3 e2 x4 pkt4 where
    s: "(if \<not> bypassCaches x \<and> cmd pkt \<noteq> WriteClean then snoop_request_atomic peers clk pkt src x e
         else Inr ((InvalidCmd, 0), pkt, x, e)) = Inr (res, pkt1, x1, e1)"
    and f: "v_findPort V pkt1 x1 = Inr (mem, pkt2, x2)"
    and o: "atomic_onwards V peers (isDestination x pkt) sink mem pkt2 x2 e1 = Inr (lat', pkt3, x3, e2)"
    and u: "(if isResponse (cmd pkt3) then xbar_update_response pkt3 src x3 else Inr x3) = Inr x4"
    and m: "atomic_maintenance pkt4 x4 = Inr x'"
    using assms unfolding coh_recvAtomic_def Let_def
    by (clarsimp simp del: rbind_assert)
  have "same_tables x x1" using s snoop_request_atomic_same[of peers clk pkt src x e res pkt1 x1 e1] by (auto split: if_splits)
  moreover have "same_tables x1 x2" by (rule findPort_same[OF f])
  moreover have "same_tables x2 x3" by (rule atomic_onwards_same[OF o])
  moreover have "same_tables x3 x4" using u by (auto split: if_splits elim: xbar_update_response_frame)
  ultimately have "same_tables x x4" by (blast intro: same_tables_trans)
  with m show ?thesis using that by blast
qed

lemma atomic_wf:
  assumes "coh_recvAtomic V peers clk pkt src x e = Inr (lat, pkt', x', e')" "xbar_wf x"
  shows "xbar_wf x'"
  using assms(1)
proof (rule atomic_tables)
  fix pkt4 x4 assume "same_tables x x4" "atomic_maintenance pkt4 x4 = Inr x'"
  with atomic_maintenance_wf[of pkt4 x4 x'] assms(2) show ?thesis by (simp add: same_tables_wf)
qed

lemma functional_same:
  assumes "coh_recvFunctional V peers pkt src x e = Inr (pkt', x', e')"
  shows "same_tables x x'"
proof -
  have "x' = x \<or> (\<exists>p q q'. v_findPort V q x = Inr (p, q', x'))"
    using assms(1) unfolding coh_recvFunctional_def by (auto split: if_splits)
  then show ?thesis using findPort_same by auto
qed

end

lemma atomic_snoop_frame:
  assumes "coh_recvAtomicSnoop peers clk pkt mem x e = Inr (lat, pkt', x', e')"
  shows "\<exists>sf g. x' = x\<lparr> snoopFilter := sf, gh_snooped := g \<rparr>"
proof (cases "snoopFilter x")
  case None
  with assms obtain res pkt1 where
    "coh_forwardAtomic peers pkt InvalidPortID InvalidPortID (snoopPorts x) x e = Inr (res, pkt1, x', e')"
    by (auto simp: coh_recvAtomicSnoop_def Let_def)
  then show ?thesis by (rule coh_forwardAtomic_frame(1))
next
  case (Some sf)
  with assms obtain sf1 dests res pkt1 where
    "coh_forwardAtomic peers pkt InvalidPortID mem dests (x\<lparr> snoopFilter := Some sf1 \<rparr>) e = Inr (res, pkt1, x', e')"
    by (auto simp: coh_recvAtomicSnoop_def Let_def)
  from coh_forwardAtomic_frame(1)[OF this] show ?thesis by auto
qed

lemma atomic_snoop_same: "coh_recvAtomicSnoop peers clk pkt mem x e = Inr (lat, pkt', x', e') \<Longrightarrow> same_tables x x'"
  using atomic_snoop_frame by fastforce

lemma retry_same: "coh_recvReqRetry rx clk mem x = Inr x' \<Longrightarrow> same_tables x x'"
  by (auto simp: coh_recvReqRetry_def)

section \<open>Runs\<close>

text \<open>What can happen to a crossbar. The label names the request a step is about. The memory does not
  answer a request that a cache or the crossbar has undertaken to answer, and caches send no
  snoop response for a deferred clean operation; a port that sends a snoop exists. Requests are
  admissible: outside the point of coherency this leaves out the requests that are not regular,
  whose route the crossbar may drop. The layers may change in any way between two operations.
  This covers the release of a layer and the notification that a destination is ready again, and
  the moment in the middle of either when a waiting port is told to try again and sends at once:
  the packet it sends is the next step, and the end of the retry is another change of the layer.\<close>

inductive xbar_step ::
  "'z CoherentXBar_scheme xvariant \<Rightarrow> (Packet \<Rightarrow> bool) \<Rightarrow> 'e xpeers \<Rightarrow> nat option
    \<Rightarrow> 'z CoherentXBar_scheme \<times> 'e \<Rightarrow> 'z CoherentXBar_scheme \<times> 'e \<Rightarrow> bool"
  for V :: "'z CoherentXBar_scheme xvariant" and regular :: "Packet \<Rightarrow> bool" and peers :: "'e xpeers" where
  request: "xbar_recvTimingReq V peers clk pkt src x e = Inr (b, pkt', x', e') \<Longrightarrow> admissible regular x pkt
    \<Longrightarrow> xbar_step V regular peers (Some (req_ptr (req pkt))) (x, e) (x', e')"
| response: "coh_recvTimingResp V clk pkt mem x = Inr (b, x')
    \<Longrightarrow> req_ptr (req pkt) \<notin> set (outstandingSnoop x) \<union> deferred_cmos x
    \<Longrightarrow> xbar_step V regular peers (Some (req_ptr (req pkt))) (x, e) (x', e)"
| snoop_req: "coh_recvTimingSnoopReq V peers clk pkt mem x e = Inr (pkt', x', e')
    \<Longrightarrow> 0 \<le> mem \<Longrightarrow> nat mem < length (creqLayers x)
    \<Longrightarrow> xbar_step V regular peers (Some (req_ptr (req pkt))) (x, e) (x', e')"
| snoop_resp: "coh_recvTimingSnoopResp peers clk pkt src x e = Inr (b, pkt', x', e')
    \<Longrightarrow> req_ptr (req pkt) \<notin> deferred_cmos x
    \<Longrightarrow> xbar_step V regular peers (Some (req_ptr (req pkt))) (x, e) (x', e')"
| layers: "length rq = length (creqLayers x) \<Longrightarrow> length rs = length (crespLayers x) \<Longrightarrow> length sn = length (snoopLayers x)
    \<Longrightarrow> xbar_step V regular peers None (x, e) (x\<lparr> creqLayers := rq, crespLayers := rs, snoopLayers := sn \<rparr>, e)"
| range_change: "recvRangeChange ranges p (cbase x) = Inr (n, b)
    \<Longrightarrow> xbar_step V regular peers None (x, e) (x\<lparr> cbase := b \<rparr>, e)"
| atomic: "coh_recvAtomic V peers clk pkt src x e = Inr (lat, pkt', x', e')
    \<Longrightarrow> xbar_step V regular peers None (x, e) (x', e')"
| atomic_snoop: "coh_recvAtomicSnoop peers clk pkt mem x e = Inr (lat, pkt', x', e')
    \<Longrightarrow> xbar_step V regular peers None (x, e) (x', e')"
| functional: "coh_recvFunctional V peers pkt src x e = Inr (pkt', x', e')
    \<Longrightarrow> xbar_step V regular peers None (x, e) (x', e')"
| world: "xbar_step V regular peers None (x, e) (x, e')"

text \<open>The releases of layers and the retries of destinations are among these steps, whatever the ports
  that wait do at once.\<close>

lemma layer_events_are_steps:
  "releaseLayer rx edge ((creqLayers x ! nat p)\<lparr> releaseEvent := None \<rparr>) = Inr l
    \<Longrightarrow> xbar_step V regular peers None (x, e) (set_creq p l x, e)"
  "releaseLayer rx edge ((crespLayers x ! nat p)\<lparr> releaseEvent := None \<rparr>) = Inr l
    \<Longrightarrow> xbar_step V regular peers None (x, e) (set_cresp p l x, e)"
  "releaseLayer rx edge ((snoopLayers x ! nat p)\<lparr> releaseEvent := None \<rparr>) = Inr l
    \<Longrightarrow> xbar_step V regular peers None (x, e) (set_csnoop p l x, e)"
  "coh_recvReqRetry rx clk mem x = Inr x' \<Longrightarrow> xbar_step V regular peers None (x, e) (x', e)"
proof -
  note step = xbar_step.layers[of _ x "crespLayers x" "snoopLayers x" V regular peers e]
    xbar_step.layers[of "creqLayers x" x _ "snoopLayers x" V regular peers e]
    xbar_step.layers[of "creqLayers x" x "crespLayers x" _ V regular peers e]
  have q: "xbar_step V regular peers None (x, e) (set_creq p l x, e)" for p l
    using step(1)[of "(creqLayers x)[nat p := l]"] by (simp add: set_creq_def)
  then show "xbar_step V regular peers None (x, e) (set_creq p l x, e)" .
  show "xbar_step V regular peers None (x, e) (set_cresp p l x, e)"
    using step(2)[of "(crespLayers x)[nat p := l]"] by (simp add: set_cresp_def)
  show "xbar_step V regular peers None (x, e) (set_csnoop p l x, e)"
    using step(3)[of "(snoopLayers x)[nat p := l]"] by (simp add: set_csnoop_def)
  show "coh_recvReqRetry rx clk mem x = Inr x' \<Longrightarrow> xbar_step V regular peers None (x, e) (x', e)"
    using q by (auto simp: coh_recvReqRetry_def)
qed

inductive xbar_reachable ::
  "'z CoherentXBar_scheme xvariant \<Rightarrow> (Packet \<Rightarrow> bool) \<Rightarrow> 'e xpeers \<Rightarrow> 'z CoherentXBar_scheme
    \<Rightarrow> 'z CoherentXBar_scheme \<times> 'e \<Rightarrow> bool"
  for V :: "'z CoherentXBar_scheme xvariant" and regular :: "Packet \<Rightarrow> bool" and peers :: "'e xpeers"
    and x0 :: "'z CoherentXBar_scheme" where
  start: "xbar_reachable V regular peers x0 (x0, e)"
| step: "xbar_reachable V regular peers x0 s \<Longrightarrow> xbar_step V regular peers lbl s s'
    \<Longrightarrow> xbar_reachable V regular peers x0 s'"

context xbar_variant
begin

lemma step_wf:
  assumes "xbar_step V regular peers lbl s s'" "polite_snoopers peers" "polite_memory regular peers"
    and "xbar_wf (fst s)"
  shows "xbar_wf (fst s')"
  using assms(1,4)
proof (induction rule: xbar_step.induct)
  case (request clk pkt src x e b pkt' x' e')
  then show ?case using request_wf[OF request(1) _ assms(2,3) request(2)] by simp
next
  case (response clk pkt mem x b x' e)
  then show ?case using response_wf by simp
next
  case (snoop_req clk pkt mem x e pkt' x' e')
  then show ?case using snoop_req_wf[OF snoop_req(1) _ snoop_req(2,3) assms(2)] by simp
next
  case (snoop_resp clk pkt src x e b pkt' x' e')
  then show ?case using snoop_resp_wf by simp
next
  case (layers rq x rs sn e)
  then show ?case using same_tables_wf[OF same_tables_layers, of rq x rs sn] by simp
next
  case (range_change ranges p x n b e)
  then show ?case using same_tables_wf[of x "x\<lparr> cbase := b \<rparr>"] by simp
next
  case (atomic clk pkt src x e lat pkt' x' e')
  then show ?case using atomic_wf by simp
next
  case (atomic_snoop clk pkt mem x e lat pkt' x' e')
  with atomic_snoop_same[OF atomic_snoop(1)] show ?case by (simp add: same_tables_wf)
next
  case (functional pkt src x e pkt' x' e')
  with functional_same[OF functional(1)] show ?case by (simp add: same_tables_wf)
qed simp

lemma reachable_wf:
  assumes "xbar_reachable V regular peers x0 s" "polite_snoopers peers" "polite_memory regular peers" "xbar_wf x0"
  shows "xbar_wf (fst s)"
  using assms(1)
proof (induction rule: xbar_reachable.induct)
  case (step s lbl s')
  then show ?case using step_wf[OF _ assms(2,3)] by blast
qed (simp add: assms(4))

end

text \<open>A crossbar that has been constructed and initialised is well formed.\<close>

lemma par_cpu_ports_nth: "i < length (snooping p) \<Longrightarrow> cp_id (par_cpu_ports p ! i) = int i"
  by (simp add: par_cpu_ports_def)

lemma new_xbar_wf: "xbar_wf (new_CoherentXBar p)"
  by (simp add: xbar_wf_def ports_wf_def tables_wf_def new_CoherentXBar_def Let_def route_of_def cmo_of_def
      deferred_cmos_def par_cpu_ports_def)

lemma init_wf:
  assumes "xbar_wf x" "xbar_init x = Inr x'"
  shows "xbar_wf x'"
proof -
  let ?x1 = "x\<lparr> snoopPorts := snoopPorts x @ filter cp_snooping (ccpuSidePorts x) \<rparr>"
  have t: "route_of ?x1 = route_of x" "cmo_of ?x1 = cmo_of x"
    by (simp_all add: route_of_def cmo_of_def fun_eq_iff)
  have "xbar_wf ?x1"
    using assms(1) by (auto simp: xbar_wf_def ports_wf_def tables_wf_def deferred_cmos_def routed_up_def t)
  moreover have "same_tables ?x1 x'"
    using assms(2) by (auto simp: xbar_init_def Let_def split: option.splits)
  ultimately show ?thesis by (simp add: same_tables_wf)
qed

end
