(* ===== verification/CoherentXBarTraffic.thy ===== *)
theory CoherentXBarTraffic
  imports CoherentXBarInv
begin

text \<open>
  A request that waits for a snoop response while other requests pass through the crossbar: it
  keeps its route and its place among the outstanding snoops.
\<close>

section \<open>Traffic of other requests\<close>

inductive xbar_traffic ::
  "'z CoherentXBar_scheme xvariant \<Rightarrow> (Packet \<Rightarrow> bool) \<Rightarrow> 'e xpeers \<Rightarrow> nat
    \<Rightarrow> 'z CoherentXBar_scheme \<times> 'e \<Rightarrow> 'z CoherentXBar_scheme \<times> 'e \<Rightarrow> bool"
  for V :: "'z CoherentXBar_scheme xvariant" and regular :: "Packet \<Rightarrow> bool" and peers :: "'e xpeers" and r :: nat where
  none: "xbar_traffic V regular peers r s s"
| more: "xbar_traffic V regular peers r s s' \<Longrightarrow> xbar_step V regular peers lbl s' s'' \<Longrightarrow> lbl \<noteq> Some r
    \<Longrightarrow> xbar_traffic V regular peers r s s''"

text \<open>A request that waits for a snoop response keeps its route.\<close>

definition keeps_waiting :: "nat \<Rightarrow> 'z CoherentXBar_scheme \<Rightarrow> 'z CoherentXBar_scheme \<Rightarrow> bool" where
  "keeps_waiting r x x' \<longleftrightarrow> (r \<in> set (outstandingSnoop x) \<longrightarrow>
     r \<in> set (outstandingSnoop x') \<and> route_of x' r = route_of x r)"

lemma keeps_waiting_same: "same_tables x x' \<Longrightarrow> keeps_waiting r x x'"
  using same_tables_route(1)[of x x'] by (simp add: keeps_waiting_def) (simp add: same_tables_def)

lemma keeps_waiting_trans: "keeps_waiting r x y \<Longrightarrow> keeps_waiting r y z \<Longrightarrow> keeps_waiting r x z"
  by (simp add: keeps_waiting_def)

lemma keeps_waiting_routes [simp]:
  "r' \<noteq> r \<Longrightarrow> keeps_waiting r x (set_route r' p y) = keeps_waiting r x y"
  "r' \<noteq> r \<Longrightarrow> keeps_waiting r x (del_route r' y) = keeps_waiting r x y"
  by (simp_all add: keeps_waiting_def)

lemma keeps_waiting_core: "core x' = core y \<Longrightarrow> keeps_waiting r x y \<Longrightarrow> keeps_waiting r x x'"
  using core_eqD(7,9)[of x' "core y"] by (simp add: keeps_waiting_def route_of_def)

context xbar_variant
begin

lemma route_keeps_waiting:
  assumes "v_route V sink pkt src x = Inr x'" "req_ptr (req pkt) \<noteq> r"
  shows "keeps_waiting r x x'"
  using route_core[OF assms(1)]
proof
  assume "core x' = core x"
  then show ?thesis by (rule keeps_waiting_core) (simp add: keeps_waiting_def)
next
  assume "route_of x (req_ptr (req pkt)) = None \<and> core x' = core (set_route (req_ptr (req pkt)) src x)"
  then show ?thesis using assms(2) by (intro keeps_waiting_core[of x' "set_route (req_ptr (req pkt)) src x"])
      (simp_all add: keeps_waiting_def)
qed

lemma account_keeps_waiting:
  assumes "account_request V es er sink pkt src x = Inr x'" "req_ptr (req pkt) \<noteq> r"
  shows "keeps_waiting r x x'"
proof -
  obtain x1 where x1: "(if es then add_outstanding (req_ptr (req pkt)) x else Inr x) = Inr x1"
    and x': "(if er \<or> es then rbind (v_route V sink pkt src x1) (\<lambda>x2. if v_checks V sink pkt then check_routes x2 else Inr x2)
      else Inr x1) = Inr x'"
    using assms(1) by (auto simp: account_request_def simp del: add_outstanding_Inr)
  have "keeps_waiting r x x1" using x1 by (auto simp: keeps_waiting_def split: if_splits)
  moreover have "keeps_waiting r x1 x'"
    using x' route_keeps_waiting[OF _ assms(2)] by (auto simp: keeps_waiting_same split: if_splits)
  ultimately show ?thesis by (rule keeps_waiting_trans)
qed

lemma deferred_clean_keeps_waiting:
  assumes a: "deferred_clean V sink pkt src x = Inr (dir, d, port, x')" and wf: "xbar_wf x"
  shows "keeps_waiting r x x'"
proof (cases "cmo_of x (p_id pkt)")
  case (Some df)
  let ?x1 = "x\<lparr> outstandingCMO := AList.delete (p_id pkt) (outstandingCMO x) \<rparr>"
  show ?thesis
  proof (cases "isWrite (cmd pkt)")
    case True
    from a Some True obtain rsp where rsp: "df = Some rsp" "x' = del_route (req_ptr (req rsp)) ?x1"
      by (auto simp: deferred_clean_def cmo_of_def Let_def split: option.splits if_splits)
    have "req_ptr (req rsp) \<in> deferred_cmos x" using Some rsp(1) by (auto intro: deferredI)
    then have "r \<in> set (outstandingSnoop x) \<Longrightarrow> req_ptr (req rsp) \<noteq> r"
      using wf by (auto simp: xbar_wf_def tables_wf_def)
    with rsp(2) show ?thesis by (auto simp: keeps_waiting_def)
  next
    case False
    with a Some show ?thesis by (auto simp: deferred_clean_def cmo_of_def keeps_waiting_def)
  qed
next
  case None
  let ?d = "if isWrite (cmd pkt) then None else Some pkt"
  let ?x1 = "x\<lparr> outstandingCMO := AList.update (p_id pkt) ?d (outstandingCMO x) \<rparr>"
  have k: "keeps_waiting r x ?x1" by (simp add: keeps_waiting_def)
  show ?thesis
  proof (cases "isWrite (cmd pkt)")
    case True
    with a None k show ?thesis by (auto simp: deferred_clean_def cmo_of_def)
  next
    case False
    with a None have v: "v_route V sink pkt src ?x1 = Inr x'" and n: "route_of x (req_ptr (req pkt)) = None"
      by (auto simp: deferred_clean_def cmo_of_def split: if_splits)
    show ?thesis
    proof (cases "req_ptr (req pkt) = r")
      case True
      with n wf have "r \<notin> set (outstandingSnoop x)" by (auto simp: xbar_wf_def tables_wf_def routed_up_def)
      then show ?thesis by (simp add: keeps_waiting_def)
    next
      case False
      from keeps_waiting_trans[OF k route_keeps_waiting[OF v False]] show ?thesis .
    qed
  qed
qed

lemma answer_keeps_waiting:
  assumes a: "answer_request V clk True direct d sink pkt src x = Inr (pkt', x')" and wf: "xbar_wf x"
  shows "keeps_waiting r x x'"
  using a
proof (cases rule: answer_requestE)
  case (1 dir df port x1)
  have "keeps_waiting r x x1"
    using 1(1) deferred_clean_keeps_waiting[OF _ wf, of sink pkt src dir df port x1 r]
    by (auto simp: keeps_waiting_same split: if_splits)
  with 1(2) show ?thesis using keeps_waiting_same keeps_waiting_trans by blast
qed

lemma request_keeps_waiting:
  assumes "xbar_recvTimingReq V peers clk pkt src x e = Inr (b, pkt', x', e')" "xbar_wf x"
    and "polite_snoopers peers" "polite_memory regular peers" "admissible regular x pkt"
    and "req_ptr (req pkt) \<noteq> r"
  shows "keeps_waiting r x x'"
  using assms(1-5)
proof (cases rule: request_effect)
  case refused
  then show ?thesis by (simp add: keeps_waiting_same)
next
  case (accepted xa xb pk pk1 sink direct mem d)
  have "keeps_waiting r xa xb"
  proof (cases "isExpressSnoop pkt")
    case False
    with accepted(3) obtain es er xc l where acc: "account_request V es er sink pk1 src xa = Inr xc"
      "xb = set_creq mem l xc" unfolding accounted_def by auto
    with account_keeps_waiting[OF acc(1)] accepted(5) assms(6) show ?thesis
      by (simp add: keeps_waiting_def route_of_def)
  qed (use accepted(3) in \<open>simp add: accounted_def keeps_waiting_same\<close>)
  moreover have "keeps_waiting r xb x'"
    by (rule answer_keeps_waiting[OF accepted(4,6)])
  ultimately show ?thesis
    using keeps_waiting_same[OF accepted(2), of r] by (blast intro: keeps_waiting_trans)
qed

lemma step_keeps_waiting:
  assumes "xbar_step V regular peers lbl s s'" "polite_snoopers peers" "polite_memory regular peers"
    and "xbar_wf (fst s)" "lbl \<noteq> Some r"
  shows "keeps_waiting r (fst s) (fst s')"
  using assms(1,4,5)
proof (induction rule: xbar_step.induct)
  case (request clk pkt src x e b pkt' x' e')
  then show ?case using request_keeps_waiting[OF request(1) _ assms(2,3) request(2)] by simp
next
  case (response clk pkt mem x b x' e)
  from response(1) have "same_tables x x' \<or> (\<exists>y. same_tables x y \<and> x' = del_route (req_ptr (req pkt)) y)"
    by (rule response_tables)
  with response(4) show ?case by (auto simp: keeps_waiting_same)
next
  case (snoop_req clk pkt mem x e pkt' x' e')
  from snoop_req(1) assms(2)
  have "same_tables x x' \<or> (\<exists>y :: 'z CoherentXBar_scheme. same_tables x y \<and> same_tables (set_route (req_ptr (req pkt)) mem y) x')"
    by (blast dest: snoop_req_tables)
  with snoop_req(5) show ?case
    using keeps_waiting_same[of x _ r] keeps_waiting_same[of "set_route (req_ptr (req pkt)) mem _" x' r]
      keeps_waiting_trans[of r x "set_route (req_ptr (req pkt)) mem _" x'] by auto
next
  case (snoop_resp clk pkt src x e b pkt' x' e')
  let ?y = "x\<lparr> outstandingSnoop := removeAll (req_ptr (req pkt)) (outstandingSnoop x) \<rparr>"
  have k: "keeps_waiting r x ?y" using snoop_resp(4) by (simp add: keeps_waiting_def)
  from snoop_resp_tables[OF snoop_resp(1)] snoop_resp(4) show ?case
    using keeps_waiting_same[of x _ r] keeps_waiting_trans[OF k keeps_waiting_same] by auto
next
  case (atomic clk pkt src x e lat pkt' x' e')
  from atomic(1) show ?case
  proof (rule atomic_tables)
    fix pkt4 x4 assume s: "same_tables x x4" and m: "atomic_maintenance pkt4 x4 = Inr x'"
    have "keeps_waiting r x x4" using s by (rule keeps_waiting_same)
    moreover have "keeps_waiting r x4 x'"
      using m by (auto simp: atomic_maintenance_def keeps_waiting_def split: if_splits)
    ultimately show ?thesis using keeps_waiting_trans by simp
  qed
qed (auto intro!: keeps_waiting_same dest: same_tables_layers atomic_snoop_same functional_same)

lemma traffic_keeps_waiting:
  assumes "xbar_traffic V regular peers r s s'" "polite_snoopers peers" "polite_memory regular peers"
    and "xbar_wf (fst s)"
  shows "xbar_wf (fst s') \<and> keeps_waiting r (fst s) (fst s')"
  using assms(1,4)
proof (induction rule: xbar_traffic.induct)
  case (none s)
  then show ?case by (simp add: keeps_waiting_same)
next
  case (more s s' lbl s'')
  then show ?case
    using step_wf[OF more(2) assms(2,3)] step_keeps_waiting[OF more(2) assms(2,3)]
    by (blast intro: keeps_waiting_trans)
qed

lemma route_outstanding: "v_route V sink pkt src x = Inr x' \<Longrightarrow> outstandingSnoop x' = outstandingSnoop x"
  using route_core[of sink pkt src x x'] core_eqD(7)[of x'] by fastforce

lemma answer_outstanding:
  assumes "answer_request V clk True direct d sink pkt src x = Inr (pkt', x')"
  shows "outstandingSnoop x' = outstandingSnoop x"
  using assms
proof (cases rule: answer_requestE)
  case (1 dir df port x1)
  have "outstandingSnoop x1 = outstandingSnoop x"
    using 1(1) by (auto simp: deferred_clean_def Let_def dest!: route_outstanding split: if_splits option.splits)
  with 1(2) show ?thesis by (simp add: same_tables_def)
qed

text \<open>When the crossbar starts to wait for a snoop response, it knows where the answer goes.\<close>

lemma request_starts_waiting:
  assumes "xbar_recvTimingReq V peers clk pkt src x e = Inr (b, pkt', x', e')" "xbar_wf x"
    and "polite_snoopers peers" "polite_memory regular peers" "admissible regular x pkt"
    and "req_ptr (req pkt) \<notin> set (outstandingSnoop x)" "req_ptr (req pkt) \<in> set (outstandingSnoop x')"
  shows "route_of x' (req_ptr (req pkt)) = Some src"
  using assms(1-5)
proof (cases rule: request_effect)
  case refused
  with assms(6,7) show ?thesis by (simp add: same_tables_def)
next
  case (accepted xa xb pk pk1 sink direct mem d)
  let ?r = "req_ptr (req pkt)"
  have o: "?r \<in> set (outstandingSnoop xb)" "?r \<notin> set (outstandingSnoop xa)"
    using answer_outstanding[OF accepted(4)] assms(6,7) accepted(2) by (simp_all add: same_tables_def)
  have "\<not> isExpressSnoop pkt \<and> cacheResponding pk"
  proof (rule ccontr)
    assume n: "\<not> ?thesis"
    have "outstandingSnoop xb = outstandingSnoop xa"
    proof (cases "isExpressSnoop pkt")
      case False
      with n accepted(3) obtain er xc l where "account_request V False er sink pk1 src xa = Inr xc" "xb = set_creq mem l xc"
        by (auto simp: accounted_def)
      then show ?thesis by (auto simp: account_request_def dest!: route_outstanding split: if_splits)
    qed (use accepted(3) in \<open>simp add: accounted_def\<close>)
    with o show False by simp
  qed
  with accepted(10) have "route_of xb ?r = Some src" by blast
  with answer_keeps_waiting[OF accepted(4,6), of ?r] o(1) show ?thesis by (simp add: keeps_waiting_def)
qed

lemma snoop_response_returns:
  assumes wf: "xbar_wf x" and polite: "polite_snoopers peers" "polite_memory regular peers"
    and req: "xbar_recvTimingReq V peers clk pkt src x e = Inr (b0, pkt', x1, e1)" "admissible regular x pkt"
    and wait: "req_ptr (req pkt) \<notin> set (outstandingSnoop x)" "req_ptr (req pkt) \<in> set (outstandingSnoop x1)"
    and tr: "xbar_traffic V regular peers (req_ptr (req pkt)) (x1, e1) (x2, e2)"
    and rsp: "coh_recvTimingSnoopResp peers clk' rsp p x2 e2 = Inr (b, rsp', x3, e3)"
      "req_ptr (req rsp) = req_ptr (req pkt)"
  shows "if b then \<exists>d t. csched_resps x3 = csched_resps x2 @ [(src, rsp', t)] \<and> rsp' = rsp\<lparr> headerDelay := 0, payloadDelay := d \<rparr>
      \<and> route_of x3 (req_ptr (req pkt)) = None \<and> req_ptr (req pkt) \<notin> set (outstandingSnoop x3)
    else csched_resps x3 = csched_resps x2 \<and> route_of x3 (req_ptr (req pkt)) = Some src
      \<and> req_ptr (req pkt) \<in> set (outstandingSnoop x3)
      \<and> snoopRespPort x2 p \<in> set (waitingForLayer (crespLayers x3 ! nat src))"
proof -
  let ?r = "req_ptr (req pkt)"
  have w1: "xbar_wf x1" using request_wf[OF req(1) wf polite req(2)] .
  have r1: "route_of x1 ?r = Some src" by (rule request_starts_waiting[OF req(1) wf polite req(2) wait])
  have "keeps_waiting ?r x1 x2" using traffic_keeps_waiting[OF tr polite] w1 by simp
  with r1 wait(2) have r2: "route_of x2 ?r = Some src" "?r \<in> set (outstandingSnoop x2)"
    by (auto simp: keeps_waiting_def)
  from rsp r2 obtain "respond_snoop_resp clk' rsp p src x2 = Inr (b, rsp', x3)"
    by (auto simp: coh_recvTimingSnoopResp_def split: if_splits)
  then show ?thesis
  proof (cases rule: respond_snoop_respE)
    case (busy l)
    from busy(3) have "waitingForLayer l = waitingForLayer (crespLayers x2 ! nat src) @ [snoopRespPort x2 p]"
      by (auto simp: tryTiming_def split: if_splits)
    with busy r2 show ?thesis by (simp add: set_cresp_def route_of_def)
  next
    case (sent l sf pkt1)
    then obtain h d where "pkt1 = rsp\<lparr> headerDelay := h, payloadDelay := d \<rparr>" by blast
    with sent have "rsp' = rsp\<lparr> headerDelay := 0, payloadDelay := d \<rparr>" by simp
    moreover have "\<exists>t. csched_resps x3 = csched_resps x2 @ [(src, rsp', t)]" "route_of x3 ?r = None"
      "?r \<notin> set (outstandingSnoop x3)"
      using sent rsp(2) by (auto simp: set_cresp_def sched_response_def)
    ultimately show ?thesis using sent(1) by auto
  qed
qed

end

end
