(* ===== verification/DeviceXBar.thy ===== *)
theory DeviceXBar
  imports CoherentXBarTraffic DcohDevice
begin

text \<open>
  The crossbar inside the CXL device (\<^verbatim>\<open>dev/cxl/TestDev/CXLXBar.cc\<close>, \<^verbatim>\<open>CXLXBar.hh\<close>). It is a coherent
  crossbar whose CPU-side port 1 leads to the processor of the device. An access of the processor
  to the memory of the device first asks the device for the bias of the page. In device bias it is
  handled as in any crossbar; in host bias it is sent to the host as a coherence check, and handled
  when the device sends it back.

  The class redefines \<open>recvTimingResp\<close> and \<open>recvTimingSnoopResp\<close> with the same code, but its ports
  call those of the base class, which are not virtual; so these operations are the ones of theory
  \<open>CoherentXBar\<close>. The list of pending packets is never used. A message that the atomic bias check
  deletes stays in the request of the packet as a pointer, as in the code.

  The question for the bias is a parameter \<open>sendBiasAtomic\<close>: by memory-side port, address asked,
  address of the access, current mode and direction it gives a latency and the mode. The device of
  theory \<open>DcohDevice\<close> is an instance.
\<close>

type_synonym 'e bias_port = "PortID \<Rightarrow> addr \<Rightarrow> addr \<Rightarrow> int \<Rightarrow> bool \<Rightarrow> 'e \<Rightarrow> (u64 \<times> int \<times> 'e) outcome"

section \<open>Routes\<close>

text \<open>A bias check got its route when it was first sent; the answer to a CXL.cache response message
  gets one only when a cache has taken it over.\<close>

definition device_stores :: "bool \<Rightarrow> Packet \<Rightarrow> bool" where
  "device_stores sink_packet pkt =
    (cxl_packet_type (req pkt) \<noteq> HostBiasCheck \<and> cxl_packet_type (req pkt) \<noteq> CXLcacheH2DResp
     \<or> sink_packet \<and> cxl_packet_type (req pkt) = CXLcacheH2DResp)"

definition device_route ::
  "bool \<Rightarrow> Packet \<Rightarrow> PortID \<Rightarrow> 'z CoherentXBar_scheme \<Rightarrow> 'z CoherentXBar_scheme outcome" where
  "device_route sink_packet pkt src x =
    (if device_stores sink_packet pkt then store_route pkt src x else Inr x)"

definition device_variant :: "'z CoherentXBar_scheme xvariant" where
  "device_variant = \<lparr> v_findPort = base_findPort, v_snoops = (\<lambda>_. True),
     v_route = device_route, v_checks = device_stores, v_response = (\<lambda>_. Inr), v_atomic = (\<lambda>_. Inr) \<rparr>"

definition device_recvTimingReq ::
  "'e xpeers \<Rightarrow> Clock \<Rightarrow> Packet \<Rightarrow> PortID \<Rightarrow> 'z CoherentXBar_scheme \<Rightarrow> 'e
    \<Rightarrow> (bool \<times> Packet \<times> 'z CoherentXBar_scheme \<times> 'e) outcome" where
  "device_recvTimingReq = xbar_recvTimingReq device_variant"

section \<open>The bias of a page\<close>

definition is_local :: "addr \<Rightarrow> bool" where
  "is_local a = (a \<ge> 0x80000000 \<and> a < 0xA0000000)"

definition cxldev :: AddrRange where
  "cxldev = RangeSize 0x15000000 0x40000"

definition CheckBias ::
  "'e bias_port \<Rightarrow> Packet \<Rightarrow> addr \<Rightarrow> int \<Rightarrow> 'z CoherentXBar_scheme \<Rightarrow> 'e
    \<Rightarrow> (u64 \<times> int \<times> 'z CoherentXBar_scheme \<times> 'e) outcome" where
  "CheckBias sendBiasAtomic pkt originAddr bias_mode x e =
    rbind (base_findPort pkt x) (\<lambda>(mem, _, x1).
    rbind (getAddr pkt) (\<lambda>destAddr.
    rbind (at_port (creqLayers x1) mem) (\<lambda>_.
    rbind (sendBiasAtomic mem destAddr originAddr bias_mode False e) (\<lambda>(latency, mode, e1).
      Inr (latency, mode, x1, e1)))))"

text \<open>The packet carries the address of the device while it asks.\<close>

definition ask_bias ::
  "'e bias_port \<Rightarrow> Packet \<Rightarrow> 'z CoherentXBar_scheme \<Rightarrow> 'e
    \<Rightarrow> (u64 \<times> int \<times> Packet \<times> 'z CoherentXBar_scheme \<times> 'e) outcome" where
  "ask_bias sendBiasAtomic pkt x e =
    rbind (getAddr pkt) (\<lambda>originAddr.
    rbind (setAddr 0x15000000 pkt) (\<lambda>pkt1.
    rbind (CheckBias sendBiasAtomic pkt1 originAddr 0 x e) (\<lambda>(latency, mode, x1, e1).
    rbind (setAddr originAddr pkt1) (\<lambda>pkt2. Inr (latency, mode, pkt2, x1, e1)))))"

definition mark_bias_check :: "addr \<Rightarrow> Packet \<Rightarrow> Packet" where
  "mark_bias_check a = upd_req (\<lambda>r. r\<lparr> coherent_check_dest := a, cxl_packet_type := HostBiasCheck \<rparr>)"

section \<open>Timing requests\<close>

text \<open>The coherence check leaves without arbitration.\<close>

definition send_bias_check ::
  "'e xpeers \<Rightarrow> Packet \<Rightarrow> PortID \<Rightarrow> 'z CoherentXBar_scheme \<Rightarrow> 'e
    \<Rightarrow> (bool \<times> Packet \<times> 'z CoherentXBar_scheme \<times> 'e) outcome" where
  "send_bias_check peers pkt p_no x e =
    rbind (getAddr pkt) (\<lambda>a.
    let pkt1 = mark_bias_check a pkt in
    rbind (store_route pkt1 p_no x) (\<lambda>x1.
    rbind (findPort cxldev (cbase x1)) (\<lambda>(mem, b).
    rbind (at_port (creqLayers x1) mem) (\<lambda>_.
    rbind (sendTimingReq peers mem pkt1 e) (\<lambda>(success, pkt2, e1).
      Inr (success, pkt2, x1\<lparr> cbase := b \<rparr>, e1))))))"

definition dev_recvTimingReq ::
  "'e bias_port \<Rightarrow> 'e xpeers \<Rightarrow> Clock \<Rightarrow> Packet \<Rightarrow> PortID \<Rightarrow> 'z CoherentXBar_scheme \<Rightarrow> 'e
    \<Rightarrow> (bool \<times> Packet \<times> 'z CoherentXBar_scheme \<times> 'e) outcome" where
  "dev_recvTimingReq sendBiasAtomic peers clk pkt p_no x e =
    (if p_no \<noteq> 1 then
       if cxl_packet_type (req pkt) = HostBiasCheck
       then device_recvTimingReq peers clk (if \<not> cacheResponding pkt then clearExpressSnoop pkt else pkt) 1 x e
       else device_recvTimingReq peers clk pkt p_no x e
     else
       rbind (getAddr pkt) (\<lambda>destAddr.
         if is_local destAddr then
           rbind (ask_bias sendBiasAtomic pkt x e) (\<lambda>(_, check_bias, pkt1, x1, e1).
             if check_bias = 1 then send_bias_check peers pkt1 p_no x1 e1
             else if check_bias = 2 then device_recvTimingReq peers clk pkt1 p_no x1 e1
             else Inl (Panic ''failed Bias mode check!''))
         else device_recvTimingReq peers clk pkt p_no x e))"

section \<open>Atomic accesses\<close>

text \<open>A CXL.cache request of the host is shown to every cache of the device; the answer stays in the
  packet.\<close>

fun snoop_h2d ::
  "'e xpeers \<Rightarrow> Command \<Rightarrow> CpuSidePort list \<Rightarrow> Command \<times> u64 \<Rightarrow> Packet \<Rightarrow> 'z CoherentXBar_scheme \<Rightarrow> 'e
    \<Rightarrow> ((Command \<times> u64) \<times> Packet \<times> 'z CoherentXBar_scheme \<times> 'e) outcome" where
  "snoop_h2d peers orig_cmd [] res pkt x e = Inr (res, pkt, x, e)"
| "snoop_h2d peers orig_cmd (p # ps) res pkt x e =
     rbind (sendAtomicSnoop peers (cp_id p) pkt e) (\<lambda>(latency, pkt1, e1).
       let x1 = x\<lparr> gh_snooped := gh_snooped x @ [cp_id p] \<rparr> in
       if isResponse (cmd pkt1) then
         rbind (assert_that (cmd pkt1 \<noteq> orig_cmd) ''pkt->cmd != orig_cmd'') (\<lambda>_.
         rbind (assert_that (cacheResponding pkt1) ''pkt->cacheResponding()'') (\<lambda>_.
         rbind (assert_that (fst res = InvalidCmd) ''snoop_response_cmd == MemCmd::InvalidCmd'') (\<lambda>_.
           snoop_h2d peers orig_cmd ps (cmd pkt1, latency) pkt1 x1 e1)))
       else snoop_h2d peers orig_cmd ps res pkt1 x1 e1)"

text \<open>For every other packet \<open>CXLXBar::forwardAtomic\<close> repeats the code of the base class.\<close>

definition dev_snoop_request_atomic ::
  "'e xpeers \<Rightarrow> Clock \<Rightarrow> Packet \<Rightarrow> PortID \<Rightarrow> 'z CoherentXBar_scheme \<Rightarrow> 'e
    \<Rightarrow> ((Command \<times> u64) \<times> Packet \<times> 'z CoherentXBar_scheme \<times> 'e) outcome" where
  "dev_snoop_request_atomic peers clk pkt src x e =
    (if cxl_packet_type (req pkt) = CXLcacheH2DReq
     then snoop_h2d peers (cmd pkt) (snoopPorts x) (InvalidCmd, 0) pkt x e
     else snoop_request_atomic peers clk pkt src x e)"

text \<open>The bias check of an atomic access: its latency, the packet, the crossbar and the world. In host
  bias the packet visits the host through memory-side port 0.\<close>

definition atomic_bias_check ::
  "'e bias_port \<Rightarrow> 'e xpeers \<Rightarrow> Packet \<Rightarrow> PortID \<Rightarrow> 'z CoherentXBar_scheme \<Rightarrow> 'e
    \<Rightarrow> (u64 \<times> Packet \<times> 'z CoherentXBar_scheme \<times> 'e) outcome" where
  "atomic_bias_check sendBiasAtomic peers pkt src x e =
    (if src \<noteq> 1 then Inr (0, pkt, x, e)
     else
       rbind (getAddr pkt) (\<lambda>destAddr.
         if is_local destAddr then
           rbind (ask_bias sendBiasAtomic pkt x e) (\<lambda>(latency, check_bias, pkt1, x1, e1).
             if check_bias = 1 then
               rbind (getAddr pkt1) (\<lambda>a.
               rbind (at_port (creqLayers x1) 0) (\<lambda>_.
               rbind (sendAtomic peers 0 (mark_bias_check a pkt1) e1) (\<lambda>(_, pkt2, e2).
                 Inr (latency, pkt2, x1, e2))))
             else if check_bias = 2 then Inr (latency, pkt1, x1, e1)
             else Inl (Panic ''failed Bias mode check!''))
         else Inr (0, pkt, x, e)))"

definition dev_recvAtomic ::
  "'e bias_port \<Rightarrow> 'e xpeers \<Rightarrow> Clock \<Rightarrow> Packet \<Rightarrow> PortID \<Rightarrow> 'z CoherentXBar_scheme \<Rightarrow> 'e
    \<Rightarrow> (u64 \<times> Packet \<times> 'z CoherentXBar_scheme \<times> 'e) outcome" where
  "dev_recvAtomic sendBiasAtomic peers clk pkt0 src x0 e0 =
    rbind (atomic_bias_check sendBiasAtomic peers pkt0 src x0 e0) (\<lambda>(bias_latency, pkt, x, e).
    let dest_here = isDestination x pkt;
        snoop_caches = (\<not> bypassCaches x \<and> cmd pkt \<noteq> WriteClean) in
    rbind (if snoop_caches then dev_snoop_request_atomic peers clk pkt src x e
           else Inr ((InvalidCmd, 0), pkt, x, e)) (\<lambda>((snoop_cmd, snoop_lat), pkt1, x1, e1).
    if snoop_caches \<and> cxl_packet_type (req pkt1) = CXLcacheH2DReq then Inr (snoop_lat, pkt1, x1, e1)
    else
      rbind (sinkPacket x1 pkt1) (\<lambda>sink_packet.
      rbind (base_findPort pkt1 x1) (\<lambda>(mem, pkt2, x2).
      rbind (atomic_onwards device_variant peers dest_here sink_packet mem pkt2 x2 e1) (\<lambda>(latency, pkt3, x3, e2).
      rbind (if isResponse (cmd pkt3) then xbar_update_response pkt3 src x3 else Inr x3) (\<lambda>x4.
      rbind (assert_that (snoop_cmd \<noteq> InvalidCmd \<longrightarrow> \<not> isResponse (cmd pkt3)) ''!pkt->isResponse()'') (\<lambda>_.
      let pkt4 = (if snoop_cmd \<noteq> InvalidCmd then pkt3\<lparr> cmd := snoop_cmd \<rparr> else pkt3);
          lat4 = (if snoop_cmd \<noteq> InvalidCmd then snoop_lat
                  else if \<not> sink_packet \<and> forwardPacket x2 pkt2 then latency else bias_latency) in
      rbind (atomic_maintenance pkt4 x4) (\<lambda>x5.
        Inr (lat4, pkt4\<lparr> payloadDelay := ucast lat4 \<rparr>, x5, e2)))))))))"

section \<open>The contract of a variant\<close>

definition device_regular :: "Packet \<Rightarrow> bool" where
  "device_regular pkt \<longleftrightarrow> cxl_packet_type (req pkt) \<noteq> HostBiasCheck \<and> cxl_packet_type (req pkt) \<noteq> CXLcacheH2DResp"

interpretation device: xbar_frame "device_variant :: 'z CoherentXBar_scheme xvariant" device_regular
proof unfold_locales
  fix pkt pkt' :: Packet and x x' :: "'z CoherentXBar_scheme" and p :: PortID
  assume "v_findPort device_variant pkt x = Inr (p, pkt', x')"
  then have f: "base_findPort pkt x = Inr (p, pkt', x')" by (simp add: device_variant_def)
  show "\<exists>b. core x' = (core x)\<lparr> cbase := b \<rparr>" using base_findPort_frame(2)[OF f] by auto
  show "keeps_but_type pkt pkt' \<and> (device_regular pkt \<longrightarrow> device_regular pkt')"
    using base_findPort_frame(1)[OF f] by simp
qed (auto simp: device_variant_def device_regular_def device_route_def split: if_splits)

end
