(* ===== verification/HostXBar.thy ===== *)
theory HostXBar
  imports CoherentXBarTraffic
begin

text \<open>
  The host crossbar of the CXL system (\<^verbatim>\<open>mem/cxl_host_xbar.cc\<close>, \<^verbatim>\<open>mem/cxl_host_xbar.hh\<close>). The crossbar in
  the centre of the host (\<open>center_xbar\<close>) keeps a set of addresses that a CXL device may have
  cached, the presence filter \<open>fake_snoop_filter\<close>. A host request to such an address is sent to
  the root complex as a CXL.cache request to the device instead of to memory.

  Everything the host crossbar shares with the coherent crossbar is in theory \<open>CoherentXBar\<close>; here
  are the operations that differ.
\<close>

record CXLHostXBar = CoherentXBar +
  center_xbar :: bool
  fake_snoop_filter :: "addr list"

definition new_CXLHostXBar :: "bool \<Rightarrow> XBarParams \<Rightarrow> CXLHostXBar" where
  "new_CXLHostXBar center p =
    CoherentXBar.CoherentXBar.extend (new_CoherentXBar p) (CXLHostXBar.fields center [])"

section \<open>The presence filter\<close>

text \<open>The addresses from here on belong to the CXL device or may be cached there.\<close>

definition cxl_base :: addr where "cxl_base = 0xa0000000"

definition setFakeSF :: "Packet \<Rightarrow> CXLHostXBar \<Rightarrow> CXLHostXBar outcome" where
  "setFakeSF pkt x =
    rbind (getAddr pkt) (\<lambda>a.
    rbind (assert_that (a \<ge> cxl_base) ''pkt->getAddr() >= 0xa0000000'') (\<lambda>_.
      Inr (x\<lparr> fake_snoop_filter := List.insert a (fake_snoop_filter x) \<rparr>)))"

definition getFakeSF :: "Packet \<Rightarrow> CXLHostXBar \<Rightarrow> bool outcome" where
  "getFakeSF pkt x =
    rbind (getAddr pkt) (\<lambda>a.
    rbind (assert_that (a \<ge> cxl_base) ''pkt->getAddr() >= 0xa0000000'') (\<lambda>_.
      Inr (a \<in> set (fake_snoop_filter x))))"

definition eraseFakeSF :: "Packet \<Rightarrow> CXLHostXBar \<Rightarrow> CXLHostXBar outcome" where
  "eraseFakeSF pkt x =
    rbind (getAddr pkt) (\<lambda>a.
    rbind (assert_that (a \<ge> cxl_base) ''pkt->getAddr() >= 0xa0000000'') (\<lambda>_.
      if a \<notin> set (fake_snoop_filter x) then Inl (Panic ''erase addr failed in fake snoop filter'')
      else Inr (x\<lparr> fake_snoop_filter := removeAll a (fake_snoop_filter x) \<rparr>)))"

definition rootcomplex :: AddrRange where
  "rootcomplex = RangeSize 0x15000000 0x40000"

definition set_packet_type :: "CXLPacketType \<Rightarrow> Packet \<Rightarrow> Packet" where
  "set_packet_type t = upd_req (\<lambda>r. r\<lparr> cxl_packet_type := t \<rparr>)"

definition host_findPort ::
  "Packet \<Rightarrow> CXLHostXBar \<Rightarrow> (PortID \<times> Packet \<times> CXLHostXBar) outcome" where
  "host_findPort pkt x =
    rbind (if center_xbar x then getAddr pkt else Inr 0) (\<lambda>a.
      if center_xbar x \<and> a \<ge> cxl_base \<and> cxl_packet_type (req pkt) = DefaultPacket then
        rbind (getFakeSF pkt x) (\<lambda>present.
          if present then
            let pkt1 = set_packet_type CXLcacheH2DReq pkt in
            rbind (if cmd pkt1 = ReadSharedReq then Inr x
                   else if cmd pkt1 = ReadExReq then eraseFakeSF pkt1 x
                   else Inl (Panic ''Unexpected cxl access request'')) (\<lambda>x1.
            rbind (findPort rootcomplex (cbase x1)) (\<lambda>(p, b).
              Inr (p, pkt1, x1\<lparr> cbase := b \<rparr>)))
          else base_findPort pkt x)
      else base_findPort pkt x)"

section \<open>Routes and responses\<close>

text \<open>The answer to a CXL.cache response message gets a route only outside the centre. The route of a
  bias check that is sent on is forgotten at once.\<close>

definition host_route :: "bool \<Rightarrow> Packet \<Rightarrow> PortID \<Rightarrow> CXLHostXBar \<Rightarrow> CXLHostXBar outcome" where
  "host_route sink_packet pkt src x =
    (if cxl_packet_type (req pkt) \<noteq> CXLcacheH2DResp then
       rbind (store_route pkt src x) (\<lambda>x1.
         Inr (if cxl_packet_type (req pkt) = HostBiasCheck \<and> \<not> sink_packet
              then del_route (req_ptr (req pkt)) x1 else x1))
     else if \<not> center_xbar x then store_route pkt src x
     else Inr x)"

definition host_response :: "Packet \<Rightarrow> CXLHostXBar \<Rightarrow> CXLHostXBar outcome" where
  "host_response pkt x =
    (if center_xbar x \<and> cxl_packet_type (req pkt) \<noteq> DefaultPacket then
       rbind (getAddr pkt) (\<lambda>a.
         if a \<ge> cxl_base \<and> cxl_packet_type (req pkt) \<noteq> CXLcacheH2DResp then setFakeSF pkt x
         else Inr x)
     else Inr x)"

definition host_atomic :: "Packet \<Rightarrow> CXLHostXBar \<Rightarrow> CXLHostXBar outcome" where
  "host_atomic pkt x =
    (if center_xbar x \<and> cxl_packet_type (req pkt) \<noteq> DefaultPacket then
       rbind (getAddr pkt) (\<lambda>a. if a \<ge> cxl_base then setFakeSF pkt x else Inr x)
     else Inr x)"

definition host_variant :: "CXLHostXBar xvariant" where
  "host_variant = \<lparr> v_findPort = host_findPort,
     v_snoops = (\<lambda>pkt. cxl_packet_type (req pkt) \<noteq> CXLcacheH2DResp),
     v_route = host_route, v_checks = (\<lambda>_ _. True), v_response = host_response, v_atomic = host_atomic \<rparr>"

section \<open>The operations\<close>

definition host_recvTimingReq ::
  "'e xpeers \<Rightarrow> Clock \<Rightarrow> Packet \<Rightarrow> PortID \<Rightarrow> CXLHostXBar \<Rightarrow> 'e
    \<Rightarrow> (bool \<times> Packet \<times> CXLHostXBar \<times> 'e) outcome" where
  "host_recvTimingReq = xbar_recvTimingReq host_variant"

definition host_recvTimingResp ::
  "Clock \<Rightarrow> Packet \<Rightarrow> PortID \<Rightarrow> CXLHostXBar \<Rightarrow> (bool \<times> CXLHostXBar) outcome" where
  "host_recvTimingResp = coh_recvTimingResp host_variant"

definition host_recvTimingSnoopReq ::
  "'e xpeers \<Rightarrow> Clock \<Rightarrow> Packet \<Rightarrow> PortID \<Rightarrow> CXLHostXBar \<Rightarrow> 'e
    \<Rightarrow> (Packet \<times> CXLHostXBar \<times> 'e) outcome" where
  "host_recvTimingSnoopReq = coh_recvTimingSnoopReq host_variant"

definition host_recvTimingSnoopResp ::
  "'e xpeers \<Rightarrow> Clock \<Rightarrow> Packet \<Rightarrow> PortID \<Rightarrow> CXLHostXBar \<Rightarrow> 'e
    \<Rightarrow> (bool \<times> Packet \<times> CXLHostXBar \<times> 'e) outcome" where
  "host_recvTimingSnoopResp = coh_recvTimingSnoopResp"

definition host_recvAtomic ::
  "'e xpeers \<Rightarrow> Clock \<Rightarrow> Packet \<Rightarrow> PortID \<Rightarrow> CXLHostXBar \<Rightarrow> 'e
    \<Rightarrow> (u64 \<times> Packet \<times> CXLHostXBar \<times> 'e) outcome" where
  "host_recvAtomic = coh_recvAtomic host_variant"

definition host_recvFunctional ::
  "'e xpeers \<Rightarrow> Packet \<Rightarrow> PortID \<Rightarrow> CXLHostXBar \<Rightarrow> 'e \<Rightarrow> (Packet \<times> CXLHostXBar \<times> 'e) outcome" where
  "host_recvFunctional = coh_recvFunctional host_variant"

section \<open>The contract of a variant\<close>

text \<open>Host bias checks and CXL.cache responses do not always get a route; all other requests do.\<close>

definition host_regular :: "Packet \<Rightarrow> bool" where
  "host_regular pkt \<longleftrightarrow> cxl_packet_type (req pkt) \<noteq> HostBiasCheck \<and> cxl_packet_type (req pkt) \<noteq> CXLcacheH2DResp"

lemma core_filter [simp]: "core (x\<lparr> fake_snoop_filter := f \<rparr>) = core x"
  by (simp add: core_def CoherentXBar.CoherentXBar.truncate_def)

lemma setFakeSF_frame: "setFakeSF pkt x = Inr x' \<Longrightarrow> core x' = core x"
  by (auto simp: setFakeSF_def split: if_splits)

lemma eraseFakeSF_frame: "eraseFakeSF pkt x = Inr x' \<Longrightarrow> core x' = core x"
  by (auto simp: eraseFakeSF_def split: if_splits)

lemma host_findPortE:
  assumes "host_findPort pkt x = Inr (p, pkt', x')"
  obtains (memory) b where "pkt' = pkt" "x' = x\<lparr> cbase := b \<rparr>" "base_findPort pkt x = Inr (p, pkt, x')"
  | (device) x1 b where "center_xbar x" "p_addr pkt \<ge> cxl_base" "p_addr pkt \<in> set (fake_snoop_filter x)"
      "cxl_packet_type (req pkt) = DefaultPacket" "pkt' = set_packet_type CXLcacheH2DReq pkt"
      "cmd pkt = ReadSharedReq \<and> x1 = x \<or>
       cmd pkt = ReadExReq \<and> x1 = x\<lparr> fake_snoop_filter := removeAll (p_addr pkt) (fake_snoop_filter x) \<rparr>"
      "findPort rootcomplex (cbase x) = Inr (p, b)" "x' = x1\<lparr> cbase := b \<rparr>"
proof (cases "center_xbar x \<and> valid_addr pkt \<and> p_addr pkt \<ge> cxl_base \<and> cxl_packet_type (req pkt) = DefaultPacket
    \<and> p_addr pkt \<in> set (fake_snoop_filter x)")
  case True
  let ?p = "set_packet_type CXLcacheH2DReq pkt"
  have f: "valid_addr ?p" "p_addr ?p = p_addr pkt" "cmd ?p = cmd pkt"
    by (simp_all add: set_packet_type_def True)
  from assms True obtain x1 b where
    c: "(if cmd ?p = ReadSharedReq then Inr x else if cmd ?p = ReadExReq then eraseFakeSF ?p x
         else Inl (Panic ''Unexpected cxl access request'')) = Inr x1"
    "findPort rootcomplex (cbase x1) = Inr (p, b)" "pkt' = ?p" "x' = x1\<lparr> cbase := b \<rparr>"
    by (auto simp: host_findPort_def getAddr_eq getFakeSF_def Let_def)
  from c(1) f True have x1: "cmd pkt = ReadSharedReq \<and> x1 = x \<or>
       cmd pkt = ReadExReq \<and> x1 = x\<lparr> fake_snoop_filter := removeAll (p_addr pkt) (fake_snoop_filter x) \<rparr>"
    by (auto simp: eraseFakeSF_def getAddr_eq split: if_splits)
  then have "cbase x1 = cbase x" by auto
  with c x1 True show ?thesis by (intro device[of x1 b]) auto
next
  case False
  then have "base_findPort pkt x = Inr (p, pkt', x')"
    using assms
    by (auto simp: host_findPort_def getFakeSF_def getAddr_def Let_def split: if_splits)
  with base_findPort_frame[OF this] show ?thesis by (metis memory)
qed

lemma delete_absent_route: "route_of x r = None \<Longrightarrow> del_route r (set_route r p x) = x"
  by (simp add: route_of_def del_route_def set_route_def AList.delete_update_same AList.delete_id map_of_eq_None_iff)

interpretation host: xbar_variant host_variant host_regular
proof unfold_locales
  fix pkt pkt' :: Packet and x x' :: CXLHostXBar and p :: PortID
  assume "v_findPort host_variant pkt x = Inr (p, pkt', x')"
  then have f: "host_findPort pkt x = Inr (p, pkt', x')" by (simp add: host_variant_def)
  then show "\<exists>b. core x' = (core x)\<lparr> cbase := b \<rparr>" by (cases rule: host_findPortE) auto
  from f show "keeps_but_type pkt pkt' \<and> (host_regular pkt \<longrightarrow> host_regular pkt')"
    by (cases rule: host_findPortE)
      (auto simp: keeps_but_type_def set_packet_type_def host_regular_def)
next
  fix sink and pkt :: Packet and src and x x' :: CXLHostXBar
  assume r: "v_route host_variant sink pkt src x = Inr x'"
  then show "core x' = core x \<or> route_of x (req_ptr (req pkt)) = None \<and> core x' = core (set_route (req_ptr (req pkt)) src x)"
    by (auto simp: host_variant_def host_route_def delete_absent_route split: if_splits)
  assume "host_regular pkt \<or> sink \<and> v_snoops host_variant pkt"
  with r show "route_of x (req_ptr (req pkt)) = None \<and> core x' = core (set_route (req_ptr (req pkt)) src x)"
    by (auto simp: host_variant_def host_route_def host_regular_def split: if_splits)
qed (auto simp: host_variant_def host_response_def host_atomic_def host_regular_def
    dest: setFakeSF_frame split: if_splits)

end
