(* ===== verification/HostXBarProps.thy ===== *)
theory HostXBarProps
  imports HostXBar
begin

text \<open>
  Properties of the host crossbar: its states stay well formed, the answer of a snooped cache
  returns to the port that asked, and the presence filter sends host requests to the device.
\<close>

section \<open>Well-formed states\<close>

lemma new_host_wf: "xbar_wf (new_CXLHostXBar center p)"
proof -
  have "core (new_CXLHostXBar center p) = new_CoherentXBar p"
    by (simp add: new_CXLHostXBar_def core_def CoherentXBar.CoherentXBar.truncate_def
        CoherentXBar.CoherentXBar.extend_def CXLHostXBar.fields_def)
  then have "same_tables (new_CoherentXBar p) (new_CXLHostXBar center p)"
    by (rule same_tables_core) simp
  then show ?thesis using new_xbar_wf by (simp add: same_tables_wf)
qed

text \<open>C13: The host crossbar keeps its tables well formed under admissible traffic. Start from a constructed
  and initialised crossbar and run any sequence of timing, atomic and functional requests,
  responses, snoops, snoop responses and range changes, between which the layers may change in any
  way (releases, retries). Then the routing table and the tables of outstanding snoops and clean
  operations have no duplicate keys, every route names an existing port, the outstanding snoops
  stay within their limit, every request whose answer is owed by a cache or deferred by the
  crossbar has a route to an existing CPU-side port, and none is owed by both. The conditions:
  bias checks and CXL.cache response messages come as timing requests only to a crossbar at the
  point of coherency and are not clean operations (elsewhere the code drops the route of a bias
  check that it sends on, as the sample after \<open>snoop_response_answers_request\<close> shows); the memory
  does not answer a request that a cache or the crossbar has undertaken to answer, no snoop
  response comes for a deferred clean operation, and snoops come from existing ports; no neighbour
  exchanges the request, address or command of a packet, other than by answering it.\<close>

theorem host_states_well_formed:
  assumes "xbar_init (new_CXLHostXBar center p) = Inr x0"
    and "polite_snoopers peers" "polite_memory host_regular peers"
    and "xbar_reachable host_variant host_regular peers x0 (x, e)"
  shows "xbar_wf x"
  using host.reachable_wf[OF assms(4,2,3) init_wf[OF new_host_wf assms(1)]] by simp

text \<open>A crossbar with three CPU-side ports, of which ports 0 and 2 lead to caches, and two memory-side
  ports. The cache at port 2 answers every snoop; the memory takes everything.\<close>

definition sample_params :: XBarParams where
  "sample_params = \<lparr> mem_side_ports_count = 2, has_default = False, use_default_range = False,
     snooping = [True, False, True], par_snoop_filter = None, par_snoop_response_latency = 1,
     par_max_outstanding_snoops = 8, par_max_routing_table_size = 8, par_point_of_coherency = True,
     par_point_of_unification = True, par_bypassCaches = False, par_frontend_latency = 1,
     par_forward_latency = 1, par_response_latency = 1, par_header_latency = 1, par_width = 16 \<rparr>"

definition answering_cache :: "unit xpeers" where
  "answering_cache = \<lparr> sendTimingReq = (\<lambda>p pkt e. Inr (True, pkt, e)), peer_tryTiming = (\<lambda>p pkt e. Inr True),
     sendTimingSnoopResp = (\<lambda>p pkt e. Inr (True, pkt, e)),
     sendTimingSnoopReq = (\<lambda>p pkt e. Inr (if p = 2 then pkt\<lparr> p_flags := flag_set (p_flags pkt) CACHE_RESPONDING \<rparr>
       else pkt, e)),
     sendAtomic = (\<lambda>p pkt e. Inr (0, pkt, e)), sendAtomicSnoop = (\<lambda>p pkt e. Inr (0, pkt, e)),
     sendFunctional = (\<lambda>p pkt e. Inr (pkt, e)), sendFunctionalSnoop = (\<lambda>p pkt e. Inr (pkt, e)),
     trySatisfyFunctional = (\<lambda>p pkt e. Inr (False, pkt, e)) \<rparr>"

lemma answering_cache_polite: "polite_snoopers answering_cache" "polite_memory R answering_cache"
  by (simp_all add: polite_snoopers_def polite_memory_def answering_cache_def keeps_identity_def valid_addr_def
      isExpressSnoop_def packet_flag_defs flag_set_other)

text \<open>The samples start from an initialised crossbar whose ports have reported their ranges: port 0 leads to
  the root complex, port 1 to memory.\<close>

definition sample_started :: "bool \<Rightarrow> CXLHostXBar" where
  "sample_started center = projr (xbar_init (new_CXLHostXBar center sample_params))"

definition sample_base1 :: BaseXBar where
  "sample_base1 = snd (projr (recvRangeChange [AddrRange2 0x10000000 0x20000000] 0 (cbase (sample_started True))))"

definition sample_base :: BaseXBar where
  "sample_base = snd (projr (recvRangeChange [AddrRange2 0x80000000 0xB0000000] 1 sample_base1))"

definition sample_host :: "bool \<Rightarrow> CXLHostXBar" where
  "sample_host center = (sample_started center)\<lparr> cbase := sample_base \<rparr>"

definition host_read :: Packet where
  "host_read = Packet_new sample_request ReadSharedReq"

text \<open>The crossbar after a step.\<close>

definition xbar_after :: "(bool \<times> Packet \<times> 'x \<times> 'e) outcome \<Rightarrow> 'x" where
  "xbar_after r = fst (snd (snd (projr r)))"

definition after_read :: "(bool \<times> Packet \<times> CXLHostXBar \<times> unit) outcome" where
  "after_read = host_recvTimingReq answering_cache sample_clock host_read 0 (sample_host True) ()"

lemma outcome_parts:
  "\<not> isl r \<Longrightarrow> r = Inr (fst (projr r), fst (snd (projr r)), xbar_after r, snd (snd (snd (projr r))))"
  by (cases r) (auto simp: xbar_after_def)

lemma sample_started_init: "xbar_init (new_CXLHostXBar center sample_params) = Inr (sample_started center)"
  by (simp add: sample_started_def xbar_init_def new_CXLHostXBar_def new_CoherentXBar_def sample_params_def
      CoherentXBar.CoherentXBar.extend_def CXLHostXBar.fields_def)

lemma sample_host_reachable:
  "xbar_reachable host_variant host_regular answering_cache (sample_started True) (sample_host True, ())"
proof -
  let ?R = "xbar_reachable host_variant host_regular answering_cache (sample_started True)"
  let ?r1 = "recvRangeChange [AddrRange2 0x10000000 0x20000000] 0 (cbase (sample_started True))"
  let ?r2 = "recvRangeChange [AddrRange2 0x80000000 0xB0000000] 1 sample_base1"
  have "\<not> isl ?r1" "\<not> isl ?r2" by code_simp+
  then have r: "?r1 = Inr (fst (projr ?r1), sample_base1)" "?r2 = Inr (fst (projr ?r2), sample_base)"
    by (simp_all add: sample_base1_def sample_base_def)
  have s1: "?R ((sample_started True)\<lparr> cbase := sample_base1 \<rparr>, ())"
    by (rule xbar_reachable.step[OF xbar_reachable.start xbar_step.range_change[OF r(1)]])
  have "?R ((sample_started True)\<lparr> cbase := sample_base1 \<rparr>\<lparr> cbase := sample_base \<rparr>, ())"
    using r(2) by (intro xbar_reachable.step[OF s1 xbar_step.range_change]) simp
  then show ?thesis by (simp add: sample_host_def)
qed

lemma after_read_eq:
  "after_read = Inr (True, fst (snd (projr after_read)), xbar_after after_read, ())"
proof -
  have "\<not> isl after_read" "fst (projr after_read)" by code_simp+
  with outcome_parts[of after_read] show ?thesis by (metis old.unit.exhaust)
qed

lemma host_read_admissible: "admissible host_regular (sample_host True) host_read"
  by (simp add: admissible_def host_regular_def host_read_def Packet_new_def sample_request_def)

theorem host_states_well_formed_witness:
  "xbar_wf (xbar_after after_read) \<and> outstandingSnoop (xbar_after after_read) = [1]
     \<and> crouteTo (xbar_after after_read) = [(1, 0)]"
proof -
  have "xbar_step host_variant host_regular answering_cache (Some (req_ptr (req host_read)))
      (sample_host True, ()) (xbar_after after_read, ())"
    using after_read_eq host_read_admissible
    by (intro xbar_step.request[of _ _ sample_clock _ 0]) (auto simp: after_read_def host_recvTimingReq_def)
  from host_states_well_formed[OF sample_started_init answering_cache_polite
      xbar_reachable.step[OF sample_host_reachable this]]
  have "xbar_wf (xbar_after after_read)" .
  moreover have "outstandingSnoop (xbar_after after_read) = [1]" "crouteTo (xbar_after after_read) = [(1, 0)]"
    by code_simp+
  ultimately show ?thesis by simp
qed

section \<open>Snoop responses\<close>

text \<open>C12: The answer of a snooped cache returns to the port that asked. Let a request be accepted by
  the host crossbar in a well-formed state such that a cache commits to answering it, let any
  admissible traffic of other requests pass, with the layers released and retried at will, and let
  the snoop response arrive. If the crossbar takes it, it is queued, unchanged but for its delays,
  as the response at the port the request came from, and the crossbar forgets the request; if the
  layer of that port is busy, nothing is lost and the snooped port waits for it. The request and
  the traffic are admissible in the sense of \<open>host_states_well_formed\<close>: bias checks and CXL.cache
  response messages come only to a crossbar at the point of coherency and are not clean operations,
  and the neighbours keep to the same conditions as there.\<close>

theorem snoop_response_answers_request:
  assumes "xbar_wf x" "polite_snoopers peers" "polite_memory host_regular peers"
    and "host_recvTimingReq peers clk pkt src x e = Inr (True, pkt', x1, e1)" "admissible host_regular x pkt"
    and "req_ptr (req pkt) \<notin> set (outstandingSnoop x)" "req_ptr (req pkt) \<in> set (outstandingSnoop x1)"
    and "xbar_traffic host_variant host_regular peers (req_ptr (req pkt)) (x1, e1) (x2, e2)"
    and "host_recvTimingSnoopResp peers clk' rsp p x2 e2 = Inr (b, rsp', x3, e3)"
    and "req_ptr (req rsp) = req_ptr (req pkt)"
  shows "if b then \<exists>d t. csched_resps x3 = csched_resps x2 @ [(src, rsp', t)] \<and> rsp' = rsp\<lparr> headerDelay := 0, payloadDelay := d \<rparr>
      \<and> route_of x3 (req_ptr (req pkt)) = None \<and> req_ptr (req pkt) \<notin> set (outstandingSnoop x3)
    else csched_resps x3 = csched_resps x2 \<and> route_of x3 (req_ptr (req pkt)) = Some src
      \<and> req_ptr (req pkt) \<in> set (outstandingSnoop x3)
      \<and> snoopRespPort x2 p \<in> set (waitingForLayer (crespLayers x3 ! nat src))"
  using host.snoop_response_returns[OF assms(1-3) assms(4)[unfolded host_recvTimingReq_def] assms(5-8)
      assms(9)[unfolded host_recvTimingSnoopResp_def] assms(10)] .

definition snoop_answer :: Packet where
  "snoop_answer = (Packet_new sample_request ReadResp)\<lparr> p_flags := VALID_ADDR OR VALID_SIZE OR CACHE_RESPONDING \<rparr>"

definition after_answer :: "(bool \<times> Packet \<times> CXLHostXBar \<times> unit) outcome" where
  "after_answer = host_recvTimingSnoopResp answering_cache sample_clock snoop_answer 2 (xbar_after after_read) ()"

theorem snoop_response_answers_request_witness:
  "\<exists>rsp' d t. csched_resps (xbar_after after_answer) = [(0, rsp', t)]
     \<and> rsp' = snoop_answer\<lparr> headerDelay := 0, payloadDelay := d \<rparr> \<and> outstandingSnoop (xbar_after after_answer) = []"
proof -
  let ?x = "sample_host True" and ?x1 = "xbar_after after_read" and ?x3 = "xbar_after after_answer"
  have wf: "xbar_wf ?x"
    using host.reachable_wf[OF sample_host_reachable answering_cache_polite init_wf[OF new_host_wf sample_started_init]]
    by simp
  have v: "\<not> isl after_answer" "fst (projr after_answer)" "outstandingSnoop ?x1 = [1]" "csched_resps ?x1 = []"
    "outstandingSnoop ?x3 = []" "outstandingSnoop ?x = []" by code_simp+
  have i: "req_ptr (req snoop_answer) = req_ptr (req host_read)" "req_ptr (req host_read) = 1" "cmd snoop_answer = ReadResp"
    by code_simp+
  have a: "after_answer = Inr (True, fst (snd (projr after_answer)), ?x3, ())"
    using outcome_parts[OF v(1)] v(2) by (metis old.unit.exhaust)
  have q: "host_recvTimingReq answering_cache sample_clock host_read 0 ?x () = Inr (True, fst (snd (projr after_read)), ?x1, ())"
    "host_recvTimingSnoopResp answering_cache sample_clock snoop_answer 2 ?x1 () = Inr (True, fst (snd (projr after_answer)), ?x3, ())"
    unfolding after_read_def[symmetric] after_answer_def[symmetric] by (rule after_read_eq a)+
  show ?thesis
    using snoop_response_answers_request[OF wf answering_cache_polite q(1) host_read_admissible _ _
        xbar_traffic.none q(2) i(1)] v i by auto
qed

text \<open>Why bias checks are admissible at the point of coherency only. In a crossbar elsewhere a cache commits to
  answering an exclusive bias check without having the line writable, so the check is sent on as
  well. It is outstanding, its route is gone, and the answer of the cache stops the simulation.\<close>

definition inner_host :: CXLHostXBar where
  "inner_host = (sample_host False)\<lparr> pointOfCoherency := False \<rparr>"

definition forwarded_check :: "(bool \<times> Packet \<times> CXLHostXBar \<times> unit) outcome" where
  "forwarded_check = host_recvTimingReq answering_cache sample_clock
     (Packet_new (sample_request\<lparr> cxl_packet_type := HostBiasCheck \<rparr>) ReadExReq) 0 inner_host ()"

lemma forwarded_bias_check_loses_route:
  "fst (projr forwarded_check) \<and> outstandingSnoop (xbar_after forwarded_check) = [1] \<and> crouteTo (xbar_after forwarded_check) = []
    \<and> host_recvTimingSnoopResp answering_cache sample_clock snoop_answer 2 (xbar_after forwarded_check) ()
      = Inl (AssertFail ''route_lookup != routeTo.end()'')"
proof -
  have r: "crouteTo (xbar_after forwarded_check) = []" "length (ccpuSidePorts (xbar_after forwarded_check)) = 3"
    by code_simp+
  then have "host_recvTimingSnoopResp answering_cache sample_clock snoop_answer 2 (xbar_after forwarded_check) ()
      = Inl (AssertFail ''route_lookup != routeTo.end()'')"
    by (simp add: host_recvTimingSnoopResp_def coh_recvTimingSnoopResp_def route_of_def at_port_def array_at_def)
  moreover have "fst (projr forwarded_check)" "outstandingSnoop (xbar_after forwarded_check) = [1]" by code_simp+
  ultimately show ?thesis using r(1) by blast
qed

end
