(* ===== verification/HostXBarFilter.thy ===== *)
theory HostXBarFilter
  imports HostXBarProps
begin

text \<open>
  The presence filter of the host crossbar in action: once a CXL device has got data at an address
  through the crossbar, the next host read of that address is sent to the device, whatever other
  traffic comes in between; and what happens to such a read when it is refused.
\<close>

section \<open>Who changes the filter\<close>

text \<open>Only the lookup of a destination and a response change the presence filter.\<close>

lemma host_route_filter: "host_route s pkt src x = Inr x' \<Longrightarrow>
  fake_snoop_filter x' = fake_snoop_filter x \<and> center_xbar x' = center_xbar x"
  by (auto simp: host_route_def set_route_def del_route_def split: if_splits)

lemma account_filter: "account_request host_variant es er s pkt src x = Inr x' \<Longrightarrow>
  fake_snoop_filter x' = fake_snoop_filter x \<and> center_xbar x' = center_xbar x"
  by (auto simp: account_request_def host_variant_def dest!: host_route_filter split: if_splits)

lemma deferred_clean_filter: "deferred_clean host_variant s pkt src x = Inr (d, df, p, x') \<Longrightarrow>
  fake_snoop_filter x' = fake_snoop_filter x \<and> center_xbar x' = center_xbar x"
  by (auto simp: deferred_clean_def host_variant_def del_route_def Let_def dest!: host_route_filter
      split: if_splits option.splits)

lemma answer_filter:
  assumes "answer_request host_variant clk True direct d s pkt src x = Inr (pkt', x')"
  shows "fake_snoop_filter x' = fake_snoop_filter x \<and> center_xbar x' = center_xbar x"
  using assms
proof (cases rule: answer_requestE)
  case (1 dir df port x1)
  have "fake_snoop_filter x1 = fake_snoop_filter x \<and> center_xbar x1 = center_xbar x"
    using 1(1) deferred_clean_filter[of s pkt src x dir df port x1] by (auto split: if_splits)
  moreover have "fake_snoop_filter x' = fake_snoop_filter x1 \<and> center_xbar x' = center_xbar x1"
  proof (cases dir)
    case True
    with 1(3) obtain rsp where "respond_directly clk (headerDelay pkt) (case df of None \<Rightarrow> pkt | Some p \<Rightarrow> p) port x1
      = Inr (rsp, x')" by auto
    then show ?thesis by (rule respond_directly_frame) simp
  qed (use 1(3) in simp)
  ultimately show ?thesis by simp
qed

lemma set_creq_filter [simp]:
  "fake_snoop_filter (set_creq p l x) = fake_snoop_filter x" "center_xbar (set_creq p l x) = center_xbar x"
  "fake_snoop_filter (set_cresp p l x) = fake_snoop_filter x" "center_xbar (set_cresp p l x) = center_xbar x"
  "fake_snoop_filter (set_csnoop p l x) = fake_snoop_filter x" "center_xbar (set_csnoop p l x) = center_xbar x"
  "fake_snoop_filter (del_route r x) = fake_snoop_filter x" "center_xbar (del_route r x) = center_xbar x"
  "fake_snoop_filter (set_route r q x) = fake_snoop_filter x" "center_xbar (set_route r q x) = center_xbar x"
  "fake_snoop_filter (sched_response clk d pkt x) = fake_snoop_filter x"
  "center_xbar (sched_response clk d pkt x) = center_xbar x"
  by (simp_all add: set_creq_def set_cresp_def set_csnoop_def del_route_def set_route_def sched_response_def)

lemma forward_request_filter:
  assumes "forward_request host_variant peers clk ex d sc fin old mem l1 pk src x e = Inr (b, pkt', x', e')"
  shows "fake_snoop_filter x' = fake_snoop_filter x \<and> center_xbar x' = center_xbar x"
  using assms
proof (cases rule: forward_requestE)
  case (accepted sink direct pk1 sf xb)
  have "fake_snoop_filter xb = fake_snoop_filter x \<and> center_xbar xb = center_xbar x"
    using accepted(5) by (auto simp: accounted_def dest!: account_filter split: if_splits)
  with answer_filter[OF accepted(6)] show ?thesis by simp
qed simp

text \<open>The rest of a request once its destination is known.\<close>

lemma v_findPort_host [simp]: "v_findPort host_variant = host_findPort"
  by (simp add: host_variant_def)

lemma host_request_dest:
  assumes "host_recvTimingReq peers clk pkt src x e = Inr (b, pkt', x', e')"
  obtains mem pkt1 x1 where "host_findPort pkt x = Inr (mem, pkt1, x1)"
    "fake_snoop_filter x' = fake_snoop_filter x1 \<and> center_xbar x' = center_xbar x1"
proof -
  obtain mem pkt1 x1 l free l1 where f: "host_findPort pkt x = Inr (mem, pkt1, x1)"
    and rest: "(if \<not> free then Inr (False, pkt1, set_creq mem l1 x1, e)
      else serve_request host_variant peers clk (isExpressSnoop pkt) mem l1 pkt1 src x1 e) = Inr (b, pkt', x', e')"
    using arbitrate_request[OF assms[unfolded host_recvTimingReq_def] refl, unfolded v_findPort_host] by metis
  show ?thesis
  proof (cases free)
    case False
    with rest have "fake_snoop_filter x' = fake_snoop_filter x1 \<and> center_xbar x' = center_xbar x1" by auto
    with f show ?thesis by (rule that)
  next
    case True
    with rest have "serve_request host_variant peers clk (isExpressSnoop pkt) mem l1 pkt1 src x1 e = Inr (b, pkt', x', e')"
      by simp
    then show ?thesis
    proof (cases rule: serve_requestE)
      case (ready pkt2 sc pk x2 e2 fin)
      have "fake_snoop_filter x2 = fake_snoop_filter x1 \<and> center_xbar x2 = center_xbar x1"
      proof (cases "v_snoops host_variant pkt2 \<and> sc")
        case True
        with ready(3) have "snoop_request peers clk pkt2 src x1 e = Inr (pk, x2, e2)" by simp
        then show ?thesis by (rule snoop_request_frame) simp
      qed (use ready(3) in auto)
      with forward_request_filter[OF ready(4)] have
        "fake_snoop_filter x' = fake_snoop_filter x1 \<and> center_xbar x' = center_xbar x1" by simp
      with f show ?thesis by (rule that)
    next
      case (not_ready pkt1 l)
      then have "fake_snoop_filter x' = fake_snoop_filter x1 \<and> center_xbar x' = center_xbar x1" by simp
      with f show ?thesis by (rule that)
    qed
  qed
qed

section \<open>Traffic\<close>

text \<open>A host packet that takes a line away from the device.\<close>

definition takes_line :: "addr \<Rightarrow> Packet \<Rightarrow> bool" where
  "takes_line a pkt \<longleftrightarrow> cxl_packet_type (req pkt) = DefaultPacket \<and> cmd pkt = ReadExReq \<and> p_addr pkt = a"

text \<open>What a neighbour may do to the packet of an atomic or functional access that it is shown: anything
  but move it to another address, change its type or turn it into another request.\<close>

definition keeps_access :: "Packet \<Rightarrow> Packet \<Rightarrow> bool" where
  "keeps_access p q \<longleftrightarrow> p_addr q = p_addr p \<and> cxl_packet_type (req q) = cxl_packet_type (req p) \<and>
     (cmd q = cmd p \<or> isResponse (cmd q))"

definition keeps_accesses :: "'e xpeers \<Rightarrow> bool" where
  "keeps_accesses peers \<longleftrightarrow> atomic_snoopers_keep keeps_access peers \<and>
     (\<forall>p pkt e pkt' e'. sendFunctionalSnoop peers p pkt e = Inr (pkt', e') \<longrightarrow> keeps_access pkt pkt') \<and>
     (\<forall>p pkt e b pkt' e'. trySatisfyFunctional peers p pkt e = Inr (b, pkt', e') \<longrightarrow> keeps_access pkt pkt')"

text \<open>All traffic through the host crossbar in which no host packet takes the line at the address \<open>a\<close> away:
  timing requests, responses, snoops and snoop responses, atomic and functional accesses, changes
  of the address ranges, and any change of the layers (their releases and retries, and what a port
  does in the middle of one).\<close>

inductive host_traffic :: "'e xpeers \<Rightarrow> addr \<Rightarrow> CXLHostXBar \<times> 'e \<Rightarrow> CXLHostXBar \<times> 'e \<Rightarrow> bool"
  for peers :: "'e xpeers" and a :: addr and s :: "CXLHostXBar \<times> 'e" where
  none: "host_traffic peers a s s"
| request: "host_traffic peers a s (x, e) \<Longrightarrow> host_recvTimingReq peers clk pkt src x e = Inr (b, pkt', x', e')
    \<Longrightarrow> \<not> takes_line a pkt \<Longrightarrow> host_traffic peers a s (x', e')"
| response: "host_traffic peers a s (x, e) \<Longrightarrow> host_recvTimingResp clk rsp mem x = Inr (b, x')
    \<Longrightarrow> host_traffic peers a s (x', e)"
| snoop_req: "host_traffic peers a s (x, e) \<Longrightarrow> host_recvTimingSnoopReq peers clk pkt mem x e = Inr (pkt', x', e')
    \<Longrightarrow> \<not> takes_line a pkt \<Longrightarrow> host_traffic peers a s (x', e')"
| snoop_resp: "host_traffic peers a s (x, e) \<Longrightarrow> host_recvTimingSnoopResp peers clk rsp src x e = Inr (b, rsp', x', e')
    \<Longrightarrow> host_traffic peers a s (x', e')"
| layers: "host_traffic peers a s (x, e) \<Longrightarrow> length rq = length (creqLayers x) \<Longrightarrow> length rs = length (crespLayers x)
    \<Longrightarrow> length sn = length (snoopLayers x)
    \<Longrightarrow> host_traffic peers a s (x\<lparr> creqLayers := rq, crespLayers := rs, snoopLayers := sn \<rparr>, e)"
| range_change: "host_traffic peers a s (x, e) \<Longrightarrow> recvRangeChange ranges p (cbase x) = Inr (n, bb)
    \<Longrightarrow> host_traffic peers a s (x\<lparr> cbase := bb \<rparr>, e)"
| atomic: "host_traffic peers a s (x, e) \<Longrightarrow> host_recvAtomic peers clk pkt src x e = Inr (lat, pkt', x', e')
    \<Longrightarrow> \<not> takes_line a pkt \<Longrightarrow> host_traffic peers a s (x', e')"
| atomic_snoop: "host_traffic peers a s (x, e) \<Longrightarrow> coh_recvAtomicSnoop peers clk pkt mem x e = Inr (lat, pkt', x', e')
    \<Longrightarrow> host_traffic peers a s (x', e')"
| functional: "host_traffic peers a s (x, e) \<Longrightarrow> host_recvFunctional peers pkt src x e = Inr (pkt', x', e')
    \<Longrightarrow> \<not> takes_line a pkt \<Longrightarrow> host_traffic peers a s (x', e')"
| world: "host_traffic peers a s (x, e) \<Longrightarrow> host_traffic peers a s (x, e')"

lemma response_not_request [simp]: "\<not> isResponse ReadExReq"
  by (simp add: isResponse_def testCmdAttrib_def)

lemma keeps_access_relation: "snoop_relation keeps_access"
  unfolding snoop_relation_def keeps_access_def by (auto simp: setBlockCached_def)

lemma keeps_access_takes: "keeps_access p q \<Longrightarrow> \<not> takes_line a p \<Longrightarrow> \<not> takes_line a q"
  by (auto simp: keeps_access_def takes_line_def)

lemma keeps_access_trans: "keeps_access p q \<Longrightarrow> keeps_access q r \<Longrightarrow> keeps_access p r"
  using keeps_access_relation unfolding snoop_relation_def by blast

lemma keeps_access_refl [simp]: "keeps_access p p"
  by (simp add: keeps_access_def)

text \<open>The crossbar is the central one and its filter has the address.\<close>

definition present :: "addr \<Rightarrow> CXLHostXBar \<Rightarrow> bool" where
  "present a x \<longleftrightarrow> center_xbar x \<and> a \<in> set (fake_snoop_filter x)"

lemma present_cong:
  "fake_snoop_filter x' = fake_snoop_filter x \<and> center_xbar x' = center_xbar x \<Longrightarrow> present a x' = present a x"
  by (simp add: present_def)

lemma findPort_present:
  assumes "host_findPort pkt x = Inr (p, pkt', x')" "present a x" "\<not> takes_line a pkt"
  shows "present a x'"
  using assms(1)
proof (cases rule: host_findPortE)
  case (device x1 b)
  then show ?thesis using assms(2,3) by (auto simp: present_def takes_line_def)
qed (use assms(2) in \<open>simp add: present_def\<close>)

lemma set_present:
  assumes "setFakeSF pkt x = Inr x'"
  shows "fake_snoop_filter x' = List.insert (p_addr pkt) (fake_snoop_filter x)" "center_xbar x' = center_xbar x"
  using assms by (auto simp: setFakeSF_def getAddr_def split: if_splits)

lemma erase_present:
  assumes "eraseFakeSF pkt x = Inr x'"
  shows "x' = x\<lparr> fake_snoop_filter := removeAll (p_addr pkt) (fake_snoop_filter x) \<rparr>"
  using assms unfolding eraseFakeSF_def getAddr_def rbind_assert by (auto split: if_splits)

lemma host_response_present:
  assumes "host_response pkt x = Inr x'" "present a x"
  shows "present a x'"
  using assms set_present[of pkt x x'] by (auto simp: host_response_def present_def split: if_splits)

lemma host_resp_present:
  assumes "host_recvTimingResp clk pkt mem x = Inr (b, x')" "present a x"
  shows "present a x'"
  using assms(1)[unfolded host_recvTimingResp_def]
proof (cases rule: coh_recvTimingRespE)
  case (sent dest l pkt1 x1 x2)
  obtain sf where "x1 = x\<lparr> snoopFilter := sf \<rparr>" using xbar_update_response_frame[OF sent(4)] .
  then have "present a x1" using assms(2) by (simp add: present_def)
  then have "present a x2" using host_response_present sent(5) by (simp add: host_variant_def)
  with sent(6) show ?thesis by (simp add: present_def)
qed (use assms(2) in \<open>simp add: present_def\<close>)

lemma snoop_from_below_filter:
  assumes "snoop_from_below peers clk pkt x e = Inr (pkt', x', e')"
  shows "fake_snoop_filter x' = fake_snoop_filter x \<and> center_xbar x' = center_xbar x"
proof (cases "snoopFilter x")
  case None
  with assms show ?thesis by (auto simp: snoop_from_below_def dest!: forwardTiming_frame(1))
next
  case (Some sf)
  with assms obtain dests lat sf1 pkt1 where
    "forwardTiming peers (charge_lookup clk lat pkt) InvalidPortID dests (x\<lparr> snoopFilter := Some sf1 \<rparr>) e = Inr (pkt1, x', e')"
    by (auto simp: snoop_from_below_def)
  from forwardTiming_frame(1)[OF this] show ?thesis by simp
qed

lemma host_snoop_req_present:
  assumes "host_recvTimingSnoopReq peers clk pkt mem x e = Inr (pkt', x', e')" "present a x"
    and "polite_snoopers peers" "\<not> takes_line a pkt"
  shows "present a x'"
proof -
  from assms(1)[unfolded host_recvTimingSnoopReq_def] obtain pkt1 pkt2 x2 x3 p where
    c: "calcPacketTiming clk (cwidth x) (cforwardLatency x * clockPeriod clk) pkt = Inr pkt1"
    and s: "snoop_from_below peers clk pkt1 x e = Inr (pkt2, x2, e')"
    and r: "if \<not> cacheResponding pkt1 \<and> cacheResponding pkt2
      then route_of x2 (req_ptr (req pkt2)) = None \<and> x3 = set_route (req_ptr (req pkt2)) mem x2 else x3 = x2"
    and f: "v_findPort host_variant pkt2 x3 = Inr (p, pkt', x')"
    by (rule coh_recvTimingSnoopReqE)
  have "present a x2" using snoop_from_below_filter[OF s] assms(2) by (simp add: present_def)
  then have "present a x3" using r by (auto simp: present_def split: if_splits)
  moreover have "keeps_identity pkt pkt2"
    using snoop_from_below_tables[OF s assms(3)] calcPacketTiming_more(1)[OF c] by (blast intro: keeps_identity_trans)
  then have "\<not> takes_line a pkt2" using assms(4) by (simp add: keeps_identity_def takes_line_def)
  ultimately show ?thesis using findPort_present[OF f[unfolded v_findPort_host]] by blast
qed

lemma host_snoop_resp_present:
  assumes "host_recvTimingSnoopResp peers clk pkt src x e = Inr (b, pkt', x', e')" "present a x"
  shows "present a x'"
proof -
  let ?r = "req_ptr (req pkt)"
  obtain dest where
    rest: "(if ?r \<notin> set (outstandingSnoop x) then forward_snoop_resp peers clk pkt src dest x e
      else rbind (respond_snoop_resp clk pkt src dest x) (\<lambda>(b, pkt1, x1). Inr (b, pkt1, x1, e))) = Inr (b, pkt', x', e')"
    using assms(1) unfolding host_recvTimingSnoopResp_def coh_recvTimingSnoopResp_def
    by (auto split: option.splits if_splits)
  show ?thesis
  proof (cases "?r \<in> set (outstandingSnoop x)")
    case False
    with rest have "forward_snoop_resp peers clk pkt src dest x e = Inr (b, pkt', x', e')" by simp
    then show ?thesis by (cases rule: forward_snoop_respE) (use assms(2) in \<open>simp_all add: present_def\<close>)
  next
    case True
    with rest have "respond_snoop_resp clk pkt src dest x = Inr (b, pkt', x')" by auto
    then show ?thesis by (cases rule: respond_snoop_respE) (use assms(2) in \<open>simp_all add: present_def\<close>)
  qed
qed

lemma host_req_present:
  assumes "host_recvTimingReq peers clk pkt src x e = Inr (b, pkt', x', e')" "present a x" "\<not> takes_line a pkt"
  shows "present a x'"
  using assms(1)
proof (rule host_request_dest)
  fix mem pkt1 x1
  assume f: "host_findPort pkt x = Inr (mem, pkt1, x1)"
    "fake_snoop_filter x' = fake_snoop_filter x1 \<and> center_xbar x' = center_xbar x1"
  from findPort_present[OF f(1) assms(2,3)] present_cong[OF f(2)] show ?thesis by simp
qed

text \<open>Atomic accesses only add to the filter, apart from the lookup of the destination.\<close>

lemma host_atomic_present:
  assumes "host_atomic pkt x = Inr x'" "present a x"
  shows "present a x'"
  using assms set_present[of pkt x x'] by (auto simp: host_atomic_def present_def split: if_splits)

lemma atomic_onwards_present:
  assumes "atomic_onwards host_variant peers d sink mem pkt x e = Inr (lat, pkt', x', e')" "present a x"
  shows "present a x'"
proof -
  have "x' = x \<or> (\<exists>q. host_atomic q x = Inr x')"
    using assms(1) by (auto simp: atomic_onwards_def host_variant_def Let_def split: if_splits)
  with host_atomic_present assms(2) show ?thesis by blast
qed

lemma atomic_maintenance_filter: "atomic_maintenance pkt x = Inr x' \<Longrightarrow> present a x' = present a x"
  by (auto simp: atomic_maintenance_def present_def split: if_splits)

lemma host_atomic_access_present:
  assumes "host_recvAtomic peers clk pkt src x e = Inr (lat, pkt', x', e')" "present a x"
    and "keeps_accesses peers" "\<not> takes_line a pkt"
  shows "present a x'"
proof -
  obtain res pkt1 x1 e1 sink mem pkt2 x2 lat' pkt3 x3 e2 x4 pkt4 where
    s: "(if \<not> bypassCaches x \<and> cmd pkt \<noteq> WriteClean then snoop_request_atomic peers clk pkt src x e
         else Inr ((InvalidCmd, 0), pkt, x, e)) = Inr (res, pkt1, x1, e1)"
    and f: "host_findPort pkt1 x1 = Inr (mem, pkt2, x2)"
    and o: "atomic_onwards host_variant peers (isDestination x pkt) sink mem pkt2 x2 e1 = Inr (lat', pkt3, x3, e2)"
    and u: "(if isResponse (cmd pkt3) then xbar_update_response pkt3 src x3 else Inr x3) = Inr x4"
    and m: "atomic_maintenance pkt4 x4 = Inr x'"
    using assms(1) unfolding host_recvAtomic_def coh_recvAtomic_def Let_def v_findPort_host
    by (clarsimp simp del: rbind_assert)
  have k: "keeps_access pkt pkt1 \<and> (\<exists>sf g. x1 = x\<lparr> snoopFilter := sf, gh_snooped := g \<rparr>)"
  proof (cases "\<not> bypassCaches x \<and> cmd pkt \<noteq> WriteClean")
    case True
    with s have "snoop_request_atomic peers clk pkt src x e = Inr (res, pkt1, x1, e1)" by simp
    from snoop_request_atomic_frame(1)[OF this] snoop_request_atomic_frame(2)[OF this _ keeps_access_relation] assms(3)
    show ?thesis by (simp add: keeps_accesses_def)
  next
    case False
    with s have "pkt1 = pkt" "x1 = x\<lparr> snoopFilter := snoopFilter x, gh_snooped := gh_snooped x \<rparr>" by auto
    then show ?thesis by (metis keeps_access_refl)
  qed
  then have "present a x1" "\<not> takes_line a pkt1" using assms(2,4) keeps_access_takes by (auto simp: present_def)
  from findPort_present[OF f this] have "present a x2" .
  from atomic_onwards_present[OF o this] have "present a x3" .
  then have "present a x4" using u by (auto simp: present_def split: if_splits elim: xbar_update_response_frame)
  with atomic_maintenance_filter[OF m] show ?thesis by simp
qed

lemma snoop_functional_keeps:
  "snoop_functional peers ex ps pkt e = Inr (pkt', e') \<Longrightarrow> keeps_accesses peers \<Longrightarrow> keeps_access pkt pkt'"
proof (induction ps arbitrary: pkt e)
  case (Cons p ps)
  then obtain pkt1 e1 where
    s: "(if ex = InvalidPortID \<or> cp_id p \<noteq> ex then sendFunctionalSnoop peers (cp_id p) pkt e else Inr (pkt, e)) = Inr (pkt1, e1)"
    and r: "(if isResponse (cmd pkt1) then Inr (pkt1, e1) else snoop_functional peers ex ps pkt1 e1) = Inr (pkt', e')"
    by auto
  have "pkt1 = pkt \<or> sendFunctionalSnoop peers (cp_id p) pkt e = Inr (pkt1, e1)" using s by (auto split: if_splits)
  then have "keeps_access pkt pkt1" using Cons.prems(2) unfolding keeps_accesses_def by (metis keeps_access_refl)
  moreover have "keeps_access pkt1 pkt'"
  proof (cases "isResponse (cmd pkt1)")
    case False
    with r show ?thesis using Cons.IH[of pkt1 e1] Cons.prems(2) by simp
  qed (use r in simp)
  ultimately show ?case by (rule keeps_access_trans)
qed simp

lemma try_queues_keeps:
  "try_queues peers ps pkt e = Inr (False, pkt', e') \<Longrightarrow> keeps_accesses peers \<Longrightarrow> keeps_access pkt pkt'"
proof (induction ps arbitrary: pkt e)
  case (Cons p ps)
  then obtain pkt1 e1 where
    "trySatisfyFunctional peers (cp_id p) pkt e = Inr (False, pkt1, e1)" "try_queues peers ps pkt1 e1 = Inr (False, pkt', e')"
    by (auto split: if_splits)
  moreover from this(1) have "keeps_access pkt pkt1" using Cons.prems(2) unfolding keeps_accesses_def by blast
  ultimately show ?case using Cons.IH Cons.prems(2) by (blast intro: keeps_access_trans)
qed simp

lemma host_functional_present:
  assumes "host_recvFunctional peers pkt src x e = Inr (pkt', x', e')" "present a x"
    and "keeps_accesses peers" "\<not> takes_line a pkt"
  shows "present a x'"
proof (cases "x' = x")
  case False
  with assms(1) obtain pkt1 e1 pkt2 e2 mem pkt3 where
    s: "(if bypassCaches x then Inr (pkt, e) else forwardFunctional peers pkt src x e) = Inr (pkt1, e1)"
    and q: "try_queues peers (ccpuSidePorts x) pkt1 e1 = Inr (False, pkt2, e2)"
    and f: "host_findPort pkt2 x = Inr (mem, pkt3, x')"
    unfolding host_recvFunctional_def coh_recvFunctional_def v_findPort_host by (auto split: if_splits)
  have "keeps_access pkt pkt1"
    using s assms(3) by (auto simp: forwardFunctional_def split: if_splits intro: snoop_functional_keeps)
  then have "keeps_access pkt pkt2" using try_queues_keeps[OF q assms(3)] by (rule keeps_access_trans)
  from findPort_present[OF f assms(2) keeps_access_takes[OF this assms(4)]] show ?thesis .
qed (use assms(2) in simp)

lemma traffic_present:
  assumes "host_traffic peers a (x, e) s" "present a x" "polite_snoopers peers" "keeps_accesses peers"
  shows "present a (fst s)"
  using assms(1)
proof (induction rule: host_traffic.induct)
  case (request x e clk pkt src b pkt' x' e')
  then show ?case using host_req_present by simp
next
  case (response x e clk rsp mem b x')
  then show ?case using host_resp_present by simp
next
  case (snoop_req x e clk pkt mem pkt' x' e')
  then show ?case using host_snoop_req_present[OF _ _ assms(3)] by simp
next
  case (snoop_resp x e clk rsp src b rsp' x' e')
  then show ?case using host_snoop_resp_present by simp
next
  case (atomic x e clk pkt src lat pkt' x' e')
  then show ?case using host_atomic_access_present[OF _ _ assms(4)] by simp
next
  case (atomic_snoop x e clk pkt mem lat pkt' x' e')
  then show ?case using atomic_snoop_frame[OF atomic_snoop(2)] by (auto simp: present_def)
next
  case (functional x e pkt src pkt' x' e')
  then show ?case using host_functional_present[OF _ _ assms(4)] by simp
qed (use assms(2) in \<open>auto simp: present_def\<close>)

section \<open>Host reads of a line the device may have\<close>

definition host_reads :: "addr \<Rightarrow> Packet \<Rightarrow> bool" where
  "host_reads a pkt \<longleftrightarrow> valid_addr pkt \<and> p_addr pkt = a \<and> cxl_base \<le> a \<and> cxl_packet_type (req pkt) = DefaultPacket \<and>
     (cmd pkt = ReadSharedReq \<or> cmd pkt = ReadExReq)"

lemma host_reads_dest:
  assumes "host_findPort pkt x = Inr (p, pkt', x')" "present a x" "host_reads a pkt"
  shows "pkt' = set_packet_type CXLcacheH2DReq pkt" "\<exists>b. findPort rootcomplex (cbase x) = Inr (p, b)"
    "creqLayers x' = creqLayers x" "a \<in> set (fake_snoop_filter x') \<longleftrightarrow> cmd pkt = ReadSharedReq"
proof -
  let ?p = "set_packet_type CXLcacheH2DReq pkt"
  have f: "valid_addr ?p" "p_addr ?p = a" "cmd ?p = cmd pkt"
    using assms(3) by (simp_all add: set_packet_type_def host_reads_def)
  obtain x1 b where
    c: "(if cmd ?p = ReadSharedReq then Inr x else if cmd ?p = ReadExReq then eraseFakeSF ?p x
         else Inl (Panic ''Unexpected cxl access request'')) = Inr x1"
    "findPort rootcomplex (cbase x1) = Inr (p, b)" "pkt' = ?p" "x' = x1\<lparr> cbase := b \<rparr>"
    using assms by (auto simp: host_findPort_def host_reads_def present_def getAddr_eq getFakeSF_def Let_def)
  have x1: "cmd pkt = ReadSharedReq \<and> x1 = x \<or>
       cmd pkt = ReadExReq \<and> x1 = x\<lparr> fake_snoop_filter := removeAll a (fake_snoop_filter x) \<rparr>"
  proof (cases "cmd pkt = ReadSharedReq")
    case False
    with assms(3) have "cmd pkt = ReadExReq" by (simp add: host_reads_def)
    with c(1) f erase_present[of ?p x x1] show ?thesis by simp
  qed (use c(1) f in simp)
  then have "cbase x1 = cbase x" "creqLayers x1 = creqLayers x" by auto
  with c show "pkt' = ?p" "\<exists>b. findPort rootcomplex (cbase x) = Inr (p, b)" "creqLayers x' = creqLayers x" by auto
  show "a \<in> set (fake_snoop_filter x') \<longleftrightarrow> cmd pkt = ReadSharedReq"
    using x1 c(4) assms(2) by (auto simp: present_def)
qed

lemma read_attributes [simp]:
  "isRead ReadSharedReq" "isRead ReadExReq" "\<not> isClean ReadSharedReq" "\<not> isClean ReadExReq"
  by (simp_all add: isRead_def isClean_def testCmdAttrib_def)

lemma reads_forwarded:
  assumes "cmd pk = ReadSharedReq \<or> cmd pk = ReadExReq"
  shows "forwardPacket x pk" "sinkPacket x pk = Inr True \<Longrightarrow> cacheResponding pk"
proof -
  have "isRead (cmd pk)" "\<not> isClean (cmd pk)" "\<not> isCleanEviction pk"
    using assms by (auto simp: isCleanEviction_def)
  then show "forwardPacket x pk" "sinkPacket x pk = Inr True \<Longrightarrow> cacheResponding pk"
    by (auto simp: forwardPacket_def sinkPacket_def split: if_splits)
qed

text \<open>An accepted read is answered by a cache or was handed to the destination.\<close>

lemma accepted_read:
  assumes "forward_request host_variant peers clk False d sc fin old mem l1 pk src x e = Inr (True, pkt', x', e')"
    and "cmd pk = ReadSharedReq \<or> cmd pk = ReadExReq"
  shows "req_ptr (req pk) \<in> set (outstandingSnoop x') \<or>
    (\<exists>pk1 pk2. sendTimingReq peers mem pk1 e = Inr (True, pk2, e') \<and> req pk1 = req pk \<and> cmd pk1 = cmd pk
      \<and> p_addr pk1 = p_addr pk)"
  using assms(1)
proof (cases rule: forward_requestE)
  case (accepted sink direct pk1 sf xb)
  show ?thesis
  proof (cases sink)
    case True
    then have cr: "cacheResponding pk" "pk1 = pk"
      using reads_forwarded(2)[OF assms(2)] accepted(2) send_onwards_cases(1)[OF accepted(3)] by auto
    with accepted(5) obtain xc l where
      "account_request host_variant True False sink pk1 src (x\<lparr> snoopFilter := sf \<rparr>) = Inr xc" "xb = set_creq mem l xc"
      by (auto simp: accounted_def)
    then have "req_ptr (req pk) \<in> set (outstandingSnoop xb)"
      using cr(2) by (auto simp: account_request_def dest!: host.route_outstanding)
    with host.answer_outstanding[OF accepted(6)] show ?thesis by simp
  next
    case False
    then have "\<not> direct"
      using accepted(3) reads_forwarded(1)[OF assms(2), of x] by (auto simp: send_onwards_def Let_def)
    with False send_onwards_cases(3)[OF accepted(3)] show ?thesis by blast
  qed
qed simp

text \<open>A refused packet waits at a layer.\<close>

definition waits_at :: "nat \<Rightarrow> Layer \<Rightarrow> bool" where
  "waits_at p l \<longleftrightarrow> p \<in> set (waitingForLayer l) \<or> waitingForPeer l = Some p"

lemma failedTiming_waits: "failedTiming p t l = Inr l' \<Longrightarrow> waits_at p l'"
  by (auto simp: failedTiming_def occupyLayer_def Let_def waits_at_def split: if_splits)

lemma tryTiming_waits: "tryTiming p l = Inr (False, l') \<Longrightarrow> waits_at p l'"
  by (auto simp: tryTiming_def waits_at_def split: if_splits)

lemma waits_in_layer:
  "nat p < length (creqLayers x) \<Longrightarrow> waits_at q l \<Longrightarrow> waits_at q (creqLayers (set_creq p l x) ! nat p)"
  by (simp add: set_creq_def)

lemma device_read:
  assumes r: "host_recvTimingReq peers clk pkt src x e = Inr (b, pkt', x', e')"
    and pr: "present a x" "host_reads a pkt" "\<not> isExpressSnoop pkt" and polite: "polite_snoopers peers"
  shows "\<exists>root bb. findPort rootcomplex (cbase x) = Inr (root, bb) \<and>
    (a \<in> set (fake_snoop_filter x') \<longleftrightarrow> cmd pkt = ReadSharedReq) \<and>
    (if b then req_ptr (req pkt) \<in> set (outstandingSnoop x') \<or>
       (\<exists>pk pk2 e1. sendTimingReq peers root pk e1 = Inr (True, pk2, e') \<and> p_addr pk = a \<and> cmd pk = cmd pkt \<and>
          cxl_packet_type (req pk) = CXLcacheH2DReq \<and> req_ptr (req pk) = req_ptr (req pkt))
     else waits_at (nat src) (creqLayers x' ! nat root))"
proof -
  obtain root pkt1 x1 l free l1 where f: "host_findPort pkt x = Inr (root, pkt1, x1)"
    and t: "(if isExpressSnoop pkt then Inr (True, l) else tryTiming (nat src) l) = Inr (free, l1)"
    and rest: "(if \<not> free then Inr (False, pkt1, set_creq root l1 x1, e)
      else serve_request host_variant peers clk (isExpressSnoop pkt) root l1 pkt1 src x1 e) = Inr (b, pkt', x', e')"
    and n: "nat root < length (creqLayers x1)"
    using arbitrate_request[OF r[unfolded host_recvTimingReq_def] refl, unfolded v_findPort_host] by metis
  note dest = host_reads_dest[OF f pr(1,2)]
  have fl: "a \<in> set (fake_snoop_filter x') \<longleftrightarrow> cmd pkt = ReadSharedReq"
    using r
  proof (rule host_request_dest)
    fix m q y assume "host_findPort pkt x = Inr (m, q, y)"
      "fake_snoop_filter x' = fake_snoop_filter y \<and> center_xbar x' = center_xbar y"
    with f dest(4) show ?thesis by simp
  qed
  have c1: "cmd pkt1 = cmd pkt" "p_addr pkt1 = a" "cxl_packet_type (req pkt1) = CXLcacheH2DReq"
    "req_ptr (req pkt1) = req_ptr (req pkt)"
    using dest(1) pr(2) by (auto simp: set_packet_type_def host_reads_def)
  have "if b then req_ptr (req pkt) \<in> set (outstandingSnoop x') \<or>
       (\<exists>pk pk2 e1. sendTimingReq peers root pk e1 = Inr (True, pk2, e') \<and> p_addr pk = a \<and> cmd pk = cmd pkt \<and>
          cxl_packet_type (req pk) = CXLcacheH2DReq \<and> req_ptr (req pk) = req_ptr (req pkt))
     else waits_at (nat src) (creqLayers x' ! nat root)"
  proof (cases free)
    case False
    with t pr(3) have "waits_at (nat src) l1" by (simp add: tryTiming_waits)
    with rest False n show ?thesis by (auto intro: waits_in_layer)
  next
    case True
    with rest pr(3) have "serve_request host_variant peers clk False root l1 pkt1 src x1 e = Inr (b, pkt', x', e')" by simp
    then show ?thesis
    proof (cases rule: serve_requestE)
      case (not_ready pkt2 l2)
      then show ?thesis using c1(1) pr(2) by (auto simp: host_reads_def)
    next
      case (ready pkt2 sc pk x2 e2 fin)
      have "keeps_identity pkt2 pk \<and> creqLayers x2 = creqLayers x1"
      proof (cases "v_snoops host_variant pkt2 \<and> sc")
        case True
        with ready(3) have "snoop_request peers clk pkt2 src x1 e = Inr (pk, x2, e2)" by simp
        then show ?thesis by (rule snoop_request_frame) (use polite in simp)
      qed (use ready(3) in auto)
      with calcPacketTiming_more(1)[OF ready(1)] have k: "keeps_identity pkt1 pk" "creqLayers x2 = creqLayers x1"
        by (blast intro: keeps_identity_trans)+
      have c2: "cmd pk = cmd pkt" "p_addr pk = a" "cxl_packet_type (req pk) = CXLcacheH2DReq"
        "req_ptr (req pk) = req_ptr (req pkt)"
        using k(1) c1 by (simp_all add: keeps_identity_def)
      show ?thesis
      proof (cases b)
        case True
        have "req_ptr (req pk) \<in> set (outstandingSnoop x') \<or>
          (\<exists>pk1 pk2. sendTimingReq peers root pk1 e2 = Inr (True, pk2, e') \<and> req pk1 = req pk \<and> cmd pk1 = cmd pk
            \<and> p_addr pk1 = p_addr pk)"
          using ready(4) True c2(1) pr(2)
          by (intro accepted_read[of peers clk "isDestination x1 pkt2" sc fin "headerDelay pkt1" root l1 pk src x2 e2 pkt'])
            (auto simp: host_reads_def)
        then show ?thesis
        proof
          assume "\<exists>pk1 pk2. sendTimingReq peers root pk1 e2 = Inr (True, pk2, e') \<and> req pk1 = req pk \<and> cmd pk1 = cmd pk
            \<and> p_addr pk1 = p_addr pk"
          then obtain pk1 pk2 where "sendTimingReq peers root pk1 e2 = Inr (True, pk2, e')" "req pk1 = req pk"
            "cmd pk1 = cmd pk" "p_addr pk1 = p_addr pk" by blast
          with True c2 show ?thesis by (metis (no_types, lifting))
        qed (use True c2 in simp)
      next
        case False
        from ready(4) show ?thesis
        proof (cases rule: forward_requestE)
          case (refused l2 sf pk1 sink)
          from failedTiming_waits[OF refused(8)] waits_in_layer[of root "x2\<lparr> snoopFilter := sf \<rparr>"] n k(2) refused(1,3)
          show ?thesis by simp
        qed (use False in simp)
      qed
    qed
  qed
  with dest(2) fl show ?thesis by blast
qed

section \<open>Properties\<close>

text \<open>Any other request of the host for a recorded address stops the simulation.\<close>

lemma unexpected_access:
  assumes "present a x" "cxl_base \<le> a" "valid_addr pkt" "p_addr pkt = a" "cxl_packet_type (req pkt) = DefaultPacket"
    and "cmd pkt \<noteq> ReadSharedReq" "cmd pkt \<noteq> ReadExReq"
  shows "host_findPort pkt x = Inl (Panic ''Unexpected cxl access request'')"
  using assms by (simp add: host_findPort_def getFakeSF_def getAddr_eq present_def Let_def set_packet_type_def)

text \<open>C9: Once a device has got data at an address, host reads of that address go to the device. Let a
  response to a CXL request for an address of the CXL region pass through the central host
  crossbar, and let any traffic follow in which no ordinary host packet reads exactly that address
  exclusively. Then a \<open>ReadSharedReq\<close> or \<open>ReadExReq\<close> of the host for exactly that address is
  arbitrated at the port of the root complex, never at memory: if it is accepted, a host cache
  answers it or it was handed to the root complex as a CXL.cache request to the device; if it is
  refused, its port waits for the root complex. After an exclusive read the address is no longer
  recorded, after a shared one it is. Every other ordinary host request for the address stops the
  simulation. (The filter records addresses, not lines: nothing is said of other addresses of the
  line. The neighbours do not exchange the request, address or command of a packet they are
  shown, other than by answering it.)\<close>

theorem presence_filter_tracks_device:
  assumes "center_xbar x" "host_recvTimingResp clk rsp mem x = Inr (True, x1)" "p_addr rsp = a" "cxl_base \<le> a"
    and "cxl_packet_type (req rsp) \<noteq> DefaultPacket" "cxl_packet_type (req rsp) \<noteq> CXLcacheH2DResp"
    and "polite_snoopers peers" "keeps_accesses peers" "host_traffic peers a (x1, e1) (x2, e2)"
    and "host_reads a pkt" "\<not> isExpressSnoop pkt"
    and "host_recvTimingReq peers clk' pkt src x2 e2 = Inr (b, pkt', x3, e3)"
  shows "(\<exists>root bb. findPort rootcomplex (cbase x2) = Inr (root, bb) \<and>
      (a \<in> set (fake_snoop_filter x3) \<longleftrightarrow> cmd pkt = ReadSharedReq) \<and>
      (if b then req_ptr (req pkt) \<in> set (outstandingSnoop x3) \<or>
         (\<exists>pk pk2 e. sendTimingReq peers root pk e = Inr (True, pk2, e3) \<and> p_addr pk = a \<and> cmd pk = cmd pkt \<and>
            cxl_packet_type (req pk) = CXLcacheH2DReq \<and> req_ptr (req pk) = req_ptr (req pkt))
       else waits_at (nat src) (creqLayers x3 ! nat root))) \<and>
    (\<forall>other. valid_addr other \<and> p_addr other = a \<and> cxl_packet_type (req other) = DefaultPacket \<and>
       cmd other \<noteq> ReadSharedReq \<and> cmd other \<noteq> ReadExReq
       \<longrightarrow> host_findPort other x2 = Inl (Panic ''Unexpected cxl access request''))"
proof -
  from assms(2)[unfolded host_recvTimingResp_def] have "present a x1"
  proof (cases rule: coh_recvTimingRespE)
    case (sent dest l pkt1 y1 y2)
    obtain sf where y1: "y1 = x\<lparr> snoopFilter := sf \<rparr>" using xbar_update_response_frame[OF sent(4)] .
    note k = calcPacketTiming_more(1,4)[OF sent(3)]
    have "host_response pkt1 y1 = Inr y2" using sent(5) by (simp add: host_variant_def)
    then have "setFakeSF pkt1 y1 = Inr y2"
      using k assms(1,3-6) y1 by (auto simp: host_response_def keeps_identity_def getAddr_def split: if_splits)
    from set_present[OF this] have "present a y2"
      using k assms(1,3) y1 by (simp add: present_def keeps_identity_def)
    with sent(6) show ?thesis by (simp add: present_def)
  qed simp
  from traffic_present[OF assms(9) this assms(7,8)] have p: "present a x2" by simp
  from device_read[OF assms(12) p assms(10,11,7)] unexpected_access[OF p assms(4)] show ?thesis by blast
qed

lemma outcome_pair: "\<not> isl r \<Longrightarrow> r = Inr (fst (projr r), snd (projr r))"
  by (cases r) auto

text \<open>A device at port 1 gets a line; then the host reads it. The memory side takes everything and records
  the ports that were used; the caches stay silent.\<close>

definition recording_memory :: "PortID list xpeers" where
  "recording_memory = \<lparr> sendTimingReq = (\<lambda>p pkt e. Inr (True, pkt, e @ [p])), peer_tryTiming = (\<lambda>p pkt e. Inr True),
     sendTimingSnoopResp = (\<lambda>p pkt e. Inr (True, pkt, e)), sendTimingSnoopReq = (\<lambda>p pkt e. Inr (pkt, e)),
     sendAtomic = (\<lambda>p pkt e. Inr (0, pkt, e)), sendAtomicSnoop = (\<lambda>p pkt e. Inr (0, pkt, e)),
     sendFunctional = (\<lambda>p pkt e. Inr (pkt, e)), sendFunctionalSnoop = (\<lambda>p pkt e. Inr (pkt, e)),
     trySatisfyFunctional = (\<lambda>p pkt e. Inr (False, pkt, e)) \<rparr>"

definition cxl_packet :: "nat \<Rightarrow> CXLPacketType \<Rightarrow> Command \<Rightarrow> Packet" where
  "cxl_packet r t c = Packet_new (sample_request\<lparr> req_ptr := r, r_paddr := Some 0xa0000040, cxl_packet_type := t \<rparr>) c"

definition device_asked :: CXLHostXBar where
  "device_asked = set_route 5 1 (sample_host True)"

definition device_served :: "(bool \<times> CXLHostXBar) outcome" where
  "device_served = host_recvTimingResp sample_clock (cxl_packet 5 CXLcachePacket ReadResp) 1 device_asked"

definition host_asks :: "(bool \<times> Packet \<times> CXLHostXBar \<times> PortID list) outcome" where
  "host_asks = host_recvTimingReq recording_memory sample_clock (cxl_packet 7 DefaultPacket ReadSharedReq) 0
     (snd (projr device_served)) []"

text \<open>The layer of the root complex is released; then another host port asks for the line exclusively.\<close>

definition released_host :: CXLHostXBar where
  "released_host = (xbar_after host_asks)\<lparr> creqLayers := [new_Layer, new_Layer],
     crespLayers := crespLayers (xbar_after host_asks), snoopLayers := snoopLayers (xbar_after host_asks) \<rparr>"

definition host_takes :: "(bool \<times> Packet \<times> CXLHostXBar \<times> PortID list) outcome" where
  "host_takes = host_recvTimingReq recording_memory sample_clock (cxl_packet 8 DefaultPacket ReadExReq) 1
     released_host (snd (snd (snd (projr host_asks))))"

lemma recording_memory_polite: "polite_snoopers recording_memory" "keeps_accesses recording_memory"
  by (simp_all add: polite_snoopers_def keeps_accesses_def atomic_snoopers_keep_def recording_memory_def)

lemma sample_host_traffic:
  "host_traffic recording_memory 0xa0000040 (snd (projr device_served), []) (released_host, snd (snd (snd (projr host_asks))))"
proof -
  let ?pkt = "cxl_packet 7 DefaultPacket ReadSharedReq"
  have v: "\<not> isl host_asks" "cmd ?pkt = ReadSharedReq"
    "length [new_Layer, new_Layer] = length (creqLayers (xbar_after host_asks))" by code_simp+
  have h: "host_recvTimingReq recording_memory sample_clock ?pkt 0 (snd (projr device_served)) []
      = Inr (fst (projr host_asks), fst (snd (projr host_asks)), xbar_after host_asks, snd (snd (snd (projr host_asks))))"
    using outcome_parts[OF v(1)] unfolding host_asks_def[symmetric] .
  have t: "host_traffic recording_memory 0xa0000040 (snd (projr device_served), []) (xbar_after host_asks, snd (snd (snd (projr host_asks))))"
    by (rule host_traffic.request[OF host_traffic.none h]) (use v(2) in \<open>simp add: takes_line_def\<close>)
  show ?thesis unfolding released_host_def by (rule host_traffic.layers[OF t v(3)]) simp_all
qed

theorem presence_filter_tracks_device_witness:
  "(0xa0000040 \<in> set (fake_snoop_filter (xbar_after host_takes))) = (cmd (cxl_packet 8 DefaultPacket ReadExReq) = ReadSharedReq)
    \<and> fst (projr host_takes) \<and> snd (snd (snd (projr host_takes))) = [0, 0]
    \<and> host_findPort (cxl_packet 9 DefaultPacket ReadReq) released_host = Inl (Panic ''Unexpected cxl access request'')"
proof -
  let ?a = "0xa0000040 :: addr" and ?rsp = "cxl_packet 5 CXLcachePacket ReadResp" and ?pkt = "cxl_packet 8 DefaultPacket ReadExReq"
    and ?other = "cxl_packet 9 DefaultPacket ReadReq"
  have d: "\<not> isl device_served" "fst (projr device_served)" "\<not> isl host_takes" "fst (projr host_takes)"
    "center_xbar device_asked" "p_addr ?rsp = ?a" "cxl_base \<le> ?a" "cxl_packet_type (req ?rsp) \<noteq> DefaultPacket"
    "cxl_packet_type (req ?rsp) \<noteq> CXLcacheH2DResp" "host_reads ?a ?pkt"
    "\<not> isExpressSnoop ?pkt" "snd (snd (snd (projr host_takes))) = [0, 0]"
    by code_simp+
  have other: "valid_addr ?other" "p_addr ?other = ?a" "cxl_packet_type (req ?other) = DefaultPacket"
    "cmd ?other \<noteq> ReadSharedReq" "cmd ?other \<noteq> ReadExReq"
    by code_simp+
  have s: "host_recvTimingResp sample_clock ?rsp 1 device_asked = Inr (True, snd (projr device_served))"
    using outcome_pair[OF d(1)] d(2) unfolding device_served_def[symmetric] by simp
  have h: "host_recvTimingReq recording_memory sample_clock ?pkt 1 released_host (snd (snd (snd (projr host_asks))))
      = Inr (fst (projr host_takes), fst (snd (projr host_takes)), xbar_after host_takes, snd (snd (snd (projr host_takes))))"
    using outcome_parts[OF d(3)] unfolding host_takes_def[symmetric] .
  note p = presence_filter_tracks_device[OF d(5) s d(6-9) recording_memory_polite sample_host_traffic d(10,11) h]
  have "(?a \<in> set (fake_snoop_filter (xbar_after host_takes))) = (cmd ?pkt = ReadSharedReq)"
    using p by blast
  moreover have "host_findPort ?other released_host = Inl (Panic ''Unexpected cxl access request'')"
    using p other by blast
  ultimately show ?thesis using d(4,12) by blast
qed

text \<open>C35: A refused read of a line the device may have is never sent to the device again. When the layer of
  the root complex is busy, the crossbar refuses such a read after it has already marked the
  packet as a CXL.cache request and, for an exclusive read, removed the line from the presence
  filter. When the same packet is sent again, in any later state, the presence filter is not
  consulted and the destination is decoded from the address like that of any memory access.\<close>

theorem refused_device_read_goes_to_memory:
  assumes "present a x" "host_reads a pkt" "\<not> isExpressSnoop pkt"
    and "findPort rootcomplex (cbase x) = Inr (root, bb)" "lstate (creqLayers x ! nat root) = BUSY"
    and "host_recvTimingReq peers clk pkt src x e = Inr (b, pkt', x', e')"
  shows "\<not> b \<and> waits_at (nat src) (creqLayers x' ! nat root)
    \<and> (cmd pkt = ReadExReq \<longrightarrow> a \<notin> set (fake_snoop_filter x'))
    \<and> host_findPort pkt' x2 = base_findPort pkt' x2"
proof -
  obtain root' pkt1 x1 l free l1 where f: "host_findPort pkt x = Inr (root', pkt1, x1)"
    and t: "(if isExpressSnoop pkt then Inr (True, l) else tryTiming (nat src) l) = Inr (free, l1)"
    and l: "l = creqLayers x1 ! nat root'" "nat root' < length (creqLayers x1)"
    and rest: "(if \<not> free then Inr (False, pkt1, set_creq root' l1 x1, e)
      else serve_request host_variant peers clk (isExpressSnoop pkt) root' l1 pkt1 src x1 e) = Inr (b, pkt', x', e')"
    using arbitrate_request[OF assms(6)[unfolded host_recvTimingReq_def] refl, unfolded v_findPort_host] by metis
  note dest = host_reads_dest[OF f assms(1,2)]
  have r: "root' = root" using dest(2) assms(4) by auto
  have "\<not> free" using t l(1) assms(3,5) dest(3) r by (auto simp: tryTiming_def split: if_splits)
  with rest t assms(3) have o: "\<not> b" "pkt' = pkt1" "x' = set_creq root l1 x1" "waits_at (nat src) l1"
    using r tryTiming_waits[of "nat src" l l1] by auto
  have "cxl_packet_type (req pkt') \<noteq> DefaultPacket" "valid_addr pkt'"
    using dest(1) o(2) assms(2) by (simp_all add: set_packet_type_def host_reads_def)
  then have "host_findPort pkt' x2 = base_findPort pkt' x2"
    by (simp add: host_findPort_def getAddr_eq)
  moreover have "waits_at (nat src) (creqLayers x' ! nat root)"
    using o l(2) r by (auto intro: waits_in_layer)
  ultimately show ?thesis using o dest(4) by auto
qed

definition busy_root :: CXLHostXBar where
  "busy_root = (sample_host True)\<lparr> fake_snoop_filter := [0xa0000040],
     creqLayers := [new_Layer\<lparr> lstate := BUSY, releaseEvent := Some 2000 \<rparr>, new_Layer] \<rparr>"

definition refused_read :: "(bool \<times> Packet \<times> CXLHostXBar \<times> PortID list) outcome" where
  "refused_read = host_recvTimingReq recording_memory sample_clock (cxl_packet 7 DefaultPacket ReadExReq) 0 busy_root []"

text \<open>The refused read is sent again as soon as the layer is free; it goes to memory, which is port 1.\<close>

definition retried_read :: "(bool \<times> Packet \<times> CXLHostXBar \<times> PortID list) outcome" where
  "retried_read = host_recvTimingReq recording_memory sample_clock (fst (snd (projr refused_read))) 0
     (set_creq 0 new_Layer (xbar_after refused_read)) []"

theorem refused_device_read_goes_to_memory_witness:
  "host_findPort (fst (snd (projr refused_read))) busy_root = base_findPort (fst (snd (projr refused_read))) busy_root
    \<and> 0xa0000040 \<notin> set (fake_snoop_filter (xbar_after refused_read))
    \<and> fst (projr retried_read) \<and> snd (snd (snd (projr retried_read))) = [1]"
proof -
  let ?pkt = "cxl_packet 7 DefaultPacket ReadExReq" and ?f = "findPort rootcomplex (cbase busy_root)"
  have d: "\<not> isl refused_read" "0xa0000040 \<in> set (fake_snoop_filter busy_root)" "center_xbar busy_root"
    "host_reads 0xa0000040 ?pkt" "\<not> isExpressSnoop ?pkt" "\<not> isl ?f" "fst (projr ?f) = 0"
    "lstate (creqLayers busy_root ! nat 0) = BUSY" "cmd ?pkt = ReadExReq"
    "fst (projr retried_read)" "snd (snd (snd (projr retried_read))) = [1]"
    by code_simp+
  have p: "present 0xa0000040 busy_root" using d(2,3) by (simp add: present_def)
  have f: "?f = Inr (0, snd (projr ?f))" using outcome_pair[OF d(6)] d(7) by simp
  have r: "host_recvTimingReq recording_memory sample_clock ?pkt 0 busy_root []
      = Inr (fst (projr refused_read), fst (snd (projr refused_read)), xbar_after refused_read,
          snd (snd (snd (projr refused_read))))"
    using outcome_parts[OF d(1)] unfolding refused_read_def[symmetric] .
  from refused_device_read_goes_to_memory[OF p d(4,5) f d(8) r, of busy_root] d(9-11) show ?thesis by simp
qed

end
