(* ===== verification/SnoopFilterProps.thy ===== *)
theory SnoopFilterProps
  imports SnoopFilter
begin

text \<open>
  The snoop filter against its specification: per line, the set of ports with a request in
  flight and the set of ports that may hold the line. The bit masks implement the sets, errors
  included; a port that may hold a line is never left out of the ports to snoop.
\<close>

section \<open>Ports and bits\<close>

definition ports_ok :: "SnoopFilter \<Rightarrow> bool" where
  "ports_ok sf \<longleftrightarrow> length (cpuSidePorts sf) \<le> SNOOP_MASK_SIZE \<and>
     (\<forall>i < length (cpuSidePorts sf).
        cp_snooping (cpuSidePorts sf ! i) \<and> 0 \<le> cp_id (cpuSidePorts sf ! i) \<and>
        nat (cp_id (cpuSidePorts sf ! i)) < length (localResponsePortIds sf) \<and>
        localResponsePortIds sf ! nat (cp_id (cpuSidePorts sf ! i)) = int i)"

text \<open>The bit of a port.\<close>

definition port_bit :: "SnoopFilter \<Rightarrow> CpuSidePort \<Rightarrow> nat" where
  "port_bit sf p = nat (localResponsePortIds sf ! nat (cp_id p))"

lemma port_bit_nth: "ports_ok sf \<Longrightarrow> i < length (cpuSidePorts sf) \<Longrightarrow> port_bit sf (cpuSidePorts sf ! i) = i"
  by (auto simp: ports_ok_def port_bit_def)

lemma port_bit_less:
  assumes "ports_ok sf" "p \<in> set (cpuSidePorts sf)"
  shows "port_bit sf p < length (cpuSidePorts sf)" "cpuSidePorts sf ! port_bit sf p = p"
    "port_bit sf p < 256"
proof -
  from assms(2) obtain i where "i < length (cpuSidePorts sf)" "p = cpuSidePorts sf ! i"
    by (auto simp: in_set_conv_nth)
  with port_bit_nth[OF assms(1), of i] assms(1)
  show "port_bit sf p < length (cpuSidePorts sf)" "cpuSidePorts sf ! port_bit sf p = p"
    "port_bit sf p < 256"
    by (auto simp: ports_ok_def SNOOP_MASK_SIZE_def)
qed

lemma port_bit_inj:
  "ports_ok sf \<Longrightarrow> p \<in> set (cpuSidePorts sf) \<Longrightarrow> q \<in> set (cpuSidePorts sf) \<Longrightarrow>
   port_bit sf p = port_bit sf q \<longleftrightarrow> p = q"
  using port_bit_less(2) by metis

lemma portToMask_tracked:
  assumes "ports_ok sf" "p \<in> set (cpuSidePorts sf)"
  shows "portToMask sf p = Inr (push_bit (port_bit sf p) 1)"
proof -
  from assms(2) obtain i where "i < length (cpuSidePorts sf)" "p = cpuSidePorts sf ! i"
    by (auto simp: in_set_conv_nth)
  with assms(1) show ?thesis
    by (auto simp: ports_ok_def portToMask_def InvalidPortID_def array_at_def port_bit_def)
qed

lemma portToMask_not_snooping:
  "\<not> cp_snooping p \<Longrightarrow> cp_id p \<noteq> InvalidPortID \<Longrightarrow> portToMask sf p = Inr 0"
  by (simp add: portToMask_def)

lemma and_single_bit:
  fixes m :: "'a::len word"
  assumes "i < LENGTH('a)"
  shows "m AND push_bit i 1 \<noteq> 0 \<longleftrightarrow> bit m i"
proof
  assume "m AND push_bit i 1 \<noteq> 0"
  then obtain j where "bit (m AND push_bit i 1) j"
    by (metis bit_word_eqI bit_0_eq bot_fun_def bot_bool_def)
  then show "bit m i"
    by (auto simp: bit_simps)
next
  assume "bit m i"
  then have "bit (m AND push_bit i 1) i"
    using assms by (auto simp: bit_simps)
  then show "m AND push_bit i 1 \<noteq> 0"
    by (metis bit_0_eq bot_apply bot_bool_def)
qed

definition ports_of :: "SnoopFilter \<Rightarrow> SnoopMask \<Rightarrow> CpuSidePort set" where
  "ports_of sf m = {p \<in> set (cpuSidePorts sf). bit m (port_bit sf p)}"

lemma mask_ports_filter:
  assumes "ports_ok sf" "set ps \<subseteq> set (cpuSidePorts sf)"
  shows "mask_ports sf m ps = Inr (filter (\<lambda>p. bit m (port_bit sf p)) ps)"
  using assms(2)
proof (induction ps)
  case (Cons p ps)
  then have p: "p \<in> set (cpuSidePorts sf)" by simp
  show ?case
    using Cons and_single_bit[of "port_bit sf p" m] port_bit_less(3)[OF assms(1) p]
    by (simp add: portToMask_tracked[OF assms(1) p])
qed simp

lemma maskToPortList_set:
  assumes "ports_ok sf"
  shows "maskToPortList sf m = Inr (filter (\<lambda>p. bit m (port_bit sf p)) (cpuSidePorts sf))"
    and "set (filter (\<lambda>p. bit m (port_bit sf p)) (cpuSidePorts sf)) = ports_of sf m"
  by (simp_all add: maskToPortList_def mask_ports_filter[OF assms] ports_of_def)

text \<open>Bit operations are set operations.\<close>

lemma ports_of_0 [simp]: "ports_of sf 0 = {}"
  by (simp add: ports_of_def)

lemma ports_of_or [simp]: "ports_of sf (m OR n) = ports_of sf m \<union> ports_of sf n"
  by (auto simp: ports_of_def bit_simps)

lemma ports_of_and_not:
  assumes "ports_ok sf"
  shows "ports_of sf (m AND NOT n) = ports_of sf m - ports_of sf n"
  using port_bit_less(3)[OF assms] by (auto simp: ports_of_def bit_simps)

lemma ports_of_single:
  assumes "ports_ok sf" "p \<in> set (cpuSidePorts sf)"
  shows "ports_of sf (push_bit (port_bit sf p) 1) = {p}"
  using port_bit_inj[OF assms(1)] port_bit_less(3)[OF assms] assms
  by (auto simp: ports_of_def bit_simps)

lemma and_single_port:
  assumes "ports_ok sf" "p \<in> set (cpuSidePorts sf)"
  shows "m AND push_bit (port_bit sf p) 1 = 0 \<longleftrightarrow> p \<notin> ports_of sf m"
  using and_single_bit[of "port_bit sf p" m] port_bit_less(3)[OF assms] assms(2)
  by (auto simp: ports_of_def)

definition tracked :: "SnoopFilter \<Rightarrow> SnoopMask \<Rightarrow> bool" where
  "tracked sf m \<longleftrightarrow> (\<forall>i. bit m i \<longrightarrow> i < length (cpuSidePorts sf))"

lemma tracked_0 [simp]: "tracked sf 0"
  by (simp add: tracked_def)

lemma tracked_or [simp]: "tracked sf m \<Longrightarrow> tracked sf n \<Longrightarrow> tracked sf (m OR n)"
  by (auto simp: tracked_def bit_simps)

lemma tracked_and_not [simp]: "tracked sf m \<Longrightarrow> tracked sf (m AND NOT n)"
  by (auto simp: tracked_def bit_simps)

lemma tracked_single:
  "ports_ok sf \<Longrightarrow> p \<in> set (cpuSidePorts sf) \<Longrightarrow> tracked sf (push_bit (port_bit sf p) 1)"
  using port_bit_less(1) by (auto simp: tracked_def bit_simps)

lemma ports_of_empty_iff:
  assumes "ports_ok sf" "tracked sf m"
  shows "ports_of sf m = {} \<longleftrightarrow> m = 0"
proof
  assume empty: "ports_of sf m = {}"
  show "m = 0"
  proof (rule bit_word_eqI)
    fix i
    have "\<not> bit m i"
    proof
      assume i: "bit m i"
      with assms(2) have "i < length (cpuSidePorts sf)" by (simp add: tracked_def)
      with port_bit_nth[OF assms(1) this] i have "cpuSidePorts sf ! i \<in> ports_of sf m"
        by (simp add: ports_of_def)
      with empty show False by simp
    qed
    then show "bit m i = bit (0 :: SnoopMask) i" by simp
  qed
qed simp

section \<open>Specification\<close>

type_synonym sharing = "addr \<Rightarrow> CpuSidePort set \<times> CpuSidePort set"

definition line_key :: "u64 \<Rightarrow> Packet \<Rightarrow> addr" where
  "line_key ls pkt = (let a = p_addr pkt AND NOT (ls - 1) in
     if p_isSecure pkt then a OR LineSecure else a)"

text \<open>The operations of the filter; a request is looked up and then finished.\<close>

datatype sf_op =
    OpRequest Packet CpuSidePort bool
  | OpSnoop Packet
  | OpSnoopResponse Packet CpuSidePort CpuSidePort
  | OpSnoopForward Packet
  | OpResponse Packet CpuSidePort

fun run_sf :: "sf_op \<Rightarrow> SnoopFilter \<Rightarrow> (CpuSidePort list \<times> SnoopFilter) outcome" where
  "run_sf (OpRequest pkt p will_retry) sf =
     rbind (lookupRequest pkt p sf) (\<lambda>((ps, _), sf1).
     rbind (getAddr pkt) (\<lambda>a.
     rbind (pkt_isSecure pkt) (\<lambda>secure.
     rbind (finishRequest will_retry a secure sf1) (\<lambda>sf2. Inr (ps, sf2)))))"
| "run_sf (OpSnoop pkt) sf = rbind (lookupSnoop pkt sf) (\<lambda>((ps, _), sf1). Inr (ps, sf1))"
| "run_sf (OpSnoopResponse pkt rsp p) sf =
     rbind (updateSnoopResponse pkt rsp p sf) (\<lambda>sf1. Inr ([], sf1))"
| "run_sf (OpSnoopForward pkt) sf = rbind (updateSnoopForward pkt sf) (\<lambda>sf1. Inr ([], sf1))"
| "run_sf (OpResponse pkt p) sf = rbind (updateResponse pkt p sf) (\<lambda>sf1. Inr ([], sf1))"

definition spec_request :: "Packet \<Rightarrow> CpuSidePort \<Rightarrow> CpuSidePort set \<times> CpuSidePort set \<Rightarrow>
    (CpuSidePort set \<times> CpuSidePort set) option" where
  "spec_request pkt p RH = (case RH of (R, H) \<Rightarrow>
     if needsResponse (cmd pkt) then
       if \<not> cacheResponding pkt then if p \<in> R then None else Some (insert p R, H)
       else if p \<notin> H then None else Some (R, H)
     else if \<not> isEviction (cmd pkt) \<or> p \<notin> H then None
     else if \<not> isBlockCached pkt then Some (R, H - {p})
     else Some (R, H))"

definition occupied :: "sharing \<Rightarrow> addr set" where
  "occupied A = {a. A a \<noteq> ({}, {})}"

fun spec_sf :: "u64 \<Rightarrow> nat \<Rightarrow> sf_op \<Rightarrow> sharing \<Rightarrow> (CpuSidePort set \<times> sharing) option" where
  "spec_sf ls cap (OpRequest pkt p will_retry) A =
     (let a = line_key ls pkt; RH = A a in
      case (if allocates pkt p then spec_request pkt p RH else Some RH) of
        None \<Rightarrow> None
      | Some RH' \<Rightarrow> Some ((fst RH \<union> snd RH) - {p}, if will_retry then A else A(a := RH')))"
| "spec_sf ls cap (OpSnoop pkt) A =
     (let a = line_key ls pkt; RH = A a in
      if \<not> isRequest (cmd pkt) then None
      else if RH = ({}, {}) then if cap \<le> card (occupied A) then None else Some ({}, A)
      else if \<not> (isWriteback (cmd pkt) \<or> isUncacheable (req pkt) \<or>
                 isInvalidate (cmd pkt) = needsWritable (cmd pkt) \<or> isCacheMaintenance (req pkt))
        then None
      else Some (fst RH \<union> snd RH,
             if isInvalidate (cmd pkt) \<and> fst RH = {} then A(a := ({}, {})) else A))"
| "spec_sf ls cap (OpSnoopResponse pkt rsp p) A =
     (let a = line_key ls pkt; RH = A a in
      if \<not> isResponse (cmd pkt) \<or> \<not> cacheResponding pkt then None
      else if isUncacheable (req pkt) \<or> \<not> cp_snooping p then Some ({}, A)
      else if rsp \<notin> snd RH \<or> p \<notin> fst RH \<or> isWriteback (cmd pkt) then None
      else Some ({}, A(a := (fst RH - {p}, insert p (if hasSharers pkt then snd RH else {})))))"
| "spec_sf ls cap (OpSnoopForward pkt) A =
     (let a = line_key ls pkt; RH = A a in
      if \<not> isResponse (cmd pkt) \<or> \<not> cacheResponding pkt then None
      else Some ({}, if hasSharers pkt then A else A(a := (fst RH, {}))))"
| "spec_sf ls cap (OpResponse pkt p) A =
     (let a = line_key ls pkt; RH = A a in
      if \<not> isResponse (cmd pkt) then None
      else if isUncacheable (req pkt) \<or> \<not> cp_snooping p \<or> RH = ({}, {}) then Some ({}, A)
      else if p \<notin> fst RH then None
      else Some ({}, A(a := (fst RH - {p},
             if \<not> isCacheMaintenance (req pkt) then insert p (snd RH)
             else if isInvalidate (cmd pkt) then snd RH - {p} else snd RH))))"

section \<open>Invariant and abstraction\<close>

definition sf_inv :: "SnoopFilter \<Rightarrow> bool" where
  "sf_inv sf \<longleftrightarrow> ports_ok sf \<and> distinct (map fst (cachedLocations sf)) \<and>
     0 < linesize sf \<and> linesize sf < 2 ^ 32 \<and>
     (\<forall>a item. sf_find sf a = Some item \<longrightarrow>
        tracked sf (requested item) \<and> tracked sf (holder item) \<and> requested item OR holder item \<noteq> 0)"

definition item_sets :: "SnoopFilter \<Rightarrow> SnoopItem option \<Rightarrow> CpuSidePort set \<times> CpuSidePort set" where
  "item_sets sf io = (case io of None \<Rightarrow> ({}, {})
     | Some i \<Rightarrow> (ports_of sf (requested i), ports_of sf (holder i)))"

definition sharing_of :: "SnoopFilter \<Rightarrow> sharing" where
  "sharing_of sf a = item_sets sf (sf_find sf a)"

text \<open>The ports an operation may name: snooping ports the filter knows, and others.\<close>

definition known :: "SnoopFilter \<Rightarrow> CpuSidePort \<Rightarrow> bool" where
  "known sf p \<longleftrightarrow> (if cp_snooping p then p \<in> set (cpuSidePorts sf) else cp_id p \<noteq> InvalidPortID)"

fun op_ok :: "SnoopFilter \<Rightarrow> sf_op \<Rightarrow> bool" where
  "op_ok sf (OpRequest pkt p r) \<longleftrightarrow> valid_addr pkt \<and> known sf p"
| "op_ok sf (OpSnoop pkt) \<longleftrightarrow> valid_addr pkt"
| "op_ok sf (OpSnoopResponse pkt rsp p) \<longleftrightarrow> valid_addr pkt \<and> known sf rsp \<and> known sf p"
| "op_ok sf (OpSnoopForward pkt) \<longleftrightarrow> valid_addr pkt"
| "op_ok sf (OpResponse pkt p) \<longleftrightarrow> valid_addr pkt \<and> known sf p"

lemma linesize_u32:
  assumes "0 < (ls :: u64)" "ls < 2 ^ 32"
  shows "(ucast ((ucast ls :: u32) - 1) :: u64) = ls - 1"
proof -
  have u: "unat ls < 2 ^ 32" "ls \<noteq> 0"
    using assms by (auto simp: word_less_nat_alt)
  then have "unat ls \<noteq> 0" by (simp add: unat_eq_0)
  have c: "unat (ucast ls :: u32) = unat ls"
    using u(1) by (simp add: unsigned_ucast_eq take_bit_nat_eq_self)
  then have "(ucast ls :: u32) \<noteq> 0"
    using \<open>unat ls \<noteq> 0\<close> by (metis unat_0)
  with c have "unat ((ucast ls :: u32) - 1) = unat ls - 1"
    by (simp add: unat_minus_one)
  moreover have "unat (ls - 1) = unat ls - 1"
    using u(2) by (rule unat_minus_one)
  moreover have "unat ls - 1 < 2 ^ 64"
    using u(1) by simp
  ultimately show ?thesis
    by (simp add: word_unat_eq_iff unsigned_ucast_eq take_bit_nat_eq_self)
qed

lemma line_addr_key:
  assumes "sf_inv sf" "valid_addr pkt"
  shows "line_addr sf pkt = Inr (line_key (linesize sf) pkt)"
  using assms linesize_u32[of "linesize sf"]
  by (simp add: line_addr_def getBlockAddr_def getAddr_eq pkt_isSecure_def line_key_def sf_inv_def Let_def)

section \<open>The masks implement the sets\<close>

lemma sf_find_store: "sf_find (sf_store a i sf) b = (if b = a then Some i else sf_find sf b)"
  by (simp add: sf_find_def sf_store_def AList.update_conv')

lemma sf_find_erase: "sf_find (sf_erase a sf) b = (if b = a then None else sf_find sf b)"
  by (simp add: sf_find_def sf_erase_def AList.delete_conv')

lemma sf_find_reqIt [simp]: "sf_find (sf\<lparr> reqIt := x, retryItem := y \<rparr>) b = sf_find sf b"
  "sf_find (sf\<lparr> reqIt := x \<rparr>) b = sf_find sf b"
  by (simp_all add: sf_find_def)

lemma sf_store_fields [simp]:
  "reqIt (sf_store a i sf) = reqIt sf" "retryItem (sf_store a i sf) = retryItem sf"
  "cpuSidePorts (sf_store a i sf) = cpuSidePorts sf"
  "localResponsePortIds (sf_store a i sf) = localResponsePortIds sf"
  "linesize (sf_store a i sf) = linesize sf" "lookupLatency (sf_store a i sf) = lookupLatency sf"
  "maxEntryCount (sf_store a i sf) = maxEntryCount sf"
  "reqIt (sf_erase a sf) = reqIt sf"
  "cpuSidePorts (sf_erase a sf) = cpuSidePorts sf"
  "localResponsePortIds (sf_erase a sf) = localResponsePortIds sf"
  "linesize (sf_erase a sf) = linesize sf" "maxEntryCount (sf_erase a sf) = maxEntryCount sf"
  by (simp_all add: sf_store_def sf_erase_def)

text \<open>Two filters with the same ports and line size.\<close>

definition same_ports :: "SnoopFilter \<Rightarrow> SnoopFilter \<Rightarrow> bool" where
  "same_ports sf sf' \<longleftrightarrow> cpuSidePorts sf' = cpuSidePorts sf \<and>
     localResponsePortIds sf' = localResponsePortIds sf \<and> linesize sf' = linesize sf \<and>
     maxEntryCount sf' = maxEntryCount sf"

lemma same_ports_refl [simp]: "same_ports sf sf"
  by (simp add: same_ports_def)

lemma same_ports_derived:
  assumes "same_ports sf sf'"
  shows "ports_ok sf' = ports_ok sf" "ports_of sf' = ports_of sf" "tracked sf' = tracked sf"
    "known sf' = known sf" "portToMask sf' = portToMask sf" "maskToPortList sf' = maskToPortList sf"
proof -
  have pb: "port_bit sf' = port_bit sf"
    using assms by (auto simp: same_ports_def port_bit_def)
  show "ports_ok sf' = ports_ok sf" "ports_of sf' = ports_of sf" "tracked sf' = tracked sf"
    "known sf' = known sf"
    using assms pb by (auto simp: same_ports_def ports_ok_def ports_of_def tracked_def known_def fun_eq_iff)
  show ptm: "portToMask sf' = portToMask sf"
    using assms by (auto simp: same_ports_def portToMask_def fun_eq_iff)
  have "mask_ports sf' m ps = mask_ports sf m ps" for m ps
    by (induction ps) (simp_all add: ptm)
  then show "maskToPortList sf' = maskToPortList sf"
    using assms by (auto simp: same_ports_def maskToPortList_def fun_eq_iff)
qed

text \<open>An entry that is well formed, in the sense of the invariant.\<close>

definition item_ok :: "SnoopFilter \<Rightarrow> SnoopItem \<Rightarrow> bool" where
  "item_ok sf i \<longleftrightarrow> tracked sf (requested i) \<and> tracked sf (holder i)"

lemma item_sets_empty:
  assumes "ports_ok sf" "item_ok sf i"
  shows "item_sets sf (Some i) = ({}, {}) \<longleftrightarrow> requested i OR holder i = 0"
  using ports_of_empty_iff[OF assms(1)] assms(2)
  by (auto simp: item_sets_def item_ok_def or_eq_0_iff)

text \<open>
  Every operation that changes an entry ends in a state that has the new entry, or none when it
  is empty, and the old entries of all other lines.
\<close>

definition changed :: "SnoopFilter \<Rightarrow> addr \<Rightarrow> SnoopItem \<Rightarrow> SnoopFilter \<Rightarrow> bool" where
  "changed sf a i sf' \<longleftrightarrow> same_ports sf sf' \<and> distinct (map fst (cachedLocations sf')) \<and>
     (\<forall>b. sf_find sf' b = (if b \<noteq> a then sf_find sf b
                          else if requested i OR holder i = 0 then None else Some i))"

lemma changed_inv:
  assumes "sf_inv sf" "changed sf a i sf'" "item_ok sf i"
  shows "sf_inv sf'" "sharing_of sf' = (sharing_of sf)(a := item_sets sf (Some i))"
proof -
  have d: "ports_ok sf' = ports_ok sf" "ports_of sf' = ports_of sf" "tracked sf' = tracked sf"
    using same_ports_derived assms(2) by (auto simp: changed_def)
  show "sf_inv sf'"
    using assms d unfolding sf_inv_def changed_def item_ok_def same_ports_def
    by (auto split: if_splits)
  have "item_sets sf' io = item_sets sf io" for io
    by (simp add: item_sets_def d split: option.split)
  moreover have "requested i OR holder i = 0 \<Longrightarrow> item_sets sf (Some i) = ({}, {})"
    using item_sets_empty[of sf i] assms by (auto simp: sf_inv_def)
  ultimately show "sharing_of sf' = (sharing_of sf)(a := item_sets sf (Some i))"
    using assms(2) by (auto simp: sharing_of_def changed_def item_sets_def)
qed

lemma distinct_store: "distinct (map fst (cachedLocations sf)) \<Longrightarrow>
   distinct (map fst (cachedLocations (sf_store a i sf)))"
  by (simp add: sf_store_def AList.distinct_update)

lemma distinct_erase: "distinct (map fst (cachedLocations sf)) \<Longrightarrow>
   distinct (map fst (cachedLocations (sf_erase a sf)))"
  by (simp add: sf_erase_def AList.distinct_delete)

lemma erase_stored:
  assumes "sf_inv sf"
  obtains sf' where "eraseIfNullEntry a (sf_store a i sf) = Inr sf'" "changed sf a i sf'"
proof (cases "requested i OR holder i = 0")
  case True
  then show ?thesis
    using that[of "sf_erase a (sf_store a i sf)"] assms
    by (auto simp: eraseIfNullEntry_def sf_find_store sf_find_erase changed_def same_ports_def
        sf_inv_def distinct_store distinct_erase)
next
  case False
  then show ?thesis
    using that[of "sf_store a i sf"] assms
    by (auto simp: eraseIfNullEntry_def sf_find_store changed_def same_ports_def sf_inv_def
        distinct_store)
qed

lemma stored:
  "sf_inv sf \<Longrightarrow> requested i OR holder i \<noteq> 0 \<Longrightarrow> changed sf a i (sf_store a i sf)"
  by (auto simp: changed_def same_ports_def sf_find_store sf_inv_def distinct_store)

section \<open>Refinement\<close>

definition sf_refines :: "SnoopFilter \<Rightarrow> (CpuSidePort list \<times> SnoopFilter) outcome \<Rightarrow>
    (CpuSidePort set \<times> sharing) option \<Rightarrow> bool" where
  "sf_refines sf r so \<longleftrightarrow>
     (case r of
        Inl err \<Rightarrow> so = None
      | Inr (ps, sf') \<Rightarrow> so = Some (set ps, sharing_of sf') \<and> sf_inv sf' \<and> same_ports sf sf')"

lemma sf_refines_fail [simp]: "sf_refines sf (Inl err) None"
  by (simp add: sf_refines_def)

lemma sf_refines_same: "sf_inv sf \<Longrightarrow> sf_refines sf (Inr ([], sf)) (Some ({}, sharing_of sf))"
  by (simp add: sf_refines_def)

lemma sf_refines_changed:
  assumes "sf_inv sf" "changed sf a i sf'" "item_ok sf i" "item_sets sf (Some i) = RH" "set ps = T"
  shows "sf_refines sf (Inr (ps, sf')) (Some (T, (sharing_of sf)(a := RH)))"
  using changed_inv[OF assms(1-3)] assms(2,4,5) by (auto simp: sf_refines_def changed_def)

lemma sf_inv_item:
  assumes "sf_inv sf" "sf_find sf a = Some i"
  shows "ports_ok sf" "item_ok sf i" "requested i OR holder i \<noteq> 0"
    "sharing_of sf a = (ports_of sf (requested i), ports_of sf (holder i))"
    "sharing_of sf a \<noteq> ({}, {})"
proof -
  show p: "ports_ok sf" "item_ok sf i" "requested i OR holder i \<noteq> 0"
    using assms by (auto simp: sf_inv_def item_ok_def)
  show sh: "sharing_of sf a = (ports_of sf (requested i), ports_of sf (holder i))"
    by (simp add: sharing_of_def assms(2) item_sets_def)
  show "sharing_of sf a \<noteq> ({}, {})"
    using item_sets_empty[OF p(1,2)] p(3) by (simp add: sharing_of_def assms(2))
qed

lemma sharing_of_none: "sf_find sf a = None \<Longrightarrow> sharing_of sf a = ({}, {})"
  by (simp add: sharing_of_def item_sets_def)

lemma updateResponse_refines:
  assumes inv: "sf_inv sf" and ok: "op_ok sf (OpResponse pkt p)"
  shows "sf_refines sf (run_sf (OpResponse pkt p) sf)
     (spec_sf (linesize sf) (maxEntryCount sf) (OpResponse pkt p) (sharing_of sf))"
proof -
  define a where "a = line_key (linesize sf) pkt"
  have la: "line_addr sf pkt = Inr a"
    using line_addr_key[OF inv] ok by (simp add: a_def)
  show ?thesis
  proof (cases "isResponse (cmd pkt) \<and> \<not> isUncacheable (req pkt) \<and> cp_snooping p")
    case False
    then show ?thesis
      using sf_refines_same[OF inv] by (auto simp: updateResponse_def Let_def)
  next
    case guard: True
    show ?thesis
    proof (cases "sf_find sf a")
      case None
      then show ?thesis
        using sf_refines_same[OF inv] guard la sharing_of_none[OF None]
        by (simp add: updateResponse_def Let_def flip: a_def)
    next
      case (Some i)
      note it = sf_inv_item[OF inv Some]
      have p: "p \<in> set (cpuSidePorts sf)"
        using ok guard by (simp add: known_def)
      define m where "m = (push_bit (port_bit sf p) 1 :: SnoopMask)"
      have m: "portToMask sf p = Inr m" "ports_of sf m = {p}" "tracked sf m"
        "x AND m = 0 \<longleftrightarrow> p \<notin> ports_of sf x" for x
        using portToMask_tracked[OF it(1) p] ports_of_single[OF it(1) p] tracked_single[OF it(1) p]
          and_single_port[OF it(1) p] by (simp_all add: m_def)
      show ?thesis
      proof (cases "p \<in> ports_of sf (requested i)")
        case False
        then show ?thesis
          using guard la Some m it by (auto simp: updateResponse_def Let_def simp flip: a_def)
      next
        case True
        define i1 where "i1 = i\<lparr> requested := requested i AND NOT m \<rparr>"
        define i2 where "i2 = (if \<not> isCacheMaintenance (req pkt) then i1\<lparr> holder := holder i1 OR m \<rparr>
          else if isInvalidate (cmd pkt) then i1\<lparr> holder := holder i1 AND NOT m \<rparr> else i1)"
        have ok2: "item_ok sf i2"
          using it(2) m(3) by (simp add: item_ok_def i2_def i1_def)
        have sets: "item_sets sf (Some i2) = (ports_of sf (requested i) - {p},
            if \<not> isCacheMaintenance (req pkt) then insert p (ports_of sf (holder i))
            else if isInvalidate (cmd pkt) then ports_of sf (holder i) - {p} else ports_of sf (holder i))"
          using m(2) by (simp add: item_sets_def i2_def i1_def ports_of_and_not[OF it(1)])
        have spec: "spec_sf (linesize sf) (maxEntryCount sf) (OpResponse pkt p) (sharing_of sf) =
            Some ({}, (sharing_of sf)(a := item_sets sf (Some i2)))"
          using guard True it sets by (auto simp: Let_def simp flip: a_def)
        show ?thesis
        proof (cases "isCacheMaintenance (req pkt)")
          case mt: True
          obtain sf' where sf': "eraseIfNullEntry a (sf_store a i2 sf) = Inr sf'" "changed sf a i2 sf'"
            using erase_stored[OF inv] by metis
          have "run_sf (OpResponse pkt p) sf = Inr ([], sf')"
            using guard la Some m True sf'(1) mt
            by (cases "isInvalidate (cmd pkt)") (simp_all add: updateResponse_def Let_def i2_def i1_def)
          then show ?thesis
            unfolding spec by (simp only: sf_refines_changed[OF inv sf'(2) ok2 refl] list.set)
        next
          case False
          have nz: "requested i2 OR holder i2 \<noteq> 0"
            using item_sets_empty[OF it(1) ok2] sets False by auto
          have "run_sf (OpResponse pkt p) sf = Inr ([], sf_store a i2 sf)"
            using guard la Some m True False nz
            by (simp add: updateResponse_def Let_def i2_def i1_def or.commute)
          then show ?thesis
            unfolding spec
            by (simp only: sf_refines_changed[OF inv stored[OF inv nz] ok2 refl] list.set)
        qed
      qed
    qed
  qed
qed

lemma updateSnoopForward_refines:
  assumes inv: "sf_inv sf" and ok: "op_ok sf (OpSnoopForward pkt)"
  shows "sf_refines sf (run_sf (OpSnoopForward pkt) sf)
     (spec_sf (linesize sf) (maxEntryCount sf) (OpSnoopForward pkt) (sharing_of sf))"
proof -
  define a where "a = line_key (linesize sf) pkt"
  have la: "line_addr sf pkt = Inr a"
    using line_addr_key[OF inv] ok by (simp add: a_def)
  show ?thesis
  proof (cases "isResponse (cmd pkt) \<and> cacheResponding pkt")
    case False
    then show ?thesis by (auto simp: updateSnoopForward_def Let_def)
  next
    case guard: True
    show ?thesis
    proof (cases "sf_find sf a")
      case None
      have "(sharing_of sf)(a := ({}, {})) = sharing_of sf"
        using sharing_of_none[OF None] by (simp add: fun_upd_idem)
      with None show ?thesis
        using sf_refines_same[OF inv] guard la sharing_of_none[OF None]
        by (auto simp: updateSnoopForward_def Let_def simp flip: a_def)
    next
      case (Some i)
      note it = sf_inv_item[OF inv Some]
      have ok2: "item_ok sf (i\<lparr> holder := 0 \<rparr>)"
        using it(2) by (simp add: item_ok_def)
      obtain sf' where sf': "eraseIfNullEntry a (sf_store a (i\<lparr> holder := 0 \<rparr>) sf) = Inr sf'"
        "changed sf a (i\<lparr> holder := 0 \<rparr>) sf'"
        using erase_stored[OF inv] by metis
      show ?thesis
        using sf_refines_changed[OF inv sf'(2) ok2 refl, of "[]" "{}"] sf_refines_same[OF inv]
          guard la Some sf'(1) it(4)
        by (auto simp: updateSnoopForward_def Let_def item_sets_def simp flip: a_def)
    qed
  qed
qed

lemma known_mask:
  assumes "ports_ok sf" "known sf p"
  obtains m where "portToMask sf p = Inr m" "tracked sf m"
    "ports_of sf m = (if cp_snooping p then {p} else {})"
    "\<And>x. x AND m = 0 \<longleftrightarrow> (cp_snooping p \<longrightarrow> p \<notin> ports_of sf x)"
proof (cases "cp_snooping p")
  case True
  then have p: "p \<in> set (cpuSidePorts sf)" using assms(2) by (simp add: known_def)
  show ?thesis
    using that[of "push_bit (port_bit sf p) 1"] True portToMask_tracked[OF assms(1) p]
      ports_of_single[OF assms(1) p] tracked_single[OF assms(1) p] and_single_port[OF assms(1) p]
    by simp
next
  case False
  then show ?thesis
    using that[of 0] assms(2) by (simp add: known_def portToMask_not_snooping)
qed

lemma not_snooping_not_tracked:
  assumes "ports_ok sf" "\<not> cp_snooping p"
  shows "p \<notin> ports_of sf x"
  using assms by (auto simp: ports_of_def ports_ok_def in_set_conv_nth)

lemma updateSnoopResponse_refines:
  assumes inv: "sf_inv sf" and ok: "op_ok sf (OpSnoopResponse pkt rsp p)"
  shows "sf_refines sf (run_sf (OpSnoopResponse pkt rsp p) sf)
     (spec_sf (linesize sf) (maxEntryCount sf) (OpSnoopResponse pkt rsp p) (sharing_of sf))"
proof -
  define a where "a = line_key (linesize sf) pkt"
  have la: "line_addr sf pkt = Inr a"
    using line_addr_key[OF inv] ok by (simp add: a_def)
  have po: "ports_ok sf" using inv by (simp add: sf_inv_def)
  show ?thesis
  proof (cases "isResponse (cmd pkt) \<and> cacheResponding pkt \<and> \<not> isUncacheable (req pkt) \<and> cp_snooping p")
    case False
    then show ?thesis
      using sf_refines_same[OF inv] by (auto simp: updateSnoopResponse_def Let_def)
  next
    case guard: True
    from known_mask[OF po, of rsp] ok obtain mr where mr: "portToMask sf rsp = Inr mr"
      "\<And>x. x AND mr = 0 \<longleftrightarrow> (cp_snooping rsp \<longrightarrow> rsp \<notin> ports_of sf x)"
      by (metis op_ok.simps(3))
    from known_mask[OF po, of p] ok guard obtain m where m: "portToMask sf p = Inr m"
      "tracked sf m" "ports_of sf m = {p}" "\<And>x. x AND m = 0 \<longleftrightarrow> p \<notin> ports_of sf x"
      by (metis op_ok.simps(3))
    have mr': "x AND mr = 0 \<longleftrightarrow> rsp \<notin> ports_of sf x" for x
      using mr(2) not_snooping_not_tracked[OF po] by blast
    show ?thesis
    proof (cases "sf_find sf a")
      case None
      then show ?thesis
        using guard la mr(1) m(1) sharing_of_none[OF None]
        by (simp add: updateSnoopResponse_def Let_def flip: a_def)
    next
      case (Some i)
      note it = sf_inv_item[OF inv Some]
      define i1 where "i1 = (if \<not> hasSharers pkt then i\<lparr> holder := 0 \<rparr> else i)"
      define i2 where "i2 = i1\<lparr> holder := holder i1 OR m, requested := requested i1 AND NOT m \<rparr>"
      have ok2: "item_ok sf i2"
        using it(2) m(2) by (simp add: item_ok_def i2_def i1_def)
      have sets: "item_sets sf (Some i2) = (ports_of sf (requested i) - {p},
          insert p (if hasSharers pkt then ports_of sf (holder i) else {}))"
        using m(3) by (simp add: item_sets_def i2_def i1_def ports_of_and_not[OF po])
      have nz: "requested i2 OR holder i2 \<noteq> 0"
        using item_sets_empty[OF po ok2] sets by auto
      have run: "run_sf (OpSnoopResponse pkt rsp p) sf =
          (if rsp \<notin> ports_of sf (holder i) then Inl (Panic ''SF value does not have the line'')
           else if p \<notin> ports_of sf (requested i) then Inl (Panic ''SF value missing the original request'')
           else if isWriteback (cmd pkt) then Inl (AssertFail ''!cpkt->isWriteback()'')
           else Inr ([], sf_store a i2 sf))"
        using guard la mr(1) m(1) Some nz
        by (cases "hasSharers pkt") (simp_all add: updateSnoopResponse_def Let_def mr' m(4) i2_def i1_def)
      have spec: "spec_sf (linesize sf) (maxEntryCount sf) (OpSnoopResponse pkt rsp p) (sharing_of sf) =
          (if rsp \<notin> ports_of sf (holder i) \<or> p \<notin> ports_of sf (requested i) \<or> isWriteback (cmd pkt)
           then None else Some ({}, (sharing_of sf)(a := item_sets sf (Some i2))))"
        using guard it(4) sets by (simp add: Let_def flip: a_def)
      show ?thesis
        unfolding run spec
        using sf_refines_changed[OF inv stored[OF inv nz] ok2 refl, of "[]" "{}"] by auto
    qed
  qed
qed

lemma occupied_card:
  assumes "sf_inv sf"
  shows "card (occupied (sharing_of sf)) = length (cachedLocations sf)"
proof -
  have "occupied (sharing_of sf) = dom (sf_find sf)"
  proof (intro set_eqI iffI)
    fix a assume "a \<in> occupied (sharing_of sf)"
    then show "a \<in> dom (sf_find sf)"
      using sharing_of_none[of sf a] by (cases "sf_find sf a") (auto simp: occupied_def)
  next
    fix a assume "a \<in> dom (sf_find sf)"
    then show "a \<in> occupied (sharing_of sf)"
      using sf_inv_item(5)[OF assms, of a] by (auto simp: occupied_def)
  qed
  also have "\<dots> = fst ` set (cachedLocations sf)"
    by (simp add: sf_find_def[abs_def] dom_map_of_conv_image_fst)
  also have "card \<dots> = length (cachedLocations sf)"
    using assms distinct_card[of "map fst (cachedLocations sf)"] by (simp add: sf_inv_def)
  finally show ?thesis .
qed

lemma lookupSnoop_refines:
  assumes inv: "sf_inv sf" and ok: "op_ok sf (OpSnoop pkt)"
  shows "sf_refines sf (run_sf (OpSnoop pkt) sf)
     (spec_sf (linesize sf) (maxEntryCount sf) (OpSnoop pkt) (sharing_of sf))"
proof -
  define a where "a = line_key (linesize sf) pkt"
  have la: "line_addr sf pkt = Inr a"
    using line_addr_key[OF inv] ok by (simp add: a_def)
  have po: "ports_ok sf" using inv by (simp add: sf_inv_def)
  show ?thesis
  proof (cases "isRequest (cmd pkt)")
    case False
    then show ?thesis by (simp add: lookupSnoop_def Let_def)
  next
    case req: True
    show ?thesis
    proof (cases "sf_find sf a")
      case None
      then show ?thesis
        using req la sharing_of_none[OF None] sf_refines_same[OF inv] occupied_card[OF inv]
        by (auto simp: lookupSnoop_def snoopDown_def Let_def simp flip: a_def)
    next
      case (Some i)
      note it = sf_inv_item[OF inv Some]
      let ?c = "isWriteback (cmd pkt) \<or> isUncacheable (req pkt) \<or>
        isInvalidate (cmd pkt) = needsWritable (cmd pkt) \<or> isCacheMaintenance (req pkt)"
      have c: "snoop_check pkt = Inr ?c"
        using req by (auto simp: snoop_check_def pkt_needsWritable_def)
      define ts where "ts = filter (\<lambda>p. bit (holder i OR requested i) (port_bit sf p)) (cpuSidePorts sf)"
      have ts: "set ts = ports_of sf (requested i) \<union> ports_of sf (holder i)"
        using maskToPortList_set(2)[OF po, of "holder i OR requested i"] by (auto simp: ts_def)
      have mask: "maskToPortList sf' (holder i OR requested i) = Inr ts" if "same_ports sf sf'" for sf'
        using same_ports_derived(6)[OF that] maskToPortList_set(1)[OF po] by (simp add: ts_def)
      have r0: "requested i = 0 \<longleftrightarrow> ports_of sf (requested i) = {}"
        using ports_of_empty_iff[OF po] it(2) by (auto simp: item_ok_def)
      define i1 where "i1 = i\<lparr> holder := 0 \<rparr>"
      obtain sf' where sf': "eraseIfNullEntry a (sf_store a i1 sf) = Inr sf'" "changed sf a i1 sf'"
        using erase_stored[OF inv] by metis
      have ok2: "item_ok sf i1" using it(2) by (simp add: item_ok_def i1_def)
      show ?thesis
      proof (cases "?c")
        case False
        then have spec: "spec_sf (linesize sf) (maxEntryCount sf) (OpSnoop pkt) (sharing_of sf) = None"
          using req it(4,5) by (simp add: Let_def flip: a_def)
        have "\<exists>err. run_sf (OpSnoop pkt) sf = Inl err"
          using req la Some False by (simp add: lookupSnoop_def c)
        with spec show ?thesis by auto
      next
        case True
        show ?thesis
        proof (cases "isInvalidate (cmd pkt) \<and> requested i = 0")
          case ir: True
          have sp: "same_ports sf sf'" using sf'(2) by (simp add: changed_def)
          have run: "run_sf (OpSnoop pkt) sf = Inr (ts, sf')"
            using req la Some True ir sf'(1) mask[OF sp]
            by (simp add: lookupSnoop_def c snoopSelected_def i1_def)
          have spec: "spec_sf (linesize sf) (maxEntryCount sf) (OpSnoop pkt) (sharing_of sf) =
              Some (set ts, (sharing_of sf)(a := item_sets sf (Some i1)))"
            using req it(4,5) True ir r0 ts
            by (auto simp: Let_def item_sets_def i1_def simp flip: a_def)
          show ?thesis
            unfolding run spec by (rule sf_refines_changed[OF inv sf'(2) ok2 refl refl])
        next
          case False
          have run: "run_sf (OpSnoop pkt) sf = Inr (ts, sf)"
            using req la Some True False mask[of sf]
            by (auto simp: lookupSnoop_def c snoopSelected_def)
          have spec: "spec_sf (linesize sf) (maxEntryCount sf) (OpSnoop pkt) (sharing_of sf) =
              Some (set ts, sharing_of sf)"
            using req it(4,5) True False r0 ts
            by (auto simp: Let_def simp flip: a_def)
          show ?thesis
            unfolding run spec using inv by (simp add: sf_refines_def)
        qed
      qed
    qed
  qed
qed

text \<open>The state in which a looked up request is finished.\<close>

lemma finishRequest_ends:
  assumes inv: "sf_inv sf0" and sp: "same_ports sf0 sf" and dist: "distinct (map fst (cachedLocations sf))"
    and it: "reqIt sf = Some (line_key (linesize sf0) pkt)"
    and find: "\<And>b. sf_find sf b = (if b = line_key (linesize sf0) pkt then Some i else sf_find sf0 b)"
  shows "\<exists>sf'. finishRequest retry (p_addr pkt) (p_isSecure pkt) sf = Inr sf' \<and>
     changed sf0 (line_key (linesize sf0) pkt) (if retry then retryItem sf else i) sf'"
proof -
  define a where "a = line_key (linesize sf0) pkt"
  define j where "j = (if retry then retryItem sf else i)"
  define sf1 where "sf1 = (if retry then sf_store a (retryItem sf) sf else sf)"
  have ls: "linesize sf = linesize sf0" using sp by (simp add: same_ports_def)
  have f1: "sf_find sf1 b = (if b = a then Some j else sf_find sf0 b)" for b
    using find by (auto simp: sf1_def j_def sf_find_store a_def)
  have sp1: "same_ports sf0 sf1" "distinct (map fst (cachedLocations sf1))"
    using sp dist by (auto simp: sf1_def same_ports_def distinct_store)
  have run: "finishRequest retry (p_addr pkt) (p_isSecure pkt) sf = eraseIfNullEntry a sf1"
    using it find[of a] by (simp add: finishRequest_def a_def line_key_def Let_def ls sf1_def)
  define sf' where "sf' = (if requested j OR holder j = 0 then sf_erase a sf1 else sf1)"
  have "eraseIfNullEntry a sf1 = Inr sf'"
    by (simp add: eraseIfNullEntry_def f1 sf'_def)
  moreover have "changed sf0 a j sf'"
    using f1 sp1 by (auto simp: changed_def sf'_def sf_find_erase same_ports_def distinct_erase)
  ultimately show ?thesis
    using run by (auto simp: a_def j_def)
qed

lemma request_item_spec:
  assumes po: "ports_ok sf" and m: "tracked sf m" "ports_of sf m = {p}"
      "\<And>x. x AND m = 0 \<longleftrightarrow> p \<notin> ports_of sf x"
    and ok: "item_ok sf i"
  shows "case request_item pkt m i of
       Inl err \<Rightarrow> spec_request pkt p (item_sets sf (Some i)) = None
     | Inr i' \<Rightarrow> spec_request pkt p (item_sets sf (Some i)) = Some (item_sets sf (Some i')) \<and> item_ok sf i'"
  using m(1,2) ok
  by (auto simp: request_item_def spec_request_def item_sets_def item_ok_def m(3)
      ports_of_and_not[OF po])

lemma sf_unchanged:
  assumes "sf_inv sf" "same_ports sf sf'" "cachedLocations sf' = cachedLocations sf"
  shows "sf_inv sf'" "sharing_of sf' = sharing_of sf"
proof -
  note d = same_ports_derived[OF assms(2)]
  have f: "sf_find sf' b = sf_find sf b" for b
    using assms(3) by (simp add: sf_find_def)
  show "sf_inv sf'"
    using assms unfolding sf_inv_def d f by (simp add: same_ports_def)
  show "sharing_of sf' = sharing_of sf"
    by (auto simp: sharing_of_def fun_eq_iff item_sets_def d f split: option.split)
qed

lemma lookupRequest_refines:
  assumes inv: "sf_inv sf" and ok: "op_ok sf (OpRequest pkt p retry)"
  shows "sf_refines sf (run_sf (OpRequest pkt p retry) sf)
     (spec_sf (linesize sf) (maxEntryCount sf) (OpRequest pkt p retry) (sharing_of sf))"
proof -
  define a where "a = line_key (linesize sf) pkt"
  have la: "line_addr sf pkt = Inr a"
    using line_addr_key[OF inv] ok by (simp add: a_def)
  have po: "ports_ok sf" using inv by (simp add: sf_inv_def)
  have pk: "getAddr pkt = Inr (p_addr pkt)" "pkt_isSecure pkt = Inr (p_isSecure pkt)"
    using ok by (simp_all add: getAddr_eq pkt_isSecure_def)
  from known_mask[OF po, of p] ok obtain m where m: "portToMask sf p = Inr m" "tracked sf m"
    "ports_of sf m = (if cp_snooping p then {p} else {})"
    "\<And>x. x AND m = 0 \<longleftrightarrow> (cp_snooping p \<longrightarrow> p \<notin> ports_of sf x)"
    by (metis op_ok.simps(1))
  define item where "item = (case sf_find sf a of None \<Rightarrow> \<lparr> requested = 0, holder = 0 \<rparr> | Some i \<Rightarrow> i)"
  have item: "item_ok sf item" "sharing_of sf a = item_sets sf (Some item)"
    using sf_inv_item[OF inv, of a] sharing_of_none[of sf a]
    by (cases "sf_find sf a"; simp add: item_def item_ok_def item_sets_def)+
  define ts where "ts = filter (\<lambda>p. bit ((holder item OR requested item) AND NOT m) (port_bit sf p))
    (cpuSidePorts sf)"
  have "set ts = (ports_of sf (holder item) \<union> ports_of sf (requested item)) - ports_of sf m"
    using maskToPortList_set(2)[OF po, of "(holder item OR requested item) AND NOT m"]
    by (simp add: ts_def ports_of_and_not[OF po])
  then have ts: "set ts = fst (sharing_of sf a) \<union> snd (sharing_of sf a) - {p}"
    using m(3) not_snooping_not_tracked[OF po, of p] by (auto simp: item(2) item_sets_def split: if_splits)
  define ri where "ri = (if allocates pkt p then request_item pkt m item else Inr item)"
  define rs where "rs = (if allocates pkt p then spec_request pkt p (sharing_of sf a)
    else Some (sharing_of sf a))"
  have ri: "case ri of Inl err \<Rightarrow> rs = None
      | Inr i' \<Rightarrow> rs = Some (item_sets sf (Some i')) \<and> item_ok sf i'"
  proof (cases "allocates pkt p")
    case True
    then have "cp_snooping p" by (simp add: allocates_def)
    with m(3,4) have "ports_of sf m = {p}" "\<And>x. x AND m = 0 \<longleftrightarrow> p \<notin> ports_of sf x" by auto
    from request_item_spec[OF po m(2) this item(1), of pkt] show ?thesis
      unfolding ri_def rs_def item(2) if_P[OF True] .
  next
    case False
    with item show ?thesis by (simp add: ri_def rs_def)
  qed
  have spec: "spec_sf (linesize sf) (maxEntryCount sf) (OpRequest pkt p retry) (sharing_of sf) =
      (case rs of None \<Rightarrow> None | Some RH' \<Rightarrow> Some (set ts,
         if retry then sharing_of sf else (sharing_of sf)(a := RH')))"
    by (simp add: rs_def Let_def ts split: option.split flip: a_def)
  show ?thesis
  proof (cases "sf_find sf a = None \<and> \<not> allocates pkt p")
    case True
    then have run: "run_sf (OpRequest pkt p retry) sf = Inr ([], sf\<lparr> reqIt := None \<rparr>)"
      using la m(1) pk by (simp add: lookupRequest_def snoopDown_def finishRequest_def)
    have "ts = []"
      using True ts sharing_of_none[of sf a] by auto
    moreover have "rs = Some ({}, {})" "(sharing_of sf)(a := ({}, {})) = sharing_of sf"
      using True sharing_of_none[of sf a] by (auto simp: rs_def fun_upd_idem)
    moreover have "sf_refines sf (Inr ([], sf\<lparr> reqIt := None \<rparr>)) (Some ({}, sharing_of sf))"
      using sf_unchanged[OF inv, of "sf\<lparr> reqIt := None \<rparr>"]
      by (simp add: sf_refines_def same_ports_def)
    ultimately show ?thesis
      unfolding run spec by (simp add: if_distrib cong: if_cong)
  next
    case False
    define sf1 where "sf1 = (if sf_find sf a = None
      then (sf_store a item sf)\<lparr> reqIt := Some a, retryItem := item \<rparr>
      else sf\<lparr> reqIt := Some a, retryItem := item \<rparr>)"
    have sf1: "same_ports sf sf1" "reqIt sf1 = Some a" "retryItem sf1 = item"
      "distinct (map fst (cachedLocations sf1))"
      "\<And>b. b \<noteq> a \<Longrightarrow> sf_find sf1 b = sf_find sf b"
      using inv distinct_store[of sf a item]
      by (auto simp: sf1_def same_ports_def sf_find_store sf_inv_def)
    have mask: "maskToPortList sf1 ((holder item OR requested item) AND NOT m) = Inr ts"
      using same_ports_derived(6)[OF sf1(1)] maskToPortList_set(1)[OF po] by (simp add: ts_def)
    have lookup: "lookupRequest pkt p sf =
        rbind ri (\<lambda>i1. Inr ((ts, lookupLatency sf), sf_store a i1 sf1))"
    proof (cases "sf_find sf a")
      case None
      then show ?thesis
        using False la m(1) mask
        by (simp add: lookupRequest_def Let_def ri_def item_def sf1_def snoopSelected_def)
    next
      case (Some i)
      then show ?thesis
        using la m(1) mask
        by (simp add: lookupRequest_def Let_def ri_def item_def sf1_def snoopSelected_def)
    qed
    show ?thesis
    proof (cases ri)
      case (Inl err)
      with ri have "rs = None" by simp
      then show ?thesis
        unfolding spec using lookup Inl by simp
    next
      case (Inr i1)
      with ri have rs: "rs = Some (item_sets sf (Some i1))" "item_ok sf i1" by simp_all
      define sf2 where "sf2 = sf_store a i1 sf1"
      have sf2: "same_ports sf sf2" "reqIt sf2 = Some a" "retryItem sf2 = item"
        "distinct (map fst (cachedLocations sf2))"
        "\<And>b. sf_find sf2 b = (if b = a then Some i1 else sf_find sf b)"
        using sf1 distinct_store[OF sf1(4)] by (simp_all add: sf2_def same_ports_def sf_find_store)
      from finishRequest_ends[OF inv sf2(1,4), of pkt i1 retry] sf2 obtain sf' where fin:
        "finishRequest retry (p_addr pkt) (p_isSecure pkt) sf2 = Inr sf'"
        "changed sf a (if retry then item else i1) sf'"
        by (auto simp flip: a_def)
      have run: "run_sf (OpRequest pkt p retry) sf = Inr (ts, sf')"
        using lookup Inr pk fin(1) by (simp add: sf2_def)
      have "item_ok sf (if retry then item else i1)"
        using rs(2) item(1) by simp
      from sf_refines_changed[OF inv fin(2) this refl refl, of ts]
      have "sf_refines sf (Inr (ts, sf'))
          (Some (set ts, (sharing_of sf)(a := item_sets sf (Some (if retry then item else i1)))))" .
      moreover have "(sharing_of sf)(a := item_sets sf (Some item)) = sharing_of sf"
        using item(2) by (simp add: fun_upd_idem)
      ultimately show ?thesis
        unfolding run spec rs(1) by (cases retry) simp_all
    qed
  qed
qed

lemma run_sf_refines:
  assumes "sf_inv sf" "op_ok sf x"
  shows "sf_refines sf (run_sf x sf)
     (spec_sf (linesize sf) (maxEntryCount sf) x (sharing_of sf))"
  using assms lookupRequest_refines lookupSnoop_refines updateSnoopResponse_refines
    updateSnoopForward_refines updateResponse_refines
  by (cases x) (simp_all del: run_sf.simps spec_sf.simps op_ok.simps)

text \<open>C7: The snoop filter implements, for every line, the set of ports with a request in
  flight and the set of ports that may hold it. Each operation stops the simulation exactly when
  its specification on sets has no result; otherwise it returns exactly the specified ports to
  snoop and leaves the specified sets, and a request that has to be retried leaves them as they
  were. Entries with no port are never kept.\<close>

theorem snoop_filter_refines:
  assumes "sf_inv sf" "op_ok sf x"
  shows "case run_sf x sf of
       Inl err \<Rightarrow> spec_sf (linesize sf) (maxEntryCount sf) x (sharing_of sf) = None
     | Inr (ps, sf') \<Rightarrow>
         spec_sf (linesize sf) (maxEntryCount sf) x (sharing_of sf) = Some (set ps, sharing_of sf') \<and>
         sf_inv sf'"
  using run_sf_refines[OF assms] by (auto simp: sf_refines_def split: sum.splits)

text \<open>The filter starts in a state that satisfies the invariant.\<close>

definition numbered :: "SnoopFilter \<Rightarrow> bool" where
  "numbered sf \<longleftrightarrow> (\<forall>i < length (cpuSidePorts sf).
     cp_snooping (cpuSidePorts sf ! i) \<and> 0 \<le> cp_id (cpuSidePorts sf ! i) \<and>
     nat (cp_id (cpuSidePorts sf ! i)) < length (localResponsePortIds sf) \<and>
     localResponsePortIds sf ! nat (cp_id (cpuSidePorts sf ! i)) = int i)"

lemma number_ports_numbered:
  assumes "numbered sf" "length (cpuSidePorts sf) = n"
    "\<And>p. p \<in> set ps \<Longrightarrow> 0 \<le> cp_id p \<and> nat (cp_id p) < length (localResponsePortIds sf)"
    "distinct (map cp_id (cpuSidePorts sf @ filter cp_snooping ps))"
  shows "\<exists>sf'. number_ports ps n sf = Inr (n + length (filter cp_snooping ps), sf') \<and> numbered sf' \<and>
     cpuSidePorts sf' = cpuSidePorts sf @ filter cp_snooping ps \<and>
     cachedLocations sf' = cachedLocations sf \<and> linesize sf' = linesize sf"
  using assms
proof (induction ps arbitrary: n sf)
  case (Cons p ps)
  show ?case
  proof (cases "cp_snooping p")
    case False
    then show ?thesis using Cons by auto
  next
    case True
    define sf1 where "sf1 = sf\<lparr> cpuSidePorts := cpuSidePorts sf @ [p],
      localResponsePortIds := (localResponsePortIds sf)[nat (cp_id p) := int n] \<rparr>"
    have p: "0 \<le> cp_id p" "nat (cp_id p) < length (localResponsePortIds sf)"
      using Cons(4)[of p] by auto
    have ne: "nat (cp_id p) \<noteq> nat (cp_id (cpuSidePorts sf ! i))" if "i < length (cpuSidePorts sf)" for i
    proof -
      have "cp_id p \<notin> cp_id ` set (cpuSidePorts sf)" using Cons(5) True by auto
      then have "cp_id p \<noteq> cp_id (cpuSidePorts sf ! i)" using that by auto
      moreover have "0 \<le> cp_id (cpuSidePorts sf ! i)" using Cons(2) that by (simp add: numbered_def)
      ultimately show ?thesis using p(1) by linarith
    qed
    have "numbered sf1"
      using Cons(2,3) True p ne by (auto simp: numbered_def sf1_def nth_append less_Suc_eq)
    moreover have "length (cpuSidePorts sf1) = Suc n" using Cons(3) by (simp add: sf1_def)
    moreover have "0 \<le> cp_id q \<and> nat (cp_id q) < length (localResponsePortIds sf1)" if "q \<in> set ps" for q
      using Cons(4)[of q] that by (simp add: sf1_def)
    moreover have "distinct (map cp_id (cpuSidePorts sf1 @ filter cp_snooping ps))"
      using Cons(5) True by (simp add: sf1_def)
    ultimately obtain sf' where "number_ports ps (Suc n) sf1 =
        Inr (Suc n + length (filter cp_snooping ps), sf')" "numbered sf'"
      "cpuSidePorts sf' = cpuSidePorts sf1 @ filter cp_snooping ps"
      "cachedLocations sf' = cachedLocations sf1" "linesize sf' = linesize sf1"
      using Cons(1) by blast
    with True p show ?thesis
      by (auto simp: sf1_def)
  qed
qed simp

lemma setCPUSidePorts_inv:
  assumes "0 < ls" "ls < 2 ^ 32" "length (filter cp_snooping ps) \<le> SNOOP_MASK_SIZE"
    "\<And>p. p \<in> set ps \<Longrightarrow> 0 \<le> cp_id p \<and> nat (cp_id p) < length ps"
    "distinct (map cp_id (filter cp_snooping ps))"
  shows "\<exists>sf. setCPUSidePorts ps (new_SnoopFilter ls lat cap) = Inr sf \<and> sf_inv sf \<and>
     cpuSidePorts sf = filter cp_snooping ps \<and> sharing_of sf = (\<lambda>_. ({}, {}))"
proof -
  define sf0 where "sf0 = (new_SnoopFilter ls lat cap)\<lparr>
    localResponsePortIds := replicate (length ps) InvalidPortID \<rparr>"
  have "numbered sf0" "length (cpuSidePorts sf0) = 0"
    by (simp_all add: numbered_def sf0_def new_SnoopFilter_def)
  from number_ports_numbered[OF this, of ps] assms(4,5) obtain sf where sf:
    "number_ports ps 0 sf0 = Inr (length (filter cp_snooping ps), sf)" "numbered sf"
    "cpuSidePorts sf = filter cp_snooping ps" "cachedLocations sf = []" "linesize sf = ls"
    by (auto simp: sf0_def new_SnoopFilter_def)
  have "setCPUSidePorts ps (new_SnoopFilter ls lat cap) = Inr sf"
    using sf(1) assms(3) by (simp add: setCPUSidePorts_def sf0_def)
  moreover have "sf_inv sf"
    using sf assms(1-3) by (simp add: sf_inv_def ports_ok_def numbered_def sf_find_def)
  moreover have "sharing_of sf = (\<lambda>_. ({}, {}))"
    using sf(4) by (simp add: fun_eq_iff sharing_of_def sf_find_def item_sets_def)
  ultimately show ?thesis using sf(3) by blast
qed

text \<open>A filter with two snooping ports, as \<open>setCPUSidePorts\<close> sets it up.\<close>

definition sample_ports :: "CpuSidePort list" where
  "sample_ports = [\<lparr> cp_id = 0, cp_snooping = True \<rparr>, \<lparr> cp_id = 1, cp_snooping = False \<rparr>,
     \<lparr> cp_id = 2, cp_snooping = True \<rparr>]"

definition sample_filter :: SnoopFilter where
  "sample_filter = (new_SnoopFilter 64 1 8192)\<lparr>
     cpuSidePorts := [\<lparr> cp_id = 0, cp_snooping = True \<rparr>, \<lparr> cp_id = 2, cp_snooping = True \<rparr>],
     localResponsePortIds := [0, -1, 1] \<rparr>"

lemma sample_filter_setup: "setCPUSidePorts sample_ports (new_SnoopFilter 64 1 8192) = Inr sample_filter"
  by (simp add: setCPUSidePorts_def sample_ports_def sample_filter_def new_SnoopFilter_def
      InvalidPortID_def SNOOP_MASK_SIZE_def numeral_2_eq_2)

lemma sample_filter_inv: "sf_inv sample_filter"
  by (auto simp: sf_inv_def ports_ok_def sample_filter_def new_SnoopFilter_def sf_find_def
      SNOOP_MASK_SIZE_def nth_Cons split: nat.splits)

definition sample_read :: sf_op where
  "sample_read = OpRequest (Packet_new sample_request ReadSharedReq)
     \<lparr> cp_id = 2, cp_snooping = True \<rparr> False"

lemma sample_read_ok: "op_ok sample_filter sample_read"
  by (simp add: known_def sample_filter_def sample_read_def)

theorem snoop_filter_refines_witness:
  "case run_sf sample_read sample_filter of
       Inl err \<Rightarrow> spec_sf (linesize sample_filter) (maxEntryCount sample_filter) sample_read
         (sharing_of sample_filter) = None
     | Inr (ps, sf') \<Rightarrow> spec_sf (linesize sample_filter) (maxEntryCount sample_filter) sample_read
         (sharing_of sample_filter) = Some (set ps, sharing_of sf') \<and> sf_inv sf'"
  by (rule snoop_filter_refines[OF sample_filter_inv sample_read_ok])

section \<open>No holder is missed\<close>

fun run_sfs :: "sf_op list \<Rightarrow> SnoopFilter \<Rightarrow> SnoopFilter outcome" where
  "run_sfs [] sf = Inr sf"
| "run_sfs (x # xs) sf = rbind (run_sf x sf) (\<lambda>r. run_sfs xs (snd r))"

text \<open>The operations after which a port may have lost a line.\<close>

fun drops :: "CpuSidePort \<Rightarrow> addr \<Rightarrow> u64 \<Rightarrow> sf_op \<Rightarrow> bool" where
  "drops p a ls (OpRequest pkt q retry) \<longleftrightarrow> q = p \<and> line_key ls pkt = a \<and>
     \<not> needsResponse (cmd pkt) \<and> \<not> isBlockCached pkt"
| "drops p a ls (OpSnoop pkt) \<longleftrightarrow> line_key ls pkt = a \<and> isInvalidate (cmd pkt)"
| "drops p a ls (OpSnoopResponse pkt rsp q) \<longleftrightarrow> line_key ls pkt = a \<and> \<not> hasSharers pkt"
| "drops p a ls (OpSnoopForward pkt) \<longleftrightarrow> line_key ls pkt = a \<and> \<not> hasSharers pkt"
| "drops p a ls (OpResponse pkt q) \<longleftrightarrow> q = p \<and> line_key ls pkt = a \<and>
     isCacheMaintenance (req pkt) \<and> isInvalidate (cmd pkt)"

lemma spec_keeps_holder:
  assumes "spec_sf ls cap x A = Some (T, A')" "p \<in> snd (A a)" "\<not> drops p a ls x"
  shows "p \<in> snd (A' a)"
proof (cases x)
  case (OpRequest pkt q retry)
  with assms show ?thesis
    by (auto simp: Let_def spec_request_def split: option.splits if_splits prod.splits)
next
  case (OpSnoop pkt)
  with assms show ?thesis by (auto simp: Let_def split: if_splits)
next
  case (OpSnoopResponse pkt rsp q)
  with assms show ?thesis by (auto simp: Let_def split: if_splits)
next
  case (OpSnoopForward pkt)
  with assms show ?thesis by (auto simp: Let_def split: if_splits)
next
  case (OpResponse pkt q)
  with assms show ?thesis by (auto simp: Let_def split: if_splits)
qed

text \<open>Holders are snooped.\<close>

lemma spec_targets:
  assumes "spec_sf ls cap y A = Some (T, A')" "p \<in> snd (A a)" "line_key ls pkt = a"
    "y = OpRequest pkt q retry \<and> q \<noteq> p \<or> y = OpSnoop pkt"
  shows "p \<in> T"
  using assms(4)
proof
  assume "y = OpRequest pkt q retry \<and> q \<noteq> p"
  with assms show ?thesis by (auto simp: Let_def split: option.splits)
next
  assume "y = OpSnoop pkt"
  with assms show ?thesis by (auto simp: Let_def split: if_splits)
qed

lemma op_ok_same_ports: "same_ports sf sf' \<Longrightarrow> op_ok sf' x = op_ok sf x"
  by (cases x) (simp_all add: same_ports_derived)

lemma run_sf_step:
  assumes "sf_inv sf" "op_ok sf x" "run_sf x sf = Inr (ps, sf')"
  shows "sf_inv sf'" "same_ports sf sf'"
    "spec_sf (linesize sf) (maxEntryCount sf) x (sharing_of sf) = Some (set ps, sharing_of sf')"
  using run_sf_refines[OF assms(1,2)] assms(3) by (auto simp: sf_refines_def)

lemma run_sfs_keep_holder:
  assumes "sf_inv sf" "p \<in> snd (sharing_of sf a)" "run_sfs xs sf = Inr sf'"
    "\<And>x. x \<in> set xs \<Longrightarrow> op_ok sf x \<and> \<not> drops p a (linesize sf) x"
  shows "sf_inv sf' \<and> same_ports sf sf' \<and> p \<in> snd (sharing_of sf' a)"
  using assms
proof (induction xs arbitrary: sf)
  case (Cons x xs)
  then obtain ps sf1 where step: "run_sf x sf = Inr (ps, sf1)" "run_sfs xs sf1 = Inr sf'"
    by auto
  have x: "op_ok sf x" "\<not> drops p a (linesize sf) x" using Cons(5)[of x] by auto
  note s1 = run_sf_step[OF Cons(2) x(1) step(1)]
  have "p \<in> snd (sharing_of sf1 a)"
    by (rule spec_keeps_holder[OF s1(3) Cons(3) x(2)])
  moreover have "op_ok sf1 y \<and> \<not> drops p a (linesize sf1) y" if "y \<in> set xs" for y
    using Cons(5)[of y] that op_ok_same_ports[OF s1(2)] s1(2) by (simp add: same_ports_def)
  ultimately have "sf_inv sf' \<and> same_ports sf1 sf' \<and> p \<in> snd (sharing_of sf' a)"
    by (rule Cons(1)[OF s1(1) _ step(2)])
  with s1(2) show ?case by (auto simp: same_ports_def)
qed simp

text \<open>C8: The snoop filter never misses a holder. Once the response to a request of a port has
  passed, then after any operations none of which takes the line from the port (its own eviction
  of the line, an invalidating snoop, a snoop response without sharers, an invalidating cache
  maintenance response to it), the port is among those to snoop for every request of another
  port and every snoop from below to that line.\<close>

theorem snoop_filter_misses_no_holder:
  assumes "sf_inv sf" "p \<in> fst (sharing_of sf a)"
    "op_ok sf (OpResponse pkt0 p)" "line_key (linesize sf) pkt0 = a"
    "\<not> isUncacheable (req pkt0)" "\<not> isCacheMaintenance (req pkt0)"
    "run_sfs (OpResponse pkt0 p # xs) sf = Inr sf2"
    "\<And>x. x \<in> set xs \<Longrightarrow> op_ok sf x \<and> \<not> drops p a (linesize sf) x"
    "y = OpRequest pkt q retry \<and> q \<noteq> p \<or> y = OpSnoop pkt" "op_ok sf y" "line_key (linesize sf) pkt = a"
    "run_sf y sf2 = Inr (ts, sf3)"
  shows "p \<in> set ts"
proof -
  from assms(7) obtain ps sf1 where resp: "run_sf (OpResponse pkt0 p) sf = Inr (ps, sf1)"
    "run_sfs xs sf1 = Inr sf2"
    by (cases "run_sf (OpResponse pkt0 p) sf") (auto simp del: run_sf.simps)
  note s1 = run_sf_step[OF assms(1,3) resp(1)]
  have sn: "cp_snooping p"
    using assms(1,2) not_snooping_not_tracked[of sf p]
    by (cases "sf_find sf a") (auto simp: sf_inv_def sharing_of_def item_sets_def)
  have hold: "p \<in> snd (sharing_of sf1 a)"
  proof -
    have "sharing_of sf1 = (sharing_of sf)(a := (fst (sharing_of sf a) - {p}, insert p (snd (sharing_of sf a))))"
      using s1(3) assms(2,4-6) sn by (auto simp: Let_def split: if_splits)
    then show ?thesis by simp
  qed
  have "op_ok sf1 x \<and> \<not> drops p a (linesize sf1) x" if "x \<in> set xs" for x
    using assms(8)[OF that] op_ok_same_ports[OF s1(2)] s1(2) by (simp add: same_ports_def)
  from run_sfs_keep_holder[OF s1(1) hold resp(2) this]
  have sf2: "sf_inv sf2" "same_ports sf1 sf2" "p \<in> snd (sharing_of sf2 a)"
    by auto
  have sp: "same_ports sf sf2"
    using s1(2) sf2(2) by (simp add: same_ports_def)
  have "op_ok sf2 y" "line_key (linesize sf2) pkt = a"
    using op_ok_same_ports[OF sp] assms(10,11) sp by (simp_all add: same_ports_def)
  with run_sf_step(3)[OF sf2(1) this(1) assms(12)] sf2(3) assms(9) spec_targets show ?thesis
    by blast
qed

text \<open>A filter in which port 2 has requested the line at \<open>0x90000040\<close>.\<close>

definition requested_filter :: SnoopFilter where
  "requested_filter = sample_filter\<lparr> cachedLocations := [(0x90000040, \<lparr> requested = 2, holder = 0 \<rparr>)] \<rparr>"

abbreviation port0 :: CpuSidePort where "port0 \<equiv> \<lparr> cp_id = 0, cp_snooping = True \<rparr>"
abbreviation port2 :: CpuSidePort where "port2 \<equiv> \<lparr> cp_id = 2, cp_snooping = True \<rparr>"

lemma requested_filter_inv: "sf_inv requested_filter"
proof -
  have "tracked requested_filter (2 :: SnoopMask)"
    unfolding tracked_def
  proof (intro allI impI)
    fix i assume "bit (2 :: SnoopMask) i"
    then have "i = 1" by (simp add: bit_2_iff)
    then show "i < length (cpuSidePorts requested_filter)"
      by (simp add: requested_filter_def sample_filter_def)
  qed
  moreover have "ports_ok requested_filter"
    using sample_filter_inv by (simp add: sf_inv_def ports_ok_def requested_filter_def)
  ultimately show ?thesis
    by (auto simp: sf_inv_def sf_find_def requested_filter_def sample_filter_def new_SnoopFilter_def)
qed

lemma sample_line: "line_key 64 (Packet_new sample_request c) = 0x90000040"
  by (simp add: line_key_def Packet_new_def sample_request_def flag_isSet_def)

theorem snoop_filter_misses_no_holder_witness:
  "\<exists>sf2 ts sf3.
     run_sfs [OpResponse (Packet_new sample_request ReadResp) port2] requested_filter = Inr sf2 \<and>
     run_sf (OpRequest (Packet_new sample_request ReadSharedReq) port0 False) sf2 = Inr (ts, sf3) \<and>
     port2 \<in> set ts"
proof -
  let ?r = "OpResponse (Packet_new sample_request ReadResp) port2"
  let ?y = "OpRequest (Packet_new sample_request ReadSharedReq) port0 False"
  have ls: "linesize requested_filter = 64"
    by (simp add: requested_filter_def sample_filter_def new_SnoopFilter_def)
  have ok: "op_ok requested_filter ?r" "op_ok requested_filter ?y"
    by (simp_all add: known_def requested_filter_def sample_filter_def)
  have sh: "sharing_of requested_filter 0x90000040 = ({port2}, {})"
    by (auto simp: sharing_of_def sf_find_def item_sets_def ports_of_def port_bit_def
        requested_filter_def sample_filter_def bit_2_iff)
  have m0: "\<not> isUncacheable sample_request" "\<not> isCacheMaintenance sample_request"
    by (simp_all add: isUncacheable_def isCacheMaintenance_def sample_request_def flag_isSet_def)
  have rc: "isResponse ReadResp" "fromCache ReadSharedReq" "needsResponse ReadSharedReq"
    by code_simp+
  from run_sf_refines[OF requested_filter_inv ok(1)] obtain ps sf2 where s2:
    "run_sf ?r requested_filter = Inr (ps, sf2)" "sf_inv sf2" "same_ports requested_filter sf2"
    "sharing_of sf2 = (sharing_of requested_filter)(0x90000040 := ({}, {port2}))"
    using sh m0 rc ls sample_line
    by (cases "run_sf ?r requested_filter")
      (auto simp: sf_refines_def Let_def simp del: run_sf.simps)
  have ok2: "op_ok sf2 ?y"
    using op_ok_same_ports[OF s2(3), of ?y] ok(2) by (simp only:)
  have ls2: "linesize sf2 = 64"
    using s2(3) ls by (simp add: same_ports_def)
  have "spec_sf 64 (maxEntryCount sf2) ?y (sharing_of sf2) \<noteq> None"
    using s2(4) sample_line rc
    by (simp add: Let_def spec_request_def Packet_new_def sample_request_def cacheResponding_def
        flag_isSet_def packet_flag_defs)
  with run_sf_refines[OF s2(2) ok2] ls2 obtain ts sf3 where s3: "run_sf ?y sf2 = Inr (ts, sf3)"
    by (cases "run_sf ?y sf2") (auto simp: sf_refines_def simp del: run_sf.simps spec_sf.simps)
  have run: "run_sfs [?r] requested_filter = Inr sf2"
    using s2(1) by (simp del: run_sf.simps)
  have "port2 \<in> set ts"
    by (rule snoop_filter_misses_no_holder[OF requested_filter_inv _ ok(1) _ _ _ run _ _ ok(2) _ s3])
      (use sh ls sample_line m0 in auto)
  with run s3 show ?thesis by blast
qed

end
