(* ===== verification/CoherentXBarDirectory.thy ===== *)
theory CoherentXBarDirectory
  imports HostXBarFilter SnoopFilterProps
begin

text \<open>
  The crossbar together with its snoop filter: a request is one step of the filter's
  specification, and the ports that are snooped are exactly those the filter records for the
  line.
\<close>

section \<open>A filter that belongs to the crossbar\<close>

definition filter_matches :: "'z CoherentXBar_scheme \<Rightarrow> SnoopFilter \<Rightarrow> bool" where
  "filter_matches x sf \<longleftrightarrow> snoopFilter x = Some sf \<and> sf_inv sf \<and>
     cpuSidePorts sf = filter cp_snooping (ccpuSidePorts x) \<and>
     (\<forall>i < length (ccpuSidePorts x). cp_id (ccpuSidePorts x ! i) = int i)"

lemma matches_known:
  assumes "filter_matches x sf" "at_port (ccpuSidePorts x) src = Inr port"
  shows "known sf port" "cp_id port = src"
proof -
  have p: "0 \<le> src" "nat src < length (ccpuSidePorts x)" "ccpuSidePorts x ! nat src = port"
    using assms(2) by simp_all
  with assms(1) show c: "cp_id port = src" by (auto simp: filter_matches_def)
  show "known sf port"
    using p c assms(1) by (auto simp: known_def filter_matches_def InvalidPortID_def)
qed

lemma matches_unique:
  assumes "filter_matches x sf" "p \<in> set (cpuSidePorts sf)" "q \<in> set (ccpuSidePorts x)" "cp_id p = cp_id q"
  shows "p = q"
proof -
  have "p \<in> set (ccpuSidePorts x)" using assms(1,2) by (auto simp: filter_matches_def)
  then obtain i j where "i < length (ccpuSidePorts x)" "p = ccpuSidePorts x ! i"
    "j < length (ccpuSidePorts x)" "q = ccpuSidePorts x ! j"
    using assms(3) by (auto simp: in_set_conv_nth)
  with assms(1,4) show ?thesis by (auto simp: filter_matches_def)
qed

text \<open>The memory side also keeps the security of a packet, which the filter asks for afterwards.\<close>

definition keeps_security :: "'e xpeers \<Rightarrow> bool" where
  "keeps_security peers \<longleftrightarrow> (\<forall>p pkt e s pkt' e'. sendTimingReq peers p pkt e = Inr (s, pkt', e') \<longrightarrow>
     p_isSecure pkt' = p_isSecure pkt \<and> valid_addr pkt' = valid_addr pkt)"

lemma sent_security:
  assumes "send_onwards peers d es sink mem pk x e = Inr (s, direct, pk1, e')" "keeps_security peers"
  shows "p_isSecure pk1 = p_isSecure pk \<and> valid_addr pk1 = valid_addr pk"
proof (cases "sink \<or> direct")
  case True
  then show ?thesis using send_onwards_cases(1,2)[OF assms(1)] by blast
next
  case False
  then obtain q where "sendTimingReq peers mem q e = Inr (s, pk1, e')" "p_isSecure q = p_isSecure pk"
    "valid_addr q = valid_addr pk" using send_onwards_cases(3)[OF assms(1)] by blast
  then show ?thesis using assms(2) unfolding keeps_security_def by metis
qed

section \<open>Lookup and finish are one step of the filter\<close>

lemma line_key_identity: "keeps_identity pkt pkt' \<Longrightarrow> line_key ls pkt' = line_key ls pkt"
  by (simp add: keeps_identity_def line_key_def)

lemma spec_request_targets:
  "spec_sf ls cap (OpRequest pkt p retry) A = Some (T, A') \<Longrightarrow>
     T = fst (A (line_key ls pkt)) \<union> snd (A (line_key ls pkt)) - {p} \<and> (retry \<longrightarrow> A' = A)"
  by (auto simp: Let_def split: option.splits if_splits)

lemma spec_request_cong:
  assumes "cmd pkt' = cmd pkt" "p_flags pkt' = p_flags pkt" "p_addr pkt' = p_addr pkt" "p_isSecure pkt' = p_isSecure pkt"
    "r_flags (req pkt') = r_flags (req pkt)"
  shows "spec_sf ls cap (OpRequest pkt' p retry) A = spec_sf ls cap (OpRequest pkt p retry) A"
proof -
  have "line_key ls pkt' = line_key ls pkt" "allocates pkt' = allocates pkt" "spec_request pkt' = spec_request pkt"
    using assms by (simp_all add: fun_eq_iff line_key_def allocates_def isUncacheable_def spec_request_def cacheResponding_def isBlockCached_def)
  then show ?thesis by (simp only: spec_sf.simps)
qed

text \<open>The ports the filter records for the line of a packet: those with a request in flight and those
  that may hold it.\<close>

definition recorded :: "SnoopFilter \<Rightarrow> Packet \<Rightarrow> CpuSidePort set" where
  "recorded sf pkt = fst (sharing_of sf (line_key (linesize sf) pkt)) \<union> snd (sharing_of sf (line_key (linesize sf) pkt))"

text \<open>What a served request leaves behind: the snoops and the state of the filter before a possible
  direct answer.\<close>

lemma filter_step:
  assumes m: "filter_matches x sf" and a: "at_port (ccpuSidePorts x) src = Inr port" and v: "valid_addr pkt"
    and l: "lookupRequest pkt port sf = Inr ((dests, lat), sf1)"
    and k: "keeps_identity pkt pk" and sec: "p_isSecure pk1 = p_isSecure pk" "valid_addr pk1 = valid_addr pk"
    and f: "finish_filter True retry (p_addr pk) pk1 (x1 :: 'z CoherentXBar_scheme) = Inr x2" "snoopFilter x1 = Some sf1"
  shows "\<exists>sf2. snoopFilter x2 = Some sf2 \<and> sf_inv sf2 \<and> same_ports sf sf2 \<and>
    (retry \<longrightarrow> sharing_of sf2 = sharing_of sf) \<and>
    spec_sf (linesize sf) (maxEntryCount sf) (OpRequest pkt port retry) (sharing_of sf) = Some (set dests, sharing_of sf2) \<and>
    set dests = fst (sharing_of sf (line_key (linesize sf) pkt)) \<union> snd (sharing_of sf (line_key (linesize sf) pkt)) - {port}
    \<and> set dests \<subseteq> set (cpuSidePorts sf)"
proof -
  have inv: "sf_inv sf" using m by (simp add: filter_matches_def)
  have ok: "op_ok sf (OpRequest pkt port retry)" using matches_known(1)[OF m a] v by simp
  have ids: "p_addr pk = p_addr pkt" "p_isSecure pk = p_isSecure pkt" "valid_addr pk1"
    using k sec v by (simp_all add: keeps_identity_def)
  from f obtain sf2 where f2: "finishRequest retry (p_addr pkt) (p_isSecure pkt) sf1 = Inr sf2" "snoopFilter x2 = Some sf2"
    using ids sec by (auto simp: finish_filter_def pkt_isSecure_def)
  have run: "run_sf (OpRequest pkt port retry) sf = Inr (dests, sf2)"
    using l f2(1) v by (simp add: getAddr_eq pkt_isSecure_def)
  note step = run_sf_step[OF inv ok run]
  have t: "set dests = fst (sharing_of sf (line_key (linesize sf) pkt)) \<union> snd (sharing_of sf (line_key (linesize sf) pkt)) - {port}
      \<and> (retry \<longrightarrow> sharing_of sf2 = sharing_of sf)"
    using spec_request_targets[OF step(3)] by simp
  moreover have "set dests \<subseteq> set (cpuSidePorts sf)"
    using t by (auto simp: sharing_of_def item_sets_def ports_of_def split: option.splits)
  ultimately show ?thesis using f2(2) step by blast
qed

lemma snooped_all:
  assumes "filter_matches x sf" "at_port (ccpuSidePorts x) src = Inr port" "port \<notin> set dests"
    "set dests \<subseteq> set (cpuSidePorts sf)"
  shows "snooped src dests = map cp_id dests"
proof -
  have "port \<in> set (ccpuSidePorts x)" using assms(2) by auto
  then have "\<forall>p \<in> set dests. cp_id p \<noteq> src"
    using matches_unique[OF assms(1), of _ port] matches_known(2)[OF assms(1,2)] assms(3,4) by auto
  then show ?thesis by (simp add: snooped_def)
qed

section \<open>A request through the crossbar\<close>

lemma snoop_request_filterE:
  assumes "snoop_request peers clk pkt src x e = Inr (pk, x2, e2)" "snoopFilter x = Some sf"
  obtains port dests lat sf1 where "at_port (ccpuSidePorts x) src = Inr port"
    "lookupRequest pkt port sf = Inr ((dests, lat), sf1)"
    "x2 = x\<lparr> snoopFilter := Some sf1, gh_snooped := gh_snooped x @
       (if isEviction (cmd pkt) then [] else snooped src dests) \<rparr>"
    "polite_snoopers peers \<Longrightarrow> keeps_identity pkt pk"
proof -
  obtain port dests lat sf1 pk0 where l: "at_port (ccpuSidePorts x) src = Inr port"
      "lookupRequest pkt port sf = Inr ((dests, lat), sf1)"
    and f: "(if isEviction (cmd (charge_lookup clk lat pkt))
          then Inr (if dests \<noteq> [] then setBlockCached (charge_lookup clk lat pkt) else charge_lookup clk lat pkt,
            x\<lparr> snoopFilter := Some sf1 \<rparr>, e)
          else forwardTiming peers (charge_lookup clk lat pkt) src dests (x\<lparr> snoopFilter := Some sf1 \<rparr>) e)
       = Inr (pk0, x2, e2)" "pk = charge_snoop_delay pk0"
    using assms by (auto simp: snoop_request_def Let_def)
  have c: "cmd (charge_lookup clk lat pkt) = cmd pkt" by (simp add: charge_lookup_def)
  show ?thesis
  proof (cases "isEviction (cmd pkt)")
    case True
    with f c show ?thesis by (intro that[OF l]) (auto split: if_splits)
  next
    case False
    with f(1) c have "forwardTiming peers (charge_lookup clk lat pkt) src dests (x\<lparr> snoopFilter := Some sf1 \<rparr>) e
      = Inr (pk0, x2, e2)" by simp
    from forwardTiming_frame[OF this] f(2) False show ?thesis by (intro that[OF l]) auto
  qed
qed

context xbar_frame
begin

lemma route_history: "v_route V sink pkt src x = Inr x' \<Longrightarrow>
  gh_snooped x' = gh_snooped x \<and> snoopFilter x' = snoopFilter x \<and> csched_resps x' = csched_resps x"
  using route_core[of sink pkt src x x'] core_eqD(10,16,17)[of x'] by (fastforce simp: set_route_def)

lemma accounted_history:
  "accounted V ex direct sink mem pk pk1 src xa xb \<Longrightarrow>
    gh_snooped xb = gh_snooped xa \<and> snoopFilter xb = snoopFilter xa \<and> csched_resps xb = csched_resps xa"
  by (auto simp: accounted_def account_request_def set_creq_def dest!: route_history split: if_splits)

lemma answer_history:
  assumes "answer_request V clk True direct d sink pkt src x = Inr (pkt', x')"
  shows "gh_snooped x' = gh_snooped x" "csched_resps x' = csched_resps x \<Longrightarrow> snoopFilter x' = snoopFilter x"
proof -
  have "gh_snooped x' = gh_snooped x \<and> (csched_resps x' = csched_resps x \<longrightarrow> snoopFilter x' = snoopFilter x)"
    using assms
  proof (cases rule: answer_requestE)
    case (1 dir df port x1)
    have h: "gh_snooped x1 = gh_snooped x \<and> snoopFilter x1 = snoopFilter x \<and> csched_resps x1 = csched_resps x"
      using 1(1) by (auto simp: deferred_clean_def del_route_def Let_def dest!: route_history split: if_splits option.splits)
    show ?thesis
    proof (cases dir)
      case True
      with 1(3) obtain rsp where "respond_directly clk (headerDelay pkt) (case df of None \<Rightarrow> pkt | Some p \<Rightarrow> p) port x1
        = Inr (rsp, x')" by auto
      then show ?thesis by (rule respond_directly_frame) (use h in auto)
    qed (use 1(3) h in auto)
  qed
  then show "gh_snooped x' = gh_snooped x" "csched_resps x' = csched_resps x \<Longrightarrow> snoopFilter x' = snoopFilter x"
    by blast+
qed

text \<open>A request that is served snoops the recorded ports and is one step of the filter.\<close>

lemma served_request:
  assumes s: "serve_request V peers clk ex mem l1 pkt src x e = Inr (b, pkt', x', e')"
    and m: "filter_matches x sf" and v: "valid_addr pkt" "\<not> bypassCaches x" "cmd pkt \<noteq> WriteClean" "v_snoops V pkt"
    and polite: "polite_snoopers peers" "keeps_security peers"
  shows "\<not> b \<and> snoopFilter x' = snoopFilter x \<and> gh_snooped x' = gh_snooped x \<or>
    (\<exists>port ps sf2. at_port (ccpuSidePorts x) src = Inr port \<and> gh_snooped x' = gh_snooped x @ map cp_id ps \<and>
       (if isEviction (cmd pkt) then ps = [] else set ps = recorded sf pkt - {port}) \<and> sf_inv sf2 \<and>
       spec_sf (linesize sf) (maxEntryCount sf) (OpRequest pkt port (\<not> b)) (sharing_of sf)
         = Some (recorded sf pkt - {port}, sharing_of sf2) \<and>
       (\<not> b \<longrightarrow> snoopFilter x' = Some sf2 \<and> sharing_of sf2 = sharing_of sf) \<and>
       (b \<longrightarrow> csched_resps x' = csched_resps x \<longrightarrow> snoopFilter x' = Some sf2))"
  using s
proof (cases rule: serve_requestE)
  case (not_ready pkt1 l)
  then show ?thesis by (simp add: set_creq_def)
next
  case (ready pkt1 sc pk x2 e2 fin)
  note c = calcPacketTiming_more[OF ready(1)]
  have id1: "keeps_identity pkt pkt1" "valid_addr pkt1" "cmd pkt1 = cmd pkt"
    using c(1) v(1) by (auto simp: keeps_identity_def)
  have sc: "v_snoops V pkt1 \<and> sc" "sc"
    using ready(2) v id1(3) type_only[of pkt1 pkt] c(4) by auto
  with ready(3) have "snoop_request peers clk pkt1 src x e = Inr (pk, x2, e2)" by simp
  then obtain port dests lat sf1 where l: "at_port (ccpuSidePorts x) src = Inr port"
      "lookupRequest pkt1 port sf = Inr ((dests, lat), sf1)"
    and x2: "x2 = x\<lparr> snoopFilter := Some sf1, gh_snooped := gh_snooped x @
       (if isEviction (cmd pkt1) then [] else snooped src dests) \<rparr>"
    and id2: "keeps_identity pkt1 pk"
    by (rule snoop_request_filterE) (use m polite(1) in \<open>auto simp: filter_matches_def\<close>)
  have rec: "recorded sf pkt1 = recorded sf pkt" using line_key_identity[OF id1(1)] by (simp add: recorded_def)
  have spec: "spec_sf ls cap (OpRequest pkt1 port retry) A = spec_sf ls cap (OpRequest pkt port retry) A" for ls cap retry A
    using c id1(3) by (intro spec_request_cong) (auto simp: keeps_identity_def)
  have fin: "\<exists>sf2. snoopFilter y = Some sf2 \<and> sf_inv sf2 \<and> (retry \<longrightarrow> sharing_of sf2 = sharing_of sf) \<and>
      spec_sf (linesize sf) (maxEntryCount sf) (OpRequest pkt port retry) (sharing_of sf)
        = Some (recorded sf pkt - {port}, sharing_of sf2)
      \<and> set dests = recorded sf pkt - {port} \<and> set dests \<subseteq> set (cpuSidePorts sf)"
    if "finish_filter sc retry (p_addr pk) pk1 x2 = Inr y" "send_onwards peers d es sink mem pk x2 e2 = Inr (s, direct, pk1, e')"
    for retry pk1 y d es sink s direct
    using filter_step[OF m l(1) id1(2) l(2) id2, of pk1 retry x2 y] sent_security[OF that(2) polite(2)] that(1) sc(2) x2
    unfolding recorded_def[symmetric] rec spec by auto
  have gh: "\<exists>ps. gh_snooped x2 = gh_snooped x @ map cp_id ps \<and>
       (if isEviction (cmd pkt) then ps = [] else set ps = recorded sf pkt - {port})"
    if "set dests = recorded sf pkt - {port}" "set dests \<subseteq> set (cpuSidePorts sf)"
    using snooped_all[OF m l(1) _ that(2)] that(1) x2 id1(3)
    by (intro exI[of _ "if isEviction (cmd pkt) then [] else dests"]) auto
  from ready(4) show ?thesis
  proof (cases rule: forward_requestE)
    case (refused l2 sf' pk1 sink)
    obtain sf2 where f2: "sf' = Some sf2" "sf_inv sf2" "sharing_of sf2 = sharing_of sf"
      "spec_sf (linesize sf) (maxEntryCount sf) (OpRequest pkt port True) (sharing_of sf)
        = Some (recorded sf pkt - {port}, sharing_of sf2)"
      "set dests = recorded sf pkt - {port}" "set dests \<subseteq> set (cpuSidePorts sf)"
      using fin[OF refused(7,6)] by auto
    obtain ps where "gh_snooped x' = gh_snooped x @ map cp_id ps"
      "if isEviction (cmd pkt) then ps = [] else set ps = recorded sf pkt - {port}"
      using gh[OF f2(5,6)] refused(3) by (auto simp: set_creq_def)
    with f2(1-4) refused(1,3) l(1) show ?thesis
      by (intro disjI2 exI[of _ port] exI[of _ ps] exI[of _ sf2]) (simp add: set_creq_def)
  next
    case (accepted sink direct pk1 sf' xb)
    obtain sf2 where f2: "sf' = Some sf2" "sf_inv sf2"
      "spec_sf (linesize sf) (maxEntryCount sf) (OpRequest pkt port False) (sharing_of sf)
        = Some (recorded sf pkt - {port}, sharing_of sf2)"
      "set dests = recorded sf pkt - {port}" "set dests \<subseteq> set (cpuSidePorts sf)"
      using fin[OF accepted(4,3)] by auto
    note h = accounted_history[OF accepted(5)] answer_history[OF accepted(6)]
    have "csched_resps x' = csched_resps x \<Longrightarrow> snoopFilter x' = Some sf2" "gh_snooped x' = gh_snooped x2"
      using h f2(1) x2 by simp_all
    moreover obtain ps where "gh_snooped x2 = gh_snooped x @ map cp_id ps"
      "if isEviction (cmd pkt) then ps = [] else set ps = recorded sf pkt - {port}"
      using gh[OF f2(4,5)] by blast
    ultimately show ?thesis using f2(1-3) accepted(1) l(1)
      by (intro disjI2 exI[of _ port] exI[of _ ps] exI[of _ sf2]) simp
  qed
qed

end

section \<open>The host crossbar\<close>

text \<open>C10: The host crossbar snoops exactly the caches its filter records. Take a request that the crossbar
  shows to the caches, in a state whose snoop filter satisfies its invariant. Either the request
  is refused before the filter is asked, and no cache is snooped; or it is one step of the
  filter's specification: unless it is an eviction, exactly the ports that have asked for the
  line or may hold it are snooped, the source excepted; the filter keeps its invariant; if the
  request is refused by the memory side, the filter records the same sharing as before; and if it
  is accepted and not answered by the crossbar itself, the filter records what the specification
  says.\<close>

theorem request_snoops_recorded_caches:
  assumes "host_recvTimingReq peers clk pkt src x e = Inr (b, pkt', x', e')" "filter_matches x sf"
    and "valid_addr pkt" "\<not> bypassCaches x" "cmd pkt \<noteq> WriteClean" "cxl_packet_type (req pkt) \<noteq> CXLcacheH2DResp"
    and "polite_snoopers peers" "keeps_security peers"
  shows "\<not> b \<and> snoopFilter x' = Some sf \<and> gh_snooped x' = gh_snooped x \<or>
    (\<exists>port ps sf2. at_port (ccpuSidePorts x) src = Inr port \<and> gh_snooped x' = gh_snooped x @ map cp_id ps \<and>
       (if isEviction (cmd pkt) then ps = [] else set ps = recorded sf pkt - {port}) \<and> sf_inv sf2 \<and>
       spec_sf (linesize sf) (maxEntryCount sf) (OpRequest pkt port (\<not> b)) (sharing_of sf)
         = Some (recorded sf pkt - {port}, sharing_of sf2) \<and>
       (\<not> b \<longrightarrow> snoopFilter x' = Some sf2 \<and> sharing_of sf2 = sharing_of sf) \<and>
       (b \<longrightarrow> csched_resps x' = csched_resps x \<longrightarrow> snoopFilter x' = Some sf2))"
proof -
  obtain mem pkt1 x1 free l1 where f: "host_findPort pkt x = Inr (mem, pkt1, x1)"
    and rest: "(if \<not> free then Inr (False, pkt1, set_creq mem l1 x1, e)
      else serve_request host_variant peers clk (isExpressSnoop pkt) mem l1 pkt1 src x1 e) = Inr (b, pkt', x', e')"
    using arbitrate_request[OF assms(1)[unfolded host_recvTimingReq_def] refl, unfolded v_findPort_host] by metis
  obtain bb where c1: "core x1 = (core x)\<lparr> cbase := bb \<rparr>"
    using host.findPort_core f by (metis v_findPort_host)
  note d = core_eqD[OF c1, simplified]
  have k: "keeps_but_type pkt pkt1" "cxl_packet_type (req pkt1) \<noteq> CXLcacheH2DResp"
    using f assms(6) by (cases rule: host_findPortE; auto simp: set_packet_type_def keeps_but_type_def; fail)+
  note kd = keeps_but_typeD[OF k(1)]
  have m1: "filter_matches x1 sf" using assms(2) d by (simp add: filter_matches_def)
  have p1: "valid_addr pkt1" "cmd pkt1 = cmd pkt" using kd assms(3) by (auto simp: valid_addr_def)
  have rec: "recorded sf pkt1 = recorded sf pkt" using kd by (simp add: recorded_def line_key_def)
  have spec: "spec_sf ls cap (OpRequest pkt1 port retry) A = spec_sf ls cap (OpRequest pkt port retry) A" for ls cap port retry A
    using kd by (intro spec_request_cong) auto
  show ?thesis
  proof (cases free)
    case False
    with rest d assms(2) show ?thesis by (auto simp: set_creq_def filter_matches_def)
  next
    case True
    with rest have "serve_request host_variant peers clk (isExpressSnoop pkt) mem l1 pkt1 src x1 e = Inr (b, pkt', x', e')"
      by simp
    from host.served_request[OF this m1 p1(1) _ _ _ assms(7,8)] d assms(2,4,5) p1(2) k(2)
    show ?thesis unfolding rec spec by (auto simp: filter_matches_def host_variant_def)
  qed
qed

text \<open>Port 2 has asked for the line when port 0 reads it: port 2 alone is snooped, and the read goes to
  memory.\<close>

definition filtered_host :: CXLHostXBar where
  "filtered_host = (sample_host True)\<lparr> snoopFilter := Some requested_filter \<rparr>"

definition filtered_read :: "(bool \<times> Packet \<times> CXLHostXBar \<times> PortID list) outcome" where
  "filtered_read = host_recvTimingReq recording_memory sample_clock host_read 0 filtered_host []"

lemma filtered_host_matches: "filter_matches filtered_host requested_filter"
proof -
  have c: "snoopFilter filtered_host = Some requested_filter"
    "cpuSidePorts requested_filter = filter cp_snooping (ccpuSidePorts filtered_host)"
    "map cp_id (ccpuSidePorts filtered_host) = map int [0..<length (ccpuSidePorts filtered_host)]"
    by code_simp+
  have "cp_id (ccpuSidePorts filtered_host ! i) = int i" if "i < length (ccpuSidePorts filtered_host)" for i
    using arg_cong[OF c(3), of "\<lambda>l. l ! i"] that by simp
  with c(1,2) requested_filter_inv show ?thesis by (simp add: filter_matches_def)
qed

theorem request_snoops_recorded_caches_witness:
  "\<exists>port ps. gh_snooped (xbar_after filtered_read) = map cp_id ps \<and> set ps = recorded requested_filter host_read - {port}
    \<and> cp_id port = 0 \<and> gh_snooped (xbar_after filtered_read) = [2] \<and> snd (snd (snd (projr filtered_read))) = [1]"
proof -
  have v: "\<not> isl filtered_read" "fst (projr filtered_read)" "valid_addr host_read" "\<not> bypassCaches filtered_host"
    "cmd host_read \<noteq> WriteClean" "cxl_packet_type (req host_read) \<noteq> CXLcacheH2DResp" "\<not> isEviction (cmd host_read)"
    "gh_snooped filtered_host = []" "gh_snooped (xbar_after filtered_read) = [2]"
    "snd (snd (snd (projr filtered_read))) = [1]"
    by code_simp+
  have p: "polite_snoopers recording_memory" "keeps_security recording_memory"
    by (simp_all add: polite_snoopers_def keeps_security_def recording_memory_def)
  have r: "host_recvTimingReq recording_memory sample_clock host_read 0 filtered_host []
      = Inr (fst (projr filtered_read), fst (snd (projr filtered_read)), xbar_after filtered_read,
          snd (snd (snd (projr filtered_read))))"
    using outcome_parts[OF v(1)] unfolding filtered_read_def[symmetric] .
  from request_snoops_recorded_caches[OF r filtered_host_matches v(3-6) p] v(2,7,8)
  obtain port ps where a: "at_port (ccpuSidePorts filtered_host) 0 = Inr port"
    "gh_snooped (xbar_after filtered_read) = map cp_id ps" "set ps = recorded requested_filter host_read - {port}"
    by auto
  from matches_known(2)[OF filtered_host_matches a(1)] a v(9,10) show ?thesis by metis
qed

section \<open>Responses of the device\<close>

lemma finish_other_line:
  assumes "snoopFilter x = Some sf" "reqIt sf = Some it" "it \<noteq> line_key (linesize sf) pkt"
    and "p_addr pkt = a" "p_isSecure pk1 = p_isSecure pkt"
  shows "isl (finish_filter True retry a pk1 x)"
  using assms by (auto simp: finish_filter_def finishRequest_def pkt_isSecure_def line_key_def assert_that_def split: option.splits)

text \<open>C36: A CXL.cache response message to the host stops the simulation when the snoop filter has last
  looked up another line. Such a message is not looked up in the filter, but the filter is told
  that the lookup is finished; it compares the address with that of the last lookup. Whenever the
  last request of a host crossbar with a filter was for another line and the layer of the
  destination is free, the handling of the message fails.\<close>

theorem device_response_upsets_filter:
  assumes "cxl_packet_type (req pkt) = CXLcacheH2DResp" "snoopFilter x = Some sf"
    and "reqIt sf = Some it" "it \<noteq> line_key (linesize sf) pkt"
    and "\<not> bypassCaches x" "cmd pkt \<noteq> WriteClean" "keeps_security peers"
    and "host_findPort pkt x = Inr (mem, pkt1, x1)" "tryTiming (nat src) (creqLayers x ! nat mem) = Inr (True, l)"
  shows "isl (host_recvTimingReq peers clk pkt src x e)"
proof (rule ccontr)
  assume "\<not> ?thesis"
  then obtain b pkt' x' e' where r: "host_recvTimingReq peers clk pkt src x e = Inr (b, pkt', x', e')"
    by (cases "host_recvTimingReq peers clk pkt src x e") auto
  have p: "pkt1 = pkt" "\<exists>bb. x1 = x\<lparr> cbase := bb \<rparr>"
    using assms(8,1) by (cases rule: host_findPortE; auto)+
  obtain mem' pkt'' x'' lay free l1 where f: "host_findPort pkt x = Inr (mem', pkt'', x'')"
    "(if isExpressSnoop pkt then Inr (True, lay) else tryTiming (nat src) lay) = Inr (free, l1)"
    "lay = creqLayers x'' ! nat mem'"
    "(if \<not> free then Inr (False, pkt'', set_creq mem' l1 x'', e)
      else serve_request host_variant peers clk (isExpressSnoop pkt) mem' l1 pkt'' src x'' e) = Inr (b, pkt', x', e')"
    using arbitrate_request[OF r[unfolded host_recvTimingReq_def] refl, unfolded v_findPort_host] by metis
  have i: "mem' = mem" "pkt'' = pkt" "x'' = x1" using f(1) assms(8) p(1) by simp_all
  have "free" using f(2,3) i p(2) assms(9) by (auto split: if_splits)
  with f(4) have "serve_request host_variant peers clk (isExpressSnoop pkt) mem l1 pkt src x1 e = Inr (b, pkt', x', e')"
    unfolding i by simp
  then show False
  proof (cases rule: serve_requestE)
    case (not_ready q l)
    then show False using calcPacketTiming_more(4)[OF not_ready(5)] assms(1) by (simp add: host_variant_def)
  next
    case (ready q sc pk x2 e2 fin)
    note c = calcPacketTiming_more[OF ready(1)]
    have "\<not> v_snoops host_variant q" "sc" using ready(2) c assms(1,5,6) p(2) by (auto simp: host_variant_def keeps_identity_def)
    with ready(3) have q: "pk = q" "x2 = x1" "sc" "snoopFilter x2 = Some sf" using p(2) assms(2) by auto
    have no: "finish_filter sc retry (p_addr pk) pk1 x2 \<noteq> Inr y"
      if "send_onwards peers d es sink mem pk x2 e2 = Inr (s, direct, pk1, e')" for retry pk1 y d es sink s direct
      using finish_other_line[of x2 sf it pkt "p_addr pk" pk1 retry] sent_security[OF that assms(7)] q assms(3,4) c
      by (auto simp: keeps_identity_def)
    from ready(4) show False by (cases rule: forward_requestE) (use no in blast)+
  qed
qed

text \<open>Port 2 has just been served when the device answers for another line.\<close>

definition served_host :: CXLHostXBar where
  "served_host = (sample_host True)\<lparr> snoopFilter := Some (requested_filter\<lparr> reqIt := Some 0x90000040 \<rparr>) \<rparr>"

definition h2d_response :: Packet where
  "h2d_response = cxl_packet 9 CXLcacheH2DResp ReadSharedReq"

theorem device_response_upsets_filter_witness:
  "isl (host_recvTimingReq recording_memory sample_clock h2d_response 0 served_host [])
    \<and> snoopFilter served_host \<noteq> None"
proof -
  let ?f = "host_findPort h2d_response served_host" and ?sf = "requested_filter\<lparr> reqIt := Some 0x90000040 \<rparr>"
    and ?t = "tryTiming (nat 0) (creqLayers served_host ! nat 1)"
  have d: "cxl_packet_type (req h2d_response) = CXLcacheH2DResp" "snoopFilter served_host = Some ?sf"
    "reqIt ?sf = Some 0x90000040" "0x90000040 \<noteq> line_key (linesize ?sf) h2d_response"
    "\<not> bypassCaches served_host" "cmd h2d_response \<noteq> WriteClean" "\<not> isl ?f" "fst (projr ?f) = 1"
    "\<not> isl ?t" "fst (projr ?t)"
    by code_simp+
  have t: "?t = Inr (True, snd (projr ?t))" using outcome_pair[OF d(9)] d(10) by metis
  have f: "?f = Inr (1, fst (snd (projr ?f)), snd (snd (projr ?f)))" using d(7,8) by (cases ?f) auto
  have "keeps_security recording_memory" by (simp add: keeps_security_def recording_memory_def)
  from device_response_upsets_filter[OF d(1-6) this f t] d(2) show ?thesis by simp
qed

end
