(* ===== verification/DeviceXBarProps.thy ===== *)
theory DeviceXBarProps
  imports DeviceXBar CoherentXBarDirectory
begin

text \<open>
  Properties of the crossbar of the device: the traffic through it keeps the route of a request
  until the request is answered; an access of the device processor in host bias is checked at the
  host before it is served, and its answer returns to the processor.
\<close>

section \<open>Routes stay\<close>

context xbar_frame
begin

lemma route_stays:
  assumes "v_route V sink pkt src x = Inr x'" "route_of x r = Some d"
  shows "route_of x' r = Some d"
  using route_core[OF assms(1)]
proof
  assume "core x' = core x"
  then show ?thesis using assms(2) core_eqD(9)[of x'] by (auto simp: route_of_def)
next
  assume a: "route_of x (req_ptr (req pkt)) = None \<and> core x' = core (set_route (req_ptr (req pkt)) src x)"
  then have "route_of x' r = route_of (set_route (req_ptr (req pkt)) src x) r"
    using core_eqD(9)[of x'] by (auto simp: route_of_def)
  with a assms(2) show ?thesis by (auto simp: route_of_def set_route_def update_conv')
qed

lemma accounted_route_stays:
  assumes "accounted V ex direct sink mem pk pk1 src xa xb" "route_of xa r = Some d"
  shows "route_of xb r = Some d"
  using assms
  by (auto simp: accounted_def account_request_def set_creq_def route_of_def
      dest!: route_stays[unfolded route_of_def] split: if_splits)

text \<open>Accounting for a request leaves the deferred clean operations alone, and the end of a clean operation
  takes away the route of a deferred one only. So no request takes away the way back of another
  one, unless that is a deferred clean operation.\<close>

lemma route_keeps_cmos: "v_route V sink pkt src x = Inr x' \<Longrightarrow> outstandingCMO x' = outstandingCMO x"
  using route_core[of sink pkt src x x'] core_eqD[of x'] by fastforce

lemma accounted_keeps_cmos:
  "accounted V ex direct sink mem pk pk1 src xa xb \<Longrightarrow> outstandingCMO xb = outstandingCMO xa"
  by (auto simp: accounted_def account_request_def set_creq_def dest!: route_keeps_cmos split: if_splits)

lemma deferred_clean_route_stays:
  assumes "deferred_clean V sink pkt src x = Inr (dir, df, port, x')" "route_of x r = Some d" "r \<notin> deferred_cmos x"
  shows "route_of x' r = Some d"
proof (cases "cmo_of x (p_id pkt)")
  case None
  let ?x1 = "x\<lparr> outstandingCMO := AList.update (p_id pkt) (if isWrite (cmd pkt) then None else Some pkt) (outstandingCMO x) \<rparr>"
  from assms(1) None have "x' = ?x1 \<or> v_route V sink pkt src ?x1 = Inr x'"
    by (auto simp: deferred_clean_def cmo_of_def split: if_splits)
  moreover have "route_of ?x1 r = Some d" using assms(2) by (simp add: route_of_def)
  ultimately show ?thesis using route_stays[of sink pkt src ?x1 x' r d] by blast
next
  case (Some c)
  let ?x1 = "x\<lparr> outstandingCMO := AList.delete (p_id pkt) (outstandingCMO x) \<rparr>"
  from assms(1) Some have "x' = ?x1 \<or> (\<exists>rsp. c = Some rsp \<and> x' = del_route (req_ptr (req rsp)) ?x1)"
    by (auto simp: deferred_clean_def cmo_of_def Let_def split: option.splits if_splits)
  moreover have "req_ptr (req rsp) \<noteq> r" if "c = Some rsp" for rsp
    using deferredI[of x "p_id pkt" rsp] Some that assms(3) by auto
  ultimately show ?thesis using assms(2) by (auto simp: route_of_def del_route_def delete_conv')
qed

lemma request_keeps_routes:
  assumes "xbar_recvTimingReq V peers clk pkt src x e = Inr (b, pkt', x', e')" "route_of x r = Some d"
    and "polite_snoopers peers" "polite_memory regular peers" "\<not> maintenance (cmd pkt) \<or> r \<notin> deferred_cmos x"
  shows "route_of x' r = Some d"
  using assms(1,3)
proof (cases rule: recvTimingReqE)
  case (refused bb ls sf g)
  then show ?thesis using assms(2) core_eqD(9)[OF refused(3)] by (simp add: route_of_def)
next
  case (accepted bb sf g xs xa xb pk pk1 sink direct mem es d')
  have c: "maintenance (cmd pk1) \<Longrightarrow> maintenance (cmd pkt)"
  proof (cases "sink \<or> direct")
    case True
    then show "maintenance (cmd pk1) \<Longrightarrow> maintenance (cmd pkt)"
      using send_onwards_cases(1,2)[OF accepted(7)] accepted(10) by metis
  next
    case False
    then obtain q where "sendTimingReq peers mem q es = Inr (True, pk1, e')" "cmd q = cmd pk"
      using send_onwards_cases(3)[OF accepted(7)] by blast
    then show "maintenance (cmd pk1) \<Longrightarrow> maintenance (cmd pkt)"
      using assms(4) accepted(10) maintenance_response unfolding polite_memory_def by metis
  qed
  have m: "r \<notin> deferred_cmos x"
    if "((isClean (cmd pk1) \<and> satisfied pk1) \<or> cmd pk1 = WriteClean) \<and> d'"
    using that c assms(5) by (auto simp: maintenance_def)
  have "route_of xa r = Some d" using core_eqD(9)[OF accepted(2)] assms(2) by (simp add: route_of_def)
  note xb = accounted_route_stays[OF accepted(3) this]
  have "outstandingCMO xa = outstandingCMO x" using core_eqD[OF accepted(2)] by simp
  then have dc: "deferred_cmos xb = deferred_cmos x"
    using accounted_keeps_cmos[OF accepted(3)] by (simp add: deferred_cmos_def cmo_of_def)
  from accepted(4) show ?thesis
  proof (cases rule: answer_requestE)
    case (1 dir df port x1)
    have "route_of x1 r = Some d"
      using 1(1) xb dc m deferred_clean_route_stays[of sink pk1 src xb dir df port x1 r d] by (auto split: if_splits)
    then show ?thesis using same_tables_route(1)[OF 1(2)] by simp
  qed
qed

end

section \<open>The bias check\<close>

lemma ask_bias_frame:
  assumes "ask_bias bias pkt x e = Inr (lat, mode, pkt', x', e')"
  shows "pkt' = pkt" "valid_addr pkt" "\<exists>b. x' = x\<lparr> cbase := b \<rparr>"
  using assms by (auto simp: ask_bias_def CheckBias_def base_findPort_def getAddr_def setAddr_def split: if_splits)

lemma send_bias_checkE:
  assumes "send_bias_check peers pkt p_no x e = Inr (b, pkt', x', e')"
  obtains mem bb where "route_of x (req_ptr (req pkt)) = None" "findPort cxldev (cbase x) = Inr (mem, bb)"
    "0 \<le> mem" "nat mem < length (creqLayers x)"
    "sendTimingReq peers mem (mark_bias_check (p_addr pkt) pkt) e = Inr (b, pkt', e')"
    "x' = (set_route (req_ptr (req pkt)) p_no x)\<lparr> cbase := bb \<rparr>"
  using assms that
  by (auto simp: send_bias_check_def Let_def getAddr_def mark_bias_check_def upd_req_def set_route_def split: if_splits)

text \<open>An access of the processor to local memory, by the answer to the question for the bias.\<close>

lemma local_accessE:
  assumes "dev_recvTimingReq bias peers clk pkt 1 x e = r" "is_local (p_addr pkt)"
    and "ask_bias bias pkt x e = Inr (lat, mode, pkt0, x0, e0)"
  shows "r = (if mode = 1 then send_bias_check peers pkt 1 x0 e0
     else if mode = 2 then device_recvTimingReq peers clk pkt 1 x0 e0 else Inl (Panic ''failed Bias mode check!''))"
  using assms ask_bias_frame(1,2)[OF assms(3)] by (auto simp: dev_recvTimingReq_def getAddr_def)

lemma dev_request_keeps_routes:
  assumes "dev_recvTimingReq bias peers clk pkt p_no x e = Inr (b, pkt', x', e')" "route_of x r = Some d"
    and "polite_snoopers peers" "polite_memory device_regular peers" "\<not> maintenance (cmd pkt) \<or> r \<notin> deferred_cmos x"
  shows "route_of x' r = Some d"
proof -
  note keep = device.request_keeps_routes[OF _ _ assms(3,4)]
  have k: "route_of y r = Some d \<Longrightarrow> \<not> maintenance (cmd p) \<or> r \<notin> deferred_cmos y \<Longrightarrow> route_of x' r = Some d"
    if "device_recvTimingReq peers clk p q y e1 = Inr (b, pkt', x', e')" for p q y e1
    using keep[OF that[unfolded device_recvTimingReq_def]] .
  have c: "cmd (clearExpressSnoop pkt) = cmd pkt" by (simp add: clearExpressSnoop_def)
  show ?thesis
  proof (cases "p_no = 1 \<and> is_local (p_addr pkt)")
    case False
    with assms(1) k[OF _ assms(2)] assms(5) c show ?thesis
      by (auto simp: dev_recvTimingReq_def getAddr_def split: if_splits)
  next
    case True
    with assms(1) obtain lat mode pkt0 x0 e0 where a: "ask_bias bias pkt x e = Inr (lat, mode, pkt0, x0, e0)"
      by (auto simp: dev_recvTimingReq_def getAddr_def split: if_splits)
    note o = local_accessE[OF assms(1)[unfolded conjunct1[OF True]] conjunct2[OF True] a]
    have x0: "route_of x0 r = Some d" "deferred_cmos x0 = deferred_cmos x"
      using ask_bias_frame(3)[OF a] same_tables_route[of x x0] assms(2) by auto
    show ?thesis
    proof (cases "mode = 1")
      case True
      with o have s: "send_bias_check peers pkt 1 x0 e0 = Inr (b, pkt', x', e')" by simp
      show ?thesis
        by (rule send_bias_checkE[OF s]) (use x0 in \<open>auto simp: route_of_def set_route_def update_conv'\<close>)
    next
      case False
      with o have "device_recvTimingReq peers clk pkt 1 x0 e0 = Inr (b, pkt', x', e')" by (auto split: if_splits)
      from k[OF this x0(1)] assms(5) x0(2) show ?thesis by simp
    qed
  qed
qed

text \<open>An atomic access leaves the routes alone.\<close>

lemma snoop_h2d_same: "snoop_h2d peers c ps res pkt x e = Inr (res', pkt', x', e') \<Longrightarrow> same_tables x x'"
proof (induction ps arbitrary: res pkt x e)
  case (Cons p ps)
  then have "\<exists>c' l pkt1 e1.
      snoop_h2d peers c ps (c', l) pkt1 (x\<lparr> gh_snooped := gh_snooped x @ [cp_id p] \<rparr>) e1 = Inr (res', pkt', x', e')"
    by (cases res) (auto simp: Let_def split: if_splits)
  then obtain c' l pkt1 e1 where
    "snoop_h2d peers c ps (c', l) pkt1 (x\<lparr> gh_snooped := gh_snooped x @ [cp_id p] \<rparr>) e1 = Inr (res', pkt', x', e')"
    by blast
  from Cons.IH[OF this] show ?case by (simp add: same_tables_def)
qed simp

lemma atomic_bias_check_same:
  assumes "atomic_bias_check bias peers pkt src x e = Inr (lat, pkt', x', e')"
  shows "same_tables x x'"
proof -
  have "x' = x \<or> (\<exists>lat mode p x0 e0. ask_bias bias pkt x e = Inr (lat, mode, p, x0, e0) \<and> x' = x0)"
    using assms by (auto simp: atomic_bias_check_def split: if_splits)
  then show ?thesis using ask_bias_frame(3) by fastforce
qed

lemma atomic_maintenance_routes: "atomic_maintenance pkt x = Inr x' \<Longrightarrow> crouteTo x' = crouteTo x"
  by (auto simp: atomic_maintenance_def split: if_splits)

lemma dev_snoop_request_atomic_same:
  "dev_snoop_request_atomic peers clk pkt src x e = Inr (res, pkt', x', e') \<Longrightarrow> same_tables x x'"
  by (auto simp: dev_snoop_request_atomic_def split: if_splits intro: snoop_h2d_same snoop_request_atomic_same)

lemma if_Inr_cases: "(if c then Inr a else r) = Inr y \<Longrightarrow> (a = y \<Longrightarrow> Q) \<Longrightarrow> (r = Inr y \<Longrightarrow> Q) \<Longrightarrow> Q"
  by (auto split: if_splits)

lemma dev_atomic_routes:
  assumes "dev_recvAtomic bias peers clk pkt0 src x0 e0 = Inr (lat, pkt', x', e')"
  shows "crouteTo x' = crouteTo x0"
proof -
  obtain bl pkt x e res pkt1 x1 e1 where
    b: "atomic_bias_check bias peers pkt0 src x0 e0 = Inr (bl, pkt, x, e)"
    and s: "(if \<not> bypassCaches x \<and> cmd pkt \<noteq> WriteClean then dev_snoop_request_atomic peers clk pkt src x e
             else Inr ((InvalidCmd, 0), pkt, x, e)) = Inr (res, pkt1, x1, e1)"
    and rest: "x' = x1 \<or> (\<exists>mem pkt2 x2 sink lat' pkt3 x3 e2 x4 pkt4. base_findPort pkt1 x1 = Inr (mem, pkt2, x2) \<and>
        atomic_onwards device_variant peers (isDestination x pkt) sink mem pkt2 x2 e1 = Inr (lat', pkt3, x3, e2) \<and>
        (if isResponse (cmd pkt3) then xbar_update_response pkt3 src x3 else Inr x3) = Inr x4 \<and>
        atomic_maintenance pkt4 x4 = Inr x')"
    using assms unfolding dev_recvAtomic_def Let_def 
    by (clarsimp simp del: rbind_assert) (erule if_Inr_cases; clarsimp simp del: rbind_assert; blast)
  have "same_tables x0 x1"
    using atomic_bias_check_same[OF b] s dev_snoop_request_atomic_same[of peers clk pkt src x e res pkt1 x1 e1]
    by (auto split: if_splits intro: same_tables_trans)
  then have x1: "crouteTo x1 = crouteTo x0" by (simp add: same_tables_def)
  from rest show ?thesis
  proof (elim disjE exE conjE)
    fix mem pkt2 x2 sink lat' pkt3 x3 e2 x4 pkt4
    assume f: "base_findPort pkt1 x1 = Inr (mem, pkt2, x2)"
      and o: "atomic_onwards device_variant peers (isDestination x pkt) sink mem pkt2 x2 e1 = Inr (lat', pkt3, x3, e2)"
      and u: "(if isResponse (cmd pkt3) then xbar_update_response pkt3 src x3 else Inr x3) = Inr x4"
      and m: "atomic_maintenance pkt4 x4 = Inr x'"
    have "crouteTo x2 = crouteTo x1" using base_findPort_frame(2)[OF f] by auto
    moreover have "crouteTo x3 = crouteTo x2" using device.atomic_onwards_same[OF o] by (simp add: same_tables_def)
    moreover have "crouteTo x4 = crouteTo x3" using u by (auto split: if_splits elim: xbar_update_response_frame)
    ultimately show ?thesis using atomic_maintenance_routes[OF m] x1 by simp
  qed (simp add: x1)
qed

text \<open>All traffic through the crossbar of the device that answers no packet of request \<open>r\<close>: timing requests,
  responses, snoops and snoop responses, atomic and functional accesses, changes of the address
  ranges, and any change of the layers (their releases and retries, and what a port does in the
  middle of one). A clean operation or its write may pass as long as the crossbar does not defer
  the answer to \<open>r\<close> itself, which they would then complete.\<close>

inductive dev_traffic :: "'e bias_port \<Rightarrow> 'e xpeers \<Rightarrow> nat \<Rightarrow> CoherentXBar \<times> 'e \<Rightarrow> CoherentXBar \<times> 'e \<Rightarrow> bool"
  for bias :: "'e bias_port" and peers :: "'e xpeers" and r :: nat and s :: "CoherentXBar \<times> 'e" where
  none: "dev_traffic bias peers r s s"
| request: "dev_traffic bias peers r s (x, e) \<Longrightarrow> dev_recvTimingReq bias peers clk pkt p_no x e = Inr (b, pkt', x', e')
    \<Longrightarrow> \<not> maintenance (cmd pkt) \<or> r \<notin> deferred_cmos x \<Longrightarrow> dev_traffic bias peers r s (x', e')"
| response: "dev_traffic bias peers r s (x, e) \<Longrightarrow> coh_recvTimingResp device_variant clk rsp mem x = Inr (b, x')
    \<Longrightarrow> req_ptr (req rsp) \<noteq> r \<Longrightarrow> dev_traffic bias peers r s (x', e)"
| snoop_req: "dev_traffic bias peers r s (x, e) \<Longrightarrow> coh_recvTimingSnoopReq device_variant peers clk pkt mem x e = Inr (pkt', x', e')
    \<Longrightarrow> dev_traffic bias peers r s (x', e')"
| snoop_resp: "dev_traffic bias peers r s (x, e) \<Longrightarrow> coh_recvTimingSnoopResp peers clk rsp p_no x e = Inr (b, rsp', x', e')
    \<Longrightarrow> req_ptr (req rsp) \<noteq> r \<Longrightarrow> dev_traffic bias peers r s (x', e')"
| layers: "dev_traffic bias peers r s (x, e) \<Longrightarrow> length rq = length (creqLayers x) \<Longrightarrow> length rs = length (crespLayers x)
    \<Longrightarrow> length sn = length (snoopLayers x)
    \<Longrightarrow> dev_traffic bias peers r s (x\<lparr> creqLayers := rq, crespLayers := rs, snoopLayers := sn \<rparr>, e)"
| range_change: "dev_traffic bias peers r s (x, e) \<Longrightarrow> recvRangeChange ranges p (cbase x) = Inr (n, bb)
    \<Longrightarrow> dev_traffic bias peers r s (x\<lparr> cbase := bb \<rparr>, e)"
| atomic: "dev_traffic bias peers r s (x, e) \<Longrightarrow> dev_recvAtomic bias peers clk pkt src x e = Inr (lat, pkt', x', e')
    \<Longrightarrow> dev_traffic bias peers r s (x', e')"
| atomic_snoop: "dev_traffic bias peers r s (x, e) \<Longrightarrow> coh_recvAtomicSnoop peers clk pkt mem x e = Inr (lat, pkt', x', e')
    \<Longrightarrow> dev_traffic bias peers r s (x', e')"
| functional: "dev_traffic bias peers r s (x, e) \<Longrightarrow> coh_recvFunctional device_variant peers pkt src x e = Inr (pkt', x', e')
    \<Longrightarrow> dev_traffic bias peers r s (x', e')"
| world: "dev_traffic bias peers r s (x, e) \<Longrightarrow> dev_traffic bias peers r s (x, e')"

text \<open>The release of a layer and the notification that a destination is ready again are among these steps.\<close>

lemma layer_events_are_traffic:
  assumes t: "dev_traffic bias peers r s (x, e)"
  shows "releaseLayer rx edge ((creqLayers x ! nat p)\<lparr> releaseEvent := None \<rparr>) = Inr l
      \<Longrightarrow> dev_traffic bias peers r s (set_creq p l x, e)"
    and "releaseLayer rx edge ((crespLayers x ! nat p)\<lparr> releaseEvent := None \<rparr>) = Inr l
      \<Longrightarrow> dev_traffic bias peers r s (set_cresp p l x, e)"
    and "releaseLayer rx edge ((snoopLayers x ! nat p)\<lparr> releaseEvent := None \<rparr>) = Inr l
      \<Longrightarrow> dev_traffic bias peers r s (set_csnoop p l x, e)"
    and "coh_recvReqRetry rx clk mem x = Inr x' \<Longrightarrow> dev_traffic bias peers r s (x', e)"
proof -
  have q: "dev_traffic bias peers r s (set_creq p l x, e)" for p l
    using dev_traffic.layers[OF t, of "(creqLayers x)[nat p := l]" "crespLayers x" "snoopLayers x"]
    by (simp add: set_creq_def)
  then show "dev_traffic bias peers r s (set_creq p l x, e)" .
  show "dev_traffic bias peers r s (set_cresp p l x, e)"
    using dev_traffic.layers[OF t, of "creqLayers x" "(crespLayers x)[nat p := l]" "snoopLayers x"]
    by (simp add: set_cresp_def)
  show "dev_traffic bias peers r s (set_csnoop p l x, e)"
    using dev_traffic.layers[OF t, of "creqLayers x" "crespLayers x" "(snoopLayers x)[nat p := l]"]
    by (simp add: set_csnoop_def)
  show "coh_recvReqRetry rx clk mem x = Inr x' \<Longrightarrow> dev_traffic bias peers r s (x', e)"
    using q by (auto simp: coh_recvReqRetry_def)
qed

lemma route_of_del [simp]: "route_of (del_route k x) r = (if r = k then None else route_of x r)"
  by (simp add: route_of_def del_route_def delete_conv')

lemma route_of_set: "route_of (set_route k p x) r = (if r = k then Some p else route_of x r)"
  by (simp add: route_of_def set_route_def update_conv')

lemma route_of_outstanding [simp]: "route_of (x\<lparr> outstandingSnoop := l \<rparr>) = route_of x"
  by (simp add: route_of_def fun_eq_iff)

lemma traffic_keeps_route:
  assumes "dev_traffic bias peers r (x1, e1) s" "route_of x1 r = Some d"
    and "polite_snoopers peers" "polite_memory device_regular peers"
  shows "route_of (fst s) r = Some d"
  using assms(1)
proof (induction rule: dev_traffic.induct)
  case (request x e clk pkt p_no b pkt' x' e')
  with dev_request_keeps_routes[OF request(2) _ assms(3,4)] show ?case by simp
next
  case (response x e clk rsp mem b x')
  with device.response_tables[OF response(2)] show ?case by (auto dest!: same_tables_route(1))
next
  case (snoop_req x e clk pkt mem pkt' x' e')
  with device.snoop_req_tables[OF snoop_req(2) assms(3)] show ?case
    by (auto dest!: same_tables_route(1) simp: route_of_set)
next
  case (snoop_resp x e clk rsp p_no b rsp' x' e')
  with snoop_resp_tables[OF snoop_resp(2)] show ?case by (auto dest!: same_tables_route(1))
next
  case (layers x e rq rs sn)
  then show ?case by (simp add: route_of_def)
next
  case (range_change x e ranges p n bb)
  then show ?case by (simp add: route_of_def)
next
  case (atomic x e clk pkt src lat pkt' x' e')
  with dev_atomic_routes[OF atomic(2)] show ?case by (simp add: route_of_def)
next
  case (atomic_snoop x e clk pkt mem lat pkt' x' e')
  with atomic_snoop_same[OF atomic_snoop(2)] show ?case by (auto dest!: same_tables_route(1))
next
  case (functional x e pkt src pkt' x' e')
  with device.functional_same[OF functional(2)] show ?case by (auto dest!: same_tables_route(1))
qed (use assms(2) in auto)

section \<open>Accesses in host bias\<close>

text \<open>C11: An access of the device processor to a page in host bias is checked at the host first, and its
  answer returns to the processor. When the crossbar of the device takes a timing request of the
  processor to local memory and the device says that the page is in host bias, no cache is
  snooped, nothing is answered, and the packet, address unchanged and marked as a bias check for
  that address, is handed to the port of the device. After any traffic that does not answer this
  request (any operation of the crossbar, with the layers released and retried at will), when the
  check comes back from the device it is taken as a request of the processor; and after any
  further such traffic the response to it is queued, unchanged but for its delays, at the port of
  the processor. The neighbours
  do not exchange the request or the command of a packet (a memory may turn it into its
  response), and the request is not itself a clean operation whose answer the crossbar defers when
  it comes back.\<close>

theorem host_bias_access_is_checked:
  assumes "dev_recvTimingReq bias peers clk pkt 1 x e = Inr (True, pkt1, x1, e1)" "is_local (p_addr pkt)"
    and "ask_bias bias pkt x e = Inr (lat, 1, pkt0, x0, e0)"
    and "polite_snoopers peers" "polite_memory device_regular peers"
    and "dev_traffic bias peers (req_ptr (req pkt)) (x1, e1) (x2, e2)"
    and "p_no \<noteq> 1" "cxl_packet_type (req returned) = HostBiasCheck"
    and "\<not> maintenance (cmd returned) \<or> req_ptr (req pkt) \<notin> deferred_cmos x2"
    and "dev_recvTimingReq bias peers clk2 returned p_no x2 e2 = Inr (True, pkt2, x3, e3)"
    and "dev_traffic bias peers (req_ptr (req pkt)) (x3, e3) (x4, e4)"
    and "coh_recvTimingResp device_variant clk3 rsp mem x4 = Inr (True, x5)" "req_ptr (req rsp) = req_ptr (req pkt)"
  shows "(\<exists>dev bb. findPort cxldev (cbase x0) = Inr (dev, bb) \<and>
       sendTimingReq peers dev (mark_bias_check (p_addr pkt) pkt) e0 = Inr (True, pkt1, e1)) \<and>
    gh_snooped x1 = gh_snooped x \<and> csched_resps x1 = csched_resps x \<and>
    (\<exists>q e. device_recvTimingReq peers clk2 q 1 x2 e = Inr (True, pkt2, x3, e3) \<and> req q = req returned \<and> cmd q = cmd returned) \<and>
    (\<exists>d t. csched_resps x5 = csched_resps x4 @ [(1, rsp\<lparr> headerDelay := 0, payloadDelay := d \<rparr>, t)])"
proof -
  let ?r = "req_ptr (req pkt)"
  have s: "send_bias_check peers pkt 1 x0 e0 = Inr (True, pkt1, x1, e1)"
    using local_accessE[OF assms(1-3)] by simp
  obtain b0 where x0: "x0 = x\<lparr> cbase := b0 \<rparr>" using ask_bias_frame(3)[OF assms(3)] by blast
  obtain dev bb where c: "findPort cxldev (cbase x0) = Inr (dev, bb)"
    "sendTimingReq peers dev (mark_bias_check (p_addr pkt) pkt) e0 = Inr (True, pkt1, e1)"
    "x1 = (set_route ?r 1 x0)\<lparr> cbase := bb \<rparr>"
    using s by (rule send_bias_checkE)
  have "route_of x1 ?r = Some 1" using c(3) by (simp add: route_of_def set_route_def update_conv')
  from traffic_keeps_route[OF assms(6) this assms(4,5)] have x2: "route_of x2 ?r = Some 1" by simp
  note k = dev_request_keeps_routes[OF assms(10) x2 assms(4,5,9)]
  from traffic_keeps_route[OF assms(11) k assms(4,5)] have x4: "route_of x4 ?r = Some 1" by simp
  have q: "\<exists>q e. device_recvTimingReq peers clk2 q 1 x2 e = Inr (True, pkt2, x3, e3) \<and> req q = req returned \<and> cmd q = cmd returned"
    using assms(7,8,10) by (auto simp: dev_recvTimingReq_def clearExpressSnoop_def split: if_splits)
  have "\<exists>d t. csched_resps x5 = csched_resps x4 @ [(1, rsp\<lparr> headerDelay := 0, payloadDelay := d \<rparr>, t)]"
    using assms(12)
  proof (cases rule: coh_recvTimingRespE)
    case (sent dest l pkt1 y1 y2)
    obtain sf where "y1 = x4\<lparr> snoopFilter := sf \<rparr>" using xbar_update_response_frame[OF sent(4)] .
    moreover have "y2 = y1" using sent(5) by (simp add: device_variant_def)
    ultimately have "csched_resps x5 = csched_resps x4 @ [(1, pkt1\<lparr> headerDelay := 0 \<rparr>, Clock.curTick clk3 + ucast (headerDelay pkt1))]"
      using sent(2,6) x4 assms(13) by (auto simp: set_cresp_def del_route_def sched_response_def)
    moreover obtain h d where "pkt1 = rsp\<lparr> headerDelay := h, payloadDelay := d \<rparr>"
      using calcPacketTiming_delays[OF sent(3)] by blast
    then have "pkt1\<lparr> headerDelay := 0 \<rparr> = rsp\<lparr> headerDelay := 0, payloadDelay := d \<rparr>" by simp
    ultimately show ?thesis by metis
  qed simp
  with c x0 q show ?thesis by (auto simp: set_route_def)
qed

text \<open>The device crossbar of the samples: memory-side port 0 leads to the device, port 1 to its memory. The
  device of theory \<open>DcohDevice\<close> answers the question for the bias; no page has been touched, so all are
  in host bias.\<close>

definition dcoh_bias :: "CXLDevice bias_port" where
  "dcoh_bias _ a originAddr mode get_set d = recvBiasAtomic a originAddr mode get_set d"

definition willing :: "bool \<Rightarrow> CXLDevice xpeers" where
  "willing w = \<lparr> sendTimingReq = (\<lambda>p pkt d. Inr (w, pkt, d)), peer_tryTiming = (\<lambda>p pkt d. Inr True),
     sendTimingSnoopResp = (\<lambda>p pkt d. Inr (True, pkt, d)), sendTimingSnoopReq = (\<lambda>p pkt d. Inr (pkt, d)),
     sendAtomic = (\<lambda>p pkt d. Inr (0, pkt, d)), sendAtomicSnoop = (\<lambda>p pkt d. Inr (0, pkt, d)),
     sendFunctional = (\<lambda>p pkt d. Inr (pkt, d)), sendFunctionalSnoop = (\<lambda>p pkt d. Inr (pkt, d)),
     trySatisfyFunctional = (\<lambda>p pkt d. Inr (False, pkt, d)) \<rparr>"

lemma willing_polite: "polite_snoopers (willing w)" "polite_memory R (willing w)"
  by (simp_all add: polite_snoopers_def polite_memory_def willing_def)

definition device_base1 :: BaseXBar where
  "device_base1 = snd (projr (recvRangeChange [AddrRange2 0x15000000 0x15040000] 0
     (cbase (projr (xbar_init (new_CoherentXBar sample_params))))))"

definition sample_device_xbar :: CoherentXBar where
  "sample_device_xbar = (projr (xbar_init (new_CoherentXBar sample_params)))\<lparr> cbase :=
     snd (projr (recvRangeChange [AddrRange2 0x80000000 0xA0000000] 1 device_base1)) \<rparr>"

definition proc_read :: Packet where
  "proc_read = Packet_new (sample_request\<lparr> cxl_packet_type := CXLProcReq \<rparr>) ReadReq"

definition checked :: "bool \<Rightarrow> (bool \<times> Packet \<times> CoherentXBar \<times> CXLDevice) outcome" where
  "checked w = dev_recvTimingReq dcoh_bias (willing w) sample_clock proc_read 1 sample_device_xbar empty_device"

definition checked_back :: "(bool \<times> Packet \<times> CoherentXBar \<times> CXLDevice) outcome" where
  "checked_back = dev_recvTimingReq dcoh_bias (willing True) sample_clock (fst (snd (projr (checked True)))) 0
     (xbar_after (checked True)) (snd (snd (snd (projr (checked True)))))"

definition proc_data :: Packet where
  "proc_data = Packet_new (sample_request\<lparr> cxl_packet_type := HostBiasCheck \<rparr>) ReadResp"

definition proc_answered :: "(bool \<times> CoherentXBar) outcome" where
  "proc_answered = coh_recvTimingResp device_variant sample_clock proc_data 1 (xbar_after checked_back)"

lemma proc_read_asks:
  obtains lat pkt0 x0 e0 where
    "ask_bias dcoh_bias proc_read sample_device_xbar empty_device = Inr (lat, 1, pkt0, x0, e0)"
proof -
  let ?a = "ask_bias dcoh_bias proc_read sample_device_xbar empty_device"
  have "\<not> isl ?a" "fst (snd (projr ?a)) = 1" by code_simp+
  then show ?thesis using that by (cases ?a) auto
qed

theorem host_bias_access_is_checked_witness:
  "gh_snooped (xbar_after (checked True)) = [] \<and> csched_resps (xbar_after (checked True)) = [] \<and>
   (\<exists>d t. csched_resps (snd (projr proc_answered)) = [(1, proc_data\<lparr> headerDelay := 0, payloadDelay := d \<rparr>, t)]) \<and>
   gh_snooped (xbar_after checked_back) = [0, 2]"
proof -
  let ?x1 = "xbar_after (checked True)" and ?x3 = "xbar_after checked_back"
    and ?returned = "fst (snd (projr (checked True)))" and ?a = "ask_bias dcoh_bias proc_read sample_device_xbar empty_device"
  have v: "\<not> isl (checked True)" "fst (projr (checked True))" "\<not> isl checked_back" "fst (projr checked_back)"
    "\<not> isl proc_answered" "fst (projr proc_answered)" "is_local (p_addr proc_read)"
    "cxl_packet_type (req ?returned) = HostBiasCheck" "cmd ?returned = ReadReq"
    "csched_resps ?x3 = []" "req_ptr (req proc_data) = req_ptr (req proc_read)"
    "gh_snooped ?x3 = [0, 2]" "gh_snooped sample_device_xbar = []" "csched_resps sample_device_xbar = []"
    by code_simp+
  have m: "\<not> maintenance (cmd ?returned) \<or> req_ptr (req proc_read) \<notin> deferred_cmos ?x1"
    by (simp add: v(9) maintenance_def isClean_def testCmdAttrib_def)
  have c: "checked True = Inr (True, ?returned, ?x1, snd (snd (snd (projr (checked True)))))"
    "checked_back = Inr (True, fst (snd (projr checked_back)), ?x3, snd (snd (snd (projr checked_back))))"
    using outcome_parts[OF v(1)] outcome_parts[OF v(3)] v(2,4) by metis+
  have r: "proc_answered = Inr (True, snd (projr proc_answered))"
    using outcome_pair[OF v(5)] v(6) by metis
  obtain lat pkt0 x0 e0 where q: "ask_bias dcoh_bias proc_read sample_device_xbar empty_device = Inr (lat, 1, pkt0, x0, e0)"
    by (rule proc_read_asks)
  have d: "dev_recvTimingReq dcoh_bias (willing True) sample_clock proc_read 1 sample_device_xbar empty_device
      = Inr (True, ?returned, ?x1, snd (snd (snd (projr (checked True)))))"
    "dev_recvTimingReq dcoh_bias (willing True) sample_clock ?returned 0 ?x1 (snd (snd (snd (projr (checked True)))))
      = Inr (True, fst (snd (projr checked_back)), ?x3, snd (snd (snd (projr checked_back))))"
    "coh_recvTimingResp device_variant sample_clock proc_data 1 ?x3 = Inr (True, snd (projr proc_answered))"
    unfolding checked_def[symmetric] checked_back_def[symmetric] proc_answered_def[symmetric] by (rule c r)+
  from host_bias_access_is_checked[OF d(1) v(7) q willing_polite dev_traffic.none _ v(8) m d(2) dev_traffic.none d(3) v(11)]
    v(10,12-14)
  show ?thesis by auto
qed

text \<open>C37: A bias check that the device refuses stops the simulation. When the port of the device does not
  take the coherence check of an access in host bias, the crossbar answers that the processor must
  send again, but its routing table already has the request and no layer remembers that somebody
  waits. So both ways to go on fail: the notification that the device is ready again fails the
  assertion of the layer (when nobody else waits there), and sending the same request again fails
  the assertion that it has no route yet, as long as the page stays in host bias, whatever
  traffic came in between.\<close>

theorem refused_bias_check_stops:
  assumes "dev_recvTimingReq bias peers clk pkt 1 x e = Inr (False, pkt1, x1, e1)" "is_local (p_addr pkt)"
    and "ask_bias bias pkt x e = Inr (lat, 1, pkt0, x0, e0)"
    and "polite_snoopers peers" "polite_memory device_regular peers"
    and "dev_traffic bias peers (req_ptr (req pkt)) (x1, e1) (x2, e2)"
    and "req_ptr (req again) = req_ptr (req pkt)" "is_local (p_addr again)"
    and "ask_bias bias again x2 e2 = Inr (lat', 1, pkt3, x3, e3)"
  shows "dev_recvTimingReq bias peers clk2 again 1 x2 e2 = Inl (AssertFail ''routeTo.find(pkt->req) == routeTo.end()'')
    \<and> (\<exists>dev bb. findPort cxldev (cbase x0) = Inr (dev, bb) \<and>
          (waitingForPeer (creqLayers x ! nat dev) = None \<longrightarrow>
             coh_recvReqRetry rx clk3 dev x1 = Inl (AssertFail ''waitingForPeer != NULL'')))"
proof
  let ?r = "req_ptr (req pkt)"
  have s: "send_bias_check peers pkt 1 x0 e0 = Inr (False, pkt1, x1, e1)"
    using local_accessE[OF assms(1-3)] by simp
  obtain b0 where x0: "x0 = x\<lparr> cbase := b0 \<rparr>" using ask_bias_frame(3)[OF assms(3)] by blast
  obtain dev bb where c: "findPort cxldev (cbase x0) = Inr (dev, bb)" "0 \<le> dev" "nat dev < length (creqLayers x0)"
    "x1 = (set_route ?r 1 x0)\<lparr> cbase := bb \<rparr>"
    using s by (rule send_bias_checkE)
  then show "\<exists>dev bb. findPort cxldev (cbase x0) = Inr (dev, bb) \<and>
      (waitingForPeer (creqLayers x ! nat dev) = None \<longrightarrow>
        coh_recvReqRetry rx clk3 dev x1 = Inl (AssertFail ''waitingForPeer != NULL''))"
    using x0 by (auto simp: coh_recvReqRetry_def recvRetry_def at_port_def array_at_def)
  have "route_of x1 ?r = Some 1" using c(4) by (simp add: route_of_def set_route_def update_conv')
  from traffic_keeps_route[OF assms(6) this assms(4,5)] have x2: "route_of x2 ?r = Some 1" by simp
  obtain b3 where "x3 = x2\<lparr> cbase := b3 \<rparr>" using ask_bias_frame(3)[OF assms(9)] by blast
  with x2 have "route_of x3 ?r = Some 1" by (simp add: route_of_def)
  then have "send_bias_check peers again 1 x3 e3 = Inl (AssertFail ''routeTo.find(pkt->req) == routeTo.end()'')"
    using ask_bias_frame(2)[OF assms(9)] assms(7)
    by (simp add: send_bias_check_def getAddr_def store_route_def mark_bias_check_def upd_req_def)
  with local_accessE[OF refl assms(8,9), of peers clk2]
  show "dev_recvTimingReq bias peers clk2 again 1 x2 e2 = Inl (AssertFail ''routeTo.find(pkt->req) == routeTo.end()'')"
    by simp
qed

theorem refused_bias_check_stops_witness:
  "dev_recvTimingReq dcoh_bias (willing False) sample_clock proc_read 1 (xbar_after (checked False))
       (snd (snd (snd (projr (checked False))))) = Inl (AssertFail ''routeTo.find(pkt->req) == routeTo.end()'')"
proof -
  let ?x1 = "xbar_after (checked False)" and ?e1 = "snd (snd (snd (projr (checked False))))"
  let ?b = "ask_bias dcoh_bias proc_read ?x1 ?e1"
  have v: "\<not> isl (checked False)" "\<not> fst (projr (checked False))" "is_local (p_addr proc_read)"
    "\<not> isl ?b" "fst (snd (projr ?b)) = 1"
    by code_simp+
  have "checked False = Inr (False, fst (snd (projr (checked False))), ?x1, ?e1)"
    using outcome_parts[OF v(1)] v(2) by metis
  then have c: "dev_recvTimingReq dcoh_bias (willing False) sample_clock proc_read 1 sample_device_xbar empty_device
      = Inr (False, fst (snd (projr (checked False))), ?x1, ?e1)"
    unfolding checked_def[symmetric] .
  obtain lat pkt0 x0 e0 where q: "ask_bias dcoh_bias proc_read sample_device_xbar empty_device = Inr (lat, 1, pkt0, x0, e0)"
    by (rule proc_read_asks)
  obtain lat' pkt3 x3 e3 where q2: "?b = Inr (lat', 1, pkt3, x3, e3)"
    using v(4,5) by (cases ?b) auto
  from refused_bias_check_stops[OF c v(3) q willing_polite dev_traffic.none refl v(3) q2] show ?thesis by blast
qed

end
