(* ===== verification/ChunkGenerator.thy ===== *)
theory ChunkGenerator
  imports Prelude
begin

text \<open>
  The generator that cuts a memory region into chunks which do not cross block boundaries
  (\<^verbatim>\<open>base/chunk_generator.hh\<close>), with the functions on powers of two it uses (\<^verbatim>\<open>base/intmath.hh\<close>). The
  result is that the chunks tile the region: in order, without gap or overlap, each in one block,
  and every chunk but the last reaches to the end of its block.
\<close>

section \<open>The generator\<close>

definition isPowerOf2 :: "u64 \<Rightarrow> bool" where
  "isPowerOf2 n = (n \<noteq> 0 \<and> n AND (n - 1) = 0)"

definition roundUp :: "u64 \<Rightarrow> u64 \<Rightarrow> u64 outcome" where
  "roundUp val align =
    rbind (assert_that (isPowerOf2 align) ''isPowerOf2(align)'') (\<lambda>_.
      Inr ((val + (align - 1)) AND NOT (align - 1)))"

record ChunkGenerator =
  curAddr :: addr
  nextAddr :: addr
  curSize :: u64
  nextSize :: u64
  sizeLeft :: u64
  startAddr :: addr
  chunkSize :: u64

definition new_ChunkGenerator :: "addr \<Rightarrow> u64 \<Rightarrow> u64 \<Rightarrow> ChunkGenerator outcome" where
  "new_ChunkGenerator start totalSize chunk =
    rbind (assert_that (chunk = 0 \<or> isPowerOf2 chunk) ''isPowerOf2(chunkSize)'') (\<lambda>_.
    rbind (if chunk = 0 then Inr (start + totalSize)
           else rbind (roundUp start chunk) (\<lambda>up.
                  Inr (min (if start = up then up + chunk else up) (start + totalSize)))) (\<lambda>nxt.
      let cur = nxt - start; left = totalSize - cur in
      Inr \<lparr> curAddr = start, nextAddr = nxt, curSize = cur, nextSize = min left chunk, sizeLeft = left,
        startAddr = start, chunkSize = chunk \<rparr>))"

definition gen_addr :: "ChunkGenerator \<Rightarrow> addr" where "gen_addr g = curAddr g"
definition gen_size :: "ChunkGenerator \<Rightarrow> u64" where "gen_size g = curSize g"
definition gen_complete :: "ChunkGenerator \<Rightarrow> u64" where "gen_complete g = curAddr g - startAddr g"
definition gen_done :: "ChunkGenerator \<Rightarrow> bool" where "gen_done g = (curSize g = 0)"
definition gen_last :: "ChunkGenerator \<Rightarrow> bool" where "gen_last g = (sizeLeft g = 0)"

definition gen_next :: "ChunkGenerator \<Rightarrow> bool \<times> ChunkGenerator" where
  "gen_next g =
    (if gen_last g then (False, g\<lparr> curSize := 0 \<rparr>)
     else
       let left = sizeLeft g - nextSize g in
       (True, g\<lparr> curAddr := nextAddr g, curSize := nextSize g, sizeLeft := left,
          nextAddr := nextAddr g + nextSize g, nextSize := min left (chunkSize g) \<rparr>))"

definition gen_setNext :: "addr \<Rightarrow> ChunkGenerator \<Rightarrow> ChunkGenerator outcome" where
  "gen_setNext nxt g =
    rbind (assert_that (nxt \<ge> nextAddr g) ''next >= nextAddr'') (\<lambda>_.
      let skipping = min (nxt - nextAddr g) (sizeLeft g);
          g1 = g\<lparr> sizeLeft := sizeLeft g - skipping, curSize := curSize g + skipping, nextAddr := nxt \<rparr> in
      rbind (assert_that (chunkSize g \<noteq> 0) ''chunkSize'') (\<lambda>_.
      rbind (roundUp nxt (chunkSize g)) (\<lambda>up.
        let n = up - nxt in
        Inr (g1\<lparr> nextSize := (if n = 0 then min (sizeLeft g1) (chunkSize g) else n) \<rparr>))))"

text \<open>The loop over the chunks: their addresses and sizes. A step that does not shrink the rest of the
  region is the last one.\<close>

function chunks :: "ChunkGenerator \<Rightarrow> (addr \<times> u64) list" where
  "chunks g = (if gen_done g then [] else (gen_addr g, gen_size g) # chunks (snd (gen_next g)))"
  by auto
termination
  by (relation "measures [\<lambda>g. if nextSize g \<le> sizeLeft g then 0 else 1, \<lambda>g. unat (sizeLeft g),
        \<lambda>g. if curSize g = 0 then 0 else 1]")
    (auto simp: gen_next_def gen_done_def gen_last_def Let_def min_def unat_sub word_le_nat_alt unat_gt_0 split: if_splits)

declare chunks.simps [simp del]

section \<open>The chunks tile the region\<close>

text \<open>A list of chunks covers the bytes from \<open>a\<close> to \<open>b\<close>, for blocks of \<open>k\<close> bytes.\<close>

fun tiles :: "nat \<Rightarrow> nat \<Rightarrow> (addr \<times> u64) list \<Rightarrow> nat \<Rightarrow> bool" where
  "tiles k a [] b \<longleftrightarrow> a = b"
| "tiles k a ((c, n) # cs) b \<longleftrightarrow> unat c = a \<and> 0 < unat n \<and> a div k = (a + unat n - 1) div k \<and>
     (cs \<noteq> [] \<longrightarrow> k dvd a + unat n) \<and> tiles k (a + unat n) cs b"

text \<open>The state of a generator in the middle of a region that ends at \<open>b\<close>.\<close>

definition gen_ok :: "nat \<Rightarrow> ChunkGenerator \<Rightarrow> bool" where
  "gen_ok b g \<longleftrightarrow> b < 2 ^ 64 \<and> 0 < chunkSize g \<and> 0 < curSize g \<and>
     unat (nextAddr g) = unat (curAddr g) + unat (curSize g) \<and>
     unat (nextAddr g) + unat (sizeLeft g) = b \<and> nextSize g = min (sizeLeft g) (chunkSize g) \<and>
     unat (curAddr g) div unat (chunkSize g) = (unat (nextAddr g) - 1) div unat (chunkSize g) \<and>
     (sizeLeft g \<noteq> 0 \<longrightarrow> unat (chunkSize g) dvd unat (nextAddr g))"

lemma gen_ok_next:
  assumes "gen_ok b g" "\<not> gen_last g"
  shows "gen_ok b (snd (gen_next g))"
proof -
  let ?n = "nextSize g" and ?k = "unat (chunkSize g)"
  have n: "unat ?n = min (unat (sizeLeft g)) ?k" using assms(1) by (simp add: gen_ok_def min_def word_le_nat_alt)
  have pos: "0 < unat (sizeLeft g)" "0 < ?k" using assms by (auto simp: gen_ok_def gen_last_def unat_gt_0 word_less_nat_alt)
  have left: "unat (sizeLeft g - ?n) = unat (sizeLeft g) - unat ?n" using n by (intro unat_sub) (simp add: word_le_nat_alt)
  have b: "unat (nextAddr g) + unat (sizeLeft g) = b" "b < 2 ^ 64" using assms(1) by (auto simp: gen_ok_def)
  have add: "unat (nextAddr g + ?n) = unat (nextAddr g) + unat ?n"
    using n b by (intro unat_add_lem[THEN iffD1]) simp
  have "?k dvd unat (nextAddr g)" using assms unfolding gen_ok_def gen_last_def by blast
  then obtain q where q: "unat (nextAddr g) = ?k * q" by (rule dvdE)
  have d: "(unat (nextAddr g) + unat ?n - 1) div ?k = q"
  proof (rule div_nat_eqI)
    show "?k * q \<le> unat (nextAddr g) + unat ?n - 1" using n pos q by simp
    show "unat (nextAddr g) + unat ?n - 1 < ?k * Suc q" using n pos q by simp
  qed
  have z: "?k dvd unat (nextAddr g) + unat ?n" if "sizeLeft g - ?n \<noteq> 0"
  proof -
    have "unat (sizeLeft g) - unat ?n \<noteq> 0" using that left by (metis unat_eq_zero)
    then have "unat ?n = ?k" using n by simp
    then show ?thesis using q by simp
  qed
  have dq: "unat (nextAddr g) div ?k = q" using q pos(2) by simp
  have f: "curAddr (snd (gen_next g)) = nextAddr g" "curSize (snd (gen_next g)) = ?n"
    "sizeLeft (snd (gen_next g)) = sizeLeft g - ?n" "nextAddr (snd (gen_next g)) = nextAddr g + ?n"
    "nextSize (snd (gen_next g)) = min (sizeLeft g - ?n) (chunkSize g)" "chunkSize (snd (gen_next g)) = chunkSize g"
    using assms(2) by (simp_all add: gen_next_def Let_def)
  have "0 < ?n" "0 < chunkSize g" using n pos by (simp_all add: word_less_nat_alt)
  moreover have "unat (nextAddr g + ?n) + unat (sizeLeft g - ?n) = b" using left add n b(1) by simp
  moreover have "unat (nextAddr g) div ?k = (unat (nextAddr g + ?n) - 1) div ?k" unfolding add d dq ..
  moreover have "sizeLeft g - ?n \<noteq> 0 \<longrightarrow> ?k dvd unat (nextAddr g + ?n)" using z add by simp
  ultimately show ?thesis unfolding gen_ok_def f using b(2) add by blast
qed

lemma chunks_tile: "gen_ok b g \<Longrightarrow> tiles (unat (chunkSize g)) (unat (curAddr g)) (chunks g) b"
proof (induction g rule: chunks.induct)
  case (1 g)
  let ?k = "unat (chunkSize g)" and ?h = "snd (gen_next g)"
  have nd: "\<not> gen_done g" using 1(2) by (auto simp: gen_ok_def gen_done_def)
  have g: "unat (nextAddr g) = unat (curAddr g) + unat (curSize g)" "0 < unat (curSize g)"
    "unat (curAddr g) div ?k = (unat (curAddr g) + unat (curSize g) - 1) div ?k"
    using 1(2) by (auto simp: gen_ok_def word_less_nat_alt)
  have c: "chunks g = (curAddr g, curSize g) # chunks ?h"
    using nd by (subst chunks.simps) (simp add: gen_addr_def gen_size_def)
  show ?case
  proof (cases "gen_last g")
    case True
    then have "chunks ?h = []" by (subst chunks.simps) (simp add: gen_next_def gen_done_def)
    with True c g 1(2) show ?thesis by (simp add: gen_ok_def gen_last_def)
  next
    case False
    note ok = gen_ok_next[OF 1(2) False]
    have "chunkSize ?h = chunkSize g" "curAddr ?h = nextAddr g"
      using False by (simp_all add: gen_next_def Let_def)
    with 1(1)[OF nd ok] g have "tiles ?k (unat (curAddr g) + unat (curSize g)) (chunks ?h) b" by simp
    moreover have "?k dvd unat (curAddr g) + unat (curSize g)"
      using False 1(2) g(1) by (simp add: gen_ok_def gen_last_def)
    ultimately show ?thesis using c g by simp
  qed
qed

section \<open>Powers of two\<close>

lemma nat_power_of_two: "0 < m \<Longrightarrow> m AND (m - 1) = (0 :: nat) \<Longrightarrow> \<exists>j. m = 2 ^ j"
proof (induction m rule: less_induct)
  case (less m)
  show ?case
  proof (cases "even m")
    case True
    then obtain k where k: "m = 2 * k" by (rule evenE)
    with less(2) have p: "0 < k" "k < m" "(m - 1) div 2 = k - 1" by auto
    have "m AND (m - 1) = 2 * (k AND (k - 1))"
      using k p(3) by (subst and_rec) simp
    with less(3) have "k AND (k - 1) = 0" by simp
    from less(1)[OF p(2,1) this] obtain j where "k = 2 ^ j" ..
    with k show ?thesis by (metis power_Suc)
  next
    case False
    then obtain k where k: "m = 2 * k + 1" by (rule oddE)
    then have "m AND (m - 1) = 2 * k" by (subst and_rec) simp
    with less(3) k have "m = 2 ^ 0" by simp
    then show ?thesis ..
  qed
qed

lemma power_of_two:
  assumes "isPowerOf2 n"
  obtains j where "n = 2 ^ j" "j < 64" "unat n = 2 ^ j"
proof -
  have "unat n AND (unat n - 1) = 0"
  proof -
    have "unat (n - 1) = unat n - 1" using assms by (simp add: isPowerOf2_def unat_minus_one)
    then show ?thesis using assms by (metis isPowerOf2_def unat_0 unsigned_and_eq)
  qed
  moreover have "0 < unat n" using assms by (simp add: isPowerOf2_def unat_gt_0)
  ultimately obtain j where j: "unat n = 2 ^ j" using nat_power_of_two by blast
  have "unat n < 2 ^ 64" using unsigned_less[of n] by simp
  then have "(2 :: nat) ^ j < 2 ^ 64" using j by simp
  then have "j < 64" by (simp only: power_strict_increasing_iff)
  moreover have "n = 2 ^ j" 
  proof -
    have "n = of_nat (unat n)" by simp
    then show ?thesis unfolding j by simp
  qed
  ultimately show ?thesis using that j by blast
qed

lemma unat_align_down: "unat ((x :: u64) AND NOT (mask j)) = unat x - unat x mod 2 ^ j"
proof -
  have "x AND NOT (mask j) = x AND NOT (take_bit j x)" by (auto intro!: bit_word_eqI simp: bit_simps)
  also have "\<dots> = x - take_bit j x" by (rule disjunctive_diff[symmetric]) (simp add: bit_simps)
  finally have "x AND NOT (mask j) = x - take_bit j x" .
  moreover have t: "unat (take_bit j x) = unat x mod 2 ^ j" 
    by (subst unsigned_take_bit_eq) (simp add: take_bit_eq_mod)
  moreover have "take_bit j x \<le> x" unfolding word_le_nat_alt t by simp
  ultimately show ?thesis by (simp only: unat_sub t)
qed

lemma unat_roundUp:
  assumes "isPowerOf2 k" "unat v + unat k < 2 ^ 64"
  obtains up where "roundUp v k = Inr up" "unat k dvd unat up" "unat v \<le> unat up" "unat up < unat v + unat k"
proof -
  obtain j where j: "k = 2 ^ j" "j < 64" and k: "unat k = 2 ^ j" using power_of_two[OF assms(1)] .
  have m: "k - 1 = mask j" using j by (simp add: mask_eq_decr_exp)
  have "unat (k - 1) = unat k - 1" using assms(1) by (simp add: isPowerOf2_def unat_minus_one)
  then have s: "unat (v + (k - 1)) = unat v + (2 ^ j - 1)"
    using assms(2) k by (subst unat_add_lem[THEN iffD1]) auto
  let ?s = "unat v + (2 ^ j - 1)"
  have u: "unat ((v + (k - 1)) AND NOT (k - 1)) = ?s - ?s mod 2 ^ j"
    unfolding m unat_align_down using s m by simp
  have "?s mod 2 ^ j < 2 ^ j" by simp
  show ?thesis
  proof (rule that)
    show "roundUp v k = Inr ((v + (k - 1)) AND NOT (k - 1))" using assms(1) by (simp add: roundUp_def)
    show "unat k dvd unat ((v + (k - 1)) AND NOT (k - 1))" unfolding u k by (rule dvd_minus_mod)
    show "unat v \<le> unat ((v + (k - 1)) AND NOT (k - 1))" unfolding u using \<open>?s mod 2 ^ j < 2 ^ j\<close> by linarith
    show "unat ((v + (k - 1)) AND NOT (k - 1)) < unat v + unat k" 
    proof -
      have "?s < unat v + 2 ^ j" by simp
      then show ?thesis unfolding u k by (rule le_less_trans[rotated]) simp
    qed
  qed
qed

lemma new_gen_ok:
  assumes "isPowerOf2 k" "unat a + unat k < 2 ^ 64" "unat a + unat n < 2 ^ 64" "0 < n"
  obtains g where "new_ChunkGenerator a n k = Inr g" "gen_ok (unat a + unat n) g" "curAddr g = a" "chunkSize g = k"
    "startAddr g = a"
proof -
  obtain up where up: "roundUp a k = Inr up" "unat k dvd unat up" "unat a \<le> unat up" "unat up < unat a + unat k"
    by (rule unat_roundUp[OF assms(1,2)])
  define e where "e = (if a = up then up + k else up)"
  define nxt where "nxt = min e (a + n)"
  have an: "unat (a + n) = unat a + unat n" using assms(3) by (intro unat_add_lem[THEN iffD1]) simp
  have pos: "0 < unat n" "0 < unat k" "k \<noteq> 0" using assms(1,4) by (auto simp: word_less_nat_alt isPowerOf2_def unat_gt_0)
  have e: "unat k dvd unat e" "unat a < unat e" "unat e \<le> unat a + unat k"
  proof -
    have "a = up \<Longrightarrow> unat (up + k) = unat up + unat k" using assms(2) by (intro unat_add_lem[THEN iffD1]) simp
    then show "unat k dvd unat e" "unat a < unat e" "unat e \<le> unat a + unat k"
      using up pos by (auto simp: e_def word_unat_eq_iff[of a up] intro: le_neq_implies_less)
  qed
  have x: "unat nxt = min (unat e) (unat a + unat n)"
    unfolding nxt_def using an by (simp add: min_def word_le_nat_alt)
  have cur: "unat (nxt - a) = unat nxt - unat a" using x e(2) by (intro unat_sub) (simp add: word_le_nat_alt)
  have left: "unat (n - (nxt - a)) = unat n - (unat nxt - unat a)"
    using cur x by (subst unat_sub) (auto simp: word_le_nat_alt)
  obtain q where q: "unat e = unat k * q" using e(1) by (rule dvdE)
  have blk: "(b :: nat) div unat k = q - 1" if "unat a \<le> b" "b < unat e" for b
  proof (rule div_nat_eqI)
    have "0 < q" using q e(2) by (cases q) auto
    then show "unat k * (q - 1) \<le> b" using that e(3) q by (simp add: diff_mult_distrib2)
    show "b < unat k * Suc (q - 1)" using that q \<open>0 < q\<close> by simp
  qed
  let ?g = "\<lparr> curAddr = a, nextAddr = nxt, curSize = nxt - a, nextSize = min (n - (nxt - a)) k,
    sizeLeft = n - (nxt - a), startAddr = a, chunkSize = k \<rparr>"
  show ?thesis
  proof (rule that[of ?g])
    show "new_ChunkGenerator a n k = Inr ?g"
      using assms(1) pos(3) up(1) by (simp add: new_ChunkGenerator_def Let_def e_def nxt_def)
    have "0 < nxt - a" using cur x e(2) pos(1) by (simp add: word_less_nat_alt)
    moreover have "unat a div unat k = (unat nxt - 1) div unat k"
      using blk[of "unat a"] blk[of "unat nxt - 1"] e(2) x pos(1) by auto
    moreover have "unat k dvd unat nxt" if "n - (nxt - a) \<noteq> 0"
    proof -
      have "unat n - (unat nxt - unat a) \<noteq> 0" using that left by (metis unat_eq_zero)
      then have "unat nxt = unat e" using x by auto
      then show ?thesis using e(1) by simp
    qed
    ultimately show "gen_ok (unat a + unat n) ?g"
      using assms(3) pos(2) cur left x e(2) by (auto simp: gen_ok_def word_less_nat_alt)
  qed simp_all
qed

lemma region_tiles:
  assumes "isPowerOf2 k" "unat a + unat k < 2 ^ 64" "unat a + unat n < 2 ^ 64"
  obtains g where "new_ChunkGenerator a n k = Inr g" "tiles (unat k) (unat a) (chunks g) (unat a + unat n)"
    "startAddr g = a" "n \<noteq> 0 \<Longrightarrow> gen_ok (unat a + unat n) g"
proof (cases "n = 0")
  case False
  then have "0 < n" by (simp add: word_neq_0_conv)
  from new_gen_ok[OF assms this] chunks_tile show ?thesis using that by metis
next
  case True
  obtain up where up: "roundUp a k = Inr up" "unat a \<le> unat up" by (rule unat_roundUp[OF assms(1,2)])
  have "unat a \<le> unat (if a = up then up + k else up)"
    using up(2) assms(2) by (auto simp: unat_add_lem[THEN iffD1])
  then have "a \<le> (if a = up then up + k else up)" by (simp only: word_le_nat_alt)
  then have m: "min (if a = up then up + k else up) a = a" by (rule min.absorb2)
  have "k \<noteq> 0" using assms(1) by (simp add: isPowerOf2_def)
  then have g: "new_ChunkGenerator a n k = Inr \<lparr> curAddr = a, nextAddr = a, curSize = 0, nextSize = 0, sizeLeft = 0,
      startAddr = a, chunkSize = k \<rparr>"
    using assms(1) up(1) m True by (simp add: new_ChunkGenerator_def Let_def)
  show ?thesis using True by (intro that[OF g]) (simp_all add: chunks.simps gen_done_def)
qed

end
