(* ===== verification/CxlProcessor.thy ===== *)
theory CxlProcessor
  imports ChunkGenerator Packets XBarLayer
begin

text \<open>
  The processor of the CXL device (\<^verbatim>\<open>dev/cxl/TestDev/CXLProcessor.cc\<close>, \<^verbatim>\<open>CXLProcessor.hh\<close>): it cuts an
  access into packets of a cache line and sends them through its port, at once in atomic mode and
  one per cycle in timing mode.

  The neighbour is a parameter. The history variable \<open>gh_sent\<close> has the packets it was offered, with
  the offset of their data. Payload bytes, trace output and the destructor are left out; the
  fields of a request that its constructor does not set are zero. A packet that comes back carries
  the sender state it left with.
\<close>

section \<open>State\<close>

record CXLProcReqState =
  completionEvent :: "nat option"
  abortEvent :: "nat option"
  aborted :: bool
  totBytes :: u64
  numBytes :: u64
  rs_delay :: u64
  gen :: ChunkGenerator
  has_data :: bool
  rs_flags :: u64
  rs_cmd :: Command

record CXLProcPort =
  pendingCount :: u32
  inRetry :: "Packet option"
  sendEvent :: "u64 option"
  retryPending :: bool
  cacheLineSize :: u64
  transmitList :: "CXLProcReqState list"
  next_req :: nat
  scheduled_events :: "(nat \<times> u64) list"
  drain_signals :: nat
  gh_sent :: "(Packet \<times> u64) list"

datatype mem_mode = TimingMode | AtomicMode | OtherMode

definition new_CXLProcPort :: "u64 \<Rightarrow> CXLProcPort" where
  "new_CXLProcPort line = \<lparr> pendingCount = 0, inRetry = None, sendEvent = None, retryPending = False,
     cacheLineSize = line, transmitList = [], next_req = 1, scheduled_events = [], drain_signals = 0, gh_sent = [] \<rparr>"

section \<open>Packets\<close>

definition Request_new :: "nat \<Rightarrow> addr \<Rightarrow> u32 \<Rightarrow> u64 \<Rightarrow> u16 \<Rightarrow> Request" where
  "Request_new ptr paddr sz flags rid =
    \<lparr> req_ptr = ptr, r_paddr = Some paddr, r_size = Some sz, r_flags = flags, r_requestorId = rid,
      pciBridgeSlaveID = -1, cxl_packet_type = DefaultPacket, cxl_req = None,
      cxl_data_atomic = None, cxl_data_atomic2 = None, cxl_cache = None,
      coherent_check_dest = 0, from_cxl_proc = False, old_state = 63, new_state = 63, hit_miss = False \<rparr>"

definition createPacket :: "nat \<Rightarrow> CXLProcReqState \<Rightarrow> Packet" where
  "createPacket ptr st =
    (let r = Request_new ptr (gen_addr (gen st)) (ucast (gen_size (gen st))) (rs_flags st) 0;
         pkt = Packet_new (r\<lparr> from_cxl_proc := True, cxl_packet_type := CXLProcReq \<rparr>) (rs_cmd st)
     in if has_data st then pkt\<lparr> p_flags := flag_set (p_flags pkt) STATIC_DATA \<rparr> else pkt)"

section \<open>Responses\<close>

text \<open>The number of bytes a response has brought; the state is kept while bytes are missing.\<close>

definition handleResp ::
  "u64 \<Rightarrow> CXLProcReqState \<Rightarrow> u64 \<Rightarrow> u64 \<Rightarrow> CXLProcPort \<Rightarrow> (CXLProcReqState option \<times> CXLProcPort) outcome" where
  "handleResp now st sz delay port =
    rbind (assert_that (pendingCount port \<noteq> 0) ''pendingCount != 0'') (\<lambda>_.
    let port1 = port\<lparr> pendingCount := pendingCount port - 1 \<rparr>;
        st1 = st\<lparr> numBytes := numBytes st + sz \<rparr> in
    rbind (assert_that (totBytes st1 \<ge> numBytes st1) ''state->totBytes >= state->numBytes'') (\<lambda>_.
    let all_bytes = (totBytes st1 = numBytes st1);
        (kept, port2) =
          (if aborted st1 then
             if all_bytes \<or> pendingCount port1 = 0 then
               (None, case abortEvent st1 of None \<Rightarrow> port1
                 | Some ev \<Rightarrow> port1\<lparr> scheduled_events := scheduled_events port1 @ [(ev, now)] \<rparr>)
             else (Some st1, port1)
           else if all_bytes then
             (None, case completionEvent st1 of None \<Rightarrow> port1
               | Some ev \<Rightarrow> port1\<lparr> scheduled_events := scheduled_events port1 @ [(ev, now + (delay + rs_delay st1))] \<rparr>)
           else (Some st1, port1)) in
    Inr (kept, if pendingCount port2 = 0 then port2\<lparr> drain_signals := drain_signals port2 + 1 \<rparr> else port2)))"

definition handleRespPacket ::
  "u64 \<Rightarrow> Packet \<Rightarrow> CXLProcReqState \<Rightarrow> u64 \<Rightarrow> CXLProcPort \<Rightarrow> (CXLProcReqState option \<times> CXLProcPort) outcome" where
  "handleRespPacket now pkt st delay port =
    rbind (assert_that (isResponse (cmd pkt)) ''pkt->isResponse()'') (\<lambda>_.
    rbind (getAddr pkt) (\<lambda>_.
    case r_size (req pkt) of
      None \<Rightarrow> Inl (AssertFail ''hasSize()'')
    | Some sz \<Rightarrow> handleResp now st (ucast sz) delay port))"

section \<open>Sending\<close>

definition record_sent :: "Packet \<Rightarrow> u64 \<Rightarrow> CXLProcPort \<Rightarrow> CXLProcPort" where
  "record_sent pkt off port = port\<lparr> gh_sent := gh_sent port @ [(pkt, off)] \<rparr>"

definition known_cmd :: "Packet \<Rightarrow> string \<Rightarrow> unit outcome" where
  "known_cmd pkt msg = (if cmd pkt = WriteReq \<or> cmd pkt = ReadReq then Inr () else Inl (Fatal msg))"

text \<open>One packet in atomic mode. The state that is returned is \<open>None\<close> when it was deleted.\<close>

definition sendReq ::
  "'e atomic_peer \<Rightarrow> u64 \<Rightarrow> CXLProcReqState \<Rightarrow> CXLProcPort \<Rightarrow> 'e
    \<Rightarrow> (bool \<times> CXLProcReqState option \<times> CXLProcPort \<times> 'e) outcome" where
  "sendReq peer now st port e =
    (let pkt = createPacket (next_req port) st;
         port1 = record_sent pkt (gen_complete (gen st))
           (port\<lparr> next_req := next_req port + 1, pendingCount := pendingCount port + 1 \<rparr>) in
     rbind (known_cmd pkt ''CXLProcessor::sendReq unknown cmd!!'') (\<lambda>_.
     rbind (peer pkt e) (\<lambda>(lat, pkt1, e1).
       let (more, g) = gen_next (gen st) in
       rbind (handleRespPacket now pkt1 (st\<lparr> gen := g \<rparr>) lat port1) (\<lambda>(kept, port2).
         Inr (\<not> more, kept, port2, e1)))))"

text \<open>The loop over the packets of one access; \<open>None\<close> when it does not end. The state must not have been
  deleted before the last packet.\<close>

partial_function (option) send_chunks ::
  "'e atomic_peer \<Rightarrow> u64 \<Rightarrow> CXLProcReqState \<Rightarrow> CXLProcPort \<Rightarrow> 'e \<Rightarrow> (CXLProcPort \<times> 'e) outcome option" where
  [code]: "send_chunks peer now st port e =
    (case sendReq peer now st port e of
       Inl err \<Rightarrow> Some (Inl err)
     | Inr (finished, kept, port1, e1) \<Rightarrow>
         if finished then Some (Inr (port1, e1))
         else (case kept of
                 None \<Rightarrow> Some (Inl (Undefined ''state was deleted''))
               | Some st1 \<Rightarrow> send_chunks peer now st1 port1 e1))"

text \<open>Everything there is to send, in zero time.\<close>

fun send_all ::
  "'e atomic_peer \<Rightarrow> u64 \<Rightarrow> CXLProcReqState list \<Rightarrow> CXLProcPort \<Rightarrow> 'e \<Rightarrow> (CXLProcPort \<times> 'e) outcome option" where
  "send_all peer now [] port e = Some (Inr (port\<lparr> transmitList := [] \<rparr>, e))"
| "send_all peer now (st # sts) port e =
     (case (if gen_done (gen st) then Some (Inr (port\<lparr> transmitList := sts \<rparr>, e))
            else send_chunks peer now st (port\<lparr> transmitList := sts \<rparr>) e) of
        None \<Rightarrow> None
      | Some (Inl err) \<Rightarrow> Some (Inl err)
      | Some (Inr (port1, e1)) \<Rightarrow> send_all peer now sts port1 e1)"

text \<open>One packet in timing mode; \<open>edge1\<close> is the next clock edge. First what follows the attempt to send
  packet \<open>pkt\<close> of the first access.\<close>

definition after_send ::
  "u64 \<Rightarrow> CXLProcReqState \<Rightarrow> CXLProcReqState list \<Rightarrow> bool \<Rightarrow> Packet \<Rightarrow> CXLProcPort \<Rightarrow> CXLProcPort outcome" where
  "after_send edge1 st sts success pkt port =
    (let port1 = (if success then port\<lparr> pendingCount := pendingCount port + 1 \<rparr>
                  else port\<lparr> retryPending := True, inRetry := Some pkt \<rparr>) in
     if retryPending port1 then Inr port1
     else
       let st1 = st\<lparr> gen := snd (gen_next (gen st)) \<rparr>;
           port2 = port1\<lparr> transmitList := (if gen_last (gen st) then sts else st1 # sts) \<rparr> in
       if transmitList port2 \<noteq> [] then
         rbind (assert_that (sendEvent port2 = None) ''!event->scheduled()'') (\<lambda>_.
           Inr (port2\<lparr> sendEvent := Some edge1 \<rparr>))
       else Inr port2)"

definition trySendTimingReq ::
  "'e timing_peer \<Rightarrow> u64 \<Rightarrow> CXLProcPort \<Rightarrow> 'e \<Rightarrow> (CXLProcPort \<times> 'e) outcome" where
  "trySendTimingReq peer edge1 port e =
    (case transmitList port of
       [] \<Rightarrow> Inl (Undefined ''transmitList.front()'')
     | st # sts \<Rightarrow>
         let (pkt, port1) = (case inRetry port of
                Some p \<Rightarrow> (p, port\<lparr> inRetry := None \<rparr>)
              | None \<Rightarrow> (createPacket (next_req port) st, port\<lparr> next_req := next_req port + 1 \<rparr>)) in
         rbind (known_cmd pkt ''CXLProcessor::trySendTimingReq unknown cmd!!'') (\<lambda>_.
         rbind (peer pkt e) (\<lambda>(success, pkt1, e1).
         rbind (after_send edge1 st sts success pkt1 (record_sent pkt (gen_complete (gen st)) port1)) (\<lambda>port2.
           Inr (port2, e1)))))"

definition sendPacket ::
  "mem_mode \<Rightarrow> 'e timing_peer \<Rightarrow> 'e atomic_peer \<Rightarrow> u64 \<Rightarrow> u64 \<Rightarrow> CXLProcPort \<Rightarrow> 'e \<Rightarrow> (CXLProcPort \<times> 'e) outcome option" where
  "sendPacket mode tpeer apeer now edge1 port e =
    (if transmitList port = [] then Some (Inl (AssertFail ''transmitList.size()''))
     else case mode of
       TimingMode \<Rightarrow> Some (if retryPending port \<or> sendEvent port \<noteq> None then Inr (port, e)
                           else trySendTimingReq tpeer edge1 port e)
     | AtomicMode \<Rightarrow> send_all apeer now (transmitList port) port e
     | OtherMode \<Rightarrow> Some (Inl (Panic ''Unknown memory mode.'')))"

text \<open>The send event has fired.\<close>

definition processSend ::
  "mem_mode \<Rightarrow> 'e timing_peer \<Rightarrow> 'e atomic_peer \<Rightarrow> u64 \<Rightarrow> u64 \<Rightarrow> CXLProcPort \<Rightarrow> 'e \<Rightarrow> (CXLProcPort \<times> 'e) outcome option" where
  "processSend mode tpeer apeer now edge1 port e =
    sendPacket mode tpeer apeer now edge1 (port\<lparr> sendEvent := None \<rparr>) e"

section \<open>Accesses\<close>

text \<open>The size is a signed number, which is extended to 64 bits.\<close>

definition new_CXLProcReqState ::
  "Command \<Rightarrow> addr \<Rightarrow> u64 \<Rightarrow> u64 \<Rightarrow> bool \<Rightarrow> u64 \<Rightarrow> nat option \<Rightarrow> u64 \<Rightarrow> CXLProcReqState outcome" where
  "new_CXLProcReqState c a chunk_sz tb data flags ce delay =
    rbind (new_ChunkGenerator a tb chunk_sz) (\<lambda>g.
      Inr \<lparr> completionEvent = ce, abortEvent = None, aborted = False, totBytes = tb, numBytes = 0, rs_delay = delay,
        gen = g, has_data = data, rs_flags = flags, rs_cmd = c \<rparr>)"

definition execCXLProc ::
  "mem_mode \<Rightarrow> 'e timing_peer \<Rightarrow> 'e atomic_peer \<Rightarrow> u64 \<Rightarrow> u64 \<Rightarrow> addr \<Rightarrow> u32 \<Rightarrow> Command \<Rightarrow> bool \<Rightarrow> CXLProcPort \<Rightarrow> 'e
    \<Rightarrow> (CXLProcPort \<times> 'e) outcome option" where
  "execCXLProc mode tpeer apeer now edge1 a sz c data port e =
    (case new_CXLProcReqState c a (cacheLineSize port) (scast sz) data 0 None 100 of
       Inl err \<Rightarrow> Some (Inl err)
     | Inr st \<Rightarrow> sendPacket mode tpeer apeer now edge1 (port\<lparr> transmitList := transmitList port @ [st] \<rparr>) e)"

definition CXLWrite where
  "CXLWrite mode tpeer apeer now edge1 a sz port e = execCXLProc mode tpeer apeer now edge1 a sz WriteReq True port e"

definition CXLRead where
  "CXLRead mode tpeer apeer now edge1 a sz port e = execCXLProc mode tpeer apeer now edge1 a sz ReadReq True port e"

text \<open>What the port does when it is told to try again, and when a response arrives: nothing, and it never
  takes the response.\<close>

definition proc_recvReqRetry :: "CXLProcPort \<Rightarrow> CXLProcPort" where
  "proc_recvReqRetry port = port"

definition proc_recvTimingResp :: "Packet \<Rightarrow> CXLProcPort \<Rightarrow> bool \<times> CXLProcPort" where
  "proc_recvTimingResp pkt port = (False, port)"



definition proc_drain :: "CXLProcPort \<Rightarrow> DrainState" where
  "proc_drain port = (if pendingCount port = 0 then Drained else Draining)"

end
