(* ===== verification/CxlProcessorProps.thy ===== *)
theory CxlProcessorProps
  imports CxlProcessor
begin

text \<open>
  Properties of the device processor: in atomic mode an access is sent as packets that tile its
  region, and all are accounted for; in timing mode the first refused packet stops the port for
  good, and the port never counts a response.
\<close>

section \<open>One packet in atomic mode\<close>

text \<open>A neighbour that answers every read and write of the processor with a response. It may change the
  packet and its request as it likes, as the device crossbar and the coherency engine do, except
  that the response still has an address and the size of the request, which nothing can change
  after the request was made.\<close>

definition answers :: "'e atomic_peer \<Rightarrow> bool" where
  "answers peer \<longleftrightarrow> (\<forall>pkt e. valid_addr pkt \<and> (cmd pkt = WriteReq \<or> cmd pkt = ReadReq) \<longrightarrow>
     (\<exists>lat pkt' e'. peer pkt e = Inr (lat, pkt', e') \<and> isResponse (cmd pkt') \<and>
       valid_addr pkt' \<and> r_size (req pkt') = r_size (req pkt)))"

definition sent_chunk :: "Packet \<times> u64 \<Rightarrow> addr \<times> u64" where
  "sent_chunk s = (p_addr (fst s), ucast (p_size (fst s)))"

lemma chunk_in_line:
  assumes "gen_ok b g"
  shows "unat (curSize g) \<le> unat (chunkSize g)"
proof -
  let ?k = "unat (chunkSize g)" and ?a = "unat (curAddr g)" and ?n = "unat (curSize g)"
  have g: "?a div ?k = (?a + ?n - 1) div ?k" "0 < ?k" "0 < ?n"
    using assms by (auto simp: gen_ok_def word_less_nat_alt)
  have "?a + ?n - 1 < ?k * Suc (?a div ?k)" unfolding g(1) by (rule dividend_less_times_div[THEN order_less_le_trans]) (use g(2) in auto)
  moreover have "?k * (?a div ?k) \<le> ?a" by simp
  ultimately show ?thesis using g(3) unfolding mult_Suc_right by linarith
qed

lemma createPacket_fields:
  "p_addr (createPacket n st) = curAddr (gen st)" "cmd (createPacket n st) = rs_cmd st"
  "p_size (createPacket n st) = ucast (curSize (gen st))" "r_size (req (createPacket n st)) = Some (ucast (curSize (gen st)))"
  "valid_addr (createPacket n st)" "cxl_packet_type (req (createPacket n st)) = CXLProcReq"
  by (auto simp: createPacket_def Request_new_def Packet_new_def Let_def gen_addr_def gen_size_def valid_addr_def
      packet_flag_defs flag_isSet_def flag_set_def STATIC_DATA_def)

text \<open>An access in progress: the bytes still to come are those from the current chunk on.\<close>

definition access_ok :: "nat \<Rightarrow> CXLProcReqState \<Rightarrow> bool" where
  "access_ok b st \<longleftrightarrow> gen_ok b (gen st) \<and> unat (chunkSize (gen st)) < 2 ^ 32 \<and>
     unat (numBytes st) + (b - unat (curAddr (gen st))) = unat (totBytes st) \<and>
     \<not> aborted st \<and> completionEvent st = None \<and> (rs_cmd st = WriteReq \<or> rs_cmd st = ReadReq)"

lemma size_survives:
  assumes "gen_ok b g" "unat (chunkSize g) < 2 ^ 32"
  shows "(ucast (ucast (curSize g) :: u32) :: u64) = curSize g"
proof -
  have "curSize g < 2 ^ 32" using chunk_in_line[OF assms(1)] assms(2) by (simp add: word_less_nat_alt)
  moreover have "(ucast (ucast (curSize g) :: u32) :: u64) = take_bit 32 (curSize g)"
    by (rule bit_word_eqI) (auto simp: bit_simps)
  ultimately show ?thesis by (simp add: take_bit_eq_mod word_unat_eq_iff unat_mod word_less_nat_alt)
qed

text \<open>One packet: it is the current chunk, and it is answered and counted.\<close>

lemma sendReq_ok:
  assumes "access_ok b st" "answers peer" "pendingCount port = 0"
  obtains pkt kept port' e' where "sendReq peer now st port e = Inr (gen_last (gen st), kept, port', e')"
    "gh_sent port' = gh_sent port @ [(pkt, gen_complete (gen st))]" "sent_chunk (pkt, 0) = (curAddr (gen st), curSize (gen st))"
    "cmd pkt = rs_cmd st" "cxl_packet_type (req pkt) = CXLProcReq" "pendingCount port' = 0" "transmitList port' = transmitList port"
    "\<not> gen_last (gen st) \<Longrightarrow> \<exists>st'. kept = Some st' \<and> access_ok b st' \<and> gen st' = snd (gen_next (gen st)) \<and> rs_cmd st' = rs_cmd st"
proof -
  let ?g = "gen st" and ?pkt = "createPacket (next_req port) st"
  let ?port1 = "record_sent ?pkt (gen_complete ?g) (port\<lparr> next_req := next_req port + 1, pendingCount := pendingCount port + 1 \<rparr>)"
  note f = createPacket_fields[of "next_req port" st]
  have ok: "gen_ok b ?g" "unat (chunkSize ?g) < 2 ^ 32" "unat (numBytes st) + (b - unat (curAddr ?g)) = unat (totBytes st)"
    "\<not> aborted st" "completionEvent st = None" "rs_cmd st = WriteReq \<or> rs_cmd st = ReadReq"
    using assms(1) by (auto simp: access_ok_def)
  note sz = size_survives[OF ok(1,2)]
  obtain lat pkt1 e1 where p: "peer ?pkt e = Inr (lat, pkt1, e1)" "isResponse (cmd pkt1)" "valid_addr pkt1" "r_size (req pkt1) = r_size (req ?pkt)"
    using assms(2) f(2,5) ok(6) unfolding answers_def by metis
  obtain more g' where g': "gen_next ?g = (more, g')" "more = (\<not> gen_last ?g)" "g' = snd (gen_next ?g)"
    by (auto simp: gen_next_def Let_def)
  have cur: "unat (curAddr ?g) + unat (curSize ?g) + unat (sizeLeft ?g) = b" using ok(1) by (auto simp: gen_ok_def)
  have "unat (totBytes st) < 2 ^ 64" using unsigned_less[of "totBytes st"] by simp
  then have num: "unat (numBytes st + curSize ?g) = unat (numBytes st) + unat (curSize ?g)"
    using ok(3) cur by (intro unat_add_lem[THEN iffD1]) simp
  have tot: "numBytes st + curSize ?g \<le> totBytes st" "(totBytes st = numBytes st + curSize ?g) = gen_last ?g"
    using num ok(3) cur by (auto simp: word_le_nat_alt word_unat_eq_iff gen_last_def)
  let ?st1 = "st\<lparr> gen := g', numBytes := numBytes st + curSize ?g \<rparr>"
  have h: "handleRespPacket now pkt1 (st\<lparr> gen := g' \<rparr>) lat ?port1
    = Inr (if gen_last ?g then None else Some ?st1,
        ?port1\<lparr> pendingCount := 0, drain_signals := drain_signals port + 1 \<rparr>)"
    using p(2,3) f(4) p(4) sz tot ok(4,5) assms(3)
    by (simp add: handleRespPacket_def handleResp_def getAddr_eq record_sent_def Let_def)
  show ?thesis
  proof (rule that)
    show "sendReq peer now st port e = Inr (gen_last ?g, if gen_last ?g then None else Some ?st1,
        ?port1\<lparr> pendingCount := 0, drain_signals := drain_signals port + 1 \<rparr>, e1)"
      using f(2) ok(6) p(1) g'(1,2) h by (auto simp: sendReq_def known_cmd_def Let_def)
    show "\<exists>st'. (if gen_last ?g then None else Some ?st1) = Some st' \<and> access_ok b st' \<and> gen st' = snd (gen_next ?g) \<and> rs_cmd st' = rs_cmd st"
      if "\<not> gen_last ?g"
      using that gen_ok_next[OF ok(1)] ok g' num cur
      by (auto simp: access_ok_def gen_next_def Let_def gen_ok_def)
  qed (use f sz in \<open>simp_all add: record_sent_def sent_chunk_def\<close>)
qed

section \<open>A whole access in atomic mode\<close>

text \<open>A packet of an access to the region from \<open>a\<close>: its data are at the offset of its address.\<close>

definition access_packet :: "addr \<Rightarrow> Command \<Rightarrow> Packet \<times> u64 \<Rightarrow> bool" where
  "access_packet a c s \<longleftrightarrow> cmd (fst s) = c \<and> cxl_packet_type (req (fst s)) = CXLProcReq \<and> snd s = p_addr (fst s) - a"

lemma send_chunks_ok:
  assumes "access_ok b st" "answers peer" "pendingCount port = 0"
  shows "\<exists>port' e' sent. send_chunks peer now st port e = Some (Inr (port', e')) \<and> gh_sent port' = gh_sent port @ sent \<and>
    map sent_chunk sent = chunks (gen st) \<and> pendingCount port' = 0 \<and> transmitList port' = transmitList port \<and>
    list_all (access_packet (startAddr (gen st)) (rs_cmd st)) sent"
  using assms(1,3)
proof (induction "unat (sizeLeft (gen st))" arbitrary: st port e rule: less_induct)
  case less
  let ?g = "gen st"
  obtain pkt kept port1 e1 where s: "sendReq peer now st port e = Inr (gen_last ?g, kept, port1, e1)"
    "gh_sent port1 = gh_sent port @ [(pkt, gen_complete ?g)]" "sent_chunk (pkt, 0) = (curAddr ?g, curSize ?g)"
    "cmd pkt = rs_cmd st" "cxl_packet_type (req pkt) = CXLProcReq" "pendingCount port1 = 0" "transmitList port1 = transmitList port"
    and k: "\<not> gen_last ?g \<Longrightarrow> \<exists>st'. kept = Some st' \<and> access_ok b st' \<and> gen st' = snd (gen_next ?g) \<and> rs_cmd st' = rs_cmd st"
    using sendReq_ok[OF less(2) assms(2) less(3)] by metis
  have nd: "\<not> gen_done ?g" using less(2) by (auto simp: access_ok_def gen_ok_def gen_done_def)
  have c: "chunks ?g = (curAddr ?g, curSize ?g) # chunks (snd (gen_next ?g))"
    using nd by (subst chunks.simps) (simp add: gen_addr_def gen_size_def)
  have pk: "sent_chunk (pkt, gen_complete ?g) = (curAddr ?g, curSize ?g)"
    "access_packet (startAddr ?g) (rs_cmd st) (pkt, gen_complete ?g)"
    using s(3-5) by (auto simp: sent_chunk_def access_packet_def gen_complete_def)
  show ?case
  proof (cases "gen_last ?g")
    case True
    then have "chunks (snd (gen_next ?g)) = []" by (subst chunks.simps) (simp add: gen_next_def gen_done_def)
    with True s pk c show ?thesis
      by (subst send_chunks.simps) (auto intro!: exI[of _ "[(pkt, gen_complete ?g)]"])
  next
    case False
    then obtain st' where st': "kept = Some st'" "access_ok b st'" "gen st' = snd (gen_next ?g)" "rs_cmd st' = rs_cmd st"
      using k by blast
    have i: "startAddr (snd (gen_next ?g)) = startAddr ?g" by (simp add: gen_next_def Let_def)
    have "unat (nextSize ?g) \<le> unat (sizeLeft ?g)" "0 < unat (nextSize ?g)"
      using less(2) False by (auto simp: access_ok_def gen_ok_def gen_last_def min_def word_le_nat_alt unat_gt_0 word_less_nat_alt)
    then have "unat (sizeLeft (gen st')) < unat (sizeLeft ?g)"
      using False by (simp add: st'(3) gen_next_def Let_def unat_sub word_le_nat_alt)
    from less(1)[OF this st'(2) s(6)] obtain port' e' sent where r: "send_chunks peer now st' port1 e1 = Some (Inr (port', e'))"
      "gh_sent port' = gh_sent port1 @ sent" "map sent_chunk sent = chunks (gen st')" "pendingCount port' = 0"
      "transmitList port' = transmitList port1" "list_all (access_packet (startAddr (gen st')) (rs_cmd st')) sent" by blast
    have "send_chunks peer now st port e = Some (Inr (port', e'))"
      using False s(1) st'(1) r(1) by (subst send_chunks.simps) simp
    with r s pk c st' i show ?thesis
      by (intro exI[of _ port'] exI[of _ e'] exI[of _ "(pkt, gen_complete ?g) # sent"]) simp
  qed
qed

lemma scast_positive:
  assumes "unat (n :: u32) < 2 ^ 31"
  shows "unat (scast n :: u64) = unat n"
proof -
  have "unat n div 2 ^ 31 = 0" using assms by simp
  then have "\<not> bit (unat n) 31" by (simp add: bit_iff_odd)
  then have "\<not> bit n 31" by (simp add: bit_simps)
  then have "\<not> bit n i" if "31 \<le> i" for i
    using that bit_imp_le_length[of n i] by (cases "i = 31") auto
  then have "(scast n :: u64) = ucast n"
    by (intro bit_word_eqI) (auto simp: bit_simps min_def not_less)
  moreover have "unat n < 2 ^ 64" using assms by simp
  ultimately show ?thesis by (simp add: unsigned_ucast_eq take_bit_nat_eq_self)
qed

text \<open>C30: In atomic mode the device processor accesses exactly the region it was asked for. Let the
  cache line have a power of two bytes, let the region not reach the end of the address space, and
  let the neighbour answer every read and write with a response that keeps the size of the request
  (it may change the rest of the request, such as the packet type). Then an access returns; the packets it sent tile the region (in order, without gap or overlap, each
  within one cache line and all but the last to the end of its line), each has the command of the
  access, is marked as coming from the processor and takes its data from the right offset; and
  afterwards nothing is left to send and nothing is pending.\<close>

theorem processor_access_tiles_region:
  assumes "isPowerOf2 (cacheLineSize port)" "unat (cacheLineSize port) < 2 ^ 32" "unat a + unat (cacheLineSize port) < 2 ^ 64"
    and "0 < unat sz" "unat sz < 2 ^ 31" "unat a + unat sz < 2 ^ 64" "c = WriteReq \<or> c = ReadReq"
    and "transmitList port = []" "pendingCount port = 0" "answers peer"
  shows "\<exists>port' e' sent. execCXLProc AtomicMode tpeer peer now edge1 a sz c data port e = Some (Inr (port', e')) \<and>
    gh_sent port' = gh_sent port @ sent \<and> tiles (unat (cacheLineSize port)) (unat a) (map sent_chunk sent) (unat a + unat sz) \<and>
    list_all (access_packet a c) sent \<and> transmitList port' = [] \<and> pendingCount port' = 0"
proof -
  let ?n = "scast sz :: u64" and ?k = "cacheLineSize port"
  have n: "unat ?n = unat sz" by (rule scast_positive[OF assms(5)])
  then have "?n \<noteq> 0" "unat a + unat ?n < 2 ^ 64" using assms(4,6) by auto
  from region_tiles[OF assms(1,3) this(2)] this(1) obtain g where g: "new_ChunkGenerator a ?n ?k = Inr g"
    "tiles (unat ?k) (unat a) (chunks g) (unat a + unat sz)" "startAddr g = a" "gen_ok (unat a + unat sz) g"
    using n by metis
  have f: "curAddr g = a" "chunkSize g = ?k" using g(1) by (auto simp: new_ChunkGenerator_def Let_def split: if_splits)
  define st where "st = \<lparr> completionEvent = None, abortEvent = None, aborted = False, totBytes = ?n, numBytes = 0,
    rs_delay = 100, gen = g, has_data = data, rs_flags = 0, rs_cmd = c \<rparr>"
  have "access_ok (unat a + unat sz) st"
    using g(4) f assms(2,7) n by (simp add: access_ok_def st_def)
  from send_chunks_ok[OF this assms(10), of "port\<lparr> transmitList := [] \<rparr>" now e] assms(9)
  obtain port' e' sent where r: "send_chunks peer now st (port\<lparr> transmitList := [] \<rparr>) e = Some (Inr (port', e'))"
    "gh_sent port' = gh_sent port @ sent" "map sent_chunk sent = chunks g" "pendingCount port' = 0" "transmitList port' = []"
    "list_all (access_packet a c) sent"
    using g(3) by (auto simp: st_def)
  have "\<not> gen_done g" using g(4) by (auto simp: gen_ok_def gen_done_def)
  then have "execCXLProc AtomicMode tpeer peer now edge1 a sz c data port e = Some (Inr (port'\<lparr> transmitList := [] \<rparr>, e'))"
    using g(1) r(1) assms(8) by (simp add: execCXLProc_def new_CXLProcReqState_def sendPacket_def st_def)
  with r g(2) show ?thesis by auto
qed

text \<open>A read of 100 bytes over line boundaries, with a neighbour that answers and marks the request as
  a bias check on the way.\<close>

definition answering :: "unit atomic_peer" where
  "answering pkt e = Inr (5, upd_req (\<lambda>r. r\<lparr> cxl_packet_type := HostBiasCheck \<rparr>) (pkt\<lparr> cmd := ReadResp \<rparr>), e)"

lemma answering_answers: "answers answering"
  by (simp add: answers_def answering_def isResponse_def testCmdAttrib_def valid_addr_def)

definition refusing :: "unit timing_peer" where
  "refusing pkt e = Inr (False, pkt, e)"

theorem processor_access_tiles_region_witness:
  "\<exists>port' sent. execCXLProc AtomicMode refusing answering 0 1000 0xA0000030 100 ReadReq True (new_CXLProcPort 64) ()
      = Some (Inr (port', ())) \<and> gh_sent port' = sent \<and> tiles 64 0xA0000030 (map sent_chunk sent) 0xA0000094"
proof -
  have "isPowerOf2 (cacheLineSize (new_CXLProcPort 64))" "unat (cacheLineSize (new_CXLProcPort 64)) = 64"
    by (simp_all add: new_CXLProcPort_def isPowerOf2_def)
  then show ?thesis
    using processor_access_tiles_region[of "new_CXLProcPort 64" "0xA0000030" 100 ReadReq answering refusing 0 1000 True "()"]
      answering_answers
    by (auto simp: new_CXLProcPort_def)
qed

section \<open>Timing mode\<close>

text \<open>What can happen to the port in timing mode: a new access, the send event, a retry, a response.\<close>

datatype proc_op = Exec addr u32 Command bool | Fire | Retry | Resp Packet

definition no_atomic :: "'e atomic_peer" where
  "no_atomic pkt e = Inl (Panic ''no atomic access'')"

fun proc_step :: "'e timing_peer \<Rightarrow> u64 \<Rightarrow> proc_op \<Rightarrow> CXLProcPort \<times> 'e \<Rightarrow> (CXLProcPort \<times> 'e) outcome option" where
  "proc_step peer edge1 (Exec a sz c data) (port, e) = execCXLProc TimingMode peer no_atomic 0 edge1 a sz c data port e"
| "proc_step peer edge1 Fire (port, e) = processSend TimingMode peer no_atomic 0 edge1 port e"
| "proc_step peer edge1 Retry (port, e) = Some (Inr (proc_recvReqRetry port, e))"
| "proc_step peer edge1 (Resp pkt) (port, e) = Some (Inr (snd (proc_recvTimingResp pkt port), e))"

fun run_proc :: "'e timing_peer \<Rightarrow> (u64 \<times> proc_op) list \<Rightarrow> CXLProcPort \<times> 'e \<Rightarrow> (CXLProcPort \<times> 'e) outcome option" where
  "run_proc peer [] s = Some (Inr s)"
| "run_proc peer ((edge1, op) # ops) s =
     (case proc_step peer edge1 op s of
        Some (Inr s1) \<Rightarrow> run_proc peer ops s1
      | r \<Rightarrow> r)"

definition accepted_packets :: "CXLProcPort \<Rightarrow> nat" where
  "accepted_packets port = length (gh_sent port) - (if retryPending port then 1 else 0)"

definition proc_inv :: "CXLProcPort \<Rightarrow> bool" where
  "proc_inv port \<longleftrightarrow> pendingCount port = of_nat (accepted_packets port) \<and>
     (retryPending port \<longrightarrow> gh_sent port \<noteq> [] \<and> transmitList port \<noteq> [])"

text \<open>A step keeps the count; once a packet was refused it only adds accesses to the list.\<close>

definition proc_advances :: "CXLProcPort \<times> 'e \<Rightarrow> CXLProcPort \<times> 'e \<Rightarrow> bool" where
  "proc_advances s s' \<longleftrightarrow> proc_inv (fst s') \<and> accepted_packets (fst s) \<le> accepted_packets (fst s') \<and>
     (retryPending (fst s) \<longrightarrow> retryPending (fst s') \<and> snd s' = snd s \<and> gh_sent (fst s') = gh_sent (fst s) \<and>
       (\<exists>more. transmitList (fst s') = transmitList (fst s) @ more))"

lemma trySend_fields:
  assumes "trySendTimingReq peer edge1 port e = Inr (port', e')" "\<not> retryPending port"
  obtains pkt off where "gh_sent port' = gh_sent port @ [(pkt, off)]" "transmitList port \<noteq> []"
    "pendingCount port' = (if retryPending port' then pendingCount port else pendingCount port + 1)"
    "retryPending port' \<longrightarrow> transmitList port' = transmitList port"
proof -
  obtain st sts where t: "transmitList port = st # sts"
    using assms(1) by (cases "transmitList port") (auto simp: trySendTimingReq_def)
  obtain pkt port1 where p: "(case inRetry port of Some p \<Rightarrow> (p, port\<lparr> inRetry := None \<rparr>)
      | None \<Rightarrow> (createPacket (next_req port) st, port\<lparr> next_req := next_req port + 1 \<rparr>)) = (pkt, port1)"
    by fastforce
  then have p1: "gh_sent port1 = gh_sent port" "retryPending port1 = retryPending port" "pendingCount port1 = pendingCount port"
    "transmitList port1 = transmitList port" by (auto split: option.splits)
  then obtain success pkt1 where
    r: "after_send edge1 st sts success pkt1 (record_sent pkt (gen_complete (gen st)) port1) = Inr port'"
    using assms(1) t p unfolding trySendTimingReq_def by auto
  show ?thesis
  proof (rule that[of pkt "gen_complete (gen st)"])
    show "gh_sent port' = gh_sent port @ [(pkt, gen_complete (gen st))]"
      "pendingCount port' = (if retryPending port' then pendingCount port else pendingCount port + 1)"
      "retryPending port' \<longrightarrow> transmitList port' = transmitList port"
      using r p1 assms(2) by (cases success; auto simp: after_send_def record_sent_def Let_def split: if_splits)+
  qed (use t in simp)
qed

lemma trySend_advances:
  assumes "trySendTimingReq peer edge1 port e = Inr (port', e')" "proc_inv port" "\<not> retryPending port"
  shows "proc_advances (port, e) (port', e')"
  by (rule trySend_fields[OF assms(1,3)])
    (use assms(2,3) in \<open>auto simp: proc_advances_def proc_inv_def accepted_packets_def split: if_splits\<close>)

lemma sendPacket_advances:
  assumes "sendPacket TimingMode peer apeer now edge1 port e = Some (Inr (port', e'))" "proc_inv port"
  shows "proc_advances (port, e) (port', e')"
  using assms trySend_advances[of peer edge1 port e port' e']
  by (auto simp: sendPacket_def proc_advances_def split: if_splits)

lemma proc_step_advances:
  assumes "proc_step peer edge1 op (port, e) = Some (Inr (port', e'))" "proc_inv port"
  shows "proc_advances (port, e) (port', e')"
proof (cases op)
  case (Exec a sz c data)
  then obtain st where s: "sendPacket TimingMode peer no_atomic 0 edge1
      (port\<lparr> transmitList := transmitList port @ [st] \<rparr>) e = Some (Inr (port', e'))"
    using assms(1) by (auto simp: execCXLProc_def split: sum.splits)
  have "proc_inv (port\<lparr> transmitList := transmitList port @ [st] \<rparr>)"
    using assms(2) by (simp add: proc_inv_def accepted_packets_def)
  from sendPacket_advances[OF s this] show ?thesis by (auto simp: proc_advances_def accepted_packets_def)
next
  case Fire
  then have s: "sendPacket TimingMode peer no_atomic 0 edge1 (port\<lparr> sendEvent := None \<rparr>) e = Some (Inr (port', e'))"
    using assms(1) by (simp add: processSend_def)
  have "proc_inv (port\<lparr> sendEvent := None \<rparr>)" using assms(2) by (simp add: proc_inv_def accepted_packets_def)
  from sendPacket_advances[OF s this] show ?thesis by (auto simp: proc_advances_def accepted_packets_def)
qed (use assms in \<open>auto simp: proc_advances_def proc_recvReqRetry_def proc_recvTimingResp_def\<close>)

lemma run_proc_advances:
  "run_proc peer ops (port, e) = Some (Inr (port', e')) \<Longrightarrow> proc_inv port \<Longrightarrow> proc_advances (port, e) (port', e')"
proof (induction ops arbitrary: port e)
  case Nil
  then show ?case by (simp add: proc_advances_def)
next
  case (Cons x ops)
  obtain edge1 op where x: "x = (edge1, op)" by fastforce
  with Cons(2) obtain port1 e1 where s: "proc_step peer edge1 op (port, e) = Some (Inr (port1, e1))"
    "run_proc peer ops (port1, e1) = Some (Inr (port', e'))"
    by (auto split: option.splits sum.splits)
  have a: "proc_advances (port, e) (port1, e1)" by (rule proc_step_advances[OF s(1) Cons(3)])
  have "proc_advances (port1, e1) (port', e')" using Cons(1)[OF s(2)] a by (simp add: proc_advances_def)
  with a show ?case by (auto simp: proc_advances_def)
qed

text \<open>C38: In timing mode the device processor stops at the first packet that is refused, and never drains.
  Its port ignores the retry and takes no response. So after any history, if a packet was refused,
  nothing that happens later (further accesses, send events, retries, responses) makes the port
  send again, and all accesses stay in its list; and once a packet was accepted, the port reports
  that it is still draining ever after (short of 2^32 packets, when its counter wraps).\<close>

theorem timing_processor_sticks:
  assumes "run_proc peer ops (new_CXLProcPort line, e0) = Some (Inr (port, e))"
    and "run_proc peer ops' (port, e) = Some (Inr (port', e'))"
  shows "(retryPending port \<longrightarrow> e' = e \<and> gh_sent port' = gh_sent port \<and> transmitList port \<noteq> [] \<and>
      (\<exists>more. transmitList port' = transmitList port @ more)) \<and>
    (0 < accepted_packets port \<and> accepted_packets port' < 2 ^ 32 \<longrightarrow> proc_drain port' = Draining)"
proof -
  have "proc_inv (new_CXLProcPort line)" by (simp add: proc_inv_def accepted_packets_def new_CXLProcPort_def)
  from run_proc_advances[OF assms(1) this] have i: "proc_inv port" by (simp add: proc_advances_def)
  note a = run_proc_advances[OF assms(2) i]
  have "pendingCount port' \<noteq> 0" if "0 < accepted_packets port" "accepted_packets port' < 2 ^ 32"
  proof -
    have "0 < accepted_packets port'" using that(1) a by (simp add: proc_advances_def)
    then show ?thesis using a that(2)
      by (auto simp: proc_advances_def proc_inv_def word_of_nat_eq_0_iff dest: nat_dvd_not_less)
  qed
  then show ?thesis using a i by (auto simp: proc_advances_def proc_inv_def proc_drain_def)
qed

text \<open>A write is refused; the retry, a second access and a send event change nothing.\<close>

definition stuck_ops :: "(u64 \<times> proc_op) list" where
  "stuck_ops = [(2000, Retry), (3000, Exec 0xA0000000 4 ReadReq True), (4000, Fire)]"

definition refused_port :: "(CXLProcPort \<times> unit) outcome option" where
  "refused_port = run_proc refusing [(1000, Exec 0xA0000000 4 WriteReq True)] (new_CXLProcPort 64, ())"

definition stuck_port :: "(CXLProcPort \<times> unit) outcome option" where
  "stuck_port = run_proc refusing stuck_ops (projr (the refused_port))"

lemma run_value: "r \<noteq> None \<Longrightarrow> \<not> isl (the r) \<Longrightarrow> r = Some (Inr (fst (projr (the r)), snd (projr (the r))))"
  by (cases r) (auto simp: sum.collapse(2))

theorem timing_processor_sticks_witness:
  "length (gh_sent (fst (projr (the stuck_port)))) = 1 \<and> length (transmitList (fst (projr (the stuck_port)))) = 2 \<and>
   gh_sent (fst (projr (the stuck_port))) = gh_sent (fst (projr (the refused_port)))"
proof -
  let ?p = "fst (projr (the refused_port))" and ?q = "fst (projr (the stuck_port))"
  have v: "refused_port \<noteq> None" "\<not> isl (the refused_port)" "stuck_port \<noteq> None" "\<not> isl (the stuck_port)"
    "retryPending ?p" "length (gh_sent ?p) = 1" "length (transmitList ?q) = 2"
    by code_simp+
  have r: "run_proc refusing [(1000, Exec 0xA0000000 4 WriteReq True)] (new_CXLProcPort 64, ())
      = Some (Inr (?p, snd (projr (the refused_port))))"
    "run_proc refusing stuck_ops (?p, snd (projr (the refused_port))) = Some (Inr (?q, snd (projr (the stuck_port))))"
    using run_value[OF v(1,2)] run_value[OF v(3,4)] unfolding refused_port_def[symmetric] prod.collapse stuck_port_def[symmetric] .
  from timing_processor_sticks[OF r] v(5-7) show ?thesis by simp
qed

end
