(* ===== verification/PacketQueue.thy ===== *)
theory PacketQueue
  imports SnoopFilter XBarLayer
begin

text \<open>
  The packet queue behind every queued port (\<^verbatim>\<open>mem/packet_queue.cc\<close>, \<^verbatim>\<open>mem/packet_queue.hh\<close>): packets wait
  in a list ordered by the tick at which they may leave, one event sends the first of them, and a
  refused packet waits for a retry at the front.

  The neighbour is a parameter. While it handles a packet it may call the queue back with new
  packets, as the comment in the code describes; so its answer has the list of those calls.
  The history variables \<open>gh_scheduled\<close> and \<open>gh_left\<close> have the entries in the order in which they were
  scheduled and sent. Labels, trace output and the matching of data in functional accesses are
  left out; the latter is a parameter.
\<close>

section \<open>State\<close>

type_synonym deferred_packet = "u64 \<times> Packet"

record PacketQueue =
  pq_list :: "deferred_packet list"
  pq_sendEvent :: "u64 option"
  pq_disableSanityCheck :: bool
  pq_forceOrder :: bool
  pq_waitingOnRetry :: bool
  pq_drainState :: DrainState
  pq_drain_signals :: nat
  gh_scheduled :: "deferred_packet list"
  gh_left :: "deferred_packet list"

type_synonym 'e queue_peer = "Packet \<Rightarrow> 'e \<Rightarrow> (bool \<times> Packet \<times> (Packet \<times> u64) list \<times> 'e) outcome"

definition new_PacketQueue :: "bool \<Rightarrow> bool \<Rightarrow> PacketQueue" where
  "new_PacketQueue force_order disable_sanity_check =
    \<lparr> pq_list = [], pq_sendEvent = None, pq_disableSanityCheck = disable_sanity_check,
      pq_forceOrder = force_order, pq_waitingOnRetry = False, pq_drainState = Running, pq_drain_signals = 0,
      gh_scheduled = [], gh_left = [] \<rparr>"

definition MaxTick :: u64 where "MaxTick = 0xFFFFFFFFFFFFFFFF"

section \<open>Comparing packets\<close>

definition matchAddr :: "Packet \<Rightarrow> Packet \<Rightarrow> bool outcome" where
  "matchAddr p pkt =
    rbind (getAddr pkt) (\<lambda>a. rbind (pkt_isSecure pkt) (\<lambda>s.
    rbind (getAddr p) (\<lambda>b. rbind (pkt_isSecure p) (\<lambda>t. Inr (b = a \<and> t = s)))))"

definition matchBlockAddr :: "u32 \<Rightarrow> Packet \<Rightarrow> Packet \<Rightarrow> bool outcome" where
  "matchBlockAddr blk_size p pkt =
    rbind (getBlockAddr blk_size pkt) (\<lambda>a. rbind (pkt_isSecure pkt) (\<lambda>s.
    rbind (getBlockAddr blk_size p) (\<lambda>b. rbind (pkt_isSecure p) (\<lambda>t. Inr (b = a \<and> t = s)))))"

fun pq_checkConflict :: "u32 \<Rightarrow> Packet \<Rightarrow> deferred_packet list \<Rightarrow> bool outcome" where
  "pq_checkConflict blk_size pkt [] = Inr False"
| "pq_checkConflict blk_size pkt ((_, p) # ps) =
     rbind (matchBlockAddr blk_size p pkt) (\<lambda>b. if b then Inr True else pq_checkConflict blk_size pkt ps)"

fun pq_trySatisfyFunctional ::
  "(Packet \<Rightarrow> Packet \<Rightarrow> bool \<times> Packet) \<Rightarrow> Packet \<Rightarrow> deferred_packet list \<Rightarrow> bool \<times> Packet" where
  "pq_trySatisfyFunctional satisfy pkt [] = (False, pkt)"
| "pq_trySatisfyFunctional satisfy pkt ((_, p) # ps) =
     (case satisfy pkt p of
        (True, pkt1) \<Rightarrow> (True, pkt1)
      | (False, pkt1) \<Rightarrow> pq_trySatisfyFunctional satisfy pkt1 ps)"

section \<open>Scheduling\<close>

definition schedSendEvent :: "u64 \<Rightarrow> u64 \<Rightarrow> PacketQueue \<Rightarrow> PacketQueue outcome" where
  "schedSendEvent now tick q =
    (if pq_waitingOnRetry q then
       rbind (assert_that (pq_sendEvent q = None) ''!sendEvent.scheduled()'') (\<lambda>_. Inr q)
     else if tick \<noteq> MaxTick then
       let t = max tick (now + 1) in
       (case pq_sendEvent q of
          None \<Rightarrow> Inr (q\<lparr> pq_sendEvent := Some t \<rparr>)
        | Some s \<Rightarrow> Inr (if t < s then q\<lparr> pq_sendEvent := Some t \<rparr> else q))
     else
       Inr (if pq_drainState q = Draining \<and> pq_list q = [] \<and> pq_sendEvent q = None
            then q\<lparr> pq_drainState := Drained, pq_drain_signals := pq_drain_signals q + 1 \<rparr> else q))"

text \<open>The search from the end: the entries from the end on that the new packet overtakes. The list is
  given in reverse; \<open>None\<close> means that the new packet goes to the front.\<close>

fun insert_from_end ::
  "bool \<Rightarrow> u64 \<Rightarrow> Packet \<Rightarrow> deferred_packet list \<Rightarrow> deferred_packet list option outcome" where
  "insert_from_end force tick pkt [] = Inr None"
| "insert_from_end force tick pkt ((t, p) # ps) =
     rbind (if force then matchAddr p pkt else Inr False) (\<lambda>same.
       if same \<or> t \<le> tick then Inr (Some ((tick, pkt) # (t, p) # ps))
       else rbind (insert_from_end force tick pkt ps) (\<lambda>r.
         Inr (case r of None \<Rightarrow> None | Some qs \<Rightarrow> Some ((t, p) # qs))))"

definition schedSendTiming :: "u64 \<Rightarrow> Packet \<Rightarrow> u64 \<Rightarrow> PacketQueue \<Rightarrow> PacketQueue outcome" where
  "schedSendTiming now pkt tick q =
    rbind (getAddr pkt) (\<lambda>_.
    rbind (assert_that (tick \<ge> now) ''when >= curTick()'') (\<lambda>_.
    rbind (assert_that (\<not> isExpressSnoop pkt) ''!pkt->isExpressSnoop()'') (\<lambda>_.
    if \<not> pq_disableSanityCheck q \<and> length (pq_list q) > 128
    then Inl (Panic ''Packet queue has grown beyond 128 packets'')
    else
      let q1 = q\<lparr> gh_scheduled := gh_scheduled q @ [(tick, pkt)] \<rparr> in
      rbind (insert_from_end (pq_forceOrder q) tick pkt (rev (pq_list q))) (\<lambda>r.
        case r of
          Some l \<Rightarrow> Inr (q1\<lparr> pq_list := rev l \<rparr>)
        | None \<Rightarrow> schedSendEvent now tick (q1\<lparr> pq_list := (tick, pkt) # pq_list q \<rparr>)))))"

fun sched_all :: "u64 \<Rightarrow> (Packet \<times> u64) list \<Rightarrow> PacketQueue \<Rightarrow> PacketQueue outcome" where
  "sched_all now [] q = Inr q"
| "sched_all now ((pkt, tick) # cs) q = rbind (schedSendTiming now pkt tick q) (sched_all now cs)"

section \<open>Sending\<close>

definition deferredPacketReady :: "u64 \<Rightarrow> PacketQueue \<Rightarrow> bool" where
  "deferredPacketReady now q = (case pq_list q of [] \<Rightarrow> False | (t, _) # _ \<Rightarrow> t \<le> now)"

definition deferredPacketReadyTime :: "PacketQueue \<Rightarrow> u64" where
  "deferredPacketReadyTime q = (case pq_list q of [] \<Rightarrow> MaxTick | (t, _) # _ \<Rightarrow> t)"

text \<open>The packet is taken off the list before it is sent, and put back if it was refused.\<close>

definition sendDeferredPacket :: "'e queue_peer \<Rightarrow> u64 \<Rightarrow> PacketQueue \<Rightarrow> 'e \<Rightarrow> (PacketQueue \<times> 'e) outcome" where
  "sendDeferredPacket peer now q e =
    rbind (assert_that (\<not> pq_waitingOnRetry q) ''!waitingOnRetry'') (\<lambda>_.
    rbind (assert_that (deferredPacketReady now q) ''deferredPacketReady()'') (\<lambda>_.
    case pq_list q of
      [] \<Rightarrow> Inl (Undefined ''transmitList.front()'')
    | (t, pkt) # rest \<Rightarrow>
        rbind (peer pkt e) (\<lambda>(success, pkt1, calls, e1).
        rbind (sched_all now calls (q\<lparr> pq_list := rest \<rparr>)) (\<lambda>q1.
        let q2 = q1\<lparr> pq_waitingOnRetry := \<not> success \<rparr> in
        if success then
          rbind (schedSendEvent now (deferredPacketReadyTime q2) (q2\<lparr> gh_left := gh_left q2 @ [(t, pkt)] \<rparr>)) (\<lambda>q3.
            Inr (q3, e1))
        else Inr (q2\<lparr> pq_list := (t, pkt1) # pq_list q2 \<rparr>, e1)))))"

definition processSendEvent :: "'e queue_peer \<Rightarrow> u64 \<Rightarrow> PacketQueue \<Rightarrow> 'e \<Rightarrow> (PacketQueue \<times> 'e) outcome" where
  "processSendEvent peer now q e =
    rbind (assert_that (\<not> pq_waitingOnRetry q) ''!waitingOnRetry'') (\<lambda>_.
      sendDeferredPacket peer now (q\<lparr> pq_sendEvent := None \<rparr>) e)"

definition pq_retry :: "'e queue_peer \<Rightarrow> u64 \<Rightarrow> PacketQueue \<Rightarrow> 'e \<Rightarrow> (PacketQueue \<times> 'e) outcome" where
  "pq_retry peer now q e =
    rbind (assert_that (pq_waitingOnRetry q) ''waitingOnRetry'') (\<lambda>_.
      sendDeferredPacket peer now (q\<lparr> pq_waitingOnRetry := False \<rparr>) e)"

text \<open>The result of \<open>drain\<close> becomes the drain state.\<close>

definition pq_drain :: "PacketQueue \<Rightarrow> PacketQueue" where
  "pq_drain q = q\<lparr> pq_drainState := (if pq_list q = [] then Drained else Draining) \<rparr>"

end
