(* ===== verification/PacketQueueProps.thy ===== *)
theory PacketQueueProps
  imports PacketQueue "HOL-Library.Multiset"
begin

text \<open>
  Properties of the packet queue: no packet is forgotten and no assertion of the queue fails, and
  packets leave in order.
\<close>

section \<open>Insertion\<close>

definition same_addr :: "Packet \<Rightarrow> Packet \<Rightarrow> bool" where
  "same_addr p q \<longleftrightarrow> p_addr p = p_addr q \<and> p_isSecure p = p_isSecure q"

lemma matchAddr_valid: "valid_addr p \<Longrightarrow> valid_addr q \<Longrightarrow> matchAddr p q = Inr (same_addr p q)"
  by (auto simp: matchAddr_def getAddr_def pkt_isSecure_def same_addr_def)

text \<open>The new packet overtakes the later packets at the end of the list, up to one with the same address
  if the order is forced.\<close>

lemma insert_from_end_spec:
  assumes "valid_addr pkt" "\<forall>d \<in> set ps. valid_addr (snd d)"
  shows "\<exists>us vs. ps = vs @ us \<and> (\<forall>d \<in> set vs. tick < fst d \<and> (force \<longrightarrow> \<not> same_addr (snd d) pkt)) \<and>
    (us \<noteq> [] \<longrightarrow> fst (hd us) \<le> tick \<or> force \<and> same_addr (snd (hd us)) pkt) \<and>
    insert_from_end force tick pkt ps = Inr (if us = [] then None else Some (vs @ (tick, pkt) # us))"
  using assms(2)
proof (induction ps)
  case Nil
  then show ?case by simp
next
  case (Cons d ps)
  obtain t p where d: "d = (t, p)" by fastforce
  with Cons(2) have m: "(if force then matchAddr p pkt else Inr False) = Inr (force \<and> same_addr p pkt)"
    using matchAddr_valid[OF _ assms(1)] by simp
  show ?case
  proof (cases "force \<and> same_addr p pkt \<or> t \<le> tick")
    case True
    with d m show ?thesis by (intro exI[of _ "d # ps"] exI[of _ "[]"]) auto
  next
    case False
    from Cons obtain us vs where u: "ps = vs @ us" "\<forall>d \<in> set vs. tick < fst d \<and> (force \<longrightarrow> \<not> same_addr (snd d) pkt)"
      "us \<noteq> [] \<longrightarrow> fst (hd us) \<le> tick \<or> force \<and> same_addr (snd (hd us)) pkt"
      "insert_from_end force tick pkt ps = Inr (if us = [] then None else Some (vs @ (tick, pkt) # us))" by auto
    with d m False show ?thesis by (intro exI[of _ us] exI[of _ "d # vs"]) auto
  qed
qed

text \<open>In list order: the new entry stands before the entries \<open>vs\<close> it overtakes.\<close>

lemma sched_listE:
  assumes "schedSendTiming now pkt tick q = Inr q'" "\<forall>d \<in> set (pq_list q). valid_addr (snd d)"
  obtains us vs where "valid_addr pkt" "now \<le> tick" "pq_list q = us @ vs" "pq_list q' = us @ (tick, pkt) # vs"
    "\<forall>d \<in> set vs. tick < fst d \<and> (pq_forceOrder q \<longrightarrow> \<not> same_addr (snd d) pkt)"
    "us \<noteq> [] \<longrightarrow> fst (last us) \<le> tick \<or> pq_forceOrder q \<and> same_addr (snd (last us)) pkt"
    "if us = [] then schedSendEvent now tick (q\<lparr> gh_scheduled := gh_scheduled q @ [(tick, pkt)], pq_list := (tick, pkt) # vs \<rparr>) = Inr q'
     else q' = q\<lparr> gh_scheduled := gh_scheduled q @ [(tick, pkt)], pq_list := us @ (tick, pkt) # vs \<rparr>"
proof -
  have v: "valid_addr pkt" "now \<le> tick" using assms(1) by (auto simp: schedSendTiming_def getAddr_def split: if_splits)
  obtain us vs where i: "rev (pq_list q) = vs @ us" "\<forall>d \<in> set vs. tick < fst d \<and> (pq_forceOrder q \<longrightarrow> \<not> same_addr (snd d) pkt)"
    "us \<noteq> [] \<longrightarrow> fst (hd us) \<le> tick \<or> pq_forceOrder q \<and> same_addr (snd (hd us)) pkt"
    "insert_from_end (pq_forceOrder q) tick pkt (rev (pq_list q)) = Inr (if us = [] then None else Some (vs @ (tick, pkt) # us))"
    using insert_from_end_spec[OF v(1), of "rev (pq_list q)" tick "pq_forceOrder q"] assms(2)
    unfolding set_rev by blast
  have l: "pq_list q = rev us @ rev vs" using i(1) by (metis rev_append rev_rev_ident)
  have e: "schedSendEvent now tick p = Inr q' \<Longrightarrow> pq_list q' = pq_list p" for p
    by (auto simp: schedSendEvent_def Let_def split: if_splits option.splits)
  have r: "if rev us = [] then schedSendEvent now tick (q\<lparr> gh_scheduled := gh_scheduled q @ [(tick, pkt)], pq_list := (tick, pkt) # rev vs \<rparr>) = Inr q'
     else q' = q\<lparr> gh_scheduled := gh_scheduled q @ [(tick, pkt)], pq_list := rev us @ (tick, pkt) # rev vs \<rparr>"
    using assms(1) i(4) l by (auto simp: schedSendTiming_def Let_def split: if_splits)
  show ?thesis
    using r v l i(2,3) e by (intro that[of "rev us" "rev vs"]) (auto simp: last_rev split: if_splits)
qed

section \<open>Order\<close>

text \<open>What identifies an entry: its tick, address and request.\<close>

definition dkey :: "deferred_packet \<Rightarrow> u64 \<times> addr \<times> bool \<times> nat" where
  "dkey d = (fst d, p_addr (snd d), p_isSecure (snd d), req_ptr (req (snd d)))"

definition key_tick :: "u64 \<times> addr \<times> bool \<times> nat \<Rightarrow> u64" where "key_tick = fst"
definition key_addr :: "u64 \<times> addr \<times> bool \<times> nat \<Rightarrow> addr \<times> bool" where "key_addr k = (fst (snd k), fst (snd (snd k)))"

text \<open>\<open>out\<close> has the entries of \<open>ins\<close>; those with one tick, and with a forced order those with one address,
  in the same order.\<close>

definition keeps_order :: "bool \<Rightarrow> deferred_packet list \<Rightarrow> deferred_packet list \<Rightarrow> bool" where
  "keeps_order force ins out \<longleftrightarrow> mset (map dkey out) = mset (map dkey ins) \<and>
     (\<forall>t. filter (\<lambda>k. key_tick k = t) (map dkey out) = filter (\<lambda>k. key_tick k = t) (map dkey ins)) \<and>
     (force \<longrightarrow> (\<forall>a. filter (\<lambda>k. key_addr k = a) (map dkey out) = filter (\<lambda>k. key_addr k = a) (map dkey ins)))"

lemma keeps_order_insert:
  assumes "keeps_order force ins (us @ vs)" "\<forall>d \<in> set vs. tick < fst d \<and> (force \<longrightarrow> \<not> same_addr (snd d) pkt)"
  shows "keeps_order force (ins @ [(tick, pkt)]) (us @ (tick, pkt) # vs)"
proof -
  have t: "filter (\<lambda>k. key_tick k = tick) (map dkey vs) = []"
    using assms(2) by (auto simp: filter_empty_conv key_tick_def dkey_def)
  have a: "force \<Longrightarrow> filter (\<lambda>k. key_addr k = key_addr (dkey (tick, pkt))) (map dkey vs) = []"
    using assms(2) by (auto simp: filter_empty_conv key_addr_def dkey_def same_addr_def)
  have f: "filter P (map dkey (us @ (tick, pkt) # vs)) = filter P (map dkey (ins @ [(tick, pkt)]))"
    if "filter P (map dkey (us @ vs)) = filter P (map dkey ins)" "P (dkey (tick, pkt)) \<Longrightarrow> filter P (map dkey vs) = []" for P
    using that by (cases "P (dkey (tick, pkt))") simp_all
  have k: "key_tick (dkey (tick, pkt)) = tick" by (simp add: key_tick_def dkey_def)
  show ?thesis unfolding keeps_order_def
  proof (intro conjI allI impI)
    show "mset (map dkey (us @ (tick, pkt) # vs)) = mset (map dkey (ins @ [(tick, pkt)]))"
      using assms(1) by (simp add: keeps_order_def)
    show "filter (\<lambda>k. key_tick k = t') (map dkey (us @ (tick, pkt) # vs)) = filter (\<lambda>k. key_tick k = t') (map dkey (ins @ [(tick, pkt)]))" for t'
      by (rule f) (use assms(1) t k in \<open>auto simp: keeps_order_def\<close>)
    show "filter (\<lambda>k. key_addr k = b) (map dkey (us @ (tick, pkt) # vs)) = filter (\<lambda>k. key_addr k = b) (map dkey (ins @ [(tick, pkt)]))"
      if force for b
      by (rule f) (use assms(1) a that in \<open>auto simp: keeps_order_def simp del: split_paired_All\<close>)
  qed
qed

section \<open>The invariant\<close>

text \<open>What holds even while the neighbour calls back: the waiting packets, the event, and the order of
  everything that was scheduled. \<open>pre\<close> is the packet in the hands of the neighbour.\<close>

definition pq_core :: "u64 \<Rightarrow> deferred_packet list \<Rightarrow> PacketQueue \<Rightarrow> bool" where
  "pq_core now pre q \<longleftrightarrow> now < MaxTick \<and> (\<forall>d \<in> set (pq_list q). valid_addr (snd d) \<and> fst d < MaxTick) \<and>
     (\<forall>t. pq_sendEvent q = Some t \<longrightarrow> now \<le> t \<and> pq_list q \<noteq> [] \<and> fst (hd (pq_list q)) \<le> t \<and>
        t \<le> max (fst (hd (pq_list q))) (now + 1)) \<and>
     (\<not> pq_forceOrder q \<longrightarrow> sorted (map fst (pq_list q))) \<and>
     keeps_order (pq_forceOrder q) (gh_scheduled q) (gh_left q @ pre @ pq_list q)"

text \<open>Between calls: a packet waits for a retry or the event is scheduled for the first one.\<close>

definition pq_inv :: "u64 \<Rightarrow> PacketQueue \<Rightarrow> bool" where
  "pq_inv now q \<longleftrightarrow> pq_core now [] q \<and>
     (if pq_waitingOnRetry q then pq_sendEvent q = None \<and> pq_list q \<noteq> [] \<and> fst (hd (pq_list q)) \<le> now
      else pq_list q \<noteq> [] \<longrightarrow> pq_sendEvent q \<noteq> None)"

lemma tick_after: "now < MaxTick \<Longrightarrow> now < now + (1 :: u64)"
proof -
  assume "now < MaxTick"
  then have "unat now + 1 < 2 ^ 64" by (simp add: MaxTick_def word_less_nat_alt)
  then have "unat (now + 1) = unat now + 1" by (intro trans[OF unat_add_lem[THEN iffD1]]) simp_all
  then show ?thesis by (simp add: word_less_nat_alt)
qed

lemma schedSendEvent_fields:
  assumes "schedSendEvent now tick q = Inr q'" "tick \<noteq> MaxTick"
  shows "q' = q\<lparr> pq_sendEvent := (if pq_waitingOnRetry q then pq_sendEvent q
      else case pq_sendEvent q of None \<Rightarrow> Some (max tick (now + 1)) | Some s \<Rightarrow> Some (min s (max tick (now + 1)))) \<rparr>"
proof -
  define t where "t = max tick (now + 1)"
  from assms show ?thesis
    unfolding schedSendEvent_def Let_def t_def[symmetric] by (auto simp: min_def split: if_splits option.splits)
qed

lemma sched_core:
  assumes s: "schedSendTiming now pkt tick q = Inr q'" "tick < MaxTick" and c: "pq_core now pre q"
    and w: "pq_waitingOnRetry q \<Longrightarrow> pq_sendEvent q = None \<and> pq_list q \<noteq> [] \<and> fst (hd (pq_list q)) \<le> now"
  shows "pq_core now pre q' \<and> pq_waitingOnRetry q' = pq_waitingOnRetry q \<and> pq_forceOrder q' = pq_forceOrder q \<and>
    (pq_waitingOnRetry q \<longrightarrow> pq_sendEvent q' = None \<and> hd (pq_list q') = hd (pq_list q)) \<and> pq_list q' \<noteq> [] \<and>
    (\<not> pq_waitingOnRetry q \<and> (pq_list q \<noteq> [] \<longrightarrow> pq_sendEvent q \<noteq> None) \<longrightarrow> pq_sendEvent q' \<noteq> None)"
proof -
  have val: "\<forall>d \<in> set (pq_list q). valid_addr (snd d)" using c by (auto simp: pq_core_def)
  obtain us vs where l: "valid_addr pkt" "now \<le> tick" "pq_list q = us @ vs" "pq_list q' = us @ (tick, pkt) # vs"
    and vs: "\<forall>d \<in> set vs. tick < fst d \<and> (pq_forceOrder q \<longrightarrow> \<not> same_addr (snd d) pkt)"
    and us: "us \<noteq> [] \<longrightarrow> fst (last us) \<le> tick \<or> pq_forceOrder q \<and> same_addr (snd (last us)) pkt"
    and r: "if us = [] then schedSendEvent now tick (q\<lparr> gh_scheduled := gh_scheduled q @ [(tick, pkt)], pq_list := (tick, pkt) # vs \<rparr>) = Inr q'
     else q' = q\<lparr> gh_scheduled := gh_scheduled q @ [(tick, pkt)], pq_list := us @ (tick, pkt) # vs \<rparr>"
    using sched_listE[OF s(1) val] by metis
  have ord: "keeps_order (pq_forceOrder q) (gh_scheduled q @ [(tick, pkt)]) (gh_left q @ pre @ us @ (tick, pkt) # vs)"
    using keeps_order_insert[of "pq_forceOrder q" "gh_scheduled q" "gh_left q @ pre @ us" vs tick pkt] vs c l(3)
    by (simp add: pq_core_def)
  have srt: "\<not> pq_forceOrder q \<longrightarrow> sorted (map fst (us @ (tick, pkt) # vs))"
  proof
    assume nf: "\<not> pq_forceOrder q"
    then have so: "sorted (map fst us @ map fst vs)" using c l(3) by (simp add: pq_core_def)
    have "\<forall>d \<in> set us. fst d \<le> tick"
    proof (cases us rule: rev_cases)
      case (snoc us' d)
      with so us nf show ?thesis by (auto simp: sorted_append intro: order_trans)
    qed simp
    with so vs show "sorted (map fst (us @ (tick, pkt) # vs))" by (auto simp: sorted_append less_imp_le)
  qed
  have lst: "\<forall>d \<in> set (us @ (tick, pkt) # vs). valid_addr (snd d) \<and> fst d < MaxTick"
    using c l(1,3) s(2) by (auto simp: pq_core_def)
  show ?thesis
  proof (cases "us = []")
    case False
    then show ?thesis using r c l(3) ord srt lst w by (auto simp: pq_core_def)
  next
    case True
    have nw: "\<not> pq_waitingOnRetry q"
    proof
      assume "pq_waitingOnRetry q"
      with w l(3) True have "vs \<noteq> []" "fst (hd vs) \<le> now" by auto
      with vs l(2) show False by (cases vs) auto
    qed
    let ?t = "max tick (now + 1)"
    have ev: "q' = q\<lparr> gh_scheduled := gh_scheduled q @ [(tick, pkt)], pq_list := (tick, pkt) # vs,
        pq_sendEvent := Some (case pq_sendEvent q of None \<Rightarrow> ?t | Some u \<Rightarrow> min u ?t) \<rparr>"
    proof -
      have "schedSendEvent now tick (q\<lparr> gh_scheduled := gh_scheduled q @ [(tick, pkt)], pq_list := (tick, pkt) # vs \<rparr>) = Inr q'"
        using r True by simp
      from schedSendEvent_fields[OF this] nw s(2) show ?thesis by (auto split: option.splits)
    qed
    have now1: "now < now + 1" using tick_after c by (simp add: pq_core_def)
    have "now \<le> u \<and> tick \<le> u \<and> u \<le> ?t" if "u = (case pq_sendEvent q of None \<Rightarrow> ?t | Some u \<Rightarrow> min u ?t)" for u
    proof (cases "pq_sendEvent q")
      case None
      then show ?thesis using that l(2) by (auto simp: max_def)
    next
      case (Some v)
      then have "now \<le> v" "vs \<noteq> []" "fst (hd vs) \<le> v" using c l(3) True by (auto simp: pq_core_def)
      moreover have "tick < fst (hd vs)" using vs \<open>vs \<noteq> []\<close> by auto
      ultimately show ?thesis using that Some l(2) by (auto simp: min_def max_def)
    qed
    then show ?thesis using ev c True ord srt lst nw l(3) by (auto simp: pq_core_def)
  qed
qed

lemma sched_all_core:
  assumes "sched_all now cs q = Inr q'" "\<forall>c \<in> set cs. snd c < MaxTick" "pq_core now pre q" "\<not> pq_waitingOnRetry q"
  shows "pq_core now pre q' \<and> \<not> pq_waitingOnRetry q' \<and> pq_forceOrder q' = pq_forceOrder q"
  using assms
proof (induction cs arbitrary: q)
  case Nil
  then show ?case by simp
next
  case (Cons c cs)
  obtain pkt tick where c: "c = (pkt, tick)" by fastforce
  with Cons(2) obtain q1 where q1: "schedSendTiming now pkt tick q = Inr q1" "sched_all now cs q1 = Inr q'" by auto
  have "tick < MaxTick" using Cons(3) c by simp
  from sched_core[OF q1(1) this Cons(4)] Cons(5)
  have "pq_core now pre q1" "\<not> pq_waitingOnRetry q1" "pq_forceOrder q1 = pq_forceOrder q" by simp_all
  with Cons(1)[OF q1(2)] Cons(3) show ?case by simp
qed

section \<open>Sending\<close>

text \<open>A neighbour that plays by the rules: a packet it refuses keeps its address and request, and it does
  not call back then; when it calls back, it gives a proper time.\<close>

definition fair_peer :: "'e queue_peer \<Rightarrow> bool" where
  "fair_peer peer \<longleftrightarrow> (\<forall>pkt e b pkt' cs e'. peer pkt e = Inr (b, pkt', cs, e') \<longrightarrow>
     (\<forall>c \<in> set cs. snd c < MaxTick) \<and>
     (\<not> b \<longrightarrow> cs = [] \<and> p_addr pkt' = p_addr pkt \<and> p_isSecure pkt' = p_isSecure pkt \<and>
        req_ptr (req pkt') = req_ptr (req pkt) \<and> valid_addr pkt' = valid_addr pkt))"

lemma ready_time: "pq_list q \<noteq> [] \<Longrightarrow> deferredPacketReadyTime q = fst (hd (pq_list q))"
  by (cases "pq_list q") (auto simp: deferredPacketReadyTime_def)

lemma drained_event:
  assumes "schedSendEvent now MaxTick q = Inr q'" "\<not> pq_waitingOnRetry q"
  shows "pq_list q' = pq_list q" "pq_sendEvent q' = pq_sendEvent q" "pq_waitingOnRetry q' = pq_waitingOnRetry q"
    "pq_forceOrder q' = pq_forceOrder q" "gh_scheduled q' = gh_scheduled q" "gh_left q' = gh_left q"
  using assms by (auto simp: schedSendEvent_def split: if_splits)

lemma resume_inv:
  assumes "schedSendEvent now (deferredPacketReadyTime q) q = Inr q'" "pq_core now [] q" "\<not> pq_waitingOnRetry q"
  shows "pq_inv now q'"
proof (cases "pq_list q = []")
  case True
  then have "deferredPacketReadyTime q = MaxTick" by (simp add: deferredPacketReadyTime_def)
  from drained_event[OF assms(1)[unfolded this] assms(3)] assms(2,3) True show ?thesis
    by (simp add: pq_inv_def pq_core_def)
next
  case False
  let ?h = "fst (hd (pq_list q))"
  let ?t = "max ?h (now + 1)"
  have "?h < MaxTick" using assms(2) False by (auto simp: pq_core_def)
  then have q': "q' = q\<lparr> pq_sendEvent := Some (case pq_sendEvent q of None \<Rightarrow> ?t | Some u \<Rightarrow> min u ?t) \<rparr>"
    using schedSendEvent_fields[OF assms(1)] ready_time[OF False] assms(3) by (auto split: option.splits)
  have n: "now < now + 1" using tick_after assms(2) by (simp add: pq_core_def)
  have "now \<le> u \<and> ?h \<le> u \<and> u \<le> ?t" if "u = (case pq_sendEvent q of None \<Rightarrow> ?t | Some u \<Rightarrow> min u ?t)" for u
    using that assms(2) n by (cases "pq_sendEvent q") (auto simp: pq_core_def min_def max_def)
  then show ?thesis using q' assms(2,3) False by (auto simp: pq_inv_def pq_core_def)
qed

lemma send_inv:
  assumes "sendDeferredPacket peer now q e = Inr (q', e')" "pq_core now [] q" "pq_sendEvent q = None" "fair_peer peer"
  shows "pq_inv now q' \<and> pq_forceOrder q' = pq_forceOrder q"
proof -
  obtain t pkt rest where l: "pq_list q = (t, pkt) # rest" "t \<le> now" "\<not> pq_waitingOnRetry q"
    using assms(1) by (cases "pq_list q") (auto simp: sendDeferredPacket_def deferredPacketReady_def split: if_splits)
  obtain success pkt1 cs q1 where p: "peer pkt e = Inr (success, pkt1, cs, e')"
    and a: "sched_all now cs (q\<lparr> pq_list := rest \<rparr>) = Inr q1"
    and r: "if success then schedSendEvent now (deferredPacketReadyTime (q1\<lparr> pq_waitingOnRetry := False \<rparr>))
        (q1\<lparr> pq_waitingOnRetry := False, gh_left := gh_left q1 @ [(t, pkt)] \<rparr>) = Inr q'
      else q' = q1\<lparr> pq_waitingOnRetry := True, pq_list := (t, pkt1) # pq_list q1 \<rparr>"
    using assms(1) l by (auto simp: sendDeferredPacket_def deferredPacketReady_def Let_def split: if_splits)
  have f: "\<forall>c \<in> set cs. snd c < MaxTick" using assms(4) p unfolding fair_peer_def by blast
  have srt: "\<not> pq_forceOrder q \<longrightarrow> sorted (map fst rest)" using assms(2) l(1) by (simp add: pq_core_def)
  have c0: "pq_core now [(t, pkt)] (q\<lparr> pq_list := rest \<rparr>)"
    using assms(2,3) l(1) srt by (simp add: pq_core_def)
  show ?thesis
  proof (cases success)
    case True
    have c1: "pq_core now [(t, pkt)] q1" "\<not> pq_waitingOnRetry q1" "pq_forceOrder q1 = pq_forceOrder q"
      using sched_all_core[OF a f c0] l(3) by simp_all
    let ?q = "q1\<lparr> gh_left := gh_left q1 @ [(t, pkt)] \<rparr>"
    have e: "q1\<lparr> pq_waitingOnRetry := False, gh_left := gh_left q1 @ [(t, pkt)] \<rparr> = ?q" using c1(2) by simp
    have "deferredPacketReadyTime (q1\<lparr> pq_waitingOnRetry := False \<rparr>) = deferredPacketReadyTime ?q"
      by (simp add: deferredPacketReadyTime_def)
    with r True e have s: "schedSendEvent now (deferredPacketReadyTime ?q) ?q = Inr q'" by simp
    have "pq_core now [] ?q" using c1(1) by (simp add: pq_core_def)
    moreover have "pq_forceOrder q' = pq_forceOrder ?q"
      using s by (auto simp: schedSendEvent_def Let_def split: if_splits option.splits)
    ultimately show ?thesis using resume_inv[OF s] c1(2,3) by simp
  next
    case False
    then have "cs = [] \<and> p_addr pkt1 = p_addr pkt \<and> p_isSecure pkt1 = p_isSecure pkt \<and>
        req_ptr (req pkt1) = req_ptr (req pkt) \<and> valid_addr pkt1 = valid_addr pkt"
      using assms(4) p unfolding fair_peer_def by blast
    then have k: "cs = []" "dkey (t, pkt1) = dkey (t, pkt)" "valid_addr pkt1 = valid_addr pkt"
      by (simp_all add: dkey_def)
    have "q1 = q\<lparr> pq_list := rest \<rparr>" using a k(1) by simp
    with r False have q': "q' = q\<lparr> pq_waitingOnRetry := True, pq_list := (t, pkt1) # rest \<rparr>" by simp
    have "keeps_order (pq_forceOrder q) (gh_scheduled q) (gh_left q @ (t, pkt1) # rest)"
      using assms(2) l(1) k(2) by (simp add: pq_core_def keeps_order_def)
    with q' assms(2,3) l k(3) show ?thesis by (auto simp: pq_inv_def pq_core_def)
  qed
qed

section \<open>Runs\<close>

text \<open>What can happen to a queue: packets are scheduled for a proper time; time passes, but not beyond the
  event; the event fires at its time; a retry comes when one is awaited; draining starts; the
  world changes.\<close>

inductive pq_step :: "'e queue_peer \<Rightarrow> u64 \<times> PacketQueue \<times> 'e \<Rightarrow> u64 \<times> PacketQueue \<times> 'e \<Rightarrow> bool"
  for peer :: "'e queue_peer" where
  sched: "schedSendTiming now pkt tick q = Inr q' \<Longrightarrow> tick < MaxTick \<Longrightarrow> pq_step peer (now, q, e) (now, q', e)"
| advance: "now \<le> now' \<Longrightarrow> now' < MaxTick \<Longrightarrow> \<forall>t. pq_sendEvent q = Some t \<longrightarrow> now' \<le> t \<Longrightarrow> pq_step peer (now, q, e) (now', q, e)"
| fire: "pq_sendEvent q = Some now \<Longrightarrow> processSendEvent peer now q e = Inr (q', e') \<Longrightarrow> pq_step peer (now, q, e) (now, q', e')"
| retry: "pq_waitingOnRetry q \<Longrightarrow> pq_retry peer now q e = Inr (q', e') \<Longrightarrow> pq_step peer (now, q, e) (now, q', e')"
| drain: "pq_step peer (now, q, e) (now, pq_drain q, e)"
| world: "pq_step peer (now, q, e) (now, q, e')"

inductive pq_reachable :: "'e queue_peer \<Rightarrow> bool \<Rightarrow> bool \<Rightarrow> u64 \<times> PacketQueue \<times> 'e \<Rightarrow> bool"
  for peer :: "'e queue_peer" and force_order disable where
  start: "pq_reachable peer force_order disable (0, new_PacketQueue force_order disable, e)"
| step: "pq_reachable peer force_order disable s \<Longrightarrow> pq_step peer s s' \<Longrightarrow> pq_reachable peer force_order disable s'"

lemma new_queue_inv: "pq_inv 0 (new_PacketQueue force_order disable)"
  by (simp add: pq_inv_def pq_core_def new_PacketQueue_def keeps_order_def MaxTick_def)

lemma advance_inv:
  assumes "pq_inv now q" "now \<le> now'" "now' < MaxTick" "\<forall>t. pq_sendEvent q = Some t \<longrightarrow> now' \<le> t"
  shows "pq_inv now' q"
proof -
  have "t \<le> max h (now' + 1)" if "t \<le> max h (now + 1)" for t h
  proof -
    have "unat now + 1 \<le> unat now' + 1" "unat now' + 1 < 2 ^ 64"
      using assms(2,3) by (simp_all add: MaxTick_def word_less_nat_alt word_le_nat_alt)
    then have "now + 1 \<le> now' + 1"
      by (simp add: word_le_nat_alt unat_word_ariths)
    then show ?thesis using that by (auto simp: max_def split: if_splits)
  qed
  with assms show ?thesis by (auto simp: pq_inv_def pq_core_def)
qed

lemma step_inv:
  assumes "pq_step peer (now, q, e) (now', q', e')" "pq_inv now q" "fair_peer peer"
  shows "pq_inv now' q' \<and> pq_forceOrder q' = pq_forceOrder q"
  using assms(1)
proof cases
  case (sched pkt tick)
  have "pq_core now [] q" using assms(2) by (simp add: pq_inv_def)
  from sched_core[OF sched(3,4) this] assms(2) sched(1,2) show ?thesis by (auto simp: pq_inv_def split: if_splits)
next
  case advance
  then show ?thesis using advance_inv[OF assms(2)] by simp
next
  case fire
  then have n: "\<not> pq_waitingOnRetry q" "sendDeferredPacket peer now (q\<lparr> pq_sendEvent := None \<rparr>) e = Inr (q', e')"
    by (auto simp: processSendEvent_def split: if_splits)
  have "pq_core now [] (q\<lparr> pq_sendEvent := None \<rparr>)" using assms(2) by (simp add: pq_inv_def pq_core_def)
  from send_inv[OF n(2) this _ assms(3)] fire(1) show ?thesis by simp
next
  case retry
  then have n: "sendDeferredPacket peer now (q\<lparr> pq_waitingOnRetry := False \<rparr>) e = Inr (q', e')" by (simp add: pq_retry_def)
  have "pq_core now [] (q\<lparr> pq_waitingOnRetry := False \<rparr>)" "pq_sendEvent q = None"
    using assms(2) retry(2) by (auto simp: pq_inv_def pq_core_def)
  with send_inv[OF n this(1) _ assms(3)] retry(1) show ?thesis by simp
next
  case drain
  then show ?thesis using assms(2) by (simp add: pq_drain_def pq_inv_def pq_core_def)
qed (use assms(2) in simp)

lemma reachable_inv:
  assumes "pq_reachable peer force_order disable s" "fair_peer peer"
  shows "pq_inv (fst s) (fst (snd s)) \<and> pq_forceOrder (fst (snd s)) = force_order"
  using assms(1)
proof induction
  case (start e)
  then show ?case using new_queue_inv by (simp add: new_PacketQueue_def)
next
  case (step s s')
  then show ?case
    using step_inv[of peer "fst s" "fst (snd s)" "snd (snd s)" "fst s'" "fst (snd s')" "snd (snd s')"] assms(2) by simp
qed

section \<open>Properties\<close>

lemma sched_total:
  assumes "pq_inv now q" "valid_addr pkt" "now \<le> tick" "\<not> isExpressSnoop pkt"
    and "pq_disableSanityCheck q \<or> length (pq_list q) \<le> 128"
  shows "\<not> isl (schedSendTiming now pkt tick q)"
proof -
  have "\<forall>d \<in> set (rev (pq_list q)). valid_addr (snd d)" using assms(1) by (auto simp: pq_inv_def pq_core_def)
  from insert_from_end_spec[OF assms(2) this, of tick "pq_forceOrder q"] obtain r where
    r: "insert_from_end (pq_forceOrder q) tick pkt (rev (pq_list q)) = Inr r" by blast
  have "pq_waitingOnRetry q \<longrightarrow> pq_sendEvent q = None" using assms(1) by (simp add: pq_inv_def)
  with r assms(2-5) show ?thesis
    by (auto simp: schedSendTiming_def schedSendEvent_def getAddr_def Let_def split: option.splits)
qed

lemma ready_head: "l \<noteq> [] \<Longrightarrow> pq_list q = l \<Longrightarrow> deferredPacketReady now q \<longleftrightarrow> fst (hd l) \<le> now"
  by (cases l) (auto simp: deferredPacketReady_def)

text \<open>C29: A packet queue forgets no packet, keeps them in order, and fails none of its assertions. Start
  from a new queue and let packets be scheduled, time pass, the event fire, retries come and
  draining begin, with a neighbour that may call back with new packets while it takes one. In every
  state: an empty queue has no event and waits for nothing; a queue with packets waits for a
  retry of a first packet that is due, with no event scheduled, or has its event scheduled when the
  first packet is due, and no later than that or the next tick; so the assertions of the event and
  of the retry hold; scheduling a packet succeeds for every proper packet; what has left and what
  waits is what was scheduled, and packets for the same tick, or with a forced order those with
  the same address, leave in the order in which they were scheduled; and without a forced order
  the packets wait in the order of their ticks.\<close>

theorem queue_forgets_no_packet:
  assumes "pq_reachable peer force_order disable (now, q, e)" "fair_peer peer"
  shows "(if pq_list q = [] then pq_sendEvent q = None \<and> \<not> pq_waitingOnRetry q
      else if pq_waitingOnRetry q then pq_sendEvent q = None \<and> deferredPacketReady now q
      else \<exists>t. pq_sendEvent q = Some t \<and> now \<le> t \<and> deferredPacketReady t q \<and> t \<le> max (deferredPacketReadyTime q) (now + 1)) \<and>
    (\<forall>pkt tick. valid_addr pkt \<and> now \<le> tick \<and> \<not> isExpressSnoop pkt \<and> (pq_disableSanityCheck q \<or> length (pq_list q) \<le> 128)
      \<longrightarrow> \<not> isl (schedSendTiming now pkt tick q)) \<and>
    keeps_order force_order (gh_scheduled q) (gh_left q @ pq_list q) \<and>
    (\<not> force_order \<longrightarrow> sorted (map fst (pq_list q)))"
proof -
  have i: "pq_inv now q" "pq_forceOrder q = force_order" using reachable_inv[OF assms] by simp_all
  have e: "pq_list q = [] \<Longrightarrow> pq_sendEvent q = None" using i(1) by (cases "pq_sendEvent q") (auto simp: pq_inv_def pq_core_def)
  have "if pq_list q = [] then pq_sendEvent q = None \<and> \<not> pq_waitingOnRetry q
      else if pq_waitingOnRetry q then pq_sendEvent q = None \<and> deferredPacketReady now q
      else \<exists>t. pq_sendEvent q = Some t \<and> now \<le> t \<and> deferredPacketReady t q \<and> t \<le> max (deferredPacketReadyTime q) (now + 1)"
    using i(1) e ready_head[of "pq_list q" q] ready_time[of q]
    by (auto simp: pq_inv_def pq_core_def split: if_splits)
  moreover have "keeps_order force_order (gh_scheduled q) (gh_left q @ pq_list q) \<and> (\<not> force_order \<longrightarrow> sorted (map fst (pq_list q)))"
    using i by (simp add: pq_inv_def pq_core_def)
  ultimately show ?thesis using sched_total[OF i(1)] by blast
qed

text \<open>Two packets are scheduled, the later one first; the event fires and the neighbour takes the first.\<close>

definition taking :: "unit queue_peer" where
  "taking pkt e = Inr (True, pkt, [], e)"

definition queue1 :: PacketQueue where
  "queue1 = projr (schedSendTiming 0 (Packet_new sample_request ReadResp) 20 (new_PacketQueue False False))"

definition queue2 :: PacketQueue where
  "queue2 = projr (schedSendTiming 0 (Packet_new sample_request WriteResp) 10 queue1)"

definition queue3 :: "(PacketQueue \<times> unit) outcome" where
  "queue3 = processSendEvent taking 10 queue2 ()"

theorem queue_forgets_no_packet_witness:
  "pq_sendEvent (fst (projr queue3)) = Some 20 \<and> map fst (gh_left (fst (projr queue3))) = [10]
    \<and> keeps_order False (gh_scheduled (fst (projr queue3))) (gh_left (fst (projr queue3)) @ pq_list (fst (projr queue3)))"
proof -
  let ?q = "fst (projr queue3)"
  let ?s1 = "schedSendTiming 0 (Packet_new sample_request ReadResp) 20 (new_PacketQueue False False)"
  let ?s2 = "schedSendTiming 0 (Packet_new sample_request WriteResp) 10 queue1"
  have v: "\<not> isl ?s1" "\<not> isl ?s2" "\<not> isl queue3" "pq_sendEvent queue2 = Some 10" "pq_sendEvent ?q = Some 20"
    "map fst (gh_left ?q) = [10]" by code_simp+
  have s: "?s1 = Inr queue1" "?s2 = Inr queue2"
    using v(1,2) by (simp_all add: queue1_def queue2_def)
  have p: "processSendEvent taking 10 queue2 () = Inr (?q, ())"
    unfolding queue3_def[symmetric] using v(3) by (metis old.unit.exhaust prod.collapse sum.collapse(2))
  have m: "(20 :: u64) < MaxTick" "(10 :: u64) < MaxTick" by (simp_all add: MaxTick_def)
  have r1: "pq_reachable taking False False (0, queue1, ())"
    by (rule pq_reachable.step[OF pq_reachable.start pq_step.sched[OF s(1) m(1)]])
  have r2: "pq_reachable taking False False (0, queue2, ())"
    by (rule pq_reachable.step[OF r1 pq_step.sched[OF s(2) m(2)]])
  have r3: "pq_reachable taking False False (10, queue2, ())"
    by (rule pq_reachable.step[OF r2 pq_step.advance]) (use v(4) m(2) in auto)
  have r4: "pq_reachable taking False False (10, ?q, ())"
    by (rule pq_reachable.step[OF r3 pq_step.fire[OF v(4) p]])
  have "fair_peer taking" by (simp add: fair_peer_def taking_def)
  from queue_forgets_no_packet[OF r4 this] v(5,6) show ?thesis by blast
qed

end
