(* ===== verification/AbstractMem.thy ===== *)
theory AbstractMem
  imports IOXBar
begin

text \<open>
  The memory behind the crossbars (\<^verbatim>\<open>mem/abstract_mem.cc\<close>, \<^verbatim>\<open>mem/abstract_mem.hh\<close>) with the payload
  of packets (\<^verbatim>\<open>mem/packet.hh\<close>): reads, writes, swaps, load-locked and store-conditional accesses,
  and functional accesses.

  A packet with its payload is the record \<open>MemPacket\<close>: the packet, its buffer, and the parts of the
  request only a memory looks at. Every packet has a buffer of its own. The backing store is a
  function from offsets to bytes; \<open>None\<close> is a memory without a store. Copying outside a buffer or
  outside the store is \<open>Undefined\<close>. The host is little-endian. The thread contexts that are told
  to give up their exclusive state are collected in \<open>clearedExclusive\<close>. Statistics, printing and
  the loading of an image file are left out.
\<close>

section \<open>Packets with their payload\<close>

record MemPacket =
  mpkt :: Packet
  mdata :: "u8 list"
  byteEnable :: "bool list"
  extraData :: "u64 option"
  contextId :: "int option"
  atomicOp :: "(u8 list \<Rightarrow> u8 list) option"
  bytesValid :: "bool list"

definition INST_FETCH :: u64 where "INST_FETCH = 0x100"
definition MEM_SWAP_COND :: u64 where "MEM_SWAP_COND = 0x800000"

definition isInstFetch :: "Request \<Rightarrow> bool" where
  "isInstFetch r = flag_isSet (r_flags r) INST_FETCH"

definition isCondSwap :: "Request \<Rightarrow> bool" where
  "isCondSwap r = flag_isSet (r_flags r) MEM_SWAP_COND"

definition isAtomic :: "Request \<Rightarrow> bool" where
  "isAtomic r = (flag_isSet (r_flags r) ATOMIC_RETURN_OP \<or> flag_isSet (r_flags r) ATOMIC_NO_RETURN_OP)"

definition getPaddr :: "Request \<Rightarrow> addr outcome" where
  "getPaddr r = (case r_paddr r of None \<Rightarrow> Inl (AssertFail ''hasPaddr()'') | Some a \<Rightarrow> Inr a)"

definition getExtraData :: "MemPacket \<Rightarrow> u64 outcome" where
  "getExtraData mp = (case extraData mp of None \<Rightarrow> Inl (AssertFail ''extraDataValid()'') | Some d \<Rightarrow> Inr d)"

definition getContextId :: "MemPacket \<Rightarrow> int outcome" where
  "getContextId mp = (case contextId mp of None \<Rightarrow> Inl (AssertFail ''hasContextId()'') | Some c \<Rightarrow> Inr c)"

definition isMaskedWrite :: "MemPacket \<Rightarrow> bool" where
  "isMaskedWrite mp = (cmd (mpkt mp) = WriteReq \<and> False \<in> set (byteEnable mp))"

definition has_buffer :: "MemPacket \<Rightarrow> unit outcome" where
  "has_buffer mp = assert_that (flag_isSet (p_flags (mpkt mp)) (STATIC_DATA OR DYNAMIC_DATA)) ''flags.isSet(STATIC_DATA|DYNAMIC_DATA)''"

definition getPtr :: "MemPacket \<Rightarrow> u8 list outcome" where
  "getPtr mp =
    rbind (has_buffer mp) (\<lambda>_. rbind (assert_that (\<not> isMaskedWrite mp) ''!isMaskedWrite()'') (\<lambda>_. Inr (mdata mp)))"

definition getConstPtr :: "MemPacket \<Rightarrow> u8 list outcome" where
  "getConstPtr mp = rbind (has_buffer mp) (\<lambda>_. Inr (mdata mp))"

section \<open>The backing store\<close>

definition load_bytes :: "(u64 \<Rightarrow> u8) \<Rightarrow> u64 \<Rightarrow> nat \<Rightarrow> u8 list" where
  "load_bytes h off n = map (\<lambda>i. h (off + of_nat i)) [0..<n]"

definition store_bytes :: "u64 \<Rightarrow> u8 list \<Rightarrow> (u64 \<Rightarrow> u8) \<Rightarrow> u64 \<Rightarrow> u8" where
  "store_bytes off d h = (\<lambda>x. if unat (x - off) < length d then d ! unat (x - off) else h x)"

definition store_masked :: "u64 \<Rightarrow> bool list \<Rightarrow> u8 list \<Rightarrow> (u64 \<Rightarrow> u8) \<Rightarrow> u64 \<Rightarrow> u8" where
  "store_masked off be d h =
    (\<lambda>x. if unat (x - off) < length d \<and> be ! unat (x - off) then d ! unat (x - off) else h x)"

text \<open>The buffer of a packet is at least as long as the packet says.\<close>

definition bounded_copy :: "nat \<Rightarrow> u8 list \<Rightarrow> u8 list outcome" where
  "bounded_copy n buf = (if n \<le> length buf then Inr (take n buf) else Inl (Undefined ''memcpy''))"

definition setData :: "u8 list \<Rightarrow> MemPacket \<Rightarrow> MemPacket outcome" where
  "setData bytes mp =
    rbind (getPtr mp) (\<lambda>buf. rbind (getSize (mpkt mp)) (\<lambda>s. rbind (bounded_copy (unat s) buf) (\<lambda>_.
      Inr (mp\<lparr> mdata := take (unat s) bytes @ drop (unat s) buf \<rparr>))))"

definition writeData :: "u64 \<Rightarrow> MemPacket \<Rightarrow> (u64 \<Rightarrow> u8) \<Rightarrow> (u64 \<Rightarrow> u8) outcome" where
  "writeData off mp h =
    (if \<not> isMaskedWrite mp then
       rbind (getConstPtr mp) (\<lambda>buf. rbind (getSize (mpkt mp)) (\<lambda>s. rbind (bounded_copy (unat s) buf) (\<lambda>d.
         Inr (store_bytes off d h))))
     else
       rbind (getSize (mpkt mp)) (\<lambda>s.
       rbind (assert_that (length (byteEnable mp) = unat s) ''req->getByteEnable().size() == getSize()'') (\<lambda>_.
       rbind (getConstPtr mp) (\<lambda>buf. rbind (bounded_copy (unat s) buf) (\<lambda>d.
         Inr (store_masked off (byteEnable mp) d h))))))"

definition le_bytes :: "nat \<Rightarrow> u64 \<Rightarrow> u8 list" where
  "le_bytes n w = map (\<lambda>i. ucast (drop_bit (8 * i) w)) [0..<n]"

section \<open>The memory\<close>

type_synonym LockedAddr = "addr \<times> int"

record AbstractMemory =
  mrange :: AddrRange
  pmem :: "(u64 \<Rightarrow> u8) option"
  writeable :: bool
  lockedAddrList :: "LockedAddr list"
  backdoor_ptr :: bool
  backdoor_invalidations :: nat
  clearedExclusive :: "int list"

definition new_AbstractMemory :: "AddrRange \<Rightarrow> bool \<Rightarrow> AbstractMemory outcome" where
  "new_AbstractMemory r w =
    (if \<not> range_valid r \<or> range_size r = 0 then Inl (Panic ''Memory range must be valid with non-zero size.'')
     else Inr \<lparr> mrange = r, pmem = None, writeable = w, lockedAddrList = [], backdoor_ptr = False,
                backdoor_invalidations = 0, clearedExclusive = [] \<rparr>)"

definition setBackingStore :: "(u64 \<Rightarrow> u8) option \<Rightarrow> AbstractMemory \<Rightarrow> AbstractMemory" where
  "setBackingStore h m =
    m\<lparr> backdoor_invalidations := (if backdoor_ptr m then backdoor_invalidations m + 1 else backdoor_invalidations m),
       backdoor_ptr := (h \<noteq> None \<and> \<not> interleaved (mrange m)), pmem := h \<rparr>"

definition getBackdoor :: "AbstractMemory \<Rightarrow> bool" where
  "getBackdoor m = (lockedAddrList m = [] \<and> backdoor_ptr m)"

text \<open>A lock record restored from a checkpoint.\<close>

definition addLockedAddr :: "LockedAddr \<Rightarrow> AbstractMemory \<Rightarrow> AbstractMemory" where
  "addLockedAddr l m =
    m\<lparr> backdoor_invalidations := backdoor_invalidations m + 1, lockedAddrList := lockedAddrList m @ [l] \<rparr>"

definition toHostAddr :: "AbstractMemory \<Rightarrow> addr \<Rightarrow> u64" where
  "toHostAddr m a = a - rstart (mrange m)"

text \<open>The copy stays inside the store.\<close>

definition in_store :: "AbstractMemory \<Rightarrow> u64 \<Rightarrow> nat \<Rightarrow> unit outcome" where
  "in_store m off n =
    (if unat off + n \<le> unat (rend (mrange m) - rstart (mrange m)) then Inr () else Inl (Undefined ''memcpy''))"

section \<open>Locked addresses\<close>

definition lock_mask :: "addr \<Rightarrow> addr" where "lock_mask a = a AND NOT 0xf"

definition InvalidContextID :: int where "InvalidContextID = -1"

definition matchesContext :: "MemPacket \<Rightarrow> LockedAddr \<Rightarrow> bool outcome" where
  "matchesContext mp l =
    rbind (assert_that (snd l \<noteq> InvalidContextID) ''contextId != InvalidContextID'') (\<lambda>_.
    rbind (getContextId mp) (\<lambda>c. Inr (snd l = c)))"

fun update_lock :: "MemPacket \<Rightarrow> addr \<Rightarrow> LockedAddr list \<Rightarrow> LockedAddr list option outcome" where
  "update_lock mp paddr [] = Inr None"
| "update_lock mp paddr (l # ls) =
     rbind (matchesContext mp l) (\<lambda>b.
       if b then Inr (Some ((paddr, snd l) # ls))
       else rbind (update_lock mp paddr ls) (\<lambda>r. Inr (map_option (\<lambda>ls'. l # ls') r)))"

definition trackLoadLocked :: "MemPacket \<Rightarrow> AbstractMemory \<Rightarrow> AbstractMemory outcome" where
  "trackLoadLocked mp m =
    rbind (getPaddr (req (mpkt mp))) (\<lambda>a.
    rbind (update_lock mp (lock_mask a) (lockedAddrList m)) (\<lambda>r.
      case r of
        Some ls \<Rightarrow> Inr (m\<lparr> lockedAddrList := ls \<rparr>)
      | None \<Rightarrow>
          rbind (getContextId mp) (\<lambda>c.
            Inr (m\<lparr> lockedAddrList := (lock_mask a, c) # lockedAddrList m,
                   backdoor_invalidations := backdoor_invalidations m + 1 \<rparr>))))"

fun holds_lock :: "MemPacket \<Rightarrow> addr \<Rightarrow> LockedAddr list \<Rightarrow> bool outcome" where
  "holds_lock mp paddr [] = Inr False"
| "holds_lock mp paddr (l # ls) =
     (if fst l = paddr then
        rbind (matchesContext mp l) (\<lambda>b. if b then Inr True else holds_lock mp paddr ls)
      else holds_lock mp paddr ls)"

text \<open>All records of the address go; the contexts other than the requestor are told.\<close>

fun erase_locks :: "int option \<Rightarrow> addr \<Rightarrow> LockedAddr list \<Rightarrow> (LockedAddr list \<times> int list) outcome" where
  "erase_locks c paddr [] = Inr ([], [])"
| "erase_locks c paddr (l # ls) =
     (if fst l = paddr then
        rbind (assert_that (snd l \<noteq> InvalidContextID) ''owner_cid != InvalidContextID'') (\<lambda>_.
        rbind (erase_locks c paddr ls) (\<lambda>(rest, told).
          Inr (rest, if snd l \<noteq> (case c of Some i \<Rightarrow> i | None \<Rightarrow> InvalidContextID) then snd l # told else told)))
      else rbind (erase_locks c paddr ls) (\<lambda>(rest, told). Inr (l # rest, told)))"

definition checkLockedAddrList :: "MemPacket \<Rightarrow> AbstractMemory \<Rightarrow> (bool \<times> MemPacket \<times> AbstractMemory) outcome" where
  "checkLockedAddrList mp m =
    rbind (getPaddr (req (mpkt mp))) (\<lambda>a.
    let paddr = lock_mask a; llsc = isLLSC (cmd (mpkt mp)) in
    rbind (if llsc then holds_lock mp paddr (lockedAddrList m) else Inr True) (\<lambda>allowStore.
    let mp1 = (if llsc then mp\<lparr> extraData := Some (if allowStore then 1 else 0) \<rparr> else mp) in
    if allowStore then
      rbind (erase_locks (contextId mp) paddr (lockedAddrList m)) (\<lambda>(rest, told).
        Inr (True, mp1, m\<lparr> lockedAddrList := rest, clearedExclusive := clearedExclusive m @ told \<rparr>))
    else Inr (False, mp1, m)))"

definition writeOK :: "MemPacket \<Rightarrow> AbstractMemory \<Rightarrow> (bool \<times> MemPacket \<times> AbstractMemory) outcome" where
  "writeOK mp m =
    (if \<not> writeable m then Inr (False, mp, m)
     else if lockedAddrList m = [] then
       let llsc = isLLSC (cmd (mpkt mp)) in
       Inr (\<not> llsc, if llsc then mp\<lparr> extraData := Some 0 \<rparr> else mp, m)
     else checkLockedAddrList mp m)"

section \<open>Accesses\<close>

definition mem_setData :: "u64 \<Rightarrow> MemPacket \<Rightarrow> (u64 \<Rightarrow> u8) \<Rightarrow> AbstractMemory \<Rightarrow> MemPacket outcome" where
  "mem_setData off mp h m =
    rbind (getSize (mpkt mp)) (\<lambda>s. rbind (in_store m off (unat s)) (\<lambda>_. setData (load_bytes h off (unat s)) mp))"

definition mem_writeData :: "u64 \<Rightarrow> MemPacket \<Rightarrow> (u64 \<Rightarrow> u8) \<Rightarrow> AbstractMemory \<Rightarrow> AbstractMemory outcome" where
  "mem_writeData off mp h m =
    rbind (getSize (mpkt mp)) (\<lambda>s. rbind (in_store m off (unat s)) (\<lambda>_.
    rbind (writeData off mp h) (\<lambda>h1. Inr (m\<lparr> pmem := Some h1 \<rparr>))))"

definition atomic_swap :: "u64 \<Rightarrow> MemPacket \<Rightarrow> AbstractMemory \<Rightarrow> (MemPacket \<times> AbstractMemory) outcome" where
  "atomic_swap off mp m =
    (case pmem m of
       None \<Rightarrow> Inr (mp, m)
     | Some h \<Rightarrow>
         rbind (mem_setData off mp h m) (\<lambda>mp1.
         rbind (getSize (mpkt mp)) (\<lambda>s.
           case atomicOp mp of
             None \<Rightarrow> Inl (AssertFail ''atomicOpFunctor != NULL'')
           | Some f \<Rightarrow> Inr (mp1, m\<lparr> pmem := Some (store_bytes off (take (unat s) (f (load_bytes h off (unat s)))) h) \<rparr>))))"

text \<open>Whether the swap takes place: always, or when the store has the expected value.\<close>

definition swap_allowed :: "u64 \<Rightarrow> MemPacket \<Rightarrow> u32 \<Rightarrow> (u64 \<Rightarrow> u8) \<Rightarrow> bool outcome" where
  "swap_allowed off mp s h =
    (if \<not> isCondSwap (req (mpkt mp)) then Inr True
     else if s = 8 \<or> s = 4 then
       rbind (getExtraData mp) (\<lambda>c. Inr (le_bytes (unat s) c = load_bytes h off (unat s)))
     else Inl (Panic ''Invalid size for conditional read/write''))"

definition plain_swap :: "u64 \<Rightarrow> MemPacket \<Rightarrow> AbstractMemory \<Rightarrow> (MemPacket \<times> AbstractMemory) outcome" where
  "plain_swap off mp m =
    (case pmem m of
       None \<Rightarrow> Inl (Panic ''Swap only works if there is real memory (i.e. null=False)'')
     | Some h \<Rightarrow>
         rbind (getConstPtr mp) (\<lambda>buf.
         rbind (getSize (mpkt mp)) (\<lambda>s.
         rbind (bounded_copy (unat s) buf) (\<lambda>overwrite_val.
         rbind (mem_setData off mp h m) (\<lambda>mp1.
         rbind (swap_allowed off mp1 s h) (\<lambda>overwrite_mem.
         rbind (assert_that (\<not> isInstFetch (req (mpkt mp))) ''!pkt->req->isInstFetch()'') (\<lambda>_.
           Inr (mp1, if overwrite_mem then m\<lparr> pmem := Some (store_bytes off overwrite_val h) \<rparr> else m))))))))"

definition mem_read :: "u64 \<Rightarrow> MemPacket \<Rightarrow> AbstractMemory \<Rightarrow> (MemPacket \<times> AbstractMemory) outcome" where
  "mem_read off mp m =
    rbind (assert_that (\<not> isWrite (cmd (mpkt mp))) ''!pkt->isWrite()'') (\<lambda>_.
    rbind (if isLLSC (cmd (mpkt mp)) then
             rbind (assert_that (\<not> fromCache (cmd (mpkt mp))) ''!pkt->fromCache()'') (\<lambda>_. trackLoadLocked mp m)
           else Inr m) (\<lambda>m1.
      case pmem m1 of
        None \<Rightarrow> Inr (mp, m1)
      | Some h \<Rightarrow> rbind (mem_setData off mp h m1) (\<lambda>mp1. Inr (mp1, m1))))"

definition mem_write :: "u64 \<Rightarrow> MemPacket \<Rightarrow> AbstractMemory \<Rightarrow> (MemPacket \<times> AbstractMemory) outcome" where
  "mem_write off mp m =
    rbind (writeOK mp m) (\<lambda>(allowed, mp1, m1).
      if allowed then
        rbind (case pmem m1 of None \<Rightarrow> Inr m1 | Some h \<Rightarrow> mem_writeData off mp1 h m1) (\<lambda>m2.
        rbind (assert_that (\<not> isInstFetch (req (mpkt mp1))) ''!pkt->req->isInstFetch()'') (\<lambda>_. Inr (mp1, m2)))
      else Inr (mp1, m1))"

definition respond :: "MemPacket \<Rightarrow> MemPacket outcome" where
  "respond mp = rbind (makeResponse (mpkt mp)) (\<lambda>p. Inr (mp\<lparr> mpkt := p \<rparr>))"

text \<open>The place of the access in the store, which lies in the range of the memory.\<close>

definition host_addr :: "MemPacket \<Rightarrow> AbstractMemory \<Rightarrow> u64 outcome" where
  "host_addr mp m =
    rbind (getAddrRange (mpkt mp)) (\<lambda>r. rbind (isSubset r (mrange m)) (\<lambda>sub.
    rbind (assert_that sub ''pkt->getAddrRange().isSubset(range)'') (\<lambda>_.
    rbind (getAddr (mpkt mp)) (\<lambda>a. Inr (toHostAddr m a)))))"

text \<open>The access proper, by the kind of the command.\<close>

definition mem_perform :: "u64 \<Rightarrow> MemPacket \<Rightarrow> AbstractMemory \<Rightarrow> (MemPacket \<times> AbstractMemory) outcome" where
  "mem_perform off mp m =
    (let c = cmd (mpkt mp) in
     if c = SwapReq then
       (if isAtomic (req (mpkt mp)) then atomic_swap off mp m else plain_swap off mp m)
     else if isRead c then mem_read off mp m
     else if isInvalidate c \<or> isClean c then
       rbind (assert_that (\<not> isWrite c) ''!pkt->isWrite()'') (\<lambda>_. Inr (mp, m))
     else if isWrite c then mem_write off mp m
     else Inl (Panic ''Unexpected packet''))"

definition mem_access :: "MemPacket \<Rightarrow> AbstractMemory \<Rightarrow> (MemPacket \<times> AbstractMemory) outcome" where
  "mem_access mp m =
    (if cacheResponding (mpkt mp) then Inr (mp, m)
     else if cmd (mpkt mp) = Command.CleanEvict \<or> cmd (mpkt mp) = WritebackClean then Inr (mp, m)
     else
       rbind (host_addr mp m) (\<lambda>off.
       rbind (mem_perform off mp m) (\<lambda>(mp1, m1).
         if needsResponse (cmd (mpkt mp1)) then rbind (respond mp1) (\<lambda>mp2. Inr (mp2, m1))
         else Inr (mp1, m1))))"

definition functionalAccess :: "MemPacket \<Rightarrow> AbstractMemory \<Rightarrow> (MemPacket \<times> AbstractMemory) outcome" where
  "functionalAccess mp m =
    rbind (host_addr mp m) (\<lambda>off.
      if isRead (cmd (mpkt mp)) then
        rbind (case pmem m of None \<Rightarrow> Inr mp | Some h \<Rightarrow> mem_setData off mp h m) (\<lambda>mp1.
        rbind (respond mp1) (\<lambda>mp2. Inr (mp2, m)))
      else if isWrite (cmd (mpkt mp)) then
        rbind (case pmem m of None \<Rightarrow> Inr m | Some h \<Rightarrow> mem_writeData off mp h m) (\<lambda>m1.
        rbind (respond mp) (\<lambda>mp1. Inr (mp1, m1)))
      else if isPrint (cmd (mpkt mp)) then Inr (mp, m)
      else Inl (Panic ''AbstractMemory: unimplemented functional command''))"

end
