(* ===== verification/SimpleMem.thy ===== *)
theory SimpleMem
  imports AbstractMem PacketQueue
begin

text \<open>
  The simple memory controller (\<^verbatim>\<open>mem/simple_mem.cc\<close>, \<^verbatim>\<open>mem/simple_mem.hh\<close>): one request at a time is
  accepted, as the bandwidth allows, and performed at once; its response waits in a queue for the
  latency of the memory.

  The port that sends requests and takes responses is a parameter; while it handles a call of the
  memory it may send further requests, which are part of its answer. The time a packet keeps the
  memory busy (a product with a floating point bandwidth) and the random part of the latency are
  parameters too. A scheduled event is the tick it is scheduled for. The queue is a list; moving
  an iterator back from the end of an empty list leaves it there, as the list of the C++ library
  in use does (the C++ standard leaves it undefined). The fields \<open>gh_accepted\<close> and \<open>gh_answered\<close> are
  history variables. The backdoor interface is left out.
\<close>

section \<open>Packets in transit and functional accesses\<close>

definition copy_into :: "u8 list \<Rightarrow> nat \<Rightarrow> u8 list \<Rightarrow> nat \<Rightarrow> nat \<Rightarrow> u8 list outcome" where
  "copy_into dst d src s n =
    (if s + n \<le> length src \<and> d + n \<le> length dst then Inr (take d dst @ take n (drop s src) @ drop (d + n) dst)
     else Inl (Undefined ''memcpy''))"

text \<open>A functional read takes the bytes of the overlap and remembers which bytes are valid; it is satisfied
  when all are.\<close>

definition satisfy_read :: "nat \<Rightarrow> nat \<Rightarrow> nat \<Rightarrow> u8 list \<Rightarrow> MemPacket \<Rightarrow> (bool \<times> MemPacket) outcome" where
  "satisfy_read func_offset val_offset overlap_size data mp =
    rbind (getPtr mp) (\<lambda>buf.
    rbind (copy_into buf func_offset data val_offset overlap_size) (\<lambda>buf1.
    rbind (getSize (mpkt mp)) (\<lambda>s.
    let valid = (if bytesValid mp = [] then replicate (unat s) False else bytesValid mp) in
    if length valid \<noteq> unat s then Inl (Undefined ''bytesValid'')
    else
      let valid1 = map (\<lambda>i. func_offset \<le> i \<and> i < func_offset + overlap_size \<or> valid ! i) [0..<unat s] in
      Inr (list_all id valid1, mp\<lparr> mdata := buf1, bytesValid := valid1 \<rparr>))))"

text \<open>A functional access \<open>mp\<close> meets the packet \<open>other\<close>, whose size is passed as an \<open>int\<close>; the result is
  whether the access is satisfied.\<close>

definition satisfy_from :: "MemPacket \<Rightarrow> MemPacket \<Rightarrow> (bool \<times> MemPacket \<times> MemPacket) outcome" where
  "satisfy_from mp other =
    rbind (getAddr (mpkt other)) (\<lambda>val_start.
    rbind (pkt_isSecure (mpkt other)) (\<lambda>secure.
    rbind (getSize (mpkt other)) (\<lambda>val_size.
    rbind (if hasData (cmd (mpkt other)) then rbind (getPtr other) (\<lambda>d. Inr (Some d)) else Inr None) (\<lambda>data.
    rbind (getAddr (mpkt mp)) (\<lambda>func_start.
    rbind (getSize (mpkt mp)) (\<lambda>func_size.
    let func_end = func_start + ucast func_size - 1; val_end = val_start + scast val_size - 1;
        val_offset = unat (if func_start > val_start then func_start - val_start else 0);
        func_offset = unat (if func_start < val_start then val_start - func_start else 0);
        overlap_size = unat (min val_end func_end + 1 - max val_start func_start) in
    if secure \<noteq> p_isSecure (mpkt mp) \<or> func_start > val_end \<or> val_start > func_end then Inr (False, mp, other)
    else if isPrint (cmd (mpkt mp)) then
      rbind (assert_that (data = None) ''!_data'') (\<lambda>_. Inr (False, mp, other))
    else
      case data of
        None \<Rightarrow> Inr (False, mp, other)
      | Some d \<Rightarrow>
          if isRead (cmd (mpkt mp)) then
            rbind (satisfy_read func_offset val_offset overlap_size d mp) (\<lambda>(b, mp1). Inr (b, mp1, other))
          else if isWrite (cmd (mpkt mp)) then
            rbind (getConstPtr mp) (\<lambda>buf. rbind (copy_into d val_offset buf func_offset overlap_size) (\<lambda>d1.
              Inr (False, mp, other\<lparr> mdata := d1 \<rparr>)))
          else Inl (Panic ''Don't know how to handle command'')))))))"

definition mp_trySatisfyFunctional :: "MemPacket \<Rightarrow> MemPacket \<Rightarrow> (bool \<times> MemPacket \<times> MemPacket) outcome" where
  "mp_trySatisfyFunctional mp other =
    (if isMaskedWrite other then
       rbind (pkt_isSecure (mpkt other)) (\<lambda>secure.
       rbind (if p_isSecure (mpkt mp) = secure then
                rbind (getAddr (mpkt mp)) (\<lambda>a. rbind (getAddr (mpkt other)) (\<lambda>b. rbind (getSize (mpkt other)) (\<lambda>n.
                  if a \<le> b + ucast n - 1 then rbind (getSize (mpkt mp)) (\<lambda>_. Inr ()) else Inr ())))
              else Inr ()) (\<lambda>_. Inr (False, mp, other)))
     else satisfy_from mp other)"

section \<open>State\<close>

record SimpleMemory =
  sm_mem :: AbstractMemory
  sm_latency :: u64
  sm_latency_var :: u64
  sm_queue :: "(u64 \<times> MemPacket) list"
  isBusy :: bool
  retryReq :: bool
  retryResp :: bool
  releaseEvent :: "u64 option"
  dequeueEvent :: "u64 option"
  sm_drainState :: DrainState
  sm_drain_signals :: nat
  gh_accepted :: "MemPacket list"
  gh_answered :: "MemPacket list"

text \<open>The requests a neighbour sends while it is called, each with the random part of its latency.\<close>

type_synonym mem_calls = "(MemPacket \<times> u64) list"

text \<open>The neighbour when it is offered a response, and when it is told to send a request again.\<close>

type_synonym 'e response_peer = "MemPacket \<Rightarrow> 'e \<Rightarrow> (bool \<times> mem_calls \<times> 'e) outcome"
type_synonym 'e retry_peer = "'e \<Rightarrow> (mem_calls \<times> 'e) outcome"

definition new_SimpleMemory :: "AbstractMemory \<Rightarrow> u64 \<Rightarrow> u64 \<Rightarrow> SimpleMemory" where
  "new_SimpleMemory m lat var =
    \<lparr> sm_mem = m, sm_latency = lat, sm_latency_var = var, sm_queue = [], isBusy = False, retryReq = False,
      retryResp = False, releaseEvent = None, dequeueEvent = None, sm_drainState = Running, sm_drain_signals = 0,
      gh_accepted = [], gh_answered = [] \<rparr>"

definition getLatency :: "u64 \<Rightarrow> SimpleMemory \<Rightarrow> u64" where
  "getLatency rnd s = sm_latency s + (if sm_latency_var s \<noteq> 0 then rnd else 0)"

section \<open>Atomic and functional accesses\<close>

definition sm_recvAtomic :: "u64 \<Rightarrow> MemPacket \<Rightarrow> SimpleMemory \<Rightarrow> (u64 \<times> MemPacket \<times> SimpleMemory) outcome" where
  "sm_recvAtomic rnd mp s =
    (if cacheResponding (mpkt mp) then Inl (Panic ''Should not see packets where cache is responding'')
     else rbind (mem_access mp (sm_mem s)) (\<lambda>(mp1, m1). Inr (getLatency rnd s, mp1, s\<lparr> sm_mem := m1 \<rparr>)))"

fun satisfy_queue :: "MemPacket \<Rightarrow> (u64 \<times> MemPacket) list \<Rightarrow> (MemPacket \<times> (u64 \<times> MemPacket) list) outcome" where
  "satisfy_queue mp [] = Inr (mp, [])"
| "satisfy_queue mp ((t, p) # ps) =
     rbind (mp_trySatisfyFunctional mp p) (\<lambda>(finished, mp1, p1).
       if finished then Inr (mp1, (t, p1) # ps)
       else rbind (satisfy_queue mp1 ps) (\<lambda>(mp2, ps1). Inr (mp2, (t, p1) # ps1)))"

definition sm_recvFunctional :: "MemPacket \<Rightarrow> SimpleMemory \<Rightarrow> (MemPacket \<times> SimpleMemory) outcome" where
  "sm_recvFunctional mp s =
    rbind (functionalAccess mp (sm_mem s)) (\<lambda>(mp1, m1).
    rbind (satisfy_queue mp1 (sm_queue s)) (\<lambda>(mp2, q).
      Inr (mp2, s\<lparr> sm_mem := m1, sm_queue := q \<rparr>)))"

section \<open>Timing requests\<close>

text \<open>The search for the place of a response, from the end of the queue; the list is given in reverse. The
  new response never goes in front of the first one.\<close>

fun sm_insert :: "u64 \<Rightarrow> MemPacket \<Rightarrow> (u64 \<times> MemPacket) list \<Rightarrow> (u64 \<times> MemPacket) list outcome" where
  "sm_insert t mp [] = Inr [(t, mp)]"
| "sm_insert t mp [x] = Inr [(t, mp), x]"
| "sm_insert t mp (x # y # zs) =
     (if t < fst x then
        rbind (matchAddr (mpkt (snd x)) (mpkt mp)) (\<lambda>same.
          if same then Inr ((t, mp) # x # y # zs)
          else rbind (sm_insert t mp (y # zs)) (\<lambda>r. Inr (x # r)))
      else Inr ((t, mp) # x # y # zs))"

definition sm_schedule :: "u64 \<Rightarrow> u64 \<Rightarrow> u64 option \<Rightarrow> u64 option outcome" where
  "sm_schedule now t ev =
    rbind (assert_that (t \<ge> now) ''when >= getCurTick()'') (\<lambda>_.
    rbind (assert_that (ev = None) ''!event->scheduled()'') (\<lambda>_. Inr (Some t)))"

text \<open>The response of an accepted request is queued.\<close>

definition sm_enqueue :: "u64 \<Rightarrow> u64 \<Rightarrow> MemPacket \<Rightarrow> SimpleMemory \<Rightarrow> SimpleMemory outcome" where
  "sm_enqueue now t mp s =
    rbind (assert_that (isResponse (cmd (mpkt mp))) ''pkt->isResponse()'') (\<lambda>_.
    rbind (sm_insert t mp (rev (sm_queue s))) (\<lambda>r.
    rbind (if \<not> retryResp s \<and> dequeueEvent s = None then sm_schedule now (fst (hd r)) (dequeueEvent s)
           else Inr (dequeueEvent s)) (\<lambda>ev.
      Inr (s\<lparr> sm_queue := rev r, dequeueEvent := ev \<rparr>))))"

definition sm_accept :: "(u32 \<Rightarrow> u64) \<Rightarrow> u64 \<Rightarrow> u64 \<Rightarrow> MemPacket \<Rightarrow> SimpleMemory \<Rightarrow> SimpleMemory outcome" where
  "sm_accept bw now rnd mp s =
    rbind (getSize (mpkt mp)) (\<lambda>sz.
    let receive_delay = ucast (headerDelay (mpkt mp) + payloadDelay (mpkt mp));
        mp0 = mp\<lparr> mpkt := (mpkt mp)\<lparr> headerDelay := 0, payloadDelay := 0 \<rparr> \<rparr> in
    rbind (if bw sz \<noteq> 0 then
             rbind (sm_schedule now (now + bw sz) (releaseEvent s)) (\<lambda>ev.
               Inr (s\<lparr> releaseEvent := ev, isBusy := True \<rparr>))
           else Inr s) (\<lambda>s1.
    rbind (sm_recvAtomic rnd mp0 s1) (\<lambda>(_, mp1, s2).
    let s3 = s2\<lparr> gh_accepted := gh_accepted s2 @ [mp0] \<rparr> in
    if needsResponse (cmd (mpkt mp0)) then sm_enqueue now (now + receive_delay + getLatency rnd s3) mp1 s3
    else Inr s3)))"

definition sm_recvTimingReq ::
  "(u32 \<Rightarrow> u64) \<Rightarrow> u64 \<Rightarrow> u64 \<Rightarrow> MemPacket \<Rightarrow> SimpleMemory \<Rightarrow> (bool \<times> SimpleMemory) outcome" where
  "sm_recvTimingReq bw now rnd mp s =
    (if cacheResponding (mpkt mp) then Inl (Panic ''Should not see packets where cache is responding'')
     else if \<not> (isRead (cmd (mpkt mp)) \<or> isWrite (cmd (mpkt mp)))
       then Inl (Panic ''Should only see read and writes at memory controller'')
     else if retryReq s then Inr (False, s)
     else if isBusy s then Inr (False, s\<lparr> retryReq := True \<rparr>)
     else rbind (sm_accept bw now rnd mp s) (\<lambda>s1. Inr (True, s1)))"

fun sm_calls :: "(u32 \<Rightarrow> u64) \<Rightarrow> u64 \<Rightarrow> mem_calls \<Rightarrow> SimpleMemory \<Rightarrow> SimpleMemory outcome" where
  "sm_calls bw now [] s = Inr s"
| "sm_calls bw now ((mp, rnd) # cs) s = rbind (sm_recvTimingReq bw now rnd mp s) (\<lambda>(_, s1). sm_calls bw now cs s1)"

section \<open>Events\<close>

definition sm_release :: "(u32 \<Rightarrow> u64) \<Rightarrow> 'e retry_peer \<Rightarrow> u64 \<Rightarrow> SimpleMemory \<Rightarrow> 'e \<Rightarrow> (SimpleMemory \<times> 'e) outcome" where
  "sm_release bw peer now s e =
    rbind (assert_that (isBusy s) ''isBusy'') (\<lambda>_.
    let s1 = s\<lparr> isBusy := False \<rparr> in
    if retryReq s1 then
      rbind (peer e) (\<lambda>(calls, e1). rbind (sm_calls bw now calls (s1\<lparr> retryReq := False \<rparr>)) (\<lambda>s2. Inr (s2, e1)))
    else Inr (s1, e))"

text \<open>The event is rescheduled whether or not it is scheduled already.\<close>

definition sm_dequeue :: "(u32 \<Rightarrow> u64) \<Rightarrow> 'e response_peer \<Rightarrow> u64 \<Rightarrow> SimpleMemory \<Rightarrow> 'e \<Rightarrow> (SimpleMemory \<times> 'e) outcome" where
  "sm_dequeue bw peer now s e =
    (case sm_queue s of
       [] \<Rightarrow> Inl (AssertFail ''!packetQueue.empty()'')
     | (t, mp) # _ \<Rightarrow>
         rbind (peer mp e) (\<lambda>(success, calls, e1).
         rbind (sm_calls bw now calls s) (\<lambda>s1.
         let s2 = s1\<lparr> retryResp := \<not> success \<rparr> in
         if success then
           let s3 = s2\<lparr> sm_queue := tl (sm_queue s2), gh_answered := gh_answered s2 @ [mp] \<rparr> in
           (case sm_queue s3 of
              (t1, _) # _ \<Rightarrow> Inr (s3\<lparr> dequeueEvent := Some (max t1 now) \<rparr>, e1)
            | [] \<Rightarrow> Inr (if sm_drainState s3 = Draining
                      then s3\<lparr> sm_drainState := Drained, sm_drain_signals := sm_drain_signals s3 + 1 \<rparr> else s3, e1))
         else Inr (s2, e1))))"

text \<open>An event is no longer scheduled when its action runs.\<close>

definition sm_releaseEvent :: "(u32 \<Rightarrow> u64) \<Rightarrow> 'e retry_peer \<Rightarrow> u64 \<Rightarrow> SimpleMemory \<Rightarrow> 'e \<Rightarrow> (SimpleMemory \<times> 'e) outcome" where
  "sm_releaseEvent bw peer now s = sm_release bw peer now (s\<lparr> releaseEvent := None \<rparr>)"

definition sm_dequeueEvent :: "(u32 \<Rightarrow> u64) \<Rightarrow> 'e response_peer \<Rightarrow> u64 \<Rightarrow> SimpleMemory \<Rightarrow> 'e \<Rightarrow> (SimpleMemory \<times> 'e) outcome" where
  "sm_dequeueEvent bw peer now s = sm_dequeue bw peer now (s\<lparr> dequeueEvent := None \<rparr>)"

definition sm_recvRespRetry :: "(u32 \<Rightarrow> u64) \<Rightarrow> 'e response_peer \<Rightarrow> u64 \<Rightarrow> SimpleMemory \<Rightarrow> 'e \<Rightarrow> (SimpleMemory \<times> 'e) outcome" where
  "sm_recvRespRetry bw peer now s e =
    rbind (assert_that (retryResp s) ''retryResp'') (\<lambda>_. sm_dequeue bw peer now s e)"

definition sm_drain :: "SimpleMemory \<Rightarrow> SimpleMemory" where
  "sm_drain s = s\<lparr> sm_drainState := (if sm_queue s \<noteq> [] then Draining else Drained) \<rparr>"

end
