(* ===== verification/AbstractMemProps.thy ===== *)
theory AbstractMemProps
  imports AbstractMem
begin

text \<open>
  What makes the memory correct: a read or swap returns, byte for byte, what was stored last; a
  store-conditional succeeds exactly when its context still holds its reservation, where
  reservations are lost to stores and taken over by later load-locked accesses. The one gap is
  stated too: swaps and stores that begin in another granule do not take a reservation away.
\<close>

section \<open>Bytes in the store\<close>

definition mem_byte :: "AbstractMemory \<Rightarrow> addr \<Rightarrow> u8 option" where
  "mem_byte m x = map_option (\<lambda>h. h (toHostAddr m x)) (pmem m)"

text \<open>The address \<open>x\<close> is byte number \<open>byte_no mp x\<close> of the packet, if that is below its size.\<close>

definition byte_no :: "MemPacket \<Rightarrow> addr \<Rightarrow> nat" where
  "byte_no mp x = unat (x - p_addr (mpkt mp))"

definition covers_byte :: "MemPacket \<Rightarrow> addr \<Rightarrow> bool" where
  "covers_byte mp x = (byte_no mp x < unat (p_size (mpkt mp)))"

lemma load_bytes_sels [simp]:
  "length (load_bytes h off n) = n"
  "i < n \<Longrightarrow> load_bytes h off n ! i = h (off + of_nat i)"
  by (simp_all add: load_bytes_def)

lemma getSize_Inr [simp]: "getSize p = Inr s \<longleftrightarrow> flag_isSet (p_flags p) VALID_SIZE \<and> s = p_size p"
  by (auto simp: getSize_def)

lemma bounded_copy_Inr [simp]: "bounded_copy n buf = Inr d \<longleftrightarrow> n \<le> length buf \<and> d = take n buf"
  by (auto simp: bounded_copy_def)

lemma in_store_Inr [simp]: "in_store m off n = Inr u \<longleftrightarrow> unat off + n \<le> unat (rend (mrange m) - rstart (mrange m))"
  by (auto simp: in_store_def)

lemma mem_setData_fields:
  assumes "mem_setData off mp h m = Inr mp1"
  shows "mp1 = mp\<lparr> mdata := mdata mp1 \<rparr>" "length (mdata mp1) = length (mdata mp)"
    and "i < unat (p_size (mpkt mp)) \<Longrightarrow> mdata mp1 ! i = h (off + of_nat i)"
    and "unat (p_size (mpkt mp)) \<le> length (mdata mp)"
  using assms by (auto simp: mem_setData_def setData_def getPtr_def nth_append split: if_splits)

text \<open>Which bytes a write enables.\<close>

definition enabled :: "MemPacket \<Rightarrow> nat \<Rightarrow> bool" where
  "enabled mp i = (isMaskedWrite mp \<longrightarrow> byteEnable mp ! i)"

lemma writeData_byte:
  assumes "writeData off mp h = Inr h1"
  shows "h1 x = (if unat (x - off) < unat (p_size (mpkt mp)) \<and> enabled mp (unat (x - off))
                 then mdata mp ! unat (x - off) else h x)"
  using assms by (auto simp: writeData_def getConstPtr_def store_bytes_def store_masked_def enabled_def split: if_splits)

lemma mem_writeData_byte:
  assumes "mem_writeData off mp h m = Inr m1" "pmem m = Some h" "off = toHostAddr m (p_addr (mpkt mp))"
  shows "mem_byte m1 x = (if covers_byte mp x \<and> enabled mp (byte_no mp x)
      then Some (mdata mp ! byte_no mp x) else mem_byte m x)" "m1 = m\<lparr> pmem := pmem m1 \<rparr>" "pmem m1 \<noteq> None"
proof -
  obtain h1 where h1: "writeData off mp h = Inr h1" "m1 = m\<lparr> pmem := Some h1 \<rparr>"
    using assms(1) by (auto simp: mem_writeData_def)
  have "unat (toHostAddr m x - off) = byte_no mp x" by (simp add: assms(3) toHostAddr_def byte_no_def)
  note b = writeData_byte[OF h1(1), of "toHostAddr m x", unfolded this]
  have "toHostAddr m1 x = toHostAddr m x" by (simp add: h1(2) toHostAddr_def)
  then show "mem_byte m1 x = (if covers_byte mp x \<and> enabled mp (byte_no mp x)
      then Some (mdata mp ! byte_no mp x) else mem_byte m x)" "m1 = m\<lparr> pmem := pmem m1 \<rparr>" "pmem m1 \<noteq> None"
    using b assms(2) by (auto simp: h1(2) mem_byte_def covers_byte_def)
qed

section \<open>The bookkeeping of locks leaves the bytes alone\<close>

definition same_store :: "AbstractMemory \<Rightarrow> AbstractMemory \<Rightarrow> bool" where
  "same_store m m' = (pmem m' = pmem m \<and> mrange m' = mrange m \<and> writeable m' = writeable m)"

lemma same_store_byte: "same_store m m' \<Longrightarrow> mem_byte m' x = mem_byte m x"
  by (simp add: same_store_def mem_byte_def toHostAddr_def)

lemma trackLoadLocked_store: "trackLoadLocked mp m = Inr m' \<Longrightarrow> same_store m m'"
  by (auto simp: trackLoadLocked_def same_store_def split: option.splits)

definition same_but_extra :: "MemPacket \<Rightarrow> MemPacket \<Rightarrow> bool" where
  "same_but_extra mp mp' = (mp' = mp\<lparr> extraData := extraData mp' \<rparr>)"

lemma same_but_extra_fields:
  assumes "same_but_extra mp mp'"
  shows "mpkt mp' = mpkt mp" "mdata mp' = mdata mp" "byteEnable mp' = byteEnable mp" "contextId mp' = contextId mp"
  using assms by (cases mp, cases mp', simp add: same_but_extra_def)+

lemma writeOK_store:
  assumes "writeOK mp m = Inr (b, mp1, m1)"
  shows "same_store m m1" "same_but_extra mp mp1"
  using assms by (auto simp: writeOK_def checkLockedAddrList_def same_store_def same_but_extra_def Let_def split: if_splits)

text \<open>Whether a write is carried out: always for a plain write, by its result for a store-conditional.\<close>

lemma checkLockedE:
  assumes "checkLockedAddrList mp m = Inr (b, mp1, m1)"
  obtains a where "getPaddr (req (mpkt mp)) = Inr a"
    "if isLLSC (cmd (mpkt mp)) then holds_lock mp (lock_mask a) (lockedAddrList m) = Inr b \<and> extraData mp1 = Some (if b then 1 else 0)
     else b"
    "if b then \<exists>told. erase_locks (contextId mp) (lock_mask a) (lockedAddrList m) = Inr (lockedAddrList m1, told) else m1 = m"
proof -
  obtain a c where a: "getPaddr (req (mpkt mp)) = Inr a"
    and c: "(if isLLSC (cmd (mpkt mp)) then holds_lock mp (lock_mask a) (lockedAddrList m) else Inr True) = Inr c"
    and r: "(if c then rbind (erase_locks (contextId mp) (lock_mask a) (lockedAddrList m)) (\<lambda>(rest, told).
        Inr (True, if isLLSC (cmd (mpkt mp)) then mp\<lparr> extraData := Some (if c then 1 else 0) \<rparr> else mp,
          m\<lparr> lockedAddrList := rest, clearedExclusive := clearedExclusive m @ told \<rparr>))
      else Inr (False, if isLLSC (cmd (mpkt mp)) then mp\<lparr> extraData := Some (if c then 1 else 0) \<rparr> else mp, m)) = Inr (b, mp1, m1)"
    using assms unfolding checkLockedAddrList_def Let_def rbind_Inr_iff by auto
  have "c = b" using r by (auto split: if_splits)
  with a c r show thesis by (intro that[of a]) (auto split: if_splits)
qed

lemma writeOK_allowed:
  assumes "writeOK mp m = Inr (b, mp1, m1)" "writeable m"
  shows "b \<longleftrightarrow> (isLLSC (cmd (mpkt mp)) \<longrightarrow> extraData mp1 = Some 1)"
proof (cases "lockedAddrList m = []")
  case True
  then show ?thesis using assms by (auto simp: writeOK_def Let_def)
next
  case False
  then have "checkLockedAddrList mp m = Inr (b, mp1, m1)" using assms by (simp add: writeOK_def)
  then show ?thesis by (rule checkLockedE) (auto split: if_splits)
qed

section \<open>The kinds of accesses\<close>

definition answered_elsewhere :: "MemPacket \<Rightarrow> bool" where
  "answered_elsewhere mp = (cacheResponding (mpkt mp) \<or> cmd (mpkt mp) = Command.CleanEvict \<or> cmd (mpkt mp) = WritebackClean)"

definition swaps :: "MemPacket \<Rightarrow> bool" where
  "swaps mp = (\<not> answered_elsewhere mp \<and> cmd (mpkt mp) = SwapReq)"

definition reads :: "MemPacket \<Rightarrow> bool" where
  "reads mp = (\<not> answered_elsewhere mp \<and> cmd (mpkt mp) \<noteq> SwapReq \<and> isRead (cmd (mpkt mp)))"

definition writes :: "MemPacket \<Rightarrow> bool" where
  "writes mp = (\<not> answered_elsewhere mp \<and> cmd (mpkt mp) \<noteq> SwapReq \<and> \<not> isRead (cmd (mpkt mp))
     \<and> \<not> isInvalidate (cmd (mpkt mp)) \<and> \<not> isClean (cmd (mpkt mp)))"

lemma kinds_disjoint: "reads mp \<Longrightarrow> \<not> swaps mp \<and> \<not> writes mp" "writes mp \<Longrightarrow> \<not> swaps mp"
  by (auto simp: swaps_def reads_def writes_def)

lemma respond_Inr:
  assumes "respond mp = Inr mp'"
  shows "mp' = mp\<lparr> mpkt := mpkt mp' \<rparr>" "cmd (mpkt mp') = responseCommand (cmd (mpkt mp))" "needsResponse (cmd (mpkt mp))"
    "p_addr (mpkt mp') = p_addr (mpkt mp)" "p_isSecure (mpkt mp') = p_isSecure (mpkt mp)" "req (mpkt mp') = req (mpkt mp)"
  using assms by (auto simp: respond_def makeResponse_ok_iff)

text \<open>The answer of the memory: the packet after the access proper, turned into a response.\<close>

definition answer_of :: "MemPacket \<Rightarrow> MemPacket \<Rightarrow> bool" where
  "answer_of mp1 mp' = (if needsResponse (cmd (mpkt mp1)) then respond mp1 = Inr mp' else mp' = mp1)"

lemma answer_of_fields:
  assumes "answer_of mp1 mp'"
  shows "mdata mp' = mdata mp1" "extraData mp' = extraData mp1"
    "needsResponse (cmd (mpkt mp1)) \<Longrightarrow> cmd (mpkt mp') = responseCommand (cmd (mpkt mp1))"
  using assms by (auto simp: answer_of_def respond_def makeResponse_ok_iff split: if_splits)

lemma mem_accessE:
  assumes "mem_access mp m = Inr (mp', m')"
  obtains (elsewhere) "answered_elsewhere mp" "mp' = mp" "m' = m"
  | (by_swap) mp1 where "swaps mp" "host_addr mp m = Inr (toHostAddr m (p_addr (mpkt mp)))" "answer_of mp1 mp'"
      "(if isAtomic (req (mpkt mp)) then atomic_swap else plain_swap) (toHostAddr m (p_addr (mpkt mp))) mp m = Inr (mp1, m')"
  | (by_read) mp1 where "reads mp" "mem_read (toHostAddr m (p_addr (mpkt mp))) mp m = Inr (mp1, m')" "answer_of mp1 mp'"
  | (by_write) mp1 where "writes mp" "mem_write (toHostAddr m (p_addr (mpkt mp))) mp m = Inr (mp1, m')" "answer_of mp1 mp'"
  | (maintain) "m' = m" "\<not> swaps mp" "\<not> reads mp" "\<not> writes mp" "answer_of mp mp'"
proof (cases "answered_elsewhere mp")
  case True
  then have "mp' = mp" "m' = m" using assms by (auto simp: mem_access_def answered_elsewhere_def Let_def split: if_splits)
  with True show ?thesis by (rule elsewhere)
next
  case False
  let ?c = "cmd (mpkt mp)" and ?off = "toHostAddr m (p_addr (mpkt mp))"
  obtain off mp1 where h: "host_addr mp m = Inr off" and a: "mem_perform off mp m = Inr (mp1, m')" and ans: "answer_of mp1 mp'"
    using assms False by (auto simp: mem_access_def answered_elsewhere_def answer_of_def split: if_splits)
  have off: "off = ?off" using h by (auto simp: host_addr_def getAddr_def split: if_splits)
  note k = swaps_def reads_def writes_def mem_perform_def Let_def
  consider "?c = SwapReq" | "?c \<noteq> SwapReq" "isRead ?c" | "?c \<noteq> SwapReq" "\<not> isRead ?c" "isInvalidate ?c \<or> isClean ?c"
    | "?c \<noteq> SwapReq" "\<not> isRead ?c" "\<not> (isInvalidate ?c \<or> isClean ?c)" by blast
  then show ?thesis
  proof cases
    case 1
    then show ?thesis using a h ans False off by (intro by_swap[of mp1]) (auto simp: k split: if_splits)
  next
    case 2
    then show ?thesis using a ans False off by (intro by_read[of mp1]) (auto simp: k)
  next
    case 3
    then show ?thesis using a ans False by (intro maintain) (auto simp: k split: if_splits)
  next
    case 4
    then show ?thesis using a ans False off by (intro by_write[of mp1]) (auto simp: k split: if_splits)
  qed
qed


lemma access_write:
  assumes "mem_access w m = Inr (w', m')" "writes w"
  obtains w1 where "mem_write (toHostAddr m (p_addr (mpkt w))) w m = Inr (w1, m')" "answer_of w1 w'"
  using assms(1) by (rule mem_accessE) (use assms(2) that in \<open>auto simp: writes_def reads_def swaps_def\<close>)

lemma access_read:
  assumes "mem_access r m = Inr (r', m')" "reads r"
  obtains r1 where "mem_read (toHostAddr m (p_addr (mpkt r))) r m = Inr (r1, m')" "answer_of r1 r'"
  using assms(1) by (rule mem_accessE) (use assms(2) that in \<open>auto simp: writes_def reads_def swaps_def\<close>)

section \<open>What an access does to the bytes\<close>

text \<open>What a swap stores, given the bytes it finds: an atomic operation applies its function to
  them, a plain swap stores its own data, and a conditional one does so only when it finds the value
  it expects.\<close>

definition swap_value :: "MemPacket \<Rightarrow> u8 list \<Rightarrow> u8 list option" where
  "swap_value q olds =
    (if isAtomic (req (mpkt q)) then map_option (\<lambda>f. f olds) (atomicOp q)
     else if isCondSwap (req (mpkt q)) \<and> map_option (le_bytes (length olds)) (extraData q) \<noteq> Some olds then None
     else Some (mdata q))"

text \<open>The byte a request stores at an address, if it stores one there: \<open>q'\<close> is the answer, which tells
  whether a store-conditional succeeded and which bytes a swap found.\<close>

definition byte_written :: "MemPacket \<Rightarrow> MemPacket \<Rightarrow> addr \<Rightarrow> u8 option" where
  "byte_written q q' x =
    (if \<not> covers_byte q x then None
     else if writes q then
       (if (isLLSC (cmd (mpkt q)) \<longrightarrow> extraData q' = Some 1) \<and> enabled q (byte_no q x)
        then Some (mdata q ! byte_no q x) else None)
     else if swaps q then
       (case swap_value q (take (unat (p_size (mpkt q))) (mdata q')) of
          None \<Rightarrow> None
        | Some d \<Rightarrow> if byte_no q x < length d then Some (d ! byte_no q x) else None)
     else None)"

lemma swap_finds:
  assumes "mem_setData off mp h m = Inr mp1"
  shows "take (unat (p_size (mpkt mp))) (mdata mp1) = load_bytes h off (unat (p_size (mpkt mp)))"
  using mem_setData_fields[OF assms] by (intro nth_equalityI) auto

lemma swapE:
  assumes "(if isAtomic (req (mpkt mp)) then atomic_swap else plain_swap) off mp m = Inr (mp1, m')" "pmem m = Some h"
  obtains "mem_setData off mp h m = Inr mp1" "take (unat (p_size (mpkt mp))) (mdata mp1) = load_bytes h off (unat (p_size (mpkt mp)))"
    "m' = m\<lparr> pmem := Some (case swap_value mp (load_bytes h off (unat (p_size (mpkt mp)))) of
        None \<Rightarrow> h | Some d \<Rightarrow> store_bytes off (take (unat (p_size (mpkt mp))) d) h) \<rparr>"
proof (cases "isAtomic (req (mpkt mp))")
  case True
  then show ?thesis using assms that by (auto simp: atomic_swap_def swap_value_def swap_finds split: option.splits)
next
  case False
  have sd: "mem_setData off mp h m = Inr mp1" using assms False by (auto simp: plain_swap_def split: if_splits)
  have f: "mpkt mp1 = mpkt mp" "extraData mp1 = extraData mp"
    using sd by (auto simp: mem_setData_def setData_def)
  have "m\<lparr> pmem := Some h \<rparr> = m" using assms(2) by simp
  then have "m' = m\<lparr> pmem := Some (case swap_value mp (load_bytes h off (unat (p_size (mpkt mp)))) of
        None \<Rightarrow> h | Some d \<Rightarrow> store_bytes off (take (unat (p_size (mpkt mp))) d) h) \<rparr>"
    using assms False f by (auto simp: plain_swap_def getConstPtr_def swap_allowed_def swap_value_def getExtraData_def
        split: if_splits option.splits)
  with sd swap_finds[OF sd] show ?thesis by (rule that)
qed

lemma swap_byte:
  assumes "(if isAtomic (req (mpkt mp)) then atomic_swap else plain_swap) (toHostAddr m (p_addr (mpkt mp))) mp m = Inr (mp1, m')"
    and "swaps mp" "pmem m = Some h" "mdata mp' = mdata mp1"
  shows "mem_byte m' x = (case byte_written mp mp' x of Some b \<Rightarrow> Some b | None \<Rightarrow> mem_byte m x)"
proof -
  let ?off = "toHostAddr m (p_addr (mpkt mp))" and ?n = "unat (p_size (mpkt mp))"
  have b: "unat (toHostAddr m x - ?off) = byte_no mp x" by (simp add: byte_no_def toHostAddr_def)
  have w: "\<not> writes mp" using assms(2) by (auto simp: swaps_def writes_def)
  show ?thesis
    using assms(1,3)
  proof (rule swapE)
    assume t: "take ?n (mdata mp1) = load_bytes h ?off ?n"
      and m': "m' = m\<lparr> pmem := Some (case swap_value mp (load_bytes h ?off ?n) of
        None \<Rightarrow> h | Some d \<Rightarrow> store_bytes ?off (take ?n d) h) \<rparr>"
    have st: "store_bytes ?off (take ?n d) h (toHostAddr m x) =
        (if covers_byte mp x \<and> byte_no mp x < length d then d ! byte_no mp x else h (toHostAddr m x))" for d
      by (auto simp: store_bytes_def covers_byte_def b)
    have th: "toHostAddr m' x = toHostAddr m x" by (simp add: m' toHostAddr_def)
    have "mem_byte m' x = Some ((case swap_value mp (load_bytes h ?off ?n) of
        None \<Rightarrow> h | Some d \<Rightarrow> store_bytes ?off (take ?n d) h) (toHostAddr m x))"
      unfolding mem_byte_def th by (simp add: m')
    then show ?thesis
      using assms(2-4) w t by (auto simp: byte_written_def mem_byte_def st split: option.splits)
  qed
qed

lemma swap_fields:
  assumes "(if isAtomic (req (mpkt mp)) then atomic_swap else plain_swap) off mp m = Inr (mp1, m')"
  shows "m' = m\<lparr> pmem := pmem m' \<rparr>" "pmem m' = None \<longleftrightarrow> pmem m = None" "mpkt mp1 = mpkt mp"
  using assms by (auto simp: atomic_swap_def plain_swap_def split: option.splits if_splits
      dest!: mem_setData_fields(1)) (metis MemPacket.select_convs(1) MemPacket.surjective MemPacket.update_convs(2))+

lemma mem_read_fields:
  assumes "mem_read off mp m = Inr (mp1, m')"
  shows "same_store m m'" "mpkt mp1 = mpkt mp" "extraData mp1 = extraData mp"
    "pmem m = Some h \<Longrightarrow> i < unat (p_size (mpkt mp)) \<Longrightarrow> mdata mp1 ! i = h (off + of_nat i)"
proof -
  obtain m1 where m1: "(if isLLSC (cmd (mpkt mp)) then
        rbind (assert_that (\<not> fromCache (cmd (mpkt mp))) ''!pkt->fromCache()'') (\<lambda>_. trackLoadLocked mp m) else Inr m) = Inr m1"
    and r: "(case pmem m1 of None \<Rightarrow> Inr (mp, m1) | Some h \<Rightarrow> rbind (mem_setData off mp h m1) (\<lambda>mp1. Inr (mp1, m1))) = Inr (mp1, m')"
    using assms unfolding mem_read_def rbind_Inr_iff by auto
  have s: "same_store m m1" using m1 by (auto simp: same_store_def split: if_splits dest: trackLoadLocked_store)
  have m': "m' = m1" using r by (auto split: option.splits)
  show "same_store m m'" using s m' by simp
  show "mpkt mp1 = mpkt mp" "extraData mp1 = extraData mp"
    using r by (auto simp: mem_setData_def setData_def split: option.splits)
  show "mdata mp1 ! i = h (off + of_nat i)" if "pmem m = Some h" "i < unat (p_size (mpkt mp))"
    using r that s by (auto simp: same_store_def dest: mem_setData_fields(3))
qed

lemma mem_write_fields:
  assumes "mem_write (toHostAddr m (p_addr (mpkt mp))) mp m = Inr (mp1, m')" "writeable m"
  shows "same_but_extra mp mp1" "mrange m' = mrange m" "writeable m'" "pmem m' = None \<longleftrightarrow> pmem m = None"
    "mem_byte m' x = (if (isLLSC (cmd (mpkt mp)) \<longrightarrow> extraData mp1 = Some 1) \<and> pmem m \<noteq> None \<and> covers_byte mp x
        \<and> enabled mp (byte_no mp x) then Some (mdata mp ! byte_no mp x) else mem_byte m x)"
    "\<exists>m1. writeOK mp m = Inr (isLLSC (cmd (mpkt mp)) \<longrightarrow> extraData mp1 = Some 1, mp1, m1) \<and> lockedAddrList m' = lockedAddrList m1"
proof -
  obtain b m1 where w: "writeOK mp m = Inr (b, mp1, m1)"
    and r: "if b then (case pmem m1 of None \<Rightarrow> Inr m1 | Some h \<Rightarrow> mem_writeData (toHostAddr m (p_addr (mpkt mp))) mp1 h m1) = Inr m' else m' = m1"
    using assms(1) by (auto simp: mem_write_def split: if_splits option.splits)
  note s = writeOK_store[OF w] and f = same_but_extra_fields[OF writeOK_store(2)[OF w]]
  have sm: "pmem m1 = pmem m" "mrange m1 = mrange m" "writeable m1" "\<And>a. toHostAddr m1 a = toHostAddr m a"
    using s(1) assms(2) by (auto simp: same_store_def toHostAddr_def)
  have b: "b = (isLLSC (cmd (mpkt mp)) \<longrightarrow> extraData mp1 = Some 1)" using writeOK_allowed[OF w assms(2)] by simp
  have cv: "covers_byte mp1 x = covers_byte mp x" "byte_no mp1 x = byte_no mp x" "enabled mp1 i = enabled mp i" for i
    by (simp_all add: covers_byte_def byte_no_def enabled_def isMaskedWrite_def f)
  show "same_but_extra mp mp1" by (rule s(2))
  have "mrange m' = mrange m \<and> writeable m' \<and> (pmem m' = None \<longleftrightarrow> pmem m = None) \<and> lockedAddrList m' = lockedAddrList m1
    \<and> mem_byte m' x = (if b \<and> pmem m \<noteq> None \<and> covers_byte mp x
        \<and> enabled mp (byte_no mp x) then Some (mdata mp ! byte_no mp x) else mem_byte m x)"
  proof (cases "b \<and> pmem m \<noteq> None")
    case True
    then obtain h where h: "pmem m1 = Some h" "mem_writeData (toHostAddr m (p_addr (mpkt mp))) mp1 h m1 = Inr m'"
      using r sm(1) by (auto split: option.splits)
    note wd = mem_writeData_byte[OF h(2,1), unfolded sm(4) f(1), OF refl]
    have "mem_byte m1 x = mem_byte m x" by (rule same_store_byte[OF s(1)])
    moreover have "m' = m1\<lparr> pmem := pmem m' \<rparr>" using wd(2) .
    ultimately show ?thesis using wd(1)[of x] wd(3) sm True
      by (metis (no_types, lifting) AbstractMemory.ext_inject AbstractMemory.surjective AbstractMemory.update_convs(2) cv f(2))
  next
    case False
    then have "m' = m1" using r sm(1) by (auto split: option.splits if_splits)
    then show ?thesis using sm False same_store_byte[OF s(1)] by auto
  qed
  then show "mrange m' = mrange m" "writeable m'" "pmem m' = None \<longleftrightarrow> pmem m = None"
    "mem_byte m' x = (if (isLLSC (cmd (mpkt mp)) \<longrightarrow> extraData mp1 = Some 1) \<and> pmem m \<noteq> None \<and> covers_byte mp x
        \<and> enabled mp (byte_no mp x) then Some (mdata mp ! byte_no mp x) else mem_byte m x)"
    "\<exists>m1. writeOK mp m = Inr (isLLSC (cmd (mpkt mp)) \<longrightarrow> extraData mp1 = Some 1, mp1, m1) \<and> lockedAddrList m' = lockedAddrList m1"
    using w b by auto
qed

lemma access_frame:
  assumes "mem_access mp m = Inr (mp', m')" "writeable m"
  shows "mrange m' = mrange m" "writeable m'" "pmem m' = None \<longleftrightarrow> pmem m = None"
proof -
  have "mrange m' = mrange m \<and> writeable m' \<and> (pmem m' = None \<longleftrightarrow> pmem m = None)"
    using assms(1)
  proof (cases rule: mem_accessE)
    case (by_swap mp1)
    note f = swap_fields[OF by_swap(4)]
    have "mrange m' = mrange m" "writeable m' = writeable m"
      by (subst f(1), simp)+
    then show ?thesis using f(2) assms(2) by simp
  next
    case (by_read mp1)
    then show ?thesis using mem_read_fields(1)[OF by_read(2)] assms(2) by (auto simp: same_store_def)
  next
    case (by_write mp1)
    then show ?thesis using mem_write_fields[OF by_write(2) assms(2)] by auto
  qed (use assms(2) in auto)
  then show "mrange m' = mrange m" "writeable m'" "pmem m' = None \<longleftrightarrow> pmem m = None" by auto
qed

text \<open>An access changes exactly the bytes the specification says.\<close>

lemma access_byte:
  assumes "mem_access mp m = Inr (mp', m')" "writeable m" "pmem m = Some h"
  shows "mem_byte m' x = (case byte_written mp mp' x of Some b \<Rightarrow> Some b | None \<Rightarrow> mem_byte m x)"
  using assms(1)
proof (cases rule: mem_accessE)
  case elsewhere
  then show ?thesis by (auto simp: byte_written_def swaps_def writes_def)
next
  case (by_swap mp1)
  show ?thesis by (rule swap_byte[OF by_swap(4,1) assms(3) answer_of_fields(1)[OF by_swap(3)]])
next
  case (by_read mp1)
  then have "byte_written mp mp' x = None" by (auto simp: byte_written_def swaps_def writes_def reads_def)
  then show ?thesis using same_store_byte[OF mem_read_fields(1)[OF by_read(2)]] by simp
next
  case (by_write mp1)
  then show ?thesis
    using mem_write_fields(5)[OF by_write(2) assms(2), of x] answer_of_fields(2)[OF by_write(3)] assms(3)
    by (auto simp: byte_written_def)
next
  case maintain
  then show ?thesis by (simp add: byte_written_def)
qed

text \<open>A sequence of accesses, with the answers.\<close>

fun run_mem :: "MemPacket list \<Rightarrow> AbstractMemory \<Rightarrow> ((MemPacket \<times> MemPacket) list \<times> AbstractMemory) outcome" where
  "run_mem [] m = Inr ([], m)"
| "run_mem (mp # mps) m =
     rbind (mem_access mp m) (\<lambda>(mp', m1). rbind (run_mem mps m1) (\<lambda>(rs, m2). Inr ((mp, mp') # rs, m2)))"

text \<open>The value an address has after a run: what the last request that stored there put there, or else
  what it had at the start.\<close>

fun last_written :: "addr \<Rightarrow> u8 \<Rightarrow> (MemPacket \<times> MemPacket) list \<Rightarrow> u8" where
  "last_written x v [] = v"
| "last_written x v ((q, q') # rs) = last_written x (case byte_written q q' x of Some b \<Rightarrow> b | None \<Rightarrow> v) rs"

lemma run_mem_byte:
  assumes "run_mem mps m = Inr (rs, m')" "writeable m" "mem_byte m x = Some v"
  shows "mem_byte m' x = Some (last_written x v rs) \<and> writeable m'"
  using assms
proof (induction mps arbitrary: m rs v)
  case (Cons mp mps)
  obtain mp' m1 rs' where a: "mem_access mp m = Inr (mp', m1)" and r: "run_mem mps m1 = Inr (rs', m')" "rs = (mp, mp') # rs'"
    using Cons.prems(1) by auto
  obtain h where "pmem m = Some h" using Cons.prems(3) by (auto simp: mem_byte_def)
  from access_byte[OF a Cons.prems(2) this, of x]
  have "mem_byte m1 x = Some (case byte_written mp mp' x of Some b \<Rightarrow> b | None \<Rightarrow> v)"
    using Cons.prems(3) by (simp split: option.splits)
  from Cons.IH[OF r(1) access_frame(2)[OF a Cons.prems(2)] this] show ?case by (simp add: r(2))
qed simp

section \<open>A read returns what was written last\<close>

lemma read_finds:
  assumes "mem_access r m = Inr (r', m')" "reads r \<or> swaps r" "pmem m = Some h" "covers_byte r x"
  shows "mdata r' ! byte_no r x = h (toHostAddr m x)
    \<and> cmd (mpkt r') = (if needsResponse (cmd (mpkt r)) then responseCommand (cmd (mpkt r)) else cmd (mpkt r))"
proof -
  let ?off = "toHostAddr m (p_addr (mpkt r))"
  have a: "?off + of_nat (byte_no r x) = toHostAddr m x" by (simp add: toHostAddr_def byte_no_def)
  obtain r1 where r1: "answer_of r1 r'" "mpkt r1 = mpkt r" "mdata r1 ! byte_no r x = h (toHostAddr m x)"
    using assms(1)
  proof (cases rule: mem_accessE)
    case (by_swap mp1)
    have "mpkt mp1 = mpkt r" "mdata mp1 ! byte_no r x = h (?off + of_nat (byte_no r x))"
      using by_swap(4) assms(3)
      by (rule swapE; use assms(4) mem_setData_fields(3) swap_fields(3)[OF by_swap(4)] in \<open>auto simp: covers_byte_def\<close>)+
    then show ?thesis using that by_swap(3) a by simp
  next
    case (by_read mp1)
    then show ?thesis using that[of mp1] mem_read_fields(2,4)[OF by_read(2)] assms(3,4) a by (simp add: covers_byte_def)
  qed (use assms(2) in \<open>auto simp: reads_def swaps_def writes_def\<close>)
  then show ?thesis using answer_of_fields[OF r1(1)] by (auto simp: answer_of_def)
qed

text \<open>C16: The memory returns what was written last. Run any sequence of accesses on a writeable memory
  with a store, and then a read or a swap. For every address it covers, the byte in its answer is the
  one the last access of the run that stored there put there, or the initial byte if none did. Plain
  writes store their enabled bytes, store-conditionals only when they succeed, swaps their own data
  (a conditional swap only when it found the expected value), and atomic operations the result of their
  function; no other access stores anything.\<close>

theorem memory_returns_last_write:
  assumes "run_mem mps m = Inr (rs, m1)" "writeable m" "pmem m = Some h"
    and "mem_access r m1 = Inr (r', m2)" "reads r \<or> swaps r" "covers_byte r x"
  shows "mdata r' ! byte_no r x = last_written x (h (toHostAddr m x)) rs
    \<and> cmd (mpkt r') = (if needsResponse (cmd (mpkt r)) then responseCommand (cmd (mpkt r)) else cmd (mpkt r))"
proof -
  have "mem_byte m x = Some (h (toHostAddr m x))" using assms(3) by (simp add: mem_byte_def)
  from run_mem_byte[OF assms(1,2) this] obtain h1 where "pmem m1 = Some h1"
    "h1 (toHostAddr m1 x) = last_written x (h (toHostAddr m x)) rs" by (auto simp: mem_byte_def)
  with read_finds[OF assms(4,5) _ assms(6)] show ?thesis by simp
qed

section \<open>Reservations\<close>

text \<open>The reservation a context holds: the granule of its last load-locked access, unless a store to it
  came by.\<close>

fun lookup_lock :: "LockedAddr list \<Rightarrow> int \<Rightarrow> addr option" where
  "lookup_lock [] c = None"
| "lookup_lock ((g, d) # ls) c = (if d = c then Some g else lookup_lock ls c)"

definition reservation :: "AbstractMemory \<Rightarrow> int \<Rightarrow> addr option" where
  "reservation m = lookup_lock (lockedAddrList m)"

definition lock_inv :: "AbstractMemory \<Rightarrow> bool" where
  "lock_inv m = (distinct (map snd (lockedAddrList m)) \<and> InvalidContextID \<notin> snd ` set (lockedAddrList m))"

definition granule :: "MemPacket \<Rightarrow> addr option" where
  "granule mp = map_option lock_mask (r_paddr (req (mpkt mp)))"

definition loads_locked :: "int \<Rightarrow> MemPacket \<Rightarrow> bool" where
  "loads_locked c mp = (reads mp \<and> isLLSC (cmd (mpkt mp)) \<and> contextId mp = Some c)"

text \<open>The store was carried out: \<open>mp'\<close> is the answer.\<close>

definition stores_to :: "addr \<Rightarrow> MemPacket \<Rightarrow> MemPacket \<Rightarrow> bool" where
  "stores_to g mp mp' = (writes mp \<and> granule mp = Some g \<and> (isLLSC (cmd (mpkt mp)) \<longrightarrow> extraData mp' = Some 1))"

lemma lookup_lock_None: "lookup_lock ls c = None \<longleftrightarrow> c \<notin> snd ` set ls"
  by (induction ls c rule: lookup_lock.induct) auto

lemma update_lock_spec:
  assumes "update_lock mp g ls = Inr r" "contextId mp = Some c"
  shows "(case r of None \<Rightarrow> c \<notin> snd ` set ls
    | Some ls' \<Rightarrow> c \<in> snd ` set ls \<and> map snd ls' = map snd ls \<and> lookup_lock ls' = (lookup_lock ls)(c \<mapsto> g))"
  using assms
proof (induction ls arbitrary: r)
  case (Cons l ls)
  obtain h d where l: "l = (h, d)" by (cases l)
  show ?case
  proof (cases "d = c")
    case True
    then have "r = Some ((g, c) # ls)" using Cons.prems l by (auto simp: matchesContext_def getContextId_def split: if_splits)
    then show ?thesis using True l by (auto simp: fun_eq_iff)
  next
    case False
    then obtain r' where "update_lock mp g ls = Inr r'" "r = map_option (\<lambda>ls'. l # ls') r'"
      using Cons.prems l by (auto simp: matchesContext_def getContextId_def split: if_splits)
    with Cons.IH[of r'] Cons.prems(2) False l show ?thesis by (auto simp: fun_eq_iff split: option.splits)
  qed
qed simp

lemma trackLoadLocked_spec:
  assumes "trackLoadLocked mp m = Inr m'" "lock_inv m" "contextId mp \<noteq> Some InvalidContextID"
  shows "lock_inv m' \<and> (\<exists>c g. contextId mp = Some c \<and> granule mp = Some g \<and> reservation m' = (reservation m)(c \<mapsto> g))"
proof -
  obtain a r where a: "r_paddr (req (mpkt mp)) = Some a" and u: "update_lock mp (lock_mask a) (lockedAddrList m) = Inr r"
    and m': "(case r of Some ls \<Rightarrow> Inr (m\<lparr> lockedAddrList := ls \<rparr>)
      | None \<Rightarrow> rbind (getContextId mp) (\<lambda>c. Inr (m\<lparr> lockedAddrList := (lock_mask a, c) # lockedAddrList m,
                   backdoor_invalidations := backdoor_invalidations m + 1 \<rparr>))) = Inr m'"
    using assms(1) unfolding trackLoadLocked_def getPaddr_def by (auto split: option.splits)
  have "contextId mp \<noteq> None"
  proof
    assume n: "contextId mp = None"
    then have "lockedAddrList m = []" using u by (cases "lockedAddrList m") (auto simp: matchesContext_def getContextId_def split: if_splits)
    with u m' n show False by (auto simp: getContextId_def)
  qed
  then obtain c where c: "contextId mp = Some c" by auto
  note sp = update_lock_spec[OF u c]
  show ?thesis
  proof (cases r)
    case None
    then have "m' = m\<lparr> lockedAddrList := (lock_mask a, c) # lockedAddrList m, backdoor_invalidations := backdoor_invalidations m + 1 \<rparr>"
      using m' c by (simp add: getContextId_def)
    then show ?thesis using sp None assms(2,3) a c
      by (auto simp: lock_inv_def reservation_def granule_def fun_eq_iff)
  next
    case (Some ls)
    then have "m' = m\<lparr> lockedAddrList := ls \<rparr>" using m' by simp
    moreover have "map snd ls = map snd (lockedAddrList m)" using sp Some by simp
    then have "snd ` set ls = snd ` set (lockedAddrList m)" by (metis list.set_map)
    ultimately show ?thesis using sp Some assms(2,3) a c
      by (auto simp: lock_inv_def reservation_def granule_def)
  qed
qed

lemma holds_lock_spec:
  assumes "holds_lock mp g ls = Inr b" "contextId mp = Some c" "distinct (map snd ls)"
  shows "b = (lookup_lock ls c = Some g)"
  using assms
proof (induction ls)
  case (Cons l ls)
  obtain h d where l: "l = (h, d)" by (cases l)
  have "lookup_lock ls c = None" if "d = c" using Cons.prems(3) that l by (auto simp: lookup_lock_None)
  then show ?case using Cons l by (auto simp: matchesContext_def getContextId_def split: if_splits)
qed simp

lemma erase_locks_filter:
  "erase_locks c g ls = Inr (rest, told) \<Longrightarrow> rest = filter (\<lambda>l. fst l \<noteq> g) ls"
  by (induction ls arbitrary: rest told) (auto split: if_splits)

lemma lookup_lock_filter:
  "distinct (map snd ls) \<Longrightarrow>
    lookup_lock (filter (\<lambda>l. fst l \<noteq> g) ls) d = (if lookup_lock ls d = Some g then None else lookup_lock ls d)"
proof (induction ls)
  case (Cons l ls)
  obtain h c where l: "l = (h, c)" by (cases l)
  have "lookup_lock ls d = None" if "c = d" using Cons.prems that l by (auto simp: lookup_lock_None)
  then show ?case using Cons l by auto
qed simp

lemma write_locks:
  assumes "mem_write (toHostAddr m (p_addr (mpkt mp))) mp m = Inr (mp1, m')" "writeable m" "lock_inv m" "writes mp"
    and "extraData mp' = extraData mp1"
  shows "lock_inv m' \<and> reservation m' c = (case reservation m c of None \<Rightarrow> None | Some g \<Rightarrow> if stores_to g mp mp' then None else Some g)"
proof -
  let ?b = "isLLSC (cmd (mpkt mp)) \<longrightarrow> extraData mp1 = Some 1"
  obtain m1 where w: "writeOK mp m = Inr (?b, mp1, m1)" and m1: "lockedAddrList m' = lockedAddrList m1"
    using mem_write_fields(6)[OF assms(1,2)] by auto
  have st: "stores_to g mp mp' \<longleftrightarrow> granule mp = Some g \<and> ?b" for g
    using assms(4,5) by (auto simp: stores_to_def)
  show ?thesis
  proof (cases "lockedAddrList m = []")
    case True
    then have "m1 = m" using w assms(2) by (auto simp: writeOK_def Let_def)
    then show ?thesis using True m1 assms(3) by (simp add: lock_inv_def reservation_def)
  next
    case False
    then have ck: "checkLockedAddrList mp m = Inr (?b, mp1, m1)" using w assms(2) by (simp add: writeOK_def)
    obtain a where a: "getPaddr (req (mpkt mp)) = Inr a"
      and r: "if ?b then \<exists>told. erase_locks (contextId mp) (lock_mask a) (lockedAddrList m) = Inr (lockedAddrList m1, told) else m1 = m"
      using ck by (rule checkLockedE) auto
    have g: "granule mp = Some (lock_mask a)" using a by (auto simp: granule_def getPaddr_def split: option.splits)
    show ?thesis
    proof (cases ?b)
      case True
      then have l: "lockedAddrList m' = filter (\<lambda>l. fst l \<noteq> lock_mask a) (lockedAddrList m)"
        using r m1 erase_locks_filter by auto
      have "lock_inv m'" using assms(3) by (auto simp: lock_inv_def l distinct_map_filter)
      moreover have "reservation m' c = (if reservation m c = Some (lock_mask a) then None else reservation m c)"
        using assms(3) by (simp add: reservation_def l lookup_lock_filter lock_inv_def)
      ultimately show ?thesis using True st g by (auto split: option.splits)
    next
      case False
      then show ?thesis using r m1 assms(3) st by (auto simp: lock_inv_def reservation_def split: option.splits)
    qed
  qed
qed

text \<open>The reservations after an access: a load-locked access makes one, a store carried out in its granule
  ends it, and nothing else changes it.\<close>

lemma access_reservation:
  assumes "mem_access mp m = Inr (mp', m')" "lock_inv m" "writeable m" "contextId mp \<noteq> Some InvalidContextID"
  shows "lock_inv m' \<and> reservation m' c = (if loads_locked c mp then granule mp
    else case reservation m c of None \<Rightarrow> None | Some g \<Rightarrow> if stores_to g mp mp' then None else Some g)"
  using assms(1)
proof (cases rule: mem_accessE)
  case elsewhere
  then show ?thesis using assms(2) by (auto simp: loads_locked_def reads_def stores_to_def writes_def split: option.splits)
next
  case (by_swap mp1)
  have "lockedAddrList m' = lockedAddrList m" by (subst swap_fields(1)[OF by_swap(4)], simp)
  then show ?thesis using by_swap(1) assms(2)
    by (auto simp: loads_locked_def stores_to_def lock_inv_def reservation_def kinds_disjoint dest: kinds_disjoint split: option.splits)
next
  case (by_read mp1)
  have st: "\<not> stores_to g mp mp'" for g using by_read(1) by (auto simp: stores_to_def dest: kinds_disjoint)
  show ?thesis
  proof (cases "isLLSC (cmd (mpkt mp))")
    case True
    then have t: "trackLoadLocked mp m = Inr m'"
      using by_read(2) by (auto simp: mem_read_def split: if_splits option.splits)
    show ?thesis using trackLoadLocked_spec[OF t assms(2,4)] True by_read(1) st
      by (auto simp: loads_locked_def split: option.splits)
  next
    case False
    then have "m' = m" using by_read(2) by (auto simp: mem_read_def split: option.splits if_splits)
    then show ?thesis using False st assms(2) by (auto simp: loads_locked_def split: option.splits)
  qed
next
  case (by_write mp1)
  have "\<not> loads_locked c mp" using by_write(1) by (auto simp: loads_locked_def dest: kinds_disjoint)
  then show ?thesis
    using write_locks[OF by_write(2) assms(3,2) by_write(1) answer_of_fields(2)[OF by_write(3)], of c] by auto
next
  case maintain
  then show ?thesis using assms(2) by (auto simp: loads_locked_def stores_to_def split: option.splits)
qed

text \<open>A store-conditional succeeds exactly when its context holds the reservation.\<close>

lemma store_conditional_result:
  assumes "mem_access sc m = Inr (sc', m')" "writes sc" "isLLSC (cmd (mpkt sc))" "lock_inv m" "writeable m"
    and "contextId sc = Some c" "granule sc = Some g"
  shows "extraData sc' = Some (if reservation m c = Some g then 1 else 0)"
proof -
  obtain sc1 where w1: "mem_write (toHostAddr m (p_addr (mpkt sc))) sc m = Inr (sc1, m')" "answer_of sc1 sc'"
    using assms(1,2) by (rule access_write)
  obtain b m1 where w: "writeOK sc m = Inr (b, sc1, m1)"
    using mem_write_fields(6)[OF w1(1) assms(5)] by auto
  have "extraData sc1 = Some (if reservation m c = Some g then 1 else 0)"
  proof (cases "lockedAddrList m = []")
    case True
    then show ?thesis using w assms(3,5) by (auto simp: writeOK_def Let_def reservation_def)
  next
    case False
    then have ck: "checkLockedAddrList sc m = Inr (b, sc1, m1)" using w assms(5) by (simp add: writeOK_def)
    obtain a where a: "getPaddr (req (mpkt sc)) = Inr a" "holds_lock sc (lock_mask a) (lockedAddrList m) = Inr b"
      "extraData sc1 = Some (if b then 1 else 0)"
      using ck by (rule checkLockedE) (use assms(3) in auto)
    have "lock_mask a = g" using a(1) assms(7) by (auto simp: granule_def getPaddr_def split: option.splits)
    then show ?thesis using holds_lock_spec[OF a(2) assms(6)] assms(4) a(3) by (simp add: lock_inv_def reservation_def)
  qed
  then show ?thesis using answer_of_fields(2)[OF w1(2)] by simp
qed

section \<open>Load-locked and store-conditional\<close>

text \<open>In a history of accesses and answers, context \<open>c\<close> has reserved granule \<open>g\<close> and nobody has interfered:
  after its last load-locked access, which was to that granule, no store to it was carried out.\<close>

definition undisturbed :: "int \<Rightarrow> addr \<Rightarrow> (MemPacket \<times> MemPacket) list \<Rightarrow> bool" where
  "undisturbed c g rs = list_all (\<lambda>(q, q'). \<not> loads_locked c q \<and> \<not> stores_to g q q') rs"

definition still_reserved :: "int \<Rightarrow> addr \<Rightarrow> (MemPacket \<times> MemPacket) list \<Rightarrow> bool" where
  "still_reserved c g rs = (\<exists>earlier ll ll' later. rs = earlier @ (ll, ll') # later \<and> loads_locked c ll
     \<and> granule ll = Some g \<and> undisturbed c g later)"

lemma still_reserved_Nil [simp]: "\<not> still_reserved c g []"
  by (simp add: still_reserved_def)

lemma still_reserved_Cons [simp]:
  "still_reserved c g ((mp, mp') # rs) \<longleftrightarrow>
    still_reserved c g rs \<or> loads_locked c mp \<and> granule mp = Some g \<and> undisturbed c g rs"
  by (auto simp: still_reserved_def Cons_eq_append_conv) blast+

lemma run_reservation:
  assumes "run_mem mps m = Inr (rs, m')" "lock_inv m" "writeable m" "\<forall>mp \<in> set mps. contextId mp \<noteq> Some InvalidContextID"
  shows "lock_inv m' \<and> writeable m' \<and> (reservation m' c = Some g \<longleftrightarrow>
    still_reserved c g rs \<or> reservation m c = Some g \<and> undisturbed c g rs)"
  using assms
proof (induction mps arbitrary: m rs)
  case Nil
  then show ?case by (simp add: undisturbed_def)
next
  case (Cons mp mps)
  obtain mp' m1 rs1 where a: "mem_access mp m = Inr (mp', m1)" and r: "run_mem mps m1 = Inr (rs1, m')" "rs = (mp, mp') # rs1"
    using Cons.prems(1) by auto
  have s: "lock_inv m1 \<and> reservation m1 c = (if loads_locked c mp then granule mp
      else case reservation m c of None \<Rightarrow> None | Some g \<Rightarrow> if stores_to g mp mp' then None else Some g)"
    using access_reservation[OF a Cons.prems(2,3)] Cons.prems(4) by simp
  have IH: "lock_inv m' \<and> writeable m' \<and> (reservation m' c = Some g \<longleftrightarrow>
      still_reserved c g rs1 \<or> reservation m1 c = Some g \<and> undisturbed c g rs1)"
    using Cons.IH[OF r(1)] s access_frame(2)[OF a Cons.prems(3)] Cons.prems(4) by simp
  have "\<not> (loads_locked c mp \<and> stores_to g mp mp')" by (auto simp: loads_locked_def stores_to_def dest: kinds_disjoint)
  then show ?case using IH s by (auto simp: r(2) undisturbed_def split: option.splits if_splits)
qed

text \<open>C17: Load-locked and store-conditional accesses are atomic with respect to stores. Start from a
  writeable memory without reservations and run any sequence of accesses. A store-conditional of a
  context then succeeds exactly when the last load-locked access of the context was to the same
  granule of 16 bytes and no store that begins in the granule was carried out since; the answer
  says so, and a store-conditional that fails changes no byte.\<close>

theorem store_conditional_iff:
  assumes "run_mem mps m = Inr (rs, m1)" "lockedAddrList m = []" "writeable m"
    and "\<forall>mp \<in> set mps. contextId mp \<noteq> Some InvalidContextID"
    and "mem_access sc m1 = Inr (sc', m2)" "writes sc" "isLLSC (cmd (mpkt sc))" "contextId sc = Some c" "granule sc = Some g"
  shows "extraData sc' = Some (if still_reserved c g rs then 1 else 0)
    \<and> (still_reserved c g rs \<or> mem_byte m2 x = mem_byte m1 x)"
proof -
  have inv: "lock_inv m" "\<not> (reservation m c = Some g)" using assms(2) by (simp_all add: lock_inv_def reservation_def)
  note r = run_reservation[OF assms(1) inv(1) assms(3,4), of c g]
  have e: "extraData sc' = Some (if still_reserved c g rs then 1 else 0)"
    using store_conditional_result[OF assms(5-7) _ _ assms(8,9)] r inv(2) by simp
  obtain sc1 where w: "mem_write (toHostAddr m1 (p_addr (mpkt sc))) sc m1 = Inr (sc1, m2)" "answer_of sc1 sc'"
    using assms(5,6) by (rule access_write)
  have "writeable m1" using r by simp
  note b = mem_write_fields(5)[OF w(1) this, of x]
  show ?thesis using e b assms(7) answer_of_fields(2)[OF w(2)] by (auto split: if_splits)
qed

text \<open>C39: A store-conditional does not notice every change of the memory. Let a context hold a
  reservation of a granule, and let another access change a byte: a swap, or a store that begins in
  another granule. The change takes place, but the reservation stays, and the store-conditional of
  the context succeeds, also when the changed byte was in the granule.\<close>

theorem store_conditional_misses_changes:
  assumes "lock_inv m" "writeable m" "pmem m \<noteq> None" "reservation m c = Some g"
    and "mem_access w m = Inr (w', m1)" "contextId w \<noteq> Some InvalidContextID"
    and "swaps w \<and> \<not> isAtomic (req (mpkt w)) \<and> \<not> isCondSwap (req (mpkt w))
      \<or> writes w \<and> \<not> isLLSC (cmd (mpkt w)) \<and> granule w \<noteq> Some g"
    and "covers_byte w x" "enabled w (byte_no w x)"
    and "mem_access sc m1 = Inr (sc', m2)" "writes sc" "isLLSC (cmd (mpkt sc))" "contextId sc = Some c" "granule sc = Some g"
  shows "mem_byte m1 x = Some (mdata w ! byte_no w x) \<and> extraData sc' = Some 1"
proof
  have "\<not> loads_locked c w" "\<not> stores_to g w w'"
    using assms(7) by (auto simp: loads_locked_def stores_to_def dest: kinds_disjoint)
  then have "reservation m1 c = Some g" "lock_inv m1"
    using access_reservation[OF assms(5,1,2,6), of c] assms(4) by auto
  then show "extraData sc' = Some 1"
    using store_conditional_result[OF assms(10-12) _ _ assms(13,14)] access_frame(2)[OF assms(5,2)] by simp
  show "mem_byte m1 x = Some (mdata w ! byte_no w x)"
  proof (cases "writes w")
    case True
    obtain w1 where w: "mem_write (toHostAddr m (p_addr (mpkt w))) w m = Inr (w1, m1)" using assms(5) True by (rule access_write)
    have "\<not> isLLSC (cmd (mpkt w))" using assms(7) True by (auto dest: kinds_disjoint)
    then show ?thesis using mem_write_fields(5)[OF w assms(2), of x] assms(3,8,9) by simp
  next
    case False
    then have k: "swaps w" "\<not> isAtomic (req (mpkt w))" "\<not> isCondSwap (req (mpkt w))" using assms(7) by auto
    obtain w1 where w: "plain_swap (toHostAddr m (p_addr (mpkt w))) w m = Inr (w1, m1)"
      using assms(5) by (rule mem_accessE) (use k in \<open>auto simp: swaps_def reads_def writes_def\<close>)
    obtain h where h: "pmem m = Some h" using assms(3) by auto
    let ?off = "toHostAddr m (p_addr (mpkt w))"
    have off: "toHostAddr m x - ?off = x - p_addr (mpkt w)" by (simp add: toHostAddr_def)
    have "mpkt w1 = mpkt w" using swap_fields(3)[of w ?off m w1 m1] w k(2) by simp
    then have "\<exists>n. n = unat (p_size (mpkt w)) \<and> n \<le> length (mdata w) \<and> m1 = m\<lparr> pmem := Some (store_bytes ?off (take n (mdata w)) h) \<rparr>"
      using w h k(3) by (auto simp: plain_swap_def getConstPtr_def swap_allowed_def dest!: mem_setData_fields(1) split: if_splits)
    then show ?thesis using assms(8) off
      by (auto simp: mem_byte_def store_bytes_def covers_byte_def byte_no_def) (auto simp: toHostAddr_def)
  qed
qed

section \<open>A concrete run\<close>

definition sample_memory :: AbstractMemory where
  "sample_memory = \<lparr> mrange = RangeSize 0x90000000 0x1000, pmem = Some (\<lambda>_. 0), writeable = True, lockedAddrList = [],
     backdoor_ptr = True, backdoor_invalidations = 0, clearedExclusive = [] \<rparr>"

definition mem_packet :: "int \<Rightarrow> Command \<Rightarrow> u8 list \<Rightarrow> MemPacket" where
  "mem_packet c cmd0 d =
    \<lparr> mpkt = (Packet_new (sample_request\<lparr> r_size := Some (of_nat (length d)) \<rparr>) cmd0)
        \<lparr> p_flags := VALID_ADDR OR VALID_SIZE OR DYNAMIC_DATA \<rparr>,
      mdata = d, byteEnable = [], extraData = None, contextId = Some c, atomicOp = None, bytesValid = [] \<rparr>"

definition stored :: "((MemPacket \<times> MemPacket) list \<times> AbstractMemory) outcome" where
  "stored = run_mem [mem_packet 1 WriteReq [1, 2, 3, 4], mem_packet 2 StoreCondReq [9, 9, 9, 9],
     mem_packet 3 SwapReq [7, 8]] sample_memory"

definition reread :: "(MemPacket \<times> AbstractMemory) outcome" where
  "reread = mem_access (mem_packet 2 ReadReq [0, 0, 0, 0]) (snd (projr stored))"

lemma outcome_value: "\<not> isl r \<Longrightarrow> r = Inr (fst (projr r), snd (projr r))"
  by (cases r) auto

lemma stored_ok: "\<not> isl stored" "\<not> isl reread"
  by code_simp+

lemma mem_packet_sels [simp]:
  "cmd (mpkt (mem_packet c cmd0 d)) = cmd0" "\<not> cacheResponding (mpkt (mem_packet c cmd0 d))"
  by (simp_all add: mem_packet_def Packet_new_def cacheResponding_def packet_flag_defs flag_isSet_def)

lemma sample_attributes:
  "\<not> isRead WriteReq" "\<not> isInvalidate WriteReq" "\<not> isClean WriteReq" "isRead ReadReq" "\<not> isRead StoreCondReq"
  "\<not> isInvalidate StoreCondReq" "\<not> isClean StoreCondReq" "isLLSC StoreCondReq" "\<not> isLLSC WriteReq" "needsResponse ReadReq"
  by code_simp+

lemma sample_kinds:
  "writes (mem_packet c WriteReq d)" "reads (mem_packet c ReadReq d)" "writes (mem_packet c StoreCondReq d)"
  "swaps (mem_packet c SwapReq d)"
  by (simp_all add: writes_def reads_def swaps_def answered_elsewhere_def sample_attributes)

text \<open>A write, a store-conditional that fails and a swap of the first two bytes.\<close>

theorem memory_returns_last_write_witness:
  "mdata (fst (projr reread)) ! 1 = 8 \<and> mdata (fst (projr reread)) ! 2 = 3
    \<and> cmd (mpkt (fst (projr reread))) = ReadResp"
proof -
  let ?r = "mem_packet 2 ReadReq [0, 0, 0, 0]" and ?x = "0x90000041 :: addr" and ?y = "0x90000042 :: addr"
  have c: "covers_byte ?r ?x" "covers_byte ?r ?y" "byte_no ?r ?x = 1" "byte_no ?r ?y = 2"
    "responseCommand ReadReq = ReadResp"
    "last_written ?x 0 (fst (projr stored)) = 8" "last_written ?y 0 (fst (projr stored)) = 3"
    by code_simp+
  have run: "run_mem [mem_packet 1 WriteReq [1, 2, 3, 4], mem_packet 2 StoreCondReq [9, 9, 9, 9],
      mem_packet 3 SwapReq [7, 8]] sample_memory = Inr (fst (projr stored), snd (projr stored))"
    using outcome_value[OF stored_ok(1)] unfolding stored_def .
  have acc: "mem_access ?r (snd (projr stored)) = Inr (fst (projr reread), snd (projr reread))"
    using outcome_value[OF stored_ok(2)] unfolding reread_def .
  have m: "writeable sample_memory" "pmem sample_memory = Some (\<lambda>_. 0)" by (simp_all add: sample_memory_def)
  note r = memory_returns_last_write[OF run m acc disjI1[OF sample_kinds(2)]]
  show ?thesis using r[OF c(1)] r[OF c(2)] c(3-7) by (simp add: sample_attributes)
qed

definition locked_run :: "((MemPacket \<times> MemPacket) list \<times> AbstractMemory) outcome" where
  "locked_run = run_mem [mem_packet 1 LoadLockedReq [0, 0, 0, 0], mem_packet 2 LoadLockedReq [0, 0, 0, 0]] sample_memory"

definition conditional_store :: "(MemPacket \<times> AbstractMemory) outcome" where
  "conditional_store = mem_access (mem_packet 1 StoreCondReq [5, 6, 7, 8]) (snd (projr locked_run))"

definition swapped :: "(MemPacket \<times> AbstractMemory) outcome" where
  "swapped = mem_access (mem_packet 3 SwapReq [9, 9, 9, 9]) (snd (projr locked_run))"

definition late_store :: "(MemPacket \<times> AbstractMemory) outcome" where
  "late_store = mem_access (mem_packet 1 StoreCondReq [5, 6, 7, 8]) (snd (projr swapped))"

lemma locked_ok: "\<not> isl locked_run" "\<not> isl conditional_store" "\<not> isl swapped" "\<not> isl late_store"
  by code_simp+

theorem store_conditional_iff_witness:
  "extraData (fst (projr conditional_store)) = Some 1 \<and> still_reserved 1 0x90000040 (fst (projr locked_run))"
proof -
  let ?sc = "mem_packet 1 StoreCondReq [5, 6, 7, 8]"
  have v: "granule ?sc = Some 0x90000040" "contextId ?sc = Some 1" "cmd (mpkt ?sc) = StoreCondReq"
    "extraData (fst (projr conditional_store)) = Some 1"
    by code_simp+
  have r: "run_mem [mem_packet 1 LoadLockedReq [0, 0, 0, 0], mem_packet 2 LoadLockedReq [0, 0, 0, 0]] sample_memory
      = Inr (fst (projr locked_run), snd (projr locked_run))"
    using outcome_value[OF locked_ok(1)] unfolding locked_run_def .
  have m: "mem_access ?sc (snd (projr locked_run)) = Inr (fst (projr conditional_store), snd (projr conditional_store))"
    using outcome_value[OF locked_ok(2)] unfolding conditional_store_def .
  have s: "lockedAddrList sample_memory = []" "writeable sample_memory" "isLLSC (cmd (mpkt ?sc))"
    "\<forall>mp \<in> set [mem_packet 1 LoadLockedReq [0, 0, 0, 0], mem_packet 2 LoadLockedReq [0, 0, 0, 0]]. contextId mp \<noteq> Some InvalidContextID"
    by (simp_all add: sample_memory_def sample_attributes InvalidContextID_def) (simp_all add: mem_packet_def)
  have "extraData (fst (projr conditional_store)) = Some (if still_reserved 1 0x90000040 (fst (projr locked_run)) then 1 else 0)"
    using store_conditional_iff[OF r s(1,2,4) m sample_kinds(3) s(3) v(2,1)] by simp
  then show ?thesis using v(4) by (simp split: if_splits)
qed

theorem store_conditional_misses_changes_witness:
  "mem_byte (snd (projr swapped)) 0x90000040 = Some 9 \<and> extraData (fst (projr late_store)) = Some 1"
proof -
  let ?m = "snd (projr locked_run)" and ?w = "mem_packet 3 SwapReq [9, 9, 9, 9]" and ?sc = "mem_packet 1 StoreCondReq [5, 6, 7, 8]"
  let ?x = "0x90000040 :: addr"
  have l: "lock_inv ?m" by code_simp
  have v: "writeable ?m" "pmem ?m \<noteq> None" "reservation ?m 1 = Some 0x90000040" "contextId ?w \<noteq> Some InvalidContextID"
    "\<not> isAtomic (req (mpkt ?w))" "\<not> isCondSwap (req (mpkt ?w))" "covers_byte ?w ?x" "enabled ?w (byte_no ?w ?x)"
    "cmd (mpkt ?sc) = StoreCondReq" "contextId ?sc = Some 1" "granule ?sc = Some 0x90000040" "mdata ?w ! byte_no ?w ?x = 9"
    by code_simp+
  have "mem_byte (snd (projr swapped)) ?x = Some (mdata ?w ! byte_no ?w ?x) \<and> extraData (fst (projr late_store)) = Some 1"
    by (rule store_conditional_misses_changes[of ?m 1 "0x90000040" ?w "fst (projr swapped)" "snd (projr swapped)" ?x ?sc
          "fst (projr late_store)" "snd (projr late_store)"])
      (use l v sample_kinds sample_attributes outcome_value[OF locked_ok(3)] outcome_value[OF locked_ok(4)] in
        \<open>simp_all add: swapped_def late_store_def\<close>)
  then show ?thesis by (simp add: v(12))
qed

end
