(* ===== verification/SimpleMemProps.thy ===== *)
theory SimpleMemProps
  imports SimpleMem AbstractMemProps
begin

text \<open>
  The timing behaviour of the simple memory: it performs the accepted requests one after the other,
  as the plain memory would, sends every response once and in order for each address, and whoever
  was refused will be told. A functional read, however, can return data that has been overwritten.
\<close>

section \<open>Addresses of packets\<close>

definition place :: "MemPacket \<Rightarrow> addr \<times> bool" where
  "place mp = (p_addr (mpkt mp), p_isSecure (mpkt mp))"

lemma matchAddr_place: "matchAddr (mpkt p) (mpkt q) = Inr b \<Longrightarrow> b \<longleftrightarrow> place p = place q"
  by (auto simp: matchAddr_def place_def getAddr_def pkt_isSecure_def split: if_splits)

lemma sm_insert_spec:
  assumes "sm_insert t mp xs = Inr r"
  shows "\<exists>as bs. xs = as @ bs \<and> r = as @ (t, mp) # bs \<and> (xs \<noteq> [] \<longrightarrow> bs \<noteq> []) \<and> (\<forall>x \<in> set as. place (snd x) \<noteq> place mp)"
  using assms
proof (induction t mp xs arbitrary: r rule: sm_insert.induct)
  case (2 t mp x)
  then show ?case by (intro exI[of _ "[]"] exI[of _ "[x]"]) simp
next
  case (3 t mp x y zs)
  show ?case
  proof (cases "t < fst x \<and> place (snd x) \<noteq> place mp")
    case True
    then obtain r1 where r1: "sm_insert t mp (y # zs) = Inr r1" "r = x # r1" "matchAddr (mpkt (snd x)) (mpkt mp) = Inr False"
      using "3.prems" by (auto dest: matchAddr_place split: if_splits)
    obtain as bs where "y # zs = as @ bs" "r1 = as @ (t, mp) # bs" "bs \<noteq> []" "\<forall>x \<in> set as. place (snd x) \<noteq> place mp"
      using "3.IH"[OF _ r1(3) _ r1(1)] True by auto
    then show ?thesis using True r1(2) by (intro exI[of _ "x # as"] exI[of _ bs]) auto
  next
    case False
    then have "r = (t, mp) # x # y # zs" using "3.prems" by (auto dest: matchAddr_place split: if_splits)
    then show ?thesis by (intro exI[of _ "[]"] exI[of _ "x # y # zs"]) simp
  qed
qed auto

text \<open>The queue after a response was added.\<close>

definition enqueued :: "u64 \<Rightarrow> MemPacket \<Rightarrow> (u64 \<times> MemPacket) list \<Rightarrow> (u64 \<times> MemPacket) list \<Rightarrow> bool" where
  "enqueued t mp q q' = (\<exists>as bs. q = as @ bs \<and> q' = as @ (t, mp) # bs \<and> (q \<noteq> [] \<longrightarrow> as \<noteq> [])
     \<and> (\<forall>x \<in> set bs. place (snd x) \<noteq> place mp))"

lemma enqueued_facts:
  assumes "enqueued t mp q q'"
  shows "q' \<noteq> []" "length q' = Suc (length q)" "q \<noteq> [] \<Longrightarrow> hd q' = hd q" "q = [] \<Longrightarrow> q' = [(t, mp)]"
    "filter (\<lambda>p. place p = k) (map snd q') = filter (\<lambda>p. place p = k) (map snd q @ [mp])"
proof -
  obtain as bs where *: "q = as @ bs" "q' = as @ (t, mp) # bs" "q \<noteq> [] \<longrightarrow> as \<noteq> []" "\<forall>x \<in> set bs. place (snd x) \<noteq> place mp"
    using assms by (auto simp: enqueued_def)
  show "q' \<noteq> []" "length q' = Suc (length q)" "q = [] \<Longrightarrow> q' = [(t, mp)]" using *(1,2) by simp_all
  show "q \<noteq> [] \<Longrightarrow> hd q' = hd q" using *(1-3) by (cases as) simp_all
  have "filter (\<lambda>p. place p = k) (map snd bs) = []" if "place mp = k"
    using *(4) that by (auto simp: filter_empty_conv)
  then show "filter (\<lambda>p. place p = k) (map snd q') = filter (\<lambda>p. place p = k) (map snd q @ [mp])"
    by (simp add: *(1,2))
qed

lemma sm_enqueueE:
  assumes "sm_enqueue now t mp s = Inr s'"
  obtains ev where "enqueued t mp (sm_queue s) (sm_queue s')" "s' = s\<lparr> sm_queue := sm_queue s', dequeueEvent := ev \<rparr>"
    "if \<not> retryResp s \<and> dequeueEvent s = None then ev = Some (fst (last (sm_queue s'))) \<and> now \<le> fst (last (sm_queue s'))
     else ev = dequeueEvent s"
proof -
  obtain r ev where r: "sm_insert t mp (rev (sm_queue s)) = Inr r" and s': "s' = s\<lparr> sm_queue := rev r, dequeueEvent := ev \<rparr>"
    and ev: "(if \<not> retryResp s \<and> dequeueEvent s = None then sm_schedule now (fst (hd r)) (dequeueEvent s)
           else Inr (dequeueEvent s)) = Inr ev"
    using assms unfolding sm_enqueue_def rbind_Inr_iff by auto
  obtain as bs where i: "rev (sm_queue s) = as @ bs" "r = as @ (t, mp) # bs" "rev (sm_queue s) \<noteq> [] \<longrightarrow> bs \<noteq> []"
    "\<forall>x \<in> set as. place (snd x) \<noteq> place mp"
    using sm_insert_spec[OF r] by auto
  have "sm_queue s = rev bs @ rev as" using i(1) by (metis rev_append rev_rev_ident)
  then have "enqueued t mp (sm_queue s) (rev r)" unfolding enqueued_def
    using i by (intro exI[of _ "rev bs"] exI[of _ "rev as"]) auto
  moreover have "last (rev r) = hd r" using i(2) by (simp add: last_rev)
  ultimately show thesis using that[of ev] s' ev by (auto simp: sm_schedule_def split: if_splits)
qed

section \<open>Accepting a request\<close>

text \<open>The access of an accepted request: the packet without its delays, its answer and the memory after it.\<close>

definition performed :: "MemPacket \<Rightarrow> MemPacket \<Rightarrow> SimpleMemory \<Rightarrow> SimpleMemory \<Rightarrow> bool" where
  "performed mp0 mp1 s s' = (mem_access mp0 (sm_mem s) = Inr (mp1, sm_mem s') \<and> gh_accepted s' = gh_accepted s @ [mp0]
     \<and> gh_answered s' = gh_answered s)"

lemma sm_acceptE:
  assumes "sm_accept bw now rnd mp s = Inr s'"
  obtains mp0 mp1 t where "performed mp0 mp1 s s'" "retryReq s' = retryReq s" "retryResp s' = retryResp s"
    "(releaseEvent s' = releaseEvent s \<and> isBusy s' = isBusy s)
      \<or> (\<exists>u. releaseEvent s = None \<and> releaseEvent s' = Some u \<and> now \<le> u \<and> isBusy s')"
    "if needsResponse (cmd (mpkt mp0)) then enqueued t mp1 (sm_queue s) (sm_queue s') \<and>
       (if \<not> retryResp s \<and> dequeueEvent s = None
        then dequeueEvent s' = Some (fst (last (sm_queue s'))) \<and> now \<le> fst (last (sm_queue s'))
        else dequeueEvent s' = dequeueEvent s)
     else sm_queue s' = sm_queue s \<and> dequeueEvent s' = dequeueEvent s"
proof -
  let ?mp0 = "mp\<lparr> mpkt := (mpkt mp)\<lparr> headerDelay := 0, payloadDelay := 0 \<rparr> \<rparr>"
  obtain sz s1 l mp1 s2 where
    s1: "(if bw sz \<noteq> 0 then rbind (sm_schedule now (now + bw sz) (releaseEvent s)) (\<lambda>ev. Inr (s\<lparr> releaseEvent := ev, isBusy := True \<rparr>))
           else Inr s) = Inr s1" and
    s2: "sm_recvAtomic rnd ?mp0 s1 = Inr (l, mp1, s2)" and
    s3: "(if needsResponse (cmd (mpkt ?mp0)) then
        sm_enqueue now (now + ucast (headerDelay (mpkt mp) + payloadDelay (mpkt mp)) + getLatency rnd (s2\<lparr> gh_accepted := gh_accepted s2 @ [?mp0] \<rparr>)) mp1
          (s2\<lparr> gh_accepted := gh_accepted s2 @ [?mp0] \<rparr>) else Inr (s2\<lparr> gh_accepted := gh_accepted s2 @ [?mp0] \<rparr>)) = Inr s'"
    using assms unfolding sm_accept_def Let_def rbind_Inr_iff by auto
  have r: "\<exists>ev b. s1 = s\<lparr> releaseEvent := ev, isBusy := b \<rparr> \<and> ((ev = releaseEvent s \<and> b = isBusy s)
      \<or> (\<exists>u. releaseEvent s = None \<and> ev = Some u \<and> now \<le> u \<and> b))"
    using s1 by (auto simp: sm_schedule_def split: if_splits intro!: exI[of _ "releaseEvent s1"] exI[of _ "isBusy s1"])
  then obtain ev b where eb: "s1 = s\<lparr> releaseEvent := ev, isBusy := b \<rparr>" "(ev = releaseEvent s \<and> b = isBusy s)
      \<or> (\<exists>u. releaseEvent s = None \<and> ev = Some u \<and> now \<le> u \<and> b)" by auto
  obtain m1 where m1: "mem_access ?mp0 (sm_mem s) = Inr (mp1, m1)" "s2 = s1\<lparr> sm_mem := m1 \<rparr>"
    using s2 eb(1) by (auto simp: sm_recvAtomic_def split: if_splits)
  show thesis
  proof (cases "needsResponse (cmd (mpkt ?mp0))")
    case True
    then obtain t where "sm_enqueue now t mp1 (s2\<lparr> gh_accepted := gh_accepted s2 @ [?mp0] \<rparr>) = Inr s'" using s3 by auto
    then show thesis
    proof (rule sm_enqueueE)
      fix dev
      assume q: "enqueued t mp1 (sm_queue (s2\<lparr> gh_accepted := gh_accepted s2 @ [?mp0] \<rparr>)) (sm_queue s')"
        and s': "s' = s2\<lparr> gh_accepted := gh_accepted s2 @ [?mp0], sm_queue := sm_queue s', dequeueEvent := dev \<rparr>"
        and e: "if \<not> retryResp (s2\<lparr> gh_accepted := gh_accepted s2 @ [?mp0] \<rparr>) \<and> dequeueEvent (s2\<lparr> gh_accepted := gh_accepted s2 @ [?mp0] \<rparr>) = None
          then dev = Some (fst (last (sm_queue s'))) \<and> now \<le> fst (last (sm_queue s'))
          else dev = dequeueEvent (s2\<lparr> gh_accepted := gh_accepted s2 @ [?mp0] \<rparr>)"
      have f: "sm_mem s' = m1" "gh_accepted s' = gh_accepted s @ [?mp0]" "gh_answered s' = gh_answered s" "retryReq s' = retryReq s"
        "retryResp s' = retryResp s" "releaseEvent s' = ev" "isBusy s' = b" "dequeueEvent s' = dev"
        by (subst s', simp add: m1(2) eb(1))+
      show thesis
        by (rule that[of ?mp0 mp1 t]) (use f q e eb m1 True in \<open>auto simp: performed_def\<close>)
    qed
  next
    case False
    then show thesis using s3 m1 eb by (intro that[of ?mp0 mp1]) (auto simp: performed_def)
  qed
qed

section \<open>The memory is sequential\<close>

definition responses :: "(MemPacket \<times> MemPacket) list \<Rightarrow> MemPacket list" where
  "responses rs = map snd (filter (\<lambda>(q, q'). needsResponse (cmd (mpkt q))) rs)"

lemma run_mem_append:
  "run_mem (ps @ [mp]) m = rbind (run_mem ps m) (\<lambda>(rs, m1). rbind (mem_access mp m1) (\<lambda>(mp', m2). Inr (rs @ [(mp, mp')], m2)))"
proof (induction ps arbitrary: m)
  case Nil
  show ?case by (cases "mem_access mp m") auto
next
  case (Cons p ps)
  show ?case
  proof (cases "mem_access p m")
    case (Inr x)
    obtain p' m' where x: "x = (p', m')" by (cases x)
    then show ?thesis using Inr Cons.IH[of m']
      by (cases "run_mem ps m'"; cases "mem_access mp (snd (projr (run_mem ps m')))") (auto split: prod.splits)
  qed simp
qed

text \<open>The accepted requests were performed in order by the memory alone, and for each address the responses
  that have left or wait are the answers of that run, in its order.\<close>

definition sequential :: "AbstractMemory \<Rightarrow> SimpleMemory \<Rightarrow> bool" where
  "sequential m0 s = (\<exists>rs. run_mem (gh_accepted s) m0 = Inr (rs, sm_mem s) \<and>
     (\<forall>k. filter (\<lambda>p. place p = k) (gh_answered s @ map snd (sm_queue s)) = filter (\<lambda>p. place p = k) (responses rs)))"

text \<open>Whoever was refused will be told: the release is scheduled while the memory is busy.\<close>

definition release_ok :: "u64 \<Rightarrow> SimpleMemory \<Rightarrow> bool" where
  "release_ok now s = (isBusy s = (releaseEvent s \<noteq> None) \<and> (retryReq s \<longrightarrow> isBusy s) \<and> (\<forall>t. releaseEvent s = Some t \<longrightarrow> now \<le> t))"

definition queue_ok :: "u64 \<Rightarrow> SimpleMemory \<Rightarrow> bool" where
  "queue_ok now s = (if sm_queue s = [] then dequeueEvent s = None \<and> \<not> retryResp s
     else if retryResp s then dequeueEvent s = None \<and> fst (hd (sm_queue s)) \<le> now
     else \<exists>t. dequeueEvent s = Some t \<and> now \<le> t \<and> fst (hd (sm_queue s)) \<le> t)"

text \<open>What a call of the memory keeps while a response is being sent.\<close>

definition extends :: "SimpleMemory \<Rightarrow> SimpleMemory \<Rightarrow> bool" where
  "extends s s' = (retryResp s' = retryResp s \<and> length (sm_queue s) \<le> length (sm_queue s')
     \<and> (sm_queue s \<noteq> [] \<longrightarrow> hd (sm_queue s') = hd (sm_queue s))
     \<and> (dequeueEvent s' = dequeueEvent s \<or> length (sm_queue s) < length (sm_queue s')))"

lemma extends_refl: "extends s s" by (simp add: extends_def)

lemma extends_trans: "extends s s1 \<Longrightarrow> extends s1 s2 \<Longrightarrow> extends s s2"
  by (auto simp: extends_def)

lemma accept_keeps:
  assumes "sm_accept bw now rnd mp s = Inr s'" "release_ok now s" "\<not> isBusy s" "\<not> retryReq s"
  shows "release_ok now s'" "extends s s'" "sequential m0 s \<Longrightarrow> sequential m0 s'" "queue_ok now s \<Longrightarrow> queue_ok now s'"
proof -
  obtain mp0 mp1 t where p: "performed mp0 mp1 s s'" "retryReq s' = retryReq s" "retryResp s' = retryResp s"
    "(releaseEvent s' = releaseEvent s \<and> isBusy s' = isBusy s)
      \<or> (\<exists>u. releaseEvent s = None \<and> releaseEvent s' = Some u \<and> now \<le> u \<and> isBusy s')"
    and q: "if needsResponse (cmd (mpkt mp0)) then enqueued t mp1 (sm_queue s) (sm_queue s') \<and>
       (if \<not> retryResp s \<and> dequeueEvent s = None
        then dequeueEvent s' = Some (fst (last (sm_queue s'))) \<and> now \<le> fst (last (sm_queue s'))
        else dequeueEvent s' = dequeueEvent s)
     else sm_queue s' = sm_queue s \<and> dequeueEvent s' = dequeueEvent s"
    using assms(1) by (rule sm_acceptE)
  show "release_ok now s'" using p(2,4) assms(2-4) by (auto simp: release_ok_def)
  show "extends s s'" using p(3) q enqueued_facts(2,3)[of t mp1 "sm_queue s" "sm_queue s'"]
    by (auto simp: extends_def split: if_splits)
  show "sequential m0 s'" if seq: "sequential m0 s"
  proof -
    obtain rs where rs: "run_mem (gh_accepted s) m0 = Inr (rs, sm_mem s)"
      "\<And>k. filter (\<lambda>p. place p = k) (gh_answered s @ map snd (sm_queue s)) = filter (\<lambda>p. place p = k) (responses rs)"
      using seq by (auto simp: sequential_def)
    have r: "run_mem (gh_accepted s') m0 = Inr (rs @ [(mp0, mp1)], sm_mem s')"
      using rs(1) p(1) by (simp add: performed_def run_mem_append)
    have "filter (\<lambda>p. place p = k) (gh_answered s' @ map snd (sm_queue s')) = filter (\<lambda>p. place p = k) (responses (rs @ [(mp0, mp1)]))" for k
      using rs(2)[of k] q p(1) enqueued_facts(5)[of t mp1 "sm_queue s" "sm_queue s'" k]
      by (auto simp: performed_def responses_def split: if_splits)
    then show ?thesis using r by (auto simp: sequential_def)
  qed
  show "queue_ok now s'" if qk: "queue_ok now s"
  proof (cases "needsResponse (cmd (mpkt mp0))")
    case True
    then have e: "enqueued t mp1 (sm_queue s) (sm_queue s')" using q by simp
    show ?thesis
    proof (cases "sm_queue s = []")
      case True
      then have "sm_queue s' = [(t, mp1)]" by (rule enqueued_facts(4)[OF e])
      then show ?thesis using q \<open>needsResponse _\<close> qk True p(3) by (auto simp: queue_ok_def)
    next
      case False
      then show ?thesis using q \<open>needsResponse _\<close> qk p(3) enqueued_facts(1,3)[OF e] by (auto simp: queue_ok_def split: if_splits)
    qed
  next
    case False
    then show ?thesis using q qk p(3) by (simp add: queue_ok_def)
  qed
qed

lemma request_keeps:
  assumes "sm_recvTimingReq bw now rnd mp s = Inr (b, s')" "release_ok now s"
  shows "release_ok now s'" "extends s s'" "sequential m0 s \<Longrightarrow> sequential m0 s'" "queue_ok now s \<Longrightarrow> queue_ok now s'"
proof -
  consider "s' = s" | "isBusy s" "s' = s\<lparr> retryReq := True \<rparr>" | "\<not> isBusy s" "\<not> retryReq s" "sm_accept bw now rnd mp s = Inr s'"
    using assms(1) by (auto simp: sm_recvTimingReq_def split: if_splits)
  then have "release_ok now s' \<and> extends s s' \<and> (sequential m0 s \<longrightarrow> sequential m0 s') \<and> (queue_ok now s \<longrightarrow> queue_ok now s')"
  proof cases
    case 2
    then show ?thesis using assms(2) by (auto simp: release_ok_def extends_def sequential_def queue_ok_def)
  qed (use assms(2) accept_keeps[OF _ assms(2)] in \<open>auto simp: extends_refl\<close>)
  then show "release_ok now s'" "extends s s'" "sequential m0 s \<Longrightarrow> sequential m0 s'" "queue_ok now s \<Longrightarrow> queue_ok now s'"
    by auto
qed

lemma calls_keep:
  assumes "sm_calls bw now cs s = Inr s'" "release_ok now s"
  shows "release_ok now s' \<and> extends s s' \<and> (sequential m0 s \<longrightarrow> sequential m0 s') \<and> (queue_ok now s \<longrightarrow> queue_ok now s')"
  using assms
proof (induction cs arbitrary: s)
  case Nil
  then show ?case by (simp add: extends_refl)
next
  case (Cons c cs)
  obtain mp rnd where c: "c = (mp, rnd)" by (cases c)
  obtain b s1 where s1: "sm_recvTimingReq bw now rnd mp s = Inr (b, s1)" "sm_calls bw now cs s1 = Inr s'"
    using Cons.prems(1) c by auto
  note k = request_keeps[OF s1(1) Cons.prems(2)]
  show ?case using Cons.IH[OF s1(2) k(1)] k extends_trans by blast
qed

section \<open>The events\<close>

lemma release_keeps:
  assumes "sm_releaseEvent bw peer now s e = Inr (s', e')" "release_ok now s"
  shows "release_ok now s' \<and> (sequential m0 s \<longrightarrow> sequential m0 s') \<and> (queue_ok now s \<longrightarrow> queue_ok now s')"
proof -
  let ?s = "s\<lparr> releaseEvent := None, isBusy := False, retryReq := False \<rparr>"
  have k: "release_ok now ?s" "sequential m0 ?s = sequential m0 s" "queue_ok now ?s = queue_ok now s"
    by (simp_all add: release_ok_def sequential_def queue_ok_def)
  consider "s' = ?s" | calls where "sm_calls bw now calls ?s = Inr s'"
    using assms by (auto simp: sm_releaseEvent_def sm_release_def Let_def split: if_splits)
  then show ?thesis using k calls_keep[OF _ k(1)] by cases metis+
qed

text \<open>A neighbour that refuses a response sends no request while it does so.\<close>

definition refuses_silently :: "'e response_peer \<Rightarrow> bool" where
  "refuses_silently peer = (\<forall>mp e calls e'. peer mp e = Inr (False, calls, e') \<longrightarrow> calls = [])"

lemma sm_dequeueE:
  assumes "sm_dequeue bw peer now s e = Inr (s', e')" "sm_queue s = (t, mp) # q0"
  obtains success calls s1 where "peer mp e = Inr (success, calls, e')" "sm_calls bw now calls s = Inr s1"
    "if success then s' = (let s3 = s1\<lparr> retryResp := False, sm_queue := tl (sm_queue s1), gh_answered := gh_answered s1 @ [mp] \<rparr> in
      case sm_queue s3 of (t1, _) # _ \<Rightarrow> s3\<lparr> dequeueEvent := Some (max t1 now) \<rparr>
        | [] \<Rightarrow> if sm_drainState s3 = Draining
               then s3\<lparr> sm_drainState := Drained, sm_drain_signals := sm_drain_signals s3 + 1 \<rparr> else s3)
      else s' = s1\<lparr> retryResp := True \<rparr>"
proof -
  obtain success calls e1 where p1: "peer mp e = Inr (success, calls, e1)"
    using assms by (cases "peer mp e") (auto simp: sm_dequeue_def)
  obtain s1 where p2: "sm_calls bw now calls s = Inr s1"
    using assms p1 by (cases "sm_calls bw now calls s") (auto simp: sm_dequeue_def)
  have s': "(let s2 = s1\<lparr> retryResp := \<not> success \<rparr> in
         if success then
           let s3 = s2\<lparr> sm_queue := tl (sm_queue s2), gh_answered := gh_answered s2 @ [mp] \<rparr> in
           (case sm_queue s3 of
              (t1, _) # _ \<Rightarrow> Inr (s3\<lparr> dequeueEvent := Some (max t1 now) \<rparr>, e1)
            | [] \<Rightarrow> Inr (if sm_drainState s3 = Draining
                      then s3\<lparr> sm_drainState := Drained, sm_drain_signals := sm_drain_signals s3 + 1 \<rparr> else s3, e1))
         else Inr (s2, e1)) = (Inr (s', e') :: (SimpleMemory \<times> 'a) outcome)"
    using assms(1) by (simp only: sm_dequeue_def assms(2) list.case prod.case p1 p2 rbind.simps)
  show thesis
  proof (cases "success \<and> tl (sm_queue s1) \<noteq> []")
    case True
    then obtain t1 x q where "tl (sm_queue s1) = (t1, x) # q" by (cases "tl (sm_queue s1)") auto
    then show thesis using p1 p2 s' True by (intro that[of success calls s1]) (simp_all add: Let_def)
  next
    case False
    then show thesis using p1 p2 s' by (intro that[of success calls s1]) (simp_all add: Let_def split: if_splits)
  qed
qed

lemma dequeue_keeps:
  assumes "sm_dequeue bw peer now s e = Inr (s', e')" "refuses_silently peer" "release_ok now s" "dequeueEvent s = None"
    "sm_queue s \<noteq> []" "fst (hd (sm_queue s)) \<le> now"
  shows "release_ok now s'" "sequential m0 s \<Longrightarrow> sequential m0 s'" "queue_ok now s'"
proof -
  obtain t mp q0 where q0: "sm_queue s = (t, mp) # q0" using assms(5) by (cases "sm_queue s") auto
  obtain success calls s1 where p: "peer mp e = Inr (success, calls, e')" and s1: "sm_calls bw now calls s = Inr s1"
    and s': "if success then s' = (let s3 = s1\<lparr> retryResp := False, sm_queue := tl (sm_queue s1), gh_answered := gh_answered s1 @ [mp] \<rparr> in
      case sm_queue s3 of (t1, _) # _ \<Rightarrow> s3\<lparr> dequeueEvent := Some (max t1 now) \<rparr>
        | [] \<Rightarrow> if sm_drainState s3 = Draining
               then s3\<lparr> sm_drainState := Drained, sm_drain_signals := sm_drain_signals s3 + 1 \<rparr> else s3)
      else s' = s1\<lparr> retryResp := True \<rparr>"
    using assms(1) by (rule sm_dequeueE[OF _ q0])
  have k: "release_ok now s1 \<and> extends s s1" "sequential m0 s \<Longrightarrow> sequential m0 s1" for m0
    using calls_keep[OF s1 assms(3), of m0] by blast+
  obtain q1 where q1: "sm_queue s1 = (t, mp) # q1"
    using k(1) q0 by (cases "sm_queue s1") (auto simp: extends_def)
  have ev: "q1 = [] \<Longrightarrow> dequeueEvent s1 = None" using k(1) assms(4) q0 q1 by (auto simp: extends_def)
  show "release_ok now s'" using k s' q1 by (auto simp: release_ok_def Let_def split: if_splits list.splits)
  show "sequential m0 s'" if "sequential m0 s"
  proof -
    have "sequential m0 s1" using k that by blast
    moreover have "gh_answered s' @ map snd (sm_queue s') = gh_answered s1 @ map snd (sm_queue s1) \<and> gh_accepted s' = gh_accepted s1
        \<and> sm_mem s' = sm_mem s1"
      using s' q1 by (cases q1) (auto simp: Let_def split: if_splits)
    ultimately show ?thesis unfolding sequential_def by metis
  qed
  show "queue_ok now s'"
  proof (cases success)
    case True
    then show ?thesis using s' q1 ev by (auto simp: queue_ok_def Let_def split: if_splits list.splits)
  next
    case False
    then have "peer mp e = Inr (False, calls, e')" using p by simp
    then have "calls = []" using assms(2) unfolding refuses_silently_def by blast
    then have "s1 = s" using s1 by simp
    then show ?thesis using s' False assms(4-6) by (simp add: queue_ok_def)
  qed
qed

section \<open>Runs\<close>

text \<open>The events of a run: a request arrives, time passes up to the next scheduled event, a scheduled event
  runs at its tick, a refused neighbour asks for its response, the simulator drains the memory, or the
  neighbour changes its own state.\<close>

inductive sm_step :: "(u32 \<Rightarrow> u64) \<Rightarrow> 'e retry_peer \<Rightarrow> 'e response_peer \<Rightarrow> u64 \<times> SimpleMemory \<times> 'e \<Rightarrow> u64 \<times> SimpleMemory \<times> 'e \<Rightarrow> bool"
  for bw retry resp where
  sm_request: "sm_recvTimingReq bw now rnd mp s = Inr (b, s') \<Longrightarrow> sm_step bw retry resp (now, s, e) (now, s', e)"
| sm_time: "now \<le> now' \<Longrightarrow> \<forall>t. releaseEvent s = Some t \<or> dequeueEvent s = Some t \<longrightarrow> now' \<le> t
    \<Longrightarrow> sm_step bw retry resp (now, s, e) (now', s, e)"
| sm_released: "releaseEvent s = Some now \<Longrightarrow> sm_releaseEvent bw retry now s e = Inr (s', e')
    \<Longrightarrow> sm_step bw retry resp (now, s, e) (now, s', e')"
| sm_dequeued: "dequeueEvent s = Some now \<Longrightarrow> sm_dequeueEvent bw resp now s e = Inr (s', e')
    \<Longrightarrow> sm_step bw retry resp (now, s, e) (now, s', e')"
| sm_retried: "sm_recvRespRetry bw resp now s e = Inr (s', e') \<Longrightarrow> sm_step bw retry resp (now, s, e) (now, s', e')"
| sm_drained: "sm_step bw retry resp (now, s, e) (now, sm_drain s, e)"
| sm_world: "sm_step bw retry resp (now, s, e) (now, s, e')"

definition sm_invariant :: "AbstractMemory \<Rightarrow> u64 \<times> SimpleMemory \<times> 'e \<Rightarrow> bool" where
  "sm_invariant m0 c = (case c of (now, s, e) \<Rightarrow> release_ok now s \<and> sequential m0 s \<and> queue_ok now s)"

lemma sm_invariant_init: "sm_invariant m0 (now, new_SimpleMemory m0 lat var, e)"
  by (simp add: sm_invariant_def new_SimpleMemory_def release_ok_def queue_ok_def sequential_def responses_def)

lemma sm_step_keeps:
  assumes "sm_step bw retry resp c c'" "refuses_silently resp" "sm_invariant m0 c"
  shows "sm_invariant m0 c'"
  using assms
proof (induction rule: sm_step.induct)
  case (sm_request now rnd mp s b s' e)
  then show ?case using request_keeps[OF sm_request(1)] by (auto simp: sm_invariant_def)
next
  case (sm_time now now' s e)
  then show ?case by (auto simp: sm_invariant_def release_ok_def queue_ok_def split: if_splits)
next
  case (sm_released s now e s' e')
  then show ?case using release_keeps[OF sm_released(2)] by (auto simp: sm_invariant_def)
next
  case (sm_dequeued s now e s' e')
  let ?s = "s\<lparr> dequeueEvent := None \<rparr>"
  have "sm_dequeue bw resp now ?s e = Inr (s', e')" using sm_dequeued(2) by (simp add: sm_dequeueEvent_def)
  moreover have "release_ok now ?s" "sequential m0 ?s" "sm_queue ?s \<noteq> []" "fst (hd (sm_queue ?s)) \<le> now"
    using sm_dequeued(1,4) by (auto simp: sm_invariant_def release_ok_def sequential_def queue_ok_def split: if_splits)
  ultimately show ?case using dequeue_keeps[of bw resp now ?s e s' e'] sm_dequeued(3) by (auto simp: sm_invariant_def)
next
  case (sm_retried now s e s' e')
  then have "sm_dequeue bw resp now s e = Inr (s', e')" "retryResp s" by (auto simp: sm_recvRespRetry_def split: if_splits)
  then show ?case using dequeue_keeps[of bw resp now s e s' e'] sm_retried(2,3)
    by (auto simp: sm_invariant_def queue_ok_def split: if_splits)
next
  case (sm_drained now s e)
  then show ?case by (auto simp: sm_invariant_def sm_drain_def release_ok_def queue_ok_def sequential_def)
next
  case (sm_world now s e e')
  then show ?case by (simp add: sm_invariant_def)
qed

lemma sm_run_keeps:
  assumes "(sm_step bw retry resp)\<^sup>*\<^sup>* c c'" "refuses_silently resp" "sm_invariant m0 c"
  shows "sm_invariant m0 c'"
  using assms by (induction rule: rtranclp_induct) (auto intro: sm_step_keeps)

text \<open>C15: The timing memory is the plain memory, one request after the other. Whatever
  requests arrive and whenever, and however the neighbour takes or refuses the responses (sending no
  request while it refuses one), the accepted requests have been performed in the order of their
  acceptance, as a run of the memory alone; the responses sent so far and those in the queue are,
  for every address, the answers of that run, each once and in its order. A requestor that was
  refused is told at a scheduled tick; a response that waits has its event scheduled, not before its
  time, or the neighbour owes a retry.\<close>

theorem timing_memory_is_sequential:
  assumes "(sm_step bw retry resp)\<^sup>*\<^sup>* (start, new_SimpleMemory m0 lat var, e0) (now, s, e)" "refuses_silently resp"
  shows "(\<exists>rs. run_mem (gh_accepted s) m0 = Inr (rs, sm_mem s) \<and> (\<forall>k. filter (\<lambda>p. place p = k) (gh_answered s @ map snd (sm_queue s))
      = filter (\<lambda>p. place p = k) (map snd (filter (\<lambda>(q, q'). needsResponse (cmd (mpkt q))) rs))))
    \<and> (retryReq s \<longrightarrow> (\<exists>t. releaseEvent s = Some t \<and> now \<le> t))
    \<and> (sm_queue s \<noteq> [] \<longrightarrow> (if retryResp s then fst (hd (sm_queue s)) \<le> now
        else \<exists>t. dequeueEvent s = Some t \<and> now \<le> t \<and> fst (hd (sm_queue s)) \<le> t))"
proof -
  have i: "sm_invariant m0 (now, s, e)" using sm_run_keeps[OF assms sm_invariant_init] .
  then have "sequential m0 s" "release_ok now s" "queue_ok now s" by (simp_all add: sm_invariant_def)
  then show ?thesis
    by (auto simp: sequential_def responses_def release_ok_def queue_ok_def split: if_splits)
qed

section \<open>Functional reads\<close>

lemma functional_read:
  assumes "functionalAccess mp m = Inr (mp1, m1)" "cmd (mpkt mp) = ReadReq"
  shows "m1 = m" "cmd (mpkt mp1) = ReadResp" "place mp1 = place mp" "p_size (mpkt mp1) = p_size (mpkt mp)"
proof -
  have "isRead ReadReq" "responseCommand ReadReq = ReadResp" by code_simp+
  then show "m1 = m" "cmd (mpkt mp1) = ReadResp" "place mp1 = place mp" "p_size (mpkt mp1) = p_size (mpkt mp)"
    using assms by (auto simp: functionalAccess_def respond_def makeResponse_ok_iff place_def mem_setData_def setData_def split: option.splits)
qed

text \<open>Two reads of the same bytes: the overlap is everything.\<close>

lemma satisfy_same:
  assumes "satisfy_from mp other = Inr (b, mp1, other1)" "cmd (mpkt mp) = ReadResp" "cmd (mpkt other) = ReadResp"
    and "place other = place mp" "p_size (mpkt other) = p_size (mpkt mp)" "p_size (mpkt mp) \<noteq> 0"
    and "unat (p_addr (mpkt mp)) + unat (p_size (mpkt mp)) \<le> 2 ^ 64" "unat (p_size (mpkt mp)) < 2 ^ 31"
  shows "b \<and> other1 = other \<and> take (unat (p_size (mpkt mp))) (mdata mp1) = take (unat (p_size (mpkt mp))) (mdata other)"
proof -
  let ?a = "p_addr (mpkt mp)" and ?n = "ucast (p_size (mpkt mp)) :: u64"
  have c: "hasData ReadResp" "isRead ReadResp" "\<not> isPrint ReadResp" by code_simp+
  have "unat (p_size (mpkt mp)) < 2 ^ 64" by (rule order.strict_trans2[OF unsigned_less]) simp
  then have n: "unat ?n = unat (p_size (mpkt mp))" by (simp add: unsigned_ucast_eq take_bit_nat_eq_self_iff)
  have sn: "(scast (p_size (mpkt mp)) :: u64) = ?n"
  proof -
    have "uint (p_size (mpkt mp)) < 2 ^ 31" using assms(8) by (metis of_nat_less_iff of_nat_numeral of_nat_power uint_nat)
    moreover have "- (2 ^ 31) \<le> uint (p_size (mpkt mp))" by (rule order.trans[OF _ uint_ge_0]) simp
    ultimately have "sint (p_size (mpkt mp)) = uint (p_size (mpkt mp))"
      unfolding sint_uint by (subst signed_take_bit_int_eq_self_iff) simp
    then show ?thesis unfolding scast_eq ucast_eq by simp
  qed
  have n0: "?n \<noteq> 0" using assms(6) n by (metis unat_eq_zero unsigned_0)
  have "unat (?n - 1) = unat ?n - 1" using n0 by (rule unat_minus_one)
  moreover have "0 < unat ?n" using n0 by (simp add: unat_gt_0)
  ultimately have "unat (?a + (?n - 1)) = unat ?a + (unat ?n - 1)" using assms(7) n by (subst unat_add_lem[THEN iffD1]) auto
  then have e: "\<not> ?a + ?n - 1 < ?a" by (simp add: word_less_nat_alt add_diff_eq)
  obtain va sec vs d fa fs where "getAddr (mpkt other) = Inr va" "pkt_isSecure (mpkt other) = Inr sec" "getSize (mpkt other) = Inr vs"
    "(if hasData (cmd (mpkt other)) then rbind (getPtr other) (\<lambda>d. Inr (Some d)) else Inr None) = Inr d"
    "getAddr (mpkt mp) = Inr fa" "getSize (mpkt mp) = Inr fs"
    using assms(1) unfolding satisfy_from_def rbind_Inr_iff by blast
  then have g: "getAddr (mpkt other) = Inr ?a" "pkt_isSecure (mpkt other) = Inr (p_isSecure (mpkt mp))" "getSize (mpkt other) = Inr (p_size (mpkt mp))"
    "getPtr other = Inr (mdata other)" "getAddr (mpkt mp) = Inr ?a" "getSize (mpkt mp) = Inr (p_size (mpkt mp))"
    using assms(3-5) c by (auto simp: getAddr_def pkt_isSecure_def getSize_def getPtr_def place_def split: if_splits)
  have "satisfy_read 0 0 (unat ?n) (mdata other) mp = Inr (b, mp1)" and "other1 = other"
    using assms(1) e by (auto simp: satisfy_from_def g c assms(2,3) Let_def sn)
  then show ?thesis
    by (auto simp: satisfy_read_def copy_into_def getPtr_def n list_all_iff Let_def split: if_splits)
qed

text \<open>C40: A functional read can return data that has been overwritten. If the first response in
  the queue answers an earlier read of the same bytes, a functional read of them returns the data of
  that response, whatever has been stored since: the memory is read first and the queue laid over
  it. The store is not changed.\<close>

theorem stale_functional_read:
  assumes "sm_recvFunctional r s = Inr (r', s')" "cmd (mpkt r) = ReadReq" "p_size (mpkt r) \<noteq> 0"
    and "unat (p_addr (mpkt r)) + unat (p_size (mpkt r)) \<le> 2 ^ 64" "unat (p_size (mpkt r)) < 2 ^ 31"
    and "sm_queue s = (t, p) # q" "cmd (mpkt p) = ReadResp" "place p = place r" "p_size (mpkt p) = p_size (mpkt r)"
  shows "take (unat (p_size (mpkt r))) (mdata r') = take (unat (p_size (mpkt r))) (mdata p) \<and> s' = s"
proof -
  obtain r1 m1 q1 where f: "functionalAccess r (sm_mem s) = Inr (r1, m1)" and sq: "satisfy_queue r1 (sm_queue s) = Inr (r', q1)"
    and s': "s' = s\<lparr> sm_mem := m1, sm_queue := q1 \<rparr>"
    using assms(1) by (auto simp: sm_recvFunctional_def)
  note fr = functional_read[OF f assms(2)]
  obtain b r2 p1 where m: "satisfy_from r1 p = Inr (b, r2, p1)"
    and z: "if b then r' = r2 \<and> q1 = (t, p1) # q else rbind (satisfy_queue r2 q) (\<lambda>(mp2, ps1). Inr (mp2, (t, p1) # ps1)) = Inr (r', q1)"
    using sq assms(6,7) by (auto simp: mp_trySatisfyFunctional_def isMaskedWrite_def split: if_splits)
  have "b \<and> p1 = p \<and> take (unat (p_size (mpkt r))) (mdata r2) = take (unat (p_size (mpkt r))) (mdata p)"
    using satisfy_same[OF m fr(2) assms(7)] fr(3,4) assms(3,4,5,8,9) by (simp add: place_def)
  then show ?thesis using z s' fr(1) assms(6) by simp
qed

section \<open>A run\<close>

text \<open>A read of four bytes and a write to them are accepted; the response of the read is refused once.\<close>

definition no_delay :: "u32 \<Rightarrow> u64" where "no_delay n = 0"

definition takes_second :: "nat response_peer" where
  "takes_second mp n = Inr (0 < n, [], Suc n)"

definition no_retry :: "nat retry_peer" where "no_retry n = Inr ([], n)"

definition run0 :: SimpleMemory where "run0 = new_SimpleMemory sample_memory 10 0"

definition run1 :: "(bool \<times> SimpleMemory) outcome" where
  "run1 = sm_recvTimingReq no_delay 5 0 (mem_packet 1 ReadReq [0, 0, 0, 0]) run0"

definition run2 :: "(bool \<times> SimpleMemory) outcome" where
  "run2 = sm_recvTimingReq no_delay 5 0 (mem_packet 1 WriteReq [1, 2, 3, 4]) (snd (projr run1))"

definition run3 :: "(SimpleMemory \<times> nat) outcome" where
  "run3 = sm_dequeueEvent no_delay takes_second 15 (snd (projr run2)) 0"

definition run4 :: "(SimpleMemory \<times> nat) outcome" where
  "run4 = sm_recvRespRetry no_delay takes_second 15 (fst (projr run3)) (snd (projr run3))"

lemma run_ok: "\<not> isl run1" "\<not> isl run2" "\<not> isl run3" "\<not> isl run4"
  by code_simp+

lemma run_events: "releaseEvent (snd (projr run2)) = None" "dequeueEvent (snd (projr run2)) = Some 15"
  by code_simp+

lemma run_steps:
  "(sm_step no_delay no_retry takes_second)\<^sup>*\<^sup>* (5, run0, 0) (15, fst (projr run4), snd (projr run4))"
proof -
  let ?st = "sm_step no_delay no_retry takes_second"
  have "?st (5, run0, 0) (5, snd (projr run1), 0)"
    by (rule sm_request) (use outcome_value[OF run_ok(1)] in \<open>simp only: run1_def\<close>)
  moreover have "?st (5, snd (projr run1), 0) (5, snd (projr run2), 0)"
    by (rule sm_request) (use outcome_value[OF run_ok(2)] in \<open>simp only: run2_def\<close>)
  moreover have "?st (5, snd (projr run2), 0) (15, snd (projr run2), 0)"
    by (rule sm_time) (simp_all add: run_events)
  moreover have "?st (15, snd (projr run2), 0) (15, fst (projr run3), snd (projr run3))"
    by (rule sm_dequeued) (use run_events outcome_value[OF run_ok(3)] in \<open>simp_all only: run3_def\<close>)
  moreover have "?st (15, fst (projr run3), snd (projr run3)) (15, fst (projr run4), snd (projr run4))"
    by (rule sm_retried) (use outcome_value[OF run_ok(4)] in \<open>simp only: run4_def\<close>)
  ultimately show ?thesis by (meson converse_rtranclp_into_rtranclp rtranclp.rtrancl_refl)
qed

theorem timing_memory_is_sequential_witness:
  "map (\<lambda>p. cmd (mpkt p)) (gh_answered (fst (projr run4))) = [ReadResp]
    \<and> map (\<lambda>p. cmd (mpkt p)) (gh_accepted (fst (projr run4))) = [ReadReq, WriteReq]
    \<and> (\<exists>rs. run_mem (gh_accepted (fst (projr run4))) sample_memory = Inr (rs, sm_mem (fst (projr run4))))
    \<and> dequeueEvent (fst (projr run4)) = Some 15"
proof -
  have "refuses_silently takes_second" by (simp add: refuses_silently_def takes_second_def)
  then have "\<exists>rs. run_mem (gh_accepted (fst (projr run4))) sample_memory = Inr (rs, sm_mem (fst (projr run4)))"
    using timing_memory_is_sequential[OF run_steps[unfolded run0_def]] by blast
  moreover have "map (\<lambda>p. cmd (mpkt p)) (gh_answered (fst (projr run4))) = [ReadResp]"
    "map (\<lambda>p. cmd (mpkt p)) (gh_accepted (fst (projr run4))) = [ReadReq, WriteReq]" "dequeueEvent (fst (projr run4)) = Some 15"
    by code_simp+
  ultimately show ?thesis by blast
qed

definition functional_run :: "(MemPacket \<times> SimpleMemory) outcome" where
  "functional_run = sm_recvFunctional (mem_packet 2 ReadReq [7, 7, 7, 7]) (snd (projr run2))"

lemma functional_run_ok: "\<not> isl functional_run"
  by code_simp

theorem stale_functional_read_witness:
  "mem_byte (sm_mem (snd (projr run2))) 0x90000040 = Some 1 \<and> mdata (fst (projr functional_run)) = [0, 0, 0, 0]"
proof -
  let ?r = "mem_packet 2 ReadReq [7, 7, 7, 7]" and ?s = "snd (projr run2)"
  let ?q = "sm_queue (snd (projr run2))"
  have r: "sm_recvFunctional ?r ?s = Inr (fst (projr functional_run), snd (projr functional_run))"
    using outcome_value[OF functional_run_ok] unfolding functional_run_def .
  have c: "cmd (mpkt ?r) = ReadReq" "p_size (mpkt ?r) \<noteq> 0" "p_addr (mpkt ?r) = 0x90000040"
    "cmd (mpkt (snd (hd ?q))) = ReadResp" "place (snd (hd ?q)) = place ?r" "p_size (mpkt (snd (hd ?q))) = p_size (mpkt ?r)"
    "?q \<noteq> []" "p_size (mpkt ?r) = 4" "mdata (snd (hd ?q)) = [0, 0, 0, 0]" "length (mdata (fst (projr functional_run))) = 4"
    "mem_byte (sm_mem ?s) 0x90000040 = Some 1"
    by code_simp+
  have b: "unat (p_addr (mpkt ?r)) + unat (p_size (mpkt ?r)) \<le> 2 ^ 64" "unat (p_size (mpkt ?r)) < 2 ^ 31"
    by (simp_all add: c(3,8))
  have q: "?q = (fst (hd ?q), snd (hd ?q)) # tl ?q" using c(7) by simp
  have "take (unat (p_size (mpkt ?r))) (mdata (fst (projr functional_run))) = take (unat (p_size (mpkt ?r))) (mdata (snd (hd ?q)))"
    using stale_functional_read[OF r c(1,2) b(1,2) q c(4-6)] by blast
  then show ?thesis using c(8-11) by simp
qed

end
