(* ===== verification/Spec2Isabelle.thy ===== *)
theory Spec2Isabelle
  imports CxlProtocol PcieLinkReplay EventQueueProps BridgeQueuesProps FunctionalPaths DeviceXBarProps CxlProcessorProps PacketQueueProps SimpleMemProps
begin

text \<open>
  A verification development of the CXL memory system of this gem5 fork. gem5 is an event
  driven simulator of computer systems; the fork adds a CXL memory expander: a host bridge with
  a home agent, a CXL device with a device coherency engine, the CXL.mem and CXL.cache messages
  they exchange, and a PCI Express link. The development models this code, and the parts of
  gem5's memory system it is built on, as executable functions and step relations, and proves
  what makes them correct. All file names below are relative to
  \<^verbatim>\<open>src/gem5/src/\<close>.

  \<^bold>\<open>The system.\<close> Host caches send packets through crossbars to the host bridge
  (\<^verbatim>\<open>mem/PciBridge.cc\<close>). The home agent in the bridge turns a packet for device memory into a
  CXL.mem request and attaches it to the packet's request. The packet crosses the PCI Express
  link and further crossbars and reaches the device (\<^verbatim>\<open>dev/cxl/TestDev/CXLDevice.cc\<close>), whose
  coherency engine checks the bias of the page, forwards the access to the device's memory and
  builds the CXL.mem completion (no data response, data response). In the other direction, a
  request of the device to host memory becomes a CXL.cache request that the home agent answers,
  and a request of the device to a page in host bias is first checked against the host caches.

  \<^bold>\<open>Conventions.\<close> Machine integers are words of their width. Every \<open>panic\<close>, \<open>fatal\<close>, failed
  \<open>assert\<close> and undefined behaviour of the code is a value of the sum type \<open>outcome\<close>
  (\<^verbatim>\<open>Prelude\<close>). State is passed explicitly. What a handler calls outside the modelled code (the
  memory as the device and the crossbars see it, the caches above the bridge, the devices at the ends of a link or
  below a crossbar, the delay of a transmission, the clock) is a parameter of the definition,
  and what a theorem needs of it is a named hypothesis with a witness. Outside the event queue
  itself a scheduled event is the tick it is scheduled for. Loops are structural recursion or
  have a termination proof, so no fuel is used anywhere; the loops of the event queue, which
  follow pointers, and the send loop of the device processor are partial functions whose value is
  \<open>None\<close> when they do not return, and the theorems show that they return (in every state the
  event queue reaches, and for every access of the processor within the address space). Fields whose names start with \<open>gh_\<close> are history variables that no
  operation reads. Debug output and statistics are left out.

  \<^bold>\<open>The theories.\<close>

  \<^item> \<^verbatim>\<open>Prelude\<close>: widths, errors, the bind of outcomes, flag words (\<^verbatim>\<open>base/flags.hh\<close>) and shared
    lemmas.
  \<^item> \<^verbatim>\<open>CxlMemMsgs\<close>, \<^verbatim>\<open>CxlCacheMsgs\<close> (\<^verbatim>\<open>mem/cxl/cxl_packet.hh\<close>, \<^verbatim>\<open>cxl_cache_packet.hh\<close>): the
    opcodes with their encodings, one record per message class, constructors, sizes on the
    link and the casts between message classes.
  \<^item> \<^verbatim>\<open>MemCmds\<close>, \<^verbatim>\<open>Packets\<close> (\<^verbatim>\<open>mem/packet.hh\<close>, \<^verbatim>\<open>packet.cc\<close>, \<^verbatim>\<open>request.hh\<close>): the command table with
    its queries, requests and packets. The table is shown consistent: requests and responses
    pair up.
  \<^item> \<^verbatim>\<open>HomeAgent\<close> (\<^verbatim>\<open>mem/PciBridge.cc\<close>, class \<open>HomeAgent\<close>): translation of host packets, the
    answers to CXL.cache requests, and the coherence checks, atomic and timing.
  \<^item> \<^verbatim>\<open>BridgeConfig\<close>, \<^verbatim>\<open>BridgeConfigProps\<close> (\<^verbatim>\<open>mem/PciBridge.cc\<close>, \<open>config_class\<close>): the register
    file of the root ports as bytes, configuration reads and writes, the address windows, the
    decoding to ports, the announced ranges, construction and checkpoints. The read-only bits are
    determined exactly (every other bit is changed by some writes); writing the memory window opens
    it; it is shown where announced addresses are forwarded, in a root complex and in a switch, with
    and without base address registers; a restored bridge decodes as the saved one. The ranges of the
    downstream ports are shown not to reach above the last window.
  \<^item> \<^verbatim>\<open>BridgeQueues\<close>, \<^verbatim>\<open>BridgeQueuesProps\<close>, \<^verbatim>\<open>BridgeAtomic\<close> (\<^verbatim>\<open>mem/PciBridge.cc\<close>, the ports): requests,
    responses, send events and retries of the bridge ports, and the atomic path. A history of
    the requests in flight and an invariant by rule induction give the bounds of the queues, the
    meaning of the response counters, the absence of failing assertions and of lost wake-ups for
    ordinary traffic (host bias checks and device snoops, which bypass the routing table, are
    in the model but outside these theorems). The atomic path sends what the timing path queues.
  \<^item> \<^verbatim>\<open>BiasStore\<close>, \<^verbatim>\<open>DcohDevice\<close> (\<^verbatim>\<open>dev/cxl/TestDev/CXLDevice.cc\<close>): the device and its coherency
    engine, with all branches of the response construction. The bias table is an instance of
    the locale \<open>bias_store\<close>; the last update of a page wins, queries and updates through the
    port agree, a completion only touches its own packet and page, and a response is passed on
    once.
  \<^item> \<^verbatim>\<open>CxlProtocol\<close>: home agent and device together. Against an abstract table of the CXL.mem
    transactions, every translated host request is completed as the table says, meta field and value
    included, and every other command is refused; reads come back with completion and data in timing
    mode; device requests are granted as the sharers allow; coherence checks
    leave the right bias. The one combination the device rejects is characterised exactly.
  \<^item> \<^verbatim>\<open>BoundedFifo\<close>, \<^verbatim>\<open>PcieLink\<close>, \<^verbatim>\<open>PcieLinkProps\<close>, \<^verbatim>\<open>PcieLinkReplay\<close> (\<^verbatim>\<open>mem/pcie_link.cc\<close>): the
    link as a step relation over two interfaces. The replay buffer is an instance of the locale
    \<open>bounded_fifo\<close>. In every reachable state the packets delivered on one side are a prefix of
    those accepted on the other; while the devices accept, nothing is lost (the sender's window
    is exactly the undelivered rest, for fewer than 2 to the 31 packets, the range of the
    acknowledgement's \<open>int\<close>). Two runs show what goes wrong beyond that: a refused first packet
    can be lost, and a retransmitted packet can be used after it was deleted.
  \<^item> \<^verbatim>\<open>AddrRanges\<close>, \<^verbatim>\<open>RangeMap\<close> (\<^verbatim>\<open>base/addr_range.hh\<close>, \<^verbatim>\<open>addr_range_map.hh\<close>): address ranges, their
    subtraction and interleaving, and the map with a cache of recent entries, an instance of
    the locales \<open>range_lookup\<close> (plain and interleaved entries) and \<open>range_map\<close> (insertion of plain
    ones); its cache is invisible.
  \<^item> \<^verbatim>\<open>XBarLayer\<close>, \<^verbatim>\<open>XBarPorts\<close>, \<^verbatim>\<open>IOXBar\<close> (\<^verbatim>\<open>mem/xbar.cc\<close>, \<^verbatim>\<open>noncoherent_xbar.cc\<close>): the arbitration
    layers of a crossbar, address decoding, and the non-coherent crossbar. A layer never fails
    an assertion and forgets no waiting port; decoding finds the port that covers a range; a
    response returns to the port of its request. The traffic in between (\<open>io_traffic\<close>) may be
    anything, and the layers may change in any way between two operations.
  \<^item> \<^verbatim>\<open>FunctionalPaths\<close>: functional accesses through the non-coherent crossbar and through the root
    complex, and the construction of the crossbar. They leave the timing state alone and, unless a
    queued packet answers them, go where atomic accesses go.
  \<^item> \<^verbatim>\<open>SnoopFilter\<close>, \<^verbatim>\<open>SnoopFilterProps\<close> (\<^verbatim>\<open>mem/snoop_filter.cc\<close>): the filter with its bit masks. It
    refines a specification by sets of ports, and never leaves out a port that holds a line.
  \<^item> \<^verbatim>\<open>CoherentXBar\<close>, \<^verbatim>\<open>CoherentXBarProps\<close>, \<^verbatim>\<open>CoherentXBarInv\<close>, \<^verbatim>\<open>CoherentXBarTraffic\<close>
    (\<^verbatim>\<open>mem/coherent_xbar.cc\<close>): the coherent crossbar with all its handlers, written over a record of
    the places where the three coherent crossbars differ. The locale \<open>xbar_frame\<close> says what such a
    variant may change, \<open>xbar_variant\<close> adds that ordinary requests get a route; inside them a step
    relation of all calls, the invariant of the tables, and what traffic of other requests keeps of
    a waiting request. The step relation leaves out bias checks and CXL.cache response messages
    outside the point of coherency (\<open>admissible\<close>), whose routes the code drops. The locales are
    interpreted on the coherent crossbar (\<open>coherent\<close>), the host
    crossbar (\<open>host\<close>) and the device crossbar (\<open>device\<close>).
  \<^item> \<^verbatim>\<open>HostXBar\<close>, \<^verbatim>\<open>HostXBarProps\<close>, \<^verbatim>\<open>HostXBarFilter\<close>, \<^verbatim>\<open>CoherentXBarDirectory\<close>
    (\<^verbatim>\<open>mem/cxl_host_xbar.cc\<close>): the host crossbar with its presence filter of addresses the device may
    have. Under admissible traffic its states are well formed and snoop responses answer the request
    they belong to; host reads of exactly an address the device got go to the device, and a request is one step of the specification of the
    snoop filter. Two theorems show where the changes to the code of the coherent crossbar go wrong:
    a refused read forgets the device, and a CXL.cache response message upsets the snoop filter.
  \<^item> \<^verbatim>\<open>DeviceXBar\<close>, \<^verbatim>\<open>DeviceXBarProps\<close> (\<^verbatim>\<open>dev/cxl/TestDev/CXLXBar.cc\<close>): the crossbar of the device
    with the bias check of the processor's accesses. The check goes to the host, comes back and is
    answered to the processor, whatever other traffic (\<open>dev_traffic\<close>) passes; a refused check stops
    the simulation.
  \<^item> \<^verbatim>\<open>ChunkGenerator\<close>, \<^verbatim>\<open>CxlProcessor\<close>, \<^verbatim>\<open>CxlProcessorProps\<close> (\<^verbatim>\<open>base/chunk_generator.hh\<close>,
    \<^verbatim>\<open>dev/cxl/TestDev/CXLProcessor.cc\<close>): the chunks of a region, and the processor of the device that
    sends a packet for each. The chunks tile the region; in atomic mode an access returns and is
    complete; in timing mode the processor sticks at the first refusal.
  \<^item> \<^verbatim>\<open>PacketQueue\<close>, \<^verbatim>\<open>PacketQueueProps\<close> (\<^verbatim>\<open>mem/packet_queue.cc\<close>): the queue of a port. It loses no
    packet, keeps its order, and always has a reason to wake up while it is not empty.
  \<^item> \<^verbatim>\<open>AbstractMem\<close>, \<^verbatim>\<open>AbstractMemProps\<close> (\<^verbatim>\<open>mem/abstract_mem.cc\<close>, the payload in \<^verbatim>\<open>mem/packet.hh\<close>): the
    memory behind the crossbars, byte by byte, with masked writes, swaps and the reservations of
    load-locked accesses. A read or swap returns what was stored last; a store-conditional succeeds
    exactly when no store that begins in its granule was carried out since the load; swaps and stores that begin in another
    granule escape it.
  \<^item> \<^verbatim>\<open>SimpleMem\<close>, \<^verbatim>\<open>SimpleMemProps\<close> (\<^verbatim>\<open>mem/simple_mem.cc\<close>, functional accesses in \<^verbatim>\<open>mem/packet.cc\<close>): the
    simple memory controller with its response queue and events, as a step relation. In every
    reachable state it refines the plain memory: the accepted requests were performed one after the
    other, each response appears once and in order for its address, and no refused requestor or
    waiting response is forgotten. A functional read can return data that has been overwritten.
  \<^item> \<^verbatim>\<open>EventQueue\<close>, \<^verbatim>\<open>EventQueueHeap\<close>, \<^verbatim>\<open>EventQueueRefine\<close>, \<^verbatim>\<open>EventQueueSpec\<close>, \<^verbatim>\<open>EventQueueAgenda\<close>,
    \<^verbatim>\<open>EventQueueProps\<close> (\<^verbatim>\<open>sim/eventq.cc\<close>, \<^verbatim>\<open>sim/simulate.cc\<close>): the event queue as linked bins of
    events in a store, scheduling, servicing, the simulation loop, checkpoints, the debugging
    check and the destructor. The bins are related to a sorted list of bins, the operations to
    insertion and removal there (the locale \<open>sorted_queue\<close>), and the whole queue refines an
    agenda ordered by time and priority; the simulation never goes back in time.

  \<^bold>\<open>Not modelled.\<close> The data payload of packets outside the
  memory (the crossbars, the bridge and the link only pass it on), the debug printing of messages, the backdoor form of atomic accesses, the test workload of the device
  processor and the stubs of CXL registers (\<^verbatim>\<open>dev/cxl/device.cc\<close>, \<^verbatim>\<open>dev/cxl/host.cc\<close>), which have no protocol
  logic of their own. Caches, the DRAM
  controller, processors, instruction sets, Ruby, the Python configuration and the vendored
  libraries are generic gem5 and enter only through packets and parameters.
\<close>

end
